(* ===== verification/Prelude.thy ===== *)
theory Prelude
  imports Main "HOL-Library.AList" "HOL-Library.Char_ord" "HOL-Library.List_Lexorder"
begin

text \<open>
  Shared vocabulary of the development: Python values that travel as JSON, dictionaries with
  insertion order, sorted duplicate-free lists, timed traces of labelled steps, and the collection
  \<open>py_simps\<close> of unfolding rules for the executable Python idioms.
\<close>

named_theorems py_simps \<open>unfolding rules for the Python idioms\<close>

section \<open>Time\<close>

text \<open>
  Timestamps are microseconds since the Unix epoch (the stored ISO strings have a fixed width of
  microseconds, so their lexicographic order is the order of these integers).
\<close>

type_synonym time = int

section \<open>JSON values\<close>

datatype json =
    JNull
  | JBool bool
  | JInt int
  | JStr string
  | JList "json list"
  | JObj "(string \<times> json) list"

text \<open>Python truthiness of a decoded value.\<close>

fun truthy :: "json \<Rightarrow> bool" where
  "truthy JNull = False"
| "truthy (JBool b) = b"
| "truthy (JInt i) = (i \<noteq> 0)"
| "truthy (JStr s) = (s \<noteq> [])"
| "truthy (JList xs) = (xs \<noteq> [])"
| "truthy (JObj kvs) = (kvs \<noteq> [])"

text \<open>\<open>d.get(k)\<close> on a decoded object; a missing key is \<open>None\<close>, a stored null is \<open>JNull\<close>.\<close>

fun jget :: "json \<Rightarrow> string \<Rightarrow> json" where
  "jget (JObj kvs) k = (case map_of kvs k of None \<Rightarrow> JNull | Some v \<Rightarrow> v)"
| "jget _ k = JNull"

fun jhas :: "json \<Rightarrow> string \<Rightarrow> bool" where
  "jhas (JObj kvs) k = (k \<in> fst ` set kvs)"
| "jhas _ k = False"

text \<open>\<open>value or {}\<close> for a value that is an object or null.\<close>

definition or_empty :: "json \<Rightarrow> json" where
  "or_empty j = (if truthy j then j else JObj [])"

lemma jget_or_empty [simp]: "jget (or_empty j) k = jget j k"
  by (cases j) (auto simp: or_empty_def)

section \<open>Python lists and dictionaries\<close>

definition sorted_set :: "'a::linorder list \<Rightarrow> 'a list" where
  "sorted_set xs = sort (remdups xs)"

lemma set_sorted_set [simp]: "set (sorted_set xs) = set xs"
  by (simp add: sorted_set_def)

lemma sorted_sorted_set [simp]: "sorted (sorted_set xs)"
  by (simp add: sorted_set_def)

lemma distinct_sorted_set [simp]: "distinct (sorted_set xs)"
  by (simp add: sorted_set_def)

lemma sorted_set_Nil [simp]: "sorted_set [] = []"
  by (simp add: sorted_set_def)

lemma sorted_set_eq_Nil [simp]: "sorted_set xs = [] \<longleftrightarrow> xs = []"
  using set_sorted_set[of xs] by (metis set_empty)

text \<open>\<open>list(dict.fromkeys(xs))\<close>: first occurrences, in order.\<close>

fun dedup_keep_first :: "'a list \<Rightarrow> 'a list" where
  "dedup_keep_first [] = []"
| "dedup_keep_first (x # xs) = x # filter (\<lambda>y. y \<noteq> x) (dedup_keep_first xs)"

lemma set_dedup_keep_first [simp]: "set (dedup_keep_first xs) = set xs"
  by (induction xs) auto

lemma distinct_dedup_keep_first [simp]: "distinct (dedup_keep_first xs)"
  by (induction xs) auto

text \<open>\<open>next((x for x in xs if p(x)), None)\<close>.\<close>

lemma find_SomeD: "find p xs = Some x \<Longrightarrow> x \<in> set xs \<and> p x"
  by (metis find_Some_iff nth_mem)

lemma find_NoneD: "find p xs = None \<Longrightarrow> x \<in> set xs \<Longrightarrow> \<not> p x"
  by (metis find_None_iff)

text \<open>A dictionary whose iteration order matters is an association list.\<close>

abbreviation dset :: "'k \<Rightarrow> 'v \<Rightarrow> ('k \<times> 'v) list \<Rightarrow> ('k \<times> 'v) list" where
  "dset \<equiv> AList.update"

abbreviation ddel :: "'k \<Rightarrow> ('k \<times> 'v) list \<Rightarrow> ('k \<times> 'v) list" where
  "ddel \<equiv> AList.delete"

abbreviation dkeys :: "('k \<times> 'v) list \<Rightarrow> 'k list" where
  "dkeys d \<equiv> map fst d"

lemma lookup_dset [simp]: "map_of (dset k v d) = (map_of d)(k \<mapsto> v)"
  by (simp add: update_conv')

lemma lookup_ddel [simp]: "map_of (ddel k d) = (map_of d)(k := None)"
  by (simp add: delete_conv')

lemma set_dset_subset: "set (dset k v d) \<subseteq> insert (k, v) (set d)"
  by (induction d) auto

lemma distinct_dset: "distinct (dkeys d) \<Longrightarrow> distinct (dkeys (dset k v d))"
  by (rule distinct_update)

lemma distinct_ddel: "distinct (dkeys d) \<Longrightarrow> distinct (dkeys (ddel k d))"
  by (rule distinct_delete)

section \<open>Timed traces\<close>

text \<open>
  \<open>trace step t s ls t' s'\<close>: the labelled steps \<open>ls\<close>, each with the clock at which it runs,
  lead from \<open>s\<close> to \<open>s'\<close> while the clock never goes back.
\<close>

inductive trace :: "(time \<Rightarrow> 'l \<Rightarrow> 's \<Rightarrow> 's \<Rightarrow> bool) \<Rightarrow> time \<Rightarrow> 's \<Rightarrow> (time \<times> 'l) list \<Rightarrow> time \<Rightarrow> 's \<Rightarrow> bool"
  for step where
  trace_nil: "trace step t s [] t s"
| trace_cons: "t \<le> clk \<Longrightarrow> step clk l s s1 \<Longrightarrow> trace step clk s1 ls t' s' \<Longrightarrow>
    trace step t s ((clk, l) # ls) t' s'"

inductive_cases trace_nilE [elim!]: "trace step t s [] t' s'"
inductive_cases trace_consE [elim]: "trace step t s (x # ls) t' s'"

lemma trace_clock: "trace step t s ls t' s' \<Longrightarrow> t \<le> t'"
  by (induction rule: trace.induct) auto

lemma trace_append:
  "trace step t s ls t1 s1 \<Longrightarrow> trace step t1 s1 ls' t' s' \<Longrightarrow> trace step t s (ls @ ls') t' s'"
  by (induction rule: trace.induct) (auto intro: trace.intros)

text \<open>A property that every step of the trace keeps holds at its end.\<close>

lemma trace_preserves:
  assumes "trace step t s ls t' s'" and "P s"
    and "\<And>clk l s s1. (clk, l) \<in> set ls \<Longrightarrow> step clk l s s1 \<Longrightarrow> P s \<Longrightarrow> P s1"
  shows "P s'"
  using assms by (induction rule: trace.induct) auto

section \<open>Results\<close>

lemma Inr_bind_case: "(case r of Inl e \<Rightarrow> Inl e | Inr x \<Rightarrow> Inr (f x)) = Inr y \<longleftrightarrow> (\<exists>x. r = Inr x \<and> y = f x)"
  by (cases r) auto

end
