(* ===== verification/CycleStore.thy ===== *)
theory CycleStore
  imports Prelude
begin

text \<open>
  The durable run/progress store of \<open>app/cycle_checkpoint.py\<close> (\<open>CycleRunPersistenceMixin\<close>):
  three SQL tables, every method of the mixin as a function on them, and the reachable states of
  the store under any interleaving of workers.  A method that commits is one atomic step; a
  raised exception rolls its transaction back and is the value \<open>Inl\<close>.
\<close>

section \<open>Rows and tables\<close>

type_synonym cid = string
type_synonym owner = string
type_synonym iid = string

datatype candidate_state =
    PENDING | IN_PROGRESS | COMPLETED | RETRYABLE_FAILURE | EVIDENCE_UNAVAILABLE | TERMINAL_OUTCOME

datatype run_status =
    R_ACCEPTED | R_RUNNING | R_PUBLISHED | R_CANCEL_REQUESTED | R_COMPLETED | R_FAILED | R_CANCELLED

datatype phase = PHASE_BASELINE | PHASE_DEEP | PHASE_ETF_ONBOARD

definition FINAL_STATES :: "candidate_state set" where
  "FINAL_STATES = {COMPLETED, EVIDENCE_UNAVAILABLE, TERMINAL_OUTCOME}"

definition ACTIVE_RUN_STATUSES :: "run_status set" where
  "ACTIVE_RUN_STATUSES = {R_ACCEPTED, R_RUNNING, R_PUBLISHED, R_CANCEL_REQUESTED}"

definition DEFAULT_MAX_ATTEMPTS :: nat where "DEFAULT_MAX_ATTEMPTS = 3"
definition DEFAULT_LEASE_SECONDS :: int where "DEFAULT_LEASE_SECONDS = 300"

record run_row =
  r_market :: string
  r_status :: run_status
  r_parameters :: json
  r_as_of :: "string option"
  r_selection :: json
  r_owner_id :: "owner option"
  r_lease_expires_at :: "time option"
  r_resume_count :: nat
  r_error_code :: "string option"
  r_created_at :: time
  r_updated_at :: time

record progress_row =
  p_state :: candidate_state
  p_disposition :: "string option"
  p_failure_reason :: "string option"
  p_attempts :: nat
  p_payload :: json
  p_updated_at :: time

type_synonym progress_key = "cid \<times> phase \<times> iid"

record db =
  db_runs :: "cid \<Rightarrow> run_row option"
  db_active :: "string \<Rightarrow> cid option"
  db_progress :: "(progress_key \<times> progress_row) list"

datatype db_error = CycleOwnershipLost cid | IntegrityError

definition empty_db :: db where
  "empty_db = \<lparr>db_runs = Map.empty, db_active = Map.empty, db_progress = []\<rparr>"

text \<open>\<open>_lease_now\<close>: an explicit \<open>now\<close>, else the database clock.\<close>

definition lease_now :: "time option \<Rightarrow> time \<Rightarrow> time" where
  "lease_now now clk = (case now of Some t \<Rightarrow> t | None \<Rightarrow> clk)"

text \<open>
  The two lease tests of the SQL text; a comparison with NULL is not true.
\<close>

definition lease_live :: "time \<Rightarrow> run_row \<Rightarrow> bool" where
  "lease_live clk r = (case r_lease_expires_at r of None \<Rightarrow> False | Some t \<Rightarrow> clk < t)"

definition unowned :: "time \<Rightarrow> run_row \<Rightarrow> bool" where
  "unowned clk r =
     (r_owner_id r = None \<or>
      (case r_lease_expires_at r of None \<Rightarrow> True | Some t \<Rightarrow> t \<le> clk))"

definition put_run :: "cid \<Rightarrow> run_row \<Rightarrow> db \<Rightarrow> db" where
  "put_run c r d = d\<lparr>db_runs := (db_runs d)(c \<mapsto> r)\<rparr>"

text \<open>\<open>DELETE FROM global_opportunity_cycle_active WHERE cycle_id = ?\<close>.\<close>

definition delete_active :: "cid \<Rightarrow> db \<Rightarrow> db" where
  "delete_active c d = d\<lparr>db_active := (\<lambda>m. if db_active d m = Some c then None else db_active d m)\<rparr>"

text \<open>
  \<open>UPDATE global_opportunity_cycle_run SET ... WHERE cycle_id = ? AND ...\<close>: the row count is
  1 or 0 since \<open>cycle_id\<close> is the primary key.
\<close>

definition update_run :: "cid \<Rightarrow> (run_row \<Rightarrow> bool) \<Rightarrow> (run_row \<Rightarrow> run_row) \<Rightarrow> db \<Rightarrow> bool \<times> db" where
  "update_run c p f d =
     (case db_runs d c of
        None \<Rightarrow> (False, d)
      | Some r \<Rightarrow> if p r then (True, put_run c (f r) d) else (False, d))"

section \<open>Runs\<close>

definition cycle_run :: "cid \<Rightarrow> db \<Rightarrow> run_row option" where
  "cycle_run c d = db_runs d c"

definition active_cycle_run :: "string \<Rightarrow> db \<Rightarrow> (cid \<times> run_row) option" where
  "active_cycle_run m d =
     (case db_active d m of
        None \<Rightarrow> None
      | Some c \<Rightarrow> map_option (Pair c) (db_runs d c))"

text \<open>The inserting transaction of \<open>create_cycle_run\<close>: both primary keys must be free.\<close>

definition insert_cycle_run :: "cid \<Rightarrow> json \<Rightarrow> string \<Rightarrow> time \<Rightarrow> db \<Rightarrow> db_error + db" where
  "insert_cycle_run c params m now d =
     (if db_runs d c \<noteq> None \<or> db_active d m \<noteq> None then Inl IntegrityError
      else Inr (d\<lparr>db_runs := (db_runs d)(c \<mapsto>
             \<lparr>r_market = m, r_status = R_ACCEPTED, r_parameters = params, r_as_of = None,
              r_selection = JNull, r_owner_id = None, r_lease_expires_at = None,
              r_resume_count = 0, r_error_code = None, r_created_at = now, r_updated_at = now\<rparr>),
            db_active := (db_active d)(m \<mapsto> c)\<rparr>))"

definition create_cycle_run ::
  "cid \<Rightarrow> json \<Rightarrow> string \<Rightarrow> time \<Rightarrow> db \<Rightarrow> db_error + ((cid \<times> run_row) option \<times> bool) \<times> db" where
  "create_cycle_run c params m now d =
     (case active_cycle_run m d of
        Some existing \<Rightarrow> Inr ((Some existing, False), d)
      | None \<Rightarrow>
          (case insert_cycle_run c params m now d of
             Inl e \<Rightarrow>
               (case active_cycle_run m d of
                  Some existing \<Rightarrow> Inr ((Some existing, False), d)
                | None \<Rightarrow> Inl e)
           | Inr d' \<Rightarrow> Inr ((map_option (Pair c) (cycle_run c d'), True), d')))"

definition claim_cycle_run :: "cid \<Rightarrow> owner \<Rightarrow> int \<Rightarrow> time \<Rightarrow> db \<Rightarrow> bool \<times> db" where
  "claim_cycle_run c own lease_seconds now d =
     update_run c
       (\<lambda>r. r_status r \<in> ACTIVE_RUN_STATUSES \<and>
            (r_owner_id r = None \<or> r_owner_id r = Some own \<or>
             (case r_lease_expires_at r of None \<Rightarrow> True | Some t \<Rightarrow> t < now)))
       (\<lambda>r. r\<lparr>r_resume_count := r_resume_count r +
                (if r_status r \<noteq> R_ACCEPTED \<and> (r_owner_id r = None \<or> r_owner_id r \<noteq> Some own)
                 then 1 else 0),
              r_status := (if r_status r = R_ACCEPTED then R_RUNNING else r_status r),
              r_owner_id := Some own,
              r_lease_expires_at := Some (now + lease_seconds * 1000000),
              r_updated_at := now\<rparr>)
       d"

definition renew_cycle_lease :: "cid \<Rightarrow> owner \<Rightarrow> int \<Rightarrow> time \<Rightarrow> time \<Rightarrow> db \<Rightarrow> bool \<times> db" where
  "renew_cycle_lease c own lease_seconds now clk d =
     update_run c
       (\<lambda>r. r_owner_id r = Some own \<and> r_status r \<in> ACTIVE_RUN_STATUSES \<and> lease_live clk r)
       (\<lambda>r. r\<lparr>r_lease_expires_at := Some (now + lease_seconds * 1000000), r_updated_at := now\<rparr>)
       d"

definition release_cycle_run :: "cid \<Rightarrow> owner \<Rightarrow> time \<Rightarrow> time \<Rightarrow> db \<Rightarrow> db" where
  "release_cycle_run c own now clk d =
     snd (update_run c
       (\<lambda>r. r_owner_id r = Some own \<and> lease_live clk r \<and> r_status r \<in> ACTIVE_RUN_STATUSES)
       (\<lambda>r. r\<lparr>r_owner_id := None, r_lease_expires_at := None, r_updated_at := now\<rparr>)
       d)"

text \<open>
  The keyword arguments of \<open>update_cycle_run\<close>: an absent keyword is \<open>None\<close>.
\<close>

record run_fields =
  f_status :: "run_status option"
  f_as_of :: "string option"
  f_selection :: "json option"
  f_error_code :: "string option"

definition no_fields :: run_fields where
  "no_fields = \<lparr>f_status = None, f_as_of = None, f_selection = None, f_error_code = None\<rparr>"

definition update_states :: "run_fields \<Rightarrow> run_status set" where
  "update_states f =
     (if f_status f = Some R_COMPLETED then {R_RUNNING, R_PUBLISHED}
      else if f_status f = Some R_CANCELLED then {R_ACCEPTED, R_RUNNING, R_CANCEL_REQUESTED}
      else {R_ACCEPTED, R_RUNNING})"

definition set_fields :: "run_fields \<Rightarrow> time \<Rightarrow> run_row \<Rightarrow> run_row" where
  "set_fields f now r =
     r\<lparr>r_status := (case f_status f of None \<Rightarrow> r_status r | Some s \<Rightarrow> s),
       r_as_of := (case f_as_of f of None \<Rightarrow> r_as_of r | Some a \<Rightarrow> Some a),
       r_selection := (case f_selection f of None \<Rightarrow> r_selection r | Some s \<Rightarrow> s),
       r_error_code := (case f_error_code f of None \<Rightarrow> r_error_code r | Some e \<Rightarrow> Some e),
       r_updated_at := now\<rparr>"

definition clear_owner :: "run_row \<Rightarrow> run_row" where
  "clear_owner r = r\<lparr>r_owner_id := None, r_lease_expires_at := None\<rparr>"

definition terminal_status :: "run_status \<Rightarrow> bool" where
  "terminal_status s \<longleftrightarrow> s \<in> {R_COMPLETED, R_FAILED, R_CANCELLED}"

definition update_cycle_run :: "cid \<Rightarrow> owner \<Rightarrow> run_fields \<Rightarrow> time \<Rightarrow> time \<Rightarrow> db \<Rightarrow> db_error + db" where
  "update_cycle_run c own f now clk d =
     (let (matched, d1) = update_run c
            (\<lambda>r. r_owner_id r = Some own \<and> lease_live clk r \<and> r_status r \<in> update_states f)
            (set_fields f now) d
      in if \<not> matched then Inl (CycleOwnershipLost c)
         else if (case f_status f of None \<Rightarrow> False | Some s \<Rightarrow> terminal_status s)
         then Inr (delete_active c (snd (update_run c (\<lambda>r. True) clear_owner d1)))
         else Inr d1)"

definition fail_unowned_cycle_run :: "cid \<Rightarrow> string \<Rightarrow> time \<Rightarrow> time \<Rightarrow> db \<Rightarrow> db" where
  "fail_unowned_cycle_run c err now clk d =
     (let (matched, d1) = update_run c
            (\<lambda>r. r_status r \<in> {R_ACCEPTED, R_RUNNING} \<and> unowned clk r)
            (\<lambda>r. r\<lparr>r_status := R_FAILED, r_error_code := Some err, r_owner_id := None,
                    r_lease_expires_at := None, r_updated_at := now\<rparr>) d
      in if matched then delete_active c d1 else d1)"

section \<open>Two-phase cancellation\<close>

definition request_cycle_cancel :: "cid \<Rightarrow> string \<Rightarrow> time \<Rightarrow> db \<Rightarrow> bool \<times> db" where
  "request_cycle_cancel c err now d =
     update_run c
       (\<lambda>r. r_status r \<in> {R_ACCEPTED, R_RUNNING})
       (\<lambda>r. r\<lparr>r_status := R_CANCEL_REQUESTED, r_error_code := Some err, r_updated_at := now\<rparr>)
       d"

definition cancel_cycle_run :: "cid \<Rightarrow> owner \<Rightarrow> string \<Rightarrow> time \<Rightarrow> time \<Rightarrow> db \<Rightarrow> bool \<times> db" where
  "cancel_cycle_run c own err now clk d =
     (let (matched, d1) = update_run c
            (\<lambda>r. r_owner_id r = Some own \<and>
                 r_status r \<in> {R_CANCEL_REQUESTED, R_RUNNING, R_ACCEPTED} \<and> lease_live clk r)
            (\<lambda>r. r\<lparr>r_status := R_CANCELLED, r_error_code := Some err, r_owner_id := None,
                    r_lease_expires_at := None, r_updated_at := now\<rparr>) d
      in (matched, if matched then delete_active c d1 else d1))"

definition cycle_cancellation_requested :: "cid \<Rightarrow> db \<Rightarrow> bool" where
  "cycle_cancellation_requested c d =
     (case db_runs d c of None \<Rightarrow> False | Some r \<Rightarrow> r_status r \<in> {R_CANCEL_REQUESTED, R_CANCELLED})"

definition cycle_cancel_status :: "cid \<Rightarrow> db \<Rightarrow> run_status option" where
  "cycle_cancel_status c d =
     (case db_runs d c of
        None \<Rightarrow> None
      | Some r \<Rightarrow> if r_status r \<in> {R_CANCEL_REQUESTED, R_CANCELLED} then Some (r_status r) else None)"

definition cancel_cycle_run_unowned :: "cid \<Rightarrow> string option \<Rightarrow> time \<Rightarrow> time \<Rightarrow> db \<Rightarrow> bool \<times> db" where
  "cancel_cycle_run_unowned c reason now clk d =
     (let (matched, d1) = update_run c
            (\<lambda>r. r_status r = R_CANCEL_REQUESTED \<and> unowned clk r)
            (\<lambda>r. r\<lparr>r_status := R_CANCELLED,
                    r_error_code := Some (case reason of
                       None \<Rightarrow> ''CYCLE_CANCELLED''
                     | Some x \<Rightarrow> if x = [] then ''CYCLE_CANCELLED'' else x),
                    r_owner_id := None, r_lease_expires_at := None, r_updated_at := now\<rparr>) d
      in (matched, if matched then delete_active c d1 else d1))"

section \<open>Publication fences\<close>

definition fence_published_owner :: "cid \<Rightarrow> owner \<Rightarrow> time \<Rightarrow> time \<Rightarrow> db \<Rightarrow> db_error + db" where
  "fence_published_owner c own now clk d =
     (let (matched, d1) = update_run c
            (\<lambda>r. r_owner_id r = Some own \<and> r_status r = R_PUBLISHED \<and> lease_live clk r)
            (\<lambda>r. r\<lparr>r_updated_at := now\<rparr>) d
      in if matched then Inr d1 else Inl (CycleOwnershipLost c))"

definition fence_cycle_publication :: "cid \<Rightarrow> owner \<Rightarrow> time \<Rightarrow> time \<Rightarrow> db \<Rightarrow> db_error + db" where
  "fence_cycle_publication c own now clk d =
     (case db_runs d c of
        Some r \<Rightarrow> if r_status r \<in> {R_CANCEL_REQUESTED, R_CANCELLED} then Inl (CycleOwnershipLost c)
          else (let (matched, d1) = update_run c
                  (\<lambda>r. r_owner_id r = Some own \<and> r_status r = R_RUNNING \<and> lease_live clk r)
                  (\<lambda>r. r\<lparr>r_status := R_PUBLISHED, r_updated_at := now\<rparr>) d
                in if matched then Inr d1 else Inl (CycleOwnershipLost c))
      | None \<Rightarrow> Inl (CycleOwnershipLost c))"

section \<open>Per-candidate progress\<close>

text \<open>
  \<open>INSERT ... SELECT ... FROM run WHERE <fence> ON CONFLICT DO UPDATE\<close>: no row passes the fence
  means no insertion and \<open>CycleOwnershipLost\<close>.  While a cancellation is requested the owner may
  only finish candidates it has already started.
\<close>

definition progress_fence ::
  "cid \<Rightarrow> owner \<Rightarrow> phase \<Rightarrow> iid \<Rightarrow> bool \<Rightarrow> time \<Rightarrow> db \<Rightarrow> bool" where
  "progress_fence c own ph i start_attempt clk d =
     (case db_runs d c of
        None \<Rightarrow> False
      | Some r \<Rightarrow>
          r_owner_id r = Some own \<and> lease_live clk r \<and>
          (r_status r = R_RUNNING \<or>
           (r_status r = R_CANCEL_REQUESTED \<and> \<not> start_attempt \<and>
            map_of (db_progress d) (c, ph, i) \<noteq> None)))"

definition record_cycle_progress ::
  "cid \<Rightarrow> owner \<Rightarrow> phase \<Rightarrow> iid \<Rightarrow> candidate_state \<Rightarrow> string option \<Rightarrow> string option \<Rightarrow> json \<Rightarrow>
   bool \<Rightarrow> time \<Rightarrow> time \<Rightarrow> db \<Rightarrow> db_error + db" where
  "record_cycle_progress c own ph i st disposition failure_reason payload start_attempt now clk d =
     (if \<not> progress_fence c own ph i start_attempt clk d then Inl (CycleOwnershipLost c)
      else
        (let prior = (case map_of (db_progress d) (c, ph, i) of None \<Rightarrow> 0 | Some r \<Rightarrow> p_attempts r)
         in Inr (d\<lparr>db_progress := dset (c, ph, i)
              \<lparr>p_state = st, p_disposition = disposition, p_failure_reason = failure_reason,
               p_attempts = prior + (if start_attempt then 1 else 0),
               p_payload = payload, p_updated_at = now\<rparr> (db_progress d)\<rparr>)))"

definition cycle_progress :: "cid \<Rightarrow> phase option \<Rightarrow> db \<Rightarrow> ((phase \<times> iid) \<times> progress_row) list" where
  "cycle_progress c ph d =
     map (\<lambda>((c', p, i), row). ((p, i), row))
       (filter (\<lambda>((c', p, i), row). c' = c \<and> (case ph of None \<Rightarrow> True | Some q \<Rightarrow> p = q)) (db_progress d))"

end
