(* ===== verification/Lease.thy ===== *)
theory Lease
  imports Prelude
begin

text \<open>
  The interface of a fenced lease: a store names at most one holder, a write made as \<open>w\<close>
  succeeds only while \<open>w\<close> is the holder with an unexpired lease, and a worker becomes the
  holder only by a claim of its own, which a live lease of another worker refuses.  Whatever
  the store, these laws stop a worker that lost its lease.
\<close>

locale fenced_lease =
  fixes holder :: "'s \<Rightarrow> 'w option"
    and live :: "time \<Rightarrow> 's \<Rightarrow> bool"
    and step :: "time \<Rightarrow> 'l \<Rightarrow> 's \<Rightarrow> 's \<Rightarrow> bool"
    and claims :: "'l \<Rightarrow> 'w \<Rightarrow> bool"
    and write_ok :: "time \<Rightarrow> 'w \<Rightarrow> 's \<Rightarrow> bool"
  assumes write_needs_holder: "write_ok clk w s \<Longrightarrow> holder s = Some w \<and> live clk s"
    and holder_by_claim: "step clk l s s' \<Longrightarrow> holder s' = Some w \<Longrightarrow> holder s \<noteq> Some w \<Longrightarrow> claims l w"
    and live_lease_kept: "step clk l s s' \<Longrightarrow> holder s = Some w \<Longrightarrow> live clk s \<Longrightarrow> holder s' \<noteq> Some w \<Longrightarrow>
      holder s' = None"
begin

lemma no_two_writers: "write_ok clk w s \<Longrightarrow> write_ok clk v s \<Longrightarrow> v = w"
  by (auto dest!: write_needs_holder)

lemma not_holder_stays:
  assumes "trace step t s ls t' s'" and "holder s \<noteq> Some w"
    and "\<forall>(clk, l) \<in> set ls. \<not> claims l w"
  shows "holder s' \<noteq> Some w"
  by (rule trace_preserves[OF assms(1), of "\<lambda>s. holder s \<noteq> Some w"])
    (use assms in \<open>auto dest: holder_by_claim\<close>)

text \<open>A worker that is not the holder cannot write until it claims again.\<close>

lemma stale_cannot_write:
  assumes "trace step t s ls t' s'" and "holder s \<noteq> Some w"
    and "\<forall>(clk, l) \<in> set ls. \<not> claims l w"
  shows "\<not> write_ok clk w s'"
  using not_holder_stays[OF assms] by (auto dest: write_needs_holder)

text \<open>No step hands a live lease over to another worker.\<close>

lemma no_takeover_while_live:
  assumes "step clk l s s'" and "holder s = Some w" and "live clk s"
  shows "holder s' = Some w \<or> holder s' = None"
  using live_lease_kept[OF assms] by (cases "holder s' = Some w") simp_all

end

end
