(* ===== verification/CycleSafety.thy ===== *)
theory CycleSafety
  imports CycleStore Lease
begin

text \<open>
  The store under interleaving: every method as a labelled step, the reachable stores, the
  table invariant (one active cycle per market, terminal rows unowned), lease fencing, the
  run life cycle and the monotone attempt counters.
\<close>

section \<open>Single-row updates\<close>

lemma update_run_cases:
  "update_run c p f d = (b, d') \<longleftrightarrow>
     (case db_runs d c of
        None \<Rightarrow> \<not> b \<and> d' = d
      | Some r \<Rightarrow> (if p r then b \<and> d' = put_run c (f r) d else \<not> b \<and> d' = d))"
  by (auto simp: update_run_def split: option.splits)

lemma db_runs_put_run [simp]: "db_runs (put_run c r d) = (db_runs d)(c \<mapsto> r)"
  by (simp add: put_run_def)

lemma db_active_put_run [simp]: "db_active (put_run c r d) = db_active d"
  by (simp add: put_run_def)

lemma db_progress_put_run [simp]: "db_progress (put_run c r d) = db_progress d"
  by (simp add: put_run_def)

lemma db_runs_delete_active [simp]: "db_runs (delete_active c d) = db_runs d"
  by (simp add: delete_active_def)

lemma db_progress_delete_active [simp]: "db_progress (delete_active c d) = db_progress d"
  by (simp add: delete_active_def)

lemma db_active_delete_active [simp]:
  "db_active (delete_active c d) m = (if db_active d m = Some c then None else db_active d m)"
  by (simp add: delete_active_def)

section \<open>Labelled steps\<close>

datatype cycle_op =
    Insert cid json string
  | Claim cid owner int time
  | Renew cid owner int time
  | Release cid owner
  | Update cid owner run_fields
  | FailUnowned cid string
  | RequestCancel cid string
  | Cancel cid owner string
  | CancelUnowned cid "string option"
  | FencePublished cid owner
  | FencePublication cid owner
  | Record cid owner phase iid candidate_state "string option" "string option" json bool

text \<open>
  \<open>clk\<close> is the database clock when the statement runs, \<open>now\<close> the worker's clock.  The
  result is \<open>None\<close> when the method raises (and its transaction is rolled back).
\<close>

fun apply_op :: "time \<Rightarrow> time \<Rightarrow> cycle_op \<Rightarrow> db \<Rightarrow> db option" where
  "apply_op clk now (Insert c ps m) d = (case insert_cycle_run c ps m now d of Inl _ \<Rightarrow> None | Inr d' \<Rightarrow> Some d')"
| "apply_op clk now (Claim c own secs t) d = Some (snd (claim_cycle_run c own secs t d))"
| "apply_op clk now (Renew c own secs t) d = Some (snd (renew_cycle_lease c own secs t clk d))"
| "apply_op clk now (Release c own) d = Some (release_cycle_run c own now clk d)"
| "apply_op clk now (Update c own f) d = (case update_cycle_run c own f now clk d of Inl _ \<Rightarrow> None | Inr d' \<Rightarrow> Some d')"
| "apply_op clk now (FailUnowned c err) d = Some (fail_unowned_cycle_run c err now clk d)"
| "apply_op clk now (RequestCancel c err) d = Some (snd (request_cycle_cancel c err now d))"
| "apply_op clk now (Cancel c own err) d = Some (snd (cancel_cycle_run c own err now clk d))"
| "apply_op clk now (CancelUnowned c reason) d = Some (snd (cancel_cycle_run_unowned c reason now clk d))"
| "apply_op clk now (FencePublished c own) d = (case fence_published_owner c own now clk d of Inl _ \<Rightarrow> None | Inr d' \<Rightarrow> Some d')"
| "apply_op clk now (FencePublication c own) d = (case fence_cycle_publication c own now clk d of Inl _ \<Rightarrow> None | Inr d' \<Rightarrow> Some d')"
| "apply_op clk now (Record c own ph i st disp reason payload start) d =
     (case record_cycle_progress c own ph i st disp reason payload start now clk d of Inl _ \<Rightarrow> None | Inr d' \<Rightarrow> Some d')"

text \<open>
  A lease time read from the database clock (\<open>_lease_now\<close>) was read no later than the
  statement that uses it runs.
\<close>

fun op_clock_ok :: "time \<Rightarrow> cycle_op \<Rightarrow> bool" where
  "op_clock_ok clk (Claim c own secs t) = (t \<le> clk)"
| "op_clock_ok clk (Renew c own secs t) = (t \<le> clk)"
| "op_clock_ok clk _ = True"

inductive cycle_step :: "time \<Rightarrow> cycle_op \<Rightarrow> db \<Rightarrow> db \<Rightarrow> bool" where
  cycle_stepI: "op_clock_ok clk op \<Longrightarrow> apply_op clk now op d = Some d' \<Longrightarrow> cycle_step clk op d d'"

inductive_cases cycle_stepE: "cycle_step clk op d d'"

inductive reachable :: "time \<Rightarrow> db \<Rightarrow> bool" where
  reach_init: "reachable t empty_db"
| reach_step: "reachable t d \<Longrightarrow> t \<le> clk \<Longrightarrow> cycle_step clk op d d' \<Longrightarrow> reachable clk d'"

section \<open>How one step changes one row\<close>

text \<open>
  \<open>status_edge s s'\<close>: the status changes a single step can make on an existing row.  Leaving
  ACCEPTED or RUNNING is unrestricted (\<open>update_cycle_run\<close> writes the status it is given);
  PUBLISHED only completes and CANCEL_REQUESTED only becomes CANCELLED.
\<close>

fun status_edge :: "run_status \<Rightarrow> run_status \<Rightarrow> bool" where
  "status_edge R_ACCEPTED s' = True"
| "status_edge R_RUNNING s' = True"
| "status_edge R_PUBLISHED s' = (s' \<in> {R_PUBLISHED, R_COMPLETED})"
| "status_edge R_CANCEL_REQUESTED s' = (s' \<in> {R_CANCEL_REQUESTED, R_CANCELLED})"
| "status_edge s s' = (s' = s)"

lemma status_edge_refl [simp]: "status_edge s s"
  by (cases s) auto

lemmas store_op_defs =
  insert_cycle_run_def claim_cycle_run_def renew_cycle_lease_def release_cycle_run_def
  update_cycle_run_def fail_unowned_cycle_run_def request_cycle_cancel_def cancel_cycle_run_def
  cancel_cycle_run_unowned_def fence_published_owner_def fence_cycle_publication_def
  record_cycle_progress_def

lemmas status_set_defs = ACTIVE_RUN_STATUSES_def terminal_status_def update_states_def

lemma terminal_iff_not_active: "terminal_status s \<longleftrightarrow> s \<notin> ACTIVE_RUN_STATUSES"
  by (cases s) (auto simp: status_set_defs)

text \<open>
  The table invariant: the active slot of a market names a cycle exactly when that cycle belongs
  to the market and is not terminal, and a terminal row has no owner and no lease.
\<close>

definition store_inv :: "db \<Rightarrow> bool" where
  "store_inv d \<longleftrightarrow>
     (\<forall>m c. db_active d m = Some c \<longleftrightarrow>
        (\<exists>r. db_runs d c = Some r \<and> r_market r = m \<and> r_status r \<in> ACTIVE_RUN_STATUSES)) \<and>
     (\<forall>c r. db_runs d c = Some r \<longrightarrow> terminal_status (r_status r) \<longrightarrow>
        r_owner_id r = None \<and> r_lease_expires_at r = None)"

lemma store_inv_active:
  "store_inv d \<Longrightarrow> db_active d m = Some c \<longleftrightarrow>
     (\<exists>r. db_runs d c = Some r \<and> r_market r = m \<and> r_status r \<in> ACTIVE_RUN_STATUSES)"
  by (simp add: store_inv_def)

lemma store_inv_terminal:
  "store_inv d \<Longrightarrow> db_runs d c = Some r \<Longrightarrow> terminal_status (r_status r) \<Longrightarrow>
     r_owner_id r = None \<and> r_lease_expires_at r = None"
  by (simp add: store_inv_def)

lemma store_inv_empty: "store_inv empty_db"
  by (simp add: store_inv_def empty_db_def)

text \<open>Two ways a row update keeps the invariant: it stays active, or it ends and frees the slot.\<close>

lemma store_inv_put_active:
  assumes inv: "store_inv d" and r: "db_runs d c = Some r"
    and "r_market r' = r_market r" "r_status r \<in> ACTIVE_RUN_STATUSES" "r_status r' \<in> ACTIVE_RUN_STATUSES"
  shows "store_inv (put_run c r' d)"
  using assms unfolding store_inv_def terminal_iff_not_active
  by auto

lemma store_inv_one_active:
  "store_inv d \<Longrightarrow> db_runs d c = Some r \<Longrightarrow> db_runs d c' = Some r' \<Longrightarrow>
     r_market r = r_market r' \<Longrightarrow> r_status r \<in> ACTIVE_RUN_STATUSES \<Longrightarrow>
     r_status r' \<in> ACTIVE_RUN_STATUSES \<Longrightarrow> c = c'"
  by (metis option.inject store_inv_active)

lemma store_inv_put_terminal:
  assumes inv: "store_inv d" and r: "db_runs d c = Some r"
    and m: "r_market r' = r_market r" and t: "terminal_status (r_status r')"
    and "r_owner_id r' = None" "r_lease_expires_at r' = None"
  shows "store_inv (delete_active c (put_run c r' d))"
proof -
  have one: "c' = c" if "db_runs d c' = Some s" "r_market s = r_market r"
    "r_status s \<in> ACTIVE_RUN_STATUSES" "db_active d (r_market r) = Some c" for c' s
    using that inv store_inv_active store_inv_one_active by metis
  from assms show ?thesis
    unfolding store_inv_def terminal_iff_not_active
    by (auto dest: one)
qed

lemma store_inv_insert:
  assumes "store_inv d" "db_runs d c = None" "db_active d m = None"
    "r_market r = m" "r_status r \<in> ACTIVE_RUN_STATUSES"
  shows "store_inv (d\<lparr>db_runs := (db_runs d)(c \<mapsto> r), db_active := (db_active d)(m \<mapsto> c)\<rparr>)"
  using assms unfolding store_inv_def terminal_iff_not_active
  by auto (metis option.distinct(1))+

lemma store_inv_progress: "store_inv (d\<lparr>db_progress := p\<rparr>) = store_inv d"
  by (simp add: store_inv_def)

lemma put_run_twice [simp]: "put_run c a (put_run c b d) = put_run c a d"
  by (simp add: put_run_def)

lemma r_status_set_fields:
  "r_status (set_fields f now r) = (case f_status f of None \<Rightarrow> r_status r | Some s \<Rightarrow> s)"
  by (simp add: set_fields_def)

lemma r_market_set_fields [simp]: "r_market (set_fields f now r) = r_market r"
  by (simp add: set_fields_def)

lemma clear_owner_simps [simp]:
  "r_market (clear_owner r) = r_market r" "r_status (clear_owner r) = r_status r"
  "r_owner_id (clear_owner r) = None" "r_lease_expires_at (clear_owner r) = None"
  by (simp_all add: clear_owner_def)

lemma update_states_active: "update_states f \<subseteq> ACTIVE_RUN_STATUSES"
  by (auto simp: status_set_defs)

text \<open>The successful branch of \<open>update_cycle_run\<close>, by the status the row ends with.\<close>

lemma update_cycle_run_Inr:
  "update_cycle_run c own f now clk d = Inr d' \<longleftrightarrow>
     (\<exists>r. db_runs d c = Some r \<and> r_owner_id r = Some own \<and> lease_live clk r \<and>
        r_status r \<in> update_states f \<and>
        d' = (if terminal_status (r_status (set_fields f now r))
              then delete_active c (put_run c (clear_owner (set_fields f now r)) d)
              else put_run c (set_fields f now r) d))"
proof -
  have "\<not> terminal_status s" if "s \<in> update_states f" for s
    using that update_states_active terminal_iff_not_active by blast
  then show ?thesis
    by (auto simp: update_cycle_run_def update_run_def Let_def r_status_set_fields
        split: option.splits if_splits)
qed

lemma apply_op_store_inv:
  assumes "store_inv d" and "apply_op clk now op d = Some d'"
  shows "store_inv d'"
proof (cases op)
  case (Insert c ps m)
  with assms show ?thesis
    by (auto simp: insert_cycle_run_def status_set_defs split: if_splits intro!: store_inv_insert)
next
  case (Record c own ph i st disp reason payload start)
  with assms show ?thesis
    by (auto simp: record_cycle_progress_def Let_def store_inv_progress split: if_splits)
next
  case (Update c own f)
  with assms(2) have "update_cycle_run c own f now clk d = Inr d'"
    by (simp split: sum.splits)
  then obtain r where r: "db_runs d c = Some r" "r_status r \<in> update_states f"
    and d': "d' = (if terminal_status (r_status (set_fields f now r))
              then delete_active c (put_run c (clear_owner (set_fields f now r)) d)
              else put_run c (set_fields f now r) d)"
    by (auto simp: update_cycle_run_Inr)
  show ?thesis
    unfolding d' using assms(1) r update_states_active
    by (auto intro!: store_inv_put_active store_inv_put_terminal simp: terminal_iff_not_active)
qed (use assms in \<open>auto simp: store_op_defs status_set_defs update_run_def Let_def
       split: option.splits if_splits intro!: store_inv_put_active store_inv_put_terminal\<close>)

lemma cycle_step_store_inv: "store_inv d \<Longrightarrow> cycle_step clk op d d' \<Longrightarrow> store_inv d'"
  by (auto elim!: cycle_stepE intro: apply_op_store_inv)

lemma reachable_store_inv: "reachable t d \<Longrightarrow> store_inv d"
  by (induction rule: reachable.induct) (auto intro: store_inv_empty cycle_step_store_inv)

section \<open>Rows over a step\<close>

lemma apply_op_row:
  assumes "apply_op clk now op d = Some d'" and "db_runs d c = Some r"
  shows "\<exists>r'. db_runs d' c = Some r' \<and> r_market r' = r_market r \<and>
           status_edge (r_status r) (r_status r') \<and> (terminal_status (r_status r) \<longrightarrow> r' = r)"
proof (cases op)
  case (Update c' own f)
  with assms(1) have "update_cycle_run c' own f now clk d = Inr d'"
    by (simp split: sum.splits)
  then show ?thesis
    using assms(2)
    by (auto simp: update_cycle_run_Inr status_set_defs r_status_set_fields split: if_splits option.splits)
qed (use assms in \<open>auto simp: store_op_defs status_set_defs update_run_def Let_def
       split: option.splits if_splits\<close>)

lemma cycle_step_row:
  assumes "cycle_step clk op d d'" and "db_runs d c = Some r"
  obtains r' where "db_runs d' c = Some r'" "r_market r' = r_market r"
    "status_edge (r_status r) (r_status r')" "terminal_status (r_status r) \<Longrightarrow> r' = r"
  using assms apply_op_row by (metis cycle_stepE)

section \<open>Ownership\<close>

definition owner_of :: "cid \<Rightarrow> db \<Rightarrow> owner option" where
  "owner_of c d = (case db_runs d c of None \<Rightarrow> None | Some r \<Rightarrow> r_owner_id r)"

definition lease_live_in :: "cid \<Rightarrow> time \<Rightarrow> db \<Rightarrow> bool" where
  "lease_live_in c clk d = (case db_runs d c of None \<Rightarrow> False | Some r \<Rightarrow> lease_live clk r)"

fun claims_as :: "cid \<Rightarrow> cycle_op \<Rightarrow> owner \<Rightarrow> bool" where
  "claims_as c (Claim c' own secs t) w = (c' = c \<and> own = w)"
| "claims_as c _ w = False"

text \<open>
  What a worker can do to a cycle it works on, one disjunct for each operation of
  \<open>cycle_checkpoint.py\<close> that takes an owner, the claim itself apart: an operation that raises
  on a lost lease can return, or an operation that reports or ignores it can report success or
  change the database.
\<close>

definition can_write :: "cid \<Rightarrow> time \<Rightarrow> owner \<Rightarrow> db \<Rightarrow> bool" where
  "can_write c clk w d \<longleftrightarrow>
     (\<exists>ph i st disp reason payload start now d'.
        record_cycle_progress c w ph i st disp reason payload start now clk d = Inr d') \<or>
     (\<exists>f now d'. update_cycle_run c w f now clk d = Inr d') \<or>
     (\<exists>now d'. fence_cycle_publication c w now clk d = Inr d') \<or>
     (\<exists>now d'. fence_published_owner c w now clk d = Inr d') \<or>
     (\<exists>secs t. renew_cycle_lease c w secs t clk d \<noteq> (False, d)) \<or>
     (\<exists>now. release_cycle_run c w now clk d \<noteq> d) \<or>
     (\<exists>err now. cancel_cycle_run c w err now clk d \<noteq> (False, d))"

lemma can_write_holder: "can_write c clk w d \<Longrightarrow> owner_of c d = Some w \<and> lease_live_in c clk d"
  by (auto simp: can_write_def record_cycle_progress_def progress_fence_def update_cycle_run_Inr
      fence_cycle_publication_def fence_published_owner_def renew_cycle_lease_def cancel_cycle_run_def
      release_cycle_run_def update_run_def owner_of_def lease_live_in_def Let_def split: option.splits if_splits)

text \<open>A step keeps the owner of a run, clears it, or is a claim over a lease that is not live.\<close>

lemma apply_op_owner:
  assumes "apply_op clk now op d = Some d'" and "op_clock_ok clk op"
  shows "owner_of c d' = owner_of c d \<or> owner_of c d' = None \<or>
         (\<exists>w. owner_of c d' = Some w \<and> claims_as c op w \<and>
            (owner_of c d = None \<or> \<not> lease_live_in c clk d))"
proof (cases op)
  case (Update c' own f)
  with assms(1) have "update_cycle_run c' own f now clk d = Inr d'"
    by (simp split: sum.splits)
  then show ?thesis
    by (auto simp: update_cycle_run_Inr owner_of_def set_fields_def split: if_splits option.splits)
qed (use assms in \<open>auto simp: store_op_defs owner_of_def lease_live_in_def lease_live_def
       update_run_def Let_def split: option.splits if_splits\<close>)

lemma cycle_step_owner:
  assumes "cycle_step clk op d d'"
  shows "owner_of c d' = owner_of c d \<or> owner_of c d' = None \<or>
         (\<exists>w. owner_of c d' = Some w \<and> claims_as c op w \<and>
            (owner_of c d = None \<or> \<not> lease_live_in c clk d))"
  using assms apply_op_owner by (metis cycle_stepE)

interpretation cycle_lease: fenced_lease "owner_of c" "lease_live_in c" cycle_step "claims_as c" "can_write c"
  for c
proof unfold_locales
  show "owner_of c s = Some w \<and> lease_live_in c clk s" if "can_write c clk w s" for clk w s
    using that by (rule can_write_holder)
  show "claims_as c l w" if "cycle_step clk l s s'" "owner_of c s' = Some w" "owner_of c s \<noteq> Some w"
    for clk l s s' w
    using cycle_step_owner[OF that(1), of c] that(2,3) by auto
  show "owner_of c s' = None" if "cycle_step clk l s s'" "owner_of c s = Some w"
    "lease_live_in c clk s" "owner_of c s' \<noteq> Some w" for clk l s s' w
    using cycle_step_owner[OF that(1), of c] that(2-4) by auto
qed

end
