(* ===== verification/CycleProps.thy ===== *)
theory CycleProps
  imports CycleSafety
begin

text \<open>
  The guarantees of the durable cycle store, over every interleaving of workers and operators:
  one active cycle per market, fenced writers, absorbing terminal states, two-phase cancellation
  and attempt accounting.
\<close>

section \<open>Trace lemmas\<close>

lemma reachable_trace: "trace cycle_step t d ls t' d' \<Longrightarrow> reachable t d \<Longrightarrow> reachable t' d'"
  by (induction rule: trace.induct) (auto intro: reach_step)

text \<open>A set of statuses that no edge leaves is never left by a run of the store.\<close>

lemma trace_status_closed:
  assumes tr: "trace cycle_step t d ls t' d'" and "db_runs d c = Some r" and "r_status r \<in> S"
    and closed: "\<And>s s'. s \<in> S \<Longrightarrow> status_edge s s' \<Longrightarrow> s' \<in> S"
  shows "\<exists>r'. db_runs d' c = Some r' \<and> r_market r' = r_market r \<and> r_status r' \<in> S"
proof (rule trace_preserves[OF tr, of "\<lambda>e. \<exists>r'. db_runs e c = Some r' \<and> r_market r' = r_market r \<and> r_status r' \<in> S"])
  show "\<exists>r'. db_runs d c = Some r' \<and> r_market r' = r_market r \<and> r_status r' \<in> S"
    using assms(2,3) by simp
next
  fix clk l e e1
  assume step: "cycle_step clk l e e1"
    and "\<exists>r'. db_runs e c = Some r' \<and> r_market r' = r_market r \<and> r_status r' \<in> S"
  then obtain r0 where r0: "db_runs e c = Some r0" "r_market r0 = r_market r" "r_status r0 \<in> S"
    by auto
  obtain r1 where "db_runs e1 c = Some r1" "r_market r1 = r_market r0"
    "status_edge (r_status r0) (r_status r1)"
    using cycle_step_row[OF step r0(1)] by metis
  with r0 closed show "\<exists>r'. db_runs e1 c = Some r' \<and> r_market r' = r_market r \<and> r_status r' \<in> S"
    by auto
qed

text \<open>What a run of the store keeps of a progress row.\<close>

definition attempts_of :: "progress_key \<Rightarrow> db \<Rightarrow> nat" where
  "attempts_of k d = (case map_of (db_progress d) k of None \<Rightarrow> 0 | Some r \<Rightarrow> p_attempts r)"

fun starts_attempt :: "progress_key \<Rightarrow> time \<times> cycle_op \<Rightarrow> bool" where
  "starts_attempt k (clk, Record c own ph i st disp reason payload start) = (start \<and> k = (c, ph, i))"
| "starts_attempt k _ = False"

lemma cycle_step_progress:
  assumes "cycle_step clk op d d'"
  shows "db_progress d' = db_progress d \<or>
    (\<exists>c own ph i st disp reason payload start now.
       op = Record c own ph i st disp reason payload start \<and>
       record_cycle_progress c own ph i st disp reason payload start now clk d = Inr d')"
  using assms
proof (cases op)
  case (Update c' own f)
  with assms obtain now where "update_cycle_run c' own f now clk d = Inr d'"
    by (auto elim!: cycle_stepE split: sum.splits)
  then show ?thesis
    by (auto simp: update_cycle_run_Inr)
next
  case (Record c own ph i st disp reason payload start)
  with assms show ?thesis
    by (auto elim!: cycle_stepE split: sum.splits)
qed (auto elim!: cycle_stepE simp: store_op_defs update_run_def Let_def split: option.splits if_splits)

lemma cycle_step_attempts:
  assumes "cycle_step clk op d d'"
  shows "attempts_of k d' = attempts_of k d + (if starts_attempt k (clk, op) then 1 else 0)"
proof (cases "\<exists>c own ph i st disp reason payload start. op = Record c own ph i st disp reason payload start")
  case True
  with assms show ?thesis
    by (auto elim!: cycle_stepE simp: record_cycle_progress_def attempts_of_def Let_def
        split: sum.splits if_splits)
next
  case False
  then have "db_progress d' = db_progress d"
    using cycle_step_progress[OF assms] by auto
  moreover have "\<not> starts_attempt k (clk, op)"
    using False by (cases op) auto
  ultimately show ?thesis by (simp add: attempts_of_def)
qed

section \<open>One active cycle per market\<close>

text \<open>C2: in every reachable store the active slot of a market names exactly the one cycle of that
  market that is not terminal, so two non-terminal cycles of a market are the same cycle.\<close>

theorem one_active_cycle_per_market:
  assumes "reachable t d"
  shows "(db_active d m = Some c \<longleftrightarrow>
      (\<exists>r. db_runs d c = Some r \<and> r_market r = m \<and> \<not> terminal_status (r_status r))) \<and>
    (\<forall>c1 r1 c2 r2. db_runs d c1 = Some r1 \<and> db_runs d c2 = Some r2 \<and> r_market r1 = r_market r2 \<and>
      \<not> terminal_status (r_status r1) \<and> \<not> terminal_status (r_status r2) \<longrightarrow> c1 = c2)"
proof -
  note inv = reachable_store_inv[OF assms]
  show ?thesis
    using store_inv_active[OF inv] store_inv_one_active[OF inv]
    unfolding terminal_iff_not_active by blast
qed

section \<open>Fencing\<close>

text \<open>C3: once another worker has taken the lease, the previous worker can write nothing of the
  cycle (no progress row, run update, publication, projection, renewal, release of the lease or
  final cancel) at any later time, until it claims again itself.\<close>

theorem stale_worker_is_fenced:
  assumes "claim_cycle_run c o2 secs now d = (True, d1)" and "o1 \<noteq> o2"
    and "trace cycle_step t d1 ls t' d'" and "\<forall>(clk, op) \<in> set ls. \<not> claims_as c op o1"
  shows "\<not> can_write c clk o1 d'"
proof -
  have "owner_of c d1 = Some o2"
    using assms(1) by (auto simp: claim_cycle_run_def update_run_cases owner_of_def split: option.splits if_splits)
  then show ?thesis
    using cycle_lease.stale_cannot_write[OF assms(3), of c o1] assms(2,4) by auto
qed

text \<open>a live lease excludes every other worker: a claim by anyone else that reads the clock no
  later than now is refused and changes nothing.\<close>

theorem live_lease_excludes:
  assumes "owner_of c d = Some o1" and "lease_live_in c clk d" and "now \<le> clk" and "o2 \<noteq> o1"
  shows "claim_cycle_run c o2 secs now d = (False, d)"
  using assms
  by (auto simp: claim_cycle_run_def update_run_def owner_of_def lease_live_in_def lease_live_def
      split: option.splits)

text \<open>an abandoned cycle is always recoverable: when the lease of a non-terminal run has expired,
  any worker's claim succeeds; the new owner holds a live lease and the resumption is counted.\<close>

theorem expired_lease_is_claimable:
  assumes "db_runs d c = Some r" and "\<not> terminal_status (r_status r)"
    and "r_lease_expires_at r = Some e" and "e < now" and "0 < secs" and "r_owner_id r \<noteq> Some own"
  shows "\<exists>d'. claim_cycle_run c own secs now d = (True, d') \<and>
           owner_of c d' = Some own \<and> lease_live_in c now d' \<and>
           (\<exists>r'. db_runs d' c = Some r' \<and>
              r_resume_count r' = r_resume_count r + (if r_status r = R_ACCEPTED then 0 else 1))"
  using assms
  by (auto simp: claim_cycle_run_def update_run_def terminal_iff_not_active owner_of_def
      lease_live_in_def lease_live_def)

section \<open>Cancellation and publication\<close>

text \<open>C4: a requested cancellation is irrevocable: from a CANCEL_REQUESTED run every continuation
  leaves the run CANCEL_REQUESTED or CANCELLED, and its publication fence refuses every worker.\<close>

theorem cancel_request_is_irrevocable:
  assumes "db_runs d c = Some r" and "r_status r = R_CANCEL_REQUESTED"
    and "trace cycle_step t d ls t' d'"
  shows "(\<exists>r'. db_runs d' c = Some r' \<and> r_status r' \<in> {R_CANCEL_REQUESTED, R_CANCELLED}) \<and>
         fence_cycle_publication c own now clk d' = Inl (CycleOwnershipLost c)"
proof -
  have "\<exists>r'. db_runs d' c = Some r' \<and> r_market r' = r_market r \<and>
      r_status r' \<in> {R_CANCEL_REQUESTED, R_CANCELLED}"
    by (rule trace_status_closed[OF assms(3,1)]) (use assms(2) in auto)
  then show ?thesis
    by (auto simp: fence_cycle_publication_def)
qed

text \<open>C26: a published cycle can only complete, and a terminal cycle is frozen: its row and all of
  its progress rows are the same after any continuation.\<close>

theorem published_only_completes_terminal_frozen:
  assumes "reachable t d" and "db_runs d c = Some r" and "trace cycle_step t d ls t' d'"
  shows "(r_status r = R_PUBLISHED \<longrightarrow>
            (\<exists>r'. db_runs d' c = Some r' \<and> r_status r' \<in> {R_PUBLISHED, R_COMPLETED})) \<and>
         (terminal_status (r_status r) \<longrightarrow>
            db_runs d' c = Some r \<and> (\<forall>ph i. map_of (db_progress d') (c, ph, i) = map_of (db_progress d) (c, ph, i)))"
proof (intro conjI impI)
  assume "r_status r = R_PUBLISHED"
  then show "\<exists>r'. db_runs d' c = Some r' \<and> r_status r' \<in> {R_PUBLISHED, R_COMPLETED}"
  proof -
    have "\<exists>r'. db_runs d' c = Some r' \<and> r_market r' = r_market r \<and> r_status r' \<in> {R_PUBLISHED, R_COMPLETED}"
      by (rule trace_status_closed[OF assms(3,2)]) (use \<open>r_status r = R_PUBLISHED\<close> in auto)
    then show ?thesis by blast
  qed
next
  assume fin: "terminal_status (r_status r)"
  let ?P = "\<lambda>e. store_inv e \<and> db_runs e c = Some r \<and>
      (\<forall>ph i. map_of (db_progress e) (c, ph, i) = map_of (db_progress d) (c, ph, i))"
  have "?P d'"
  proof (rule trace_preserves[OF assms(3), of ?P])
    show "?P d" using assms(1,2) reachable_store_inv by simp
  next
    fix clk op e e1
    assume step: "cycle_step clk op e e1" and P: "?P e"
    then have "db_runs e1 c = Some r"
      using fin cycle_step_row[OF step, of c r] by auto
    moreover have "map_of (db_progress e1) (c, ph, i) = map_of (db_progress e) (c, ph, i)" for ph i
      using cycle_step_progress[OF step] P store_inv_terminal[of e c r] fin
      by (auto simp: record_cycle_progress_def progress_fence_def Let_def split: if_splits)
    ultimately show "?P e1"
      using P cycle_step_store_inv[OF _ step] by simp
  qed
  then show "db_runs d' c = Some r" "\<forall>ph i. map_of (db_progress d') (c, ph, i) = map_of (db_progress d) (c, ph, i)"
    by auto
qed

text \<open>draining: while a cancellation is requested the owner with a live lease may finish exactly
  the candidates it had already started, and may start none.\<close>

theorem cancel_requested_drains_only:
  assumes "db_runs d c = Some r" and "r_status r = R_CANCEL_REQUESTED"
    and "r_owner_id r = Some own" and "lease_live clk r"
  shows "(\<exists>d'. record_cycle_progress c own ph i st disp reason payload start now clk d = Inr d') \<longleftrightarrow>
           \<not> start \<and> map_of (db_progress d) (c, ph, i) \<noteq> None"
  using assms by (auto simp: record_cycle_progress_def progress_fence_def Let_def)

text \<open>an operator can always end a cancelled cycle whose worker is gone: once the lease has
  expired the unowned finalization succeeds, the run is CANCELLED and its market is free again.\<close>

theorem cancelled_cycle_is_finalizable:
  assumes "reachable t d" and "db_runs d c = Some r" and "r_status r = R_CANCEL_REQUESTED"
    and "\<not> lease_live clk r"
  shows "\<exists>d'. cancel_cycle_run_unowned c reason now clk d = (True, d') \<and>
           cycle_cancel_status c d' = Some R_CANCELLED \<and> db_active d' (r_market r) = None \<and>
           (\<forall>c2 ps. db_runs d' c2 = None \<longrightarrow>
              (\<exists>d''. create_cycle_run c2 ps (r_market r) now d' =
                 Inr ((map_option (Pair c2) (db_runs d'' c2), True), d'')))"
proof -
  have slot: "db_active d (r_market r) = Some c"
    using assms(2,3) store_inv_active[OF reachable_store_inv[OF assms(1)]]
    by (simp add: ACTIVE_RUN_STATUSES_def)
  have "unowned clk r"
    using assms(4) by (auto simp: lease_live_def unowned_def split: option.splits)
  with assms slot show ?thesis
    by (auto simp: cancel_cycle_run_unowned_def update_run_def cycle_cancel_status_def
        create_cycle_run_def active_cycle_run_def insert_cycle_run_def cycle_run_def Let_def)
qed

section \<open>Coalescing and attempts\<close>

text \<open>submissions coalesce: in a reachable store a submission for a market with an active cycle
  returns that cycle and changes nothing, and otherwise one with a fresh identifier creates an
  ACCEPTED cycle that becomes the market's active one.\<close>

theorem submissions_coalesce:
  assumes "reachable t d"
  shows "(\<forall>c r. db_runs d c = Some r \<and> r_market r = m \<and> \<not> terminal_status (r_status r) \<longrightarrow>
            create_cycle_run c' ps m now d = Inr ((Some (c, r), False), d)) \<and>
         ((\<forall>c r. db_runs d c = Some r \<and> r_market r = m \<longrightarrow> terminal_status (r_status r)) \<longrightarrow>
            db_runs d c' = None \<longrightarrow>
            (\<exists>r d'. create_cycle_run c' ps m now d = Inr ((Some (c', r), True), d') \<and>
               r_status r = R_ACCEPTED \<and> active_cycle_run m d' = Some (c', r)))"
proof (intro conjI allI impI)
  fix c r
  assume "db_runs d c = Some r \<and> r_market r = m \<and> \<not> terminal_status (r_status r)"
  then have "db_active d m = Some c" "db_runs d c = Some r"
    using store_inv_active[OF reachable_store_inv[OF assms]] by (auto simp: terminal_iff_not_active)
  then show "create_cycle_run c' ps m now d = Inr ((Some (c, r), False), d)"
    by (simp add: create_cycle_run_def active_cycle_run_def)
next
  assume none: "\<forall>c r. db_runs d c = Some r \<and> r_market r = m \<longrightarrow> terminal_status (r_status r)"
    and fresh: "db_runs d c' = None"
  have "db_active d m = None"
    using none store_inv_active[OF reachable_store_inv[OF assms], of m]
    by (metis not_Some_eq terminal_iff_not_active)
  then show "\<exists>r d'. create_cycle_run c' ps m now d = Inr ((Some (c', r), True), d') \<and>
      r_status r = R_ACCEPTED \<and> active_cycle_run m d' = Some (c', r)"
    using fresh by (simp add: create_cycle_run_def active_cycle_run_def insert_cycle_run_def cycle_run_def)
qed

text \<open>the attempt counter of a candidate is exact: over any run of the store it grows by the
  number of attempts actually started, and nothing else changes it.\<close>

theorem attempts_count_starts:
  assumes "trace cycle_step t d ls t' d'"
  shows "attempts_of k d' = attempts_of k d + length (filter (starts_attempt k) ls)"
  using assms
proof (induction rule: trace.induct)
  case (trace_nil t s)
  then show ?case by simp
next
  case (trace_cons t clk l s s1 ls t' s')
  then show ?case
    using cycle_step_attempts[OF trace_cons.hyps(2), of k] by simp
qed

section \<open>Concrete runs\<close>

text \<open>
  A cycle \<open>c1\<close> of market NSE claimed by worker \<open>A\<close> at time 0 for ten seconds, in three states.
\<close>

definition demo_row :: "run_status \<Rightarrow> run_row" where
  "demo_row st =
     \<lparr>r_market = ''NSE'', r_status = st, r_parameters = JNull, r_as_of = None, r_selection = JNull,
      r_owner_id = Some ''A'', r_lease_expires_at = Some 10000000, r_resume_count = 0,
      r_error_code = None, r_created_at = 0, r_updated_at = 0\<rparr>"

definition demo_db :: "run_status \<Rightarrow> db" where
  "demo_db st = \<lparr>db_runs = [''c1'' \<mapsto> demo_row st], db_active = [''NSE'' \<mapsto> ''c1''], db_progress = []\<rparr>"

lemma demo_reachable: "reachable 0 (demo_db R_RUNNING)"
proof -
  define d1 where "d1 = (case insert_cycle_run ''c1'' JNull ''NSE'' 0 empty_db of Inr d \<Rightarrow> d | Inl _ \<Rightarrow> empty_db)"
  have ins: "insert_cycle_run ''c1'' JNull ''NSE'' 0 empty_db = Inr d1"
    by (simp add: d1_def insert_cycle_run_def empty_db_def)
  have "cycle_step 0 (Insert ''c1'' JNull ''NSE'') empty_db d1"
    by (rule cycle_stepI[where now = 0]) (simp_all add: ins)
  then have "reachable 0 d1"
    using reach_step[OF reach_init, of 0 0] by simp
  moreover have "cycle_step 0 (Claim ''c1'' ''A'' 10 0) d1 (demo_db R_RUNNING)"
    by (rule cycle_stepI[where now = 0])
      (simp_all add: d1_def insert_cycle_run_def empty_db_def claim_cycle_run_def update_run_def
        put_run_def demo_db_def demo_row_def ACTIVE_RUN_STATUSES_def)
  ultimately show ?thesis
    using reach_step[of 0 d1 0] by simp
qed

lemma demo_request: "cycle_step 1 (RequestCancel ''c1'' ''X'') (demo_db R_RUNNING)
    (snd (request_cycle_cancel ''c1'' ''X'' 1 (demo_db R_RUNNING)))"
  by (rule cycle_stepI[where now = 1]) simp_all

lemmas demo_simps = demo_db_def demo_row_def update_run_def put_run_def owner_of_def
  lease_live_in_def lease_live_def

theorem one_active_cycle_per_market_witness: "db_active (demo_db R_RUNNING) ''NSE'' = Some ''c1''"
  using one_active_cycle_per_market[OF demo_reachable, of "''NSE''" "''c1''"]
  by (simp add: demo_simps terminal_status_def)

theorem stale_worker_is_fenced_witness:
  "\<not> can_write ''c1'' 20000001 ''A''
      (snd (claim_cycle_run ''c1'' ''B'' 10 20000000 (demo_db R_RUNNING)))"
proof -
  let ?d1 = "snd (claim_cycle_run ''c1'' ''B'' 10 20000000 (demo_db R_RUNNING))"
  have "claim_cycle_run ''c1'' ''B'' 10 20000000 (demo_db R_RUNNING) = (True, ?d1)"
    by (simp add: demo_simps claim_cycle_run_def ACTIVE_RUN_STATUSES_def)
  then show ?thesis
    by (rule stale_worker_is_fenced[where ls = "[]" and t = 20000001 and t' = 20000001])
      (simp_all add: trace_nil)
qed

theorem live_lease_excludes_witness:
  "claim_cycle_run ''c1'' ''B'' 10 5000000 (demo_db R_RUNNING) = (False, demo_db R_RUNNING)"
  by (rule live_lease_excludes[where clk = 5000000 and ?o1.0 = "''A''"]) (simp_all add: demo_simps)

theorem expired_lease_is_claimable_witness:
  "\<exists>d'. claim_cycle_run ''c1'' ''B'' 10 20000000 (demo_db R_RUNNING) = (True, d') \<and>
        owner_of ''c1'' d' = Some ''B''"
  using expired_lease_is_claimable[of "demo_db R_RUNNING" "''c1''" "demo_row R_RUNNING" 10000000 20000000 10 "''B''"]
  by (auto simp: demo_simps terminal_status_def)

theorem cancel_request_is_irrevocable_witness:
  "fence_cycle_publication ''c1'' ''A'' 3 3 (demo_db R_CANCEL_REQUESTED) = Inl (CycleOwnershipLost ''c1'')"
  using cancel_request_is_irrevocable[of "demo_db R_CANCEL_REQUESTED" "''c1''" "demo_row R_CANCEL_REQUESTED"
      2 "[]" 2 "demo_db R_CANCEL_REQUESTED" "''A''" 3 3]
  by (simp add: demo_db_def demo_row_def trace_nil)

lemma demo_published: "cycle_step 1 (FencePublication ''c1'' ''A'') (demo_db R_RUNNING)
    (put_run ''c1'' (demo_row R_PUBLISHED\<lparr>r_updated_at := 1\<rparr>) (demo_db R_RUNNING))"
  by (rule cycle_stepI[where now = 1]) (simp_all add: fence_cycle_publication_def demo_simps)

lemma demo_published_reachable:
  "reachable 1 (put_run ''c1'' (demo_row R_PUBLISHED\<lparr>r_updated_at := 1\<rparr>) (demo_db R_RUNNING))"
  by (rule reach_step[OF demo_reachable _ demo_published]) simp

theorem published_only_completes_terminal_frozen_witness:
  "\<exists>r'. db_runs (put_run ''c1'' (demo_row R_PUBLISHED\<lparr>r_updated_at := 1\<rparr>) (demo_db R_RUNNING)) ''c1'' = Some r' \<and>
        r_status r' \<in> {R_PUBLISHED, R_COMPLETED}"
  using published_only_completes_terminal_frozen[OF demo_published_reachable _ trace_nil,
      of "''c1''" "demo_row R_PUBLISHED\<lparr>r_updated_at := 1\<rparr>"]
  by (simp add: demo_row_def)

theorem cancel_requested_drains_only_witness:
  "\<not> (\<exists>d'. record_cycle_progress ''c1'' ''A'' PHASE_DEEP ''i'' IN_PROGRESS None None JNull True 2 2
        (demo_db R_CANCEL_REQUESTED) = Inr d')"
  using cancel_requested_drains_only[of "demo_db R_CANCEL_REQUESTED" "''c1''" "demo_row R_CANCEL_REQUESTED" "''A''" 2
      PHASE_DEEP "''i''" IN_PROGRESS None None JNull True 2]
  by (simp add: demo_db_def demo_row_def lease_live_def)

lemma demo_cancel_reachable:
  "reachable 1 (put_run ''c1'' (demo_row R_CANCEL_REQUESTED\<lparr>r_error_code := Some ''X'', r_updated_at := 1\<rparr>)
     (demo_db R_RUNNING))"
  using reach_step[OF demo_reachable _ demo_request]
  by (simp add: request_cycle_cancel_def demo_simps)

theorem cancelled_cycle_is_finalizable_witness:
  "fst (cancel_cycle_run_unowned ''c1'' None 20000000 20000000
     (put_run ''c1'' (demo_row R_CANCEL_REQUESTED\<lparr>r_error_code := Some ''X'', r_updated_at := 1\<rparr>) (demo_db R_RUNNING)))"
  using cancelled_cycle_is_finalizable[OF demo_cancel_reachable,
      of "''c1''" "demo_row R_CANCEL_REQUESTED\<lparr>r_error_code := Some ''X'', r_updated_at := 1\<rparr>" 20000000 None 20000000]
  by (auto simp: demo_row_def lease_live_def)

theorem submissions_coalesce_witness:
  "create_cycle_run ''c2'' JNull ''NSE'' 5 (demo_db R_RUNNING) =
     Inr ((Some (''c1'', demo_row R_RUNNING), False), demo_db R_RUNNING)"
  using submissions_coalesce[OF demo_reachable, of "''NSE''" "''c2''" JNull 5]
  by (simp add: demo_db_def demo_row_def terminal_status_def)

theorem attempts_count_starts_witness:
  "attempts_of (''c1'', PHASE_DEEP, ''i'')
     (put_run ''c1'' (demo_row R_PUBLISHED\<lparr>r_updated_at := 1\<rparr>) (demo_db R_RUNNING)) = 0"
  using attempts_count_starts[OF trace_cons[of 0 1 cycle_step, OF _ demo_published trace_nil],
      of "(''c1'', PHASE_DEEP, ''i'')"]
  by (simp add: attempts_of_def demo_db_def)

end
