(* ===== verification/Taxonomy.thy ===== *)
theory Taxonomy
  imports PyStr CycleStore
begin

text \<open>
  How a failed candidate is classified: the reason taxonomy of \<open>app/failure_taxonomy.py\<close>, the
  disposition table and the terminal meanings of \<open>app/cycle_checkpoint.py\<close>, and the state that
  \<open>_checkpoint_deep_outcome\<close> of the orchestrator stores.
\<close>

section \<open>Reasons\<close>

datatype failure_class = TECHNICAL_RETRYABLE | FC_EVIDENCE_UNAVAILABLE

definition PERMANENT_REASONS :: "string list" where
  "PERMANENT_REASONS =
     [''ROBOTS_OR_ACCESS_BLOCKED'', ''DOMAIN_BLOCKED'', ''DOMAIN_VALIDATION_FAILED'',
      ''SOURCE_QUALITY_REJECTED'', ''COMPANY_RELEVANCE_FAILED'', ''DOCUMENT_SIZE_LIMIT_EXCEEDED'',
      ''CONTENT_EMPTY'', ''CONTENT_TOO_SHORT'', ''UNSUPPORTED_CONTENT_TYPE'', ''RESULTS_REJECTED'',
      ''DISCOVERY_NO_FINANCIAL_RESULTS_CANDIDATES'', ''DISCOVERY_NO_CANDIDATES'',
      ''DISCOVERY_ALL_CANDIDATES_REUSED_OR_UNSUPPORTED'', ''EVIDENCE_INSUFFICIENT_WITHIN_PLAN'',
      ''PRIMARY_FINANCIAL_PROVIDER_RETURNED_NO_FACTS'',
      ''PARSER_FAILED:NO_SUPPORTED_FINANCIAL_FACTS'',
      ''PARSER_FAILED:NSE_SHAREHOLDING_XBRL_NO_SUPPORTED_VALUES'', ''NOT_APPLICABLE'',
      ''PRIOR_ACQUISITION_EMPTY'', ''EXTERNAL_CAPABILITY_UNSUPPORTED'',
      ''EXTERNAL_RESULT_INCOMPLETE:HISTORICAL_COVERAGE_INSUFFICIENT'']"

definition TECHNICAL_REASONS :: "string list" where
  "TECHNICAL_REASONS =
     [''ACQUISITION_NOT_DUE'', ''RULE_AREA_UNSCORABLE'', ''NETWORK_TIMEOUT'', ''HTTP_FETCH_FAILED'',
      ''DOCUMENT_FETCH_FAILED'', ''PDF_EXTRACTION_TIMEOUT'', ''PDF_EXTRACTION_QUEUE_TIMEOUT'',
      ''PDF_TEXT_EXTRACTION_FAILED'', ''EXTRACTION_FAILED'', ''PARSER_FAILED'', ''RECONCILE_FAILED'',
      ''DOCUMENT_PERSIST_FAILED'', ''SHAREHOLDING_PERSIST_FAILED'', ''PERSISTENCE_FAILED'',
      ''ACQUISITION_TIMEOUT'', ''DOWNSTREAM_TIMEOUT'', ''EXTERNAL_PROVIDER_UNAVAILABLE'',
      ''SOURCE_UNAVAILABLE'', ''AUTHORITATIVE_UNAVAILABLE'', ''SEARCH_PROVIDER_UNAVAILABLE'',
      ''SEARCH_PROVIDER_TIMEOUT'', ''SEARCH_PROVIDER_RATE_LIMITED'', ''GOOGLE_PROVIDER_UNAVAILABLE'',
      ''NSE_FINANCIAL_UPGRADE_UNAVAILABLE'', ''NSE_SHAREHOLDING_OFFICIAL_UNAVAILABLE'',
      ''DOCUMENT_BUDGET_EXHAUSTED'', ''DISCOVERY_QUERY_BUDGET_EXHAUSTED'', ''BUDGET_EXHAUSTED'']"

definition reason_components :: "string option \<Rightarrow> string list" where
  "reason_components reason =
     filter (\<lambda>p. p \<noteq> []) (map strip (split_on CHR ''|'' (case reason of None \<Rightarrow> [] | Some r \<Rightarrow> r)))"

definition classify_reason :: "string option \<Rightarrow> failure_class option" where
  "classify_reason reason =
     (let parts = reason_components reason
      in if parts = [] then None
         else if \<exists>p \<in> set parts. p \<notin> set PERMANENT_REASONS then Some TECHNICAL_RETRYABLE
         else Some FC_EVIDENCE_UNAVAILABLE)"

text \<open>\<open>failures\<close> is a dictionary from requirement to reason; \<open>None\<close> reads as empty.\<close>

definition relevant_failures :: "(string \<times> string) list option \<Rightarrow> string list \<Rightarrow> (string \<times> string) list" where
  "relevant_failures failures blocking =
     filter (\<lambda>(k, v). blocking = [] \<or> k \<in> set blocking) (case failures of None \<Rightarrow> [] | Some fs \<Rightarrow> fs)"

definition classify_requirement_failures ::
  "(string \<times> string) list option \<Rightarrow> string list \<Rightarrow> failure_class option" where
  "classify_requirement_failures failures blocking =
     (let classes = List.map_filter (\<lambda>(k, v). classify_reason (Some v)) (relevant_failures failures blocking)
      in if classes = [] then None
         else if TECHNICAL_RETRYABLE \<in> set classes then Some TECHNICAL_RETRYABLE
         else Some FC_EVIDENCE_UNAVAILABLE)"

definition blocking_failures :: "(string \<times> string) list option \<Rightarrow> string list \<Rightarrow> (string \<times> string) list" where
  "blocking_failures failures blocking = sort_key fst (relevant_failures failures blocking)"

section \<open>The classes as a join\<close>

text \<open>No class below unavailable below technical: combining failures takes the larger class.\<close>

fun class_join :: "failure_class option \<Rightarrow> failure_class option \<Rightarrow> failure_class option" where
  "class_join None b = b"
| "class_join a None = a"
| "class_join (Some TECHNICAL_RETRYABLE) _ = Some TECHNICAL_RETRYABLE"
| "class_join _ (Some TECHNICAL_RETRYABLE) = Some TECHNICAL_RETRYABLE"
| "class_join _ _ = Some FC_EVIDENCE_UNAVAILABLE"

lemma failure_class_cases:
  obtains (None) "c = None" | (Unavailable) "c = Some FC_EVIDENCE_UNAVAILABLE" | (Technical) "c = Some TECHNICAL_RETRYABLE"
  by (cases c; cases "the c") auto

interpretation class_lattice: semilattice_neutr class_join None
proof
  fix a b c :: "failure_class option"
  show "class_join (class_join a b) c = class_join a (class_join b c)"
    by (cases a rule: failure_class_cases; cases b rule: failure_class_cases; cases c rule: failure_class_cases) simp_all
  show "class_join a b = class_join b a"
    by (cases a rule: failure_class_cases; cases b rule: failure_class_cases) simp_all
  show "class_join a a = a" and "class_join a None = a"
    by (cases a rule: failure_class_cases; simp)+
qed

text \<open>Both classifiers are images of one function on the list of classes.\<close>

definition class_of :: "failure_class list \<Rightarrow> failure_class option" where
  "class_of cs = (if cs = [] then None else if TECHNICAL_RETRYABLE \<in> set cs then Some TECHNICAL_RETRYABLE
     else Some FC_EVIDENCE_UNAVAILABLE)"

lemma class_of_append: "class_of (as @ bs) = class_join (class_of as) (class_of bs)"
  by (auto simp: class_of_def)

lemma classify_reason_class_of:
  "classify_reason r = class_of (map (\<lambda>p. if p \<in> set PERMANENT_REASONS then FC_EVIDENCE_UNAVAILABLE
     else TECHNICAL_RETRYABLE) (reason_components r))"
  unfolding classify_reason_def class_of_def Let_def by (auto simp: image_iff)

lemma classify_requirement_class_of:
  "classify_requirement_failures fs bl =
     class_of (List.map_filter (\<lambda>(k, v). classify_reason (Some v)) (relevant_failures fs bl))"
  unfolding classify_requirement_failures_def class_of_def Let_def by simp

lemma map_filter_append: "List.map_filter f (xs @ ys) = List.map_filter f xs @ List.map_filter f ys"
  by (simp add: List.map_filter_def)

lemma reason_components_append:
  "reason_components (Some (a @ ''|'' @ b)) = reason_components (Some a) @ reason_components (Some b)"
  by (simp add: reason_components_def split_on_append)

lemma classify_reason_append:
  "classify_reason (Some (a @ ''|'' @ b)) = class_join (classify_reason (Some a)) (classify_reason (Some b))"
  by (simp add: classify_reason_class_of reason_components_append[simplified] class_of_append)

lemma classify_requirement_append:
  "classify_requirement_failures (Some (fs @ gs)) bl =
     class_join (classify_requirement_failures (Some fs) bl) (classify_requirement_failures (Some gs) bl)"
  by (simp add: classify_requirement_class_of relevant_failures_def map_filter_append class_of_append)

lemma in_map_filter: "y \<in> set (List.map_filter f xs) \<longleftrightarrow> (\<exists>x \<in> set xs. f x = Some y)"
  by (force simp: List.map_filter_def)

section \<open>Dispositions\<close>

text \<open>The disposition table and the state of an outcome; an unknown disposition is retryable.\<close>

definition DISPOSITION_STATE :: "(string \<times> candidate_state) list" where
  "DISPOSITION_STATE =
     [(''ANALYZED'', COMPLETED), (''RANK_FILTERED'', COMPLETED),
      (''DEEP_READINESS_NOT_MET'', EVIDENCE_UNAVAILABLE),
      (''DEEP_ACQUISITION_TIMEOUT'', RETRYABLE_FAILURE), (''DEEP_SOURCE_UNAVAILABLE'', RETRYABLE_FAILURE),
      (''DEEP_TECHNICAL_FAILURE'', RETRYABLE_FAILURE), (''RULE_ENGINE_EXCEPTION'', RETRYABLE_FAILURE),
      (''STAGE2_INTERNAL_ERROR'', RETRYABLE_FAILURE), (''PROFILE_HYDRATION_FAILED'', TERMINAL_OUTCOME),
      (''PROFILE_IDENTITY_MISMATCH'', TERMINAL_OUTCOME), (''CANONICAL_INELIGIBLE'', TERMINAL_OUTCOME),
      (''BASELINE_ACQUISITION_FAILED'', RETRYABLE_FAILURE),
      (''PROFILE_MISSING_AFTER_HYDRATION'', RETRYABLE_FAILURE)]"

definition state_for_disposition :: "string option \<Rightarrow> candidate_state" where
  "state_for_disposition disp =
     (case map_of DISPOSITION_STATE (case disp of None \<Rightarrow> [] | Some d \<Rightarrow> d) of
        None \<Rightarrow> RETRYABLE_FAILURE | Some s \<Rightarrow> s)"

fun terminal_meaning :: "candidate_state \<Rightarrow> string option" where
  "terminal_meaning COMPLETED = Some ''FULLY_ANALYZED''"
| "terminal_meaning EVIDENCE_UNAVAILABLE = Some ''DATA_GENUINELY_UNAVAILABLE''"
| "terminal_meaning RETRYABLE_FAILURE = Some ''TECHNICAL_FAILURE_RETRY_REQUIRED''"
| "terminal_meaning TERMINAL_OUTCOME = Some ''TERMINAL_OUTCOME''"
| "terminal_meaning PENDING = None"
| "terminal_meaning IN_PROGRESS = None"

text \<open>
  The diagnostic fields \<open>_checkpoint_deep_outcome\<close> reads; the last diagnostic of the candidate
  counts, a missing one is an internal error.
\<close>

record diagnostic =
  dg_instrument :: iid
  dg_disposition :: "string option"
  dg_failure_class :: "failure_class option"
  dg_failure_reason :: "string option"

definition deep_outcome :: "iid \<Rightarrow> diagnostic list \<Rightarrow> candidate_state \<times> string option \<times> string option" where
  "deep_outcome key diagnostics =
     (let dg = find (\<lambda>d. dg_instrument d = key) (rev diagnostics);
          disp = (case dg of None \<Rightarrow> Some ''STAGE2_INTERNAL_ERROR'' | Some d \<Rightarrow> dg_disposition d);
          st = (if disp = Some ''DEEP_READINESS_NOT_MET'' \<and> dg \<noteq> None \<and>
                   dg_failure_class (the dg) = Some TECHNICAL_RETRYABLE
                then RETRYABLE_FAILURE else state_for_disposition disp)
      in (st, disp, case dg of None \<Rightarrow> None | Some d \<Rightarrow> dg_failure_reason d))"

section \<open>Properties\<close>

text \<open>the class of a candidate's failures is the join of the classes of its parts, both over the
  '|'-components of one reason and over the recorded failures, so it does not depend on their order
  or repetition and adding a failure never lowers it.\<close>

theorem failure_classes_join:
  "classify_reason (Some (a @ ''|'' @ b)) = class_join (classify_reason (Some a)) (classify_reason (Some b)) \<and>
   classify_requirement_failures (Some (fs @ gs)) bl =
     class_join (classify_requirement_failures (Some fs) bl) (classify_requirement_failures (Some gs) bl) \<and>
   class_join a1 (class_join a1 b1) = class_join a1 b1 \<and> class_join a1 b1 = class_join b1 a1"
  using classify_reason_append classify_requirement_append class_lattice.left_idem class_lattice.commute
  by blast

text \<open>C27: a candidate is classified as lacking evidence only when every component of every relevant
  reason is on the permanent list (and there is at least one); any other recorded reason, known or
  unknown, makes it technical and retryable.\<close>

theorem only_positive_evidence_is_terminal:
  "classify_requirement_failures (Some fs) bl = Some FC_EVIDENCE_UNAVAILABLE \<longleftrightarrow>
     (\<exists>(k, v) \<in> set (relevant_failures (Some fs) bl). reason_components (Some v) \<noteq> []) \<and>
     (\<forall>(k, v) \<in> set (relevant_failures (Some fs) bl).
        \<forall>p \<in> set (reason_components (Some v)). p \<in> set PERMANENT_REASONS)"
proof -
  have tech: "classify_reason (Some v) = Some TECHNICAL_RETRYABLE \<longleftrightarrow>
      (\<exists>p \<in> set (reason_components (Some v)). p \<notin> set PERMANENT_REASONS)" for v
    by (auto simp: classify_reason_def Let_def)
  have some: "reason_components (Some v) \<noteq> [] \<longleftrightarrow> (\<exists>c. classify_reason (Some v) = Some c)" for v
    by (auto simp: classify_reason_def Let_def)
  let ?cs = "List.map_filter (\<lambda>(k, v). classify_reason (Some v)) (relevant_failures (Some fs) bl)"
  have 1: "TECHNICAL_RETRYABLE \<in> set ?cs \<longleftrightarrow> (\<exists>(k, v) \<in> set (relevant_failures (Some fs) bl).
      \<exists>p \<in> set (reason_components (Some v)). p \<notin> set PERMANENT_REASONS)"
    unfolding in_map_filter by (intro bex_cong refl) (simp add: tech split: prod.splits)
  have "?cs \<noteq> [] \<longleftrightarrow> (\<exists>c. c \<in> set ?cs)"
    by (cases ?cs) auto
  also have "\<dots> \<longleftrightarrow> (\<exists>(k, v) \<in> set (relevant_failures (Some fs) bl). reason_components (Some v) \<noteq> [])"
    unfolding in_map_filter some case_prod_beta' by blast
  finally show ?thesis
    using 1 unfolding classify_requirement_class_of class_of_def by (auto split: if_splits)
qed

theorem only_positive_evidence_is_terminal_witness:
  "classify_requirement_failures (Some [(''NEWS'', ''CONTENT_EMPTY | NOT_APPLICABLE''), (''PRICES'', ''NETWORK_TIMEOUT'')]) [''NEWS'']
     = Some FC_EVIDENCE_UNAVAILABLE"
  unfolding only_positive_evidence_is_terminal by code_simp

lemma disposition_table:
  "\<forall>(d, s) \<in> set DISPOSITION_STATE.
     s \<in> {COMPLETED, EVIDENCE_UNAVAILABLE, RETRYABLE_FAILURE, TERMINAL_OUTCOME} \<and>
     (s = EVIDENCE_UNAVAILABLE \<longrightarrow> d = ''DEEP_READINESS_NOT_MET'')"
  by (simp add: DISPOSITION_STATE_def)

lemma disposition_evidence: "map_of DISPOSITION_STATE ''DEEP_READINESS_NOT_MET'' = Some EVIDENCE_UNAVAILABLE"
  by (simp add: DISPOSITION_STATE_def)

lemma state_for_disposition_cases:
  "state_for_disposition disp \<in> {COMPLETED, EVIDENCE_UNAVAILABLE, RETRYABLE_FAILURE, TERMINAL_OUTCOME} \<and>
   (state_for_disposition disp = EVIDENCE_UNAVAILABLE \<longleftrightarrow> disp = Some ''DEEP_READINESS_NOT_MET'')"
proof -
  define d where "d = (case disp of None \<Rightarrow> [] | Some d \<Rightarrow> d)"
  have d: "d = ''DEEP_READINESS_NOT_MET'' \<longleftrightarrow> disp = Some ''DEEP_READINESS_NOT_MET''"
    by (cases disp) (simp_all add: d_def)
  have st: "state_for_disposition disp = (case map_of DISPOSITION_STATE d of None \<Rightarrow> RETRYABLE_FAILURE | Some s \<Rightarrow> s)"
    unfolding state_for_disposition_def d_def ..
  show ?thesis
  proof (cases "map_of DISPOSITION_STATE d")
    case None
    then show ?thesis using st d disposition_evidence by auto
  next
    case (Some s)
    have "state_for_disposition disp = s" using Some st by simp
    moreover have "s \<in> {COMPLETED, EVIDENCE_UNAVAILABLE, RETRYABLE_FAILURE, TERMINAL_OUTCOME}"
      and "s = EVIDENCE_UNAVAILABLE \<longrightarrow> d = ''DEEP_READINESS_NOT_MET''"
      using disposition_table map_of_SomeD[OF Some] by blast+
    moreover have "d = ''DEEP_READINESS_NOT_MET'' \<longrightarrow> s = EVIDENCE_UNAVAILABLE"
      using disposition_evidence Some by (metis option.inject)
    ultimately show ?thesis using d by metis
  qed
qed

text \<open>a candidate is stored as lacking evidence exactly when its last diagnostic is an unmet
  readiness that is not technical; a candidate without a diagnostic, or with a disposition the table
  does not know, is stored as retryable, and every stored outcome has a terminal meaning.\<close>

theorem stored_outcome_is_truthful:
  "(fst (deep_outcome key ds) = EVIDENCE_UNAVAILABLE \<longleftrightarrow>
      (\<exists>d. find (\<lambda>d. dg_instrument d = key) (rev ds) = Some d \<and>
           dg_disposition d = Some ''DEEP_READINESS_NOT_MET'' \<and> dg_failure_class d \<noteq> Some TECHNICAL_RETRYABLE)) \<and>
   (find (\<lambda>d. dg_instrument d = key) (rev ds) = None \<longrightarrow> fst (deep_outcome key ds) = RETRYABLE_FAILURE) \<and>
   terminal_meaning (fst (deep_outcome key ds)) \<noteq> None"
proof -
  have meaning: "terminal_meaning s \<noteq> None" if "s \<in> {COMPLETED, EVIDENCE_UNAVAILABLE, RETRYABLE_FAILURE, TERMINAL_OUTCOME}" for s
    using that by auto
  have internal: "state_for_disposition (Some ''STAGE2_INTERNAL_ERROR'') = RETRYABLE_FAILURE"
    by (simp add: state_for_disposition_def DISPOSITION_STATE_def)
  show ?thesis
  proof (cases "find (\<lambda>d. dg_instrument d = key) (rev ds)")
    case None
    then have "fst (deep_outcome key ds) = RETRYABLE_FAILURE"
      by (simp add: deep_outcome_def internal)
    then show ?thesis using None by simp
  next
    case (Some d)
    define technical where "technical \<longleftrightarrow> dg_disposition d = Some ''DEEP_READINESS_NOT_MET'' \<and>
      dg_failure_class d = Some TECHNICAL_RETRYABLE"
    have out: "fst (deep_outcome key ds) = (if technical then RETRYABLE_FAILURE else state_for_disposition (dg_disposition d))"
      using Some by (simp add: deep_outcome_def technical_def Let_def)
    have "terminal_meaning (fst (deep_outcome key ds)) \<noteq> None"
      unfolding out using meaning[OF state_for_disposition_cases[THEN conjunct1]] by (cases technical) simp_all
    moreover have "fst (deep_outcome key ds) = EVIDENCE_UNAVAILABLE \<longleftrightarrow>
        dg_disposition d = Some ''DEEP_READINESS_NOT_MET'' \<and> \<not> technical"
      unfolding out using state_for_disposition_cases[of "dg_disposition d"] by simp
    ultimately show ?thesis using Some technical_def by auto
  qed
qed

text \<open>A technical readiness gap after an earlier genuine one: the last diagnostic decides.\<close>

theorem stored_outcome_is_truthful_witness:
  "fst (deep_outcome ''i1''
     [\<lparr>dg_instrument = ''i1'', dg_disposition = Some ''DEEP_READINESS_NOT_MET'',
       dg_failure_class = Some TECHNICAL_RETRYABLE, dg_failure_reason = None\<rparr>,
      \<lparr>dg_instrument = ''i1'', dg_disposition = Some ''DEEP_READINESS_NOT_MET'',
       dg_failure_class = Some FC_EVIDENCE_UNAVAILABLE, dg_failure_reason = None\<rparr>]) = EVIDENCE_UNAVAILABLE"
  using stored_outcome_is_truthful[THEN conjunct1] by simp

end
