(* ===== verification/Checkpoint.thy ===== *)
theory Checkpoint
  imports Taxonomy CycleProps
begin

text \<open>
  The orchestrator's handle on one owned cycle (\<open>CycleCheckpoint\<close> of \<open>app/cycle_checkpoint.py\<close>):
  its progress cache, the decision to restore an instrument instead of running it again, and the
  writes that go through the store and are mirrored in the cache.
\<close>

section \<open>The handle\<close>

text \<open>
  A cached row is the dictionary of the columns; after \<open>start\<close> on an instrument without a row it
  holds only the state and the attempts, and \<open>row.get\<close> of the other columns is \<open>None\<close>.
\<close>

record cached_row =
  k_state :: candidate_state
  k_disposition :: "string option"
  k_failure_reason :: "string option"
  k_attempts :: nat
  k_payload :: json

record checkpoint =
  ck_cycle :: cid
  ck_owner :: owner
  ck_max_attempts :: nat
  ck_progress :: "((phase \<times> iid) \<times> cached_row) list"
  ck_restored :: "phase \<Rightarrow> nat"
  ck_executed :: "phase \<Rightarrow> nat"

definition new_checkpoint :: "cid \<Rightarrow> owner \<Rightarrow> nat \<Rightarrow> checkpoint" where
  "new_checkpoint c own max_attempts =
     \<lparr>ck_cycle = c, ck_owner = own, ck_max_attempts = max_attempts, ck_progress = [],
      ck_restored = (\<lambda>_. 0), ck_executed = (\<lambda>_. 0)\<rparr>"

definition cache_row :: "progress_row \<Rightarrow> cached_row" where
  "cache_row r = \<lparr>k_state = p_state r, k_disposition = p_disposition r,
     k_failure_reason = p_failure_reason r, k_attempts = p_attempts r, k_payload = p_payload r\<rparr>"

text \<open>The row a successful \<open>start\<close> or \<open>finish\<close> leaves in the cache.\<close>

definition started_row :: "cached_row option \<Rightarrow> cached_row" where
  "started_row a =
     (let row = (case a of Some r \<Rightarrow> r
        | None \<Rightarrow> \<lparr>k_state = IN_PROGRESS, k_disposition = None, k_failure_reason = None,
                   k_attempts = 0, k_payload = JNull\<rparr>)
      in row\<lparr>k_state := IN_PROGRESS, k_attempts := k_attempts row + 1\<rparr>)"

definition finished_row ::
  "candidate_state \<Rightarrow> string option \<Rightarrow> string option \<Rightarrow> json \<Rightarrow> cached_row option \<Rightarrow> cached_row" where
  "finished_row st disposition failure_reason payload a =
     \<lparr>k_state = st, k_disposition = disposition, k_failure_reason = failure_reason,
      k_attempts = (case a of Some r \<Rightarrow> k_attempts r | None \<Rightarrow> 0), k_payload = payload\<rparr>"

definition ck_load :: "checkpoint \<Rightarrow> db \<Rightarrow> checkpoint" where
  "ck_load h d = h\<lparr>ck_progress := map (\<lambda>(k, r). (k, cache_row r)) (cycle_progress (ck_cycle h) None d)\<rparr>"

definition ck_row :: "checkpoint \<Rightarrow> phase \<Rightarrow> iid \<Rightarrow> cached_row option" where
  "ck_row h ph i = map_of (ck_progress h) (ph, i)"

definition ck_restorable :: "checkpoint \<Rightarrow> phase \<Rightarrow> iid \<Rightarrow> cached_row option" where
  "ck_restorable h ph i =
     (case ck_row h ph i of
        None \<Rightarrow> None
      | Some r \<Rightarrow>
          if k_state r \<in> FINAL_STATES then Some r
          else if k_state r = RETRYABLE_FAILURE \<and> ck_max_attempts h \<le> k_attempts r then Some r
          else None)"

definition ck_note_restored :: "phase \<Rightarrow> checkpoint \<Rightarrow> checkpoint" where
  "ck_note_restored ph h = h\<lparr>ck_restored := (ck_restored h)(ph := ck_restored h ph + 1)\<rparr>"

text \<open>
  \<open>start\<close> counts the execution before it writes; a refused write leaves the cache alone.
\<close>

definition ck_start :: "phase \<Rightarrow> iid \<Rightarrow> time \<Rightarrow> time \<Rightarrow> checkpoint \<Rightarrow> db \<Rightarrow> checkpoint \<times> (db_error + db)" where
  "ck_start ph i now clk h d =
     (let h1 = h\<lparr>ck_executed := (ck_executed h)(ph := ck_executed h ph + 1)\<rparr>
      in case record_cycle_progress (ck_cycle h) (ck_owner h) ph i IN_PROGRESS None None JNull True now clk d of
           Inl e \<Rightarrow> (h1, Inl e)
         | Inr d' \<Rightarrow> (h1\<lparr>ck_progress := dset (ph, i) (started_row (ck_row h1 ph i)) (ck_progress h1)\<rparr>, Inr d'))"

definition ck_finish ::
  "phase \<Rightarrow> iid \<Rightarrow> candidate_state \<Rightarrow> string option \<Rightarrow> string option \<Rightarrow> json \<Rightarrow> time \<Rightarrow> time \<Rightarrow>
   checkpoint \<Rightarrow> db \<Rightarrow> checkpoint \<times> (db_error + db)" where
  "ck_finish ph i st disposition failure_reason payload now clk h d =
     (case record_cycle_progress (ck_cycle h) (ck_owner h) ph i st disposition failure_reason payload False now clk d of
        Inl e \<Rightarrow> (h, Inl e)
      | Inr d' \<Rightarrow>
          (h\<lparr>ck_progress := dset (ph, i)
               (finished_row st disposition failure_reason payload (ck_row h ph i)) (ck_progress h)\<rparr>,
           Inr d'))"

definition ck_save_selection :: "json \<Rightarrow> time \<Rightarrow> time \<Rightarrow> checkpoint \<Rightarrow> db \<Rightarrow> db_error + db" where
  "ck_save_selection sel now clk h d =
     update_cycle_run (ck_cycle h) (ck_owner h) (no_fields\<lparr>f_selection := Some sel\<rparr>) now clk d"

definition ck_selection :: "checkpoint \<Rightarrow> db \<Rightarrow> json" where
  "ck_selection h d = (case cycle_run (ck_cycle h) d of None \<Rightarrow> JNull | Some r \<Rightarrow> r_selection r)"

section \<open>Coherence of the cache\<close>

text \<open>
  A cached row agrees with the stored one on state and attempts, and on the other columns as well
  unless the instrument is in progress (\<open>start\<close> clears them in the store only).
\<close>

fun agrees :: "cached_row option \<Rightarrow> progress_row option \<Rightarrow> bool" where
  "agrees None None = True"
| "agrees (Some a) (Some r) =
     (k_state a = p_state r \<and> k_attempts a = p_attempts r \<and>
      (p_state r = IN_PROGRESS \<or> a = cache_row r))"
| "agrees _ _ = False"


text \<open>
  A store of keyed rows in which a write replaces the row's outcome and counts attempts, reads see
  the last write, and a refused write changes nothing.
\<close>

locale attempt_store =
  fixes read_row :: "'k \<Rightarrow> 's \<Rightarrow> progress_row option"
    and write_row :: "'k \<Rightarrow> candidate_state \<Rightarrow> string option \<Rightarrow> string option \<Rightarrow> json \<Rightarrow> bool \<Rightarrow> 's \<Rightarrow> ('e + 's) \<Rightarrow> bool"
  assumes read_write: "write_row k st disp reason payload start s (Inr s') \<Longrightarrow>
      \<exists>r. read_row k s' = Some r \<and> p_state r = st \<and> p_disposition r = disp \<and>
          p_failure_reason r = reason \<and> p_payload r = payload \<and>
          p_attempts r = (case read_row k s of None \<Rightarrow> 0 | Some r0 \<Rightarrow> p_attempts r0) + (if start then 1 else 0)"
    and read_other: "write_row k st disp reason payload start s (Inr s') \<Longrightarrow> k' \<noteq> k \<Longrightarrow>
      read_row k' s' = read_row k' s"
begin

lemma start_agrees:
  assumes "write_row k IN_PROGRESS None None JNull True s (Inr s')" and "agrees a (read_row k s)"
  shows "agrees (Some (started_row a)) (read_row k s')"
  using read_write[OF assms(1)] assms(2)
  by (cases a; cases "read_row k s") (auto simp: started_row_def)

lemma finish_agrees:
  assumes "write_row k st disp reason payload False s (Inr s')" and "agrees a (read_row k s)"
  shows "agrees (Some (finished_row st disp reason payload a)) (read_row k s')"
  using read_write[OF assms(1)] assms(2)
  by (cases a; cases "read_row k s") (auto simp: finished_row_def cache_row_def)

lemma other_agrees:
  assumes "write_row k st disp reason payload start s (Inr s')" and "agrees a (read_row k' s)" and "k' \<noteq> k"
  shows "agrees a (read_row k' s')"
  using read_other[OF assms(1,3)] assms(2) by simp

end


definition stored_row :: "cid \<times> phase \<times> iid \<Rightarrow> db \<Rightarrow> progress_row option" where
  "stored_row k d = map_of (db_progress d) k"

definition writes_row ::
  "cid \<times> phase \<times> iid \<Rightarrow> candidate_state \<Rightarrow> string option \<Rightarrow> string option \<Rightarrow> json \<Rightarrow> bool \<Rightarrow> db \<Rightarrow>
   (db_error + db) \<Rightarrow> bool" where
  "writes_row k st disp reason payload start d res \<longleftrightarrow>
     (\<exists>own now clk. record_cycle_progress (fst k) own (fst (snd k)) (snd (snd k)) st disp reason payload start now clk d = res)"

interpretation store: attempt_store stored_row writes_row
proof
  fix k :: "cid \<times> phase \<times> iid" and st disp reason payload start d d'
  assume w: "writes_row k st disp reason payload start d (Inr d')"
  then show "\<exists>r. stored_row k d' = Some r \<and> p_state r = st \<and> p_disposition r = disp \<and>
      p_failure_reason r = reason \<and> p_payload r = payload \<and>
      p_attempts r = (case stored_row k d of None \<Rightarrow> 0 | Some r0 \<Rightarrow> p_attempts r0) + (if start then 1 else 0)"
    by (auto simp: writes_row_def stored_row_def record_cycle_progress_def Let_def split: if_splits)
  show "stored_row k' d' = stored_row k' d" if "k' \<noteq> k" for k'
    using w that
    by (auto simp: writes_row_def stored_row_def record_cycle_progress_def Let_def split: if_splits)
qed

definition coherent :: "checkpoint \<Rightarrow> db \<Rightarrow> bool" where
  "coherent h d \<longleftrightarrow> (\<forall>ph i. agrees (ck_row h ph i) (stored_row (ck_cycle h, ph, i) d))"

lemma lookup_cycle_progress:
  "map_of (cycle_progress c None d) (ph, i) = map_of (db_progress d) (c, ph, i)"
proof -
  have "map_of (map (\<lambda>((c', p, i), row). ((p, i), row)) (filter (\<lambda>((c', p, i), row). c' = c) xs)) (ph, i)
      = map_of xs (c, ph, i)" for xs :: "(progress_key \<times> progress_row) list"
    by (induction xs) auto
  then show ?thesis by (simp add: cycle_progress_def)
qed

lemma lookup_cached: "map_of (map (\<lambda>(k, r). (k, f r)) xs) k = map_option f (map_of xs k)"
  by (induction xs) auto

lemma agrees_cache: "agrees (map_option cache_row r) r"
  by (cases r) (simp_all add: cache_row_def)

lemma ck_load_sel [simp]:
  "ck_cycle (ck_load h d) = ck_cycle h" "ck_owner (ck_load h d) = ck_owner h"
  "ck_max_attempts (ck_load h d) = ck_max_attempts h"
  by (simp_all add: ck_load_def)

lemma new_checkpoint_sel [simp]:
  "ck_cycle (new_checkpoint c own n) = c" "ck_owner (new_checkpoint c own n) = own"
  "ck_max_attempts (new_checkpoint c own n) = n"
  by (simp_all add: new_checkpoint_def)

lemma load_coherent: "coherent (ck_load h d) d"
  by (simp add: coherent_def ck_load_def ck_row_def stored_row_def lookup_cached lookup_cycle_progress agrees_cache)

lemma ck_row_dset:
  "ck_row (h\<lparr>ck_progress := dset (ph, i) r (ck_progress h)\<rparr>) ph' i' =
     (if (ph', i') = (ph, i) then Some r else ck_row h ph' i')"
  by (simp add: ck_row_def)

lemma start_coherent:
  assumes "ck_start ph i now clk h d = (h', Inr d')" and "coherent h d"
  shows "coherent h' d' \<and> ck_cycle h' = ck_cycle h \<and> ck_owner h' = ck_owner h \<and> ck_max_attempts h' = ck_max_attempts h"
proof -
  let ?k = "(ck_cycle h, ph, i)"
  have rec: "record_cycle_progress (ck_cycle h) (ck_owner h) ph i IN_PROGRESS None None JNull True now clk d = Inr d'"
    and h': "h' = h\<lparr>ck_executed := (ck_executed h)(ph := ck_executed h ph + 1),
                    ck_progress := dset (ph, i) (started_row (ck_row h ph i)) (ck_progress h)\<rparr>"
    using assms(1) by (auto simp: ck_start_def ck_row_def Let_def split: sum.splits)
  have w: "writes_row ?k IN_PROGRESS None None JNull True d (Inr d')"
    using rec by (auto simp: writes_row_def)
  have "agrees (ck_row h' ph' i') (stored_row (ck_cycle h, ph', i') d')" for ph' i'
  proof (cases "(ph', i') = (ph, i)")
    case True
    then show ?thesis
      using store.start_agrees[OF w, of "ck_row h ph i"] assms(2) by (simp add: h' ck_row_def coherent_def)
  next
    case False
    then show ?thesis
      using store.other_agrees[OF w, of "ck_row h ph' i'"] assms(2) by (auto simp: h' ck_row_def coherent_def)
  qed
  then show ?thesis by (simp add: coherent_def h')
qed

lemma finish_coherent:
  assumes "ck_finish ph i st disp reason payload now clk h d = (h', Inr d')" and "coherent h d"
  shows "coherent h' d' \<and> ck_cycle h' = ck_cycle h \<and> ck_owner h' = ck_owner h \<and> ck_max_attempts h' = ck_max_attempts h"
proof -
  let ?k = "(ck_cycle h, ph, i)"
  have rec: "record_cycle_progress (ck_cycle h) (ck_owner h) ph i st disp reason payload False now clk d = Inr d'"
    and h': "h' = h\<lparr>ck_progress := dset (ph, i) (finished_row st disp reason payload (ck_row h ph i)) (ck_progress h)\<rparr>"
    using assms(1) by (auto simp: ck_finish_def split: sum.splits)
  have w: "writes_row ?k st disp reason payload False d (Inr d')"
    using rec by (auto simp: writes_row_def)
  have "agrees (ck_row h' ph' i') (stored_row (ck_cycle h, ph', i') d')" for ph' i'
  proof (cases "(ph', i') = (ph, i)")
    case True
    then show ?thesis
      using store.finish_agrees[OF w, of "ck_row h ph i"] assms(2) by (simp add: h' ck_row_def coherent_def)
  next
    case False
    then show ?thesis
      using store.other_agrees[OF w, of "ck_row h ph' i'"] assms(2) by (auto simp: h' ck_row_def coherent_def)
  qed
  then show ?thesis by (simp add: coherent_def h')
qed

section \<open>A worker's session\<close>

text \<open>
  A session of a handle: it is loaded by the owner of the cycle; then its own writes (accepted or
  refused) interleave with any steps of the store by anyone, as long as nobody else claims the cycle.
\<close>

fun records_as :: "cid \<Rightarrow> owner \<Rightarrow> cycle_op \<Rightarrow> bool" where
  "records_as c own (Record c' own' ph i st disp reason payload start) = (c' = c \<and> own' = own)"
| "records_as c own _ = False"

inductive session :: "time \<Rightarrow> checkpoint \<Rightarrow> db \<Rightarrow> bool" where
  session_load: "owner_of c d = Some own \<Longrightarrow> session t (ck_load (new_checkpoint c own n) d) d"
| session_start: "session t h d \<Longrightarrow> t \<le> clk \<Longrightarrow> ck_start ph i now clk h d = (h', Inr d') \<Longrightarrow> session clk h' d'"
| session_start_refused: "session t h d \<Longrightarrow> t \<le> clk \<Longrightarrow> ck_start ph i now clk h d = (h', Inl e) \<Longrightarrow> session clk h' d"
| session_finish: "session t h d \<Longrightarrow> t \<le> clk \<Longrightarrow>
    ck_finish ph i st disp reason payload now clk h d = (h', Inr d') \<Longrightarrow> session clk h' d'"
| session_finish_refused: "session t h d \<Longrightarrow> t \<le> clk \<Longrightarrow>
    ck_finish ph i st disp reason payload now clk h d = (h', Inl e) \<Longrightarrow> session clk h' d"
| session_restored: "session t h d \<Longrightarrow> session t (ck_note_restored ph h) d"
| session_other: "session t h d \<Longrightarrow> t \<le> clk \<Longrightarrow> cycle_step clk op d d' \<Longrightarrow>
    \<not> records_as (ck_cycle h) (ck_owner h) op \<Longrightarrow>
    (\<forall>w. claims_as (ck_cycle h) op w \<longrightarrow> w = ck_owner h) \<Longrightarrow> session clk h d'"

lemma record_keeps_owner:
  assumes "record_cycle_progress c own ph i st disp reason payload start now clk d = Inr d'"
  shows "owner_of c d = Some own \<and> (\<forall>c'. owner_of c' d' = owner_of c' d)"
  using assms
  by (auto simp: record_cycle_progress_def progress_fence_def owner_of_def Let_def split: if_splits option.splits)

lemma other_step_keeps_rows:
  assumes "cycle_step clk op d d'" and "\<not> records_as c own op" and "owner_of c d \<in> {Some own, None}"
  shows "stored_row (c, ph, i) d' = stored_row (c, ph, i) d"
  using cycle_step_progress[OF assms(1)]
proof
  assume "db_progress d' = db_progress d"
  then show ?thesis by (simp add: stored_row_def)
next
  assume "\<exists>c own ph i st disp reason payload start now.
     op = Record c own ph i st disp reason payload start \<and>
     record_cycle_progress c own ph i st disp reason payload start now clk d = Inr d'"
  then obtain c2 own2 ph2 i2 st disp reason payload start now where
    op: "op = Record c2 own2 ph2 i2 st disp reason payload start" and
    rec: "record_cycle_progress c2 own2 ph2 i2 st disp reason payload start now clk d = Inr d'"
    by blast
  have "c2 \<noteq> c" using record_keeps_owner[OF rec] assms(2,3) op by auto
  moreover have "writes_row (c2, ph2, i2) st disp reason payload start d (Inr d')"
    using rec by (auto simp: writes_row_def)
  ultimately show ?thesis by (metis fst_conv store.read_other)
qed

lemma session_inv:
  assumes "session t h d"
  shows "coherent h d \<and> owner_of (ck_cycle h) d \<in> {Some (ck_owner h), None}"
  using assms
proof (induction rule: session.induct)
  case (session_load c d own t n)
  then show ?case
    using load_coherent by simp
next
  case (session_start t h d clk ph i now h' d')
  then show ?case
    using start_coherent[OF session_start.hyps(3)] record_keeps_owner
    by (auto simp: ck_start_def Let_def split: sum.splits)
next
  case (session_start_refused t h d clk ph i now h' e)
  then show ?case
    by (auto simp: ck_start_def coherent_def ck_row_def Let_def split: sum.splits)
next
  case (session_finish t h d clk ph i st disp reason payload now h' d')
  then show ?case
    using finish_coherent[OF session_finish.hyps(3)] record_keeps_owner
    by (auto simp: ck_finish_def split: sum.splits)
next
  case (session_finish_refused t h d clk ph i st disp reason payload now h' e)
  then show ?case
    by (auto simp: ck_finish_def split: sum.splits)
next
  case (session_restored t h d ph)
  then show ?case
    by (simp add: ck_note_restored_def coherent_def ck_row_def)
next
  case (session_other t h d clk op d')
  have "owner_of (ck_cycle h) d' \<in> {Some (ck_owner h), None}"
    using cycle_step_owner[OF session_other.hyps(3), of "ck_cycle h"] session_other by auto
  moreover have "coherent h d'"
    using session_other other_step_keeps_rows[OF session_other.hyps(3,4)] by (simp add: coherent_def)
  ultimately show ?case by blast
qed

text \<open>The restore decision read off the store itself.\<close>

definition restorable_row :: "nat \<Rightarrow> progress_row option \<Rightarrow> progress_row option" where
  "restorable_row n r =
     (case r of None \<Rightarrow> None
      | Some r \<Rightarrow> if p_state r \<in> FINAL_STATES \<or> p_state r = RETRYABLE_FAILURE \<and> n \<le> p_attempts r
          then Some r else None)"

text \<open>C7: as long as nobody else has claimed the cycle since the handle was loaded, its restore
  decisions are those of the durable store: whatever the interleaving of its own accepted and refused
  writes with other workers' steps, it restores exactly the final and the exhausted rows, with the
  stored outcome, payload and attempts.\<close>

theorem cached_restore_is_durable:
  assumes "session t h d"
  shows "ck_restorable h ph i =
    map_option cache_row (restorable_row (ck_max_attempts h) (stored_row (ck_cycle h, ph, i) d))"
proof -
  have "agrees (ck_row h ph i) (stored_row (ck_cycle h, ph, i) d)"
    using session_inv[OF assms] by (simp add: coherent_def)
  then show ?thesis
    by (cases "(ck_row h ph i, stored_row (ck_cycle h, ph, i) d)" rule: agrees.cases)
      (auto simp: ck_restorable_def restorable_row_def cache_row_def FINAL_STATES_def)
qed

definition demo_handle :: checkpoint where
  "demo_handle = ck_load (new_checkpoint ''c1'' ''A'' 3) (demo_db R_RUNNING)"

definition demo_started :: "checkpoint \<times> db" where
  "demo_started = (case ck_start PHASE_DEEP ''i1'' 1 1 demo_handle (demo_db R_RUNNING) of
     (h, Inr d) \<Rightarrow> (h, d) | (h, Inl e) \<Rightarrow> (h, empty_db))"

definition demo_finished :: "checkpoint \<times> db" where
  "demo_finished = (case ck_finish PHASE_DEEP ''i1'' COMPLETED (Some ''ANALYZED'') None (JInt 7) 2 2
       (fst demo_started) (snd demo_started) of
     (h, Inr d) \<Rightarrow> (h, d) | (h, Inl e) \<Rightarrow> (h, empty_db))"

lemmas demo_session_simps = demo_finished_def demo_started_def demo_handle_def demo_db_def demo_row_def
  ck_start_def ck_finish_def ck_load_def new_checkpoint_def record_cycle_progress_def progress_fence_def
  lease_live_def cycle_progress_def ck_row_def started_row_def finished_row_def

lemma demo_session: "session 2 (fst demo_finished) (snd demo_finished)"
proof -
  have "session 0 demo_handle (demo_db R_RUNNING)"
    unfolding demo_handle_def by (rule session_load) (simp add: demo_db_def demo_row_def owner_of_def)
  then have "session 1 (fst demo_started) (snd demo_started)"
    by (rule session_start[where clk = 1 and now = 1 and ph = PHASE_DEEP and i = "''i1''"])
      (simp_all add: demo_session_simps Let_def)
  then show ?thesis
    by (rule session_finish[where clk = 2 and now = 2 and ph = PHASE_DEEP and i = "''i1''" and
          st = COMPLETED and disp = "Some ''ANALYZED''" and reason = None and payload = "JInt 7"])
      (simp_all add: demo_session_simps Let_def)
qed

theorem cached_restore_is_durable_witness:
  "map_option k_payload (ck_restorable (fst demo_finished) PHASE_DEEP ''i1'') = Some (JInt 7)"
  unfolding cached_restore_is_durable[OF demo_session]
  by (simp add: demo_session_simps Let_def stored_row_def restorable_row_def FINAL_STATES_def cache_row_def)

end
