(* ===== verification/PyNum.thy ===== *)
theory PyNum
  imports Complex_Main "HOL-Library.Log_Nat"
begin

text \<open>
  Python's numbers over exact rationals: rounding half to even, \<open>decimal\<close> arithmetic with the
  default context (28 significant digits, ROUND_HALF_EVEN), and binary64 \<open>float\<close>s with their
  shortest decimal representation (\<open>str\<close>/\<open>repr\<close>).  A finite float or Decimal is the rational it
  denotes.  Rounding is exact about precision and subnormals; the overflow to infinity above
  \<open>2 ^ 1024\<close> is not represented.
\<close>

section \<open>Round half to even\<close>

definition rnd_even :: "rat \<Rightarrow> int" where
  "rnd_even x =
     (let f = \<lfloor>x\<rfloor>; d = x - of_int f
      in if d < 1 / 2 then f else if 1 / 2 < d then f + 1 else if even f then f else f + 1)"

lemma rnd_even_of_int [simp]: "rnd_even (of_int n) = n"
  by (simp add: rnd_even_def)

lemma rnd_even_0 [simp]: "rnd_even 0 = 0"
  using rnd_even_of_int[of 0] by simp

lemma rnd_even_error: "\<bar>of_int (rnd_even x) - x\<bar> \<le> 1 / 2"
  unfolding rnd_even_def Let_def by (auto simp: abs_if) linarith+

lemma rnd_even_mono: "x \<le> y \<Longrightarrow> rnd_even x \<le> rnd_even y"
proof (cases "\<lfloor>x\<rfloor> = \<lfloor>y\<rfloor>")
  case True
  moreover assume "x \<le> y"
  ultimately show ?thesis
    by (auto simp: rnd_even_def Let_def)
next
  case False
  moreover assume xy: "x \<le> y"
  ultimately have "\<lfloor>x\<rfloor> + 1 \<le> \<lfloor>y\<rfloor>"
    using floor_mono[OF xy] by linarith
  moreover have "rnd_even x \<le> \<lfloor>x\<rfloor> + 1" and "\<lfloor>y\<rfloor> \<le> rnd_even y"
    by (auto simp: rnd_even_def Let_def)
  ultimately show ?thesis by linarith
qed

lemma rnd_even_ge_int: "of_int n \<le> x \<Longrightarrow> n \<le> rnd_even x"
  using rnd_even_mono[of "of_int n" x] by simp

lemma rnd_even_le_int: "x \<le> of_int n \<Longrightarrow> rnd_even x \<le> n"
  using rnd_even_mono[of x "of_int n"] by simp

lemma rnd_even_minus: "rnd_even (- x) = - rnd_even x"
proof (cases "x = of_int \<lfloor>x\<rfloor>")
  case True
  then show ?thesis using rnd_even_of_int by (metis of_int_minus)
next
  case False
  then have "\<lfloor>- x\<rfloor> = - \<lfloor>x\<rfloor> - 1"
    by (simp add: floor_eq_iff) linarith
  then show ?thesis
    by (auto simp: rnd_even_def Let_def)
qed

section \<open>Exponents\<close>

text \<open>\<open>bexp b q\<close> is \<open>\<lfloor>log b q\<rfloor>\<close> for a positive rational, computed on integers.\<close>

definition bexp :: "nat \<Rightarrow> rat \<Rightarrow> int" where
  "bexp b q = (if 1 \<le> q then int (floorlog b (nat \<lfloor>q\<rfloor>)) - 1 else - int (floorlog b (nat (\<lceil>1 / q\<rceil> - 1))))"

lemma floorlog_bound: "1 < b \<Longrightarrow> m < b ^ floorlog b m"
  by (metis floorlog_bounds floorlog_def gr0I power_0 zero_less_one)

lemma floorlog_le: "1 < b \<Longrightarrow> 0 < m \<Longrightarrow> b ^ (floorlog b m - 1) \<le> m"
  using floorlog_bounds by blast

lemma bexp_bounds:
  assumes b: "1 < b" and q: "0 < q"
  shows "of_nat b powi (bexp b q) \<le> q \<and> q < of_nat b powi (bexp b q + 1)"
proof (cases "1 \<le> q")
  case True
  define n where "n = nat \<lfloor>q\<rfloor>"
  define k where "k = floorlog b n"
  from True have n: "0 < n" "of_nat n \<le> q" "q < of_nat n + 1"
    unfolding n_def using floor_correct[of q] by simp_all
  have k: "b ^ (k - 1) \<le> n" "n < b ^ k" "0 < k"
    using floorlog_bounds[OF n(1) b] n(1) unfolding k_def by (auto intro: gr0I)
  have "rat_of_nat (b ^ (k - 1)) \<le> of_nat n" "rat_of_nat n + 1 \<le> of_nat (b ^ k)"
    using k(1,2) by (simp_all only: of_nat_le_iff of_nat_Suc[symmetric] Suc_le_eq add.commute[of _ 1])
  moreover have "bexp b q = int (k - 1)" "bexp b q + 1 = int k"
    using True k(3) by (simp_all add: bexp_def k_def n_def)
  then have "of_nat b powi bexp b q = rat_of_nat (b ^ (k - 1))" "of_nat b powi (bexp b q + 1) = rat_of_nat (b ^ k)"
    by (simp_all only: power_int_of_nat of_nat_power)
  ultimately show ?thesis
    using n(2,3) by linarith
next
  case False
  define m where "m = nat (\<lceil>1 / q\<rceil> - 1)"
  define k where "k = floorlog b m"
  have r: "1 < 1 / q" using False q by simp
  then have "2 \<le> \<lceil>1 / q\<rceil>" by linarith
  then have mi: "0 < m" "int m = \<lceil>1 / q\<rceil> - 1"
    unfolding m_def by linarith+
  have "rat_of_nat m = of_int (\<lceil>1 / q\<rceil> - 1)" using mi(2) by (metis of_int_of_nat_eq)
  then have m: "of_nat m < 1 / q" "1 / q \<le> of_nat m + 1"
    by linarith+
  have k: "b ^ (k - 1) \<le> m" "m < b ^ k" "0 < k"
    using floorlog_bounds[OF mi(1) b] mi(1) unfolding k_def by (auto intro: gr0I)
  have "rat_of_nat (b ^ (k - 1)) \<le> of_nat m" "rat_of_nat m + 1 \<le> of_nat (b ^ k)"
    using k(1,2) by (simp_all only: of_nat_le_iff of_nat_Suc[symmetric] Suc_le_eq add.commute[of _ 1])
  then have *: "rat_of_nat (b ^ (k - 1)) < 1 / q" "1 / q \<le> of_nat (b ^ k)"
    using m by linarith+
  have e: "bexp b q = - int k" "bexp b q + 1 = - int (k - 1)"
    using False k(3) by (simp_all add: bexp_def k_def m_def of_nat_diff)
  have pos: "0 < rat_of_nat (b ^ k)" "0 < rat_of_nat (b ^ (k - 1))" using b by simp_all
  have inv: "inverse X \<le> q" if "0 < X" "1 / q \<le> X" for X using that q by (simp add: field_simps)
  have inv': "q < inverse X" if "0 < X" "X < 1 / q" for X using that q by (simp add: field_simps)
  have "inverse (rat_of_nat (b ^ k)) \<le> q" "q < inverse (rat_of_nat (b ^ (k - 1)))"
    using inv[OF pos(1) *(2)] inv'[OF pos(2) *(1)] by blast+
  moreover have "of_nat b powi bexp b q = inverse (rat_of_nat (b ^ k))"
    unfolding e(1) by (simp only: power_int_minus power_int_of_nat of_nat_power)
  moreover have "of_nat b powi (bexp b q + 1) = inverse (rat_of_nat (b ^ (k - 1)))"
    unfolding e(2) by (simp only: power_int_minus power_int_of_nat of_nat_power)
  ultimately show ?thesis by linarith
qed

lemma power_int_less_iff: "1 < (x::rat) \<Longrightarrow> x powi m < x powi n \<longleftrightarrow> m < n"
  by (metis linorder_neqE_linordered_idom not_less_iff_gr_or_eq power_int_strict_increasing)

lemma bexp_unique:
  assumes b: "1 < b" and q: "0 < q" and "of_nat b powi e \<le> q" "q < of_nat b powi (e + 1)"
  shows "bexp b q = e"
proof -
  have b1: "1 < rat_of_nat b" using b by simp
  have "of_nat b powi (bexp b q) < rat_of_nat b powi (e + 1)" "of_nat b powi e < rat_of_nat b powi (bexp b q + 1)"
    using bexp_bounds[OF b q] assms(3,4) by linarith+
  then have "bexp b q < e + 1" "e < bexp b q + 1"
    using power_int_less_iff[OF b1] by simp_all
  then show ?thesis by linarith
qed

lemma bexp_mono:
  assumes b: "1 < b" and "0 < p" "p \<le> q"
  shows "bexp b p \<le> bexp b q"
proof -
  have b1: "1 < rat_of_nat b" using b by simp
  have "of_nat b powi (bexp b p) < rat_of_nat b powi (bexp b q + 1)"
    using bexp_bounds[OF b, of p] bexp_bounds[OF b, of q] assms by linarith
  then show ?thesis
    using power_int_less_iff[OF b1] by simp
qed

section \<open>Rounding to a number of significant digits\<close>

text \<open>
  \<open>rnd_sig b p emin x\<close>: \<open>x\<close> to \<open>p\<close> significant digits of base \<open>b\<close>, but to no finer a grid than
  \<open>b ^ emin\<close>.
\<close>

definition grid_exp :: "nat \<Rightarrow> nat \<Rightarrow> int \<Rightarrow> rat \<Rightarrow> int" where
  "grid_exp b p emin x = max emin (bexp b \<bar>x\<bar> - int p + 1)"

definition rnd_sig :: "nat \<Rightarrow> nat \<Rightarrow> int \<Rightarrow> rat \<Rightarrow> rat" where
  "rnd_sig b p emin x =
     (if x = 0 then 0
      else (let s = of_nat b powi (grid_exp b p emin x) in of_int (rnd_even (x / s)) * s))"

lemma rnd_sig_0 [simp]: "rnd_sig b p emin 0 = 0"
  by (simp add: rnd_sig_def)

lemma rnd_sig_minus: "rnd_sig b p emin (- x) = - rnd_sig b p emin x"
  by (simp add: rnd_sig_def grid_exp_def Let_def rnd_even_minus)

text \<open>A value on a grid at least as fine as the rounding grid is its own rounding.\<close>

lemma rnd_even_on_grid:
  assumes "x = of_int n * s" and "s \<noteq> 0"
  shows "of_int (rnd_even (x / s)) * s = x"
  using assms by simp

lemma rnd_grid_le:
  assumes "0 < s" and "x \<le> of_int n * s"
  shows "of_int (rnd_even (x / s)) * s \<le> of_int n * s"
proof -
  have "x / s \<le> of_int n" using assms by (simp add: pos_divide_le_eq)
  then have "rnd_even (x / s) \<le> n" by (rule rnd_even_le_int)
  then show ?thesis using assms(1) by (simp add: mult_right_mono)
qed

lemma rnd_grid_ge:
  assumes "0 < s" and "of_int n * s \<le> x"
  shows "of_int n * s \<le> of_int (rnd_even (x / s)) * s"
proof -
  have "of_int n \<le> x / s" using assms by (simp add: pos_le_divide_eq)
  then have "n \<le> rnd_even (x / s)" by (rule rnd_even_ge_int)
  then show ?thesis using assms(1) by (simp add: mult_right_mono)
qed

lemma powi_split: "b \<noteq> 0 \<Longrightarrow> e \<le> f \<Longrightarrow> of_nat b powi f = of_int (int b ^ nat (f - e)) * rat_of_nat b powi e"
proof -
  assume "b \<noteq> 0" "e \<le> f"
  then have "rat_of_nat b powi f = rat_of_nat b powi (f - e) * rat_of_nat b powi e"
    by (simp add: power_int_diff)
  moreover have "rat_of_nat b powi (f - e) = of_int (int b ^ nat (f - e))"
    using \<open>e \<le> f\<close> by (simp add: power_int_def)
  ultimately show ?thesis by simp
qed

lemma rnd_sig_nonneg:
  assumes "1 < b" and "0 \<le> x"
  shows "0 \<le> rnd_sig b p emin x"
proof -
  have "0 < rat_of_nat b powi grid_exp b p emin x" using assms(1) by (simp add: zero_less_power_int)
  then show ?thesis
    using rnd_grid_ge[of _ 0 x] assms(2) by (simp add: rnd_sig_def Let_def)
qed

lemma rnd_sig_mono_pos:
  assumes b: "1 < b" and p: "1 \<le> p" and x: "0 < x" and xy: "x \<le> y"
  shows "rnd_sig b p emin x \<le> rnd_sig b p emin y"
proof -
  let ?ex = "grid_exp b p emin x" and ?ey = "grid_exp b p emin y"
  let ?s = "\<lambda>e. rat_of_nat b powi e"
  have s: "0 < ?s e" for e using b by (simp add: zero_less_power_int)
  have y: "0 < y" using x xy by simp
  have bx: "bexp b x \<le> bexp b y" using bexp_mono[OF b x xy] .
  then have le: "?ex \<le> ?ey" using x y by (simp add: grid_exp_def)
  have eq: "rnd_sig b p emin x = of_int (rnd_even (x / ?s ?ex)) * ?s ?ex"
    "rnd_sig b p emin y = of_int (rnd_even (y / ?s ?ey)) * ?s ?ey"
    using x y by (simp_all add: rnd_sig_def Let_def)
  show ?thesis
  proof (cases "?ex = ?ey")
    case True
    have "rnd_even (x / ?s ?ey) \<le> rnd_even (y / ?s ?ey)"
      by (rule rnd_even_mono) (use xy s in \<open>simp add: divide_right_mono less_imp_le\<close>)
    then show ?thesis unfolding eq True using s[of ?ey] by (simp add: mult_right_mono)
  next
    case False
    with le have lt: "?ex < ?ey" by simp
    then have ey: "?ey = bexp b y - int p + 1" using y x by (auto simp: grid_exp_def max_def split: if_splits)
    have ex: "bexp b x - int p + 1 \<le> ?ex" using x by (simp add: grid_exp_def)
    define e where "e = bexp b y"
    have "bexp b x + 1 \<le> e" using lt ey ex unfolding e_def by linarith
    then have "?s (bexp b x + 1) \<le> ?s e"
      using b by (intro power_int_increasing) simp_all
    then have xe: "x \<le> ?s e" and ye: "?s e \<le> y"
      using bexp_bounds[OF b x] bexp_bounds[OF b y] unfolding e_def by linarith+
    have "?ex \<le> e" "?ey \<le> e" using lt ey p unfolding e_def by linarith+
    then obtain m n where m: "?s e = of_int m * ?s ?ex" and n: "?s e = of_int n * ?s ?ey"
      using powi_split[of b] b by (metis less_nat_zero_code)
    have "rnd_sig b p emin x \<le> ?s e"
      unfolding eq m by (rule rnd_grid_le) (use s xe m in auto)
    also have "\<dots> \<le> rnd_sig b p emin y"
      unfolding eq n by (rule rnd_grid_ge) (use s ye n in auto)
    finally show ?thesis .
  qed
qed

lemma rnd_sig_mono:
  assumes b: "1 < b" and p: "1 \<le> p" and xy: "x \<le> y"
  shows "rnd_sig b p emin x \<le> rnd_sig b p emin y"
proof -
  have pos: "0 < x \<Longrightarrow> ?thesis" using rnd_sig_mono_pos[OF b p _ xy] by blast
  have neg: "y < 0 \<Longrightarrow> ?thesis"
    using rnd_sig_mono_pos[OF b p, of "- y" "- x" emin] xy by (simp add: rnd_sig_minus)
  have mid: "x \<le> 0 \<Longrightarrow> 0 \<le> y \<Longrightarrow> ?thesis"
    using rnd_sig_nonneg[OF b, of "- x" p emin] rnd_sig_nonneg[OF b, of y p emin] by (simp add: rnd_sig_minus)
  show ?thesis using pos neg mid by linarith
qed

text \<open>Values with few digits on a coarse enough grid are exact.\<close>

lemma rnd_sig_exact:
  assumes b: "1 < b" and x: "x = of_int m * of_nat b powi e" and m: "\<bar>m\<bar> < int b ^ p" and e: "emin \<le> e"
  shows "rnd_sig b p emin x = x"
proof (cases "x = 0")
  case False
  let ?s = "\<lambda>e. rat_of_nat b powi e"
  have s: "0 < ?s e" for e using b by (simp add: zero_less_power_int)
  have "\<bar>x\<bar> = of_int \<bar>m\<bar> * ?s e" using s[of e] by (simp add: x abs_mult)
  also have "\<dots> < of_int (int b ^ p) * ?s e" using m s[of e] by (intro mult_strict_right_mono) (simp_all only: of_int_less_iff)
  also have "\<dots> = ?s (e + int p)" using b by (simp add: power_int_add)
  finally have "\<bar>x\<bar> < ?s (e + int p)" .
  moreover have "?s (bexp b \<bar>x\<bar>) \<le> \<bar>x\<bar>" using bexp_bounds[OF b, of "\<bar>x\<bar>"] False by simp
  ultimately have "bexp b \<bar>x\<bar> < e + int p"
    using b power_int_less_iff[of "rat_of_nat b"] by (metis le_less_trans of_nat_1 of_nat_less_iff)
  then have g: "grid_exp b p emin x \<le> e" using e by (simp add: grid_exp_def)
  obtain k where "?s e = of_int k * ?s (grid_exp b p emin x)"
    using powi_split[OF _ g, of b] b by (metis less_nat_zero_code)
  then have "x = of_int (m * k) * ?s (grid_exp b p emin x)" by (simp add: x mult.assoc)
  then have "of_int (rnd_even (x / ?s (grid_exp b p emin x))) * ?s (grid_exp b p emin x) = x"
    by (rule rnd_even_on_grid) (use s[of "grid_exp b p emin x"] in linarith)
  then show ?thesis
    using False by (simp add: rnd_sig_def Let_def)
qed simp

lemma rnd_sig_error:
  assumes b: "1 < b"
  shows "\<bar>rnd_sig b p emin x - x\<bar> \<le> of_nat b powi (grid_exp b p emin x) / 2"
proof (cases "x = 0")
  case True
  then show ?thesis using b by simp
next
  case False
  let ?s = "rat_of_nat b powi (grid_exp b p emin x)"
  have s: "0 < ?s" using b by (simp add: zero_less_power_int)
  have "a * t - x = (a - x / t) * t" if "t \<noteq> 0" for a t :: rat
    using that by (simp add: left_diff_distrib)
  moreover have "?s \<noteq> 0" using s by linarith
  ultimately have "rnd_sig b p emin x - x = (of_int (rnd_even (x / ?s)) - x / ?s) * ?s"
    using False unfolding rnd_sig_def Let_def by simp
  then have "\<bar>rnd_sig b p emin x - x\<bar> = \<bar>of_int (rnd_even (x / ?s)) - x / ?s\<bar> * ?s"
    using s by (simp add: abs_mult)
  also have "\<dots> \<le> 1 / 2 * ?s" using rnd_even_error s by (intro mult_right_mono) auto
  finally show ?thesis by simp
qed

text \<open>\<open>decimal\<close> results in the default context, and binary64 results.\<close>

definition dec28 :: "rat \<Rightarrow> rat" where
  "dec28 = rnd_sig 10 28 (- 1000026)"

definition fl64 :: "rat \<Rightarrow> rat" where
  "fl64 = rnd_sig 2 53 (- 1074)"


text \<open>
  \<open>repr(x)\<close> of a float: the decimals with \<open>p\<close> significant digits next to \<open>x\<close> that read back as \<open>x\<close>,
  for the smallest such \<open>p\<close> (17 always suffice), and the closer of the two.
\<close>

definition dec_candidates :: "nat \<Rightarrow> rat \<Rightarrow> rat list" where
  "dec_candidates p x =
     (let s = 10 powi (bexp 10 \<bar>x\<bar> - int p + 1) in [of_int \<lfloor>x / s\<rfloor> * s, of_int \<lceil>x / s\<rceil> * s])"

fun repr_search :: "nat \<Rightarrow> nat \<Rightarrow> rat \<Rightarrow> rat" where
  "repr_search 0 p x = x"
| "repr_search (Suc n) p x =
     (case filter (\<lambda>d. fl64 d = x) (dec_candidates p x) of
        [] \<Rightarrow> repr_search n (Suc p) x
      | [d] \<Rightarrow> d
      | d1 # d2 # _ \<Rightarrow> if \<bar>d1 - x\<bar> \<le> \<bar>d2 - x\<bar> then d1 else d2)"

definition repr_dec :: "rat \<Rightarrow> rat" where
  "repr_dec x = (if x = 0 then 0 else repr_search 17 1 x)"

section \<open>The interface of a rounding\<close>

text \<open>
  What the score arithmetic needs of any rounding it goes through (binary64, the decimal context,
  a quantization): it is monotone and keeps the values it can represent.
\<close>

locale rounding =
  fixes rnd :: "rat \<Rightarrow> rat" and exact :: "rat \<Rightarrow> bool"
  assumes rnd_mono: "x \<le> y \<Longrightarrow> rnd x \<le> rnd y"
    and rnd_exact: "exact x \<Longrightarrow> rnd x = x"
begin

lemma rnd_ge: "exact a \<Longrightarrow> a \<le> x \<Longrightarrow> a \<le> rnd x"
  using rnd_mono rnd_exact by metis

lemma rnd_le: "exact a \<Longrightarrow> x \<le> a \<Longrightarrow> rnd x \<le> a"
  using rnd_mono rnd_exact by metis

lemma rnd_in_range: "exact a \<Longrightarrow> exact b \<Longrightarrow> a \<le> x \<Longrightarrow> x \<le> b \<Longrightarrow> a \<le> rnd x \<and> rnd x \<le> b"
  by (simp add: rnd_ge rnd_le)

lemma rnd_sum_in_range:
  assumes "exact a" "exact b" "\<And>x. x \<in> set xs \<Longrightarrow> a \<le> x \<and> x \<le> b" "xs \<noteq> []"
  shows "a \<le> rnd (sum_list xs / of_nat (length xs)) \<and> rnd (sum_list xs / of_nat (length xs)) \<le> b"
proof -
  have "of_nat (length xs) * a \<le> sum_list xs \<and> sum_list xs \<le> of_nat (length xs) * b"
    using assms(3) by (induction xs) (auto simp: algebra_simps add_mono)
  moreover have "0 < (of_nat (length xs) :: rat)" using assms(4) by simp
  ultimately show ?thesis
    using assms(1,2) by (intro rnd_in_range) (simp_all add: field_simps)
qed

end

definition few_digits :: "nat \<Rightarrow> nat \<Rightarrow> int \<Rightarrow> rat \<Rightarrow> bool" where
  "few_digits b p emin x \<longleftrightarrow> (\<exists>m e. x = of_int m * of_nat b powi e \<and> \<bar>m\<bar> < int b ^ p \<and> emin \<le> e)"

definition quantize :: "nat \<Rightarrow> rat \<Rightarrow> rat" where
  "quantize n x = of_int (rnd_even (x * 10 ^ n)) / 10 ^ n"

interpretation decimal: rounding dec28 "few_digits 10 28 (- 1000026)"
  by unfold_locales (auto simp: dec28_def few_digits_def intro: rnd_sig_mono rnd_sig_exact)

interpretation binary64: rounding fl64 "few_digits 2 53 (- 1074)"
  by unfold_locales (auto simp: fl64_def few_digits_def intro: rnd_sig_mono rnd_sig_exact)

interpretation quantum: rounding "quantize n" "\<lambda>x. \<exists>k. x = of_int k / 10 ^ n" for n
  by unfold_locales (auto simp: quantize_def intro!: divide_right_mono rnd_even_mono)

text \<open>A rounded value has few digits, so rounding is idempotent.\<close>

lemma few_digits_le:
  assumes b: "1 < b" and p: "1 \<le> p" and x: "x = of_int m * of_nat b powi e" and m: "\<bar>m\<bar> \<le> int b ^ p" and e: "emin \<le> e"
  shows "few_digits b p emin x"
proof (cases "\<bar>m\<bar> = int b ^ p")
  case False
  then show ?thesis using x m e unfolding few_digits_def by (intro exI[of _ m] exI[of _ e]) simp
next
  case True
  define n where "n = sgn m * int b ^ (p - 1)"
  have pow: "int b ^ p = int b ^ (p - 1) * int b" using p by (metis One_nat_def Suc_pred less_eq_Suc_le mult.commute power_Suc)
  have "m = sgn m * (int b ^ (p - 1) * int b)" using True pow by (metis mult_sgn_abs)
  then have "m = n * int b" by (simp add: n_def)
  moreover have "rat_of_nat b powi (e + 1) = of_nat b * of_nat b powi e" using b by (simp add: power_int_add)
  ultimately have "x = of_int n * of_nat b powi (e + 1)" by (simp add: x)
  moreover have "\<bar>n\<bar> \<le> int b ^ (p - 1)" by (simp add: n_def abs_mult abs_sgn_eq)
  then have "\<bar>n\<bar> < int b ^ p" using p b by (simp add: power_strict_increasing order.strict_trans1)
  ultimately show ?thesis using e unfolding few_digits_def by (intro exI[of _ n] exI[of _ "e + 1"]) simp
qed

lemma rnd_sig_few_digits:
  assumes b: "1 < b" and p: "1 \<le> p"
  shows "few_digits b p emin (rnd_sig b p emin x)"
proof (cases "x = 0")
  case True
  then show ?thesis using b unfolding few_digits_def by (intro exI[of _ 0] exI[of _ emin]) simp
next
  case False
  let ?s = "\<lambda>e. rat_of_nat b powi e" and ?g = "grid_exp b p emin x"
  have s: "0 < ?s e" for e using b by (simp add: zero_less_power_int)
  have g: "emin \<le> ?g" "bexp b \<bar>x\<bar> + 1 \<le> ?g + int p" by (simp_all add: grid_exp_def)
  have "\<bar>x\<bar> < ?s (bexp b \<bar>x\<bar> + 1)" using bexp_bounds[OF b, of "\<bar>x\<bar>"] False by simp
  also have "\<dots> \<le> ?s (?g + int p)" using b g(2) by (intro power_int_increasing) simp_all
  also have "\<dots> = of_int (int b ^ p) * ?s ?g" using b by (simp add: power_int_add)
  finally have "\<bar>x\<bar> \<le> of_int (int b ^ p) * ?s ?g" by simp
  then have "- of_int (int b ^ p) \<le> x / ?s ?g" "x / ?s ?g \<le> of_int (int b ^ p)"
    using s[of ?g] by (simp_all only: pos_le_divide_eq pos_divide_le_eq abs_le_iff) linarith+
  then have "rnd_even (x / ?s ?g) \<le> int b ^ p" "- (int b ^ p) \<le> rnd_even (x / ?s ?g)"
    using rnd_even_le_int[of "x / ?s ?g" "int b ^ p"] rnd_even_ge_int[of "- (int b ^ p)" "x / ?s ?g"] by simp_all
  then have "\<bar>rnd_even (x / ?s ?g)\<bar> \<le> int b ^ p" by simp
  then show ?thesis
    by (rule few_digits_le[OF b p _ _ g(1), rotated]) (simp add: False rnd_sig_def Let_def)
qed

lemma fl64_idem: "fl64 (fl64 x) = fl64 x"
  by (rule binary64.rnd_exact) (simp add: fl64_def rnd_sig_few_digits)

lemma few_digits_int:
  assumes "\<bar>m\<bar> < int b ^ p" and "emin \<le> 0"
  shows "few_digits b p emin (of_int m)"
  unfolding few_digits_def using assms by (intro exI[of _ m] exI[of _ 0]) simp

lemma fl64_0 [simp]: "fl64 0 = 0" and dec28_0 [simp]: "dec28 0 = 0"
  by (simp_all add: fl64_def dec28_def)

lemma fl64_int: "\<bar>m\<bar> < 2 ^ 53 \<Longrightarrow> fl64 (of_int m) = of_int m"
  by (rule binary64.rnd_exact) (simp add: few_digits_int)

lemma dec28_int: "\<bar>m\<bar> < 10 ^ 28 \<Longrightarrow> dec28 (of_int m) = of_int m"
  by (rule decimal.rnd_exact) (simp add: few_digits_int)

lemma fl64_numeral [simp]: "fl64 100 = 100" "fl64 50 = 50" "fl64 1 = 1"
  using fl64_int[of 100] fl64_int[of 50] fl64_int[of 1] by simp_all

lemma dec28_numeral [simp]: "dec28 100 = 100" "dec28 1 = 1"
  using dec28_int[of 100] dec28_int[of 1] by simp_all

section \<open>Short decimals survive the trip through a float\<close>

lemma fl64_rel_error:
  assumes "2 powi (- 1022) \<le> (x::rat)"
  shows "\<bar>fl64 x - x\<bar> \<le> x / 2 ^ 53"
proof -
  have "(0::rat) < 2 powi (- 1022)" by (simp add: zero_less_power_int)
  then have x: "0 < x" using assms by linarith
  let ?k = "bexp 2 x"
  have b: "2 powi ?k \<le> x" "x < 2 powi (?k + 1)" using bexp_bounds[of 2 x] x by simp_all
  have "(2::rat) powi (- 1022) < 2 powi (?k + 1)" using b(2) assms by linarith
  then have "- 1022 < ?k + 1" using power_int_less_iff[of 2 "- 1022" "?k + 1"] by simp
  then have "grid_exp 2 53 (- 1074) x = ?k - 52" using x by (simp add: grid_exp_def)
  then have "\<bar>fl64 x - x\<bar> \<le> 2 powi (?k - 52) / 2"
    using rnd_sig_error[of 2 53 "- 1074" x] by (simp add: fl64_def)
  also have "(2::rat) powi (?k - 52) = 2 powi ?k / 2 ^ 52" by (simp add: power_int_diff)
  finally show ?thesis using b(1) by (simp add: field_simps)
qed

definition short_decimal :: "rat \<Rightarrow> bool" where
  "short_decimal d \<longleftrightarrow> (\<exists>m j. d = of_int m * 10 powi j \<and> 0 < m \<and> m < 10 ^ 15 \<and> 10 powi (- 300) \<le> d)"

lemma tiny_bound: "(2::rat) powi (- 1022) \<le> 10 powi (- 301)"
  by (simp add: power_int_minus field_simps)

lemma rel_error_bounds:
  fixes x c :: rat
  assumes "\<bar>x - c\<bar> \<le> c / 2 ^ 53" and "0 < c"
  shows "\<bar>x - c\<bar> \<le> x / 2 ^ 52" and "c / 2 < x"
proof -
  define e where "e = c / 9007199254740992"
  have c: "c = 9007199254740992 * e" by (simp add: e_def)
  have "\<bar>x - c\<bar> \<le> e" using assms(1) by (simp add: e_def)
  then have e: "x - c \<le> e" "c - x \<le> e" by (simp_all add: abs_le_iff)
  have "0 < e" using assms(2) c by simp
  with e c show "c / 2 < x" by linarith
  have "\<bar>x - c\<bar> * 4503599627370496 \<le> e * 4503599627370496"
    using \<open>\<bar>x - c\<bar> \<le> e\<close> by simp
  also have "\<dots> \<le> x" using e c \<open>0 < e\<close> by linarith
  finally show "\<bar>x - c\<bar> \<le> x / 2 ^ 52" by (simp add: pos_le_divide_eq)
qed

lemma fl64_inverse_bounds:
  assumes "fl64 c = x" and "10 powi (- 301) * 2 < x"
  shows "\<bar>x - c\<bar> \<le> x / 2 ^ 52 \<and> 0 < c"
proof -
  have pos: "(0::rat) < 10 powi (- 301)" by (simp add: zero_less_power_int)
  have "\<not> c \<le> 10 powi (- 301)"
  proof
    assume "c \<le> 10 powi (- 301)"
    then have "x \<le> fl64 (10 powi (- 301))" using binary64.rnd_mono assms(1) by blast
    also have "\<dots> \<le> 10 powi (- 301) + 10 powi (- 301) / 2 ^ 53"
      using fl64_rel_error[OF tiny_bound] by linarith
    finally show False using assms(2) pos by (simp add: field_simps)
  qed
  then have c: "10 powi (- 301) < c" by simp
  then have "\<bar>x - c\<bar> \<le> c / 2 ^ 53"
    using fl64_rel_error[of c] assms(1) tiny_bound by linarith
  moreover have "0 < c" using c pos by linarith
  ultimately show ?thesis using rel_error_bounds by blast
qed

lemma repr_search_finds:
  assumes n: "n + p = 18" "1 \<le> p" "p \<le> 15"
    and hit: "d \<in> set (dec_candidates 15 x)" "fl64 d = x"
    and only: "\<And>q c. q \<le> 15 \<Longrightarrow> c \<in> set (dec_candidates q x) \<Longrightarrow> fl64 c = x \<Longrightarrow> c = d"
  shows "repr_search n p x = d"
  using n
proof (induction n arbitrary: p)
  case (Suc n)
  let ?fs = "filter (\<lambda>c. fl64 c = x) (dec_candidates p x)"
  have all: "\<forall>c \<in> set ?fs. c = d" using only[of p] Suc.prems by auto
  show ?case
  proof (cases "?fs = []")
    case True
    then have "p \<noteq> 15" using hit by (auto simp: filter_empty_conv)
    then have "repr_search n (Suc p) x = d" using Suc by simp
    then show ?thesis using True by simp
  next
    case False
    then show ?thesis using all by (cases ?fs rule: remdups_adj.cases) auto
  qed
qed simp

theorem repr_of_short_decimal:
  assumes "short_decimal d"
  shows "repr_dec (fl64 d) = d"
proof -
  obtain m j where d: "d = of_int m * 10 powi j" and m: "0 < m" "m < 10 ^ 15" and dl: "10 powi (- 300) \<le> d"
    using assms by (auto simp: short_decimal_def)
  define x where "x = fl64 d"
  have t: "(10::rat) powi (- 300) = 10 * 10 powi (- 301)"
    using power_int_add[of "10::rat" 1 "- 301"] by simp
  have p301: "(0::rat) < 10 powi (- 301)" by (simp add: zero_less_power_int)
  have "(2::rat) powi (- 1022) \<le> d" using dl tiny_bound p301 unfolding t by linarith
  then have e0: "\<bar>x - d\<bar> \<le> d / 2 ^ 53" unfolding x_def by (rule fl64_rel_error)
  have d0: "0 < d" using dl p301 unfolding t by linarith
  have xl: "10 powi (- 301) * 2 < x" using rel_error_bounds(2)[OF e0 d0] dl p301 unfolding t by linarith
  have x: "0 < x" using xl p301 by linarith
  define g :: rat where "g = 10 powi (bexp 10 x - 14)"
  have g: "0 < g" by (simp add: g_def zero_less_power_int)
  have bx: "10 powi (bexp 10 x) \<le> x" "x < 10 powi (bexp 10 x + 1)"
    using bexp_bounds[of 10 x] x by simp_all
  have "(10::rat) powi (bexp 10 x + 1) = 10 ^ 15 * g"
    using power_int_add[of "10::rat" 15 "bexp 10 x - 14"] by (simp add: g_def add.commute)
  then have xg: "x < 10 ^ 15 * g" using bx by simp
  have near: "\<bar>x - c\<bar> < g / 4" if "fl64 c = x" for c
  proof -
    have "x / 2 ^ 52 < g / 4" using xg g by simp
    then show ?thesis using fl64_inverse_bounds[OF that xl] by (blast intro: le_less_trans)
  qed
  have "x < 10 powi (j + 15)"
  proof -
    have pj: "(0::rat) < 10 powi j" by (simp add: zero_less_power_int)
    have "m \<le> 999999999999999" using m(2) by simp
    then have "rat_of_int m \<le> of_int 999999999999999" by (simp only: of_int_le_iff)
    then have "rat_of_int m \<le> 10 ^ 15 - 1" by simp
    then have "d \<le> (10 ^ 15 - 1) * 10 powi j" using pj d by (simp add: mult_right_mono)
    moreover have "(10::rat) powi (j + 15) = 10 ^ 15 * 10 powi j" by (simp add: power_int_add)
    moreover have "x * (10 ^ 15 - 1) < 10 ^ 15 * d"
    proof -
      define e where "e = d / 9007199254740992"
      have "\<bar>x - d\<bar> \<le> e" "d = 9007199254740992 * e" "0 < e" using e0 d0 by (simp_all add: e_def)
      then have "x \<le> 9007199254740993 * e" and "d = 9007199254740992 * e" "0 < e" by (auto simp: abs_le_iff)
      then show ?thesis by simp
    qed
    ultimately show ?thesis by simp
  qed
  then have "(10::rat) powi (bexp 10 x) < 10 powi (j + 15)" using bx(1) by linarith
  then have "bexp 10 x < j + 15" using power_int_less_iff[of "10::rat"] by simp
  then have "bexp 10 x - 14 \<le> j" by simp
  from powi_split[OF _ this, of 10] obtain k :: int where "(10::rat) powi j = of_int k * g"
    unfolding g_def by fastforce
  then have dg: "d = of_int (m * k) * g" by (simp add: d)
  have onto: "c = d" if "q \<le> 15" "c \<in> set (dec_candidates q x)" "fl64 c = x" for q c
  proof -
    have "bexp 10 x - 14 \<le> bexp 10 x - int q + 1" using that(1) by simp
    from powi_split[OF _ this, of 10] obtain k' :: int
      where k': "(10::rat) powi (bexp 10 x - int q + 1) = of_int k' * g"
      unfolding g_def by fastforce
    from that(2) obtain u :: int where "c = of_int u * 10 powi (bexp 10 x - int q + 1)"
      using x by (auto simp: dec_candidates_def Let_def)
    then have c: "c = of_int (u * k') * g" by (simp add: k')
    have "\<bar>c - d\<bar> < g" using near[of c] near[of d] that(3) x_def by linarith
    then have "\<bar>of_int (u * k' - m * k) * g\<bar> < g" unfolding c dg by (simp add: left_diff_distrib)
    then have "\<bar>rat_of_int (u * k' - m * k)\<bar> < 1" using g by (simp only: abs_mult) simp
    then have "u * k' = m * k" by linarith
    then show ?thesis unfolding c dg by simp
  qed
  have "d \<in> set (dec_candidates 15 x)"
  proof -
    have "x - d = (x / g - of_int (m * k)) * g"
      unfolding dg using g by (simp add: left_diff_distrib)
    then have "\<bar>x / g - of_int (m * k)\<bar> * g = \<bar>x - d\<bar>"
      using g by (simp only: abs_mult abs_of_pos)
    then have "\<bar>x / g - of_int (m * k)\<bar> * g < 1 * g" using near[of d] g x_def by linarith
    then have "\<bar>x / g - of_int (m * k)\<bar> < 1" using g by (simp only: mult_less_cancel_right_pos)
    then have "m * k = \<lfloor>x / g\<rfloor> \<or> m * k = \<lceil>x / g\<rceil>" by linarith
    moreover have "dec_candidates 15 x = [of_int \<lfloor>x / g\<rfloor> * g, of_int \<lceil>x / g\<rceil> * g]"
      using x by (simp add: dec_candidates_def Let_def g_def)
    ultimately show ?thesis unfolding dg by (elim disjE) (simp_all del: of_int_mult)
  qed
  then have "repr_search 17 1 x = d"
    by (intro repr_search_finds) (auto simp: x_def[symmetric] intro: onto)
  then show ?thesis using x by (simp add: repr_dec_def x_def[symmetric])
qed

end
