(* ===== verification/Snapshot.thy ===== *)
theory Snapshot
  imports Checkpoint PyNum
begin

text \<open>
  Progress as callers see it, rebuilt from the durable rows alone: \<open>cycle_status_snapshot\<close> of
  \<open>app/cycle_checkpoint.py\<close> and \<open>stages_for_run\<close> of \<open>app/radar_progress.py\<close>.  The JSON the
  cycle writers store is read back as they write it: identifiers are strings, counters are integers
  or null; a snapshot is \<open>None\<close> where the code would raise on a value of another type.
\<close>

section \<open>Reading the stored selection\<close>

fun json_int :: "json \<Rightarrow> int option" where
  "json_int (JInt i) = Some i"
| "json_int (JBool b) = Some (if b then 1 else 0)"
| "json_int _ = None"

fun json_strs :: "json list \<Rightarrow> string list option" where
  "json_strs [] = Some []"
| "json_strs (JStr s # js) = map_option ((#) s) (json_strs js)"
| "json_strs _ = None"

fun json_ids :: "json \<Rightarrow> string list option" where
  "json_ids (JList js) = json_strs js"
| "json_ids _ = None"

fun json_len :: "json \<Rightarrow> nat option" where
  "json_len (JList js) = Some (length js)"
| "json_len (JObj kvs) = Some (length kvs)"
| "json_len (JStr s) = Some (length s)"
| "json_len _ = None"

fun status_name :: "run_status \<Rightarrow> string" where
  "status_name R_ACCEPTED = ''ACCEPTED''"
| "status_name R_RUNNING = ''RUNNING''"
| "status_name R_PUBLISHED = ''PUBLISHED''"
| "status_name R_CANCEL_REQUESTED = ''CANCEL_REQUESTED''"
| "status_name R_COMPLETED = ''COMPLETED''"
| "status_name R_FAILED = ''FAILED''"
| "status_name R_CANCELLED = ''CANCELLED''"

section \<open>Row tests\<close>

text \<open>A final row, or a retryable one whose attempts are spent.\<close>

definition row_terminal :: "progress_row \<Rightarrow> bool" where
  "row_terminal r \<longleftrightarrow> p_state r \<in> FINAL_STATES \<or> p_state r = RETRYABLE_FAILURE \<and> DEFAULT_MAX_ATTEMPTS \<le> p_attempts r"

definition row_awaiting_retry :: "progress_row \<Rightarrow> bool" where
  "row_awaiting_retry r \<longleftrightarrow> p_state r = RETRYABLE_FAILURE \<and> p_attempts r < DEFAULT_MAX_ATTEMPTS"

definition row_diagnostic :: "progress_row \<Rightarrow> json" where
  "row_diagnostic r = or_empty (jget (or_empty (p_payload r)) ''diagnostic'')"

definition row_disposition :: "progress_row \<Rightarrow> json" where
  "row_disposition r =
     (case p_disposition r of
        Some d \<Rightarrow> if d \<noteq> [] then JStr d else jget (row_diagnostic r) ''disposition''
      | None \<Rightarrow> jget (row_diagnostic r) ''disposition'')"

definition row_ready :: "progress_row \<Rightarrow> bool" where
  "row_ready r \<longleftrightarrow> row_disposition r \<in> {JStr ''ANALYZED'', JStr ''RANK_FILTERED''}"

definition row_eligible :: "progress_row \<Rightarrow> bool" where
  "row_eligible r \<longleftrightarrow> truthy (jget (row_diagnostic r) ''rank_eligible'')"

definition how_many :: "('a \<Rightarrow> bool) \<Rightarrow> 'a list \<Rightarrow> int" where
  "how_many p xs = int (length (filter p xs))"

section \<open>The snapshot\<close>

definition stage_percentage :: "int \<Rightarrow> int option \<Rightarrow> int option" where
  "stage_percentage completed tot =
     (case tot of
        None \<Rightarrow> None
      | Some t \<Rightarrow>
          if t \<le> 0 then Some 100
          else Some (max 0 (min 100 (rnd_even (fl64 (of_int (100 * completed) / of_int t))))))"

record stage =
  st_phase :: string
  st_completed :: int
  st_total :: "int option"
  st_percentage :: "int option"

definition overall_percentage :: "run_status option \<Rightarrow> stage list \<Rightarrow> int option" where
  "overall_percentage status stages =
     (if status \<in> {Some R_FAILED, Some R_CANCELLED} \<or> (\<exists>s \<in> set stages. st_percentage s = None) then None
      else
        (let known = filter (\<lambda>s. case st_total s of None \<Rightarrow> False | Some t \<Rightarrow> 0 < t) stages;
             total_scope = sum_list (map (the \<circ> st_total) known)
         in if known = [] \<or> total_scope \<le> 0 then Some 100
            else Some (max 0 (min 100 (rnd_even
                   (fl64 (of_int (100 * sum_list (map st_completed known)) / of_int total_scope)))))))"

record snapshot =
  sn_phase :: json
  sn_baseline_evaluated :: json
  sn_baseline_completed :: int
  sn_baseline_failed :: int
  sn_baseline_in_progress :: int
  sn_baseline_awaiting_retry :: int
  sn_baseline_not_started :: "int option"
  sn_universe_count :: "int option"
  sn_deep_attempted :: int
  sn_deep_completed :: int
  sn_deep_denominator :: int
  sn_deep_ready :: int
  sn_deep_readiness_failed :: int
  sn_deep_technical_failure :: int
  sn_technical :: int
  sn_eligible :: int
  sn_stages :: "stage list"
  sn_overall_percentage :: "int option"
  sn_analysis_scope :: json
  sn_requested_shortlist_limit :: json
  sn_shortlist_limit_applied :: "bool option"

definition admitted_ids :: "json \<Rightarrow> string list option" where
  "admitted_ids selection =
     (let deep = jget selection ''deep_ids''; short = jget selection ''shortlist_ids''
      in map_option dedup_keep_first
           (if truthy deep then json_ids deep else if truthy short then json_ids short else Some []))"

definition phase_rows :: "cid \<Rightarrow> phase \<Rightarrow> db \<Rightarrow> (iid \<times> progress_row) list" where
  "phase_rows c ph d = map (\<lambda>((p, i), row). (i, row)) (cycle_progress c (Some ph) d)"

definition cycle_status_snapshot :: "cid \<Rightarrow> db \<Rightarrow> snapshot option" where
  "cycle_status_snapshot c d =
     (let run = cycle_run c d;
          status = map_option r_status run;
          selection = or_empty (case run of None \<Rightarrow> JNull | Some r \<Rightarrow> r_selection r);
          parameters = or_empty (case run of None \<Rightarrow> JNull | Some r \<Rightarrow> r_parameters r);
          universe = jget selection ''universe'';
          stored_count = jget selection ''universe_count'';
          limit = jget parameters ''shortlist_limit''
      in case admitted_ids selection of
           None \<Rightarrow> None
         | Some admitted \<Rightarrow>
        if universe \<noteq> JNull \<and> stored_count = JNull \<and> json_len universe = None \<or>
           stored_count \<noteq> JNull \<and> json_int stored_count = None \<or>
           admitted \<noteq> [] \<and> limit \<noteq> JNull \<and> json_int limit = None
        then None
        else
       (let scoped = map snd (filter (\<lambda>(key, row). admitted = [] \<or> key \<in> set admitted) (phase_rows c PHASE_DEEP d));
            terminal = filter row_terminal scoped;
            baseline = map snd (phase_rows c PHASE_BASELINE d);
            baseline_completed = how_many row_terminal baseline;
            universe_count =
              (if stored_count \<noteq> JNull then json_int stored_count
               else if universe \<noteq> JNull then map_option int (json_len universe) else None);
            stored_evaluated = jget selection ''baseline_evaluated'';
            baseline_evaluated =
              (if universe \<noteq> JNull \<and> stored_evaluated = JNull then JInt baseline_completed else stored_evaluated);
            phase =
              (if status \<in> {Some R_COMPLETED, Some R_FAILED, Some R_CANCELLED}
               then JStr (status_name (the status))
               else if jhas selection ''deep_ids'' then JStr ''DEEP''
               else if jhas selection ''phase'' then jget selection ''phase'' else JStr ''BASELINE'');
            deep_total = (if admitted \<noteq> [] then Some (int (length admitted)) else None);
            stages =
              [\<lparr>st_phase = ''BASELINE'', st_completed = baseline_completed, st_total = universe_count,
                st_percentage = stage_percentage baseline_completed universe_count\<rparr>,
               \<lparr>st_phase = ''DEEP'', st_completed = int (length terminal), st_total = deep_total,
                st_percentage = stage_percentage (int (length terminal)) deep_total\<rparr>]
        in Some
          \<lparr>sn_phase = phase,
           sn_baseline_evaluated = baseline_evaluated,
           sn_baseline_completed = baseline_completed,
           sn_baseline_failed =
             how_many (\<lambda>r. row_terminal r \<and> \<not> truthy (jget (or_empty (p_payload r)) ''ready'')) baseline,
           sn_baseline_in_progress = how_many (\<lambda>r. p_state r = IN_PROGRESS) baseline,
           sn_baseline_awaiting_retry = how_many row_awaiting_retry baseline,
           sn_baseline_not_started =
             map_option (\<lambda>n. max (n - int (length baseline)) 0) universe_count,
           sn_universe_count = universe_count,
           sn_deep_attempted = how_many (\<lambda>r. 0 < p_attempts r) scoped,
           sn_deep_completed = int (length terminal),
           sn_deep_denominator = int (length admitted),
           sn_deep_ready = how_many row_ready terminal,
           sn_deep_readiness_failed = how_many (\<lambda>r. p_state r = EVIDENCE_UNAVAILABLE) terminal,
           sn_deep_technical_failure = how_many (\<lambda>r. p_state r = RETRYABLE_FAILURE) terminal,
           sn_technical = how_many (\<lambda>r. p_state r = RETRYABLE_FAILURE) scoped,
           sn_eligible = how_many row_eligible terminal,
           sn_stages = stages,
           sn_overall_percentage = overall_percentage status stages,
           sn_analysis_scope = jget parameters ''analysis_scope'',
           sn_requested_shortlist_limit = limit,
           sn_shortlist_limit_applied =
             (if admitted = [] \<or> limit = JNull then None
              else Some (int (length admitted) \<le> the (json_int limit)))\<rparr>))"

section \<open>Radar stages\<close>

text \<open>
  \<open>round(100*completed/total, 2)\<close>: the quotient is a float, and rounding a float to two decimals
  rounds its exact value half to even and reads the decimal back as a float.
\<close>

definition round2 :: "rat \<Rightarrow> rat" where
  "round2 x = fl64 (quantize 2 x)"

record radar_stage =
  rs_name :: string
  rs_status :: string
  rs_completed :: "int option"
  rs_total :: "int option"
  rs_remaining :: "int option"
  rs_percentage :: "rat option"
  rs_failures :: json

definition stage_valid :: "int option \<Rightarrow> int option \<Rightarrow> bool" where
  "stage_valid completed tot =
     (case (completed, tot) of (Some c, Some t) \<Rightarrow> 0 \<le> c \<and> c \<le> t | _ \<Rightarrow> False)"

definition radar_stage_row ::
  "run_status \<Rightarrow> string \<Rightarrow> int option \<Rightarrow> int option \<Rightarrow> bool \<Rightarrow> json \<Rightarrow> radar_stage" where
  "radar_stage_row status name completed tot active failures =
     (let valid = stage_valid completed tot;
          done = valid \<and> completed = tot
      in \<lparr>rs_name = name,
          rs_status = (if done then ''COMPLETED''
                       else if terminal_status status \<and> active then status_name status
                       else if active then ''RUNNING'' else ''PENDING''),
          rs_completed = completed, rs_total = tot,
          rs_remaining = (if valid then Some (the tot - the completed) else None),
          rs_percentage = (if valid \<and> 0 < the tot
             then Some (round2 (fl64 (of_int (100 * the completed) / of_int (the tot)))) else None),
          rs_failures = failures\<rparr>)"

definition stages_for_run ::
  "run_row \<Rightarrow> json \<Rightarrow> int option \<Rightarrow> int option \<Rightarrow> int option \<Rightarrow> int option \<Rightarrow> radar_stage list" where
  "stages_for_run run selection baseline_completed universe_total deep_completed deep_total =
     (let status = r_status run;
          deep = jhas selection ''deep_ids'';
          current = (if jhas selection ''phase'' then jget selection ''phase''
                     else if deep then JStr ''DEEP'' else JStr ''BASELINE'');
          onboarding = jget selection ''onboarding'';
          examined = json_int (jget onboarding ''examined'');
          remaining = map_option int (json_len (jget onboarding ''remaining''));
          etf = (r_market run = ''ETF'')
      in (if truthy onboarding
          then [radar_stage_row status ''ONBOARDING''
                  (case (examined, remaining) of (Some e, Some r) \<Rightarrow> Some (e - r) | _ \<Rightarrow> None)
                  examined (\<not> jhas selection ''universe'') (jget onboarding ''failed'')] else []) @
         (if etf
          then [radar_stage_row status ''ACQUISITION'' baseline_completed universe_total
                  (current \<in> {JStr ''BASELINE'', JStr ''ACQUISITION''}) JNull,
                radar_stage_row status ''SCREENING'' baseline_completed universe_total
                  (current = JStr ''SCREENING'') JNull]
          else [radar_stage_row status ''BASELINE'' baseline_completed universe_total
                  (current = JStr ''BASELINE'') JNull,
                radar_stage_row status ''DEEP_ANALYSIS''
                  (if deep then deep_completed else None) (if deep then deep_total else None)
                  (current = JStr ''DEEP'') JNull]) @
         map (\<lambda>name.
           let checkpoint = (if name = ''PUBLICATION'' \<and> status = R_COMPLETED
                 then JObj [(''completed'', JInt 1), (''total'', JInt 1)]
                 else jget (jget selection ''stage_checkpoints'') name)
           in radar_stage_row status name (json_int (jget checkpoint ''completed''))
                (json_int (jget checkpoint ''total'')) (current = JStr name) JNull)
           [''SCORING'', ''RANKING'', ''PUBLICATION''])"

section \<open>Counting lemmas\<close>

lemma how_many_split:
  assumes "\<And>x. x \<in> set xs \<Longrightarrow> p x \<Longrightarrow> \<not> q x"
  shows "how_many p xs + how_many q xs = how_many (\<lambda>x. p x \<or> q x) xs"
  using assms by (induction xs) (auto simp: how_many_def)

lemma how_many_le: "how_many p xs \<le> int (length xs)"
  by (simp add: how_many_def)

lemma how_many_mono: "(\<And>x. x \<in> set xs \<Longrightarrow> p x \<Longrightarrow> q x) \<Longrightarrow> how_many p xs \<le> how_many q xs"
  by (induction xs) (auto simp: how_many_def)

lemma how_many_cong: "(\<And>x. x \<in> set xs \<Longrightarrow> p x = q x) \<Longrightarrow> how_many p xs = how_many q xs"
  unfolding how_many_def by (metis (mono_tags, lifting) filter_cong)

text \<open>Each row is in exactly one of the four groups the counters report, or pending.\<close>

lemma row_groups:
  "how_many row_terminal rs + how_many row_awaiting_retry rs +
   how_many (\<lambda>r. p_state r = IN_PROGRESS) rs + how_many (\<lambda>r. p_state r = PENDING) rs = int (length rs)"
proof (induction rs)
  case (Cons r rs)
  then show ?case
    by (cases "p_state r") (auto simp: how_many_def row_terminal_def row_awaiting_retry_def FINAL_STATES_def)
qed (simp add: how_many_def)

text \<open>The keys of the progress table are its primary key.\<close>

lemma cycle_step_distinct:
  assumes "cycle_step clk op d d'" and "distinct (dkeys (db_progress d))"
  shows "distinct (dkeys (db_progress d'))"
  using cycle_step_progress[OF assms(1)] assms(2)
  by (auto simp: record_cycle_progress_def Let_def intro: distinct_dset split: if_splits)

lemma reachable_distinct: "reachable t d \<Longrightarrow> distinct (dkeys (db_progress d))"
  by (induction rule: reachable.induct) (auto simp: empty_db_def intro: cycle_step_distinct)

lemma distinct_phase_rows:
  assumes "distinct (dkeys (db_progress d))"
  shows "distinct (map fst (phase_rows c ph d))"
proof -
  have "inj_on (\<lambda>((c', p, i), row). i) (set (filter (\<lambda>((c', p, i), row). c' = c \<and> p = ph) (db_progress d)))"
    using assms by (auto simp: inj_on_def distinct_map dest: inj_onD)
       (metis (mono_tags) assms eq_key_imp_eq_value)
  moreover have "distinct (filter (\<lambda>((c', p, i), row). c' = c \<and> p = ph) (db_progress d))"
    using assms by (simp add: distinct_map)
  moreover have "map fst (phase_rows c ph d) =
      map (\<lambda>((c', p, i), row). i) (filter (\<lambda>((c', p, i), row). c' = c \<and> p = ph) (db_progress d))"
    by (simp add: phase_rows_def cycle_progress_def comp_def case_prod_beta')
  ultimately show ?thesis
    by (simp only: distinct_map)
qed

lemma scoped_within_ids:
  assumes "distinct (map fst rows)"
  shows "length (filter (\<lambda>(key, row). key \<in> set ids) rows) \<le> length ids"
proof -
  have "distinct (map fst (filter (\<lambda>(key, row). key \<in> set ids) rows))"
    using assms by (rule distinct_map_filter)
  then have "length (filter (\<lambda>(key, row). key \<in> set ids) rows) =
      card (set (map fst (filter (\<lambda>(key, row). key \<in> set ids) rows)))"
    by (metis distinct_card length_map)
  also have "\<dots> \<le> card (set ids)"
    by (intro card_mono) auto
  finally show ?thesis using card_length le_trans by blast
qed

lemma option_if_Some: "(if b then None else Some x) = Some y \<longleftrightarrow> \<not> b \<and> x = y"
  by auto

lemma snapshot_rows:
  assumes "cycle_status_snapshot c d = Some s"
  obtains admitted scoped baseline where
    "scoped = map snd (filter (\<lambda>(key, row). admitted = [] \<or> key \<in> set admitted) (phase_rows c PHASE_DEEP d))"
    "baseline = map snd (phase_rows c PHASE_BASELINE d)"
    "sn_deep_denominator s = int (length admitted)"
    "sn_deep_completed s = how_many row_terminal scoped"
    "sn_deep_attempted s = how_many (\<lambda>r. 0 < p_attempts r) scoped"
    "sn_baseline_completed s = how_many row_terminal baseline"
    "sn_baseline_failed s = how_many (\<lambda>r. row_terminal r \<and> \<not> truthy (jget (or_empty (p_payload r)) ''ready'')) baseline"
    "sn_baseline_in_progress s = how_many (\<lambda>r. p_state r = IN_PROGRESS) baseline"
    "sn_baseline_awaiting_retry s = how_many row_awaiting_retry baseline"
    "sn_baseline_not_started s = map_option (\<lambda>n. max (n - int (length baseline)) 0) (sn_universe_count s)"
    "sn_stages s = [\<lparr>st_phase = ''BASELINE'', st_completed = sn_baseline_completed s, st_total = sn_universe_count s,
        st_percentage = stage_percentage (sn_baseline_completed s) (sn_universe_count s)\<rparr>,
      \<lparr>st_phase = ''DEEP'', st_completed = sn_deep_completed s,
        st_total = (if admitted \<noteq> [] then Some (int (length admitted)) else None),
        st_percentage = stage_percentage (sn_deep_completed s)
          (if admitted \<noteq> [] then Some (int (length admitted)) else None)\<rparr>]"
    "sn_overall_percentage s = overall_percentage (map_option r_status (cycle_run c d)) (sn_stages s)"
proof -
  obtain admitted where adm: "admitted_ids (or_empty (case cycle_run c d of None \<Rightarrow> JNull | Some r \<Rightarrow> r_selection r)) = Some admitted"
    using assms by (cases "admitted_ids (or_empty (case cycle_run c d of None \<Rightarrow> JNull | Some r \<Rightarrow> r_selection r))")
      (simp_all add: cycle_status_snapshot_def Let_def)
  note s = assms[unfolded cycle_status_snapshot_def Let_def adm option.case option_if_Some]
  show thesis
    by (rule that[of _ admitted], rule refl, rule refl) (simp_all add: s[THEN conjunct2, symmetric] how_many_def)
qed

section \<open>Properties\<close>

text \<open>the baseline counters partition the universe exactly: completed, awaiting retry, in
  progress and pending rows are all the baseline rows, and together with the instruments that have no
  row yet they add up to the universe; failures are among the completed.\<close>

theorem baseline_counts_partition:
  assumes "cycle_status_snapshot c d = Some s"
  shows "sn_baseline_completed s + sn_baseline_awaiting_retry s + sn_baseline_in_progress s +
           how_many (\<lambda>r. p_state r = PENDING) (map snd (phase_rows c PHASE_BASELINE d)) =
           int (length (phase_rows c PHASE_BASELINE d)) \<and>
         (\<forall>n. sn_universe_count s = Some n \<and> int (length (phase_rows c PHASE_BASELINE d)) \<le> n \<longrightarrow>
            (\<exists>m. sn_baseline_not_started s = Some m \<and>
               int (length (phase_rows c PHASE_BASELINE d)) + m = n)) \<and>
         0 \<le> sn_baseline_failed s \<and> sn_baseline_failed s \<le> sn_baseline_completed s"
proof (rule snapshot_rows[OF assms])
  fix admitted scoped baseline
  assume b: "baseline = map snd (phase_rows c PHASE_BASELINE d)"
    and eqs: "sn_baseline_completed s = how_many row_terminal baseline"
    "sn_baseline_failed s = how_many (\<lambda>r. row_terminal r \<and> \<not> truthy (jget (or_empty (p_payload r)) ''ready'')) baseline"
    "sn_baseline_in_progress s = how_many (\<lambda>r. p_state r = IN_PROGRESS) baseline"
    "sn_baseline_awaiting_retry s = how_many row_awaiting_retry baseline"
    "sn_baseline_not_started s = map_option (\<lambda>n. max (n - int (length baseline)) 0) (sn_universe_count s)"
  have len: "length baseline = length (phase_rows c PHASE_BASELINE d)" using b by simp
  have "sn_baseline_failed s \<le> sn_baseline_completed s"
    unfolding eqs by (rule how_many_mono) simp
  moreover have "0 \<le> sn_baseline_failed s" by (simp add: eqs how_many_def)
  ultimately show ?thesis
    using row_groups[of baseline] len eqs b by auto
qed

text \<open>in a reachable store the deep progress of an admitted cycle never exceeds its admission: the
  completed and the attempted instruments number at most the admitted ones.\<close>

theorem deep_progress_within_admission:
  assumes "reachable t d" and "cycle_status_snapshot c d = Some s" and "0 < sn_deep_denominator s"
  shows "0 \<le> sn_deep_completed s \<and> sn_deep_completed s \<le> sn_deep_denominator s \<and>
         sn_deep_attempted s \<le> sn_deep_denominator s"
proof (rule snapshot_rows[OF assms(2)])
  fix admitted scoped :: "_ list"
  assume sc: "scoped = map snd (filter (\<lambda>(key, row). admitted = [] \<or> key \<in> set admitted) (phase_rows c PHASE_DEEP d))"
    and eqs: "sn_deep_denominator s = int (length admitted)" "sn_deep_completed s = how_many row_terminal scoped"
      "sn_deep_attempted s = how_many (\<lambda>r. 0 < p_attempts r) scoped"
  have ne: "admitted \<noteq> []" using assms(3) eqs(1) by auto
  have "length scoped \<le> length admitted"
    using scoped_within_ids[OF distinct_phase_rows[OF reachable_distinct[OF assms(1)], of c PHASE_DEEP], of admitted] ne
    by (simp add: sc)
  moreover have "0 \<le> how_many row_terminal scoped" by (simp add: how_many_def)
  ultimately show ?thesis
    unfolding eqs using how_many_le[of row_terminal scoped] how_many_le[of "\<lambda>r. 0 < p_attempts r" scoped]
      \<open>0 \<le> how_many row_terminal scoped\<close> by linarith
qed

lemma below_hundred:
  assumes "0 < t" "t < 200" "c < t" "0 \<le> c"
  shows "rnd_even (fl64 (of_int (100 * c) / of_int t)) < 100"
proof -
  have "(100 * c) * 512 \<le> 50943 * t" using assms by linarith
  then have "rat_of_int ((100 * c) * 512) \<le> rat_of_int (50943 * t)" by (simp only: of_int_le_iff)
  then have "rat_of_int (100 * c) / of_int t \<le> 50943 / 512"
    using assms(1) by (simp add: pos_divide_le_eq)
  moreover have "few_digits 2 53 (- 1074) (50943 / 512)"
    unfolding few_digits_def by (rule exI[of _ 50943], rule exI[of _ "- 9"]) (simp add: power_int_def power_one_over)
  ultimately have "fl64 (of_int (100 * c) / of_int t) \<le> 50943 / 512"
    by (intro binary64.rnd_le)
  then have "rnd_even (fl64 (of_int (100 * c) / of_int t)) \<le> rnd_even (50943 / 512)"
    by (rule rnd_even_mono)
  also have "\<dots> = 99" by code_simp
  finally show ?thesis by simp
qed

lemma at_hundred:
  assumes "0 < t" "t \<le> c"
  shows "100 \<le> rnd_even (fl64 (of_int (100 * c) / of_int t))"
proof -
  have "100 \<le> rat_of_int (100 * c) / of_int t" using assms by (simp add: pos_le_divide_eq)
  then have "fl64 100 \<le> fl64 (of_int (100 * c) / of_int t)" by (rule binary64.rnd_mono)
  then show ?thesis using rnd_even_ge_int[of 100] by simp
qed

text \<open>a stage percentage is between 0 and 100, is absent exactly when the scope is unknown, never
  drops as work completes, and with fewer than 200 instruments in scope 100 means that all of them are
  done; from 200 on the rounding reports 100 one instrument early.\<close>

theorem stage_percentage_truthful:
  "(stage_percentage c tot = None \<longleftrightarrow> tot = None) \<and>
   (\<forall>p. stage_percentage c tot = Some p \<longrightarrow> 0 \<le> p \<and> p \<le> 100) \<and>
   (\<forall>t p p' c'. c \<le> c' \<and> stage_percentage c (Some t) = Some p \<and> stage_percentage c' (Some t) = Some p' \<longrightarrow> p \<le> p') \<and>
   (\<forall>t. 0 < t \<and> t < 200 \<and> 0 \<le> c \<longrightarrow> (stage_percentage c (Some t) = Some 100 \<longleftrightarrow> t \<le> c)) \<and>
   stage_percentage 199 (Some 200) = Some 100"
proof -
  have mono: "rnd_even (fl64 (of_int (100 * c) / of_int t)) \<le> rnd_even (fl64 (of_int (100 * c') / of_int t))"
    if "c \<le> c'" "0 < t" for c c' t :: int
    using that by (intro rnd_even_mono binary64.rnd_mono divide_right_mono) simp_all
  have "stage_percentage 199 (Some 200) = Some 100" by code_simp
  moreover have "0 < t \<and> t < 200 \<and> 0 \<le> c \<longrightarrow> (stage_percentage c (Some t) = Some 100 \<longleftrightarrow> t \<le> c)" for t
  proof (intro impI)
    assume a: "0 < t \<and> t < 200 \<and> 0 \<le> c"
    show "stage_percentage c (Some t) = Some 100 \<longleftrightarrow> t \<le> c"
    proof (cases "t \<le> c")
      case True
      then show ?thesis using a at_hundred[of t c] by (simp add: stage_percentage_def)
    next
      case False
      then show ?thesis using a below_hundred[of t c] by (simp add: stage_percentage_def)
    qed
  qed
  moreover have "p \<le> p'" if "c \<le> c'" "stage_percentage c (Some t) = Some p" "stage_percentage c' (Some t) = Some p'" for t p p' c'
    using that mono[of c c' t] by (auto simp: stage_percentage_def split: if_splits)
  moreover have "stage_percentage c tot = None \<longleftrightarrow> tot = None"
    and "stage_percentage c tot = Some p \<Longrightarrow> 0 \<le> p \<and> p \<le> 100" for p
    by (auto simp: stage_percentage_def split: option.splits if_splits)
  ultimately show ?thesis by blast
qed

text \<open>Witnesses: the finished session of the checkpoint demonstration.\<close>

definition demo_selection_db :: db where
  "demo_selection_db =
     \<lparr>db_runs = [''c1'' \<mapsto> (demo_row R_RUNNING)\<lparr>r_selection := JObj [(''deep_ids'', JList [JStr ''i1'', JStr ''i2'']),
        (''universe_count'', JInt 2)]\<rparr>],
      db_active = [''NSE'' \<mapsto> ''c1''],
      db_progress =
        [((''c1'', PHASE_BASELINE, ''i1''), \<lparr>p_state = COMPLETED, p_disposition = None, p_failure_reason = None,
            p_attempts = 1, p_payload = JObj [(''ready'', JBool True)], p_updated_at = 1\<rparr>),
         ((''c1'', PHASE_DEEP, ''i1''), \<lparr>p_state = COMPLETED, p_disposition = Some ''ANALYZED'', p_failure_reason = None,
            p_attempts = 1, p_payload = JNull, p_updated_at = 2\<rparr>)]\<rparr>"

lemmas demo_snapshot_simps = cycle_status_snapshot_def demo_selection_db_def demo_row_def cycle_run_def
  admitted_ids_def or_empty_def phase_rows_def cycle_progress_def Let_def

lemma demo_snapshot: "\<exists>s. cycle_status_snapshot ''c1'' demo_selection_db = Some s \<and>
    sn_deep_denominator s = 2 \<and> sn_universe_count s = Some 2"
  by (simp add: demo_snapshot_simps)

theorem baseline_counts_partition_witness:
  "\<exists>s. cycle_status_snapshot ''c1'' demo_selection_db = Some s \<and> sn_baseline_not_started s = Some 1"
proof -
  obtain s where s: "cycle_status_snapshot ''c1'' demo_selection_db = Some s" "sn_universe_count s = Some 2"
    using demo_snapshot by blast
  have "length (phase_rows ''c1'' PHASE_BASELINE demo_selection_db) = 1"
    by (simp add: demo_snapshot_simps)
  then show ?thesis using baseline_counts_partition[OF s(1)] s by auto
qed

definition demo_admitted :: db where
  "demo_admitted =
     (case update_cycle_run ''c1'' ''A'' (no_fields\<lparr>f_selection := Some (JObj [(''deep_ids'', JList [JStr ''i1''])])\<rparr>)
        1 1 (demo_db R_RUNNING) of Inr d \<Rightarrow> d | Inl e \<Rightarrow> empty_db)"

lemma demo_admitted_reachable: "reachable 1 demo_admitted"
proof (rule reach_step[OF demo_reachable])
  show "cycle_step 1 (Update ''c1'' ''A'' (no_fields\<lparr>f_selection := Some (JObj [(''deep_ids'', JList [JStr ''i1''])])\<rparr>))
      (demo_db R_RUNNING) demo_admitted"
    by (rule cycle_stepI[where now = 1])
      (simp_all add: demo_admitted_def update_cycle_run_def demo_simps update_states_def no_fields_def set_fields_def)
qed simp

theorem deep_progress_within_admission_witness:
  "\<exists>s. cycle_status_snapshot ''c1'' demo_admitted = Some s \<and> sn_deep_completed s \<le> 1"
proof -
  have "\<exists>s. cycle_status_snapshot ''c1'' demo_admitted = Some s \<and> sn_deep_denominator s = 1"
    by (simp add: demo_admitted_def update_cycle_run_def demo_simps update_states_def no_fields_def set_fields_def
        cycle_status_snapshot_def cycle_run_def admitted_ids_def or_empty_def phase_rows_def cycle_progress_def Let_def)
  then show ?thesis
    using deep_progress_within_admission[OF demo_admitted_reachable] by fastforce
qed

theorem stage_percentage_truthful_witness: "stage_percentage 4 (Some 5) \<noteq> Some 100"
  using stage_percentage_truthful[of 4] by simp

end
