(* ===== verification/EventStore.thy ===== *)
theory EventStore
  imports Prelude
begin

text \<open>
  \<open>app/event_store.py\<close>: research events kept per instrument in an LRU order, with pinned
  instruments (holding events that are not durable) never evicted.  \<open>OrderedDict\<close> is an association
  list whose last entry is the most recently used; the loader of durable events, the dedup key and
  whether persistence is durable are the constructor's arguments and stay arguments here.
\<close>

section \<open>State\<close>

type_synonym uid = string

record event =
  ev_id :: uid
  ev_instrument :: uid
  ev_content :: string

record 'k bucket =
  bk_events :: "(uid \<times> event) list"
  bk_keys :: "'k set"
  bk_loaded :: bool
  bk_pinned :: bool

record 'k event_store =
  es_max_instruments :: nat
  es_buckets :: "(uid \<times> 'k bucket) list"
  es_instrument_of :: "(uid \<times> uid) list"
  es_applied :: nat
  es_loads :: nat
  es_evictions :: nat

definition new_bucket :: "'k bucket" where
  "new_bucket = \<lparr>bk_events = [], bk_keys = {}, bk_loaded = False, bk_pinned = False\<rparr>"

definition new_event_store :: "int \<Rightarrow> 'k event_store" where
  "new_event_store max_instruments =
     \<lparr>es_max_instruments = nat (max 1 max_instruments), es_buckets = [], es_instrument_of = [],
      es_applied = 0, es_loads = 0, es_evictions = 0\<rparr>"

section \<open>Loading and eviction\<close>

fun load_events :: "(event \<Rightarrow> 'k) \<Rightarrow> uid \<Rightarrow> event list \<Rightarrow> 'k bucket \<times> (uid \<times> uid) list \<Rightarrow> 'k bucket \<times> (uid \<times> uid) list" where
  "load_events key_of i [] s = s"
| "load_events key_of i (e # es) (b, idx) =
     load_events key_of i es
       (if ev_id e \<in> set (dkeys (bk_events b)) then (b, idx)
        else (b\<lparr>bk_events := dset (ev_id e) e (bk_events b), bk_keys := insert (key_of e) (bk_keys b)\<rparr>,
              dset (ev_id e) i idx))"

fun pop_all :: "uid list \<Rightarrow> (uid \<times> uid) list \<Rightarrow> (uid \<times> uid) list" where
  "pop_all [] idx = idx"
| "pop_all (x # xs) idx = pop_all xs (ddel x idx)"

text \<open>The body of the eviction loop over a snapshot of the keys.\<close>

fun evict_loop :: "uid list \<Rightarrow> 'k event_store \<Rightarrow> 'k event_store" where
  "evict_loop [] s = s"
| "evict_loop (i # ks) s =
     (if length (es_buckets s) \<le> es_max_instruments s then s
      else case map_of (es_buckets s) i of
          None \<Rightarrow> evict_loop ks s
        | Some b \<Rightarrow>
            if bk_pinned b \<or> i = fst (last (es_buckets s)) then evict_loop ks s
            else evict_loop ks
              (s\<lparr>es_instrument_of := pop_all (dkeys (bk_events b)) (es_instrument_of s),
                 es_buckets := ddel i (es_buckets s),
                 es_evictions := es_evictions s + 1\<rparr>))"

definition evict :: "'k event_store \<Rightarrow> 'k event_store" where
  "evict s = (if length (es_buckets s) \<le> es_max_instruments s then s else evict_loop (dkeys (es_buckets s)) s)"

text \<open>\<open>move_to_end\<close> after creating the bucket if it is missing.\<close>

definition touch :: "uid \<Rightarrow> 'k event_store \<Rightarrow> 'k bucket \<times> (uid \<times> 'k bucket) list" where
  "touch i s =
     (let b = (case map_of (es_buckets s) i of Some b \<Rightarrow> b | None \<Rightarrow> new_bucket)
      in (b, ddel i (es_buckets s) @ [(i, b)]))"

definition fetch_bucket ::
  "(uid \<Rightarrow> event list) \<Rightarrow> (event \<Rightarrow> 'k) \<Rightarrow> bool \<Rightarrow> uid \<Rightarrow> 'k event_store \<Rightarrow> 'k bucket \<times> 'k event_store" where
  "fetch_bucket loader key_of durable i s =
     (let (b, bs) = touch i s
      in if bk_loaded b then (b, s\<lparr>es_buckets := bs\<rparr>)
         else let b1 = b\<lparr>bk_loaded := True\<rparr>
              in if durable
                 then (let (b', idx) = load_events key_of i (loader i) (b1, es_instrument_of s)
                       in (b', s\<lparr>es_loads := es_loads s + 1, es_instrument_of := idx,
                                 es_buckets := dset i b' bs\<rparr>))
                 else (b1, s\<lparr>es_buckets := dset i b1 bs\<rparr>))"

definition es_bucket ::
  "(uid \<Rightarrow> event list) \<Rightarrow> (event \<Rightarrow> 'k) \<Rightarrow> bool \<Rightarrow> uid \<Rightarrow> 'k event_store \<Rightarrow> 'k bucket \<times> 'k event_store" where
  "es_bucket loader key_of durable i s =
     (let (b, s2) = fetch_bucket loader key_of durable i s in (b, evict s2))"

text \<open>The loader above returns.  When it raises, the bucket stays marked as loaded and nothing is evicted.\<close>

definition failed_load :: "uid \<Rightarrow> 'k event_store \<Rightarrow> 'k event_store" where
  "failed_load i s =
     (let (b, bs) = touch i s
      in s\<lparr>es_loads := es_loads s + 1, es_buckets := dset i (b\<lparr>bk_loaded := True\<rparr>) bs\<rparr>)"

definition for_instrument ::
  "(uid \<Rightarrow> event list) \<Rightarrow> (event \<Rightarrow> 'k) \<Rightarrow> bool \<Rightarrow> uid \<Rightarrow> 'k event_store \<Rightarrow> event list \<times> 'k event_store" where
  "for_instrument loader key_of durable i s =
     (let (b, s') = es_bucket loader key_of durable i s in (map snd (bk_events b), s'))"

definition es_add ::
  "(uid \<Rightarrow> event list) \<Rightarrow> (event \<Rightarrow> 'k) \<Rightarrow> bool \<Rightarrow> event \<Rightarrow> bool \<Rightarrow> 'k event_store \<Rightarrow> bool \<times> 'k event_store" where
  "es_add loader key_of store_durable e durable s =
     (let (b, s1) = es_bucket loader key_of store_durable (ev_instrument e) s
      in if key_of e \<in> bk_keys b then (False, s1)
         else (True, s1\<lparr>es_buckets := dset (ev_instrument e)
                 (b\<lparr>bk_keys := insert (key_of e) (bk_keys b), bk_events := dset (ev_id e) e (bk_events b),
                    bk_pinned := (bk_pinned b \<or> \<not> durable)\<rparr>) (es_buckets s1),
               es_instrument_of := dset (ev_id e) (ev_instrument e) (es_instrument_of s1),
               es_applied := es_applied s1 + 1\<rparr>))"

text \<open>The mapping interface over the resident events; \<open>None\<close> is \<open>KeyError\<close>.\<close>

definition es_getitem :: "uid \<Rightarrow> 'k event_store \<Rightarrow> event option" where
  "es_getitem x s =
     (case map_of (es_instrument_of s) x of
        None \<Rightarrow> None
      | Some i \<Rightarrow> (case map_of (es_buckets s) i of None \<Rightarrow> None | Some b \<Rightarrow> map_of (bk_events b) x))"

definition es_setitem :: "(event \<Rightarrow> 'k) \<Rightarrow> uid \<Rightarrow> event \<Rightarrow> 'k event_store \<Rightarrow> 'k event_store" where
  "es_setitem key_of x e s =
     (let b = (case map_of (es_buckets s) (ev_instrument e) of Some b \<Rightarrow> b | None \<Rightarrow> new_bucket)
      in s\<lparr>es_buckets := dset (ev_instrument e)
             (b\<lparr>bk_events := dset x e (bk_events b), bk_keys := insert (key_of e) (bk_keys b),
                bk_pinned := True\<rparr>) (es_buckets s),
           es_instrument_of := dset x (ev_instrument e) (es_instrument_of s)\<rparr>)"

definition es_delitem :: "(event \<Rightarrow> 'k) \<Rightarrow> uid \<Rightarrow> 'k event_store \<Rightarrow> 'k event_store option" where
  "es_delitem key_of x s =
     (case map_of (es_instrument_of s) x of
        None \<Rightarrow> None
      | Some i \<Rightarrow>
          (case map_of (es_buckets s) i of
             None \<Rightarrow> None
           | Some b \<Rightarrow>
               (case map_of (bk_events b) x of
                  None \<Rightarrow> None
                | Some e \<Rightarrow> Some (s\<lparr>es_instrument_of := ddel x (es_instrument_of s),
                    es_buckets := dset i (b\<lparr>bk_events := ddel x (bk_events b),
                       bk_keys := bk_keys b - {key_of e}\<rparr>) (es_buckets s)\<rparr>))))"

definition resident_keys :: "'k event_store \<Rightarrow> 'k set" where
  "resident_keys s = \<Union> (set (map (bk_keys \<circ> snd) (es_buckets s)))"

definition es_len :: "'k event_store \<Rightarrow> nat" where
  "es_len s = length (es_instrument_of s)"

definition es_contains :: "uid \<Rightarrow> 'k event_store \<Rightarrow> bool" where
  "es_contains x s \<longleftrightarrow> x \<in> set (dkeys (es_instrument_of s))"

definition pinned_instruments :: "'k event_store \<Rightarrow> nat" where
  "pinned_instruments s = length (filter (bk_pinned \<circ> snd) (es_buckets s))"

section \<open>Invariant\<close>

text \<open>
  Event identifiers are unique, so an identifier determines its instrument: \<open>home\<close>.  The index
  holds exactly the events of the resident buckets.
\<close>

definition bucket_ok :: "(uid \<Rightarrow> uid) \<Rightarrow> uid \<Rightarrow> 'k bucket \<Rightarrow> bool" where
  "bucket_ok home i b \<longleftrightarrow> distinct (dkeys (bk_events b)) \<and> (\<forall>x \<in> set (dkeys (bk_events b)). home x = i)"

definition es_inv :: "(uid \<Rightarrow> uid) \<Rightarrow> 'k event_store \<Rightarrow> bool" where
  "es_inv home s \<longleftrightarrow>
     1 \<le> es_max_instruments s \<and> distinct (dkeys (es_buckets s)) \<and> distinct (dkeys (es_instrument_of s)) \<and>
     (\<forall>(i, b) \<in> set (es_buckets s). bucket_ok home i b) \<and>
     (\<forall>x i. map_of (es_instrument_of s) x = Some i \<longleftrightarrow>
        (\<exists>b. map_of (es_buckets s) i = Some b \<and> x \<in> set (dkeys (bk_events b))))"

lemma es_inv_new: "es_inv home (new_event_store n)"
  by (simp add: es_inv_def new_event_store_def)

lemma pop_all_lookup: "map_of (pop_all xs idx) x = (if x \<in> set xs then None else map_of idx x)"
  by (induction xs arbitrary: idx) auto

lemma pop_all_distinct: "distinct (dkeys idx) \<Longrightarrow> distinct (dkeys (pop_all xs idx))"
  by (induction xs arbitrary: idx) (auto intro: distinct_ddel)

section \<open>Eviction\<close>

abbreviation mru :: "'k event_store \<Rightarrow> uid" where
  "mru s \<equiv> fst (last (es_buckets s))"

lemma ddel_last:
  assumes "bs \<noteq> []" and "i \<noteq> fst (last bs)"
  shows "ddel i bs \<noteq> [] \<and> last (ddel i bs) = last bs"
proof -
  obtain xs p where "bs = xs @ [p]" using assms(1) by (metis rev_exhaust)
  then show ?thesis using assms(2) by (simp add: AList.delete_eq split_beta)
qed

definition drop_bucket :: "uid \<Rightarrow> 'k bucket \<Rightarrow> 'k event_store \<Rightarrow> 'k event_store" where
  "drop_bucket i b s =
     s\<lparr>es_instrument_of := pop_all (dkeys (bk_events b)) (es_instrument_of s),
       es_buckets := ddel i (es_buckets s), es_evictions := es_evictions s + 1\<rparr>"

lemma es_inv_drop:
  assumes inv: "es_inv home s" and b: "map_of (es_buckets s) i = Some b"
  shows "es_inv home (drop_bucket i b s)"
proof -
  have bo: "bucket_ok home i b"
    using inv map_of_SomeD[OF b] by (auto simp: es_inv_def)
  have home: "home x = i'" if "map_of (es_buckets s) i' = Some b'" "x \<in> set (dkeys (bk_events b'))" for x i' b'
    using inv map_of_SomeD[OF that(1)] that(2) by (fastforce simp: es_inv_def bucket_ok_def)
  have idx: "map_of (pop_all (dkeys (bk_events b)) (es_instrument_of s)) x = Some i' \<longleftrightarrow>
      (\<exists>b'. map_of (ddel i (es_buckets s)) i' = Some b' \<and> x \<in> set (dkeys (bk_events b')))" for x i'
  proof (cases "i' = i")
    case True
    then show ?thesis using inv b by (auto simp: pop_all_lookup es_inv_def)
  next
    case False
    have "x \<notin> set (dkeys (bk_events b))" if "map_of (es_buckets s) i' = Some b'" "x \<in> set (dkeys (bk_events b'))" for b'
      using home[OF that] home[OF b] False by metis
    moreover have "map_of (es_instrument_of s) x = Some i' \<longleftrightarrow>
        (\<exists>b'. map_of (es_buckets s) i' = Some b' \<and> x \<in> set (dkeys (bk_events b')))"
      using inv by (simp add: es_inv_def)
    ultimately show ?thesis using False by (auto simp: pop_all_lookup)
  qed
  have "\<forall>(i, b) \<in> set (ddel i (es_buckets s)). bucket_ok home i b"
    using inv by (auto simp: es_inv_def AList.delete_eq)
  then show ?thesis
    using inv idx by (simp add: es_inv_def drop_bucket_def distinct_ddel pop_all_distinct)
qed

text \<open>
  What an eviction pass keeps: the bound, the most recently used bucket and every pinned bucket;
  it only removes buckets.
\<close>

definition evicts_from :: "(uid \<Rightarrow> uid) \<Rightarrow> 'k event_store \<Rightarrow> 'k event_store \<Rightarrow> bool" where
  "evicts_from home s s' \<longleftrightarrow>
     es_inv home s' \<and> es_max_instruments s' = es_max_instruments s \<and> es_buckets s' \<noteq> [] \<and>
     last (es_buckets s') = last (es_buckets s) \<and> es_applied s' = es_applied s \<and>
     (\<forall>i b. map_of (es_buckets s') i = Some b \<longrightarrow> map_of (es_buckets s) i = Some b) \<and>
     (\<forall>i b. map_of (es_buckets s) i = Some b \<and> (bk_pinned b \<or> i = mru s) \<longrightarrow> map_of (es_buckets s') i = Some b)"

lemma evicts_from_keeps:
  "evicts_from home s s' \<Longrightarrow> map_of (es_buckets s) i = Some b \<Longrightarrow> bk_pinned b \<or> i = mru s \<Longrightarrow>
   map_of (es_buckets s') i = Some b"
  unfolding evicts_from_def by blast

lemma evicts_from_sub:
  "evicts_from home s s' \<Longrightarrow> map_of (es_buckets s') i = Some b \<Longrightarrow> map_of (es_buckets s) i = Some b"
  unfolding evicts_from_def by blast

lemma evicts_from_mru: "evicts_from home s s' \<Longrightarrow> mru s' = mru s"
proof -
  assume "evicts_from home s s'"
  then have "last (es_buckets s') = last (es_buckets s)" unfolding evicts_from_def by blast
  then show ?thesis by simp
qed

lemma evicts_from_inv: "evicts_from home s s' \<Longrightarrow> es_inv home s' \<and> es_buckets s' \<noteq> []"
  unfolding evicts_from_def by blast

lemma evicts_from_eqs:
  "evicts_from home s s' \<Longrightarrow> es_max_instruments s' = es_max_instruments s \<and>
     last (es_buckets s') = last (es_buckets s) \<and> es_applied s' = es_applied s"
  unfolding evicts_from_def by blast

lemma evicts_fromI:
  assumes "es_inv home s'" "es_max_instruments s' = es_max_instruments s" "es_buckets s' \<noteq> []"
    "last (es_buckets s') = last (es_buckets s)" "es_applied s' = es_applied s"
    "\<And>i b. map_of (es_buckets s') i = Some b \<Longrightarrow> map_of (es_buckets s) i = Some b"
    "\<And>i b. map_of (es_buckets s) i = Some b \<Longrightarrow> bk_pinned b \<or> i = mru s \<Longrightarrow> map_of (es_buckets s') i = Some b"
  shows "evicts_from home s s'"
  unfolding evicts_from_def using assms by blast

lemma evicts_from_refl: "es_inv home s \<Longrightarrow> es_buckets s \<noteq> [] \<Longrightarrow> evicts_from home s s"
  by (rule evicts_fromI) simp_all

lemma evicts_from_drop:
  assumes "es_inv home s" and "es_buckets s \<noteq> []" and "map_of (es_buckets s) i = Some b"
    and "\<not> bk_pinned b" and "i \<noteq> mru s"
  shows "evicts_from home s (drop_bucket i b s)"
proof (rule evicts_fromI)
  show "es_inv home (drop_bucket i b s)" by (rule es_inv_drop[OF assms(1,3)])
  show "es_buckets (drop_bucket i b s) \<noteq> []" and "last (es_buckets (drop_bucket i b s)) = last (es_buckets s)"
    using ddel_last[OF assms(2,5)] by (simp_all add: drop_bucket_def)
qed (use assms(3-5) in \<open>auto simp: drop_bucket_def split: if_splits\<close>)

lemma evicts_from_trans: "evicts_from home s s' \<Longrightarrow> evicts_from home s' s'' \<Longrightarrow> evicts_from home s s''"
proof -
  assume a: "evicts_from home s s'" and b: "evicts_from home s' s''"
  show ?thesis
  proof (rule evicts_fromI)
    show "es_inv home s''" and "es_buckets s'' \<noteq> []"
      using evicts_from_inv[OF b] by blast+
    show "es_max_instruments s'' = es_max_instruments s" and "last (es_buckets s'') = last (es_buckets s)"
      and "es_applied s'' = es_applied s"
      using evicts_from_eqs[OF a] evicts_from_eqs[OF b] by auto
  next
    fix i c
    assume "map_of (es_buckets s'') i = Some c"
    then show "map_of (es_buckets s) i = Some c"
      by (rule evicts_from_sub[OF a evicts_from_sub[OF b]])
  next
    fix i c
    assume "map_of (es_buckets s) i = Some c" and p: "bk_pinned c \<or> i = mru s"
    then have "map_of (es_buckets s') i = Some c" by (rule evicts_from_keeps[OF a])
    moreover have "bk_pinned c \<or> i = mru s'" using p unfolding evicts_from_mru[OF a] .
    ultimately show "map_of (es_buckets s'') i = Some c" by (rule evicts_from_keeps[OF b])
  qed
qed

lemma drop_bucket_gone: "map_of (es_buckets (drop_bucket i b s)) i = None"
  by (simp add: drop_bucket_def)

lemma evict_loop_evicts:
  assumes "es_inv home s" and "es_buckets s \<noteq> []"
  shows "evicts_from home s (evict_loop ks s)"
  using assms
proof (induction ks s rule: evict_loop.induct)
  case (2 i ks s)
  show ?case
  proof (cases "length (es_buckets s) \<le> es_max_instruments s")
    case True
    then show ?thesis using 2(4,5) by (simp add: evicts_from_refl)
  next
    case False
    show ?thesis
    proof (cases "map_of (es_buckets s) i")
      case None
      then show ?thesis using 2(1)[OF False None 2(4,5)] False by simp
    next
      case (Some b)
      show ?thesis
      proof (cases "bk_pinned b \<or> i = mru s")
        case True
        then show ?thesis using 2(2)[OF False Some True 2(4,5)] False Some by simp
      next
        case np: False
        then have d: "evicts_from home s (drop_bucket i b s)"
          using evicts_from_drop[OF 2(4,5) Some] by blast
        then have "evicts_from home (drop_bucket i b s) (evict_loop ks (drop_bucket i b s))"
          using 2(3)[OF False Some np] evicts_from_inv[OF d] unfolding drop_bucket_def by blast
        then show ?thesis
          using evicts_from_trans[OF d] False Some np by (simp add: drop_bucket_def)
      qed
    qed
  qed
qed (simp add: evicts_from_refl)

lemma evict_loop_bound:
  assumes "es_inv home s" and "es_buckets s \<noteq> []"
  shows "length (es_buckets (evict_loop ks s)) \<le> es_max_instruments s \<or>
    (\<forall>i \<in> set ks. \<forall>b. map_of (es_buckets (evict_loop ks s)) i = Some b \<longrightarrow> bk_pinned b \<or> i = mru s)"
  using assms
proof (induction ks s rule: evict_loop.induct)
  case (2 i ks s)
  show ?case
  proof (cases "length (es_buckets s) \<le> es_max_instruments s")
    case False
    show ?thesis
    proof (cases "map_of (es_buckets s) i")
      case None
      have "map_of (es_buckets (evict_loop ks s)) i = None"
        using evict_loop_evicts[OF 2(4,5), of ks] None by (metis evicts_from_sub option.exhaust option.distinct(1))
      then show ?thesis using 2(1)[OF False None 2(4,5)] False None by auto
    next
      case (Some b)
      show ?thesis
      proof (cases "bk_pinned b \<or> i = mru s")
        case True
        have "b' = b" if "map_of (es_buckets (evict_loop ks s)) i = Some b'" for b'
          using evict_loop_evicts[OF 2(4,5), of ks] that Some by (metis evicts_from_sub option.inject)
        then show ?thesis using 2(2)[OF False Some True 2(4,5)] False Some True by auto
      next
        case np: False
        let ?d = "drop_bucket i b s"
        have d: "evicts_from home s ?d"
          using evicts_from_drop[OF 2(4,5) Some] np by blast
        then have inv: "es_inv home ?d" "es_buckets ?d \<noteq> []" and mru: "mru ?d = mru s" "es_max_instruments ?d = es_max_instruments s"
          using evicts_from_inv[OF d] evicts_from_mru[OF d] evicts_from_eqs[OF d] by blast+
        have gone: "map_of (es_buckets (evict_loop ks ?d)) i = None"
          using evict_loop_evicts[OF inv, of ks] by (metis evicts_from_sub drop_bucket_gone option.exhaust option.distinct(1))
        show ?thesis
          using 2(3)[OF False Some np] inv mru gone False Some np by (auto simp: drop_bucket_def)
      qed
    qed
  qed simp
qed simp

lemma evict_evicts:
  assumes "es_inv home s" and "es_buckets s \<noteq> []"
  shows "evicts_from home s (evict s)"
  unfolding evict_def using evict_loop_evicts[OF assms] evicts_from_refl[OF assms] by simp

lemma evict_bound:
  assumes inv: "es_inv home s" and "es_buckets s \<noteq> []"
  shows "length (es_buckets (evict s)) \<le> es_max_instruments s \<or>
    (\<forall>(i, b) \<in> set (es_buckets (evict s)). bk_pinned b \<or> i = mru s)"
proof (cases "length (es_buckets s) \<le> es_max_instruments s")
  case False
  then have e: "evict s = evict_loop (dkeys (es_buckets s)) s" by (simp add: evict_def)
  have d: "distinct (dkeys (es_buckets (evict s)))"
    using evicts_from_inv[OF evict_evicts[OF assms]] by (simp add: es_inv_def)
  have "bk_pinned b \<or> i = mru s"
    if all: "\<forall>i \<in> set (dkeys (es_buckets s)). \<forall>b. map_of (es_buckets (evict s)) i = Some b \<longrightarrow> bk_pinned b \<or> i = mru s"
      and m: "(i, b) \<in> set (es_buckets (evict s))" for i b
  proof -
    have "map_of (es_buckets (evict s)) i = Some b" using m d by simp
    moreover from this have "map_of (es_buckets s) i = Some b"
      by (rule evicts_from_sub[OF evict_evicts[OF assms]])
    then have "i \<in> set (dkeys (es_buckets s))" by (metis map_of_SomeD fst_conv image_eqI list.set_map)
    ultimately show ?thesis using all by blast
  qed
  then show ?thesis using evict_loop_bound[OF assms, of "dkeys (es_buckets s)"] unfolding e by blast
qed (simp add: evict_def)

section \<open>Installing a bucket\<close>

lemma es_inv_put:
  assumes inv: "es_inv home s" and bs: "distinct (dkeys bs)"
    and look: "\<And>k. map_of bs k = (if k = i then Some b else map_of (es_buckets s) k)"
    and ok: "bucket_ok home i b" and dist: "distinct (dkeys idx)"
    and idx: "\<And>x. map_of idx x = (if x \<in> set (dkeys (bk_events b)) then Some i else map_of (es_instrument_of s) x)"
    and old: "\<And>b0. map_of (es_buckets s) i = Some b0 \<Longrightarrow> set (dkeys (bk_events b0)) \<subseteq> set (dkeys (bk_events b))"
  shows "es_inv home (s\<lparr>es_buckets := bs, es_instrument_of := idx\<rparr>)"
proof -
  have home: "home x = j" if "map_of bs j = Some c" "x \<in> set (dkeys (bk_events c))" for x j c
  proof (cases "j = i")
    case True
    then show ?thesis using that look ok by (auto simp: bucket_ok_def)
  next
    case False
    then have "(j, c) \<in> set (es_buckets s)" using that(1) look by (metis map_of_SomeD)
    then show ?thesis using inv that(2) by (fastforce simp: es_inv_def bucket_ok_def)
  qed
  have buckets: "bucket_ok home j c" if m: "(j, c) \<in> set bs" for j c
  proof -
    have "map_of bs j = Some c" using m bs by simp
    then consider "j = i" "c = b" | "j \<noteq> i" "(j, c) \<in> set (es_buckets s)"
      using look by (metis map_of_SomeD option.inject)
    then show ?thesis using ok inv by cases (auto simp: es_inv_def)
  qed
  have "map_of idx x = Some j \<longleftrightarrow> (\<exists>c. map_of bs j = Some c \<and> x \<in> set (dkeys (bk_events c)))" for x j
  proof (cases "j = i")
    case True
    have "map_of (es_instrument_of s) x = Some i \<Longrightarrow> x \<in> set (dkeys (bk_events b))"
      using inv old by (auto simp: es_inv_def)
    then show ?thesis using True idx look by auto
  next
    case False
    have "x \<notin> set (dkeys (bk_events b))" if "map_of bs j = Some c" "x \<in> set (dkeys (bk_events c))" for c
      using home[OF that] ok False by (auto simp: bucket_ok_def)
    moreover have "map_of (es_instrument_of s) x = Some j \<longleftrightarrow>
        (\<exists>c. map_of (es_buckets s) j = Some c \<and> x \<in> set (dkeys (bk_events c)))"
      using inv by (simp add: es_inv_def)
    ultimately show ?thesis using False idx look by auto
  qed
  moreover have "\<forall>(j, c) \<in> set bs. bucket_ok home j c" using buckets by blast
  moreover have "1 \<le> es_max_instruments s" using inv by (simp add: es_inv_def)
  ultimately show ?thesis
    using bs dist by (simp add: es_inv_def)
qed

definition loader_ok :: "(uid \<Rightarrow> uid) \<Rightarrow> (uid \<Rightarrow> event list) \<Rightarrow> bool" where
  "loader_ok home loader \<longleftrightarrow> (\<forall>i. \<forall>e \<in> set (loader i). home (ev_id e) = i)"

lemma load_events_spec:
  assumes "load_events key_of i es (b, idx) = (b', idx')" and "bucket_ok home i b"
    and "\<forall>e \<in> set es. home (ev_id e) = i" and "distinct (dkeys idx)"
    and "\<forall>x \<in> set (dkeys (bk_events b)). map_of idx x = Some i"
  shows "bucket_ok home i b' \<and> distinct (dkeys idx') \<and> bk_pinned b' = bk_pinned b \<and> bk_loaded b' = bk_loaded b \<and>
    bk_keys b \<subseteq> bk_keys b' \<and>
    (\<forall>x e. map_of (bk_events b) x = Some e \<longrightarrow> map_of (bk_events b') x = Some e) \<and>
    set (dkeys (bk_events b)) \<subseteq> set (dkeys (bk_events b')) \<and>
    (\<forall>x. map_of idx' x = (if x \<in> set (dkeys (bk_events b')) then Some i else map_of idx x))"
  using assms
proof (induction es arbitrary: b idx)
  case (Cons e es)
  show ?case
  proof (cases "ev_id e \<in> set (dkeys (bk_events b))")
    case True
    then show ?thesis using Cons by simp
  next
    case False
    let ?b = "b\<lparr>bk_events := dset (ev_id e) e (bk_events b), bk_keys := insert (key_of e) (bk_keys b)\<rparr>"
    have keys: "set (dkeys (dset (ev_id e) e (bk_events b))) = insert (ev_id e) (set (dkeys (bk_events b)))"
      by (simp add: dom_update)
    have none: "map_of (bk_events b) (ev_id e) = None" using False by (simp add: map_of_eq_None_iff)
    have "bucket_ok home i ?b"
      using Cons.prems(2,3) keys by (auto simp: bucket_ok_def intro: distinct_dset)
    moreover have "load_events key_of i es (?b, dset (ev_id e) i idx) = (b', idx')"
      using Cons.prems(1) False by simp
    moreover have "\<forall>e \<in> set es. home (ev_id e) = i" using Cons.prems(3) by simp
    moreover have "distinct (dkeys (dset (ev_id e) i idx))" using Cons.prems(4) by (rule distinct_dset)
    moreover have "\<forall>x \<in> set (dkeys (bk_events ?b)). map_of (dset (ev_id e) i idx) x = Some i"
    proof
      fix x assume "x \<in> set (dkeys (bk_events ?b))"
      then have "x = ev_id e \<or> x \<in> set (dkeys (bk_events b))" using keys by simp
      then show "map_of (dset (ev_id e) i idx) x = Some i" using Cons.prems(5) by auto
    qed
    ultimately have ih: "bucket_ok home i b' \<and> distinct (dkeys idx') \<and> bk_pinned b' = bk_pinned ?b \<and> bk_loaded b' = bk_loaded ?b \<and>
      bk_keys ?b \<subseteq> bk_keys b' \<and>
      (\<forall>x e. map_of (bk_events ?b) x = Some e \<longrightarrow> map_of (bk_events b') x = Some e) \<and>
      set (dkeys (bk_events ?b)) \<subseteq> set (dkeys (bk_events b')) \<and>
      (\<forall>x. map_of idx' x = (if x \<in> set (dkeys (bk_events b')) then Some i else map_of (dset (ev_id e) i idx) x))"
      using Cons.IH[of ?b "dset (ev_id e) i idx"] by blast
    then have "ev_id e \<in> set (dkeys (bk_events b'))" and "set (dkeys (bk_events b)) \<subseteq> set (dkeys (bk_events b'))"
      using keys by auto
    moreover have "\<forall>x e. map_of (bk_events b) x = Some e \<longrightarrow> map_of (bk_events b') x = Some e"
    proof (intro allI impI)
      fix x ea assume m: "map_of (bk_events b) x = Some ea"
      then have "x \<noteq> ev_id e" using none by auto
      then have "map_of (bk_events ?b) x = Some ea" using m by simp
      then show "map_of (bk_events b') x = Some ea" using ih by blast
    qed
    ultimately show ?thesis using ih by simp
  qed
qed auto

section \<open>One access\<close>

text \<open>A bucket keeps what another one held: its events, and its pin.\<close>

definition keeps_bucket :: "'k bucket \<Rightarrow> 'k bucket \<Rightarrow> bool" where
  "keeps_bucket b b' \<longleftrightarrow> bk_pinned b' = bk_pinned b \<and>
     (\<forall>x e. map_of (bk_events b) x = Some e \<longrightarrow> map_of (bk_events b') x = Some e)"

lemma keeps_bucket_refl [simp]: "keeps_bucket b b"
  by (simp add: keeps_bucket_def)

lemma keeps_bucket_keys: "keeps_bucket b b' \<Longrightarrow> set (dkeys (bk_events b)) \<subseteq> set (dkeys (bk_events b'))"
  unfolding keeps_bucket_def by (metis domI dom_map_of_conv_image_fst list.set_map map_of_eq_None_iff not_None_eq subsetI)

lemma touch_spec:
  assumes "touch i s = (b, bs)"
  shows "bs \<noteq> [] \<and> last bs = (i, b) \<and> b = (case map_of (es_buckets s) i of Some b \<Rightarrow> b | None \<Rightarrow> new_bucket) \<and>
    (distinct (dkeys (es_buckets s)) \<longrightarrow> distinct (dkeys bs)) \<and>
    (\<forall>k. map_of bs k = (if k = i then Some b else map_of (es_buckets s) k))"
proof -
  have bs: "bs = ddel i (es_buckets s) @ [(i, b)]" and b: "b = (case map_of (es_buckets s) i of Some b \<Rightarrow> b | None \<Rightarrow> new_bucket)"
    using assms by (auto simp: touch_def Let_def)
  have "distinct (dkeys (es_buckets s)) \<Longrightarrow> distinct (dkeys bs)"
    unfolding bs by (simp add: distinct_ddel) (simp add: AList.delete_eq image_iff)
  moreover have "map_of bs k = (if k = i then Some b else map_of (es_buckets s) k)" for k
    unfolding bs by (simp add: map_add_def split: option.split)
  ultimately show ?thesis using b by (simp add: bs)
qed

lemma last_dset: "bs \<noteq> [] \<Longrightarrow> distinct (dkeys bs) \<Longrightarrow> last bs = (i, b) \<Longrightarrow> dset i b' bs \<noteq> [] \<and> last (dset i b' bs) = (i, b')"
proof (induction bs)
  case (Cons p ps)
  show ?case
  proof (cases "ps = []")
    case False
    then have "fst p \<noteq> i" using Cons.prems(2,3) by (metis distinct.simps(2) fst_conv image_eqI last.simps last_in_set list.set_map list.simps(9))
    then show ?thesis using Cons False by simp
  qed (use Cons in auto)
qed simp

lemma fetch_bucket_spec:
  assumes "fetch_bucket loader key_of durable i s = (b, s')" and inv: "es_inv home s" and ld: "loader_ok home loader"
  shows "es_inv home s' \<and> es_buckets s' \<noteq> [] \<and> last (es_buckets s') = (i, b) \<and>
    es_max_instruments s' = es_max_instruments s \<and>
    (\<forall>k. map_of (es_buckets s') k = (if k = i then Some b else map_of (es_buckets s) k)) \<and>
    keeps_bucket (case map_of (es_buckets s) i of Some b \<Rightarrow> b | None \<Rightarrow> new_bucket) b"
proof -
  obtain b0 bs where t: "touch i s = (b0, bs)" by (cases "touch i s")
  note ts = touch_spec[OF t]
  have dist: "distinct (dkeys bs)" using ts inv by (simp add: es_inv_def)
  have b0: "bucket_ok home i b0"
    using ts inv by (auto simp: es_inv_def bucket_ok_def new_bucket_def dest: map_of_SomeD split: option.splits)
  have idx0: "map_of (es_instrument_of s) x = Some i" if "x \<in> set (dkeys (bk_events b0))" for x
    using ts inv that by (auto simp: es_inv_def new_bucket_def split: option.splits)
  have old: "set (dkeys (bk_events c)) \<subseteq> set (dkeys (bk_events b0))" if "map_of (es_buckets s) i = Some c" for c
    using ts that by simp
  have idist: "distinct (dkeys (es_instrument_of s))" using inv by (simp add: es_inv_def)
  show ?thesis
  proof (cases "bk_loaded b0")
    case True
    then have r: "b = b0" "s' = s\<lparr>es_buckets := bs\<rparr>"
      using assms(1) t by (auto simp: fetch_bucket_def Let_def)
    have "es_inv home (s\<lparr>es_buckets := bs, es_instrument_of := es_instrument_of s\<rparr>)"
      by (rule es_inv_put[OF inv dist _ b0 idist _ old]) (use ts idx0 in auto)
    then show ?thesis using ts r by simp
  next
    case False
    let ?b1 = "b0\<lparr>bk_loaded := True\<rparr>"
    have b1: "bucket_ok home i ?b1" using b0 by (simp add: bucket_ok_def)
    have put: "es_inv home (s\<lparr>es_buckets := dset i b' bs, es_instrument_of := idx\<rparr>)"
      if "bucket_ok home i b'" "distinct (dkeys idx)" "set (dkeys (bk_events b0)) \<subseteq> set (dkeys (bk_events b'))"
        "\<And>x. map_of idx x = (if x \<in> set (dkeys (bk_events b')) then Some i else map_of (es_instrument_of s) x)" for b' idx
      by (rule es_inv_put[OF inv distinct_dset[OF dist] _ that(1,2,4)]) (use ts old that(3) in auto)
    show ?thesis
    proof (cases durable)
      case dur: False
      then have r: "b = ?b1" "s' = s\<lparr>es_buckets := dset i ?b1 bs\<rparr>"
        using assms(1) t False by (auto simp: fetch_bucket_def Let_def)
      have "es_inv home (s\<lparr>es_buckets := dset i ?b1 bs, es_instrument_of := es_instrument_of s\<rparr>)"
        by (rule put[OF b1 idist]) (use idx0 in auto)
      then show ?thesis using ts r last_dset[OF _ dist] by (simp add: keeps_bucket_def)
    next
      case True
      obtain b' idx where le: "load_events key_of i (loader i) (?b1, es_instrument_of s) = (b', idx)"
        by (cases "load_events key_of i (loader i) (?b1, es_instrument_of s)")
      have r: "b = b'" "s' = s\<lparr>es_loads := es_loads s + 1, es_instrument_of := idx, es_buckets := dset i b' bs\<rparr>"
        using assms(1) t False True le by (auto simp: fetch_bucket_def Let_def)
      have sp: "bucket_ok home i b' \<and> distinct (dkeys idx) \<and> bk_pinned b' = bk_pinned ?b1 \<and> bk_loaded b' = bk_loaded ?b1 \<and>
        bk_keys ?b1 \<subseteq> bk_keys b' \<and> (\<forall>x e. map_of (bk_events ?b1) x = Some e \<longrightarrow> map_of (bk_events b') x = Some e) \<and>
        set (dkeys (bk_events ?b1)) \<subseteq> set (dkeys (bk_events b')) \<and>
        (\<forall>x. map_of idx x = (if x \<in> set (dkeys (bk_events b')) then Some i else map_of (es_instrument_of s) x))"
        by (rule load_events_spec[OF le b1 _ idist]) (use ld idx0 in \<open>auto simp: loader_ok_def\<close>)
      have "es_inv home (s\<lparr>es_buckets := dset i b' bs, es_instrument_of := idx\<rparr>)"
        by (rule put) (use sp in simp_all)
      then have "es_inv home s'" by (simp add: r es_inv_def)
      then show ?thesis using ts r sp last_dset[OF _ dist] by (simp add: keeps_bucket_def)
    qed
  qed
qed

lemma es_bucket_spec:
  assumes "es_bucket loader key_of durable i s = (b, s')" and "es_inv home s" and "loader_ok home loader"
  shows "es_inv home s'" and "es_max_instruments s' = es_max_instruments s"
    and "last (es_buckets s') = (i, b)" and "map_of (es_buckets s') i = Some b"
    and "length (es_buckets s') \<le> es_max_instruments s' \<or> (\<forall>(j, c) \<in> set (es_buckets s'). bk_pinned c \<or> j = i)"
    and "map_of (es_buckets s) j = Some c \<Longrightarrow> bk_pinned c \<or> j = i \<Longrightarrow>
      \<exists>c'. map_of (es_buckets s') j = Some c' \<and> keeps_bucket c c'"
proof -
  obtain s2 where f: "fetch_bucket loader key_of durable i s = (b, s2)" and s': "s' = evict s2"
    using assms(1) by (auto simp: es_bucket_def split: prod.splits)
  note sp = fetch_bucket_spec[OF f assms(2,3)]
  have inv2: "es_inv home s2" and ne: "es_buckets s2 \<noteq> []" and l: "last (es_buckets s2) = (i, b)" using sp by simp_all
  note ev = evict_evicts[OF inv2 ne]
  show "es_inv home s'" using evicts_from_inv[OF ev] s' by simp
  show m: "es_max_instruments s' = es_max_instruments s" using evicts_from_eqs[OF ev] sp s' by simp
  show "last (es_buckets s') = (i, b)" using evicts_from_eqs[OF ev] l s' by simp
  have mru: "mru s2 = i" using l by simp
  show "map_of (es_buckets s') i = Some b"
    using evicts_from_keeps[OF ev, of i b] sp mru s' by simp
  show "length (es_buckets s') \<le> es_max_instruments s' \<or> (\<forall>(j, c) \<in> set (es_buckets s'). bk_pinned c \<or> j = i)"
    using evict_bound[OF inv2 ne] mru m sp s' by simp
  show "\<exists>c'. map_of (es_buckets s') j = Some c' \<and> keeps_bucket c c'"
    if c: "map_of (es_buckets s) j = Some c" "bk_pinned c \<or> j = i"
  proof (cases "j = i")
    case True
    then show ?thesis using c sp \<open>map_of (es_buckets s') i = Some b\<close> by simp
  next
    case False
    then have "map_of (es_buckets s2) j = Some c" using c sp by simp
    then have "map_of (es_buckets s') j = Some c"
      using evicts_from_keeps[OF ev, of j c] c(2) False s' by blast
    then show ?thesis by simp
  qed
qed

text \<open>A load that raises leaves the state of an access without durable events, but for the counter and the eviction.\<close>

lemma failed_load_fetch:
  assumes "\<not> bk_loaded (fst (touch i s))"
  shows "failed_load i s = (snd (fetch_bucket loader key_of False i s))\<lparr>es_loads := es_loads s + 1\<rparr>"
  using assms by (simp add: failed_load_def fetch_bucket_def Let_def split_beta)

lemma failed_load_spec:
  assumes "\<not> bk_loaded (fst (touch i s))" and inv: "es_inv home s"
  shows "es_inv home (failed_load i s)"
    and "map_of (es_buckets s) j = Some c \<Longrightarrow> \<exists>c'. map_of (es_buckets (failed_load i s)) j = Some c' \<and> keeps_bucket c c'"
    and "\<exists>c'. map_of (es_buckets (failed_load i s)) i = Some c' \<and> bk_loaded c' \<and> bk_events c' = bk_events (fst (touch i s))"
proof -
  let ?f = "fetch_bucket (\<lambda>_. []) undefined False i s"
  have ld: "loader_ok home (\<lambda>_. [])" by (simp add: loader_ok_def)
  note sp = fetch_bucket_spec[OF prod.collapse[symmetric, of ?f] inv ld]
  have eq: "failed_load i s = (snd ?f)\<lparr>es_loads := es_loads s + 1\<rparr>" by (rule failed_load_fetch[OF assms(1)])
  show "es_inv home (failed_load i s)" using sp unfolding eq by (simp add: es_inv_def)
  show "\<exists>c'. map_of (es_buckets (failed_load i s)) j = Some c' \<and> keeps_bucket c c'" if "map_of (es_buckets s) j = Some c"
    using sp that unfolding eq by (cases "j = i") simp_all
  show "\<exists>c'. map_of (es_buckets (failed_load i s)) i = Some c' \<and> bk_loaded c' \<and> bk_events c' = bk_events (fst (touch i s))"
    by (simp add: failed_load_def split_beta)
qed

text \<open>The failure is remembered as a load: the durable events of the instrument are never asked for again while its
  bucket stays.\<close>

lemma failed_load_hides_events:
  assumes "map_of (es_buckets s) i = None"
  shows "fst (for_instrument loader key_of True i (failed_load i s)) = []"
proof -
  have "fst (touch i s) = new_bucket" using assms by (simp add: touch_def Let_def)
  then have "map_of (es_buckets (failed_load i s)) i = Some (new_bucket\<lparr>bk_loaded := True\<rparr>)"
    by (simp add: failed_load_def split_beta)
  then show ?thesis
    by (simp add: for_instrument_def es_bucket_def fetch_bucket_def touch_def Let_def new_bucket_def)
qed

section \<open>Runs of the store\<close>

datatype es_op =
    Access uid
  | AddEvent event bool
  | SetItem uid event
  | DelItem uid
  | FailedLoad uid

text \<open>
  Each operation may find persistence durable or not; the stored events have the instrument their
  identifier belongs to.  \<open>FailedLoad\<close> is an access or an addition whose loader raises.
\<close>

fun es_op_ok :: "(uid \<Rightarrow> uid) \<Rightarrow> es_op \<Rightarrow> bool" where
  "es_op_ok home (Access i) = True"
| "es_op_ok home (AddEvent e durable) = (home (ev_id e) = ev_instrument e)"
| "es_op_ok home (SetItem x e) = (home x = ev_instrument e)"
| "es_op_ok home (DelItem x) = True"
| "es_op_ok home (FailedLoad i) = True"

fun es_apply :: "(uid \<Rightarrow> event list) \<Rightarrow> (event \<Rightarrow> 'k) \<Rightarrow> bool \<Rightarrow> es_op \<Rightarrow> 'k event_store \<Rightarrow> 'k event_store" where
  "es_apply loader key_of sd (Access i) s = snd (es_bucket loader key_of sd i s)"
| "es_apply loader key_of sd (AddEvent e durable) s = snd (es_add loader key_of sd e durable s)"
| "es_apply loader key_of sd (SetItem x e) s = es_setitem key_of x e s"
| "es_apply loader key_of sd (DelItem x) s = (case es_delitem key_of x s of None \<Rightarrow> s | Some s' \<Rightarrow> s')"
| "es_apply loader key_of sd (FailedLoad i) s = (if bk_loaded (fst (touch i s)) then s else failed_load i s)"

inductive es_run :: "(uid \<Rightarrow> uid) \<Rightarrow> (event \<Rightarrow> 'k) \<Rightarrow> 'k event_store \<Rightarrow> es_op list \<Rightarrow> 'k event_store \<Rightarrow> bool"
  for home key_of where
  es_run_nil: "es_run home key_of s [] s"
| es_run_cons: "es_op_ok home op \<Longrightarrow> loader_ok home loader \<Longrightarrow>
    es_run home key_of (es_apply loader key_of sd op s) ops s' \<Longrightarrow> es_run home key_of s (op # ops) s'"

lemma es_inv_dset:
  assumes inv: "es_inv home s" and ok: "bucket_ok home i b"
    and idx: "distinct (dkeys idx)"
      "\<And>x. map_of idx x = (if x \<in> set (dkeys (bk_events b)) then Some i else map_of (es_instrument_of s) x)"
    and old: "\<And>b0. map_of (es_buckets s) i = Some b0 \<Longrightarrow> set (dkeys (bk_events b0)) \<subseteq> set (dkeys (bk_events b))"
  shows "es_inv home (s\<lparr>es_buckets := dset i b (es_buckets s), es_instrument_of := idx\<rparr>)"
  by (rule es_inv_put[OF inv _ _ ok idx old]) (use inv in \<open>simp_all add: es_inv_def distinct_dset\<close>)

text \<open>Writing one event into a bucket, as \<open>add\<close> and \<open>__setitem__\<close> do.\<close>

lemma es_inv_write:
  assumes inv: "es_inv home s" and x: "home x = i" and ev: "bk_events b = dset x e (bk_events b0)"
    and b0: "map_of (es_buckets s) i = Some b0 \<or> map_of (es_buckets s) i = None \<and> bk_events b0 = []"
  shows "es_inv home (s\<lparr>es_buckets := dset i b (es_buckets s), es_instrument_of := dset x i (es_instrument_of s)\<rparr>)"
proof (rule es_inv_dset[OF inv])
  have keys: "set (dkeys (bk_events b)) = insert x (set (dkeys (bk_events b0)))"
    by (simp add: ev dom_update)
  have ok0: "bucket_ok home i b0"
    using b0 inv by (auto simp: es_inv_def bucket_ok_def dest: map_of_SomeD)
  show "bucket_ok home i b"
    using ok0 x keys by (auto simp: bucket_ok_def ev intro: distinct_dset)
  show "distinct (dkeys (dset x i (es_instrument_of s)))"
    using inv by (auto simp: es_inv_def intro: distinct_dset)
  show "set (dkeys (bk_events c)) \<subseteq> set (dkeys (bk_events b))" if "map_of (es_buckets s) i = Some c" for c
    using that b0 keys by auto
  show "map_of (dset x i (es_instrument_of s)) y =
      (if y \<in> set (dkeys (bk_events b)) then Some i else map_of (es_instrument_of s) y)" for y
  proof -
    have "map_of (es_instrument_of s) y = Some i" if "y \<in> set (dkeys (bk_events b0))"
      using inv b0 that by (auto simp: es_inv_def)
    then show ?thesis using keys by auto
  qed
qed

lemma es_inv_delete:
  assumes inv: "es_inv home s" and d: "es_delitem key_of x s = Some s'"
  shows "es_inv home s'"
proof -
  obtain i b e where i: "map_of (es_instrument_of s) x = Some i" and b: "map_of (es_buckets s) i = Some b"
    and s': "s' = s\<lparr>es_instrument_of := ddel x (es_instrument_of s),
      es_buckets := dset i (b\<lparr>bk_events := ddel x (bk_events b), bk_keys := bk_keys b - {key_of e}\<rparr>) (es_buckets s)\<rparr>"
    using d by (auto simp: es_delitem_def split: option.splits)
  let ?b = "b\<lparr>bk_events := ddel x (bk_events b), bk_keys := bk_keys b - {key_of e}\<rparr>"
  have home: "home y = j" if "map_of (es_buckets s) j = Some c" "y \<in> set (dkeys (bk_events c))" for y j c
    using inv map_of_SomeD[OF that(1)] that(2) by (fastforce simp: es_inv_def bucket_ok_def)
  have x: "x \<in> set (dkeys (bk_events b))" using inv i b by (auto simp: es_inv_def)
  have keys: "set (dkeys (bk_events ?b)) = set (dkeys (bk_events b)) - {x}"
    by (auto simp: AList.delete_eq)
  have "bucket_ok home i b" using inv map_of_SomeD[OF b] by (auto simp: es_inv_def)
  then have okb: "bucket_ok home i ?b" using keys by (auto simp: bucket_ok_def intro: distinct_ddel)
  have buckets: "\<forall>(j, c) \<in> set (dset i ?b (es_buckets s)). bucket_ok home j c"
  proof clarify
    fix j c assume "(j, c) \<in> set (dset i ?b (es_buckets s))"
    moreover have "distinct (dkeys (dset i ?b (es_buckets s)))"
      using inv by (auto simp: es_inv_def intro: distinct_dset)
    ultimately have "map_of (dset i ?b (es_buckets s)) j = Some c" by (simp only: map_of_is_SomeI)
    then consider "j = i" "c = ?b" | "j \<noteq> i" "map_of (es_buckets s) j = Some c"
      by (auto split: if_splits)
    then show "bucket_ok home j c" using okb inv by cases (auto simp: es_inv_def dest: map_of_SomeD)
  qed
  have "map_of (ddel x (es_instrument_of s)) y = Some j \<longleftrightarrow>
      (\<exists>c. map_of (dset i ?b (es_buckets s)) j = Some c \<and> y \<in> set (dkeys (bk_events c)))" for y j
  proof -
    have "map_of (es_instrument_of s) y = Some j \<longleftrightarrow>
        (\<exists>c. map_of (es_buckets s) j = Some c \<and> y \<in> set (dkeys (bk_events c)))"
      using inv by (simp add: es_inv_def)
    moreover have "y \<noteq> x" if "j \<noteq> i" "map_of (es_buckets s) j = Some c" "y \<in> set (dkeys (bk_events c))" for c
      using home[OF that(2,3)] home[OF b x] that(1) by metis
    ultimately show ?thesis using b keys by (cases "j = i") auto
  qed
  then show ?thesis
    using inv buckets by (simp add: s' es_inv_def distinct_dset distinct_ddel)
qed

lemma es_add_cases:
  assumes "es_add loader key_of sd e durable s = (r, s')"
  obtains b s1 where "es_bucket loader key_of sd (ev_instrument e) s = (b, s1)"
    "r \<longleftrightarrow> key_of e \<notin> bk_keys b"
    "\<not> r \<Longrightarrow> s' = s1"
    "r \<Longrightarrow> s' = s1\<lparr>es_buckets := dset (ev_instrument e)
        (b\<lparr>bk_keys := insert (key_of e) (bk_keys b), bk_events := dset (ev_id e) e (bk_events b),
           bk_pinned := (bk_pinned b \<or> \<not> durable)\<rparr>) (es_buckets s1),
      es_instrument_of := dset (ev_id e) (ev_instrument e) (es_instrument_of s1),
      es_applied := es_applied s1 + 1\<rparr>"
  using assms that unfolding es_add_def by (auto split: prod.splits if_splits)

lemma es_inv_applied: "es_inv home (s\<lparr>es_applied := n\<rparr>) = es_inv home s"
  by (simp add: es_inv_def)

lemma es_apply_inv:
  assumes inv: "es_inv home s" and "es_op_ok home op" and ld: "loader_ok home loader"
  shows "es_inv home (es_apply loader key_of sd op s)"
proof (cases op)
  case (Access i)
  then show ?thesis using es_bucket_spec(1)[OF _ inv ld, of key_of sd i] by (cases "es_bucket loader key_of sd i s") simp
next
  case (AddEvent e durable)
  obtain r s' where a: "es_add loader key_of sd e durable s = (r, s')" by fastforce
  then show ?thesis
  proof (rule es_add_cases)
    fix b s1
    assume k: "es_bucket loader key_of sd (ev_instrument e) s = (b, s1)" and no: "\<not> r \<Longrightarrow> s' = s1"
      and yes: "r \<Longrightarrow> s' = s1\<lparr>es_buckets := dset (ev_instrument e)
        (b\<lparr>bk_keys := insert (key_of e) (bk_keys b), bk_events := dset (ev_id e) e (bk_events b),
           bk_pinned := (bk_pinned b \<or> \<not> durable)\<rparr>) (es_buckets s1),
      es_instrument_of := dset (ev_id e) (ev_instrument e) (es_instrument_of s1),
      es_applied := es_applied s1 + 1\<rparr>"
    have "es_inv home s'"
    proof (cases r)
      case True
      have "es_inv home (s1\<lparr>es_buckets := dset (ev_instrument e)
          (b\<lparr>bk_keys := insert (key_of e) (bk_keys b), bk_events := dset (ev_id e) e (bk_events b),
             bk_pinned := (bk_pinned b \<or> \<not> durable)\<rparr>) (es_buckets s1),
          es_instrument_of := dset (ev_id e) (ev_instrument e) (es_instrument_of s1)\<rparr>)"
        by (rule es_inv_write[OF es_bucket_spec(1)[OF k inv ld]])
          (use assms(2) AddEvent es_bucket_spec(4)[OF k inv ld] in auto)
      then show ?thesis using yes[OF True] by (simp add: es_inv_def)
    qed (use no es_bucket_spec(1)[OF k inv ld] in simp)
    then show ?thesis using AddEvent a by simp
  qed
next
  case (SetItem x e)
  show ?thesis
    unfolding SetItem es_apply.simps es_setitem_def Let_def
    by (rule es_inv_write[OF inv, where ?b0.0 = "case map_of (es_buckets s) (ev_instrument e) of Some b \<Rightarrow> b | None \<Rightarrow> new_bucket" and e = e])
      (use assms(2) SetItem in \<open>auto simp: new_bucket_def split: option.split\<close>)
next
  case (DelItem x)
  then show ?thesis using inv es_inv_delete[OF inv] by (auto split: option.split)
next
  case (FailedLoad i)
  then show ?thesis using inv failed_load_spec(1)[OF _ inv] by simp
qed

lemma es_run_inv: "es_run home key_of s ops s' \<Longrightarrow> es_inv home s \<Longrightarrow> es_inv home s'"
  by (induction rule: es_run.induct) (auto intro: es_apply_inv)

section \<open>Properties\<close>

definition holds_pinned :: "uid \<Rightarrow> event \<Rightarrow> uid \<Rightarrow> 'k event_store \<Rightarrow> bool" where
  "holds_pinned x e i s \<longleftrightarrow> (\<exists>b. map_of (es_buckets s) i = Some b \<and> bk_pinned b \<and> map_of (bk_events b) x = Some e)"

fun names_event :: "uid \<Rightarrow> es_op \<Rightarrow> bool" where
  "names_event x (AddEvent e d) = (ev_id e = x)"
| "names_event x (SetItem y e) = (y = x)"
| "names_event x (DelItem y) = (y = x)"
| "names_event x (Access i) = False"
| "names_event x (FailedLoad i) = False"

lemma holds_after_bucket:
  assumes "holds_pinned x e i s" and "es_bucket loader key_of sd j s = (b, s')" and "es_inv home s" and "loader_ok home loader"
  shows "holds_pinned x e i s' \<and> (j = i \<longrightarrow> bk_pinned b \<and> map_of (bk_events b) x = Some e)"
proof -
  obtain c where c: "map_of (es_buckets s) i = Some c" "bk_pinned c" "map_of (bk_events c) x = Some e"
    using assms(1) by (auto simp: holds_pinned_def)
  obtain c' where c': "map_of (es_buckets s') i = Some c'" "keeps_bucket c c'"
    using es_bucket_spec(6)[OF assms(2-4) c(1)] c(2) by blast
  then have "bk_pinned c'" "map_of (bk_events c') x = Some e" using c by (auto simp: keeps_bucket_def)
  then show ?thesis using c' es_bucket_spec(4)[OF assms(2-4)] by (auto simp: holds_pinned_def)
qed

lemma holds_pinned_step:
  assumes h: "holds_pinned x e i s" and inv: "es_inv home s" and ld: "loader_ok home loader" and op: "\<not> names_event x op"
  shows "holds_pinned x e i (es_apply loader key_of sd op s)"
proof (cases op)
  case (Access j)
  then show ?thesis
    using holds_after_bucket[OF h _ inv ld, of key_of sd j] by (cases "es_bucket loader key_of sd j s") simp
next
  case (AddEvent e1 durable)
  obtain r s' where a: "es_add loader key_of sd e1 durable s = (r, s')" by fastforce
  then have "holds_pinned x e i s'"
  proof (rule es_add_cases)
    fix b s1
    assume k: "es_bucket loader key_of sd (ev_instrument e1) s = (b, s1)" and no: "\<not> r \<Longrightarrow> s' = s1"
      and yes: "r \<Longrightarrow> s' = s1\<lparr>es_buckets := dset (ev_instrument e1)
        (b\<lparr>bk_keys := insert (key_of e1) (bk_keys b), bk_events := dset (ev_id e1) e1 (bk_events b),
           bk_pinned := (bk_pinned b \<or> \<not> durable)\<rparr>) (es_buckets s1),
      es_instrument_of := dset (ev_id e1) (ev_instrument e1) (es_instrument_of s1),
      es_applied := es_applied s1 + 1\<rparr>"
    note hb = holds_after_bucket[OF h k inv ld]
    show ?thesis
    proof (cases r)
      case True
      then show ?thesis using hb yes[OF True] op AddEvent by (auto simp: holds_pinned_def)
    qed (use hb no in simp)
  qed
  then show ?thesis using AddEvent a by simp
next
  case (SetItem y e1)
  then show ?thesis using h op by (auto simp: es_setitem_def holds_pinned_def Let_def)
next
  case (DelItem y)
  then show ?thesis using h op by (auto simp: es_delitem_def holds_pinned_def split: option.split)
next
  case (FailedLoad j)
  show ?thesis
  proof (cases "bk_loaded (fst (touch j s))")
    case False
    then show ?thesis
      using h failed_load_spec(2)[OF False inv, of i] unfolding FailedLoad by (auto simp: holds_pinned_def keeps_bucket_def)
  qed (use h FailedLoad in simp)
qed

lemma holds_pinned_run:
  "es_run home key_of s ops s' \<Longrightarrow> es_inv home s \<Longrightarrow> holds_pinned x e i s \<Longrightarrow>
   \<forall>op \<in> set ops. \<not> names_event x op \<Longrightarrow> holds_pinned x e i s'"
  by (induction rule: es_run.induct) (auto intro: es_apply_inv holds_pinned_step)

lemma holds_pinned_getitem: "es_inv home s \<Longrightarrow> holds_pinned x e i s \<Longrightarrow> es_getitem x s = Some e"
proof -
  assume inv: "es_inv home s" and "holds_pinned x e i s"
  then obtain b where b: "map_of (es_buckets s) i = Some b" "map_of (bk_events b) x = Some e"
    by (auto simp: holds_pinned_def)
  then have "x \<in> set (dkeys (bk_events b))" by (metis map_of_SomeD fst_conv image_eqI list.set_map)
  then have "map_of (es_instrument_of s) x = Some i" using inv b(1) unfolding es_inv_def by blast
  then show ?thesis using b by (simp add: es_getitem_def)
qed

text \<open>C25: the resident set stays bounded: in any run of a store, loads that raise included, after every access that returns the number of
  resident instruments is within the limit unless every other resident instrument is pinned, and the
  accessed instrument is resident, loaded last and never its own victim.\<close>

theorem eviction_keeps_bound:
  assumes "es_run home key_of (new_event_store n) ops s" and "loader_ok home loader"
    and "es_bucket loader key_of sd i s = (b, s')"
  shows "(length (es_buckets s') \<le> es_max_instruments s' \<or> (\<forall>(j, c) \<in> set (es_buckets s'). bk_pinned c \<or> j = i)) \<and>
         last (es_buckets s') = (i, b) \<and> map_of (es_buckets s') i = Some b"
  using es_bucket_spec[OF assms(3) es_run_inv[OF assms(1) es_inv_new] assms(2)] by blast

text \<open>an event that is not durable is never lost: once it is registered without durability (or
  written directly), it stays readable with its content through any run of accesses, additions and
  evictions, until an operation names the event itself.\<close>

theorem nondurable_event_is_kept:
  assumes "es_run home key_of (new_event_store n) ops s" and "loader_ok home loader" and "home (ev_id e) = ev_instrument e"
    and "es_add loader key_of sd e False s = (True, s1) \<or> es_setitem key_of (ev_id e) e s = s1"
    and "es_run home key_of s1 ops' s2" and "\<forall>op \<in> set ops'. \<not> names_event (ev_id e) op"
  shows "es_getitem (ev_id e) s2 = Some e"
proof -
  note inv = es_run_inv[OF assms(1) es_inv_new]
  have inv1: "es_inv home s1"
    using assms(4) es_apply_inv[OF inv _ assms(2), of "AddEvent e False" key_of sd]
      es_apply_inv[OF inv _ assms(2), of "SetItem (ev_id e) e" key_of sd] assms(3) by auto
  have "holds_pinned (ev_id e) e (ev_instrument e) s1"
    using assms(4)
  proof
    assume "es_add loader key_of sd e False s = (True, s1)"
    then show ?thesis by (rule es_add_cases) (auto simp: holds_pinned_def)
  qed (auto simp: es_setitem_def holds_pinned_def Let_def)
  then show ?thesis
    using holds_pinned_getitem es_run_inv[OF assms(5) inv1] holds_pinned_run[OF assms(5) inv1] assms(6) by blast
qed

definition demo_event :: event where
  "demo_event = \<lparr>ev_id = ''e1'', ev_instrument = ''a'', ev_content = ''x''\<rparr>"

definition demo_accessed :: "string event_store" where
  "demo_accessed = snd (es_bucket (\<lambda>_. []) ev_content True ''b'' (new_event_store 1))"

lemma demo_loader: "loader_ok home (\<lambda>_. [])"
  by (simp add: loader_ok_def)

theorem eviction_keeps_bound_witness:
  "map_of (es_buckets (snd (es_bucket (\<lambda>_. []) ev_content True ''a'' demo_accessed))) ''a''
     = Some (fst (es_bucket (\<lambda>_. []) ev_content True ''a'' demo_accessed))"
proof -
  have "es_run (\<lambda>_. ''a'') ev_content (new_event_store 1) [Access ''b''] demo_accessed"
    unfolding demo_accessed_def by (rule es_run_cons[OF _ demo_loader, where sd = True]) (simp_all add: es_run_nil)
  from eviction_keeps_bound[OF this demo_loader surjective_pairing] show ?thesis by blast
qed

theorem nondurable_event_is_kept_witness:
  "es_getitem ''e1'' (es_apply (\<lambda>_. []) ev_content True (Access ''b'')
     (es_setitem ev_content ''e1'' demo_event (new_event_store 1))) = Some demo_event"
proof -
  let ?s = "es_setitem ev_content ''e1'' demo_event (new_event_store 1)"
  have 1: "es_run (\<lambda>_. ''a'') ev_content ?s [Access ''b''] (es_apply (\<lambda>_. []) ev_content True (Access ''b'') ?s)"
    by (rule es_run_cons[OF _ demo_loader, where sd = True]) (simp_all add: es_run_nil)
  have 2: "es_add (\<lambda>_. []) ev_content True demo_event False (new_event_store 1) = (True, ?s) \<or>
      es_setitem ev_content (ev_id demo_event) demo_event (new_event_store 1) = ?s"
    by (simp add: demo_event_def)
  have 3: "(\<lambda>_. ''a'') (ev_id demo_event) = ev_instrument demo_event" by (simp add: demo_event_def)
  have "es_getitem (ev_id demo_event) (es_apply (\<lambda>_. []) ev_content True (Access ''b'') ?s) = Some demo_event"
    by (rule nondurable_event_is_kept[OF es_run_nil demo_loader 3 2 1]) simp
  then show ?thesis by (simp add: demo_event_def)
qed

end
