(* ===== verification/Evidence.thy ===== *)
theory Evidence
  imports PyStr
begin

text \<open>
  Document identity (\<open>app/deduplication.py\<close>) and the precedence of financial facts
  (\<open>app/fact_precedence.py\<close>).
\<close>

section \<open>Document deduplication\<close>

record doc_identity =
  document_id :: string
  canonical_url :: string
  content_hash :: string

record deduplicator =
  by_url :: "(string \<times> doc_identity) list"
  by_hash :: "(string \<times> doc_identity) list"

definition new_deduplicator :: deduplicator where
  "new_deduplicator = \<lparr>by_url = [], by_hash = []\<rparr>"

text \<open>A document is identified by the three fields it shares with its identity.\<close>

definition find_duplicate :: "doc_identity \<Rightarrow> deduplicator \<Rightarrow> doc_identity option" where
  "find_duplicate doc s =
     (case map_of (by_url s) (canonical_url doc) of
        Some d \<Rightarrow> Some d
      | None \<Rightarrow> map_of (by_hash s) (content_hash doc))"

definition dedup_add :: "doc_identity \<Rightarrow> deduplicator \<Rightarrow> doc_identity option \<times> deduplicator" where
  "dedup_add doc s =
     (case find_duplicate doc s of
        Some d \<Rightarrow> (Some d, s)
      | None \<Rightarrow> (None, \<lparr>by_url = dset (canonical_url doc) doc (by_url s),
                        by_hash = dset (content_hash doc) doc (by_hash s)\<rparr>))"

definition setdefault :: "'k \<Rightarrow> 'v \<Rightarrow> ('k \<times> 'v) list \<Rightarrow> ('k \<times> 'v) list" where
  "setdefault k v d = (if k \<in> set (dkeys d) then d else dset k v d)"

definition dedup_add_identity :: "doc_identity \<Rightarrow> deduplicator \<Rightarrow> deduplicator" where
  "dedup_add_identity i s =
     \<lparr>by_url = (if canonical_url i \<noteq> [] then setdefault (canonical_url i) i (by_url s) else by_url s),
      by_hash = (if content_hash i \<noteq> [] then setdefault (content_hash i) i (by_hash s) else by_hash s)\<rparr>"

definition dedup_discard :: "string \<Rightarrow> deduplicator \<Rightarrow> deduplicator" where
  "dedup_discard did s =
     \<lparr>by_url = filter (\<lambda>(k, i). document_id i \<noteq> did) (by_url s),
      by_hash = filter (\<lambda>(k, i). document_id i \<noteq> did) (by_hash s)\<rparr>"

definition dedup_forget :: "string \<Rightarrow> string \<Rightarrow> string \<Rightarrow> deduplicator \<Rightarrow> deduplicator" where
  "dedup_forget url hash did s =
     \<lparr>by_url = (if map_option document_id (map_of (by_url s) url) = Some did then ddel url (by_url s) else by_url s),
      by_hash = (if map_option document_id (map_of (by_hash s) hash) = Some did then ddel hash (by_hash s) else by_hash s)\<rparr>"

definition dedup_len :: "deduplicator \<Rightarrow> nat" where
  "dedup_len s = length (by_url s)"

text \<open>Ingesting a sequence of documents: the accepted ones, and the final index.\<close>

fun ingest :: "doc_identity list \<Rightarrow> deduplicator \<Rightarrow> doc_identity list \<times> deduplicator" where
  "ingest [] s = ([], s)"
| "ingest (d # ds) s =
     (case dedup_add d s of
        (Some _, s') \<Rightarrow> ingest ds s'
      | (None, s') \<Rightarrow> (let (acc, s'') = ingest ds s' in (d # acc, s'')))"

text \<open>Entries are filed under their own URL and hash, one per key.\<close>

definition dedup_inv :: "deduplicator \<Rightarrow> bool" where
  "dedup_inv s \<longleftrightarrow> distinct (dkeys (by_url s)) \<and> distinct (dkeys (by_hash s)) \<and>
     (\<forall>(k, i) \<in> set (by_url s). canonical_url i = k) \<and> (\<forall>(k, i) \<in> set (by_hash s). content_hash i = k)"

lemma dedup_inv_new: "dedup_inv new_deduplicator"
  by (simp add: dedup_inv_def new_deduplicator_def)

lemma dset_new: "k \<notin> set (dkeys d) \<Longrightarrow> dset k v d = d @ [(k, v)]"
  by (induction d) auto

lemma dedup_inv_add: "dedup_inv s \<Longrightarrow> dedup_inv (snd (dedup_add d s))"
  using set_dset_subset[of "canonical_url d" d "by_url s"] set_dset_subset[of "content_hash d" d "by_hash s"]
  by (fastforce simp: dedup_inv_def dedup_add_def split: option.splits intro: distinct_dset)

lemma find_duplicate_None:
  "find_duplicate d s = None \<longleftrightarrow>
     canonical_url d \<notin> set (dkeys (by_url s)) \<and> content_hash d \<notin> set (dkeys (by_hash s))"
  by (auto simp: find_duplicate_def map_of_eq_None_iff split: option.splits)
     (metis domI dom_map_of_conv_image_fst option.distinct(1) image_eqI fst_conv map_of_SomeD)+

lemma ingest_fresh:
  assumes "d \<in> set (fst (ingest ds s))"
  shows "canonical_url d \<notin> set (dkeys (by_url s)) \<and> content_hash d \<notin> set (dkeys (by_hash s))"
  using assms
proof (induction ds arbitrary: s)
  case (Cons e ds)
  show ?case
  proof (cases "find_duplicate e s")
    case None
    then have add: "dedup_add e s = (None, \<lparr>by_url = dset (canonical_url e) e (by_url s),
        by_hash = dset (content_hash e) e (by_hash s)\<rparr>)"
      by (simp add: dedup_add_def)
    show ?thesis
    proof (cases "d = e")
      case True
      then show ?thesis using None find_duplicate_None by simp
    next
      case False
      then have "d \<in> set (fst (ingest ds (snd (dedup_add e s))))"
        using Cons.prems add by (auto split: prod.splits)
      from Cons.IH[OF this] show ?thesis using add by (simp add: dom_update)
    qed
  next
    case (Some x)
    then show ?thesis using Cons by (simp add: dedup_add_def)
  qed
qed simp

text \<open>whatever is ingested, no two accepted documents share a canonical URL or a content hash.\<close>

theorem accepted_documents_distinct:
  "distinct (map canonical_url (fst (ingest ds s))) \<and> distinct (map content_hash (fst (ingest ds s)))"
proof (induction ds arbitrary: s)
  case (Cons d ds)
  show ?case
  proof (cases "find_duplicate d s")
    case None
    then have add: "dedup_add d s = (None, \<lparr>by_url = dset (canonical_url d) d (by_url s),
        by_hash = dset (content_hash d) d (by_hash s)\<rparr>)"
      by (simp add: dedup_add_def)
    have "\<forall>e \<in> set (fst (ingest ds (snd (dedup_add d s)))).
        canonical_url e \<noteq> canonical_url d \<and> content_hash e \<noteq> content_hash d"
    proof
      fix e assume "e \<in> set (fst (ingest ds (snd (dedup_add d s))))"
      from ingest_fresh[OF this] show "canonical_url e \<noteq> canonical_url d \<and> content_hash e \<noteq> content_hash d"
        using add by (simp add: dom_update)
    qed
    moreover obtain acc s2 where acc: "ingest ds (snd (dedup_add d s)) = (acc, s2)" by fastforce
    ultimately have "canonical_url d \<notin> canonical_url ` set acc" "content_hash d \<notin> content_hash ` set acc"
      by auto
    moreover have "fst (ingest (d # ds) s) = d # acc" using acc add by simp
    moreover have "distinct (map canonical_url acc)" "distinct (map content_hash acc)"
      using Cons[of "snd (dedup_add d s)"] acc by simp_all
    ultimately show ?thesis by simp
  next
    case (Some x)
    then show ?thesis using Cons by (simp add: dedup_add_def)
  qed
qed simp

text \<open>a document whose persistence failed can be retried: after it was accepted and then discarded
  (by its id, or forgotten by its keys), it is not a duplicate of anything, and the index is back to
  what it was as long as its id was new.\<close>

theorem discarded_document_can_retry:
  assumes "dedup_add d s = (None, s1)"
  shows "find_duplicate d (dedup_discard (document_id d) s1) = None \<and>
    dedup_forget (canonical_url d) (content_hash d) (document_id d) s1 = s \<and>
    ((\<forall>(k, i) \<in> set (by_url s) \<union> set (by_hash s). document_id i \<noteq> document_id d) \<longrightarrow>
       dedup_discard (document_id d) s1 = s)"
proof -
  have None: "find_duplicate d s = None" and s1: "s1 = \<lparr>by_url = dset (canonical_url d) d (by_url s),
      by_hash = dset (content_hash d) d (by_hash s)\<rparr>"
    using assms by (auto simp: dedup_add_def split: option.splits)
  then have u: "canonical_url d \<notin> set (dkeys (by_url s))" and h: "content_hash d \<notin> set (dkeys (by_hash s))"
    using find_duplicate_None by blast+
  have eq: "by_url s1 = by_url s @ [(canonical_url d, d)]" "by_hash s1 = by_hash s @ [(content_hash d, d)]"
    using s1 dset_new[OF u] dset_new[OF h] by simp_all
  have del: "ddel k (xs @ [(k, v)]) = xs" if "k \<notin> set (dkeys xs)" for k v and xs :: "(string \<times> doc_identity) list"
    using that by (simp add: AList.delete_eq filter_id_conv image_iff split_beta)
  have look: "map_of (xs @ [(k, v)]) k = Some v" if "k \<notin> set (dkeys xs)" for k v and xs :: "(string \<times> doc_identity) list"
    using that by (simp add: map_add_def map_of_eq_None_iff split: option.split) (metis domI dom_map_of_conv_image_fst)
  have "find_duplicate d (dedup_discard (document_id d) s1) = None"
    unfolding find_duplicate_None dedup_discard_def using u h by (auto simp: eq image_iff)
  moreover have "dedup_forget (canonical_url d) (content_hash d) (document_id d) s1 = s"
    using look[OF u, of d] look[OF h, of d] del[OF u, of d] del[OF h, of d] by (simp add: dedup_forget_def eq)
  moreover have "dedup_discard (document_id d) s1 = s"
    if "\<forall>(k, i) \<in> set (by_url s) \<union> set (by_hash s). document_id i \<noteq> document_id d"
    using that by (simp add: dedup_discard_def eq filter_id_conv split_beta)
  ultimately show ?thesis by blast
qed

definition demo_doc :: doc_identity where
  "demo_doc = \<lparr>document_id = ''d1'', canonical_url = ''u'', content_hash = ''h''\<rparr>"

theorem discarded_document_can_retry_witness:
  "find_duplicate demo_doc (dedup_discard ''d1'' (snd (dedup_add demo_doc new_deduplicator))) = None"
proof -
  have "dedup_add demo_doc new_deduplicator = (None, snd (dedup_add demo_doc new_deduplicator))"
    by (simp add: dedup_add_def find_duplicate_def new_deduplicator_def)
  from discarded_document_can_retry[OF this] show ?thesis by (simp add: demo_doc_def)
qed

section \<open>Fact precedence\<close>

datatype fact_source_tier =
    USER_UPLOAD | SEARCH | YAHOO | OFFICIAL_NSE | STRUCTURED_FUNDAMENTALS | OFFICIAL_REGULATORY

definition SUPPORTED_FINANCIAL_SOURCE_TIERS :: "fact_source_tier set" where
  "SUPPORTED_FINANCIAL_SOURCE_TIERS = {YAHOO, STRUCTURED_FUNDAMENTALS, OFFICIAL_NSE, OFFICIAL_REGULATORY}"

fun fact_source_authority :: "fact_source_tier \<Rightarrow> nat" where
  "fact_source_authority USER_UPLOAD = 0"
| "fact_source_authority SEARCH = 1"
| "fact_source_authority YAHOO = 2"
| "fact_source_authority STRUCTURED_FUNDAMENTALS = 3"
| "fact_source_authority OFFICIAL_NSE = 4"
| "fact_source_authority OFFICIAL_REGULATORY = 5"

text \<open>The tiers are ordered by their authority, not by their stored numbers.\<close>

instantiation fact_source_tier :: linorder
begin

definition less_eq_fact_source_tier :: "fact_source_tier \<Rightarrow> fact_source_tier \<Rightarrow> bool" where
  "less_eq_fact_source_tier a b \<longleftrightarrow> fact_source_authority a \<le> fact_source_authority b"

definition less_fact_source_tier :: "fact_source_tier \<Rightarrow> fact_source_tier \<Rightarrow> bool" where
  "less_fact_source_tier a b \<longleftrightarrow> fact_source_authority a < fact_source_authority b"

instance
proof
  fix a b :: fact_source_tier
  show "a \<le> b \<Longrightarrow> b \<le> a \<Longrightarrow> a = b"
    by (cases a; cases b) (simp_all add: less_eq_fact_source_tier_def)
qed (auto simp: less_eq_fact_source_tier_def less_fact_source_tier_def)

end

record fact_key =
  fk_instrument :: string
  fk_metric :: string
  fk_period_end :: "string option"
  fk_period_type :: string
  fk_reporting_basis :: "string option"

text \<open>A datetime is its instant and whether it carries a time zone.\<close>

type_synonym datetime = "time \<times> bool"

record financial_fact =
  ff_key :: fact_key
  ff_value :: json
  ff_published_at :: "datetime option"
  ff_retrieved_at :: datetime
  ff_tier :: fact_source_tier
  ff_provider :: string
  ff_real :: bool

definition fact_missing :: "json \<Rightarrow> bool" where
  "fact_missing v = (case v of JNull \<Rightarrow> True | JStr s \<Rightarrow> strip s = [] | _ \<Rightarrow> False)"

datatype merge_error = DifferentIdentities

definition merge_fact ::
  "financial_fact option \<Rightarrow> financial_fact option \<Rightarrow> bool \<Rightarrow> merge_error + financial_fact option" where
  "merge_fact existing incoming allow_same_tier_correction =
     (case incoming of
        None \<Rightarrow> Inr existing
      | Some i \<Rightarrow>
          if fact_missing (ff_value i) then Inr existing
          else (case existing of
              None \<Rightarrow> Inr (Some i)
            | Some e \<Rightarrow>
                if fact_missing (ff_value e) then Inr (Some i)
                else if ff_key e \<noteq> ff_key i then Inl DifferentIdentities
                else if fact_source_authority (ff_tier e) < fact_source_authority (ff_tier i) then Inr (Some i)
                else if fact_source_authority (ff_tier i) < fact_source_authority (ff_tier e) then Inr (Some e)
                else if allow_same_tier_correction \<and> ff_tier i = OFFICIAL_NSE then Inr (Some i)
                else Inr (Some e)))"

definition newer_official_disclosure :: "financial_fact option \<Rightarrow> financial_fact \<Rightarrow> bool" where
  "newer_official_disclosure existing incoming =
     (case existing of
        None \<Rightarrow> False
      | Some e \<Rightarrow>
          ff_key e = ff_key incoming \<and>
          (\<forall>f \<in> set [e, incoming]. ff_tier f = OFFICIAL_NSE \<and> ff_provider f = ''NSE'' \<and> ff_real f) \<and>
          (case (ff_published_at e, ff_published_at incoming) of
             (Some (p, ptz), Some (r, rtz)) \<Rightarrow>
               ptz \<and> rtz \<and> snd (ff_retrieved_at incoming) \<and> p < r \<and> r \<le> fst (ff_retrieved_at incoming)
           | _ \<Rightarrow> False))"

text \<open>Merging a stream of facts into the stored one, without corrections.\<close>

fun merge_stream :: "financial_fact option \<Rightarrow> financial_fact list \<Rightarrow> merge_error + financial_fact option" where
  "merge_stream acc [] = Inr acc"
| "merge_stream acc (f # fs) =
     (case merge_fact acc (Some f) False of Inl e \<Rightarrow> Inl e | Inr acc' \<Rightarrow> merge_stream acc' fs)"

definition usable :: "financial_fact \<Rightarrow> bool" where
  "usable f \<longleftrightarrow> \<not> fact_missing (ff_value f)"

text \<open>The specification: the first usable fact of the highest authority.\<close>

fun best_fact :: "financial_fact option \<Rightarrow> financial_fact list \<Rightarrow> financial_fact option" where
  "best_fact acc [] = acc"
| "best_fact acc (f # fs) =
     (if \<not> usable f then best_fact acc fs
      else case acc of None \<Rightarrow> best_fact (Some f) fs
        | Some a \<Rightarrow> best_fact (Some (if \<not> usable a \<or> ff_tier a < ff_tier f then f else a)) fs)"

lemma best_fact_Cons: "best_fact acc (f # fs) = best_fact (best_fact acc [f]) fs"
  by (cases acc) simp_all

lemma merge_fact_best:
  assumes "\<And>a. acc = Some a \<Longrightarrow> ff_key a = ff_key f"
  shows "merge_fact acc (Some f) False = Inr (best_fact acc [f])"
  using assms by (cases acc) (simp_all add: merge_fact_def usable_def less_fact_source_tier_def)

lemma best_fact_key:
  assumes "\<And>a. acc = Some a \<Longrightarrow> ff_key a = k" and "ff_key f = k" and "best_fact acc [f] = Some b"
  shows "ff_key b = k"
  using assms by (cases acc) (auto split: if_splits)

lemma merge_stream_best:
  assumes "\<forall>f \<in> set fs. ff_key f = k" and "\<And>a. acc = Some a \<Longrightarrow> ff_key a = k"
  shows "merge_stream acc fs = Inr (best_fact acc fs)"
  using assms
proof (induction fs arbitrary: acc)
  case (Cons f fs)
  have f: "ff_key f = k" using Cons.prems(1) by simp
  have "merge_fact acc (Some f) False = Inr (best_fact acc [f])"
    by (rule merge_fact_best) (use Cons.prems(2) f in simp)
  moreover have "merge_stream (best_fact acc [f]) fs = Inr (best_fact (best_fact acc [f]) fs)"
  proof (rule Cons.IH)
    show "\<forall>f \<in> set fs. ff_key f = k" using Cons.prems(1) by simp
    show "ff_key a = k" if "best_fact acc [f] = Some a" for a
      by (rule best_fact_key[OF _ f that]) (rule Cons.prems(2))
  qed
  ultimately show ?case unfolding best_fact_Cons[of acc f fs] by simp
qed simp

lemma best_fact_spec:
  assumes "best_fact acc fs = Some b" and "usable b"
  shows "(Some b = acc \<or> b \<in> set fs) \<and>
    (\<forall>f \<in> set fs. usable f \<longrightarrow> ff_tier f \<le> ff_tier b) \<and>
    (\<forall>a. acc = Some a \<and> usable a \<longrightarrow> ff_tier a \<le> ff_tier b)"
  using assms
proof (induction fs arbitrary: acc)
  case (Cons f fs)
  show ?case
  proof (cases "usable f")
    case True
    show ?thesis
    proof (cases acc)
      case None
      then show ?thesis using Cons True by fastforce
    next
      case (Some a)
      then show ?thesis using Cons True by (fastforce split: if_splits)
    qed
  qed (use Cons in \<open>auto split: if_splits\<close>)
qed auto

lemma best_fact_usable:
  assumes "\<exists>f \<in> set fs. usable f"
  shows "\<exists>b. best_fact acc fs = Some b \<and> usable b"
proof -
  have keep: "\<exists>b. best_fact (Some a) gs = Some b \<and> usable b" if "usable a" for a gs
    using that by (induction gs arbitrary: a) auto
  show ?thesis using assms
  proof (induction fs arbitrary: acc)
    case (Cons f fs)
    then show ?case
    proof (cases "usable f")
      case True
      then show ?thesis using keep by (cases acc) auto
    next
      case False
      then show ?thesis using Cons by auto
    qed
  qed simp
qed

text \<open>C28: merging any stream of facts with one identity never fails and never lets a weaker source
  replace a stronger one: the result is one of the facts, usable whenever any of them is, and no usable
  fact of the stream has a higher authority, whatever the order of arrival.\<close>

theorem merged_fact_has_top_authority:
  assumes "\<forall>f \<in> set fs. ff_key f = k" and "\<exists>f \<in> set fs. usable f"
  shows "\<exists>b. merge_stream None fs = Inr (Some b) \<and> b \<in> set fs \<and> usable b \<and>
    (\<forall>f \<in> set fs. usable f \<longrightarrow> fact_source_authority (ff_tier f) \<le> fact_source_authority (ff_tier b))"
proof -
  obtain b where b: "best_fact None fs = Some b" "usable b"
    using best_fact_usable[OF assms(2)] by blast
  have "merge_stream None fs = Inr (Some b)"
    using merge_stream_best[of fs k None] assms(1) b(1) by simp
  moreover have "b \<in> set fs" and "\<forall>f \<in> set fs. usable f \<longrightarrow> ff_tier f \<le> ff_tier b"
    using best_fact_spec[OF b] by auto
  ultimately show ?thesis using b(2) by (auto simp: less_eq_fact_source_tier_def)
qed

text \<open>Manual evidence, then a provider's value, then an empty official one.\<close>

definition demo_fact :: "fact_source_tier \<Rightarrow> json \<Rightarrow> financial_fact" where
  "demo_fact tier v = \<lparr>ff_key = \<lparr>fk_instrument = ''i'', fk_metric = ''REVENUE'', fk_period_end = None,
     fk_period_type = ''ANNUAL'', fk_reporting_basis = None\<rparr>, ff_value = v, ff_published_at = None,
     ff_retrieved_at = (0, True), ff_tier = tier, ff_provider = ''P'', ff_real = True\<rparr>"

theorem merged_fact_has_top_authority_witness:
  "\<exists>b. merge_stream None [demo_fact USER_UPLOAD (JInt 5), demo_fact YAHOO (JInt 7), demo_fact OFFICIAL_NSE (JStr '' '')] =
     Inr (Some b) \<and> 2 \<le> fact_source_authority (ff_tier b)"
proof -
  let ?fs = "[demo_fact USER_UPLOAD (JInt 5), demo_fact YAHOO (JInt 7), demo_fact OFFICIAL_NSE (JStr '' '')]"
  have "\<forall>f \<in> set ?fs. ff_key f = ff_key (hd ?fs)" and "usable (demo_fact YAHOO (JInt 7))"
    by (simp_all add: demo_fact_def usable_def fact_missing_def)
  moreover from this have "\<exists>f \<in> set ?fs. usable f" by simp
  ultimately obtain b where b: "merge_stream None ?fs = Inr (Some b)"
    "\<forall>f \<in> set ?fs. usable f \<longrightarrow> fact_source_authority (ff_tier f) \<le> fact_source_authority (ff_tier b)"
    using merged_fact_has_top_authority by blast
  then have "fact_source_authority YAHOO \<le> fact_source_authority (ff_tier b)"
    using \<open>usable (demo_fact YAHOO (JInt 7))\<close> by (simp add: demo_fact_def)
  then show ?thesis using b(1) by auto
qed

end
