(* ===== verification/Sessions.thy ===== *)
theory Sessions
  imports PyStr PyNum
begin

text \<open>
  Trading calendars (\<open>app/market_sessions.py\<close>).  A date is its number of days and a time of day its
  microseconds; the time-zone database is an argument: \<open>local z t\<close> is the local date and time of day
  of an instant (\<open>None\<close> for a zone it does not know), \<open>utc z d tod\<close> the instant of a local time.
\<close>

section \<open>Calendar data\<close>

record schedule =
  sc_market_code :: string
  sc_mic :: "string option"
  sc_timezone :: string
  sc_trading_day :: int
  sc_open :: int
  sc_close :: int
  sc_enabled :: bool

record calendar_exception =
  ce_market_code :: string
  ce_date :: int
  ce_type :: string
  ce_open :: "int option"
  ce_close :: "int option"

type_synonym zone_local = "string \<Rightarrow> time \<Rightarrow> (int \<times> int) option"
type_synonym zone_utc = "string \<Rightarrow> int \<Rightarrow> int \<Rightarrow> time option"

text \<open>Day 0 is a Thursday; \<open>weekday()\<close> counts from Monday.\<close>

definition weekday :: "int \<Rightarrow> int" where
  "weekday d = (d + 3) mod 7"

definition day_us :: int where "day_us = 86400000000"

text \<open>\<open>t.date()\<close> of an instant held in UTC.\<close>

definition utc_date :: "time \<Rightarrow> int" where
  "utc_date t = t div day_us"

definition matches_market :: "string \<Rightarrow> schedule \<Rightarrow> bool" where
  "matches_market key s \<longleftrightarrow> sc_enabled s \<and>
     (upper (sc_market_code s) = key \<or> upper (case sc_mic s of None \<Rightarrow> [] | Some m \<Rightarrow> m) = key)"

definition find_exception :: "calendar_exception list \<Rightarrow> string \<Rightarrow> int \<Rightarrow> calendar_exception option" where
  "find_exception exceptions code day =
     find (\<lambda>e. upper (ce_market_code e) = upper code \<and> ce_date e = day) exceptions"

section \<open>Session state\<close>

definition day_schedule :: "schedule list \<Rightarrow> int \<Rightarrow> schedule option" where
  "day_schedule applicable day = find (\<lambda>s. sc_trading_day s = weekday day) applicable"

definition effective_hours :: "calendar_exception option \<Rightarrow> schedule option \<Rightarrow> int option \<times> int option" where
  "effective_hours exc sched =
     (let open0 = map_option sc_open sched;
          close0 = map_option sc_close sched
      in (case exc of None \<Rightarrow> open0
            | Some e \<Rightarrow> if ce_type e \<in> {''LATE_OPEN'', ''SPECIAL_SESSION''} then ce_open e else open0,
          case exc of None \<Rightarrow> close0
            | Some e \<Rightarrow> if ce_type e \<in> {''EARLY_CLOSE'', ''SPECIAL_SESSION''} then ce_close e else close0))"

definition market_session_status ::
  "zone_local \<Rightarrow> string option \<Rightarrow> schedule list \<Rightarrow> calendar_exception list \<Rightarrow> time \<Rightarrow> string" where
  "market_session_status local market schedules exceptions now =
     (let key = upper (case market of None \<Rightarrow> [] | Some m \<Rightarrow> m);
          applicable = filter (matches_market key) schedules
      in case applicable of
           [] \<Rightarrow> ''UNKNOWN''
         | first # _ \<Rightarrow>
             (case local (sc_timezone first) now of
                None \<Rightarrow> ''UNKNOWN''
              | Some (day, tod) \<Rightarrow>
                  (let exc = find_exception exceptions (sc_market_code first) day;
                       special = (case exc of None \<Rightarrow> False | Some e \<Rightarrow> ce_type e = ''SPECIAL_SESSION'');
                       sched = day_schedule applicable day
                   in if (case exc of None \<Rightarrow> False | Some e \<Rightarrow> ce_type e = ''CLOSED'') then ''HOLIDAY''
                      else if sched = None \<and> \<not> special then ''CLOSED''
                      else
                        (case effective_hours exc sched of
                           (Some o1, Some c1) \<Rightarrow> if o1 \<le> tod \<and> tod < c1 then ''OPEN'' else ''CLOSED''
                         | _ \<Rightarrow> ''UNKNOWN''))))"

text \<open>\<open>total_seconds()\<close> is a float.\<close>

definition total_seconds :: "int \<Rightarrow> rat" where
  "total_seconds us = fl64 (of_int us / 1000000)"

definition class_due :: "time option \<Rightarrow> int \<Rightarrow> time \<Rightarrow> bool" where
  "class_due last_at ttl_seconds now =
     (case last_at of None \<Rightarrow> True | Some t \<Rightarrow> of_int ttl_seconds \<le> total_seconds (now - t))"

definition price_sync_eligible :: "string \<Rightarrow> time option \<Rightarrow> int \<Rightarrow> time \<Rightarrow> bool" where
  "price_sync_eligible market_status last_price_at ttl_seconds now =
     (market_status = ''OPEN'' \<and> class_due last_price_at ttl_seconds now)"

section \<open>Session bounds\<close>

definition session_bounds ::
  "zone_utc \<Rightarrow> string \<Rightarrow> schedule list \<Rightarrow> calendar_exception list \<Rightarrow> int \<Rightarrow> (time \<times> time) option" where
  "session_bounds utc market schedules exceptions day =
     (case filter (matches_market (upper market)) schedules of
        [] \<Rightarrow> None
      | first # rest \<Rightarrow>
          (let exc = find_exception exceptions (sc_market_code first) day;
               special = (case exc of None \<Rightarrow> False | Some e \<Rightarrow> ce_type e = ''SPECIAL_SESSION'');
               sched = day_schedule (first # rest) day
           in if (case exc of None \<Rightarrow> False | Some e \<Rightarrow> ce_type e = ''CLOSED'') then None
              else if special \<and> (ce_open (the exc) = None \<or> ce_close (the exc) = None) then None
              else if sched = None \<and> \<not> special then None
              else
                (let opening = (case exc of
                       Some e \<Rightarrow> (case ce_open e of Some t \<Rightarrow> Some t | None \<Rightarrow> map_option sc_open sched)
                     | None \<Rightarrow> map_option sc_open sched);
                     closing = (case exc of
                       Some e \<Rightarrow> (case ce_close e of Some t \<Rightarrow> Some t | None \<Rightarrow> map_option sc_close sched)
                     | None \<Rightarrow> map_option sc_close sched)
                 in case (opening, closing) of
                      (Some o1, Some c1) \<Rightarrow>
                        (case (utc (sc_timezone first) day o1, utc (sc_timezone first) day c1) of
                           (Some a, Some b) \<Rightarrow> Some (a, b) | _ \<Rightarrow> None)
                    | _ \<Rightarrow> None)))"

text \<open>\<open>for x in xs: ... return\<close>: the first result.\<close>

fun first_some :: "('a \<Rightarrow> 'b option) \<Rightarrow> 'a list \<Rightarrow> 'b option" where
  "first_some f [] = None"
| "first_some f (x # xs) = (case f x of None \<Rightarrow> first_some f xs | Some y \<Rightarrow> Some y)"

definition latest_completed_session ::
  "zone_utc \<Rightarrow> string \<Rightarrow> schedule list \<Rightarrow> calendar_exception list \<Rightarrow> time \<Rightarrow> time option" where
  "latest_completed_session utc market schedules exceptions instant =
     first_some (\<lambda>offset. case session_bounds utc market schedules exceptions (utc_date instant - offset) of
         Some (_, c) \<Rightarrow> if c \<le> instant then Some c else None | None \<Rightarrow> None) [0..14]"

definition next_session_open ::
  "zone_utc \<Rightarrow> string \<Rightarrow> schedule list \<Rightarrow> calendar_exception list \<Rightarrow> time \<Rightarrow> time option" where
  "next_session_open utc market schedules exceptions after =
     first_some (\<lambda>offset. case session_bounds utc market schedules exceptions (utc_date after + offset) of
         Some (o1, _) \<Rightarrow> if after < o1 then Some o1 else None | None \<Rightarrow> None) [0..14]"

definition next_session_close ::
  "zone_utc \<Rightarrow> string \<Rightarrow> schedule list \<Rightarrow> calendar_exception list \<Rightarrow> time \<Rightarrow> time option" where
  "next_session_close utc market schedules exceptions after =
     first_some (\<lambda>offset. case session_bounds utc market schedules exceptions (utc_date after + offset) of
         Some (_, c) \<Rightarrow> if after < c then Some c else None | None \<Rightarrow> None) [0..15]"

definition price_session_valid_until ::
  "zone_utc \<Rightarrow> string \<Rightarrow> schedule list \<Rightarrow> calendar_exception list \<Rightarrow> time \<Rightarrow> time option" where
  "price_session_valid_until utc market schedules exceptions observed =
     (case latest_completed_session utc market schedules exceptions (observed + 15 * 60 * 1000000) of
        None \<Rightarrow> None
      | Some session \<Rightarrow>
          if 15 * 60 < \<bar>total_seconds (session - observed)\<bar> then None
          else next_session_open utc market schedules exceptions session)"

function completed_sessions ::
  "zone_utc \<Rightarrow> string \<Rightarrow> schedule list \<Rightarrow> calendar_exception list \<Rightarrow> int \<Rightarrow> int \<Rightarrow> time \<Rightarrow> (int \<times> time) list" where
  "completed_sessions utc market schedules exceptions day stop as_of =
     (if day \<le> stop then
        (case session_bounds utc market schedules exceptions day of
           Some (_, c) \<Rightarrow> if c \<le> as_of then [(day, c)] else []
         | None \<Rightarrow> []) @ completed_sessions utc market schedules exceptions (day + 1) stop as_of
      else [])"
  by pat_completeness auto
termination by (relation "measure (\<lambda>(utc, m, s, e, day, stop, as_of). nat (stop + 1 - day))") auto

declare completed_sessions.simps [simp del]

definition unresolved_session_dates ::
  "zone_local \<Rightarrow> string \<Rightarrow> schedule list \<Rightarrow> calendar_exception list \<Rightarrow> int \<Rightarrow> time \<Rightarrow> int list" where
  "unresolved_session_dates local market schedules exceptions start as_of =
     (case filter (matches_market (upper market)) schedules of
        [] \<Rightarrow> []
      | first # _ \<Rightarrow>
          (case local (sc_timezone first) as_of of
             None \<Rightarrow> []
           | Some (stop, _) \<Rightarrow>
               sort (map ce_date (filter (\<lambda>e. upper (ce_market_code e) = upper (sc_market_code first) \<and>
                  ce_type e = ''SPECIAL_SESSION'' \<and> (ce_open e = None \<or> ce_close e = None) \<and>
                  start \<le> ce_date e \<and> ce_date e \<le> stop) exceptions))))"

section \<open>Properties\<close>

lemma first_some_SomeD: "first_some f xs = Some y \<Longrightarrow> \<exists>x \<in> set xs. f x = Some y"
  by (induction xs) (auto split: option.splits)

lemma first_some_upto:
  assumes "first_some f [i..j] = Some y"
  shows "\<exists>k. i \<le> k \<and> k \<le> j \<and> f k = Some y \<and> (\<forall>m. i \<le> m \<and> m < k \<longrightarrow> f m = None)"
  using assms
proof (induction i j rule: upto.induct)
  case (1 i j)
  have ij: "i \<le> j" using 1(2) by (cases "i \<le> j") auto
  show ?case
  proof (cases "f i")
    case None
    then have "first_some f [i + 1..j] = Some y" using 1(2) ij by (simp add: upto_rec1)
    from 1(1)[OF ij this] obtain k where k: "i + 1 \<le> k" "k \<le> j" "f k = Some y" "\<forall>m. i + 1 \<le> m \<and> m < k \<longrightarrow> f m = None"
      by blast
    have "f m = None" if "i \<le> m" "m < k" for m
      using None k(4) that by (cases "m = i") auto
    then show ?thesis using k by (intro exI[of _ k]) simp
  next
    case (Some z)
    then show ?thesis using 1(2) ij by (intro exI[of _ i]) (auto simp: upto_rec1)
  qed
qed

lemma completed_sessions_listed:
  "set (completed_sessions utc market schedules exceptions start stop as_of) =
     {(d, c). start \<le> d \<and> d \<le> stop \<and> (\<exists>o1. session_bounds utc market schedules exceptions d = Some (o1, c)) \<and> c \<le> as_of} \<and>
   sorted_wrt (\<lambda>x y. fst x < fst y) (completed_sessions utc market schedules exceptions start stop as_of)"
proof (induction utc market schedules exceptions start stop as_of rule: completed_sessions.induct)
  case (1 utc market schedules exceptions day stop as_of)
  let ?rest = "completed_sessions utc market schedules exceptions (day + 1) stop as_of"
  let ?b = "session_bounds utc market schedules exceptions"
  show ?case
  proof (cases "day \<le> stop")
    case True
    note ih = 1[OF True]
    have split: "start' \<le> d \<longleftrightarrow> d = start' \<or> start' + 1 \<le> d" for start' d :: int by auto
    have later: "\<forall>x \<in> set ?rest. day < fst x" using ih by auto
    show ?thesis
    proof (cases "?b day")
      case None
      then have "completed_sessions utc market schedules exceptions day stop as_of = ?rest"
        using True by (simp add: completed_sessions.simps[of utc market schedules exceptions day])
      moreover have "{(d, c). day + 1 \<le> d \<and> d \<le> stop \<and> (\<exists>o1. ?b d = Some (o1, c)) \<and> c \<le> as_of} =
          {(d, c). day \<le> d \<and> d \<le> stop \<and> (\<exists>o1. ?b d = Some (o1, c)) \<and> c \<le> as_of}"
        using None by (auto simp: split[of day])
      ultimately show ?thesis using ih by simp
    next
      case (Some p)
      obtain o1 c where p: "p = (o1, c)" by fastforce
      have eq: "completed_sessions utc market schedules exceptions day stop as_of =
          (if c \<le> as_of then [(day, c)] else []) @ ?rest"
        using True Some p by (simp add: completed_sessions.simps[of utc market schedules exceptions day])
      have "{(d, c). day \<le> d \<and> d \<le> stop \<and> (\<exists>o1. ?b d = Some (o1, c)) \<and> c \<le> as_of} =
          (if c \<le> as_of then {(day, c)} else {}) \<union>
          {(d, c). day + 1 \<le> d \<and> d \<le> stop \<and> (\<exists>o1. ?b d = Some (o1, c)) \<and> c \<le> as_of}"
        using Some p True by (auto simp: split[of day])
      then show ?thesis using eq ih later by simp
    qed
  next
    case False
    then have "completed_sessions utc market schedules exceptions day stop as_of = []"
      by (simp add: completed_sessions.simps[of utc market schedules exceptions day])
    then show ?thesis using False by auto
  qed
qed

text \<open>the calendar lists exactly the completed sessions: a day is listed, with its closing
  instant, when it is in the range, the configuration gives it a session and that session has closed;
  days come in ascending order without repetition.\<close>

theorem completed_sessions_exact:
  "set (completed_sessions utc market schedules exceptions start stop as_of) =
     {(d, c). start \<le> d \<and> d \<le> stop \<and> (\<exists>o1. session_bounds utc market schedules exceptions d = Some (o1, c)) \<and> c \<le> as_of} \<and>
   sorted_wrt (\<lambda>x y. fst x < fst y) (completed_sessions utc market schedules exceptions start stop as_of)"
  by (rule completed_sessions_listed)

text \<open>when openings come in the order of their days, a genuine close stays valid up to the next
  session: the observation is within fifteen minutes of a completed session close, and the validity is
  the earliest opening after that close on any later day, however long the holiday in between (up to
  the look-ahead).\<close>

theorem price_valid_until_next_open:
  assumes "price_session_valid_until utc market schedules exceptions observed = Some v"
    and "\<forall>d d' o1 c1 o2 c2. session_bounds utc market schedules exceptions d = Some (o1, c1) \<longrightarrow>
      session_bounds utc market schedules exceptions d' = Some (o2, c2) \<longrightarrow> d < d' \<longrightarrow> o1 \<le> o2"
  shows "\<exists>close day o1. session_bounds utc market schedules exceptions day = Some (o1, close) \<and>
    close \<le> observed + 15 * 60 * 1000000 \<and> \<bar>total_seconds (close - observed)\<bar> \<le> 15 * 60 \<and> close < v \<and>
    (\<forall>d o2 c2. utc_date close \<le> d \<and> session_bounds utc market schedules exceptions d = Some (o2, c2) \<and> close < o2 \<longrightarrow> v \<le> o2)"
proof -
  let ?b = "session_bounds utc market schedules exceptions"
  obtain close where c: "latest_completed_session utc market schedules exceptions (observed + 15 * 60 * 1000000) = Some close"
      "\<not> 15 * 60 < \<bar>total_seconds (close - observed)\<bar>" "next_session_open utc market schedules exceptions close = Some v"
    using assms(1) by (auto simp: price_session_valid_until_def split: option.splits if_splits)
  obtain day o1 where d: "?b day = Some (o1, close)" "close \<le> observed + 15 * 60 * 1000000"
    using first_some_SomeD[OF c(1)[unfolded latest_completed_session_def]]
    by (auto split: option.splits if_splits)
  let ?f = "\<lambda>offset. case ?b (utc_date close + offset) of
         Some (o1, _) \<Rightarrow> if close < o1 then Some o1 else None | None \<Rightarrow> None"
  obtain k where k: "?f k = Some v" "\<And>m. 0 \<le> m \<Longrightarrow> m < k \<Longrightarrow> ?f m = None"
    using first_some_upto[OF c(3)[unfolded next_session_open_def]] by blast
  then obtain cv where v: "?b (utc_date close + k) = Some (v, cv)" "close < v"
    by (auto split: option.splits if_splits)
  have "v \<le> o2" if "utc_date close \<le> e" "?b e = Some (o2, c2)" "close < o2" for e o2 c2
  proof -
    define m where "m = e - utc_date close"
    have m: "0 \<le> m" "e = utc_date close + m" using that(1) by (simp_all add: m_def)
    have "?f m = Some o2" using that m(2) by simp
    then have "\<not> m < k" using k(2)[OF m(1)] by (metis option.distinct(1))
    then consider "m = k" | "k < m" by linarith
    then show ?thesis
    proof cases
      case 1
      then show ?thesis using v(1) that(2) m(2) by simp
    next
      case 2
      then show ?thesis using assms(2)[rule_format, OF v(1) that(2)] m(2) by simp
    qed
  qed
  then show ?thesis using c(2) d v(2) by (intro exI[of _ close] exI[of _ day] exI[of _ o1]) auto
qed

text \<open>an open market is always backed by configuration: \<open>OPEN\<close> is reported only when an enabled
  schedule names the market, its zone is known, no closing exception covers the local day, and the local
  time of day lies inside the hours that the day's schedule and exception give together.\<close>

theorem open_session_is_configured:
  assumes "market_session_status local market schedules exceptions now = ''OPEN''"
  shows "\<exists>first rest day tod o1 c1.
    filter (matches_market (upper (case market of None \<Rightarrow> [] | Some m \<Rightarrow> m))) schedules = first # rest \<and>
    local (sc_timezone first) now = Some (day, tod) \<and>
    effective_hours (find_exception exceptions (sc_market_code first) day) (day_schedule (first # rest) day) = (Some o1, Some c1) \<and>
    o1 \<le> tod \<and> tod < c1 \<and>
    (\<forall>e. find_exception exceptions (sc_market_code first) day = Some e \<longrightarrow> ce_type e \<noteq> ''CLOSED'') \<and>
    (day_schedule (first # rest) day = None \<longrightarrow>
     (\<exists>e. find_exception exceptions (sc_market_code first) day = Some e \<and> ce_type e = ''SPECIAL_SESSION''))"
proof -
  let ?key = "upper (case market of None \<Rightarrow> [] | Some m \<Rightarrow> m)"
  obtain first rest where f: "filter (matches_market ?key) schedules = first # rest"
    using assms by (cases "filter (matches_market ?key) schedules") (simp_all add: market_session_status_def)
  obtain day tod where l: "local (sc_timezone first) now = Some (day, tod)"
    using assms f by (cases "local (sc_timezone first) now") (auto simp: market_session_status_def)
  define exc where "exc = find_exception exceptions (sc_market_code first) day"
  define sched where "sched = day_schedule (first # rest) day"
  note st = assms[unfolded market_session_status_def Let_def f list.case l option.case prod.case, folded exc_def sched_def]
  have nc: "\<forall>e. exc = Some e \<longrightarrow> ce_type e \<noteq> ''CLOSED''"
    using st by (auto split: if_splits)
  have backed: "sched = None \<longrightarrow> (\<exists>e. exc = Some e \<and> ce_type e = ''SPECIAL_SESSION'')"
    using st by (auto split: if_splits option.splits)
  obtain o1 c1 where "effective_hours exc sched = (Some o1, Some c1)" "o1 \<le> tod" "tod < c1"
    using st by (cases "effective_hours exc sched") (auto split: if_splits option.splits)
  then show ?thesis
    by (intro exI[of _ first] exI[of _ rest] exI[of _ day] exI[of _ tod] exI[of _ o1] exI[of _ c1] conjI)
      (use f l nc backed in \<open>simp_all add: exc_def sched_def\<close>)
qed

text \<open>A request without a market matches every enabled schedule that has no MIC.\<close>

lemma missing_market_can_be_open:
  "market_session_status (\<lambda>_ _. Some (0, 40000000000)) None
     [\<lparr>sc_market_code = ''NSE'', sc_mic = None, sc_timezone = ''Asia/Kolkata'', sc_trading_day = 3,
       sc_open = 33300000000, sc_close = 55800000000, sc_enabled = True\<rparr>] [] 0 = ''OPEN''"
  by code_simp

text \<open>Witnesses: a Thursday and Friday calendar at a fixed offset.\<close>

definition demo_utc :: zone_utc where
  "demo_utc z d tod = Some (d * day_us + tod - 19800000000)"

definition demo_local :: zone_local where
  "demo_local z t = Some ((t + 19800000000) div day_us, (t + 19800000000) mod day_us)"

definition demo_schedules :: "schedule list" where
  "demo_schedules = map (\<lambda>wd. \<lparr>sc_market_code = ''NSE'', sc_mic = Some ''XNSE'', sc_timezone = ''Asia/Kolkata'',
     sc_trading_day = wd, sc_open = 33300000000, sc_close = 55800000000, sc_enabled = True\<rparr>) [3, 4]"

lemma demo_bounds:
  assumes "session_bounds demo_utc ''nse'' demo_schedules [] d = Some (o1, c1)"
  shows "o1 = d * day_us + 13500000000"
  using assms
  by (auto simp: session_bounds_def demo_schedules_def matches_market_def upper_def upper_char_def demo_utc_def
      find_exception_def day_schedule_def split: if_splits option.splits)

theorem price_valid_until_next_open_witness:
  "\<exists>close. close < 86400000000 + 13500000000 \<and> \<bar>total_seconds (close - 36000000000)\<bar> \<le> 900"
proof -
  have pv: "price_session_valid_until demo_utc ''nse'' demo_schedules [] 36000000000 = Some (86400000000 + 13500000000)"
    by code_simp
  have mono: "\<forall>d d' o1 c1 o2 c2. session_bounds demo_utc ''nse'' demo_schedules [] d = Some (o1, c1) \<longrightarrow>
      session_bounds demo_utc ''nse'' demo_schedules [] d' = Some (o2, c2) \<longrightarrow> d < d' \<longrightarrow> o1 \<le> o2"
    by (auto dest!: demo_bounds simp: day_us_def)
  obtain close where "close < 86400000000 + 13500000000" "\<bar>total_seconds (close - 36000000000)\<bar> \<le> 15 * 60"
    using price_valid_until_next_open[OF pv mono] by blast
  then show ?thesis by (intro exI[of _ close]) simp
qed

theorem open_session_is_configured_witness:
  "\<exists>first rest. filter (matches_market (upper ''nse'')) demo_schedules = first # rest"
proof -
  have "market_session_status demo_local (Some ''nse'') demo_schedules [] 20000000000 = ''OPEN''"
    by code_simp
  from open_session_is_configured[OF this, unfolded option.case] show ?thesis
    by (elim exE conjE) (intro exI)
qed

end
