(* ===== verification/PyFloat.thy ===== *)
theory PyFloat
  imports PyNum
begin

text \<open>
  \<open>sum\<close> of a list of floats as CPython 3.12 (the version of the deployment image) computes it:
  Neumaier's compensated summation, with a bound on its error; and piecewise-linear interpolation
  over floats.
\<close>

section \<open>Compensated summation\<close>

fun neumaier :: "rat \<Rightarrow> rat \<Rightarrow> rat list \<Rightarrow> rat" where
  "neumaier s c [] = (if c \<noteq> 0 then fl64 (s + c) else s)"
| "neumaier s c (x # xs) =
     (let t = fl64 (s + x);
          e = (if \<bar>x\<bar> \<le> \<bar>s\<bar> then fl64 (fl64 (s - t) + x) else fl64 (fl64 (x - t) + s))
      in neumaier t (fl64 (c + e)) xs)"

fun py_sum :: "rat list \<Rightarrow> rat" where
  "py_sum [] = 0"
| "py_sum (x # xs) = neumaier x 0 xs"

lemma fl64_error:
  assumes y: "\<bar>y\<bar> \<le> M" and M: "1 \<le> M"
  shows "\<bar>fl64 y - y\<bar> \<le> M / 2 ^ 53"
proof (cases "y = 0")
  case True
  then show ?thesis using M by simp
next
  case False
  have M0: "0 < M" using M by simp
  have "bexp 2 \<bar>y\<bar> \<le> bexp 2 M" using bexp_mono[of 2 "\<bar>y\<bar>" M] y False by simp
  moreover have "- 1 < bexp 2 M"
  proof -
    have "(2::rat) powi 0 < 2 powi (bexp 2 M + 1)" using bexp_bounds[of 2 M] M0 M by simp
    then show ?thesis using power_int_less_iff[of "2::rat" 0 "bexp 2 M + 1"] by simp
  qed
  ultimately have g: "grid_exp 2 53 (- 1074) y \<le> bexp 2 M - 52" by (simp add: grid_exp_def)
  have "\<bar>fl64 y - y\<bar> \<le> 2 powi (grid_exp 2 53 (- 1074) y) / 2"
    using rnd_sig_error[of 2 53 "- 1074" y] by (simp add: fl64_def)
  also have "\<dots> \<le> 2 powi (bexp 2 M - 52) / 2"
    using g by (simp add: power_int_increasing)
  also have "(2::rat) powi (bexp 2 M - 52) = 2 powi (bexp 2 M) / 2 ^ 52"
    by (simp add: power_int_diff)
  also have "2 powi (bexp 2 M) / 2 ^ 52 / 2 \<le> M / 2 ^ 53"
    using bexp_bounds[of 2 M] M0 by simp
  finally show ?thesis .
qed

text \<open>
  \<open>unit\<close> is the error of one operation on values up to \<open>4 * M\<close>; after \<open>k\<close> steps the running sum is off
  by at most \<open>k\<close> units and the compensation is at most \<open>6 * k\<close> units.
\<close>

lemma neumaier_step:
  assumes M: "1 \<le> M" and s: "\<bar>s\<bar> \<le> 2 * M" and x: "\<bar>x\<bar> \<le> M" and c: "\<bar>c\<bar> \<le> M" and u: "u = 4 * M / 2 ^ 53"
    and t: "t = fl64 (s + x)"
    and e: "e = (if \<bar>x\<bar> \<le> \<bar>s\<bar> then fl64 (fl64 (s - t) + x) else fl64 (fl64 (x - t) + s))"
  shows "\<bar>t - (s + x)\<bar> \<le> u" and "\<bar>fl64 (c + e) - c\<bar> \<le> 4 * u"
proof -
  have M4: "1 \<le> 4 * M" and u0: "0 \<le> u" and uM: "4 * u \<le> M" using M u by simp_all
  have err: "\<bar>fl64 y - y\<bar> \<le> u" if "\<bar>y\<bar> \<le> 4 * M" for y
    using fl64_error[OF that M4] by (simp add: u)
  show t1: "\<bar>t - (s + x)\<bar> \<le> u" unfolding t by (rule err) (use s x M in linarith)
  have half: "\<bar>fl64 (fl64 (a - t) + b)\<bar> \<le> 3 * u" if ab: "a + b = s + x" "\<bar>b\<bar> \<le> 2 * M" for a b
  proof -
    have 1: "\<bar>fl64 (a - t) - (a - t)\<bar> \<le> u"
      by (rule err) (use t1 ab uM u0 in linarith)
    have 2: "\<bar>fl64 (a - t) + b\<bar> \<le> 2 * u" using 1 t1 ab(1) by linarith
    have "\<bar>fl64 (fl64 (a - t) + b) - (fl64 (a - t) + b)\<bar> \<le> u"
      by (rule err) (use 2 uM u0 M in linarith)
    then show ?thesis using 2 by linarith
  qed
  have "\<bar>e\<bar> \<le> 3 * u"
    unfolding e using half[of s x] half[of x s] s x M by auto
  moreover have "\<bar>fl64 (c + e) - (c + e)\<bar> \<le> u"
    by (rule err) (use calculation c uM u0 in linarith)
  ultimately show "\<bar>fl64 (c + e) - c\<bar> \<le> 4 * u" by linarith
qed

lemma neumaier_error:
  assumes M: "1 \<le> M" and u: "u = 4 * M / 2 ^ 53" and k: "real k + real (length xs) \<le> 2 ^ 40"
    and S: "\<bar>S\<bar> + sum_list (map abs xs) \<le> M"
    and s: "\<bar>s - S\<bar> \<le> of_nat k * u" and c: "\<bar>c\<bar> \<le> 4 * of_nat k * u"
  shows "\<bar>neumaier s c xs - (S + sum_list xs)\<bar> \<le> (5 * of_nat (k + length xs) + 1) * u"
  using k S s c
proof (induction xs arbitrary: s c S k)
  case Nil
  have M0: "0 \<le> u" using M u by simp
  have big: "4 * (2 ^ 40 * u) \<le> M" using M u by simp
  have "real k \<le> 2 ^ 40" using Nil by simp
  then have "k \<le> 2 ^ 40" by (metis of_nat_le_iff of_nat_numeral of_nat_power)
  then have "rat_of_nat k \<le> 2 ^ 40" by (metis of_nat_le_iff of_nat_numeral of_nat_power)
  then have ku: "of_nat k * u \<le> 2 ^ 40 * u" using M0 by (rule mult_right_mono)
  have "\<bar>s + c\<bar> \<le> 4 * M" using Nil(2-4) ku big M M0 by (simp add: abs_le_iff; linarith)
  then have "\<bar>fl64 (s + c) - (s + c)\<bar> \<le> u" using fl64_error[of "s + c" "4 * M"] M by (simp add: u)
  then have f: "\<bar>fl64 (s + c) - S\<bar> \<le> 5 * (of_nat k * u) + u" using Nil(3,4) by linarith
  have g: "\<bar>s - S\<bar> \<le> 5 * (of_nat k * u) + u" using Nil(3) M0 by simp
  have e: "(5 * of_nat (k + length []) + 1) * u = 5 * (of_nat k * u) + u" by (simp add: algebra_simps)
  show ?case unfolding e using f g by simp
next
  case (Cons x xs)
  have M0: "0 \<le> u" using M u by simp
  have big: "4 * (2 ^ 40 * u) \<le> M" using M u by simp
  have "real k \<le> 2 ^ 40" using Cons.prems(1) by simp
  then have "k \<le> 2 ^ 40" by (metis of_nat_le_iff of_nat_numeral of_nat_power)
  then have "rat_of_nat k \<le> 2 ^ 40" by (metis of_nat_le_iff of_nat_numeral of_nat_power)
  then have ku: "of_nat k * u \<le> 2 ^ 40 * u" using M0 by (rule mult_right_mono)
  have x: "0 \<le> sum_list (map abs xs)" by (rule sum_list_nonneg) auto
  have S': "\<bar>S + x\<bar> + sum_list (map abs xs) \<le> M"
    using Cons.prems(2) abs_triangle_ineq[of S x] by simp
  define t where "t = fl64 (s + x)"
  define e where "e = (if \<bar>x\<bar> \<le> \<bar>s\<bar> then fl64 (fl64 (s - t) + x) else fl64 (fl64 (x - t) + s))"
  have "4 * of_nat k * u = 4 * (of_nat k * u)" by simp
  then have "\<bar>c\<bar> \<le> M" using Cons.prems(4) ku big by linarith
  moreover have "\<bar>x\<bar> \<le> M" using Cons.prems(2) x abs_ge_zero[of S] by (simp; linarith)
  moreover have "\<bar>s\<bar> \<le> 2 * M"
    using Cons.prems(2,3) ku big x abs_ge_zero[of x] by (simp add: abs_le_iff; linarith)
  ultimately have "\<bar>s\<bar> \<le> 2 * M" and "\<bar>x\<bar> \<le> M" and "\<bar>c\<bar> \<le> M" by blast+
  note st = neumaier_step[OF M this u t_def e_def]
  have ks: "of_nat (Suc k) * u = of_nat k * u + u" by (simp add: algebra_simps)
  have "\<bar>t - (S + x)\<bar> \<le> of_nat (Suc k) * u" using st(1) Cons.prems(3) unfolding ks by linarith
  moreover have "\<bar>fl64 (c + e)\<bar> \<le> 4 * of_nat (Suc k) * u"
    using st(2) Cons.prems(4) by (simp add: algebra_simps abs_le_iff; linarith)
  ultimately have "\<bar>neumaier t (fl64 (c + e)) xs - (S + x + sum_list xs)\<bar> \<le> (5 * of_nat (Suc k + length xs) + 1) * u"
    using Cons.IH[of "Suc k" "S + x" t "fl64 (c + e)"] Cons.prems(1) S' by simp
  moreover have "neumaier s c (x # xs) = neumaier t (fl64 (c + e)) xs"
    by (simp add: t_def e_def Let_def)
  ultimately show ?case by (simp add: add.assoc)
qed

lemma py_sum_error_length:
  assumes "1 \<le> M" and "sum_list (map abs xs) \<le> M" and "length xs \<le> 2 ^ 40"
  shows "\<bar>py_sum xs - sum_list xs\<bar> \<le> (5 * of_nat (length xs) + 1) * (4 * M / 2 ^ 53)"
proof (cases xs)
  case (Cons y ys)
  have "real (length ys) \<le> 2 ^ 40"
  proof -
    have "length ys \<le> 2 ^ 40" using assms(3) Cons by simp
    then show ?thesis by (metis of_nat_le_iff of_nat_numeral of_nat_power)
  qed
  then have "\<bar>neumaier y 0 ys - (y + sum_list ys)\<bar> \<le> (5 * of_nat (0 + length ys) + 1) * (4 * M / 2 ^ 53)"
    by (intro neumaier_error[OF assms(1) refl]) (use assms Cons in auto)
  also have "\<dots> \<le> (5 * of_nat (length xs) + 1) * (4 * M / 2 ^ 53)"
    by (rule mult_right_mono) (use assms(1) Cons in simp_all)
  finally show ?thesis using Cons by simp
qed (use assms(1) in simp)

lemma py_sum_error:
  assumes "1 \<le> M" and "sum_list (map abs xs) \<le> M" and "length xs \<le> 100"
  shows "\<bar>py_sum xs - sum_list xs\<bar> \<le> M / 2 ^ 40"
proof -
  have "\<bar>py_sum xs - sum_list xs\<bar> \<le> (5 * of_nat (length xs) + 1) * (4 * M / 2 ^ 53)"
    using assms by (intro py_sum_error_length) simp_all
  also have "\<dots> \<le> 501 * (4 * M / 2 ^ 53)"
  proof (rule mult_right_mono)
    have "rat_of_nat (length xs) \<le> 100" using assms(3) by (metis of_nat_le_iff of_nat_numeral)
    then show "5 * rat_of_nat (length xs) + 1 \<le> 501" by simp
  qed (use assms(1) in simp)
  also have "\<dots> \<le> M / 2 ^ 40" using assms(1) by simp
  finally show ?thesis .
qed

section \<open>Square roots\<close>

text \<open>Integer square root, and the correctly rounded root of a rational to \<open>p\<close> digits of base \<open>b\<close>.\<close>

fun isqrt :: "nat \<Rightarrow> nat" where
  "isqrt n = (if n = 0 then 0 else let r = 2 * isqrt (n div 4) in if (r + 1) ^ 2 \<le> n then r + 1 else r)"

declare isqrt.simps [simp del]

lemma isqrt_bounds: "(isqrt n) ^ 2 \<le> n \<and> n < (isqrt n + 1) ^ 2"
proof (induction n rule: isqrt.induct)
  case (1 n)
  show ?case
  proof (cases "n = 0")
    case True
    then show ?thesis by (simp add: isqrt.simps)
  next
    case False
    define q where "q = isqrt (n div 4)"
    have ih: "q ^ 2 \<le> n div 4" "n div 4 < (q + 1) ^ 2" using 1 False by (simp_all add: q_def)
    then have "n div 4 + 1 \<le> (q + 1) ^ 2" by simp
    then have "4 * q ^ 2 \<le> n" "n < 4 * (q + 1) ^ 2" using ih(1) by linarith+
    then have "(2 * q) ^ 2 \<le> n" "n < (2 * q + 2) ^ 2" by (simp_all add: power2_eq_square algebra_simps)
    moreover have "isqrt n = (if (2 * q + 1) ^ 2 \<le> n then 2 * q + 1 else 2 * q)"
      using False by (subst isqrt.simps) (simp add: q_def Let_def)
    ultimately show ?thesis by (simp add: power2_eq_square algebra_simps)
  qed
qed

definition rnd_sqrt :: "nat \<Rightarrow> nat \<Rightarrow> rat \<Rightarrow> rat" where
  "rnd_sqrt b p q =
     (if q \<le> 0 then 0
      else let s = of_nat b powi (bexp b q div 2 - int p + 1);
               m = isqrt (nat \<lfloor>q / (s * s)\<rfloor>);
               h = (of_nat (2 * m + 1)) ^ 2 * (s * s)
           in (if 4 * q < h \<or> (4 * q = h \<and> even m) then of_nat m else of_nat (m + 1)) * s)"

text \<open>\<open>math.sqrt\<close> of an exact fraction (as \<open>statistics\<close> rounds it) and \<open>Decimal.sqrt\<close>.\<close>

definition fl_sqrt :: "rat \<Rightarrow> rat" where "fl_sqrt = rnd_sqrt 2 53"
definition dec_sqrt :: "rat \<Rightarrow> rat" where "dec_sqrt = rnd_sqrt 10 28"

text \<open>\<open>statistics.pstdev\<close> of floats: the exact population variance, then one correctly rounded root.\<close>

definition pvariance :: "rat list \<Rightarrow> rat" where
  "pvariance xs = (let n = of_nat (length xs); mu = sum_list xs / n in sum_list (map (\<lambda>x. (x - mu) ^ 2) xs) / n)"

definition pstdev :: "rat list \<Rightarrow> rat" where
  "pstdev xs = fl_sqrt (pvariance xs)"

lemma rnd_sqrt_nonneg: "0 < b \<Longrightarrow> 0 \<le> rnd_sqrt b p q"
  by (simp add: rnd_sqrt_def Let_def zero_less_power_int)

section \<open>Piecewise-linear interpolation\<close>

text \<open>The points are sorted ascending by input; every operation is a float operation.\<close>

fun interpolate :: "rat \<Rightarrow> (rat \<times> rat) list \<Rightarrow> rat" where
  "interpolate v ((x0, y0) # (x1, y1) # ps) =
     (if x0 \<le> v \<and> v \<le> x1 then
        (if x1 = x0 then y0
         else fl64 (y0 + fl64 (fl64 (fl64 (y1 - y0) * fl64 (v - x0)) / fl64 (x1 - x0))))
      else interpolate v ((x1, y1) # ps))"
| "interpolate v [(x, y)] = y"
| "interpolate v [] = 0"

definition piecewise :: "rat \<Rightarrow> (rat \<times> rat) list \<Rightarrow> rat" where
  "piecewise v ps =
     (if v \<le> fst (hd ps) then snd (hd ps)
      else if fst (last ps) \<le> v then snd (last ps)
      else interpolate v ps)"

text \<open>
  A table is well formed when its inputs ascend and each segment's differences and products are
  exact floats, so that the ends of a segment are reached exactly.
\<close>

fun table_ok :: "(rat \<times> rat) list \<Rightarrow> bool" where
  "table_ok ((x0, y0) # (x1, y1) # ps) \<longleftrightarrow>
     x0 < x1 \<and> fl64 y0 = y0 \<and> fl64 y1 = y1 \<and> fl64 (y1 - y0) = y1 - y0 \<and> fl64 (x1 - x0) = x1 - x0 \<and>
     fl64 ((y1 - y0) * (x1 - x0)) = (y1 - y0) * (x1 - x0) \<and> table_ok ((x1, y1) # ps)"
| "table_ok [(x, y)] \<longleftrightarrow> fl64 y = y"
| "table_ok [] \<longleftrightarrow> False"

definition segment :: "rat \<Rightarrow> rat \<Rightarrow> rat \<Rightarrow> rat \<Rightarrow> rat \<Rightarrow> rat" where
  "segment x0 y0 x1 y1 v = fl64 (y0 + fl64 (fl64 (fl64 (y1 - y0) * fl64 (v - x0)) / fl64 (x1 - x0)))"

lemma fl64_mono: "x \<le> y \<Longrightarrow> fl64 x \<le> fl64 y"
  by (rule binary64.rnd_mono)

lemma segment_up:
  assumes "x0 < x1" "y0 \<le> y1" "fl64 (y1 - y0) = y1 - y0" "fl64 (x1 - x0) = x1 - x0" "v \<le> w"
  shows "segment x0 y0 x1 y1 v \<le> segment x0 y0 x1 y1 w"
  unfolding segment_def assms(3,4) using assms
  by (intro fl64_mono add_left_mono divide_right_mono mult_left_mono diff_right_mono) simp_all

lemma segment_down:
  assumes "x0 < x1" "y1 \<le> y0" "fl64 (y1 - y0) = y1 - y0" "fl64 (x1 - x0) = x1 - x0" "v \<le> w"
  shows "segment x0 y0 x1 y1 w \<le> segment x0 y0 x1 y1 v"
  unfolding segment_def assms(3,4) using assms
  by (intro fl64_mono add_left_mono divide_right_mono mult_left_mono_neg diff_right_mono) simp_all

lemma segment_ends:
  assumes "x0 < x1" "fl64 y0 = y0" "fl64 y1 = y1" "fl64 (y1 - y0) = y1 - y0" "fl64 (x1 - x0) = x1 - x0"
    "fl64 ((y1 - y0) * (x1 - x0)) = (y1 - y0) * (x1 - x0)"
  shows "segment x0 y0 x1 y1 x0 = y0" and "segment x0 y0 x1 y1 x1 = y1"
  using assms by (simp_all add: segment_def)

text \<open>The same function by one left-to-right scan.\<close>

fun scan :: "rat \<Rightarrow> (rat \<times> rat) list \<Rightarrow> rat" where
  "scan v ((x0, y0) # (x1, y1) # ps) =
     (if v \<le> x0 then y0 else if v \<le> x1 then segment x0 y0 x1 y1 v else scan v ((x1, y1) # ps))"
| "scan v [(x, y)] = y"
| "scan v [] = 0"

lemma table_ok_last: "table_ok ((x, y) # ps) \<Longrightarrow> x \<le> fst (last ((x, y) # ps))"
proof (induction ps arbitrary: x y)
  case (Cons p ps)
  then show ?case by (cases p) fastforce
qed simp

lemma interpolate_scan:
  assumes "table_ok ((x, y) # ps)" and "x \<le> v" and "v < fst (last ((x, y) # ps))"
  shows "interpolate v ((x, y) # ps) = scan v ((x, y) # ps)"
  using assms
proof (induction ps arbitrary: x y)
  case (Cons p ps)
  obtain x1 y1 where p: "p = (x1, y1)" by fastforce
  have ends: "segment x y x1 y1 x = y" using Cons.prems(1) segment_ends p by simp
  show ?case
  proof (cases "v \<le> x1")
    case True
    then show ?thesis using Cons.prems ends p by (auto simp: segment_def)
  next
    case False
    then show ?thesis using Cons.IH[of x1 y1] Cons.prems p by simp
  qed
qed simp

lemma scan_last:
  assumes "table_ok ((x, y) # ps)" and "fst (last ((x, y) # ps)) \<le> v"
  shows "scan v ((x, y) # ps) = snd (last ((x, y) # ps))"
  using assms
proof (induction ps arbitrary: x y)
  case (Cons p ps)
  obtain x1 y1 where p: "p = (x1, y1)" by fastforce
  have ok: "table_ok ((x1, y1) # ps)" and lt: "x < x1" using Cons.prems(1) p by simp_all
  have "x1 \<le> v" using table_ok_last[OF ok] Cons.prems(2) p by simp
  show ?case
  proof (cases "v \<le> x1")
    case True
    then have v: "v = x1" using \<open>x1 \<le> v\<close> by simp
    have "ps = []"
    proof (rule ccontr)
      assume "ps \<noteq> []"
      then obtain q qs where q: "ps = q # qs" by (cases ps) auto
      then have "table_ok (q # qs)" "x1 < fst q" using ok by (cases q; simp)+
      then have "x1 < fst (last (q # qs))" using table_ok_last[of "fst q" "snd q" qs] by simp
      then show False using Cons.prems(2) p q v by simp
    qed
    then show ?thesis using Cons.prems(1) segment_ends(2)[of x x1 y y1] p v lt by simp
  next
    case False
    then show ?thesis using Cons.IH[OF ok] Cons.prems(2) p lt by simp
  qed
qed simp

lemma piecewise_scan:
  assumes "table_ok ps"
  shows "piecewise v ps = scan v ps"
proof -
  obtain x y qs where ps: "ps = (x, y) # qs" using assms by (cases ps rule: table_ok.cases) auto
  have "scan v ((x, y) # qs) = y" if "v \<le> x" using that by (cases qs) auto
  then show ?thesis
    using interpolate_scan[of x y qs v] scan_last[of x y qs v] assms unfolding ps piecewise_def by auto
qed

text \<open>Tables that only rise; a falling table is the mirror image of a rising one.\<close>

definition rising :: "(rat \<times> rat) list \<Rightarrow> bool" where "rising ps \<longleftrightarrow> sorted (map snd ps)"
definition falling :: "(rat \<times> rat) list \<Rightarrow> bool" where "falling ps \<longleftrightarrow> sorted (map (uminus \<circ> snd) ps)"

abbreviation mirror :: "(rat \<times> rat) list \<Rightarrow> (rat \<times> rat) list" where
  "mirror ps \<equiv> map (\<lambda>(x, y). (x, - y)) ps"

lemma fl64_minus: "fl64 (- x) = - fl64 x"
  by (simp add: fl64_def rnd_sig_minus)

lemma segment_mirror: "segment x0 (- y0) x1 (- y1) v = - segment x0 y0 x1 y1 v"
proof -
  have d: "fl64 (- y1 - - y0) = - fl64 (y1 - y0)"
    using fl64_minus[of "y1 - y0"] by simp
  have m: "fl64 (- a * b) = - fl64 (a * b)" and q: "fl64 (- a / b) = - fl64 (a / b)" for a b
    using fl64_minus[of "a * b"] fl64_minus[of "a / b"] by simp_all
  have a: "fl64 (- a + - b) = - fl64 (a + b)" for a b
    using fl64_minus[of "a + b"] by simp
  show ?thesis unfolding segment_def d m q a ..
qed

lemma scan_mirror: "scan v (mirror ps) = - scan v ps"
  by (induction v ps rule: scan.induct) (simp_all add: segment_mirror)

lemma table_ok_mirror: "table_ok ps \<Longrightarrow> table_ok (mirror ps)"
proof (induction ps rule: table_ok.induct)
  case (1 x0 y0 x1 y1 ps)
  have "- y1 - - y0 = - (y1 - y0)" "(- y1 - - y0) * (x1 - x0) = - ((y1 - y0) * (x1 - x0))"
    by (simp_all add: algebra_simps)
  then show ?case using 1 by (simp only: list.map prod.case table_ok.simps fl64_minus)
qed (simp_all add: fl64_minus)

lemma scan_rising:
  assumes "table_ok ((x, y) # ps)" and "rising ((x, y) # ps)"
  shows "y \<le> scan v ((x, y) # ps) \<and> scan v ((x, y) # ps) \<le> snd (last ((x, y) # ps)) \<and>
    (v \<le> w \<longrightarrow> scan v ((x, y) # ps) \<le> scan w ((x, y) # ps))"
  using assms
proof (induction ps arbitrary: x y)
  case (Cons p ps)
  obtain x1 y1 where p: "p = (x1, y1)" by fastforce
  have ok: "table_ok ((x1, y1) # ps)" and lt: "x < x1" and r: "rising ((x1, y1) # ps)" and y: "y \<le> y1"
    using Cons.prems p by (auto simp: rising_def)
  note ih = Cons.IH[OF ok r]
  have e: "segment x y x1 y1 x = y" "segment x y x1 y1 x1 = y1"
    using Cons.prems(1) segment_ends p by simp_all
  have up: "segment x y x1 y1 a \<le> segment x y x1 y1 b" if "a \<le> b" for a b
    using segment_up[of x x1 y y1 a b] Cons.prems(1) p y that by simp
  have inside: "y \<le> segment x y x1 y1 a \<and> segment x y x1 y1 a \<le> y1" if "x < a" "a \<le> x1" for a
    using up[of x a] up[of a x1] that e by simp
  have l: "y1 \<le> snd (last ((x1, y1) # ps))" using ih by linarith
  show ?case
    using inside[of v] inside[of w] up[of v w] ih lt y l p by auto
qed simp

text \<open>Bounds and monotonicity of a well-formed table.\<close>

lemma piecewise_rising:
  assumes "table_ok ps" and "rising ps"
  shows "snd (hd ps) \<le> piecewise v ps \<and> piecewise v ps \<le> snd (last ps)"
    and "v \<le> w \<Longrightarrow> piecewise v ps \<le> piecewise w ps"
proof -
  obtain x y qs where ps: "ps = (x, y) # qs" using assms(1) by (cases ps rule: table_ok.cases) auto
  note s = scan_rising[OF assms[unfolded ps]]
  show "snd (hd ps) \<le> piecewise v ps \<and> piecewise v ps \<le> snd (last ps)"
    unfolding piecewise_scan[OF assms(1)] using s[of v v] ps by simp
  show "v \<le> w \<Longrightarrow> piecewise v ps \<le> piecewise w ps"
    unfolding piecewise_scan[OF assms(1)] using s[of v w] ps by simp
qed

lemma piecewise_falling:
  assumes ok: "table_ok ps" and "falling ps"
  shows "snd (last ps) \<le> piecewise v ps \<and> piecewise v ps \<le> snd (hd ps)"
    and "v \<le> w \<Longrightarrow> piecewise w ps \<le> piecewise v ps"
proof -
  have m: "table_ok (mirror ps)" "rising (mirror ps)"
    using table_ok_mirror[OF ok] assms(2) by (simp_all add: rising_def falling_def comp_def split_beta)
  have e: "piecewise u (mirror ps) = - piecewise u ps" for u
    unfolding piecewise_scan[OF ok] piecewise_scan[OF m(1)] by (rule scan_mirror)
  have ne: "ps \<noteq> []" using ok by auto
  then have h: "snd (hd (mirror ps)) = - snd (hd ps)" "snd (last (mirror ps)) = - snd (last ps)"
    by (simp_all add: hd_map last_map split_beta)
  show "snd (last ps) \<le> piecewise v ps \<and> piecewise v ps \<le> snd (hd ps)"
    using piecewise_rising(1)[OF m, of v] unfolding e h by simp
  show "v \<le> w \<Longrightarrow> piecewise w ps \<le> piecewise v ps"
    using piecewise_rising(2)[OF m, of v w] unfolding e by simp
qed

text \<open>Well-formedness of a table with integral ends is checked by evaluation.\<close>

definition score_table :: "(rat \<times> rat) list \<Rightarrow> bool" where
  "score_table ps \<longleftrightarrow> table_ok ps \<and> (\<forall>(x, y) \<in> set ps. 0 \<le> y \<and> y \<le> 100) \<and> (rising ps \<or> falling ps)"

lemma score_table_bounds:
  assumes "score_table ps"
  shows "0 \<le> piecewise v ps \<and> piecewise v ps \<le> 100"
proof -
  have ok: "table_ok ps" using assms by (simp add: score_table_def)
  then have ne: "ps \<noteq> []" by auto
  then have "hd ps \<in> set ps" "last ps \<in> set ps" by simp_all
  then have "0 \<le> snd (hd ps) \<and> snd (hd ps) \<le> 100" "0 \<le> snd (last ps) \<and> snd (last ps) \<le> 100"
    using assms by (auto simp: score_table_def)
  then show ?thesis
    using assms piecewise_rising(1)[OF ok, of v] piecewise_falling(1)[OF ok, of v]
    unfolding score_table_def by linarith
qed

section \<open>Rounding to eight decimals\<close>

lemma fl64_abs_100: "\<bar>x\<bar> \<le> 100 \<Longrightarrow> \<bar>fl64 x\<bar> \<le> 100"
  using fl64_mono[of x 100] fl64_mono[of "- 100" x] fl64_minus[of 100] by (simp add: abs_le_iff)

lemma quantize_minus: "quantize n (- x) = - quantize n x"
  by (simp add: quantize_def rnd_even_minus)

lemma quantize_le_100: "x \<le> 100 + 1 / 1000000000 \<Longrightarrow> quantize 8 x \<le> 100"
proof -
  assume "x \<le> 100 + 1 / 1000000000"
  then have "x * 10 ^ 8 \<le> 10000000000 + 1 / 10" by simp
  then have "rnd_even (x * 10 ^ 8) \<le> rnd_even (10000000000 + 1 / 10)" by (rule rnd_even_mono)
  also have "rnd_even (10000000000 + 1 / 10) = 10000000000"
  proof -
    have "\<lfloor>10000000000 + 1 / 10 :: rat\<rfloor> = 10000000000" by (rule floor_unique) simp_all
    then show ?thesis unfolding rnd_even_def Let_def by (simp only:) simp
  qed
  finally have "(of_int (rnd_even (x * 10 ^ 8)) :: rat) \<le> 10000000000" by (metis of_int_le_iff of_int_numeral)
  then show ?thesis by (simp add: quantize_def)
qed

lemma quantize_ge_0: "- 1 / 1000000000 \<le> x \<Longrightarrow> 0 \<le> quantize 8 x"
proof -
  assume "- 1 / 1000000000 \<le> x"
  then have "- (1 / 10) \<le> x * 10 ^ 8" by simp
  then have "rnd_even (- (1 / 10)) \<le> rnd_even (x * 10 ^ 8)" by (rule rnd_even_mono)
  moreover have "rnd_even (- (1 / 10)) = 0"
  proof -
    have "\<lfloor>1 / 10 :: rat\<rfloor> = 0" by (rule floor_unique) simp_all
    then have "rnd_even (1 / 10) = 0" unfolding rnd_even_def Let_def by (simp only:) simp
    then show ?thesis unfolding rnd_even_minus by (simp only: minus_zero)
  qed
  ultimately show ?thesis by (simp add: quantize_def)
qed

lemma quantize_error: "\<bar>quantize n x - x\<bar> \<le> 1 / (2 * 10 ^ n)"
proof -
  let ?d = "of_int (rnd_even (x * 10 ^ n)) - x * 10 ^ n :: rat"
  have "quantize n x - x = ?d / 10 ^ n" by (simp add: quantize_def diff_divide_distrib)
  then have "\<bar>quantize n x - x\<bar> = \<bar>?d\<bar> / 10 ^ n" by (simp only: abs_divide) simp
  also have "\<dots> \<le> 1 / 2 / 10 ^ n" by (rule divide_right_mono[OF rnd_even_error]) simp
  finally show ?thesis by simp
qed

end
