(* ===== verification/EtfEvidence.thy ===== *)
theory EtfEvidence
  imports Complex_Main Prelude PyStr "HOL-Library.Product_Lexorder"
begin

text \<open>
  ETF evidence of \<open>app/etf_evidence.py\<close>: facts, NAV observations, holdings snapshots, listings and
  acquisition attempts with their provenance, the precedence that selects one of several observations,
  and the freshness policy.  The persisted reads of \<open>app/etf_persistence.py\<close> are lists in precedence
  order.  Evidence identifiers are the value of a hash function, a parameter of the order.
\<close>

section \<open>Data\<close>

datatype etf_metric =
    IDENTITY | SUBTYPE | ASSET_CLASS | UNDERLYING_REFERENCE | BENCHMARK_INDEX | NAV | AUM | EXPENSE_RATIO
  | MARKET_PRICE | TRADING_VOLUME | BID | ASK | BID_ASK_SPREAD | TRACKING_ERROR | TRACKING_DIFFERENCE
  | AMC_FUND_HOUSE | FUND_INCEPTION_DATE | REPLICATION_METHOD | UNDERLYING_HOLDINGS

datatype authority = OFFICIAL_EXCHANGE | OFFICIAL_FUND | OTHER_AUTHORITATIVE | SECONDARY

datatype acquisition_outcome =
    SUCCESS_WITH_DATA | SUCCESS_EMPTY | GENUINELY_UNAVAILABLE | TECHNICAL_FAILURE | NOT_IMPLEMENTED

text \<open>
  A date is its day number since 1970-01-01; an aware datetime is its instant in microseconds and the
  offset of its zone, which decides the calendar day it falls on.
\<close>

record stamp =
  st_utc :: int
  st_offset :: int

definition DAY :: int where "DAY = 86400 * 10 ^ 6"
definition stamp_date :: "stamp \<Rightarrow> int" where "stamp_date s = (st_utc s + st_offset s) div DAY"

text \<open>\<open>date.min\<close> and \<open>datetime.min\<close>.\<close>

definition date_min :: int where "date_min = - 719162"

record provenance =
  pv_provider :: string
  pv_source_type :: string
  pv_source_identity :: string
  pv_source_url :: string
  pv_source_metadata :: json
  pv_authority :: authority
  pv_published_at :: "stamp option"
  pv_retrieved_at :: stamp
  pv_confidence :: "rat option"
  pv_source_mode_real :: bool

text \<open>The value of a fact is a decimal or a text; its type is left open.\<close>

record 'v etf_fact =
  ef_instrument :: nat
  ef_metric :: etf_metric
  ef_value :: 'v
  ef_unit :: "string option"
  ef_as_of_date :: "int option"
  ef_provenance :: provenance

record nav_observation =
  na_nav :: rat
  na_currency :: string
  na_date :: int
  na_provenance :: provenance

record holding =
  ho_isin :: "string option"
  ho_weight :: "rat option"

record holdings_snapshot =
  hs_as_of_date :: int
  hs_provenance :: provenance
  hs_holdings :: "holding list"

record listing =
  li_exchange :: string
  li_asset_type :: string
  li_isin :: string
  li_symbol :: string
  li_name :: string
  li_instrument :: "nat option"
  li_provenance :: provenance

record attempt =
  at_metric :: string
  at_provider :: string
  at_attempted_at :: stamp
  at_outcome :: acquisition_outcome
  at_reason :: string

text \<open>The pattern \<open>[A-Z]{2}[A-Z0-9]{9}[0-9]\<close>, in full.\<close>

definition upper_letter :: "char \<Rightarrow> bool" where "upper_letter c \<longleftrightarrow> CHR ''A'' \<le> c \<and> c \<le> CHR ''Z''"
definition digit_char :: "char \<Rightarrow> bool" where "digit_char c \<longleftrightarrow> CHR ''0'' \<le> c \<and> c \<le> CHR ''9''"

definition isin_ok :: "string \<Rightarrow> bool" where
  "isin_ok s \<longleftrightarrow> length s = 12 \<and> list_all upper_letter (take 2 s) \<and>
     list_all (\<lambda>c. upper_letter c \<or> digit_char c) (take 9 (drop 2 s)) \<and> digit_char (s ! 11)"

text \<open>The validation of a listing: field constraints and the validator \<open>etf_only\<close>.\<close>

definition listing_valid :: "listing \<Rightarrow> bool" where
  "listing_valid l \<longleftrightarrow> isin_ok (li_isin l) \<and> li_symbol l \<noteq> [] \<and> li_name l \<noteq> [] \<and> li_asset_type l = ''ETF'' \<and> li_exchange l = ''NSE'' \<and>
     pv_provider (li_provenance l) \<noteq> [] \<and> pv_source_type (li_provenance l) \<noteq> [] \<and>
     pv_source_identity (li_provenance l) \<noteq> [] \<and> pv_source_url (li_provenance l) \<noteq> [] \<and>
     (case pv_confidence (li_provenance l) of None \<Rightarrow> True | Some c \<Rightarrow> 0 \<le> c \<and> c \<le> 1)"

section \<open>Precedence\<close>

fun authority_tier :: "authority \<Rightarrow> int" where
  "authority_tier OFFICIAL_EXCHANGE = 3"
| "authority_tier OFFICIAL_FUND = 3"
| "authority_tier OTHER_AUTHORITATIVE = 2"
| "authority_tier SECONDARY = 1"

text \<open>The identifier of the evidence comes last.\<close>

definition evidence_precedence :: "provenance \<Rightarrow> int option \<Rightarrow> nat \<Rightarrow> int \<times> int \<times> int \<times> int \<times> nat" where
  "evidence_precedence p as_of ident =
     (authority_tier (pv_authority p), (case as_of of Some d \<Rightarrow> d | None \<Rightarrow> date_min),
      (case pv_published_at p of Some t \<Rightarrow> st_utc t | None \<Rightarrow> date_min * DAY), st_utc (pv_retrieved_at p), ident)"

text \<open>\<open>sorted(xs, key=key, reverse=True)\<close> keeps the order of equal elements.\<close>

definition sorted_desc :: "('a \<Rightarrow> 'k::linorder) \<Rightarrow> 'a list \<Rightarrow> 'a list" where
  "sorted_desc key xs = rev (sort_key key (rev xs))"

definition etf_facts :: "('v etf_fact \<Rightarrow> nat) \<Rightarrow> 'v etf_fact list \<Rightarrow> nat \<Rightarrow> etf_metric \<Rightarrow> 'v etf_fact list" where
  "etf_facts evidence_id rows iid metric =
     sorted_desc (\<lambda>f. evidence_precedence (ef_provenance f) (ef_as_of_date f) (evidence_id f))
       (filter (\<lambda>f. ef_instrument f = iid \<and> pv_source_mode_real (ef_provenance f) \<and> ef_metric f = metric) rows)"

section \<open>Freshness\<close>

datatype freshness = F_MISSING | F_UNKNOWN_AS_OF | F_FUTURE_DATED | F_FRESH | F_STALE | F_UNKNOWN

fun ETF_MAX_AGE :: "etf_metric \<Rightarrow> int" where
  "ETF_MAX_AGE NAV = 1"
| "ETF_MAX_AGE MARKET_PRICE = 1"
| "ETF_MAX_AGE TRADING_VOLUME = 1"
| "ETF_MAX_AGE BID = 1"
| "ETF_MAX_AGE ASK = 1"
| "ETF_MAX_AGE BID_ASK_SPREAD = 1"
| "ETF_MAX_AGE AUM = 35"
| "ETF_MAX_AGE UNDERLYING_HOLDINGS = 35"
| "ETF_MAX_AGE EXPENSE_RATIO = 90"
| "ETF_MAX_AGE TRACKING_ERROR = 35"
| "ETF_MAX_AGE TRACKING_DIFFERENCE = 35"
| "ETF_MAX_AGE _ = 365"

text \<open>The evidence is given by its effective date, if there is evidence; \<open>today\<close> is \<open>now.date()\<close>.\<close>

definition etf_freshness :: "int option option \<Rightarrow> etf_metric \<Rightarrow> int \<Rightarrow> freshness" where
  "etf_freshness evidence metric today =
     (case evidence of
        None \<Rightarrow> F_MISSING
      | Some None \<Rightarrow> F_UNKNOWN_AS_OF
      | Some (Some as_of) \<Rightarrow>
          if today - as_of < 0 then F_FUTURE_DATED
          else if today - as_of \<le> ETF_MAX_AGE metric then F_FRESH else F_STALE)"

section \<open>Lemmas\<close>

lemma set_sorted_desc [simp]: "set (sorted_desc key xs) = set xs"
  by (simp add: sorted_desc_def)

lemma sorted_desc_Nil [simp]: "sorted_desc key xs = [] \<longleftrightarrow> xs = []"
  using set_sorted_desc[of key xs] by (metis set_empty)

lemma hd_sorted_desc:
  assumes "x \<in> set xs"
  shows "key x \<le> key (hd (sorted_desc key xs))"
proof -
  let ?s = "sort_key key (rev xs)"
  have ne: "?s \<noteq> []" using assms by (metis empty_iff set_empty set_rev set_sort)
  have "x \<in> set ?s" using assms by simp
  then obtain i where i: "i < length ?s" "?s ! i = x" by (metis in_set_conv_nth)
  have "sorted (map key ?s)" by simp
  from sorted_nth_mono[OF this, of i "length ?s - 1"] i ne
  have "key x \<le> key (last ?s)" by (simp add: last_conv_nth less_Suc_eq_le)
  then show ?thesis using ne by (simp add: sorted_desc_def hd_rev)
qed

lemma fresh_iff: "etf_freshness (Some (Some d)) m today = F_FRESH \<longleftrightarrow> 0 \<le> today - d \<and> today - d \<le> ETF_MAX_AGE m"
  by (simp add: etf_freshness_def)

lemma freshE:
  assumes "etf_freshness e m today = F_FRESH"
  obtains d where "e = Some (Some d)" "0 \<le> today - d" "today - d \<le> ETF_MAX_AGE m"
  using assms by (auto simp: etf_freshness_def split: option.splits if_splits)

section \<open>Properties\<close>

text \<open>the selected observation of a metric is authoritative: no usable observation outranks the head
  of the list in authority, and none of the same authority is dated later.  A recent secondary value
  never displaces a primary one, however stale.\<close>

theorem selected_fact_is_authoritative:
  assumes "f \<in> set rows" and "ef_instrument f = iid" and "ef_metric f = metric"
    and "pv_source_mode_real (ef_provenance f)"
  shows "\<exists>g gs. etf_facts evidence_id rows iid metric = g # gs \<and> g \<in> set rows \<and> ef_metric g = metric \<and>
    authority_tier (pv_authority (ef_provenance f)) \<le> authority_tier (pv_authority (ef_provenance g)) \<and>
    (authority_tier (pv_authority (ef_provenance f)) = authority_tier (pv_authority (ef_provenance g)) \<longrightarrow>
       (\<forall>d. ef_as_of_date f = Some d \<and> date_min < d \<longrightarrow> (\<exists>e. ef_as_of_date g = Some e \<and> d \<le> e)))"
proof -
  define key where "key h = evidence_precedence (ef_provenance h) (ef_as_of_date h) (evidence_id h)" for h :: "'a etf_fact"
  define us where "us = filter (\<lambda>h. ef_instrument h = iid \<and> pv_source_mode_real (ef_provenance h) \<and> ef_metric h = metric) rows"
  have l: "etf_facts evidence_id rows iid metric = sorted_desc key us"
    unfolding etf_facts_def us_def key_def ..
  have f: "f \<in> set us" using assms by (simp add: us_def)
  then have ne: "sorted_desc key us \<noteq> []" by auto
  define g where "g = hd (sorted_desc key us)"
  have g: "g \<in> set us" using hd_in_set[OF ne] by (simp add: g_def)
  have "key f \<le> key g" unfolding g_def by (rule hd_sorted_desc[OF f])
  then have "authority_tier (pv_authority (ef_provenance f)) \<le> authority_tier (pv_authority (ef_provenance g)) \<and>
    (authority_tier (pv_authority (ef_provenance f)) = authority_tier (pv_authority (ef_provenance g)) \<longrightarrow>
       (\<forall>d. ef_as_of_date f = Some d \<and> date_min < d \<longrightarrow> (\<exists>e. ef_as_of_date g = Some e \<and> d \<le> e)))"
    by (auto simp: key_def evidence_precedence_def less_eq_prod_def less_prod_def split: option.splits)
  moreover have "sorted_desc key us = g # tl (sorted_desc key us)" using ne by (simp add: g_def)
  moreover have "g \<in> set rows" "ef_metric g = metric" using g by (auto simp: us_def)
  ultimately show ?thesis unfolding l by blast
qed

definition sample_provenance :: "authority \<Rightarrow> provenance" where
  "sample_provenance a = \<lparr>pv_provider = ''P'', pv_source_type = ''T'', pv_source_identity = ''I'', pv_source_url = ''U'',
     pv_source_metadata = JNull, pv_authority = a, pv_published_at = None,
     pv_retrieved_at = \<lparr>st_utc = 0, st_offset = 0\<rparr>, pv_confidence = None, pv_source_mode_real = True\<rparr>"

definition sample_fact :: "authority \<Rightarrow> int \<Rightarrow> rat \<Rightarrow> rat etf_fact" where
  "sample_fact a d v = \<lparr>ef_instrument = 1, ef_metric = AUM, ef_value = v, ef_unit = Some ''INR'',
     ef_as_of_date = Some d, ef_provenance = sample_provenance a\<rparr>"

lemma selected_fact_is_authoritative_witness:
  "\<exists>g gs. etf_facts (\<lambda>_. 0) [sample_fact SECONDARY 20000 5, sample_fact OFFICIAL_FUND 100 7] 1 AUM = g # gs \<and>
     3 \<le> authority_tier (pv_authority (ef_provenance g))"
proof -
  have "sample_fact OFFICIAL_FUND 100 7 \<in> set [sample_fact SECONDARY 20000 5, sample_fact OFFICIAL_FUND 100 7]" by simp
  moreover have "ef_instrument (sample_fact OFFICIAL_FUND 100 7) = 1" "ef_metric (sample_fact OFFICIAL_FUND 100 7) = AUM"
    "pv_source_mode_real (ef_provenance (sample_fact OFFICIAL_FUND 100 7))"
    "authority_tier (pv_authority (ef_provenance (sample_fact OFFICIAL_FUND 100 7))) = 3"
    by (simp_all add: sample_fact_def sample_provenance_def)
  ultimately show ?thesis using selected_fact_is_authoritative by metis
qed

end
