(* ===== verification/EtfMetrics.thy ===== *)
theory EtfMetrics
  imports Prelude PyFloat
begin

text \<open>
  Deterministic ETF metrics of \<open>app/etf_metrics.py\<close> from daily closes: period returns, annualized
  volatility, maximum drawdown and the 50/200 momentum, in \<open>Decimal\<close> arithmetic of the default
  context.  The explanatory \<open>reason\<close> texts are left out.
\<close>

section \<open>Data\<close>

datatype metric_id =
    RETURN_1M | RETURN_3M | RETURN_6M | RETURN_1Y | ANNUALIZED_VOLATILITY | MAX_DRAWDOWN | MOMENTUM_50_200

fun period_sessions :: "metric_id \<Rightarrow> nat" where
  "period_sessions RETURN_1M = 21"
| "period_sessions RETURN_3M = 63"
| "period_sessions RETURN_6M = 126"
| "period_sessions RETURN_1Y = 252"
| "period_sessions _ = 0"

definition PERIODS :: "metric_id list" where
  "PERIODS = [RETURN_1M, RETURN_3M, RETURN_6M, RETURN_1Y]"

definition VOLATILITY_WINDOW_SESSIONS :: nat where "VOLATILITY_WINDOW_SESSIONS = 63"
definition DRAWDOWN_WINDOW_SESSIONS :: nat where "DRAWDOWN_WINDOW_SESSIONS = 252"
definition MOMENTUM_SHORT_WINDOW :: nat where "MOMENTUM_SHORT_WINDOW = 50"
definition MOMENTUM_LONG_WINDOW :: nat where "MOMENTUM_LONG_WINDOW = 200"
definition TRADING_SESSIONS_PER_YEAR :: nat where "TRADING_SESSIONS_PER_YEAR = 252"

record metric_value =
  mv_metric :: metric_id
  mv_value :: "rat option"
  mv_as_of_date :: "int option"
  mv_sessions_used :: nat
  mv_insufficient_history :: bool

record metrics =
  me_as_of_date :: "int option"
  me_values :: "(metric_id \<times> metric_value) list"

definition get_metric :: "metrics \<Rightarrow> metric_id \<Rightarrow> metric_value option" where
  "get_metric ms m = map_of (me_values ms) m"

definition insufficient :: "metric_id \<Rightarrow> nat \<Rightarrow> metric_value" where
  "insufficient m n = \<lparr>mv_metric = m, mv_value = None, mv_as_of_date = None, mv_sessions_used = n,
     mv_insufficient_history = True\<rparr>"

text \<open>A bar is a trading date and a close that may be missing.\<close>

type_synonym bar = "int \<times> rat option"
type_synonym series = "(int \<times> rat) list"

fun usable_bars :: "bar list \<Rightarrow> series" where
  "usable_bars [] = []"
| "usable_bars ((d, c) # bs) =
     (case c of Some p \<Rightarrow> if 0 < p then (d, p) # usable_bars bs else usable_bars bs | None \<Rightarrow> usable_bars bs)"

definition usable_close_series :: "bar list \<Rightarrow> series" where
  "usable_close_series bars = sort_key fst (fold (\<lambda>(d, p) acc. dset d p acc) (usable_bars bars) [])"

text \<open>\<open>xs[-n:]\<close> for a positive \<open>n\<close>, and \<open>xs[-n]\<close>.\<close>

definition last_n :: "nat \<Rightarrow> 'a list \<Rightarrow> 'a list" where
  "last_n n xs = drop (length xs - n) xs"

section \<open>Metrics\<close>

text \<open>\<open>(b - a) / a * 100\<close> in Decimal arithmetic.\<close>

definition pct_change :: "rat \<Rightarrow> rat \<Rightarrow> rat" where
  "pct_change a b = dec28 (dec28 (dec28 (b - a) / a) * 100)"

definition period_return :: "series \<Rightarrow> metric_id \<Rightarrow> metric_value" where
  "period_return xs m =
     (let n = period_sessions m
      in if length xs \<le> n then insufficient m (length xs)
         else (let start = xs ! (length xs - (n + 1)); final = last xs
               in \<lparr>mv_metric = m, mv_value = Some (pct_change (snd start) (snd final)),
                   mv_as_of_date = Some (fst final), mv_sessions_used = n + 1,
                   mv_insufficient_history = False\<rparr>))"

fun daily_returns :: "rat list \<Rightarrow> rat list" where
  "daily_returns (p # q # ps) = fl64 (dec28 (dec28 (q - p) / p)) # daily_returns (q # ps)"
| "daily_returns _ = []"

definition compute_annualized_volatility :: "series \<Rightarrow> metric_value" where
  "compute_annualized_volatility xs =
     (let window = last_n (VOLATILITY_WINDOW_SESSIONS + 1) xs
      in if length window < VOLATILITY_WINDOW_SESSIONS + 1
         then insufficient ANNUALIZED_VOLATILITY (length window)
         else (let stdev = repr_dec (pstdev (daily_returns (map snd window)))
               in \<lparr>mv_metric = ANNUALIZED_VOLATILITY,
                   mv_value = Some (dec28 (dec28 (stdev * dec_sqrt (of_nat TRADING_SESSIONS_PER_YEAR)) * 100)),
                   mv_as_of_date = Some (fst (last window)), mv_sessions_used = length window,
                   mv_insufficient_history = False\<rparr>))"

text \<open>The drawdown loop carries the running peak and the worst drawdown so far.\<close>

fun drawdown_loop :: "rat \<Rightarrow> rat \<Rightarrow> rat list \<Rightarrow> rat" where
  "drawdown_loop peak worst [] = worst"
| "drawdown_loop peak worst (p # ps) =
     (let peak' = (if peak < p then p else peak);
          dd = dec28 (dec28 (p - peak') / peak')
      in drawdown_loop peak' (if dd < worst then dd else worst) ps)"

definition compute_max_drawdown :: "series \<Rightarrow> metric_value" where
  "compute_max_drawdown xs =
     (let window = (if DRAWDOWN_WINDOW_SESSIONS < length xs then last_n DRAWDOWN_WINDOW_SESSIONS xs else xs)
      in if length window < 2 then insufficient MAX_DRAWDOWN (length window)
         else \<lparr>mv_metric = MAX_DRAWDOWN,
               mv_value = Some (dec28 (drawdown_loop (snd (hd window)) 0 (map snd window) * 100)),
               mv_as_of_date = Some (fst (last window)), mv_sessions_used = length window,
               mv_insufficient_history = False\<rparr>)"

definition dec_sum :: "rat list \<Rightarrow> rat" where
  "dec_sum xs = foldl (\<lambda>acc x. dec28 (acc + x)) 0 xs"

definition compute_momentum :: "series \<Rightarrow> metric_value" where
  "compute_momentum xs =
     (if length xs < MOMENTUM_LONG_WINDOW then insufficient MOMENTUM_50_200 (length xs)
      else (let closes = map snd xs;
                short_avg = dec28 (dec_sum (last_n MOMENTUM_SHORT_WINDOW closes) / of_nat MOMENTUM_SHORT_WINDOW);
                long_avg = dec28 (dec_sum (last_n MOMENTUM_LONG_WINDOW closes) / of_nat MOMENTUM_LONG_WINDOW)
            in \<lparr>mv_metric = MOMENTUM_50_200, mv_value = Some (pct_change long_avg short_avg),
                mv_as_of_date = Some (fst (last xs)), mv_sessions_used = MOMENTUM_LONG_WINDOW,
                mv_insufficient_history = False\<rparr>))"

definition compute_etf_deterministic_metrics :: "bar list \<Rightarrow> metrics" where
  "compute_etf_deterministic_metrics bars =
     (let xs = usable_close_series bars
      in \<lparr>me_as_of_date = (if xs = [] then None else Some (fst (last xs))),
          me_values = map (\<lambda>m. (m, period_return xs m)) PERIODS @
            [(ANNUALIZED_VOLATILITY, compute_annualized_volatility xs),
             (MAX_DRAWDOWN, compute_max_drawdown xs),
             (MOMENTUM_50_200, compute_momentum xs)]\<rparr>)"

section \<open>Lemmas\<close>

lemma usable_bars_pos: "(d, p) \<in> set (usable_bars bs) \<Longrightarrow> 0 < p"
  by (induction bs rule: usable_bars.induct) (auto split: option.splits if_splits)

lemma fold_dset_spec:
  fixes acc :: series
  assumes "distinct (dkeys acc)"
  shows "distinct (dkeys (fold (\<lambda>(d, p) acc. dset d p acc) xs acc)) \<and>
    set (fold (\<lambda>(d, p) acc. dset d p acc) xs acc) \<subseteq> set acc \<union> set xs"
  using assms
proof (induction xs arbitrary: acc)
  case (Cons x xs)
  have sub: "set (dset d p ys) \<subseteq> insert (d, p) (set ys)" for d p and ys :: series
    by (induction ys) auto
  have "distinct (dkeys (dset (fst x) (snd x) acc))" using Cons.prems by (rule distinct_dset)
  then show ?case
    using Cons.IH[of "dset (fst x) (snd x) acc"] sub[of "fst x" "snd x" acc] by (auto simp: split_beta)
qed simp

lemma sorted_distinct_dates: "sorted (map fst (usable_close_series bars)) \<and> distinct (map fst (usable_close_series bars))"
proof -
  let ?d = "fold (\<lambda>(d, p) acc. dset d p acc) (usable_bars bars) []"
  have "distinct (dkeys ?d)" using fold_dset_spec[of "[]" "usable_bars bars"] by simp
  then have "distinct (map fst (sort_key fst ?d))" by (simp add: distinct_map)
  then show ?thesis by (simp add: usable_close_series_def)
qed

lemma usable_close_pos: "p \<in> set (usable_close_series bars) \<Longrightarrow> 0 < snd p"
  using fold_dset_spec[of "[]" "usable_bars bars"] usable_bars_pos
  by (cases p) (auto simp: usable_close_series_def)

text \<open>Exchange prices: positive multiples of a hundredth of a paisa.\<close>

definition tick :: "rat \<Rightarrow> bool" where
  "tick p \<longleftrightarrow> (\<exists>k. p = of_int k / 10 ^ 4 \<and> 0 < k \<and> k < 10 ^ 20)"

lemma dec28_grid: "\<bar>k\<bar> < 10 ^ 28 \<Longrightarrow> dec28 (of_int k / 10 ^ 4) = of_int k / 10 ^ 4"
proof (rule decimal.rnd_exact)
  assume "\<bar>k\<bar> < 10 ^ 28"
  moreover have "rat_of_int k / 10 ^ 4 = of_int k * of_nat 10 powi (- 4)"
    by (simp add: power_int_def field_simps)
  ultimately show "few_digits 10 28 (- 1000026) (of_int k / 10 ^ 4)"
    unfolding few_digits_def by - (rule exI[of _ k], rule exI[of _ "- 4"], simp)
qed

lemma tick_diff: "tick p \<Longrightarrow> tick q \<Longrightarrow> dec28 (p - q) = p - q"
proof -
  assume "tick p" "tick q"
  then obtain k l where k: "p = of_int k / 10 ^ 4" "0 < k" "k < 10 ^ 20" and l: "q = of_int l / 10 ^ 4" "0 < l" "l < 10 ^ 20"
    by (auto simp: tick_def)
  have "p - q = of_int (k - l) / 10 ^ 4" by (simp add: k(1) l(1) diff_divide_distrib)
  moreover have "\<bar>k - l\<bar> < 10 ^ 28" using k l by simp
  ultimately show ?thesis by (metis dec28_grid)
qed

lemma tick_pos: "tick p \<Longrightarrow> 0 < p"
  by (auto simp: tick_def)

definition drawdown :: "rat \<Rightarrow> rat \<Rightarrow> rat" where
  "drawdown q p = dec28 (dec28 (p - q) / q)"

lemma drawdown_antitone:
  assumes "tick p" "tick q" "tick q'" "q \<le> q'"
  shows "drawdown q' p \<le> drawdown q p"
proof -
  have "0 < q" "0 < q'" "0 < p" using assms by (auto intro: tick_pos)
  then have "p / q' \<le> p / q" using assms(4) by (simp add: frac_le)
  then have "(p - q') / q' \<le> (p - q) / q" using \<open>0 < q\<close> \<open>0 < q'\<close> by (simp add: diff_divide_distrib)
  then show ?thesis
    unfolding drawdown_def tick_diff[OF assms(1,2)] tick_diff[OF assms(1,3)] by (rule decimal.rnd_mono)
qed

lemma drawdown_range:
  assumes "tick p" "tick q" "p \<le> q"
  shows "- 1 \<le> drawdown q p \<and> drawdown q p \<le> 0"
proof -
  have q: "0 < q" "0 < p" using assms by (auto intro: tick_pos)
  then have "- 1 \<le> (p - q) / q" "(p - q) / q \<le> 0" using assms(3) by (simp_all add: pos_le_divide_eq pos_divide_le_eq)
  moreover have "few_digits 10 28 (- 1000026) (of_int (- 1))" "few_digits 10 28 (- 1000026) (of_int 0)"
    by (rule few_digits_int; simp)+
  ultimately show ?thesis
    unfolding drawdown_def tick_diff[OF assms(1,2)]
    using decimal.rnd_in_range[of "of_int (- 1)" "of_int 0" "(p - q) / q"] by simp
qed

lemma drawdown_loop_spec:
  assumes "tick peak" and "\<forall>p \<in> set ps. tick p" and "worst \<le> 0" and "- 1 \<le> worst"
  shows "drawdown_loop peak worst ps \<le> worst \<and> - 1 \<le> drawdown_loop peak worst ps \<and>
    (\<forall>j < length ps. drawdown_loop peak worst ps \<le> drawdown peak (ps ! j)) \<and>
    (\<forall>i j. i \<le> j \<and> j < length ps \<longrightarrow> drawdown_loop peak worst ps \<le> drawdown (ps ! i) (ps ! j)) \<and>
    (drawdown_loop peak worst ps = worst \<or>
     (\<exists>j < length ps. drawdown_loop peak worst ps = drawdown peak (ps ! j)) \<or>
     (\<exists>i j. i \<le> j \<and> j < length ps \<and> drawdown_loop peak worst ps = drawdown (ps ! i) (ps ! j)))"
  using assms
proof (induction ps arbitrary: peak worst)
  case (Cons p ps)
  define peak' where "peak' = (if peak < p then p else peak)"
  define worst' where "worst' = (if drawdown peak' p < worst then drawdown peak' p else worst)"
  define r where "r = drawdown_loop peak' worst' ps"
  have r: "drawdown_loop peak worst (p # ps) = r"
    by (simp add: r_def worst'_def peak'_def drawdown_def Let_def)
  have tp: "tick p" "tick peak'" "p \<le> peak'" "peak \<le> peak'" using Cons.prems by (auto simp: peak'_def)
  have w: "worst' \<le> worst" "worst' \<le> drawdown peak' p" "worst' \<le> 0" "- 1 \<le> worst'"
    using Cons.prems drawdown_range[OF tp(1,2,3)] by (auto simp: worst'_def)
  have ih: "r \<le> worst'" "- 1 \<le> r" "\<And>j. j < length ps \<Longrightarrow> r \<le> drawdown peak' (ps ! j)"
    "\<And>i j. i \<le> j \<Longrightarrow> j < length ps \<Longrightarrow> r \<le> drawdown (ps ! i) (ps ! j)"
    "r = worst' \<or> (\<exists>j < length ps. r = drawdown peak' (ps ! j)) \<or>
       (\<exists>i j. i \<le> j \<and> j < length ps \<and> r = drawdown (ps ! i) (ps ! j))"
    using Cons.IH[OF tp(2) _ w(3,4)] Cons.prems(2) unfolding r_def by auto
  have from_peak: "r \<le> drawdown q ((p # ps) ! j)" if j: "j < length (p # ps)" and q: "tick q" "q \<le> peak'" for q j
  proof (cases j)
    case 0
    then show ?thesis using ih(1) w(2) drawdown_antitone[OF tp(1) q(1) tp(2) q(2)] by simp
  next
    case (Suc j')
    then have "tick (ps ! j')" using Cons.prems(2) j by simp
    from drawdown_antitone[OF this q(1) tp(2) q(2)] show ?thesis using ih(3)[of j'] j Suc by simp
  qed
  have pairs: "r \<le> drawdown ((p # ps) ! i) ((p # ps) ! j)" if ij: "i \<le> j" "j < length (p # ps)" for i j
  proof (cases i)
    case 0
    then show ?thesis using from_peak[OF ij(2) tp(1,3)] by simp
  next
    case (Suc i')
    then obtain j' where "j = Suc j'" using ij(1) by (cases j) auto
    then show ?thesis using ih(4)[of i' j'] Suc ij by simp
  qed
  have attained: "r = worst \<or> (\<exists>j < length (p # ps). r = drawdown peak ((p # ps) ! j)) \<or>
      (\<exists>i j. i \<le> j \<and> j < length (p # ps) \<and> r = drawdown ((p # ps) ! i) ((p # ps) ! j))"
    using ih(5)
  proof (elim disjE exE conjE)
    assume "r = worst'"
    then show ?thesis
      unfolding worst'_def peak'_def by (auto split: if_splits intro!: exI[of _ 0])
  next
    fix j assume j: "j < length ps" "r = drawdown peak' (ps ! j)"
    show ?thesis
    proof (cases "peak < p")
      case True
      then have "r = drawdown ((p # ps) ! 0) ((p # ps) ! Suc j)" using j by (simp add: peak'_def)
      then show ?thesis using j(1) by (metis Suc_less_eq length_Cons zero_le)
    next
      case False
      then have "r = drawdown peak ((p # ps) ! Suc j)" using j by (simp add: peak'_def)
      then show ?thesis using j(1) by (metis Suc_less_eq length_Cons)
    qed
  next
    fix i j assume ij: "i \<le> j" "j < length ps" "r = drawdown (ps ! i) (ps ! j)"
    then have "r = drawdown ((p # ps) ! Suc i) ((p # ps) ! Suc j)" by simp
    then show ?thesis using ij(1,2) by (metis Suc_le_mono Suc_less_eq length_Cons)
  qed
  show ?case
    unfolding r using ih(1,2) w(1) pairs attained from_peak[OF _ Cons.prems(1) tp(4)] by auto
qed simp

section \<open>Properties\<close>

text \<open>The trailing window the drawdown looks at.\<close>

definition drawdown_window :: "bar list \<Rightarrow> rat list" where
  "drawdown_window bars = map snd (last_n DRAWDOWN_WINDOW_SESSIONS (usable_close_series bars))"

lemma last_n_all: "length xs \<le> n \<Longrightarrow> last_n n xs = xs"
  by (simp add: last_n_def)

lemma max_drawdown_window:
  assumes "2 \<le> length (drawdown_window bars)"
  shows "mv_value (compute_max_drawdown (usable_close_series bars)) =
    Some (dec28 (drawdown_loop (hd (drawdown_window bars)) 0 (drawdown_window bars) * 100))"
proof -
  let ?xs = "usable_close_series bars"
  have w: "(if DRAWDOWN_WINDOW_SESSIONS < length ?xs then last_n DRAWDOWN_WINDOW_SESSIONS ?xs else ?xs) =
      last_n DRAWDOWN_WINDOW_SESSIONS ?xs"
    by (simp add: last_n_all)
  moreover have "last_n DRAWDOWN_WINDOW_SESSIONS ?xs \<noteq> []"
    using assms by (auto simp: drawdown_window_def)
  ultimately show ?thesis
    using assms by (simp add: compute_max_drawdown_def Let_def drawdown_window_def hd_map not_less)
qed

text \<open>C29: for exchange prices the reported maximum drawdown is the worst fall of the trailing window:
  it lies in [-100, 0], no later close of the window is further below an earlier one, and it is zero or
  the fall between two closes of the window.\<close>

theorem max_drawdown_is_worst_fall:
  assumes "\<forall>p \<in> set (drawdown_window bars). tick p" and "2 \<le> length (drawdown_window bars)"
  shows "\<exists>v w. mv_value (compute_max_drawdown (usable_close_series bars)) = Some v \<and> v = dec28 (w * 100) \<and>
    - 100 \<le> v \<and> v \<le> 0 \<and>
    (\<forall>i j. i \<le> j \<and> j < length (drawdown_window bars) \<longrightarrow>
       v \<le> pct_change (drawdown_window bars ! i) (drawdown_window bars ! j)) \<and>
    (w = 0 \<or> (\<exists>i j. i \<le> j \<and> j < length (drawdown_window bars) \<and>
       v = pct_change (drawdown_window bars ! i) (drawdown_window bars ! j)))"
proof -
  let ?W = "drawdown_window bars"
  define w where "w = drawdown_loop (hd ?W) 0 ?W"
  have ne: "?W \<noteq> []" using assms(2) by auto
  then have t: "tick (hd ?W)" using assms(1) by simp
  have h: "hd ?W = ?W ! 0" using ne by (simp add: hd_conv_nth)
  have sp: "w \<le> 0" "- 1 \<le> w"
    "\<And>i j. i \<le> j \<Longrightarrow> j < length ?W \<Longrightarrow> w \<le> drawdown (?W ! i) (?W ! j)"
    "w = 0 \<or> (\<exists>j < length ?W. w = drawdown (?W ! 0) (?W ! j)) \<or>
       (\<exists>i j. i \<le> j \<and> j < length ?W \<and> w = drawdown (?W ! i) (?W ! j))"
    using drawdown_loop_spec[OF t assms(1), of 0] unfolding w_def h by auto
  have pct: "dec28 (drawdown q p * 100) = pct_change q p" for q p
    by (simp add: drawdown_def pct_change_def)
  have "few_digits 10 28 (- 1000026) (of_int (- 100))" "few_digits 10 28 (- 1000026) (of_int 0)"
    by (rule few_digits_int; simp)+
  then have "- 100 \<le> dec28 (w * 100) \<and> dec28 (w * 100) \<le> 0"
    using decimal.rnd_in_range[of "of_int (- 100)" "of_int 0" "w * 100"] sp(1,2) by simp
  moreover have "dec28 (w * 100) \<le> pct_change (?W ! i) (?W ! j)" if "i \<le> j" "j < length ?W" for i j
    unfolding pct[symmetric] by (rule decimal.rnd_mono) (use sp(3)[OF that] in simp)
  moreover have "w = 0 \<or> (\<exists>i j. i \<le> j \<and> j < length ?W \<and> dec28 (w * 100) = pct_change (?W ! i) (?W ! j))"
    using sp(4) pct by (metis zero_le)
  moreover have "mv_value (compute_max_drawdown (usable_close_series bars)) = Some (dec28 (w * 100))"
    using max_drawdown_window[OF assms(2)] by (simp add: w_def)
  ultimately show ?thesis by blast
qed

theorem max_drawdown_is_worst_fall_witness:
  "\<exists>v. mv_value (compute_max_drawdown (usable_close_series [(1, Some 100), (3, Some 80), (2, Some 120), (4, None)])) = Some v \<and>
     v \<le> pct_change 120 80"
proof -
  let ?b = "[(1, Some 100), (3, Some 80), (2, Some 120), (4, None)] :: bar list"
  have w: "drawdown_window ?b = [100, 120, 80]"
    by (simp add: drawdown_window_def usable_close_series_def last_n_def DRAWDOWN_WINDOW_SESSIONS_def)
  have t: "tick (of_int k)" if "0 < k" "k < 10 ^ 10" for k
    unfolding tick_def by (rule exI[of _ "k * 10 ^ 4"]) (use that in simp)
  have ticks: "\<forall>p \<in> set (drawdown_window ?b). tick p"
    unfolding w using t[of 100] t[of 120] t[of 80] by simp
  have len: "2 \<le> length (drawdown_window ?b)" unfolding w by simp
  obtain v where v: "mv_value (compute_max_drawdown (usable_close_series ?b)) = Some v"
    "\<forall>i j. i \<le> j \<and> j < length (drawdown_window ?b) \<longrightarrow>
       v \<le> pct_change (drawdown_window ?b ! i) (drawdown_window ?b ! j)"
    using max_drawdown_is_worst_fall[OF ticks len] by blast
  from v(2)[rule_format, of 1 2] have "v \<le> pct_change 120 80" unfolding w by simp
  with v(1) show ?thesis by blast
qed

end
