(* ===== verification/EtfReadiness.thy ===== *)
theory EtfReadiness
  imports EtfEvidence EtfMetrics
begin

text \<open>
  ETF readiness of \<open>app/etf_readiness.py\<close>: the locked requirement contract, the check of every
  requirement against the persisted evidence of one instrument, the consistency of the selected
  price and volume, and the summary that decides whether the ETF may be analysed.

  A pair with a BSE side always fails, because the live source contract is not configured
  (\<open>LIVE_SOURCE_CONTRACT = None\<close>); which of the reasons of the BSE contract is reported is a parameter.
\<close>

section \<open>Statuses\<close>

datatype readiness_status =
    READY_FRESH | READY_STALE | R_MISSING | R_TECHNICAL_FAILURE | R_GENUINELY_UNAVAILABLE | R_NOT_APPLICABLE
  | R_NOT_IMPLEMENTED | R_UNKNOWN_AS_OF

datatype role = MANDATORY | SUPPORTING | CONTEXTUAL

datatype requirement =
    Metric etf_metric | CONCENTRATION | INDEX_CONSTITUENTS | HISTORICAL_RETURNS | VOLATILITY | DRAWDOWN
  | INDEX_VALUATION | INDEX_MOMENTUM | CURRENT_NEWS

record requirement_status =
  rq_requirement :: requirement
  rq_role :: role
  rq_status :: readiness_status
  rq_provider :: "string option"
  rq_as_of_date :: "int option"
  rq_freshness :: freshness
  rq_reason :: "string option"

definition is_ready :: "requirement_status \<Rightarrow> bool" where
  "is_ready s \<longleftrightarrow> rq_status s \<in> {READY_FRESH, READY_STALE, R_UNKNOWN_AS_OF}"

record readiness_summary =
  mandatory_total :: nat
  mandatory_ready :: nat
  mandatory_missing :: nat
  mandatory_stale :: nat
  mandatory_technical_failure :: nat
  supporting_total :: nat
  supporting_ready :: nat
  supporting_missing :: nat
  supporting_stale :: nat
  supporting_technical_failure :: nat
  contextual_total :: nat
  contextual_ready :: nat
  contextual_failure :: nat
  ready_for_analysis :: bool

definition ETC3_MANDATORY :: "requirement list" where
  "ETC3_MANDATORY = [Metric IDENTITY, Metric MARKET_PRICE, Metric TRADING_VOLUME]"

definition ETC3_SUPPORTING :: "requirement list" where
  "ETC3_SUPPORTING =
    [Metric NAV, Metric AUM, Metric EXPENSE_RATIO, Metric BENCHMARK_INDEX, Metric AMC_FUND_HOUSE,
     Metric BID_ASK_SPREAD, Metric TRACKING_ERROR, Metric TRACKING_DIFFERENCE, Metric FUND_INCEPTION_DATE,
     Metric REPLICATION_METHOD, Metric UNDERLYING_HOLDINGS, CONCENTRATION, INDEX_CONSTITUENTS,
     HISTORICAL_RETURNS, VOLATILITY, DRAWDOWN, INDEX_VALUATION, INDEX_MOMENTUM]"

definition ETC3_CONTEXTUAL :: "requirement list" where "ETC3_CONTEXTUAL = [CURRENT_NEWS]"

text \<open>What the store returns for the instrument; listings are those of every instrument.\<close>

record 'v etf_store =
  so_instrument :: nat
  so_attempts :: "attempt list"
  so_listings :: "listing list"
  so_facts :: "etf_metric \<Rightarrow> 'v etf_fact list"
  so_navs :: "nav_observation list"
  so_holdings :: "holdings_snapshot list"
  so_bars :: "bar list"

text \<open>A status without evidence, and one whose state follows the freshness of the evidence.\<close>

definition absent :: "requirement \<Rightarrow> role \<Rightarrow> readiness_status \<Rightarrow> string option \<Rightarrow> requirement_status" where
  "absent r ro st reason = \<lparr>rq_requirement = r, rq_role = ro, rq_status = st, rq_provider = None,
     rq_as_of_date = None, rq_freshness = F_UNKNOWN, rq_reason = reason\<rparr>"

definition fresh_status :: "freshness \<Rightarrow> readiness_status" where
  "fresh_status f = (if f = F_FRESH then READY_FRESH else if f = F_STALE then READY_STALE else R_MISSING)"

definition observed :: "requirement \<Rightarrow> role \<Rightarrow> string \<Rightarrow> int option \<Rightarrow> freshness \<Rightarrow> requirement_status" where
  "observed r ro provider as_of f = \<lparr>rq_requirement = r, rq_role = ro, rq_status = fresh_status f,
     rq_provider = Some provider, rq_as_of_date = as_of, rq_freshness = f, rq_reason = None\<rparr>"

section \<open>Mandatory requirements\<close>

definition starts_with :: "string \<Rightarrow> string \<Rightarrow> bool" where
  "starts_with s p \<longleftrightarrow> take (length p) s = p"

text \<open>\<open>max(xs, key=key)\<close>: the first greatest element of a non-empty list.\<close>

fun max_by :: "('a \<Rightarrow> 'k::linorder) \<Rightarrow> 'a \<Rightarrow> 'a list \<Rightarrow> 'a" where
  "max_by key best [] = best"
| "max_by key best (x # xs) = max_by key (if key best < key x then x else best) xs"

definition observed_at :: "listing \<Rightarrow> stamp" where
  "observed_at l = (case pv_published_at (li_provenance l) of Some t \<Rightarrow> t | None \<Rightarrow> pv_retrieved_at (li_provenance l))"

definition listing_canonical :: "listing \<Rightarrow> bool" where
  "listing_canonical l \<longleftrightarrow> li_symbol l = strip (li_symbol l) \<and> pv_provider (li_provenance l) = ''NSE'' \<and>
     pv_authority (li_provenance l) = OFFICIAL_EXCHANGE \<and> pv_source_mode_real (li_provenance l)"

definition metadata_conflict :: "attempt list \<Rightarrow> bool" where
  "metadata_conflict ats =
     (let checks = filter (\<lambda>a. at_metric a = ''IDENTITY'' \<and> at_provider a = ''NSE'') ats;
          conflicts = map (st_utc \<circ> at_attempted_at)
            (filter (\<lambda>a. starts_with (at_reason a) ''NSE_METADATA_IDENTITY_CONFLICT'') checks);
          verified = map (st_utc \<circ> at_attempted_at)
            (filter (\<lambda>a. at_reason a = ''NSE_METADATA_IDENTITY_VERIFIED'' \<and> at_outcome a = SUCCESS_WITH_DATA) checks)
      in conflicts \<noteq> [] \<and> (verified = [] \<or> Max (set verified) \<le> Max (set conflicts)))"

definition own_listings :: "'v etf_store \<Rightarrow> listing list" where
  "own_listings st = filter (\<lambda>l. li_instrument l = Some (so_instrument st)) (so_listings st)"

definition check_identity_ready :: "'v etf_store \<Rightarrow> int \<Rightarrow> requirement_status" where
  "check_identity_ready st today =
     (if metadata_conflict (so_attempts st)
      then absent (Metric IDENTITY) MANDATORY R_TECHNICAL_FAILURE (Some ''NSE_METADATA_IDENTITY_CONFLICT'')
      else case own_listings st of
        [] \<Rightarrow> (case find (\<lambda>a. at_metric a = ''IDENTITY'' \<and> at_outcome a = TECHNICAL_FAILURE) (so_attempts st) of
                 Some a \<Rightarrow> absent (Metric IDENTITY) MANDATORY R_TECHNICAL_FAILURE (Some (at_reason a))
               | None \<Rightarrow> absent (Metric IDENTITY) MANDATORY R_MISSING (Some ''NO_INSTRUMENT_SCOPED_LISTING''))
      | l # ls \<Rightarrow>
          if \<not> list_all listing_valid (l # ls) \<or> \<not> list_all listing_canonical (l # ls) \<or>
             length (remdups (map (\<lambda>x. (li_isin x, li_symbol x)) (l # ls))) \<noteq> 1
          then absent (Metric IDENTITY) MANDATORY R_TECHNICAL_FAILURE (Some ''ETF_LISTING_IDENTITY_CONFLICT'')
          else (let best = max_by (\<lambda>x. (st_utc (observed_at x), st_utc (pv_retrieved_at (li_provenance x)))) l ls;
                    f = etf_freshness (Some (Some (stamp_date (observed_at best)))) IDENTITY today
                in (observed (Metric IDENTITY) MANDATORY (pv_provider (li_provenance best)) None f)
                     \<lparr>rq_reason := Some (if pv_published_at (li_provenance best) = None
                        then ''LISTING_OBSERVATION_DATE'' else ''LISTING_PUBLICATION_DATE'')\<rparr>))"

text \<open>The metric name of an attempt is compared with the name of the requirement.\<close>

definition missing_market_evidence :: "attempt list \<Rightarrow> etf_metric \<Rightarrow> string \<Rightarrow> requirement_status" where
  "missing_market_evidence ats metric name =
     (let own = filter (\<lambda>a. at_metric a = name) ats;
          latest = Max (set (map (st_utc \<circ> at_attempted_at) own));
          failures = filter (\<lambda>a. st_utc (at_attempted_at a) = latest \<and> at_outcome a = TECHNICAL_FAILURE) own
      in if failures = [] then absent (Metric metric) MANDATORY R_MISSING None
         else absent (Metric metric) MANDATORY R_TECHNICAL_FAILURE (Some (at_reason (hd failures))))"

definition check_market_ready :: "'v etf_store \<Rightarrow> etf_metric \<Rightarrow> string \<Rightarrow> int \<Rightarrow> requirement_status" where
  "check_market_ready st metric name today =
     (case so_facts st metric of
        [] \<Rightarrow> missing_market_evidence (so_attempts st) metric name
      | f # _ \<Rightarrow> observed (Metric metric) MANDATORY (pv_provider (ef_provenance f)) (ef_as_of_date f)
                  (etf_freshness (Some (ef_as_of_date f)) metric today))"

definition check_market_price_ready :: "'v etf_store \<Rightarrow> int \<Rightarrow> requirement_status" where
  "check_market_price_ready st today = check_market_ready st MARKET_PRICE ''MARKET_PRICE'' today"

definition check_trading_volume_ready :: "'v etf_store \<Rightarrow> int \<Rightarrow> requirement_status" where
  "check_trading_volume_ready st today = check_market_ready st TRADING_VOLUME ''TRADING_VOLUME'' today"

section \<open>The selected price and volume must describe one observation\<close>

fun is_jobj :: "json \<Rightarrow> bool" where
  "is_jobj (JObj kvs) = True"
| "is_jobj _ = False"

fun json_text :: "json \<Rightarrow> string" where
  "json_text (JStr s) = s"
| "json_text _ = []"

definition is_bse :: "provenance \<Rightarrow> bool" where
  "is_bse p \<longleftrightarrow> upper (strip (pv_provider p)) = ''BSE'' \<or> starts_with (upper (pv_source_type p)) ''BSE_'' \<or>
     upper (strip (json_text (jget (pv_source_metadata p) ''exchange''))) \<in> {''BSE'', ''XBOM''}"

definition nse_pair_failure ::
    "nat \<Rightarrow> requirement_status \<Rightarrow> requirement_status \<Rightarrow> 'v etf_fact \<Rightarrow> 'v etf_fact \<Rightarrow> string option" where
  "nse_pair_failure iid price_status volume_status price volume =
     (let p = ef_provenance price; v = ef_provenance volume;
          differ = (\<lambda>key. jget (pv_source_metadata p) key \<noteq> jget (pv_source_metadata v) key);
          session = (\<lambda>x. jget (pv_source_metadata x) ''session'');
          rec = (\<lambda>x. jget (pv_source_metadata x) ''record'')
      in if rq_status price_status \<noteq> READY_FRESH \<or> rq_status volume_status \<noteq> READY_FRESH then None
         else if pv_provider p \<noteq> pv_provider v then Some ''ETF_MARKET_PAIR_PROVIDER_MISMATCH''
         else if ef_instrument price \<noteq> ef_instrument volume \<or> ef_instrument price \<noteq> iid
           then Some ''ETF_MARKET_PAIR_SECURITY_MISMATCH''
         else if ef_as_of_date price \<noteq> ef_as_of_date volume then Some ''ETF_MARKET_PAIR_SESSION_MISMATCH''
         else if list_ex differ [''exchange'', ''session_date'', ''session_timestamp'']
           then Some ''ETF_MARKET_PAIR_SESSION_MISMATCH''
         else if is_jobj (session p) \<and> is_jobj (session v) \<and> jget (session p) ''timestamp'' \<noteq> jget (session v) ''timestamp''
           then Some ''ETF_MARKET_PAIR_SESSION_MISMATCH''
         else if is_jobj (rec p) \<and> is_jobj (rec v) \<and>
             list_ex (\<lambda>key. jget (rec p) key \<noteq> jget (rec v) key) [''symbol'', ''identifier'', ''series'']
           then Some ''ETF_MARKET_PAIR_SECURITY_MISMATCH''
         else None)"

text \<open>
  \<open>bse_reason\<close> is the reason of the BSE contract for a complete pair.  With a missing side the NSE
  branch returns before it looks at the pair, because that side is not READY_FRESH.
\<close>

definition market_pair_failure ::
    "('v etf_fact \<Rightarrow> 'v etf_fact \<Rightarrow> string) \<Rightarrow> nat \<Rightarrow> requirement_status \<Rightarrow> requirement_status \<Rightarrow>
     'v etf_fact list \<Rightarrow> 'v etf_fact list \<Rightarrow> string option" where
  "market_pair_failure bse_reason iid price_status volume_status prices volumes =
     (case (prices, volumes) of
        (p # _, v # _) \<Rightarrow>
          if is_bse (ef_provenance p) \<or> is_bse (ef_provenance v) then Some (bse_reason p v)
          else nse_pair_failure iid price_status volume_status p v
      | (p # _, []) \<Rightarrow> if is_bse (ef_provenance p) then Some ''BSE_MARKET_PAIR_INCOMPLETE'' else None
      | ([], v # _) \<Rightarrow> if is_bse (ef_provenance v) then Some ''BSE_MARKET_PAIR_INCOMPLETE'' else None
      | ([], []) \<Rightarrow> None)"

section \<open>Supporting and contextual requirements\<close>

definition check_supporting_ready :: "'v etf_store \<Rightarrow> etf_metric \<Rightarrow> int \<Rightarrow> requirement_status" where
  "check_supporting_ready st metric today =
     (case so_facts st metric of
        [] \<Rightarrow> absent (Metric metric) SUPPORTING R_MISSING None
      | f # _ \<Rightarrow> observed (Metric metric) SUPPORTING (pv_provider (ef_provenance f)) (ef_as_of_date f)
                  (etf_freshness (Some (ef_as_of_date f)) metric today))"

definition check_nav_ready :: "'v etf_store \<Rightarrow> int \<Rightarrow> requirement_status" where
  "check_nav_ready st today =
     (case so_navs st of
        [] \<Rightarrow> absent (Metric NAV) SUPPORTING R_MISSING None
      | n # _ \<Rightarrow> observed (Metric NAV) SUPPORTING (pv_provider (na_provenance n)) (Some (na_date n))
                  (etf_freshness (Some (Some (na_date n))) NAV today))"

definition DERIVED_METRIC_MAX_AGE_DAYS :: int where "DERIVED_METRIC_MAX_AGE_DAYS = 5"

text \<open>
  A computed value carries its date; every metric without a value has the reason
  INSUFFICIENT_PRICE_HISTORY.
\<close>

definition derived_metric_status :: "requirement \<Rightarrow> metric_value option \<Rightarrow> int \<Rightarrow> requirement_status" where
  "derived_metric_status r mv today =
     (let missing = absent r SUPPORTING R_MISSING (Some ''INSUFFICIENT_PRICE_HISTORY'')
      in case mv of
           None \<Rightarrow> missing
         | Some v \<Rightarrow>
             (if mv_insufficient_history v \<or> mv_value v = None then missing
              else case mv_as_of_date v of
                     None \<Rightarrow> missing
                   | Some d \<Rightarrow>
                       (let age_days = today - d;
                            (status, f) = (if age_days < 0 then (R_TECHNICAL_FAILURE, F_FUTURE_DATED)
                              else if age_days \<le> DERIVED_METRIC_MAX_AGE_DAYS then (READY_FRESH, F_FRESH)
                              else (READY_STALE, F_STALE))
                        in \<lparr>rq_requirement = r, rq_role = SUPPORTING, rq_status = status,
                            rq_provider = Some ''DAILY_MARKET_BARS'', rq_as_of_date = Some d, rq_freshness = f,
                            rq_reason = None\<rparr>)))"

definition check_derived :: "'v etf_store \<Rightarrow> requirement \<Rightarrow> metric_id \<Rightarrow> int \<Rightarrow> requirement_status" where
  "check_derived st r m today =
     derived_metric_status r (get_metric (compute_etf_deterministic_metrics (so_bars st)) m) today"

text \<open>The status of a holdings snapshot for a requirement, once it is known to be usable.\<close>

definition snapshot_status :: "requirement \<Rightarrow> holdings_snapshot \<Rightarrow> int \<Rightarrow> requirement_status" where
  "snapshot_status r s today =
     (let f = etf_freshness (Some (Some (hs_as_of_date s))) UNDERLYING_HOLDINGS today
      in if f = F_FUTURE_DATED
         then \<lparr>rq_requirement = r, rq_role = SUPPORTING, rq_status = R_TECHNICAL_FAILURE, rq_provider = None,
               rq_as_of_date = Some (hs_as_of_date s), rq_freshness = f,
               rq_reason = Some ''FUTURE_DATED_HOLDINGS_SNAPSHOT''\<rparr>
         else observed r SUPPORTING (pv_provider (hs_provenance s)) (Some (hs_as_of_date s)) f)"

definition check_holdings_ready :: "'v etf_store \<Rightarrow> int \<Rightarrow> requirement_status" where
  "check_holdings_ready st today =
     (case so_holdings st of
        [] \<Rightarrow> absent (Metric UNDERLYING_HOLDINGS) SUPPORTING R_MISSING None
      | s # _ \<Rightarrow>
          if hs_holdings s = []
          then absent (Metric UNDERLYING_HOLDINGS) SUPPORTING R_MISSING (Some ''EMPTY_HOLDINGS_SNAPSHOT'')
          else snapshot_status (Metric UNDERLYING_HOLDINGS) s today)"

definition check_concentration_ready :: "'v etf_store \<Rightarrow> int \<Rightarrow> requirement_status" where
  "check_concentration_ready st today =
     (case so_holdings st of
        [] \<Rightarrow> absent CONCENTRATION SUPPORTING R_MISSING None
      | s # _ \<Rightarrow>
          if \<not> list_ex (\<lambda>h. ho_weight h \<noteq> None) (hs_holdings s)
          then absent CONCENTRATION SUPPORTING R_MISSING (Some ''HOLDINGS_LACK_WEIGHTS'')
          else snapshot_status CONCENTRATION s today)"

definition check_contextual_ready :: "'v etf_store \<Rightarrow> requirement_status" where
  "check_contextual_ready st =
     (case find (\<lambda>a. at_metric a = ''CURRENT_NEWS'' \<and> at_outcome a = TECHNICAL_FAILURE) (so_attempts st) of
        Some a \<Rightarrow> absent CURRENT_NEWS CONTEXTUAL R_TECHNICAL_FAILURE (Some (at_reason a))
      | None \<Rightarrow> absent CURRENT_NEWS CONTEXTUAL R_MISSING None)"

fun supporting_status :: "'v etf_store \<Rightarrow> int \<Rightarrow> requirement \<Rightarrow> requirement_status" where
  "supporting_status st today (Metric NAV) = check_nav_ready st today"
| "supporting_status st today (Metric UNDERLYING_HOLDINGS) = check_holdings_ready st today"
| "supporting_status st today (Metric m) = check_supporting_ready st m today"
| "supporting_status st today HISTORICAL_RETURNS = check_derived st HISTORICAL_RETURNS RETURN_1M today"
| "supporting_status st today VOLATILITY = check_derived st VOLATILITY ANNUALIZED_VOLATILITY today"
| "supporting_status st today DRAWDOWN = check_derived st DRAWDOWN MAX_DRAWDOWN today"
| "supporting_status st today INDEX_MOMENTUM = check_derived st INDEX_MOMENTUM MOMENTUM_50_200 today"
| "supporting_status st today CONCENTRATION = check_concentration_ready st today"
| "supporting_status st today r = absent r SUPPORTING R_NOT_IMPLEMENTED (Some ''NO_TRUSTED_DATA_SOURCE_DEFINED'')"

section \<open>Evaluation\<close>

text \<open>A failed pair makes both sides a technical failure.\<close>

definition fail_pair :: "string option \<Rightarrow> requirement_status \<Rightarrow> requirement_status" where
  "fail_pair failure s =
     (case failure of None \<Rightarrow> s
      | Some reason \<Rightarrow> s\<lparr>rq_status := R_TECHNICAL_FAILURE, rq_reason := Some reason\<rparr>)"

definition mandatory_statuses ::
    "('v etf_fact \<Rightarrow> 'v etf_fact \<Rightarrow> string) \<Rightarrow> 'v etf_store \<Rightarrow> int \<Rightarrow> requirement_status list" where
  "mandatory_statuses bse_reason st today =
     (let identity = check_identity_ready st today;
          price = check_market_price_ready st today;
          volume = check_trading_volume_ready st today;
          failure = market_pair_failure bse_reason (so_instrument st) price volume
            (so_facts st MARKET_PRICE) (so_facts st TRADING_VOLUME)
      in [identity, fail_pair failure price, fail_pair failure volume])"

text \<open>The supporting requirements are a set in the code; the order of their statuses is not fixed there.\<close>

definition readiness_statuses ::
    "('v etf_fact \<Rightarrow> 'v etf_fact \<Rightarrow> string) \<Rightarrow> 'v etf_store \<Rightarrow> int \<Rightarrow> requirement_status list" where
  "readiness_statuses bse_reason st today =
     mandatory_statuses bse_reason st today @ map (supporting_status st today) ETC3_SUPPORTING @
     [check_contextual_ready st]"

definition count_of :: "(requirement_status \<Rightarrow> bool) \<Rightarrow> requirement_status list \<Rightarrow> nat" where
  "count_of p ss = length (filter p ss)"

definition summarize :: "requirement_status list \<Rightarrow> readiness_summary" where
  "summarize ss =
     (let n = (\<lambda>ro p. count_of (\<lambda>s. rq_role s = ro \<and> p s) ss);
          has = (\<lambda>st s. rq_status s = st)
      in \<lparr>mandatory_total = n MANDATORY (\<lambda>_. True),
          mandatory_ready = n MANDATORY (has READY_FRESH),
          mandatory_missing = n MANDATORY (has R_MISSING),
          mandatory_stale = n MANDATORY (has READY_STALE),
          mandatory_technical_failure = n MANDATORY (has R_TECHNICAL_FAILURE),
          supporting_total = n SUPPORTING (\<lambda>_. True),
          supporting_ready = n SUPPORTING is_ready,
          supporting_missing = n SUPPORTING (has R_MISSING),
          supporting_stale = n SUPPORTING (has READY_STALE),
          supporting_technical_failure = n SUPPORTING (has R_TECHNICAL_FAILURE),
          contextual_total = n CONTEXTUAL (\<lambda>_. True),
          contextual_ready = n CONTEXTUAL is_ready,
          contextual_failure = n CONTEXTUAL (has R_TECHNICAL_FAILURE),
          ready_for_analysis = (n MANDATORY (has READY_FRESH) = n MANDATORY (\<lambda>_. True) \<and>
            n MANDATORY (has R_TECHNICAL_FAILURE) = 0)\<rparr>)"

definition evaluate_etf_readiness ::
    "('v etf_fact \<Rightarrow> 'v etf_fact \<Rightarrow> string) \<Rightarrow> 'v etf_store \<Rightarrow> int \<Rightarrow> requirement_status list \<times> readiness_summary" where
  "evaluate_etf_readiness bse_reason st today =
     (let statuses = readiness_statuses bse_reason st today in (statuses, summarize statuses))"

section \<open>Lemmas\<close>

lemma absent_sel [simp]:
  "rq_requirement (absent r ro st reason) = r" "rq_role (absent r ro st reason) = ro"
  "rq_status (absent r ro st reason) = st"
  by (simp_all add: absent_def)

lemma observed_sel [simp]:
  "rq_requirement (observed r ro p d f) = r" "rq_role (observed r ro p d f) = ro"
  "rq_status (observed r ro p d f) = fresh_status f"
  by (simp_all add: observed_def)

lemma fresh_status_ready [simp]: "fresh_status f = READY_FRESH \<longleftrightarrow> f = F_FRESH"
  by (simp add: fresh_status_def)

lemma fail_pair_sel [simp]:
  "rq_requirement (fail_pair f s) = rq_requirement s" "rq_role (fail_pair f s) = rq_role s"
  "rq_status (fail_pair f s) = (if f = None then rq_status s else R_TECHNICAL_FAILURE)"
  by (simp_all add: fail_pair_def split: option.splits)

lemma identity_sel [simp]:
  "rq_requirement (check_identity_ready st today) = Metric IDENTITY" "rq_role (check_identity_ready st today) = MANDATORY"
  by (simp_all add: check_identity_ready_def Let_def split: list.splits option.splits)

lemma market_sel [simp]:
  "rq_requirement (check_market_ready st m name today) = Metric m" "rq_role (check_market_ready st m name today) = MANDATORY"
  by (simp_all add: check_market_ready_def missing_market_evidence_def Let_def split: list.splits)

lemma derived_sel [simp]:
  "rq_requirement (derived_metric_status r mv today) = r" "rq_role (derived_metric_status r mv today) = SUPPORTING"
  by (simp_all add: derived_metric_status_def Let_def split: option.splits)

lemma snapshot_sel [simp]:
  "rq_requirement (snapshot_status r s today) = r" "rq_role (snapshot_status r s today) = SUPPORTING"
  by (simp_all add: snapshot_status_def Let_def)

lemmas readiness_checks = check_nav_ready_def check_holdings_ready_def check_supporting_ready_def
  check_derived_def check_concentration_ready_def

lemma supporting_sel [simp]:
  "rq_requirement (supporting_status st today r) = r" "rq_role (supporting_status st today r) = SUPPORTING"
  by (induction st today r rule: supporting_status.induct) (simp_all add: readiness_checks split: list.splits)

lemma contextual_sel [simp]:
  "rq_requirement (check_contextual_ready st) = CURRENT_NEWS" "rq_role (check_contextual_ready st) = CONTEXTUAL"
  by (simp_all add: check_contextual_ready_def split: option.splits)

lemma mandatory_sel:
  "map rq_requirement (mandatory_statuses b st today) = ETC3_MANDATORY"
  "map rq_role (mandatory_statuses b st today) = [MANDATORY, MANDATORY, MANDATORY]"
  by (simp_all add: mandatory_statuses_def Let_def check_market_price_ready_def check_trading_volume_ready_def
      ETC3_MANDATORY_def)

lemma mandatory_role: "s \<in> set (mandatory_statuses b st today) \<Longrightarrow> rq_role s = MANDATORY"
  using mandatory_sel(2)[of b st today] by (metis (no_types, lifting) empty_iff empty_set image_eqI image_set insertE list.simps(15))

text \<open>Only the mandatory statuses are counted for the mandatory role.\<close>

lemma count_mandatory:
  "count_of (\<lambda>s. rq_role s = MANDATORY \<and> p s) (readiness_statuses b st today) = count_of p (mandatory_statuses b st today)"
proof -
  have "filter (\<lambda>s. rq_role s = MANDATORY \<and> p s) (mandatory_statuses b st today) = filter p (mandatory_statuses b st today)"
    by (rule filter_cong) (simp_all add: mandatory_role)
  then show ?thesis by (simp add: count_of_def readiness_statuses_def filter_empty_conv)
qed

lemma length_mandatory [simp]: "length (mandatory_statuses b st today) = 3"
  by (simp add: mandatory_statuses_def Let_def)

lemma ready_iff_all_fresh:
  "ready_for_analysis (snd (evaluate_etf_readiness b st today)) \<longleftrightarrow>
    (\<forall>s \<in> set (mandatory_statuses b st today). rq_status s = READY_FRESH)"
proof -
  let ?m = "mandatory_statuses b st today"
  have "ready_for_analysis (snd (evaluate_etf_readiness b st today)) \<longleftrightarrow>
      count_of (\<lambda>s. rq_status s = READY_FRESH) ?m = count_of (\<lambda>_. True) ?m \<and>
      count_of (\<lambda>s. rq_status s = R_TECHNICAL_FAILURE) ?m = 0"
    using count_mandatory[of "\<lambda>_. True" b st today]
    by (simp add: evaluate_etf_readiness_def summarize_def Let_def count_mandatory)
  also have "\<dots> \<longleftrightarrow> filter (\<lambda>s. rq_status s = READY_FRESH) ?m = ?m \<and> filter (\<lambda>s. rq_status s = R_TECHNICAL_FAILURE) ?m = []"
    unfolding count_of_def by (simp only: filter_True length_0_conv Ball_def) (metis filter_id_conv length_filter_less less_irrefl)
  also have "\<dots> \<longleftrightarrow> (\<forall>s \<in> set ?m. rq_status s = READY_FRESH)"
    by (auto simp: filter_id_conv filter_empty_conv)
  finally show ?thesis .
qed

lemma observed_identity:
  assumes "rq_status (check_identity_ready st today) = READY_FRESH"
  shows "\<not> metadata_conflict (so_attempts st) \<and>
    (\<exists>l \<in> set (own_listings st). 0 \<le> today - stamp_date (observed_at l) \<and> today - stamp_date (observed_at l) \<le> 365) \<and>
    (\<forall>l \<in> set (own_listings st). listing_valid l \<and> listing_canonical l) \<and>
    (\<forall>l \<in> set (own_listings st). \<forall>m \<in> set (own_listings st). li_isin l = li_isin m \<and> li_symbol l = li_symbol m)"
proof (cases "own_listings st")
  case Nil
  then show ?thesis using assms by (auto simp: check_identity_ready_def split: if_splits option.splits)
next
  case (Cons l ls)
  define key where "key x = (st_utc (observed_at x), st_utc (pv_retrieved_at (li_provenance x)))" for x
  define best where "best = max_by key l ls"
  have member: "max_by k b xs \<in> insert b (set xs)" for k :: "listing \<Rightarrow> int \<times> int" and b xs
    by (induction xs arbitrary: b) auto
  define C where "C \<longleftrightarrow> \<not> list_all listing_valid (l # ls) \<or> \<not> list_all listing_canonical (l # ls) \<or>
    length (remdups (map (\<lambda>x. (li_isin x, li_symbol x)) (l # ls))) \<noteq> 1"
  have "\<not> metadata_conflict (so_attempts st)"
    using assms by (auto simp: check_identity_ready_def)
  moreover have c: "check_identity_ready st today =
      (if C then absent (Metric IDENTITY) MANDATORY R_TECHNICAL_FAILURE (Some ''ETF_LISTING_IDENTITY_CONFLICT'')
       else (observed (Metric IDENTITY) MANDATORY (pv_provider (li_provenance best)) None
              (etf_freshness (Some (Some (stamp_date (observed_at best)))) IDENTITY today))
            \<lparr>rq_reason := Some (if pv_published_at (li_provenance best) = None
               then ''LISTING_OBSERVATION_DATE'' else ''LISTING_PUBLICATION_DATE'')\<rparr>)"
    unfolding check_identity_ready_def Cons C_def best_def key_def Let_def list.case using calculation by presburger
  moreover have "\<not> C" using assms unfolding c by (auto split: if_splits)
  moreover from this have "etf_freshness (Some (Some (stamp_date (observed_at best)))) IDENTITY today = F_FRESH"
    using assms unfolding c by simp
  ultimately have ok: "\<not> metadata_conflict (so_attempts st)" "list_all listing_valid (l # ls)" "list_all listing_canonical (l # ls)"
      "length (remdups (map (\<lambda>x. (li_isin x, li_symbol x)) (l # ls))) = 1"
      "etf_freshness (Some (Some (stamp_date (observed_at best)))) IDENTITY today = F_FRESH"
    unfolding C_def by blast+
  from ok(4) have "card (set (map (\<lambda>x. (li_isin x, li_symbol x)) (l # ls))) = 1"
    by (simp only: length_remdups_card_conv)
  then obtain z where "set (map (\<lambda>x. (li_isin x, li_symbol x)) (l # ls)) = {z}" by (rule card_1_singletonE)
  then have "\<forall>x \<in> set (l # ls). (li_isin x, li_symbol x) = z" by auto
  then have same: "\<forall>x \<in> set (l # ls). \<forall>y \<in> set (l # ls). li_isin x = li_isin y \<and> li_symbol x = li_symbol y"
    by fastforce
  have "best \<in> set (l # ls)" using member[of key l ls] by (simp add: best_def)
  moreover have "0 \<le> today - stamp_date (observed_at best) \<and> today - stamp_date (observed_at best) \<le> 365"
    using ok(5) by (simp add: fresh_iff)
  ultimately have "\<exists>x \<in> set (l # ls). 0 \<le> today - stamp_date (observed_at x) \<and> today - stamp_date (observed_at x) \<le> 365"
    by blast
  then show ?thesis
    unfolding Cons using ok(1,2,3) same unfolding list_all_iff by blast
qed

lemma market_fresh:
  assumes "rq_status (check_market_ready st m name today) = READY_FRESH"
  obtains f fs d where "so_facts st m = f # fs" "ef_as_of_date f = Some d" "0 \<le> today - d" "today - d \<le> ETF_MAX_AGE m"
  using assms by (auto simp: check_market_ready_def missing_market_evidence_def Let_def split: list.splits if_splits elim!: freshE)

section \<open>Properties\<close>

text \<open>every requirement of the locked contract is reported exactly once, in its role, whatever the
  evidence: three mandatory, eighteen supporting and one contextual requirement.\<close>

theorem every_requirement_reported_once:
  "map rq_requirement (fst (evaluate_etf_readiness b st today)) = ETC3_MANDATORY @ ETC3_SUPPORTING @ ETC3_CONTEXTUAL \<and>
   map rq_role (fst (evaluate_etf_readiness b st today)) = replicate 3 MANDATORY @ replicate 18 SUPPORTING @ [CONTEXTUAL] \<and>
   distinct (ETC3_MANDATORY @ ETC3_SUPPORTING @ ETC3_CONTEXTUAL)"
proof -
  let ?m = "mandatory_statuses b st today"
  have l: "fst (evaluate_etf_readiness b st today) = ?m @ map (supporting_status st today) ETC3_SUPPORTING @ [check_contextual_ready st]"
    by (simp add: evaluate_etf_readiness_def readiness_statuses_def Let_def)
  have "map rq_requirement (map (supporting_status st today) ETC3_SUPPORTING) = ETC3_SUPPORTING"
    by (simp add: comp_def)
  moreover have "map rq_role (map (supporting_status st today) ETC3_SUPPORTING) = replicate 18 SUPPORTING"
    unfolding map_map comp_def supporting_sel(2) by (simp add: map_replicate_const ETC3_SUPPORTING_def numeral_eq_Suc)
  moreover have "distinct (ETC3_MANDATORY @ ETC3_SUPPORTING @ ETC3_CONTEXTUAL)"
    by (simp add: ETC3_MANDATORY_def ETC3_SUPPORTING_def ETC3_CONTEXTUAL_def)
  ultimately show ?thesis
    unfolding l map_append mandatory_sel by (simp add: ETC3_CONTEXTUAL_def numeral_eq_Suc)
qed

text \<open>C30: an ETF is only ready for analysis on one consistent observation: its identity is not in conflict
  and was observed within a year, and the selected price and volume are of this instrument, of one
  provider and one date, at most a day old and never dated in the future, and not from BSE.\<close>

theorem ready_evidence_is_consistent:
  assumes "ready_for_analysis (snd (evaluate_etf_readiness b st today))"
  shows "(\<exists>l \<in> set (own_listings st). 0 \<le> today - stamp_date (observed_at l) \<and> today - stamp_date (observed_at l) \<le> 365) \<and>
    (\<forall>l \<in> set (own_listings st). \<forall>m \<in> set (own_listings st). li_isin l = li_isin m) \<and>
    \<not> metadata_conflict (so_attempts st) \<and>
    (\<exists>p ps v vs d. so_facts st MARKET_PRICE = p # ps \<and> so_facts st TRADING_VOLUME = v # vs \<and>
       ef_instrument p = so_instrument st \<and> ef_instrument v = so_instrument st \<and>
       pv_provider (ef_provenance p) = pv_provider (ef_provenance v) \<and>
       ef_as_of_date p = Some d \<and> ef_as_of_date v = Some d \<and> (d = today \<or> d = today - 1) \<and>
       \<not> is_bse (ef_provenance p) \<and> \<not> is_bse (ef_provenance v))"
proof -
  define price where "price = check_market_price_ready st today"
  define volume where "volume = check_trading_volume_ready st today"
  define failure where "failure = market_pair_failure b (so_instrument st) price volume (so_facts st MARKET_PRICE) (so_facts st TRADING_VOLUME)"
  have m: "mandatory_statuses b st today = [check_identity_ready st today, fail_pair failure price, fail_pair failure volume]"
    by (simp add: mandatory_statuses_def Let_def price_def volume_def failure_def)
  from assms[unfolded ready_iff_all_fresh m]
  have st: "rq_status (check_identity_ready st today) = READY_FRESH" "failure = None"
      "rq_status price = READY_FRESH" "rq_status volume = READY_FRESH"
    by (auto split: if_splits)
  obtain p ps d where p: "so_facts st MARKET_PRICE = p # ps" "ef_as_of_date p = Some d" "0 \<le> today - d" "today - d \<le> 1"
    using market_fresh st(3) unfolding price_def check_market_price_ready_def by (metis ETF_MAX_AGE.simps(2))
  obtain v vs e where v: "so_facts st TRADING_VOLUME = v # vs" "ef_as_of_date v = Some e"
    using market_fresh st(4) unfolding volume_def check_trading_volume_ready_def by metis
  have pair: "\<not> is_bse (ef_provenance p) \<and> \<not> is_bse (ef_provenance v)"
      "nse_pair_failure (so_instrument st) price volume p v = None"
    using st(2) by (auto simp: failure_def market_pair_failure_def p(1) v(1) split: if_splits)
  have "pv_provider (ef_provenance p) = pv_provider (ef_provenance v)" "ef_instrument p = ef_instrument v"
      "ef_instrument p = so_instrument st" "ef_as_of_date p = ef_as_of_date v"
    using pair(2) st(3,4) by (auto simp: nse_pair_failure_def Let_def split: if_splits)
  moreover from this have "d = e" using p(2) v(2) by simp
  moreover have "d = today \<or> d = today - 1" using p(3,4) by linarith
  ultimately have "\<exists>p ps v vs d. so_facts st MARKET_PRICE = p # ps \<and> so_facts st TRADING_VOLUME = v # vs \<and>
       ef_instrument p = so_instrument st \<and> ef_instrument v = so_instrument st \<and>
       pv_provider (ef_provenance p) = pv_provider (ef_provenance v) \<and>
       ef_as_of_date p = Some d \<and> ef_as_of_date v = Some d \<and> (d = today \<or> d = today - 1) \<and>
       \<not> is_bse (ef_provenance p) \<and> \<not> is_bse (ef_provenance v)"
    using p(1,2) v pair(1) by metis
  then show ?thesis using observed_identity[OF st(1)] by blast
qed

text \<open>no supporting or contextual evidence blocks the analysis: two stores that agree on the identity
  evidence, the attempts, the prices and the volumes are equally ready.\<close>

theorem supporting_evidence_never_blocks:
  assumes "so_instrument st = so_instrument st'" and "so_attempts st = so_attempts st'"
    and "so_listings st = so_listings st'" and "so_facts st MARKET_PRICE = so_facts st' MARKET_PRICE"
    and "so_facts st TRADING_VOLUME = so_facts st' TRADING_VOLUME"
  shows "ready_for_analysis (snd (evaluate_etf_readiness b st today)) =
    ready_for_analysis (snd (evaluate_etf_readiness b st' today))"
proof -
  have "mandatory_statuses b st today = mandatory_statuses b st' today"
    unfolding mandatory_statuses_def check_identity_ready_def own_listings_def check_market_price_ready_def
      check_trading_volume_ready_def check_market_ready_def assms ..
  then show ?thesis unfolding ready_iff_all_fresh by simp
qed

definition sample_store :: "rat \<Rightarrow> rat etf_store" where
  "sample_store v =
     (let prov = (sample_provenance OFFICIAL_EXCHANGE)\<lparr>pv_provider := ''NSE'', pv_retrieved_at := \<lparr>st_utc = 99 * DAY, st_offset = 0\<rparr>\<rparr>;
          fact = (\<lambda>m. \<lparr>ef_instrument = 1, ef_metric = m, ef_value = v, ef_unit = Some ''INR'', ef_as_of_date = Some 100,
            ef_provenance = prov\<rparr>)
      in \<lparr>so_instrument = 1, so_attempts = [],
          so_listings = [\<lparr>li_exchange = ''NSE'', li_asset_type = ''ETF'', li_isin = ''INF204KB14I2'', li_symbol = ''NIFTYBEES'', li_name = ''Nifty BeES'',
            li_instrument = Some 1, li_provenance = prov\<rparr>],
          so_facts = (\<lambda>m. if m = MARKET_PRICE \<or> m = TRADING_VOLUME \<or> m = EXPENSE_RATIO then [fact m] else []),
          so_navs = [], so_holdings = [], so_bars = []\<rparr>)"

lemma sample_mandatory:
  "map rq_status (mandatory_statuses (\<lambda>_ _. []) (sample_store 50) 101) = [READY_FRESH, READY_FRESH, READY_FRESH]"
  by code_simp

lemma sample_ready: "ready_for_analysis (snd (evaluate_etf_readiness (\<lambda>_ _. []) (sample_store 50) 101))"
  unfolding ready_iff_all_fresh using sample_mandatory
  by (metis (no_types, lifting) empty_iff empty_set image_eqI image_set insertE list.simps(15))

lemma ready_evidence_is_consistent_witness:
  "\<exists>p ps d. so_facts (sample_store 50) MARKET_PRICE = p # ps \<and> ef_as_of_date p = Some d \<and> (d = 101 \<or> d = 100)"
  using ready_evidence_is_consistent[OF sample_ready] by fastforce

lemma supporting_evidence_never_blocks_witness:
  "ready_for_analysis (snd (evaluate_etf_readiness (\<lambda>_ _. []) ((sample_store 50)\<lparr>so_bars := [(1, Some 5)], so_navs := []\<rparr>) 101))"
  using supporting_evidence_never_blocks[of "(sample_store 50)\<lparr>so_bars := [(1, Some 5)], so_navs := []\<rparr>" "sample_store 50"
      "\<lambda>_ _. []" 101] sample_ready by simp

end
