(* ===== verification/EtfRules.thy ===== *)
theory EtfRules
  imports PyFloat EtfReadiness
begin

text \<open>
  \<open>ETF_RULE_ENGINE_V1\<close> of \<open>app/etf_rule_engine.py\<close>: the eight weighted factors over fresh evidence, the
  overall score, the risk gates and the recommendation.  Scores are binary64 floats, evidence values
  decimals.  The display text \<open>raw_metric\<close> of a factor and the explanation of a gate are left out.
\<close>

section \<open>Data\<close>

datatype rule_factor =
    PERFORMANCE_MOMENTUM | RISK_DRAWDOWN_VOLATILITY | LIQUIDITY | TRACKING_QUALITY | COST | NAV_PREMIUM_DISCOUNT
  | DIVERSIFICATION | DATA_COMPLETENESS

fun factor_weight :: "rule_factor \<Rightarrow> int" where
  "factor_weight PERFORMANCE_MOMENTUM = 25"
| "factor_weight RISK_DRAWDOWN_VOLATILITY = 20"
| "factor_weight LIQUIDITY = 15"
| "factor_weight TRACKING_QUALITY = 15"
| "factor_weight COST = 10"
| "factor_weight NAV_PREMIUM_DISCOUNT = 5"
| "factor_weight DIVERSIFICATION = 5"
| "factor_weight DATA_COMPLETENESS = 5"

datatype factor_status = SCORED | UNAVAILABLE

datatype gate_category = GATE_TECHNICAL_FAILURE | GATE_INSUFFICIENT_DATA | POOR_CHARACTERISTICS
datatype gate_severity = BLOCKING | WARNING

datatype gate_id =
    MANDATORY_DATA_TECHNICAL_FAILURE | MANDATORY_DATA_MISSING_OR_STALE | INSUFFICIENT_PRICE_HISTORY
  | EXTREME_ILLIQUIDITY | EXCESSIVE_DRAWDOWN | ABNORMAL_NAV_PREMIUM_DISCOUNT | VERY_LOW_AUM
  | POOR_TRACKING_QUALITY | INSUFFICIENT_COMPLETENESS

datatype recommendation = STRONG_OPPORTUNITY | OPPORTUNITY | WATCH | AVOID | INSUFFICIENT_DATA

datatype confidence_level = HIGH | MEDIUM | LOW

record factor_result =
  fr_factor :: rule_factor
  fr_weight :: int
  fr_status :: factor_status
  fr_score :: "rat option"
  fr_contribution :: "rat option"
  fr_freshness :: "int option"
  fr_provenance :: "string option"
  fr_confidence :: "rat option"
  fr_reason :: "string option"

record risk_gate =
  rg_id :: gate_id
  rg_category :: gate_category
  rg_severity :: gate_severity
  rg_triggered :: bool

record engine_result =
  er_factors :: "factor_result list"
  er_overall :: "rat option"
  er_completeness :: rat
  er_confidence :: confidence_level

type_synonym dec_fact = "rat etf_fact"

record engine_input =
  ei_summary :: readiness_summary
  ei_metrics :: metrics
  ei_nav :: "nav_observation option"
  ei_market_price :: "dec_fact option"
  ei_trading_volume :: "dec_fact option"
  ei_bid_ask_spread :: "dec_fact option"
  ei_tracking_error :: "dec_fact option"
  ei_tracking_difference :: "dec_fact option"
  ei_expense_ratio :: "dec_fact option"
  ei_aum :: "dec_fact option"
  ei_holdings :: "holdings_snapshot option"
  ei_today :: int

section \<open>Factors\<close>

definition contribution :: "rat \<Rightarrow> int \<Rightarrow> rat" where
  "contribution score weight = fl64 (fl64 (score * of_int weight) / 100)"

definition unavailable :: "rule_factor \<Rightarrow> string option \<Rightarrow> string \<Rightarrow> factor_result" where
  "unavailable f prov reason = \<lparr>fr_factor = f, fr_weight = factor_weight f, fr_status = UNAVAILABLE, fr_score = None,
     fr_contribution = None, fr_freshness = None, fr_provenance = prov, fr_confidence = None,
     fr_reason = Some reason\<rparr>"

definition scored :: "rule_factor \<Rightarrow> rat \<Rightarrow> int option \<Rightarrow> string \<Rightarrow> rat \<Rightarrow> factor_result" where
  "scored f score fresh prov conf = \<lparr>fr_factor = f, fr_weight = factor_weight f, fr_status = SCORED,
     fr_score = Some score, fr_contribution = Some (contribution score (factor_weight f)), fr_freshness = fresh,
     fr_provenance = Some prov, fr_confidence = Some conf, fr_reason = None\<rparr>"

text \<open>\<open>sum(scores) / len(scores)\<close>.\<close>

definition mean :: "rat list \<Rightarrow> rat" where
  "mean xs = fl64 (py_sum xs / of_nat (length xs))"

text \<open>The value of a metric with enough history, as a float; a computed metric always has a value.\<close>

definition usable_metric :: "metrics \<Rightarrow> metric_id \<Rightarrow> rat option" where
  "usable_metric ms m =
     (case get_metric ms m of
        None \<Rightarrow> None
      | Some v \<Rightarrow> if mv_insufficient_history v then None else map_option fl64 (mv_value v))"

definition option_list :: "'a option \<Rightarrow> 'a list" where
  "option_list x = (case x of None \<Rightarrow> [] | Some y \<Rightarrow> [y])"

definition return_points :: "(rat \<times> rat) list" where "return_points = [(- 50, 0), (0, 50), (25, 100)]"
definition momentum_points :: "(rat \<times> rat) list" where "momentum_points = [(- 20, 0), (0, 50), (20, 100)]"
definition drawdown_points :: "(rat \<times> rat) list" where "drawdown_points = [(- 60, 0), (- 10, 70), (0, 100)]"
definition volatility_points :: "(rat \<times> rat) list" where "volatility_points = [(0, 100), (25, 60), (60, 0)]"
definition volume_points :: "(rat \<times> rat) list" where "volume_points = [(0, 0), (10000, 60), (500000, 100)]"
definition spread_points :: "(rat \<times> rat) list" where "spread_points = [(0, 100), (1, 60), (5, 0)]"
definition tracking_points :: "(rat \<times> rat) list" where "tracking_points = [(0, 100), (1, 60), (3, 0)]"
definition cost_points :: "(rat \<times> rat) list" where "cost_points = [(0, 100), (1 / 2, 70), (3 / 2, 20), (3, 0)]"
definition premium_points :: "(rat \<times> rat) list" where "premium_points = [(0, 100), (1, 70), (5, 0)]"
definition concentration_points :: "(rat \<times> rat) list" where
  "concentration_points = [(0, 100), (40, 70), (70, 30), (100, 0)]"

definition score_performance_momentum :: "metrics \<Rightarrow> factor_result" where
  "score_performance_momentum ms =
     (let available = List.map_filter (usable_metric ms) [RETURN_1M, RETURN_3M, RETURN_6M, RETURN_1Y];
          momentum = usable_metric ms MOMENTUM_50_200;
          sub_scores = map (\<lambda>v. piecewise v return_points) available @
            map (\<lambda>v. piecewise v momentum_points) (option_list momentum)
      in if sub_scores = [] then unavailable PERFORMANCE_MOMENTUM (Some ''DAILY_MARKET_BARS'') ''INSUFFICIENT_PRICE_HISTORY''
         else scored PERFORMANCE_MOMENTUM (mean sub_scores) (me_as_of_date ms) ''DAILY_MARKET_BARS''
                (min 1 (fl64 (of_nat (length sub_scores) / 5))))"

definition score_risk :: "metrics \<Rightarrow> factor_result" where
  "score_risk ms =
     (let components = map (\<lambda>v. piecewise v drawdown_points) (option_list (usable_metric ms MAX_DRAWDOWN)) @
            map (\<lambda>v. piecewise v volatility_points) (option_list (usable_metric ms ANNUALIZED_VOLATILITY))
      in if components = [] then unavailable RISK_DRAWDOWN_VOLATILITY (Some ''DAILY_MARKET_BARS'') ''INSUFFICIENT_PRICE_HISTORY''
         else scored RISK_DRAWDOWN_VOLATILITY (mean components) (me_as_of_date ms) ''DAILY_MARKET_BARS''
                (fl64 (of_nat (length components) / 2)))"

definition fresh_fact :: "dec_fact option \<Rightarrow> etf_metric \<Rightarrow> int \<Rightarrow> dec_fact option" where
  "fresh_fact ef metric today =
     (case ef of
        None \<Rightarrow> None
      | Some f \<Rightarrow> if etf_freshness (Some (ef_as_of_date f)) metric today = F_FRESH then Some f else None)"

definition float_value :: "dec_fact \<Rightarrow> rat" where "float_value f = fl64 (ef_value f)"
definition fact_provider :: "dec_fact \<Rightarrow> string" where "fact_provider f = pv_provider (ef_provenance f)"

text \<open>Two optional components; the first one present is the primary fact.\<close>

definition score_pair ::
    "rule_factor \<Rightarrow> string \<Rightarrow> (dec_fact \<Rightarrow> rat) \<Rightarrow> dec_fact option \<Rightarrow> (dec_fact \<Rightarrow> rat) \<Rightarrow> dec_fact option \<Rightarrow> factor_result" where
  "score_pair factor reason f x g y =
     (let components = map f (option_list x) @ map g (option_list y)
      in case (case x of Some p \<Rightarrow> Some p | None \<Rightarrow> y) of
           None \<Rightarrow> unavailable factor None reason
         | Some primary \<Rightarrow> scored factor (mean components) (ef_as_of_date primary) (fact_provider primary)
                            (fl64 (of_nat (length components) / 2)))"

definition score_liquidity :: "engine_input \<Rightarrow> factor_result" where
  "score_liquidity d =
     score_pair LIQUIDITY ''NO_FRESH_LIQUIDITY_EVIDENCE''
       (\<lambda>f. piecewise (float_value f) volume_points) (fresh_fact (ei_trading_volume d) TRADING_VOLUME (ei_today d))
       (\<lambda>f. piecewise (float_value f) spread_points) (fresh_fact (ei_bid_ask_spread d) BID_ASK_SPREAD (ei_today d))"

definition score_tracking_quality :: "engine_input \<Rightarrow> factor_result" where
  "score_tracking_quality d =
     score_pair TRACKING_QUALITY ''NO_FRESH_TRACKING_EVIDENCE''
       (\<lambda>f. piecewise (float_value f) tracking_points) (fresh_fact (ei_tracking_error d) TRACKING_ERROR (ei_today d))
       (\<lambda>f. piecewise \<bar>float_value f\<bar> tracking_points)
       (fresh_fact (ei_tracking_difference d) TRACKING_DIFFERENCE (ei_today d))"

definition score_cost :: "engine_input \<Rightarrow> factor_result" where
  "score_cost d =
     (case fresh_fact (ei_expense_ratio d) EXPENSE_RATIO (ei_today d) of
        None \<Rightarrow> unavailable COST None ''NO_FRESH_EXPENSE_RATIO_EVIDENCE''
      | Some f \<Rightarrow> scored COST (piecewise (float_value f) cost_points) (ef_as_of_date f) (fact_provider f) 1)"

definition fresh_nav :: "engine_input \<Rightarrow> nav_observation option" where
  "fresh_nav d =
     (case ei_nav d of
        None \<Rightarrow> None
      | Some n \<Rightarrow> if etf_freshness (Some (Some (na_date n))) NAV (ei_today d) = F_FRESH then Some n else None)"

definition fresh_price :: "engine_input \<Rightarrow> dec_fact option" where
  "fresh_price d = fresh_fact (ei_market_price d) MARKET_PRICE (ei_today d)"

text \<open>\<open>float((price.value - nav.nav) / nav.nav * 100)\<close>: Decimal arithmetic, then a float.\<close>

definition premium_pct :: "rat \<Rightarrow> rat \<Rightarrow> rat" where
  "premium_pct nav price = fl64 (pct_change nav price)"

definition score_nav_premium_discount :: "engine_input \<Rightarrow> factor_result" where
  "score_nav_premium_discount d =
     (let no = unavailable NAV_PREMIUM_DISCOUNT None
      in case fresh_nav d of
           None \<Rightarrow> no ''NO_FRESH_NAV_EVIDENCE''
         | Some n \<Rightarrow>
             (case fresh_price d of
                None \<Rightarrow> no ''NO_FRESH_MARKET_PRICE_EVIDENCE''
              | Some p \<Rightarrow>
                  if na_nav n = 0 then no ''NAV_VALUE_ZERO''
                  else if Some (na_date n) \<noteq> ef_as_of_date p then no ''NAV_AND_MARKET_PRICE_AS_OF_DATE_MISMATCH''
                  else if Some (na_currency n) \<noteq> ef_unit p then no ''NAV_AND_MARKET_PRICE_CURRENCY_MISMATCH''
                  else scored NAV_PREMIUM_DISCOUNT (piecewise \<bar>premium_pct (na_nav n) (ef_value p)\<bar> premium_points)
                         (ef_as_of_date p) (fact_provider p) 1))"

definition fresh_holdings :: "engine_input \<Rightarrow> holdings_snapshot option" where
  "fresh_holdings d =
     (case ei_holdings d of
        None \<Rightarrow> None
      | Some s \<Rightarrow> if hs_holdings s = [] \<or>
            etf_freshness (Some (Some (hs_as_of_date s))) UNDERLYING_HOLDINGS (ei_today d) \<noteq> F_FRESH
          then None else Some s)"

definition score_diversification :: "engine_input \<Rightarrow> factor_result" where
  "score_diversification d =
     (case fresh_holdings d of
        None \<Rightarrow> unavailable DIVERSIFICATION None ''NO_HOLDINGS_SNAPSHOT''
      | Some s \<Rightarrow>
          (case List.map_filter ho_weight (hs_holdings s) of
             [] \<Rightarrow> unavailable DIVERSIFICATION None ''HOLDINGS_LACK_WEIGHTS''
           | w # ws \<Rightarrow>
               (let top10 = py_sum (take 10 (rev (sort (map fl64 (w # ws)))))
                in scored DIVERSIFICATION (piecewise top10 concentration_points) (Some (hs_as_of_date s))
                     (pv_provider (hs_provenance s)) 1)))"

definition available_weight :: "factor_result list \<Rightarrow> int" where
  "available_weight rs = sum_list (map fr_weight (filter (\<lambda>r. fr_status r = SCORED) rs))"

definition other_weight :: int where
  "other_weight = sum_list (map factor_weight [PERFORMANCE_MOMENTUM, RISK_DRAWDOWN_VOLATILITY, LIQUIDITY,
     TRACKING_QUALITY, COST, NAV_PREMIUM_DISCOUNT, DIVERSIFICATION])"

definition score_data_completeness :: "factor_result list \<Rightarrow> factor_result" where
  "score_data_completeness rs =
     (let coverage = (if other_weight \<noteq> 0 then fl64 (fl64 (100 * of_int (available_weight rs)) / of_int other_weight) else 0)
      in scored DATA_COMPLETENESS coverage None ''ETF_RULE_ENGINE_V1_SELF_REPORT'' 1)"

section \<open>Score\<close>

definition current_metrics :: "engine_input \<Rightarrow> metrics" where
  "current_metrics d =
     (case me_as_of_date (ei_metrics d) of
        None \<Rightarrow> \<lparr>me_as_of_date = None, me_values = []\<rparr>
      | Some s \<Rightarrow> if 0 \<le> ei_today d - s \<and> ei_today d - s \<le> DERIVED_METRIC_MAX_AGE_DAYS then ei_metrics d
                 else \<lparr>me_as_of_date = Some s, me_values = []\<rparr>)"

definition evidence_factors :: "engine_input \<Rightarrow> factor_result list" where
  "evidence_factors d =
     (let ms = current_metrics d
      in [score_performance_momentum ms, score_risk ms, score_liquidity d, score_tracking_quality d, score_cost d,
          score_nav_premium_discount d, score_diversification d])"

definition all_factors :: "engine_input \<Rightarrow> factor_result list" where
  "all_factors d = evidence_factors d @ [score_data_completeness (evidence_factors d)]"

definition confidence_for :: "rat \<Rightarrow> confidence_level" where
  "confidence_for completeness =
     (if fl64 (4 / 5) \<le> completeness then HIGH else if 1 / 2 \<le> completeness then MEDIUM else LOW)"

definition overall_score :: "factor_result list \<Rightarrow> rat option" where
  "overall_score rs =
     (let contributions = List.map_filter fr_contribution (filter (\<lambda>r. fr_status r = SCORED) rs)
      in if available_weight rs = 0 then None
         else Some (fl64 (fl64 (py_sum contributions * 100) / of_int (available_weight rs))))"

definition score_etf :: "engine_input \<Rightarrow> engine_result" where
  "score_etf d =
     (let rs = all_factors d;
          completeness = fl64 (of_int (available_weight rs) / 100)
      in \<lparr>er_factors = rs, er_overall = overall_score rs, er_completeness = completeness,
          er_confidence = confidence_for completeness\<rparr>)"

section \<open>Risk gates and recommendation\<close>

definition mandatory_technical :: "engine_input \<Rightarrow> bool" where
  "mandatory_technical d \<longleftrightarrow> 0 < mandatory_technical_failure (ei_summary d)"

definition extreme_illiquidity :: "engine_input \<Rightarrow> bool" where
  "extreme_illiquidity d \<longleftrightarrow>
     (case fresh_fact (ei_trading_volume d) TRADING_VOLUME (ei_today d) of Some f \<Rightarrow> ef_value f < 1000 | None \<Rightarrow> False)"

definition excessive_drawdown :: "metrics \<Rightarrow> bool" where
  "excessive_drawdown ms \<longleftrightarrow>
     (case get_metric ms MAX_DRAWDOWN of
        Some v \<Rightarrow> \<not> mv_insufficient_history v \<and> (case mv_value v of Some x \<Rightarrow> x \<le> - 50 | None \<Rightarrow> False)
      | None \<Rightarrow> False)"

definition abnormal_premium :: "engine_input \<Rightarrow> bool" where
  "abnormal_premium d \<longleftrightarrow>
     (case (fresh_nav d, fresh_price d) of
        (Some n, Some p) \<Rightarrow> na_nav n \<noteq> 0 \<and> Some (na_date n) = ef_as_of_date p \<and>
          5 < \<bar>premium_pct (na_nav n) (ef_value p)\<bar>
      | _ \<Rightarrow> False)"

definition very_low_aum :: "engine_input \<Rightarrow> bool" where
  "very_low_aum d \<longleftrightarrow>
     (case fresh_fact (ei_aum d) AUM (ei_today d) of
        Some f \<Rightarrow> ef_unit f = Some ''INR'' \<and> ef_value f < 100000000 | None \<Rightarrow> False)"

definition poor_tracking :: "engine_input \<Rightarrow> bool" where
  "poor_tracking d \<longleftrightarrow>
     (case fresh_fact (ei_tracking_error d) TRACKING_ERROR (ei_today d) of Some f \<Rightarrow> 2 < ef_value f | None \<Rightarrow> False)"

definition insufficient_history :: "metrics \<Rightarrow> bool" where
  "insufficient_history ms \<longleftrightarrow>
     (case get_metric ms RETURN_1M of None \<Rightarrow> True | Some v \<Rightarrow> mv_insufficient_history v)"

definition gate :: "gate_id \<Rightarrow> gate_category \<Rightarrow> gate_severity \<Rightarrow> bool \<Rightarrow> risk_gate" where
  "gate i c s t = \<lparr>rg_id = i, rg_category = c, rg_severity = s, rg_triggered = t\<rparr>"

definition evaluate_etf_risk_gates :: "engine_input \<Rightarrow> engine_result \<Rightarrow> risk_gate list" where
  "evaluate_etf_risk_gates d result =
     (let ms = current_metrics d
      in [gate MANDATORY_DATA_TECHNICAL_FAILURE GATE_TECHNICAL_FAILURE BLOCKING (mandatory_technical d),
          gate MANDATORY_DATA_MISSING_OR_STALE GATE_INSUFFICIENT_DATA BLOCKING
            (\<not> ready_for_analysis (ei_summary d) \<and> \<not> mandatory_technical d),
          gate INSUFFICIENT_PRICE_HISTORY GATE_INSUFFICIENT_DATA WARNING (insufficient_history ms),
          gate EXTREME_ILLIQUIDITY POOR_CHARACTERISTICS BLOCKING (extreme_illiquidity d),
          gate EXCESSIVE_DRAWDOWN POOR_CHARACTERISTICS WARNING (excessive_drawdown ms),
          gate ABNORMAL_NAV_PREMIUM_DISCOUNT POOR_CHARACTERISTICS WARNING (abnormal_premium d),
          gate VERY_LOW_AUM POOR_CHARACTERISTICS WARNING (very_low_aum d),
          gate POOR_TRACKING_QUALITY POOR_CHARACTERISTICS WARNING (poor_tracking d),
          gate INSUFFICIENT_COMPLETENESS GATE_INSUFFICIENT_DATA BLOCKING (er_completeness result < fl64 (3 / 10))])"

definition poor_warnings :: "risk_gate list \<Rightarrow> nat" where
  "poor_warnings gates = length (filter (\<lambda>g. rg_triggered g \<and> rg_category g = POOR_CHARACTERISTICS) gates)"

definition derive_etf_recommendation :: "engine_result \<Rightarrow> risk_gate list \<Rightarrow> recommendation" where
  "derive_etf_recommendation result gates =
     (if list_ex (\<lambda>g. rg_triggered g \<and> rg_category g = GATE_TECHNICAL_FAILURE) gates then INSUFFICIENT_DATA
      else if list_ex (\<lambda>g. rg_triggered g \<and> rg_category g = GATE_INSUFFICIENT_DATA \<and> rg_severity g = BLOCKING) gates
        then INSUFFICIENT_DATA
      else case er_overall result of
        None \<Rightarrow> INSUFFICIENT_DATA
      | Some score \<Rightarrow>
          if list_ex (\<lambda>g. rg_triggered g \<and> rg_category g = POOR_CHARACTERISTICS \<and> rg_severity g = BLOCKING) gates then AVOID
          else if 2 \<le> poor_warnings gates then (if score < 50 then AVOID else WATCH)
          else if 75 \<le> score then (if poor_warnings gates = 0 then STRONG_OPPORTUNITY else OPPORTUNITY)
          else if 60 \<le> score then OPPORTUNITY
          else if 40 \<le> score then WATCH
          else AVOID)"

definition recommend :: "engine_input \<Rightarrow> recommendation" where
  "recommend d = (let r = score_etf d in derive_etf_recommendation r (evaluate_etf_risk_gates d r))"

section \<open>Lemmas\<close>

lemma fl64_half: "\<bar>k\<bar> < 2 ^ 53 \<Longrightarrow> fl64 (of_int k / 2) = of_int k / 2"
proof (rule binary64.rnd_exact)
  assume "\<bar>k\<bar> < 2 ^ 53"
  moreover have "rat_of_int k / 2 = of_int k * of_nat 2 powi (- 1)" by (simp add: power_int_def)
  ultimately show "few_digits 2 53 (- 1074) (of_int k / 2)"
    unfolding few_digits_def by - (rule exI[of _ k], rule exI[of _ "- 1"], simp)
qed

lemma fl64_small:
  "numeral n < (2::int) ^ 53 \<Longrightarrow> fl64 (numeral n) = numeral n"
  "numeral n < (2::int) ^ 53 \<Longrightarrow> fl64 (numeral n / 2) = numeral n / 2"
  "fl64 (1 / 2) = 1 / 2"
  using fl64_int[of "numeral n"] fl64_half[of "numeral n"] fl64_half[of 1] by simp_all

lemmas table_simps = score_table_def rising_def falling_def fl64_small fl64_minus

lemma tables [simp]:
  "score_table return_points"
  "score_table momentum_points"
  "score_table drawdown_points"
  "score_table volatility_points"
  "score_table volume_points"
  "score_table spread_points"
  "score_table tracking_points"
  "score_table cost_points"
  "score_table premium_points"
  "score_table concentration_points"
  by (simp_all add: table_simps return_points_def momentum_points_def drawdown_points_def volatility_points_def volume_points_def spread_points_def tracking_points_def cost_points_def premium_points_def 
      concentration_points_def)

text \<open>A score is within rounding of 0 to 100.\<close>

definition score_ok :: "rat \<Rightarrow> bool" where
  "score_ok s \<longleftrightarrow> - 1 / 1000000000 \<le> s \<and> s \<le> 100 + 1 / 1000000000"

lemma piecewise_range: "score_table t \<Longrightarrow> 0 \<le> piecewise v t \<and> piecewise v t \<le> 100"
  by (rule score_table_bounds)

lemma piecewise_ok [simp]: "score_table t \<Longrightarrow> score_ok (piecewise v t)"
  using piecewise_range[of t v] by (simp add: score_ok_def)

lemma sum_list_range:
  fixes a :: rat
  assumes "\<forall>x \<in> set xs. a \<le> x \<and> x \<le> b"
  shows "of_nat (length xs) * a \<le> sum_list xs \<and> sum_list xs \<le> of_nat (length xs) * b"
  using assms by (induction xs) (auto simp: algebra_simps)

lemma mean_ok:
  assumes "xs \<noteq> []" and "length xs \<le> 5" and "\<forall>x \<in> set xs. 0 \<le> x \<and> x \<le> 100"
  shows "score_ok (mean xs)"
proof -
  define n where "n = rat_of_nat (length xs)"
  have n: "1 \<le> n" "n \<le> 5"
  proof -
    have "1 \<le> length xs" using assms(1) by (cases xs) auto
    then show "1 \<le> n" unfolding n_def by (metis of_nat_1 of_nat_le_iff)
    show "n \<le> 5" unfolding n_def using assms(2) by (metis of_nat_le_iff of_nat_numeral)
  qed
  have s: "0 \<le> sum_list xs" "sum_list xs \<le> n * 100"
    using sum_list_range[OF assms(3)] by (simp_all add: n_def)
  have "map abs xs = xs" using assms(3) by (simp add: map_idI)
  then have e: "\<bar>py_sum xs - sum_list xs\<bar> \<le> 500 / 2 ^ 40"
    using py_sum_error[of 500 xs] s n assms(2) by simp
  then have e': "py_sum xs \<le> n * 100 + 500 / 2 ^ 40" "- (500 / 2 ^ 40) \<le> py_sum xs" using s by linarith+
  define q where "q = py_sum xs / n"
  have "500 / 2 ^ 40 / n \<le> 500 / (2 ^ 40 :: rat) / 1" using n by (intro divide_left_mono) simp_all
  then have d: "500 / 2 ^ 40 / n \<le> 500 / (2 ^ 40 :: rat)" by simp
  have "py_sum xs / n \<le> (n * 100 + 500 / 2 ^ 40) / n" using e' n by (intro divide_right_mono) simp_all
  also have "\<dots> = 100 + 500 / 2 ^ 40 / n" using n by (simp add: add_divide_distrib)
  also note d
  finally have q1: "q \<le> 100 + 500 / 2 ^ 40" by (simp add: q_def)
  have "- (500 / 2 ^ 40) \<le> - (500 / 2 ^ 40) / n" using d unfolding minus_divide_left[symmetric] by (rule le_imp_neg_le)
  also have "\<dots> \<le> py_sum xs / n" using e' n by (intro divide_right_mono) simp_all
  finally have q2: "- (500 / 2 ^ 40) \<le> q" by (simp add: q_def)
  have "\<bar>fl64 q - q\<bar> \<le> 200 / 2 ^ 53" by (rule fl64_error) (use q1 q2 in \<open>simp_all add: abs_le_iff\<close>)
  then have "\<bar>fl64 q - q\<bar> \<le> 1 / 10000000000" by (rule order_trans) simp
  moreover have "q \<le> 100 + 5 / 10000000000" using q1 by (rule order_trans) simp
  moreover have "- 5 / 10000000000 \<le> q" by (rule order_trans[OF _ q2]) simp
  ultimately have "score_ok (fl64 q)" unfolding score_ok_def by (intro conjI; linarith)
  then show ?thesis by (simp add: mean_def q_def n_def)
qed

lemma contribution_error:
  assumes "score_ok s" and "0 \<le> w" and "w \<le> 100"
  shows "\<bar>contribution s w - s * of_int w / 100\<bar> \<le> 1 / 10000000000"
proof -
  have w: "0 \<le> rat_of_int w" "rat_of_int w \<le> 100" using assms(2,3) by simp_all
  have "\<bar>s\<bar> \<le> 101" using assms(1) by (simp add: score_ok_def abs_le_iff)
  then have "\<bar>s * of_int w\<bar> \<le> 101 * 100" unfolding abs_mult using w by (intro mult_mono) simp_all
  then have b: "\<bar>s * of_int w\<bar> \<le> 20000" by simp
  define p where "p = fl64 (s * of_int w)"
  have p: "\<bar>p - s * of_int w\<bar> \<le> 20000 / 2 ^ 53" unfolding p_def by (rule fl64_error[OF b]) simp
  have "\<bar>p - s * of_int w\<bar> \<le> 1" using p by (rule order_trans) simp
  then have "\<bar>p\<bar> \<le> 40000" using b by linarith
  then have "\<bar>p / 100\<bar> \<le> 20000" by simp
  then have "\<bar>fl64 (p / 100) - p / 100\<bar> \<le> 20000 / 2 ^ 53" by (rule fl64_error) simp
  moreover have "\<bar>p / 100 - s * of_int w / 100\<bar> \<le> 200 / 2 ^ 53" using p by linarith
  ultimately have "\<bar>fl64 (p / 100) - s * of_int w / 100\<bar> \<le> 20200 / 2 ^ 53" by linarith
  then show ?thesis by (simp add: contribution_def p_def)
qed

text \<open>A well-formed factor result is unavailable, or scored within range with its contribution.\<close>

definition factor_ok :: "rule_factor \<Rightarrow> factor_result \<Rightarrow> bool" where
  "factor_ok f r \<longleftrightarrow> fr_factor r = f \<and> fr_weight r = factor_weight f \<and>
     ((fr_status r = UNAVAILABLE \<and> fr_score r = None \<and> fr_contribution r = None \<and> fr_reason r \<noteq> None) \<or>
      (fr_status r = SCORED \<and> (\<exists>s. fr_score r = Some s \<and> fr_contribution r = Some (contribution s (factor_weight f)) \<and> score_ok s)))"

lemma factor_ok_unavailable [simp]: "factor_ok f (unavailable f prov reason)"
  by (simp add: factor_ok_def unavailable_def)

lemma factor_ok_scored [simp]: "score_ok s \<Longrightarrow> factor_ok f (scored f s fresh prov conf)"
  by (simp add: factor_ok_def scored_def)

lemma option_list_length: "length (option_list x) \<le> 1"
  by (simp add: option_list_def split: option.splits)

lemma map_filter_length: "length (List.map_filter f xs) \<le> length xs"
  by (induction xs) (auto simp: List.map_filter_simps split: option.splits)

lemma momentum_ok: "factor_ok PERFORMANCE_MOMENTUM (score_performance_momentum ms)"
proof -
  let ?a = "List.map_filter (usable_metric ms) [RETURN_1M, RETURN_3M, RETURN_6M, RETURN_1Y]"
  let ?s = "map (\<lambda>v. piecewise v return_points) ?a @ map (\<lambda>v. piecewise v momentum_points) (option_list (usable_metric ms MOMENTUM_50_200))"
  have "length ?a \<le> 4" using map_filter_length[of "usable_metric ms" "[RETURN_1M, RETURN_3M, RETURN_6M, RETURN_1Y]"] by simp
  then have "length ?s \<le> 5" using option_list_length[of "usable_metric ms MOMENTUM_50_200"] by simp
  moreover have "\<forall>x \<in> set ?s. 0 \<le> x \<and> x \<le> 100" using piecewise_range by auto
  ultimately have "?s \<noteq> [] \<Longrightarrow> score_ok (mean ?s)" by (rule mean_ok[rotated 1])
  then show ?thesis unfolding score_performance_momentum_def Let_def by (auto simp del: append_is_Nil_conv)
qed

lemma risk_ok: "factor_ok RISK_DRAWDOWN_VOLATILITY (score_risk ms)"
proof -
  let ?s = "map (\<lambda>v. piecewise v drawdown_points) (option_list (usable_metric ms MAX_DRAWDOWN)) @
    map (\<lambda>v. piecewise v volatility_points) (option_list (usable_metric ms ANNUALIZED_VOLATILITY))"
  have "length ?s \<le> 5"
    using option_list_length[of "usable_metric ms MAX_DRAWDOWN"] option_list_length[of "usable_metric ms ANNUALIZED_VOLATILITY"] by simp
  moreover have "\<forall>x \<in> set ?s. 0 \<le> x \<and> x \<le> 100" using piecewise_range by auto
  ultimately have "?s \<noteq> [] \<Longrightarrow> score_ok (mean ?s)" by (rule mean_ok[rotated 1])
  then show ?thesis unfolding score_risk_def Let_def by (auto simp del: append_is_Nil_conv)
qed

lemma pair_ok:
  assumes "\<And>x. 0 \<le> f x \<and> f x \<le> 100" and "\<And>x. 0 \<le> g x \<and> g x \<le> 100"
  shows "factor_ok factor (score_pair factor reason f x g y)"
proof -
  let ?s = "map f (option_list x) @ map g (option_list y)"
  have "length ?s \<le> 5" using option_list_length[of x] option_list_length[of y] by simp
  moreover have "\<forall>x \<in> set ?s. 0 \<le> x \<and> x \<le> 100" using assms by auto
  ultimately have "?s \<noteq> [] \<Longrightarrow> score_ok (mean ?s)" by (rule mean_ok[rotated 1])
  then show ?thesis
    unfolding score_pair_def Let_def by (auto simp: option_list_def split: option.splits)
qed

lemma cost_ok: "factor_ok COST (score_cost d)"
  by (simp add: score_cost_def split: option.splits)

lemma premium_ok: "factor_ok NAV_PREMIUM_DISCOUNT (score_nav_premium_discount d)"
  by (simp add: score_nav_premium_discount_def Let_def split: option.splits)

lemma diversification_ok: "factor_ok DIVERSIFICATION (score_diversification d)"
  by (simp add: score_diversification_def Let_def split: option.splits list.splits)

lemma evidence_factors_ok:
  "list_all2 factor_ok [PERFORMANCE_MOMENTUM, RISK_DRAWDOWN_VOLATILITY, LIQUIDITY, TRACKING_QUALITY, COST,
     NAV_PREMIUM_DISCOUNT, DIVERSIFICATION] (evidence_factors d)"
proof -
  have "factor_ok LIQUIDITY (score_liquidity d)"
    unfolding score_liquidity_def by (rule pair_ok) (simp_all add: piecewise_range)
  moreover have "factor_ok TRACKING_QUALITY (score_tracking_quality d)"
    unfolding score_tracking_quality_def by (rule pair_ok) (simp_all add: piecewise_range)
  ultimately show ?thesis
    by (simp add: evidence_factors_def Let_def momentum_ok risk_ok cost_ok premium_ok diversification_ok)
qed

lemma available_weight_simps [simp]:
  "available_weight [] = 0"
  "available_weight (r # rs) = (if fr_status r = SCORED then fr_weight r else 0) + available_weight rs"
  "available_weight (xs @ ys) = available_weight xs + available_weight ys"
  by (simp_all add: available_weight_def)

lemma available_weight_bounds:
  "list_all2 factor_ok fs rs \<Longrightarrow> 0 \<le> available_weight rs \<and> available_weight rs \<le> sum_list (map factor_weight fs)"
proof (induction rule: list_all2_induct)
  case (Cons f fs r rs)
  have "0 \<le> factor_weight f" by (cases f) auto
  then show ?case using Cons by (auto simp: factor_ok_def)
qed simp

lemma completeness_ok: "factor_ok DATA_COMPLETENESS (score_data_completeness (evidence_factors d))"
proof -
  define w where "w = available_weight (evidence_factors d)"
  have w: "0 \<le> w" "w \<le> 95" using available_weight_bounds[OF evidence_factors_ok, of d] by (simp_all add: w_def)
  define a where "a = rat_of_int (100 * w)"
  have "fl64 (of_int (100 * w)) = of_int (100 * w)" by (rule fl64_int) (use w in simp)
  then have a: "fl64 (100 * of_int w) = a" by (simp add: a_def)
  have "0 \<le> a" "a \<le> of_int 9500" unfolding a_def using w by (simp_all only: of_int_le_iff of_int_0_le_iff)
  then have "0 \<le> a / 95" "a / 95 \<le> 100" by simp_all
  then have "0 \<le> fl64 (a / 95)" "fl64 (a / 95) \<le> 100"
    using fl64_mono[of 0 "a / 95"] fl64_mono[of "a / 95" 100] by simp_all
  then have "score_ok (fl64 (a / 95))" by (simp add: score_ok_def)
  then show ?thesis
    unfolding score_data_completeness_def Let_def w_def[symmetric] a by (simp add: other_weight_def)
qed

definition FACTORS :: "rule_factor list" where
  "FACTORS = [PERFORMANCE_MOMENTUM, RISK_DRAWDOWN_VOLATILITY, LIQUIDITY, TRACKING_QUALITY, COST,
     NAV_PREMIUM_DISCOUNT, DIVERSIFICATION, DATA_COMPLETENESS]"

lemma all_factors_ok: "list_all2 factor_ok FACTORS (all_factors d)"
proof -
  have "FACTORS = [PERFORMANCE_MOMENTUM, RISK_DRAWDOWN_VOLATILITY, LIQUIDITY, TRACKING_QUALITY, COST,
     NAV_PREMIUM_DISCOUNT, DIVERSIFICATION] @ [DATA_COMPLETENESS]" by (simp add: FACTORS_def)
  then show ?thesis
    unfolding all_factors_def using evidence_factors_ok[of d] completeness_ok[of d]
    by (metis list_all2_appendI list.rel_inject(2) list.rel_intros(1))
qed

lemma available_weight_range: "5 \<le> available_weight (all_factors d) \<and> available_weight (all_factors d) \<le> 100"
proof -
  have "available_weight [score_data_completeness (evidence_factors d)] = 5"
    by (simp add: score_data_completeness_def Let_def scored_def)
  moreover have "0 \<le> available_weight (evidence_factors d)" "available_weight (evidence_factors d) \<le> 95"
    using available_weight_bounds[OF evidence_factors_ok, of d] by simp_all
  ultimately show ?thesis unfolding all_factors_def by simp
qed

text \<open>The sum of the contributions against the weighted sum of the scores.\<close>

definition weighted_scores :: "factor_result list \<Rightarrow> rat" where
  "weighted_scores rs = sum_list (map (\<lambda>r. case fr_score r of Some s \<Rightarrow> s * of_int (fr_weight r) | None \<Rightarrow> 0) rs)"

definition contributions :: "factor_result list \<Rightarrow> rat list" where
  "contributions rs = List.map_filter fr_contribution (filter (\<lambda>r. fr_status r = SCORED) rs)"

lemma contributions_bounds:
  assumes "list_all2 factor_ok fs rs"
  shows "\<bar>sum_list (contributions rs) - weighted_scores rs / 100\<bar> \<le> of_nat (length rs) / 10000000000 \<and>
    sum_list (map abs (contributions rs)) \<le> of_int (available_weight rs) * 2 + of_nat (length rs) \<and>
    length (contributions rs) \<le> length rs \<and>
    - of_int (available_weight rs) / 1000000000 \<le> weighted_scores rs \<and>
    weighted_scores rs \<le> of_int (available_weight rs) * (100 + 1 / 1000000000)"
  using assms
proof (induction rule: list_all2_induct)
  case (Cons f fs r rs)
  have w: "0 \<le> factor_weight f" "factor_weight f \<le> 100" by (cases f; simp)+
  show ?case
  proof (cases "fr_status r")
    case UNAVAILABLE
    then have "fr_score r = None" using Cons(1) by (auto simp: factor_ok_def)
    then show ?thesis
      using Cons.IH UNAVAILABLE by (simp add: contributions_def weighted_scores_def add_divide_distrib)
  next
    case SCORED
    then obtain s where s: "fr_score r = Some s" "fr_contribution r = Some (contribution s (factor_weight f))"
      "score_ok s" "fr_weight r = factor_weight f"
      using Cons(1) by (auto simp: factor_ok_def)
    define c where "c = contribution s (factor_weight f)"
    define W where "W = rat_of_int (factor_weight f)"
    have W: "0 \<le> W" "W \<le> 100" using w by (simp_all add: W_def)
    have e: "\<bar>c - s * W / 100\<bar> \<le> 1 / 10000000000"
      unfolding c_def W_def by (rule contribution_error[OF s(3) w])
    have sW: "- 1 / 1000000000 * W \<le> s * W" "s * W \<le> (100 + 1 / 1000000000) * W"
      by (rule mult_right_mono[OF _ W(1)]; use s(3) in \<open>simp only: score_ok_def\<close>)+
    have "- 1 \<le> s \<and> s \<le> 101" using s(3) by (simp add: score_ok_def)
    then have "- 1 * W \<le> s * W" "s * W \<le> 101 * W" using mult_right_mono[OF _ W(1)] by blast+
    moreover have "\<bar>c - s * W / 100\<bar> \<le> 1 / 4" using e by (rule order_trans) simp
    ultimately have c: "\<bar>c\<bar> \<le> W * 2 + 1" using W by linarith
    have eqs: "contributions (r # rs) = c # contributions rs"
        "weighted_scores (r # rs) = s * W + weighted_scores rs"
        "rat_of_int (available_weight (r # rs)) = W + of_int (available_weight rs)"
        "rat_of_nat (length (r # rs)) = of_nat (length rs) + 1"
      using SCORED s by (simp_all add: contributions_def weighted_scores_def c_def W_def List.map_filter_simps)
    from Cons.IH have ih:
        "\<bar>sum_list (contributions rs) - weighted_scores rs / 100\<bar> \<le> of_nat (length rs) / 10000000000"
        "sum_list (map abs (contributions rs)) \<le> of_int (available_weight rs) * 2 + of_nat (length rs)"
        "length (contributions rs) \<le> length rs"
        "- of_int (available_weight rs) / 1000000000 \<le> weighted_scores rs"
        "weighted_scores rs \<le> of_int (available_weight rs) * (100 + 1 / 1000000000)"
      by blast+
    have "\<bar>sum_list (c # contributions rs) - (s * W + weighted_scores rs) / 100\<bar> \<le> (of_nat (length rs) + 1) / 10000000000"
    proof -
      have "sum_list (c # contributions rs) - (s * W + weighted_scores rs) / 100 =
          (c - s * W / 100) + (sum_list (contributions rs) - weighted_scores rs / 100)"
        by (simp add: add_divide_distrib)
      then show ?thesis
        using abs_triangle_ineq[of "c - s * W / 100" "sum_list (contributions rs) - weighted_scores rs / 100"] e ih(1)
        by (simp only: add_divide_distrib)
    qed
    moreover have "\<bar>c\<bar> + sum_list (map abs (contributions rs)) \<le> (W + of_int (available_weight rs)) * 2 + (of_nat (length rs) + 1)"
      using add_mono[OF c ih(2)] by (simp add: algebra_simps)
    moreover have "- (W + of_int (available_weight rs)) / 1000000000 \<le> s * W + weighted_scores rs"
      using add_mono[OF sW(1) ih(4)] by (simp add: add_divide_distrib)
    moreover have "s * W + weighted_scores rs \<le> (W + of_int (available_weight rs)) * (100 + 1 / 1000000000)"
      using add_mono[OF sW(2) ih(5)] by (simp add: algebra_simps)
    ultimately show ?thesis unfolding eqs using ih(3) by simp
  qed
qed (simp add: contributions_def weighted_scores_def List.map_filter_simps)

lemma overall_error:
  assumes A: "5 \<le> A" "A \<le> (100 :: rat)"
    and T: "\<bar>T - W / 100\<bar> \<le> 8 / 10000000000" and p: "\<bar>p - T\<bar> \<le> 1 / 1000000000"
    and W: "- A / 1000000000 \<le> W" "W \<le> A * (100 + 1 / 1000000000)"
  shows "\<bar>fl64 (fl64 (p * 100) / A) - W / A\<bar> \<le> 1 / 5000000"
proof -
  have WA: "\<bar>W / A\<bar> \<le> 101"
  proof -
    have "W \<le> 101 * A" using W(2) A by (simp add: algebra_simps)
    moreover have "- (101 * A) \<le> W" using W(1) A by simp
    ultimately show ?thesis using A by (simp add: abs_le_iff divide_le_eq le_divide_eq)
  qed
  have "\<bar>W / A * A\<bar> \<le> 101 * 100" unfolding abs_mult using WA A by (intro mult_mono) simp_all
  then have "\<bar>W\<bar> \<le> 10100" using A by simp
  moreover have px: "\<bar>p * 100 - W\<bar> \<le> 1 / 5000000" using T p by linarith
  ultimately have "\<bar>p * 100\<bar> \<le> 20000" by linarith
  then have "\<bar>fl64 (p * 100) - p * 100\<bar> \<le> 20000 / 2 ^ 53" by (rule fl64_error) simp
  then have "\<bar>fl64 (p * 100) - p * 100\<bar> \<le> 1 / 100000000" by (rule order_trans) simp
  then have y: "\<bar>fl64 (p * 100) - W\<bar> \<le> 21 / 100000000" using px by linarith
  have "\<bar>fl64 (p * 100) / A - W / A\<bar> = \<bar>fl64 (p * 100) - W\<bar> / A"
    using A by (simp add: diff_divide_distrib[symmetric] abs_divide)
  also have "\<dots> \<le> 21 / 100000000 / 5" using y A by (intro frac_le) simp_all
  finally have yA: "\<bar>fl64 (p * 100) / A - W / A\<bar> \<le> 21 / 500000000" by simp
  then have "\<bar>fl64 (p * 100) / A\<bar> \<le> 200" using WA by linarith
  then have "\<bar>fl64 (fl64 (p * 100) / A) - fl64 (p * 100) / A\<bar> \<le> 200 / 2 ^ 53" by (rule fl64_error) simp
  then have "\<bar>fl64 (fl64 (p * 100) / A) - fl64 (p * 100) / A\<bar> \<le> 1 / 100000000" by (rule order_trans) simp
  then show ?thesis using yA by linarith
qed

lemma overall_bounds:
  assumes A: "5 \<le> (A :: rat)" and W: "- A / 1000000000 \<le> W" "W \<le> A * (100 + 1 / 1000000000)"
    and s: "\<bar>s - W / A\<bar> \<le> 1 / 5000000"
  shows "- 1 / 1000000 \<le> s \<and> s \<le> 100 + 1 / 1000000"
proof -
  have "- 1 / 1000000000 \<le> W / A" using W(1) A by (simp add: le_divide_eq)
  moreover have "W / A \<le> 100 + 1 / 1000000000" using W(2) A by (simp add: divide_le_eq algebra_simps)
  ultimately show ?thesis using s by (intro conjI; linarith)
qed

section \<open>Properties\<close>

text \<open>C31: the overall score always exists and is the weighted average of the scored factors alone, up to
  two ten-millionths: an unavailable factor enters neither the numerator nor the denominator, and the
  score lies between 0 and 100 up to a millionth.\<close>

theorem overall_is_weighted_average:
  "\<exists>s. er_overall (score_etf d) = Some s \<and>
     \<bar>s - weighted_scores (all_factors d) / of_int (available_weight (all_factors d))\<bar> \<le> 1 / 5000000 \<and>
     - 1 / 1000000 \<le> s \<and> s \<le> 100 + 1 / 1000000"
proof -
  define rs where "rs = all_factors d"
  define A where "A = rat_of_int (available_weight rs)"
  define T where "T = contributions rs"
  have ok: "list_all2 factor_ok FACTORS rs" unfolding rs_def by (rule all_factors_ok)
  have len: "length rs = 8" using list_all2_lengthD[OF ok] by (simp add: FACTORS_def)
  have "5 \<le> available_weight rs" "available_weight rs \<le> 100" using available_weight_range by (simp_all add: rs_def)
  then have A: "5 \<le> A" "A \<le> 100" and nz: "available_weight rs \<noteq> 0" by (auto simp: A_def)
  note b = contributions_bounds[OF ok, unfolded len, folded A_def T_def]
  have "sum_list (map abs T) \<le> 300" using b A(2) by simp
  then have "\<bar>py_sum T - sum_list T\<bar> \<le> 300 / 2 ^ 40" by (rule py_sum_error[rotated]) (use b in simp_all)
  then have p: "\<bar>py_sum T - sum_list T\<bar> \<le> 1 / 1000000000" by (rule order_trans) simp
  have W: "- A / 1000000000 \<le> weighted_scores rs" "weighted_scores rs \<le> A * (100 + 1 / 1000000000)"
    using b by blast+
  have "\<bar>sum_list T - weighted_scores rs / 100\<bar> \<le> 8 / 10000000000" using b by simp
  from overall_error[OF A this p W]
  have e: "\<bar>fl64 (fl64 (py_sum T * 100) / A) - weighted_scores rs / A\<bar> \<le> 1 / 5000000" .
  have "er_overall (score_etf d) = Some (fl64 (fl64 (py_sum T * 100) / A))"
    using nz by (simp add: score_etf_def Let_def overall_score_def rs_def T_def A_def contributions_def)
  then show ?thesis
    using e overall_bounds[OF A(1) W e] unfolding A_def rs_def by blast
qed

lemma completeness_threshold:
  assumes "0 \<le> w" and "w \<le> 100"
  shows "fl64 (of_int w / 100) < fl64 (3 / 10) \<longleftrightarrow> w < 30"
proof (cases "w < 30")
  case True
  then have "of_int w / 100 \<le> (29 / 100 :: rat)" by simp
  from fl64_mono[OF this] have a: "fl64 (of_int w / 100) \<le> fl64 (29 / 100)" .
  have e: "\<bar>fl64 (29 / 100) - 29 / 100\<bar> \<le> 1 / 2 ^ 53" "\<bar>fl64 (3 / 10) - 3 / 10\<bar> \<le> 1 / 2 ^ 53"
    by (rule fl64_error; simp)+
  have small: "(1 / 2 ^ 53 :: rat) \<le> 1 / 1000" by simp
  have "\<bar>fl64 (29 / 100) - 29 / 100\<bar> \<le> 1 / 1000" "\<bar>fl64 (3 / 10) - 3 / 10\<bar> \<le> 1 / 1000"
    using e small by (blast intro: order_trans)+
  then have "fl64 (29 / 100) < fl64 (3 / 10)" by linarith
  then show ?thesis using a True by linarith
next
  case False
  then have "rat_of_int 30 \<le> of_int w" by (simp only: of_int_le_iff)
  then have "3 / 10 \<le> of_int w / (100 :: rat)" by simp
  from fl64_mono[OF this] show ?thesis using False by simp
qed

lemma recommend_cases:
  "recommend d =
    (if mandatory_technical d \<or> \<not> ready_for_analysis (ei_summary d) \<or> available_weight (all_factors d) < 30
     then INSUFFICIENT_DATA
     else case er_overall (score_etf d) of None \<Rightarrow> INSUFFICIENT_DATA
       | Some score \<Rightarrow>
         (let n = length (filter id [extreme_illiquidity d, excessive_drawdown (current_metrics d), abnormal_premium d,
                   very_low_aum d, poor_tracking d])
          in if extreme_illiquidity d then AVOID
             else if 2 \<le> n then (if score < 50 then AVOID else WATCH)
             else if 75 \<le> score then (if n = 0 then STRONG_OPPORTUNITY else OPPORTUNITY)
             else if 60 \<le> score then OPPORTUNITY
             else if 40 \<le> score then WATCH
             else AVOID))"
proof -
  have c: "er_completeness (score_etf d) < fl64 (3 / 10) \<longleftrightarrow> available_weight (all_factors d) < 30"
    using completeness_threshold[of "available_weight (all_factors d)"] available_weight_range[of d]
    by (simp add: score_etf_def Let_def)
  have n: "poor_warnings (evaluate_etf_risk_gates d (score_etf d)) =
      length (filter id [extreme_illiquidity d, excessive_drawdown (current_metrics d), abnormal_premium d, very_low_aum d, poor_tracking d])"
    by (simp add: poor_warnings_def evaluate_etf_risk_gates_def gate_def Let_def)
  show ?thesis
    unfolding recommend_def derive_etf_recommendation_def Let_def n
    by (simp add: evaluate_etf_risk_gates_def gate_def Let_def c del: filter.simps cong: option.case_cong)
qed

text \<open>an opinion is given exactly when no mandatory requirement failed technically, the mandatory
  evidence is ready and at least thirty percent of the factor weight was scored; otherwise the result is
  INSUFFICIENT_DATA.  In particular a provider failure never becomes AVOID.\<close>

theorem opinion_needs_evidence:
  "recommend d \<noteq> INSUFFICIENT_DATA \<longleftrightarrow>
    mandatory_technical_failure (ei_summary d) = 0 \<and> ready_for_analysis (ei_summary d) \<and>
    30 \<le> available_weight (all_factors d)"
proof -
  have "available_weight (all_factors d) \<noteq> 0" using available_weight_range[of d] by linarith
  then have "\<exists>s. er_overall (score_etf d) = Some s" by (simp add: score_etf_def overall_score_def Let_def)
  then show ?thesis
    unfolding recommend_cases
    by (auto simp: mandatory_technical_def Let_def not_less simp del: filter.simps split: if_splits)
qed

text \<open>Recommendations from the most cautious to the most favourable.\<close>

fun opinion_rank :: "recommendation \<Rightarrow> nat" where
  "opinion_rank INSUFFICIENT_DATA = 0"
| "opinion_rank AVOID = 1"
| "opinion_rank WATCH = 2"
| "opinion_rank OPPORTUNITY = 3"
| "opinion_rank STRONG_OPPORTUNITY = 4"

text \<open>The same gates, of which \<open>g\<close> triggers no fewer than \<open>h\<close>.\<close>

definition gate_relaxed :: "risk_gate \<Rightarrow> risk_gate \<Rightarrow> bool" where
  "gate_relaxed g h \<longleftrightarrow> rg_category g = rg_category h \<and> rg_severity g = rg_severity h \<and> (rg_triggered h \<longrightarrow> rg_triggered g)"

lemma relaxed_ex:
  assumes "list_all2 gate_relaxed gs hs"
  shows "list_ex (\<lambda>g. rg_triggered g \<and> P (rg_category g) (rg_severity g)) hs \<Longrightarrow>
    list_ex (\<lambda>g. rg_triggered g \<and> P (rg_category g) (rg_severity g)) gs"
  using assms by (induction rule: list_all2_induct) (auto simp: gate_relaxed_def)

lemma relaxed_warnings: "list_all2 gate_relaxed gs hs \<Longrightarrow> poor_warnings hs \<le> poor_warnings gs"
  unfolding poor_warnings_def by (induction rule: list_all2_induct) (auto simp: gate_relaxed_def)

text \<open>the recommendation is monotone: a higher score with no gate newly triggered never lowers it, and
  relaxing a triggered gate never lowers it.\<close>

theorem recommendation_is_monotone:
  assumes "er_overall r = Some s" and "er_overall r' = Some s'" and "s \<le> s'" and "list_all2 gate_relaxed gs gs'"
  shows "opinion_rank (derive_etf_recommendation r gs) \<le> opinion_rank (derive_etf_recommendation r' gs')"
proof -
  let ?ins = "\<lambda>gs. list_ex (\<lambda>g. rg_triggered g \<and> rg_category g = GATE_TECHNICAL_FAILURE) gs \<or>
    list_ex (\<lambda>g. rg_triggered g \<and> rg_category g = GATE_INSUFFICIENT_DATA \<and> rg_severity g = BLOCKING) gs"
  let ?poor = "\<lambda>gs. list_ex (\<lambda>g. rg_triggered g \<and> rg_category g = POOR_CHARACTERISTICS \<and> rg_severity g = BLOCKING) gs"
  have ins: "?ins gs' \<Longrightarrow> ?ins gs"
    using relaxed_ex[OF assms(4), of "\<lambda>c s. c = GATE_TECHNICAL_FAILURE"]
      relaxed_ex[OF assms(4), of "\<lambda>c s. c = GATE_INSUFFICIENT_DATA \<and> s = BLOCKING"] by blast
  have poor: "?poor gs' \<Longrightarrow> ?poor gs"
    by (rule relaxed_ex[OF assms(4), of "\<lambda>c s. c = POOR_CHARACTERISTICS \<and> s = BLOCKING"])
  have n: "poor_warnings gs' \<le> poor_warnings gs" by (rule relaxed_warnings[OF assms(4)])
  have form: "derive_etf_recommendation r gs = (if ?ins gs then INSUFFICIENT_DATA else if ?poor gs then AVOID
      else if 2 \<le> poor_warnings gs then (if s < 50 then AVOID else WATCH)
      else if 75 \<le> s then (if poor_warnings gs = 0 then STRONG_OPPORTUNITY else OPPORTUNITY)
      else if 60 \<le> s then OPPORTUNITY else if 40 \<le> s then WATCH else AVOID)"
    if "er_overall r = Some s" for r s gs
    using that by (simp add: derive_etf_recommendation_def)
  show ?thesis
  proof (cases "?ins gs \<or> ?poor gs")
    case True
    show ?thesis
    proof (cases "?ins gs")
      case False
      then have "\<not> ?ins gs'" "?poor gs" using ins True by blast+
      then show ?thesis unfolding form[OF assms(1)] form[OF assms(2)] using False by simp
    qed (simp add: form[OF assms(1)])
  next
    case False
    then have "\<not> ?ins gs'" "\<not> ?poor gs'" using ins poor by blast+
    then show ?thesis
      unfolding form[OF assms(1)] form[OF assms(2)] using False n assms(3) by simp
  qed
qed

definition sample_result :: "rat \<Rightarrow> engine_result" where
  "sample_result s = \<lparr>er_factors = [], er_overall = Some s, er_completeness = 1, er_confidence = HIGH\<rparr>"

lemma recommendation_is_monotone_witness:
  "opinion_rank (derive_etf_recommendation (sample_result 55) [gate VERY_LOW_AUM POOR_CHARACTERISTICS WARNING True]) \<le>
   opinion_rank (derive_etf_recommendation (sample_result 80) [gate VERY_LOW_AUM POOR_CHARACTERISTICS WARNING False])"
  by (rule recommendation_is_monotone[of _ 55 _ 80]) (simp_all add: sample_result_def gate_relaxed_def gate_def)

text \<open>The input without its stale, undated or future evidence.\<close>

definition drop_stale :: "engine_input \<Rightarrow> engine_input" where
  "drop_stale d = d\<lparr>
     ei_metrics := current_metrics d,
     ei_nav := fresh_nav d,
     ei_market_price := fresh_price d,
     ei_trading_volume := fresh_fact (ei_trading_volume d) TRADING_VOLUME (ei_today d),
     ei_bid_ask_spread := fresh_fact (ei_bid_ask_spread d) BID_ASK_SPREAD (ei_today d),
     ei_tracking_error := fresh_fact (ei_tracking_error d) TRACKING_ERROR (ei_today d),
     ei_tracking_difference := fresh_fact (ei_tracking_difference d) TRACKING_DIFFERENCE (ei_today d),
     ei_expense_ratio := fresh_fact (ei_expense_ratio d) EXPENSE_RATIO (ei_today d),
     ei_aum := fresh_fact (ei_aum d) AUM (ei_today d),
     ei_holdings := fresh_holdings d\<rparr>"

lemma fresh_fact_idem: "fresh_fact (fresh_fact f m t) m t = fresh_fact f m t"
  by (simp add: fresh_fact_def split: option.splits)

lemma fresh_drop_stale:
  "fresh_nav (drop_stale d) = fresh_nav d" "fresh_price (drop_stale d) = fresh_price d"
  "fresh_holdings (drop_stale d) = fresh_holdings d" "current_metrics (drop_stale d) = current_metrics d"
  by (simp_all add: drop_stale_def fresh_nav_def fresh_price_def fresh_fact_def fresh_holdings_def current_metrics_def
      split: option.splits)

lemma drop_stale_sel:
  "ei_today (drop_stale d) = ei_today d" "ei_summary (drop_stale d) = ei_summary d"
  "ei_trading_volume (drop_stale d) = fresh_fact (ei_trading_volume d) TRADING_VOLUME (ei_today d)"
  "ei_bid_ask_spread (drop_stale d) = fresh_fact (ei_bid_ask_spread d) BID_ASK_SPREAD (ei_today d)"
  "ei_tracking_error (drop_stale d) = fresh_fact (ei_tracking_error d) TRACKING_ERROR (ei_today d)"
  "ei_tracking_difference (drop_stale d) = fresh_fact (ei_tracking_difference d) TRACKING_DIFFERENCE (ei_today d)"
  "ei_expense_ratio (drop_stale d) = fresh_fact (ei_expense_ratio d) EXPENSE_RATIO (ei_today d)"
  "ei_aum (drop_stale d) = fresh_fact (ei_aum d) AUM (ei_today d)"
  by (simp_all add: drop_stale_def)

text \<open>stale, undated and future-dated evidence has no influence: removing it changes neither the scores
  nor the gates nor the recommendation.\<close>

theorem stale_evidence_is_ignored:
  "score_etf (drop_stale d) = score_etf d \<and>
   evaluate_etf_risk_gates (drop_stale d) r = evaluate_etf_risk_gates d r \<and> recommend (drop_stale d) = recommend d"
proof -
  have "evidence_factors (drop_stale d) = evidence_factors d"
    by (simp only: evidence_factors_def score_liquidity_def score_tracking_quality_def score_cost_def
        score_nav_premium_discount_def score_diversification_def fresh_drop_stale drop_stale_sel fresh_fact_idem Let_def)
  then have "score_etf (drop_stale d) = score_etf d" by (simp only: score_etf_def all_factors_def)
  moreover have "evaluate_etf_risk_gates (drop_stale d) r = evaluate_etf_risk_gates d r" for r
    by (simp only: evaluate_etf_risk_gates_def mandatory_technical_def extreme_illiquidity_def abnormal_premium_def
        very_low_aum_def poor_tracking_def fresh_drop_stale drop_stale_sel fresh_fact_idem Let_def)
  ultimately show ?thesis by (simp only: recommend_def Let_def)
qed

end
