(* ===== verification/Connector.thy ===== *)
theory Connector
  imports Prelude PyStr
begin

text \<open>
  The IBKR Gateway session manager of \<open>services/ibkr-connector/app/runtime.py\<close>: sessions with their
  owner, login token, cookies and gateway process, the probe that decides the authentication status,
  and the operations create, status, stop, restart and gateway access.

  Session objects are mutable and shared, so they live in a list of objects and are referred to by
  index; the manager's dictionary maps a connector to such a reference, and a pending probe holds one.
  An operation that awaits is split at the await.  Operating system and gateway are inputs: the set of
  running processes, whether a process could be started or terminated (\<open>spawn\<close>, \<open>kill\<close>), the response of
  a request, the new login token.  Messages, logging and the text of a parsed cookie header are left out.
\<close>

section \<open>Data\<close>

datatype conn_state =
    STARTING | AUTHENTICATION_REQUIRED | AUTHENTICATING | CONNECTED | SESSION_EXPIRED | DEGRADED | STOPPING
  | STOPPED | ERROR

datatype conn_code =
    C_STARTING | C_STOPPING | C_STOPPED | C_CONNECTED | C_SESSION_EXPIRED | C_AUTHENTICATION_REQUIRED
  | GATEWAY_PACKAGE_MISSING | GATEWAY_PACKAGE_INVALID | GATEWAY_PROCESS_EXITED | GATEWAY_BASE_URL_MISSING
  | GATEWAY_NOT_FOUND | GATEWAY_UNAVAILABLE | DEV_SINGLE_CONNECTOR_LIMIT | CONNECTOR_NOT_FOUND
  | CONNECTOR_FORBIDDEN | LOGIN_TOKEN_INVALID | TRADING_FORBIDDEN

text \<open>
  A \<open>ConnectorError\<close> carries its code; a response body that is no JSON, a probe answered with JSON that is
  no object (\<open>payload.get\<close>), and a process that cannot be started or terminated raise something else.
\<close>

datatype conn_error = Connector_Error conn_code | Json_Error | Payload_Error | Process_Error

record conn_session =
  cs_connector :: nat
  cs_user :: nat
  cs_token :: nat
  cs_runtime :: conn_state
  cs_auth :: conn_state
  cs_heartbeat :: "time option"
  cs_authenticated :: "time option"
  cs_process :: "nat option"
  cs_cookies :: "(string \<times> string) list"
  cs_clear :: "string list"
  cs_reset_pending :: bool
  cs_code :: conn_code

definition new_session :: "nat \<Rightarrow> nat \<Rightarrow> nat \<Rightarrow> string list \<Rightarrow> conn_session" where
  "new_session cid uid token clear = \<lparr>cs_connector = cid, cs_user = uid, cs_token = token, cs_runtime = STARTING,
     cs_auth = AUTHENTICATION_REQUIRED, cs_heartbeat = None, cs_authenticated = None, cs_process = None,
     cs_cookies = [], cs_clear = clear, cs_reset_pending = True, cs_code = C_STARTING\<rparr>"

record conn_settings =
  st_package_path :: bool
  st_package_valid :: bool
  st_base_url :: bool

record manager =
  mg_objects :: "conn_session list"
  mg_sessions :: "(nat \<times> nat) list"
  mg_live :: "nat list"
  mg_next_pid :: nat
  mg_locked :: bool

definition new_manager :: manager where
  "new_manager = \<lparr>mg_objects = [], mg_sessions = [], mg_live = [], mg_next_pid = 0, mg_locked = False\<rparr>"

definition sess :: "manager \<Rightarrow> nat \<Rightarrow> conn_session" where
  "sess m r = mg_objects m ! r"

definition put :: "nat \<Rightarrow> conn_session \<Rightarrow> manager \<Rightarrow> manager" where
  "put r s m = m\<lparr>mg_objects := (mg_objects m)[r := s]\<rparr>"

section \<open>Requests to the gateway\<close>

text \<open>Either a response with status, cookies (empty value: deletion) and body, or a transport failure.\<close>

datatype http = Response nat "(string \<times> string) list" "json option" | Transport_Failure

fun contains :: "string \<Rightarrow> string \<Rightarrow> bool" where
  "contains needle [] = (needle = [])"
| "contains needle (c # cs) = (take (length needle) (c # cs) = needle \<or> contains needle cs)"

definition is_trading_path :: "string \<Rightarrow> bool" where
  "is_trading_path path = list_ex (\<lambda>t. contains t (lower path))
     [''/orders'', ''/iserver/account/orders'', ''/iserver/reply'', ''/iserver/order'']"

definition remember_request_cookies :: "(string \<times> string) list \<Rightarrow> conn_session \<Rightarrow> conn_session" where
  "remember_request_cookies cookies s = s\<lparr>cs_cookies := fold (\<lambda>(k, v) d. dset k v d) cookies (cs_cookies s)\<rparr>"

definition remember_response_cookies :: "(string \<times> string) list \<Rightarrow> conn_session \<Rightarrow> conn_session" where
  "remember_response_cookies cookies s =
     s\<lparr>cs_cookies := fold (\<lambda>(k, v) d. if v \<noteq> [] then dset k v d else ddel k d) cookies (cs_cookies s)\<rparr>"

fun response_result :: "http \<Rightarrow> conn_error + json" where
  "response_result (Response status _ body) =
     (if status \<in> {401, 403} then Inl (Connector_Error C_SESSION_EXPIRED)
      else if status = 404 then Inl (Connector_Error GATEWAY_NOT_FOUND)
      else if \<not> (200 \<le> status \<and> status < 300) then Inl (Connector_Error GATEWAY_UNAVAILABLE)
      else case body of Some j \<Rightarrow> Inr j | None \<Rightarrow> Inl Json_Error)"
| "response_result Transport_Failure = Inl (Connector_Error GATEWAY_UNAVAILABLE)"

fun response_cookies :: "http \<Rightarrow> (string \<times> string) list" where
  "response_cookies (Response _ cookies _) = cookies"
| "response_cookies Transport_Failure = []"

definition gateway_fetch :: "conn_settings \<Rightarrow> string \<Rightarrow> http \<Rightarrow> conn_session \<Rightarrow> (conn_error + json) \<times> conn_session" where
  "gateway_fetch st path h s =
     (if \<not> st_base_url st then (Inl (Connector_Error GATEWAY_BASE_URL_MISSING), s)
      else if is_trading_path path then (Inl (Connector_Error TRADING_FORBIDDEN), s)
      else (response_result h, remember_response_cookies (response_cookies h) s))"

section \<open>Processes and status\<close>

definition running :: "manager \<Rightarrow> nat \<Rightarrow> bool" where
  "running m pid \<longleftrightarrow> pid \<in> set (mg_live m)"

definition start_gateway :: "conn_settings \<Rightarrow> bool \<Rightarrow> nat \<Rightarrow> manager \<Rightarrow> (conn_error + unit) \<times> manager" where
  "start_gateway st spawn r m =
     (let s = sess m r
      in if \<not> st_package_path st
         then (Inr (), put r (s\<lparr>cs_runtime := ERROR, cs_auth := SESSION_EXPIRED, cs_code := GATEWAY_PACKAGE_MISSING\<rparr>) m)
         else if \<not> st_package_valid st
         then (Inr (), put r (s\<lparr>cs_runtime := ERROR, cs_auth := SESSION_EXPIRED, cs_code := GATEWAY_PACKAGE_INVALID\<rparr>) m)
         else if \<not> spawn then (Inl Process_Error, m)
         else (let pid = mg_next_pid m
               in (Inr (), put r (s\<lparr>cs_process := Some pid, cs_runtime := STARTING, cs_auth := AUTHENTICATION_REQUIRED,
                          cs_code := C_STARTING\<rparr>)
                    (m\<lparr>mg_live := pid # mg_live m, mg_next_pid := pid + 1\<rparr>))))"

text \<open>The part of \<open>refresh_status\<close> before its request; the flag says whether the request is made.\<close>

definition refresh_begin :: "conn_settings \<Rightarrow> nat \<Rightarrow> manager \<Rightarrow> bool \<times> manager" where
  "refresh_begin st r m =
     (let s = sess m r
      in if cs_runtime s \<in> {STOPPED, STOPPING} then (False, m)
         else if (case cs_process s of Some pid \<Rightarrow> \<not> running m pid | None \<Rightarrow> False)
         then (False, put r (s\<lparr>cs_runtime := ERROR, cs_auth := SESSION_EXPIRED, cs_code := GATEWAY_PROCESS_EXITED\<rparr>) m)
         else if \<not> st_base_url st
         then (False, put r (s\<lparr>cs_runtime := DEGRADED, cs_auth := AUTHENTICATION_REQUIRED,
                               cs_code := GATEWAY_BASE_URL_MISSING\<rparr>) m)
         else (True, m))"

text \<open>The effect of the probe's outcome on the session.\<close>

definition apply_failure :: "conn_code \<Rightarrow> conn_session \<Rightarrow> conn_session" where
  "apply_failure code s =
     (if cs_runtime s = STARTING \<or> cs_authenticated s = None
      then s\<lparr>cs_runtime := AUTHENTICATION_REQUIRED, cs_auth := AUTHENTICATION_REQUIRED, cs_code := code\<rparr>
      else s\<lparr>cs_runtime := DEGRADED, cs_auth := SESSION_EXPIRED, cs_code := code\<rparr>)"

definition authenticated :: "json \<Rightarrow> bool" where
  "authenticated payload = truthy (jget payload ''authenticated'')"

definition competing :: "json \<Rightarrow> bool" where
  "competing payload \<longleftrightarrow> \<not> authenticated payload \<and>
     (truthy (jget payload ''competing'') \<or> jget payload ''connected'' = JBool False)"

definition apply_payload :: "time \<Rightarrow> json \<Rightarrow> conn_session \<Rightarrow> conn_session" where
  "apply_payload now payload s =
     (let s = s\<lparr>cs_heartbeat := Some now\<rparr>
      in if authenticated payload
         then s\<lparr>cs_runtime := CONNECTED, cs_auth := CONNECTED, cs_authenticated := Some now, cs_code := C_CONNECTED\<rparr>
         else if competing payload
         then s\<lparr>cs_runtime := DEGRADED, cs_auth := SESSION_EXPIRED, cs_code := C_SESSION_EXPIRED\<rparr>
         else s\<lparr>cs_runtime := AUTHENTICATION_REQUIRED, cs_auth := AUTHENTICATION_REQUIRED,
                cs_code := C_AUTHENTICATION_REQUIRED\<rparr>)"

text \<open>The part after the request; only a \<open>ConnectorError\<close> is caught.  A payload that is no object raises after the
  heartbeat is noted.\<close>

definition refresh_end :: "conn_settings \<Rightarrow> time \<Rightarrow> http \<Rightarrow> nat \<Rightarrow> manager \<Rightarrow> (conn_error + unit) \<times> manager" where
  "refresh_end st now h r m =
     (case gateway_fetch st ''/iserver/auth/status'' h (sess m r) of
        (Inl (Connector_Error code), s) \<Rightarrow> (Inr (), put r (apply_failure code s) m)
      | (Inl e, s) \<Rightarrow> (Inl e, put r s m)
      | (Inr payload, s) \<Rightarrow>
          (case payload of
             JObj _ \<Rightarrow> (Inr (), put r (apply_payload now payload s) m)
           | _ \<Rightarrow> (Inl Payload_Error, put r (s\<lparr>cs_heartbeat := Some now\<rparr>) m)))"

definition refresh_status :: "conn_settings \<Rightarrow> time \<Rightarrow> http \<Rightarrow> nat \<Rightarrow> manager \<Rightarrow> (conn_error + unit) \<times> manager" where
  "refresh_status st now h r m =
     (case refresh_begin st r m of
        (False, m) \<Rightarrow> (Inr (), m)
      | (True, m) \<Rightarrow> refresh_end st now h r m)"

section \<open>Operations\<close>

definition require_owner :: "nat \<Rightarrow> conn_session \<Rightarrow> conn_error + unit" where
  "require_owner uid s = (if cs_user s \<noteq> uid then Inl (Connector_Error CONNECTOR_FORBIDDEN) else Inr ())"

definition get_session :: "nat \<Rightarrow> nat \<Rightarrow> manager \<Rightarrow> conn_error + nat" where
  "get_session cid uid m =
     (case map_of (mg_sessions m) cid of
        None \<Rightarrow> Inl (Connector_Error CONNECTOR_NOT_FOUND)
      | Some r \<Rightarrow> (case require_owner uid (sess m r) of Inl e \<Rightarrow> Inl e | Inr _ \<Rightarrow> Inr r))"

definition require_login_token :: "nat \<Rightarrow> nat \<Rightarrow> manager \<Rightarrow> conn_error + nat" where
  "require_login_token cid token m =
     (case map_of (mg_sessions m) cid of
        None \<Rightarrow> Inl (Connector_Error LOGIN_TOKEN_INVALID)
      | Some r \<Rightarrow> if cs_token (sess m r) \<noteq> token then Inl (Connector_Error LOGIN_TOKEN_INVALID) else Inr r)"

text \<open>Allocate a session object, make it the connector's session and start its gateway; it stays the connector's
  session when the process cannot be started.\<close>

definition install :: "conn_settings \<Rightarrow> bool \<Rightarrow> conn_session \<Rightarrow> manager \<Rightarrow> (conn_error + nat) \<times> manager" where
  "install st spawn s m =
     (let r = length (mg_objects m)
      in case start_gateway st spawn r (m\<lparr>mg_objects := mg_objects m @ [s],
                                          mg_sessions := dset (cs_connector s) r (mg_sessions m)\<rparr>) of
           (Inl e, m) \<Rightarrow> (Inl e, m)
         | (Inr _, m) \<Rightarrow> (Inr r, m))"

text \<open>The existing or new session of \<open>create\<close>, before its status is refreshed.\<close>

definition create_session ::
    "conn_settings \<Rightarrow> bool \<Rightarrow> nat \<Rightarrow> nat \<Rightarrow> nat \<Rightarrow> manager \<Rightarrow> (conn_error + nat) \<times> manager" where
  "create_session st spawn cid uid token m =
     (case map_of (mg_sessions m) cid of
        Some r \<Rightarrow>
          (case require_owner uid (sess m r) of
             Inl e \<Rightarrow> (Inl e, m)
           | Inr _ \<Rightarrow>
               if cs_runtime (sess m r) = STOPPED then install st spawn (new_session cid uid token []) m
               else (Inr r, m))
      | None \<Rightarrow>
          if list_ex (\<lambda>(_, r). cs_runtime (sess m r) \<noteq> STOPPED) (mg_sessions m)
          then (Inl (Connector_Error DEV_SINGLE_CONNECTOR_LIMIT), m)
          else install st spawn (new_session cid uid token []) m)"

definition create ::
    "conn_settings \<Rightarrow> bool \<Rightarrow> nat \<Rightarrow> nat \<Rightarrow> nat \<Rightarrow> time \<Rightarrow> http \<Rightarrow> manager \<Rightarrow> (conn_error + nat) \<times> manager" where
  "create st spawn cid uid token now h m =
     (case create_session st spawn cid uid token m of
        (Inl e, m) \<Rightarrow> (Inl e, m)
      | (Inr r, m) \<Rightarrow>
          if cs_runtime (sess m r) = ERROR then (Inr r, m)
          else (case refresh_status st now h r m of
                  (Inl e, m) \<Rightarrow> (Inl e, m)
                | (Inr _, m) \<Rightarrow> (Inr r, m)))"

definition status :: "conn_settings \<Rightarrow> nat \<Rightarrow> nat \<Rightarrow> time \<Rightarrow> http \<Rightarrow> manager \<Rightarrow> (conn_error + nat) \<times> manager" where
  "status st cid uid now h m =
     (case get_session cid uid m of
        Inl e \<Rightarrow> (Inl e, m)
      | Inr r \<Rightarrow> (case refresh_status st now h r m of
                    (Inl e, m) \<Rightarrow> (Inl e, m)
                  | (Inr _, m) \<Rightarrow> (Inr r, m)))"

text \<open>
  \<open>stop\<close> has no await: the termination of the process blocks.  A process that has exited is not
  terminated; when the termination of a running one raises (it outlives the kill signal, or the
  signal is not permitted), the session is left as it is while it stops.
\<close>

definition stop_session :: "bool \<Rightarrow> nat \<Rightarrow> manager \<Rightarrow> (conn_error + unit) \<times> manager" where
  "stop_session kill r m =
     (let s = sess m r;
          alive = (case cs_process s of Some pid \<Rightarrow> running m pid | None \<Rightarrow> False)
      in if alive \<and> \<not> kill then (Inl Process_Error, put r (s\<lparr>cs_runtime := STOPPING, cs_code := C_STOPPING\<rparr>) m)
         else (Inr (), put r (s\<lparr>cs_runtime := STOPPED, cs_auth := SESSION_EXPIRED, cs_process := None, cs_code := C_STOPPED\<rparr>)
                (case cs_process s of
                   Some pid \<Rightarrow> m\<lparr>mg_live := removeAll pid (mg_live m)\<rparr>
                 | None \<Rightarrow> m)))"

definition stop :: "bool \<Rightarrow> nat \<Rightarrow> nat \<Rightarrow> manager \<Rightarrow> (conn_error + nat) \<times> manager" where
  "stop kill cid uid m =
     (case get_session cid uid m of
        Inl e \<Rightarrow> (Inl e, m)
      | Inr r \<Rightarrow>
          (case stop_session kill r m of
             (Inl e, m) \<Rightarrow> (Inl e, m)
           | (Inr _, m) \<Rightarrow> (Inr r, m)))"

text \<open>\<open>restart\<close> stops the session, then takes the lock and replaces it.\<close>

definition restart_replace ::
    "conn_settings \<Rightarrow> bool \<Rightarrow> nat \<Rightarrow> nat \<Rightarrow> nat \<Rightarrow> string list \<Rightarrow> manager \<Rightarrow> (conn_error + nat) \<times> manager" where
  "restart_replace st spawn cid uid token cookie_names m =
     (case get_session cid uid m of
        Inl e \<Rightarrow> (Inl e, m)
      | Inr _ \<Rightarrow> install st spawn (new_session cid uid token cookie_names) m)"

definition restart ::
    "conn_settings \<Rightarrow> bool \<Rightarrow> bool \<Rightarrow> nat \<Rightarrow> nat \<Rightarrow> nat \<Rightarrow> time \<Rightarrow> http \<Rightarrow> manager \<Rightarrow> (conn_error + nat) \<times> manager" where
  "restart st kill spawn cid uid token now h m =
     (case get_session cid uid m of
        Inl e \<Rightarrow> (Inl e, m)
      | Inr r \<Rightarrow>
          (case stop_session kill r m of
             (Inl e, m) \<Rightarrow> (Inl e, m)
           | (Inr _, m1) \<Rightarrow>
               (case restart_replace st spawn cid uid token (dkeys (cs_cookies (sess m r))) m1 of
                  (Inl e, m) \<Rightarrow> (Inl e, m)
                | (Inr r', m) \<Rightarrow>
                    if cs_runtime (sess m r') = ERROR then (Inr r', m)
                    else (case refresh_status st now h r' m of
                            (Inl e, m) \<Rightarrow> (Inl e, m)
                          | (Inr _, m) \<Rightarrow> (Inr r', m)))))"

definition gateway_get ::
    "conn_settings \<Rightarrow> nat \<Rightarrow> nat \<Rightarrow> string \<Rightarrow> time \<Rightarrow> http \<Rightarrow> http \<Rightarrow> manager \<Rightarrow> (conn_error + json) \<times> manager" where
  "gateway_get st cid uid path now probe h m =
     (case status st cid uid now probe m of
        (Inl e, m) \<Rightarrow> (Inl e, m)
      | (Inr r, m) \<Rightarrow>
          if cs_auth (sess m r) \<noteq> CONNECTED then (Inl (Connector_Error C_SESSION_EXPIRED), m)
          else (case gateway_fetch st path h (sess m r) of (res, s) \<Rightarrow> (res, put r s m)))"

section \<open>Interleaving\<close>

text \<open>
  What the event loop can run between two awaits.  \<open>pending\<close> are the sessions whose probe is under way,
  with whether the probe belongs to a \<open>create\<close> that holds the lock; \<open>restarts\<close> are restarts that have
  stopped their session and wait for the lock.
\<close>

record loop =
  lp_mgr :: manager
  lp_pending :: "(nat \<times> bool) list"
  lp_restarts :: "(nat \<times> nat \<times> string list) list"

definition new_loop :: loop where
  "new_loop = \<lparr>lp_mgr = new_manager, lp_pending = [], lp_restarts = []\<rparr>"

text \<open>Start a probe of \<open>r\<close>, which keeps the lock while it is under way if \<open>locked\<close>.\<close>

definition begin_probe :: "conn_settings \<Rightarrow> bool \<Rightarrow> nat \<Rightarrow> loop \<Rightarrow> loop" where
  "begin_probe st locked r l =
     (case refresh_begin st r (lp_mgr l) of
        (False, m) \<Rightarrow> l\<lparr>lp_mgr := m\<rparr>
      | (True, m) \<Rightarrow> l\<lparr>lp_mgr := (if locked then m\<lparr>mg_locked := True\<rparr> else m), lp_pending := (r, locked) # lp_pending l\<rparr>)"

inductive conn_step :: "conn_settings \<Rightarrow> loop \<Rightarrow> loop \<Rightarrow> bool" for st where
  step_create: "\<not> mg_locked (lp_mgr l) \<Longrightarrow> create_session st spawn cid uid token (lp_mgr l) = (res, m) \<Longrightarrow>
    conn_step st l
      (case res of
         Inl _ \<Rightarrow> l\<lparr>lp_mgr := m\<rparr>
       | Inr r \<Rightarrow> if cs_runtime (sess m r) = ERROR then l\<lparr>lp_mgr := m\<rparr> else begin_probe st True r (l\<lparr>lp_mgr := m\<rparr>))"
| step_status: "get_session cid uid (lp_mgr l) = Inr r \<Longrightarrow> conn_step st l (begin_probe st False r l)"
| step_probe: "(r, locked) \<in> set (lp_pending l) \<Longrightarrow> refresh_end st now h r (lp_mgr l) = (res, m) \<Longrightarrow>
    conn_step st l (l\<lparr>lp_mgr := (if locked then m\<lparr>mg_locked := False\<rparr> else m), lp_pending := remove1 (r, locked) (lp_pending l)\<rparr>)"
| step_stop: "stop kill cid uid (lp_mgr l) = (res, m) \<Longrightarrow> conn_step st l (l\<lparr>lp_mgr := m\<rparr>)"
| step_restart_stop: "get_session cid uid (lp_mgr l) = Inr r \<Longrightarrow> stop_session kill r (lp_mgr l) = (res, m) \<Longrightarrow>
    conn_step st l (l\<lparr>lp_mgr := m,
      lp_restarts := (case res of
         Inl _ \<Rightarrow> lp_restarts l
       | Inr _ \<Rightarrow> (cid, uid, dkeys (cs_cookies (sess (lp_mgr l) r))) # lp_restarts l)\<rparr>)"
| step_restart_replace: "(cid, uid, names) \<in> set (lp_restarts l) \<Longrightarrow> \<not> mg_locked (lp_mgr l) \<Longrightarrow>
    restart_replace st spawn cid uid token names (lp_mgr l) = (res, m) \<Longrightarrow>
    conn_step st l
      (let l' = l\<lparr>lp_mgr := m, lp_restarts := remove1 (cid, uid, names) (lp_restarts l)\<rparr>
       in case res of
            Inl _ \<Rightarrow> l'
          | Inr r \<Rightarrow> if cs_runtime (sess m r) = ERROR then l' else begin_probe st False r l')"
| step_cookies: "get_session cid uid (lp_mgr l) = Inr r \<Longrightarrow>
    conn_step st l (l\<lparr>lp_mgr := put r (remember_request_cookies cookies (sess (lp_mgr l) r)) (lp_mgr l)\<rparr>)"
| step_exit: "conn_step st l (l\<lparr>lp_mgr := (lp_mgr l)\<lparr>mg_live := removeAll pid (mg_live (lp_mgr l))\<rparr>\<rparr>)"

inductive conn_reach :: "conn_settings \<Rightarrow> loop \<Rightarrow> bool" for st where
  reach_init: "conn_reach st new_loop"
| reach_step: "conn_reach st l \<Longrightarrow> conn_step st l l' \<Longrightarrow> conn_reach st l'"

section \<open>Lemmas\<close>

lemma put_sel [simp]:
  "mg_sessions (put r s m) = mg_sessions m" "mg_live (put r s m) = mg_live m" "mg_next_pid (put r s m) = mg_next_pid m"
  "mg_locked (put r s m) = mg_locked m" "length (mg_objects (put r s m)) = length (mg_objects m)"
  by (simp_all add: put_def)

lemma sess_put [simp]: "r < length (mg_objects m) \<Longrightarrow> sess (put r s m) q = (if q = r then s else sess m q)"
  by (simp add: sess_def put_def nth_list_update)

lemma sess_upd [simp]:
  "sess (m\<lparr>mg_live := x\<rparr>) q = sess m q" "sess (m\<lparr>mg_next_pid := n\<rparr>) q = sess m q" "sess (m\<lparr>mg_locked := b\<rparr>) q = sess m q"
  by (simp_all add: sess_def)

lemma cookies_sel [simp]:
  "cs_connector (remember_response_cookies c s) = cs_connector s" "cs_user (remember_response_cookies c s) = cs_user s"
  "cs_runtime (remember_response_cookies c s) = cs_runtime s" "cs_auth (remember_response_cookies c s) = cs_auth s"
  "cs_heartbeat (remember_response_cookies c s) = cs_heartbeat s"
  "cs_authenticated (remember_response_cookies c s) = cs_authenticated s"
  "cs_process (remember_response_cookies c s) = cs_process s" "cs_token (remember_response_cookies c s) = cs_token s"
  "cs_connector (remember_request_cookies c s) = cs_connector s" "cs_user (remember_request_cookies c s) = cs_user s"
  "cs_runtime (remember_request_cookies c s) = cs_runtime s" "cs_auth (remember_request_cookies c s) = cs_auth s"
  "cs_heartbeat (remember_request_cookies c s) = cs_heartbeat s"
  "cs_authenticated (remember_request_cookies c s) = cs_authenticated s"
  "cs_process (remember_request_cookies c s) = cs_process s" "cs_token (remember_request_cookies c s) = cs_token s"
  by (simp_all add: remember_response_cookies_def remember_request_cookies_def)

text \<open>What a session promises on its own.\<close>

definition session_ok :: "conn_session \<Rightarrow> bool" where
  "session_ok s \<longleftrightarrow> (cs_runtime s = CONNECTED \<longrightarrow> cs_auth s = CONNECTED) \<and>
     (cs_auth s = CONNECTED \<longrightarrow> cs_runtime s \<in> {CONNECTED, STOPPING} \<and> cs_heartbeat s \<noteq> None \<and> cs_authenticated s \<noteq> None) \<and>
     (cs_runtime s = STOPPED \<longrightarrow> cs_process s = None)"

text \<open>One object may change, but keeps its identity; no object is lost and the dictionary is kept.\<close>

definition touches :: "nat \<Rightarrow> manager \<Rightarrow> manager \<Rightarrow> bool" where
  "touches r m m' \<longleftrightarrow> mg_sessions m' = mg_sessions m \<and> length (mg_objects m') = length (mg_objects m) \<and>
     (\<forall>q. q \<noteq> r \<longrightarrow> sess m' q = sess m q) \<and>
     cs_connector (sess m' r) = cs_connector (sess m r) \<and> cs_user (sess m' r) = cs_user (sess m r) \<and>
     cs_token (sess m' r) = cs_token (sess m r) \<and>
     (session_ok (sess m r) \<longrightarrow> session_ok (sess m' r))"

lemma touches_refl [simp]: "touches r m m"
  by (simp add: touches_def)

lemma touches_put:
  assumes "r < length (mg_objects m)" and "cs_connector s = cs_connector (sess m r)" and "cs_user s = cs_user (sess m r)"
    and "cs_token s = cs_token (sess m r)" and "session_ok (sess m r) \<Longrightarrow> session_ok s"
  shows "touches r m (put r s m)"
  using assms by (simp add: touches_def)

lemma touches_live [simp]:
  "touches r m (m'\<lparr>mg_live := x\<rparr>) = touches r m m'" "touches r (m\<lparr>mg_live := x\<rparr>) m' = touches r m m'"
  "touches r m (m'\<lparr>mg_next_pid := n\<rparr>) = touches r m m'" "touches r (m\<lparr>mg_next_pid := n\<rparr>) m' = touches r m m'"
  "touches r m (m'\<lparr>mg_locked := b\<rparr>) = touches r m m'"
  by (simp_all add: touches_def)

lemma refresh_begin_touches: "r < length (mg_objects m) \<Longrightarrow> touches r m (snd (refresh_begin st r m))"
  by (auto simp: refresh_begin_def Let_def session_ok_def intro!: touches_put)

lemma refresh_begin_True: "refresh_begin st r m = (True, m') \<Longrightarrow> m' = m"
  by (auto simp: refresh_begin_def Let_def split: if_splits)

lemma fetch_identity:
  "gateway_fetch st path h s = (res, s') \<Longrightarrow> s' = s \<or> s' = remember_response_cookies (response_cookies h) s"
  by (auto simp: gateway_fetch_def split: if_splits)

lemma session_ok_cookies [simp]:
  "session_ok (remember_response_cookies c s) = session_ok s" "session_ok (remember_request_cookies c s) = session_ok s"
  by (simp_all add: session_ok_def)

lemma apply_ok:
  "session_ok s \<Longrightarrow> session_ok (apply_failure code s)" "session_ok s \<Longrightarrow> session_ok (apply_payload now payload s)"
  by (auto simp: session_ok_def apply_failure_def apply_payload_def Let_def)

lemma apply_identity [simp]:
  "cs_connector (apply_failure code s) = cs_connector s" "cs_user (apply_failure code s) = cs_user s"
  "cs_token (apply_failure code s) = cs_token s" "cs_connector (apply_payload now payload s) = cs_connector s"
  "cs_user (apply_payload now payload s) = cs_user s" "cs_token (apply_payload now payload s) = cs_token s"
  by (simp_all add: apply_failure_def apply_payload_def Let_def)

lemma refresh_end_touches:
  assumes "r < length (mg_objects m)"
  shows "touches r m (snd (refresh_end st now h r m))"
proof -
  obtain res s where f: "gateway_fetch st ''/iserver/auth/status'' h (sess m r) = (res, s)" by fastforce
  have s: "cs_connector s = cs_connector (sess m r)" "cs_user s = cs_user (sess m r)" "cs_token s = cs_token (sess m r)"
      "session_ok (sess m r) \<Longrightarrow> session_ok s"
    using fetch_identity[OF f] by auto
  have "touches r m (put r s m)" "touches r m (put r (s\<lparr>cs_heartbeat := Some now\<rparr>) m)"
      "\<And>code. touches r m (put r (apply_failure code s) m)"
      "\<And>payload. touches r m (put r (apply_payload now payload s) m)"
    using s by (auto intro!: touches_put[OF assms] apply_ok) (auto simp: session_ok_def)
  then show ?thesis unfolding refresh_end_def f by (auto split: sum.splits conn_error.splits json.splits)
qed

lemma refresh_status_touches:
  assumes "r < length (mg_objects m)"
  shows "touches r m (snd (refresh_status st now h r m))"
proof (cases "refresh_begin st r m")
  case (Pair b m')
  then show ?thesis
    using refresh_begin_touches[OF assms, of st] refresh_end_touches[OF assms, of st now h] refresh_begin_True[of st r m m']
    by (cases b) (auto simp: refresh_status_def)
qed

lemma stop_touches: "r < length (mg_objects m) \<Longrightarrow> touches r m (snd (stop_session kill r m))"
  unfolding stop_session_def Let_def
  by (cases "cs_process (sess m r)") (auto intro!: touches_put simp: session_ok_def touches_def)

lemma start_touches: "r < length (mg_objects m) \<Longrightarrow> touches r m (snd (start_gateway st spawn r m))"
  by (auto simp: start_gateway_def Let_def session_ok_def touches_def)

section \<open>The invariant\<close>

definition conn_ok :: "manager \<Rightarrow> bool" where
  "conn_ok m \<longleftrightarrow> distinct (dkeys (mg_sessions m)) \<and>
     (\<forall>(cid, r) \<in> set (mg_sessions m). r < length (mg_objects m) \<and> cs_connector (sess m r) = cid) \<and>
     (\<forall>r < length (mg_objects m). session_ok (sess m r))"

definition owner_of :: "manager \<Rightarrow> nat \<Rightarrow> nat option" where
  "owner_of m cid = map_option (\<lambda>r. cs_user (sess m r)) (map_of (mg_sessions m) cid)"

lemma conn_ok_lookup:
  "conn_ok m \<Longrightarrow> map_of (mg_sessions m) cid = Some r \<Longrightarrow> r < length (mg_objects m) \<and> cs_connector (sess m r) = cid"
  by (auto simp: conn_ok_def dest!: map_of_SomeD)

lemma touches_identity:
  assumes "touches r m m'"
  shows "cs_connector (sess m' q) = cs_connector (sess m q)" and "cs_user (sess m' q) = cs_user (sess m q)"
    and "session_ok (sess m q) \<Longrightarrow> session_ok (sess m' q)" and "mg_sessions m' = mg_sessions m"
    and "length (mg_objects m') = length (mg_objects m)"
  using assms by (cases "q = r"; simp add: touches_def)+

lemma touches_ok: "touches r m m' \<Longrightarrow> conn_ok m \<Longrightarrow> conn_ok m'"
  unfolding conn_ok_def by (simp add: touches_identity)

lemma touches_owner: "touches r m m' \<Longrightarrow> owner_of m' cid = owner_of m cid"
  by (simp add: owner_of_def touches_identity)

lemma get_session_Some:
  "get_session cid uid m = Inr r \<longleftrightarrow> map_of (mg_sessions m) cid = Some r \<and> cs_user (sess m r) = uid"
  by (auto simp: get_session_def require_owner_def split: option.splits sum.splits if_splits)

lemma start_locked: "mg_locked (snd (start_gateway st spawn r m)) = mg_locked m"
  by (simp add: start_gateway_def Let_def)

lemma install_ok:
  assumes ok: "conn_ok m" and s: "session_ok s" and cid: "cs_connector s = cid" and i: "install st spawn s m = (res, m')"
    and o: "owner_of m cid = None \<or> owner_of m cid = Some (cs_user s)"
  shows "conn_ok m'" and "owner_of m c = Some u \<Longrightarrow> owner_of m' c = Some u" and "res = Inr r \<Longrightarrow> r < length (mg_objects m')"
    and "res = Inr r \<Longrightarrow> mg_sessions m' = dset cid r (mg_sessions m)" and "res = Inr r \<Longrightarrow> r = length (mg_objects m)"
    and "res = Inr r \<Longrightarrow> cs_token (sess m' r) = cs_token s"
    and "mg_locked m' = mg_locked m" and "length (mg_objects m) \<le> length (mg_objects m')"
proof -
  define n where "n = length (mg_objects m)"
  define m1 where "m1 = m\<lparr>mg_objects := mg_objects m @ [s], mg_sessions := dset cid n (mg_sessions m)\<rparr>"
  have m': "m' = snd (start_gateway st spawn n m1)" and res: "res = Inr r \<Longrightarrow> r = n" for r
    using i cid by (auto simp: install_def Let_def m1_def n_def split: prod.splits sum.splits)
  have old: "sess m1 q = sess m q" if "q < n" for q
    using that by (simp add: m1_def sess_def nth_append n_def)
  have new: "sess m1 n = s" by (simp add: m1_def sess_def n_def)
  have len: "length (mg_objects m1) = Suc n" by (simp add: m1_def n_def)
  have t: "touches n m1 m'" unfolding m' by (rule start_touches) (simp add: len)
  have d: "distinct (dkeys (mg_sessions m1))"
    using ok distinct_dset[of "mg_sessions m" cid n] by (simp add: m1_def conn_ok_def)
  have "conn_ok m1"
    unfolding conn_ok_def
  proof (intro conjI ballI allI impI)
    fix x assume x: "x \<in> set (mg_sessions m1)"
    obtain c q where cq: "x = (c, q)" by fastforce
    have "map_of (mg_sessions m1) c = Some q" using d x cq by (simp add: map_of_is_SomeI)
    then show "case x of (cid, r) \<Rightarrow> r < length (mg_objects m1) \<and> cs_connector (sess m1 r) = cid"
      using conn_ok_lookup[OF ok, of c q] old cid new by (auto simp: cq m1_def n_def split: if_splits)
  next
    fix q assume "q < length (mg_objects m1)"
    then show "session_ok (sess m1 q)"
      using ok s new old len by (cases "q = n") (auto simp: conn_ok_def n_def)
  qed (rule d)
  then show "conn_ok m'" by (rule touches_ok[OF t])
  have "owner_of m1 c = Some u" if "owner_of m c = Some u"
    using that o conn_ok_lookup[OF ok, of c] old new by (auto simp: owner_of_def m1_def n_def)
  then show "owner_of m c = Some u \<Longrightarrow> owner_of m' c = Some u" using touches_owner[OF t] by simp
  show "r < length (mg_objects m')" if "res = Inr r" using t len res[OF that] by (simp add: touches_def)
  show "mg_sessions m' = dset cid r (mg_sessions m)" if "res = Inr r" using t res[OF that] by (simp add: touches_def m1_def)
  show "r = length (mg_objects m)" if "res = Inr r" using res[OF that] by (simp add: n_def)
  show "cs_token (sess m' r) = cs_token s" if "res = Inr r" using t new res[OF that] by (simp add: touches_def)
  show "length (mg_objects m) \<le> length (mg_objects m')" using t len by (simp add: touches_def n_def)
  show "mg_locked m' = mg_locked m" by (simp add: m' m1_def start_locked)
qed

lemma new_session_ok [simp]: "session_ok (new_session cid uid token names)"
  by (simp add: session_ok_def new_session_def)

definition loop_ok :: "loop \<Rightarrow> bool" where
  "loop_ok l \<longleftrightarrow> conn_ok (lp_mgr l) \<and> (\<forall>(r, b) \<in> set (lp_pending l). r < length (mg_objects (lp_mgr l)))"

text \<open>A step keeps the invariant and every owner.\<close>

definition keeps :: "loop \<Rightarrow> loop \<Rightarrow> bool" where
  "keeps l l' \<longleftrightarrow> loop_ok l' \<and> (\<forall>cid u. owner_of (lp_mgr l) cid = Some u \<longrightarrow> owner_of (lp_mgr l') cid = Some u)"

lemma begin_probe_keeps:
  assumes "loop_ok l" and "r < length (mg_objects (lp_mgr l))"
  shows "keeps l (begin_probe st locked r l)"
proof -
  obtain b m where b: "refresh_begin st r (lp_mgr l) = (b, m)" by fastforce
  have t: "touches r (lp_mgr l) m" using refresh_begin_touches[OF assms(2), of st] b by simp
  have lk: "conn_ok (m\<lparr>mg_locked := x\<rparr>) = conn_ok m" "owner_of (m\<lparr>mg_locked := x\<rparr>) c = owner_of m c" for x c
    by (simp_all add: conn_ok_def owner_of_def)
  have "conn_ok m" using touches_ok[OF t] assms(1) by (simp add: loop_ok_def)
  then show ?thesis
    using assms t lk by (auto simp: keeps_def loop_ok_def begin_probe_def b touches_owner touches_identity split: bool.splits)
qed

lemma touch_keeps:
  assumes "loop_ok l" and "touches r (lp_mgr l) m" and "set p \<subseteq> set (lp_pending l)"
  shows "keeps l (l\<lparr>lp_mgr := m, lp_pending := p\<rparr>)" "keeps l (l\<lparr>lp_mgr := m, lp_restarts := q\<rparr>)" "keeps l (l\<lparr>lp_mgr := m\<rparr>)"
  using assms touches_ok[OF assms(2)] touches_owner[OF assms(2)] touches_identity[OF assms(2)]
  by (auto simp: keeps_def loop_ok_def)

lemma keeps_trans: "keeps l l1 \<Longrightarrow> keeps l1 l2 \<Longrightarrow> keeps l l2"
  by (simp add: keeps_def)

lemma install_keeps:
  assumes "loop_ok l" and "install st spawn (new_session cid uid token names) (lp_mgr l) = (res, m)"
    and "owner_of (lp_mgr l) cid = None \<or> owner_of (lp_mgr l) cid = Some uid"
  shows "keeps l (l\<lparr>lp_mgr := m\<rparr>)" "res = Inr r \<Longrightarrow> r < length (mg_objects m)" "keeps l (l\<lparr>lp_mgr := m, lp_restarts := q\<rparr>)"
proof -
  have s: "session_ok (new_session cid uid token names)" "cs_connector (new_session cid uid token names) = cid"
      "cs_user (new_session cid uid token names) = uid" by simp_all (simp_all add: new_session_def)
  have ok: "conn_ok (lp_mgr l)" using assms(1) by (simp add: loop_ok_def)
  note i = install_ok[OF ok s(1,2) assms(2), unfolded s(3), OF assms(3)]
  have "\<forall>(r, b) \<in> set (lp_pending l). r < length (mg_objects m)"
    using assms(1) i(8) by (fastforce simp: loop_ok_def)
  then show "keeps l (l\<lparr>lp_mgr := m\<rparr>)" "keeps l (l\<lparr>lp_mgr := m, lp_restarts := q\<rparr>)"
    using i(1,2) by (auto simp: keeps_def loop_ok_def)
  show "res = Inr r \<Longrightarrow> r < length (mg_objects m)" by (rule i(3))
qed

lemma create_session_keeps:
  assumes "loop_ok l" and "create_session st spawn cid uid token (lp_mgr l) = (res, m)"
  shows "keeps l (l\<lparr>lp_mgr := m\<rparr>) \<and> (\<forall>r. res = Inr r \<longrightarrow> r < length (mg_objects m))"
proof (cases "map_of (mg_sessions (lp_mgr l)) cid")
  case None
  then have o: "owner_of (lp_mgr l) cid = None" by (simp add: owner_of_def)
  have "keeps l (l\<lparr>lp_mgr := lp_mgr l\<rparr>)" using assms(1) by (simp add: keeps_def)
  moreover have "m = lp_mgr l \<and> (\<exists>e. res = Inl e) \<or> install st spawn (new_session cid uid token []) (lp_mgr l) = (res, m)"
    using assms(2) None by (auto simp: create_session_def split: if_splits)
  ultimately show ?thesis using install_keeps[OF assms(1) _ disjI1[OF o]] by auto
next
  case (Some q)
  then have q: "q < length (mg_objects (lp_mgr l))" using assms(1) conn_ok_lookup by (auto simp: loop_ok_def)
  have k: "keeps l (l\<lparr>lp_mgr := lp_mgr l\<rparr>)" using assms(1) by (simp add: keeps_def)
  show ?thesis
  proof (cases "cs_user (sess (lp_mgr l) q) = uid")
    case True
    then have o: "owner_of (lp_mgr l) cid = Some uid" using Some by (simp add: owner_of_def)
    have "m = lp_mgr l \<and> res = Inr q \<or> install st spawn (new_session cid uid token []) (lp_mgr l) = (res, m)"
      using assms(2) Some True by (auto simp: create_session_def require_owner_def split: if_splits)
    then show ?thesis using install_keeps[OF assms(1) _ disjI2[OF o]] k q by auto
  next
    case False
    then show ?thesis using assms(2) Some k by (auto simp: create_session_def require_owner_def)
  qed
qed

lemma get_session_lt: "loop_ok l \<Longrightarrow> get_session cid uid (lp_mgr l) = Inr r \<Longrightarrow> r < length (mg_objects (lp_mgr l))"
  using conn_ok_lookup by (auto simp: loop_ok_def get_session_Some)

lemma step_keeps:
  assumes "conn_step st l l'" and ok: "loop_ok l"
  shows "keeps l l'"
  using assms(1)
proof (cases rule: conn_step.cases)
  case (step_create spawn cid uid token res m)
  note c = create_session_keeps[OF ok step_create(3)]
  then have k: "keeps l (l\<lparr>lp_mgr := m\<rparr>)" and "loop_ok (l\<lparr>lp_mgr := m\<rparr>)" by (simp_all add: keeps_def)
  from begin_probe_keeps[OF this(2), of _ st True] c
  have "keeps l (begin_probe st True r (l\<lparr>lp_mgr := m\<rparr>))" if "res = Inr r" for r
    using that keeps_trans[OF k] by simp
  then show ?thesis unfolding step_create(1) using k by (simp split: sum.split)
next
  case (step_status cid uid r)
  then show ?thesis using begin_probe_keeps[OF ok get_session_lt[OF ok]] by simp
next
  case (step_probe r locked now h res m)
  then have "r < length (mg_objects (lp_mgr l))" using ok by (auto simp: loop_ok_def)
  then have "touches r (lp_mgr l) m" using refresh_end_touches[of r "lp_mgr l" st now h] step_probe(3) by simp
  then have "touches r (lp_mgr l) (if locked then m\<lparr>mg_locked := False\<rparr> else m)" by simp
  from touch_keeps(1)[OF ok this, of "remove1 (r, locked) (lp_pending l)"] show ?thesis
    unfolding step_probe(1) by (simp add: set_remove1_subset)
next
  case (step_stop kill cid uid res m)
  have k: "keeps l (l\<lparr>lp_mgr := lp_mgr l\<rparr>)" using ok by (simp add: keeps_def)
  show ?thesis
  proof (cases "get_session cid uid (lp_mgr l)")
    case (Inl e)
    then show ?thesis unfolding step_stop(1) using step_stop(2) k by (simp add: stop_def)
  next
    case (Inr r)
    then have "m = snd (stop_session kill r (lp_mgr l))" using step_stop(2) by (auto simp: stop_def split: prod.splits sum.splits)
    then show ?thesis
      unfolding step_stop(1) using touch_keeps(3)[OF ok stop_touches[OF get_session_lt[OF ok Inr]], of "[]"] by simp
  qed
next
  case (step_restart_stop cid uid r kill res m)
  then have "m = snd (stop_session kill r (lp_mgr l))" by simp
  then show ?thesis
    unfolding step_restart_stop(1)
    using touch_keeps(2)[OF ok stop_touches[OF get_session_lt[OF ok step_restart_stop(2)]], of "[]"] by simp
next
  case (step_restart_replace cid uid names spawn token res m)
  define l1 where "l1 = l\<lparr>lp_mgr := m, lp_restarts := remove1 (cid, uid, names) (lp_restarts l)\<rparr>"
  have k: "keeps l l1 \<and> (\<forall>r. res = Inr r \<longrightarrow> r < length (mg_objects (lp_mgr l1)))"
  proof (cases "get_session cid uid (lp_mgr l)")
    case (Inl e)
    then show ?thesis using step_restart_replace(4) ok by (auto simp: restart_replace_def keeps_def l1_def loop_ok_def)
  next
    case (Inr q)
    then have q: "install st spawn (new_session cid uid token names) (lp_mgr l) = (res, m)"
      using step_restart_replace(4) by (simp add: restart_replace_def)
    have o: "owner_of (lp_mgr l) cid = Some uid" using Inr by (simp add: get_session_Some owner_of_def)
    show ?thesis using install_keeps[OF ok q disjI2[OF o]] by (simp add: l1_def)
  qed
  then have "keeps l (begin_probe st False r l1)" if "res = Inr r" for r
    using that begin_probe_keeps[of l1 r st False] keeps_trans[of l l1] by (simp add: keeps_def)
  then show ?thesis
    unfolding step_restart_replace(1) Let_def l1_def[symmetric] using k by (simp split: sum.split)
next
  case (step_cookies cid uid r cookies)
  have "touches r (lp_mgr l) (put r (remember_request_cookies cookies (sess (lp_mgr l) r)) (lp_mgr l))"
    by (rule touches_put) (use get_session_lt[OF ok step_cookies(2)] in simp_all)
  from touch_keeps(3)[OF ok this, of "[]"] show ?thesis unfolding step_cookies(1) by simp
next
  case (step_exit pid)
  then show ?thesis using ok
    by (auto simp: keeps_def loop_ok_def conn_ok_def owner_of_def)
qed

lemma reach_ok: "conn_reach st l \<Longrightarrow> loop_ok l"
proof (induction rule: conn_reach.induct)
  case reach_init
  show ?case by (simp add: loop_ok_def conn_ok_def new_loop_def new_manager_def)
next
  case (reach_step l l')
  then show ?case using step_keeps by (simp add: keeps_def)
qed

section \<open>Properties\<close>

text \<open>C32: the owner of a connector never changes: whatever the interleaving of requests, probes, restarts
  and process exits, a connector once created belongs to its user for good.\<close>

theorem owner_is_permanent:
  assumes "conn_reach st l" and "(conn_step st)\<^sup>*\<^sup>* l l'" and "owner_of (lp_mgr l) cid = Some u"
  shows "owner_of (lp_mgr l') cid = Some u"
proof -
  from assms(2) have "conn_reach st l' \<and> owner_of (lp_mgr l') cid = Some u"
  proof (induction rule: rtranclp_induct)
    case base
    show ?case using assms(1,3) by simp
  next
    case (step l1 l2)
    then show ?case using step_keeps[OF step(2) reach_ok] reach_step by (auto simp: keeps_def)
  qed
  then show ?thesis by simp
qed

text \<open>C33: a request for somebody else's connector fails with CONNECTOR_FORBIDDEN and changes nothing, for
  every operation of the manager.\<close>

theorem foreign_user_is_refused:
  assumes "owner_of m cid = Some u" and "u \<noteq> uid"
  shows "create st spawn cid uid token now h m = (Inl (Connector_Error CONNECTOR_FORBIDDEN), m) \<and>
    status st cid uid now h m = (Inl (Connector_Error CONNECTOR_FORBIDDEN), m) \<and>
    stop kill cid uid m = (Inl (Connector_Error CONNECTOR_FORBIDDEN), m) \<and>
    restart st kill spawn cid uid token now h m = (Inl (Connector_Error CONNECTOR_FORBIDDEN), m) \<and>
    gateway_get st cid uid path now h h' m = (Inl (Connector_Error CONNECTOR_FORBIDDEN), m)"
proof -
  from assms obtain r where r: "map_of (mg_sessions m) cid = Some r" "cs_user (sess m r) \<noteq> uid"
    by (auto simp: owner_of_def)
  then have "get_session cid uid m = Inl (Connector_Error CONNECTOR_FORBIDDEN)"
    by (simp add: get_session_def require_owner_def)
  then show ?thesis
    using r by (simp add: create_def create_session_def require_owner_def status_def stop_def restart_def gateway_get_def)
qed

text \<open>in every reachable state, whatever requests, probes, restarts and failures interleave, a session whose
  runtime is connected is authenticated; and an authenticated session has the moments of its authentication and
  of a heartbeat, and its runtime is connected unless a termination of its process failed, which leaves it
  stopping.\<close>

theorem connected_is_authenticated:
  assumes "conn_reach st l" and "(cid, r) \<in> set (mg_sessions (lp_mgr l))"
  shows "(cs_runtime (sess (lp_mgr l) r) = CONNECTED \<longrightarrow> cs_auth (sess (lp_mgr l) r) = CONNECTED) \<and>
    (cs_auth (sess (lp_mgr l) r) = CONNECTED \<longrightarrow> cs_runtime (sess (lp_mgr l) r) \<in> {CONNECTED, STOPPING} \<and>
       cs_authenticated (sess (lp_mgr l) r) \<noteq> None \<and> cs_heartbeat (sess (lp_mgr l) r) \<noteq> None)"
proof -
  have "conn_ok (lp_mgr l)" using reach_ok[OF assms(1)] by (simp add: loop_ok_def)
  then have "session_ok (sess (lp_mgr l) r)" using assms(2) by (auto simp: conn_ok_def)
  then show ?thesis unfolding session_ok_def by blast
qed





text \<open>a restart revokes the old login link: when it succeeds, the connector accepts exactly the new login
  token, and the old one is invalid.\<close>

theorem restart_revokes_login:
  assumes "conn_reach st l" and "restart st kill spawn cid uid token now h (lp_mgr l) = (Inr r, m)"
    and "map_of (mg_sessions (lp_mgr l)) cid = Some q" and "cs_token (sess (lp_mgr l) q) \<noteq> token"
  shows "require_login_token cid token m = Inr r \<and>
    require_login_token cid (cs_token (sess (lp_mgr l) q)) m = Inl (Connector_Error LOGIN_TOKEN_INVALID)"
proof -
  let ?m = "lp_mgr l"
  have ok: "conn_ok ?m" using reach_ok[OF assms(1)] by (simp add: loop_ok_def)
  have q: "q < length (mg_objects ?m)" using conn_ok_lookup[OF ok assms(3)] by simp
  have g: "get_session cid uid ?m = Inr q" using assms(2,3) by (auto simp: restart_def get_session_Some split: sum.splits)
  define s where "s = new_session cid uid token (dkeys (cs_cookies (sess ?m q)))"
  have s: "session_ok s" "cs_connector s = cid" "cs_user s = uid" "cs_token s = token" by (simp add: s_def) (simp_all add: s_def new_session_def)
  obtain m1 where m1: "stop_session kill q ?m = (Inr (), m1)"
    using assms(2) by (auto simp: restart_def g split: prod.splits sum.splits)
  have t: "touches q ?m m1" using stop_touches[OF q, of kill] by (simp add: m1)
  have ok1: "conn_ok m1" by (rule touches_ok[OF t ok])
  have g1: "get_session cid uid m1 = Inr q" using g touches_identity[OF t] by (simp add: get_session_Some)
  obtain r' m2 where i: "install st spawn s m1 = (Inr r', m2)"
    using assms(2) by (auto simp: restart_def g m1 restart_replace_def g1 s_def split: prod.splits sum.splits)
  have "owner_of m1 cid = Some (cs_user s)" using g1 s(3) by (simp add: get_session_Some owner_of_def)
  note inst = install_ok[OF ok1 s(1,2) i disjI2[OF this]]
  have m2: "map_of (mg_sessions m2) cid = Some r'" "cs_token (sess m2 r') = token" using inst(4,6) s(4) by simp_all
  have "r = r' \<and> (m = m2 \<or> m = snd (refresh_status st now h r' m2))"
    using assms(2) i by (auto simp: restart_def g m1 restart_replace_def g1 s_def[symmetric] split: if_splits sum.splits prod.splits)
  moreover have "touches r' m2 (snd (refresh_status st now h r' m2))" by (rule refresh_status_touches) (simp add: inst(3))
  ultimately have "r = r'" "mg_sessions m = mg_sessions m2" "cs_token (sess m r') = cs_token (sess m2 r')"
    by (auto simp: touches_def)
  then show ?thesis using m2 assms(4) by (simp add: require_login_token_def)
qed

section \<open>Runs\<close>

text \<open>Uninterrupted operations are sequences of steps.\<close>

definition idle :: "manager \<Rightarrow> loop" where
  "idle m = \<lparr>lp_mgr = m, lp_pending = [], lp_restarts = []\<rparr>"

lemma idle_sel [simp]: "lp_mgr (idle m) = m" "(idle m)\<lparr>lp_mgr := m'\<rparr> = idle m'"
  by (simp_all add: idle_def)

lemma idle_create:
  assumes "conn_reach st (idle m)" and "\<not> mg_locked m" and "create st spawn cid uid token now h m = (Inr r, m')"
  shows "conn_reach st (idle m') \<and> \<not> mg_locked m'"
proof -
  obtain r1 m1 where c: "create_session st spawn cid uid token m = (Inr r1, m1)"
    using assms(3) by (auto simp: create_def split: sum.splits prod.splits)
  have "mg_locked (snd (install st spawn x m)) = mg_locked m" for x
  proof -
    have "snd (install st spawn x m) = snd (start_gateway st spawn (length (mg_objects m))
        (m\<lparr>mg_objects := mg_objects m @ [x], mg_sessions := dset (cs_connector x) (length (mg_objects m)) (mg_sessions m)\<rparr>))"
      by (simp add: install_def Let_def split_beta split: sum.split)
    then show ?thesis by (simp add: start_locked)
  qed
  then have free: "\<not> mg_locked m1"
    using c assms(2) by (auto simp: create_session_def split: option.splits sum.splits if_splits) (metis snd_conv)+
  have s: "conn_reach st (if cs_runtime (sess m1 r1) = ERROR then idle m1 else begin_probe st True r1 (idle m1))"
    using reach_step[OF assms(1) step_create[where st=st and l="idle m" and spawn=spawn and cid=cid and uid=uid and token=token and res="Inr r1" and m=m1]]
      assms(2) c unfolding idle_sel sum.case by blast
  show ?thesis
  proof (cases "cs_runtime (sess m1 r1) = ERROR")
    case True
    then show ?thesis using s free assms(3) by (simp add: create_def c)
  next
    case False
    obtain b m2 where b: "refresh_begin st r1 m1 = (b, m2)" by fastforce
    show ?thesis
    proof (cases b)
      case True
      then have m2: "m2 = m1" using b refresh_begin_True[of st r1 m1 m2] by simp
      obtain res m3 where e: "refresh_end st now h r1 m1 = (res, m3)" by fastforce
      have lk: "refresh_end st now h r1 (m1\<lparr>mg_locked := True\<rparr>) = (res, m3\<lparr>mg_locked := True\<rparr>)"
        using e by (auto simp: refresh_end_def put_def split: sum.splits conn_error.splits prod.splits json.splits)
      have "mg_locked m3 = mg_locked m1"
        using e by (auto simp: refresh_end_def split: sum.splits conn_error.splits prod.splits json.splits)
      then have unl: "m3\<lparr>mg_locked := False\<rparr> = m3" using free by simp
      have "conn_reach st \<lparr>lp_mgr = m1\<lparr>mg_locked := True\<rparr>, lp_pending = [(r1, True)], lp_restarts = []\<rparr>"
        using s False b True m2 by (simp add: begin_probe_def idle_def)
      from reach_step[OF this step_probe[where st=st and r=r1 and locked=True and now=now and h=h and res=res and m="m3\<lparr>mg_locked := True\<rparr>"]] lk
      have "conn_reach st (idle m3)" using unl by (simp add: idle_def)
      then show ?thesis
        using assms(3) False b True m2 e \<open>mg_locked m3 = mg_locked m1\<close> free
        by (auto simp: create_def c refresh_status_def split: sum.splits)
    next
      case notb: False
      then have "conn_reach st (idle m2)" using s False b by (simp add: begin_probe_def idle_def)
      moreover have "mg_locked m2 = mg_locked m1" using b by (auto simp: refresh_begin_def Let_def split: if_splits)
      ultimately show ?thesis using assms(3) False b notb free by (auto simp: create_def c refresh_status_def)
    qed
  qed
qed

lemma idle_stop:
  assumes "conn_reach st (idle m)" and "stop kill cid uid m = (res, m')"
  shows "conn_reach st (idle m')"
  using reach_step[OF assms(1) step_stop[where st=st and kill=kill and cid=cid and uid=uid and l="idle m" and res=res and m=m']] assms(2) by (simp add: idle_def)

lemma idle_start: "conn_reach st (idle new_manager) \<and> \<not> mg_locked new_manager"
  using reach_init[of st] by (simp add: idle_def new_loop_def new_manager_def)

definition demo_settings :: conn_settings where
  "demo_settings = \<lparr>st_package_path = True, st_package_valid = True, st_base_url = True\<rparr>"

definition demo_probe :: http where
  "demo_probe = Response 200 [] (Some (JObj [(''authenticated'', JBool True)]))"

definition demo1 :: manager where
  "demo1 = snd (create demo_settings True 1 10 100 5 demo_probe new_manager)"

definition demo2 :: manager where
  "demo2 = snd (create demo_settings True 2 20 200 6 demo_probe (snd (stop True 1 10 demo1)))"

definition demo3 :: manager where
  "demo3 = snd (create demo_settings True 1 10 101 7 demo_probe demo2)"

lemma demo1_eval:
  "create demo_settings True 1 10 100 5 demo_probe new_manager = (Inr 0, demo1)"
  "owner_of demo1 1 = Some 10" "mg_live demo1 = [0]" "mg_sessions demo1 = [(1, 0)]" "cs_runtime (sess demo1 0) = CONNECTED"
  "cs_token (sess demo1 0) = 100" "fst (restart demo_settings True True 1 10 101 7 demo_probe demo1) = Inr 1"
  "fst (gateway_get demo_settings 1 10 ''/portfolio/accounts'' 6 demo_probe (Response 200 [] (Some (JInt 7))) demo1) = Inr (JInt 7)"
  by (code_simp)+

lemma demo_reach: "conn_reach demo_settings (idle demo1)"
  using idle_create[OF _ _ demo1_eval(1)] idle_start by blast

lemma owner_is_permanent_witness:
  "owner_of (lp_mgr (idle (snd (stop True 1 10 demo1)))) 1 = Some 10"
proof -
  have e: "stop True 1 10 demo1 = (Inr 0, snd (stop True 1 10 demo1))" by code_simp
  have "conn_step demo_settings (idle demo1) (idle (snd (stop True 1 10 demo1)))"
    using step_stop[where st=demo_settings and kill=True and cid=1 and uid=10 and l="idle demo1" and res="Inr 0"] e by (simp add: idle_def)
  then have "(conn_step demo_settings)\<^sup>*\<^sup>* (idle demo1) (idle (snd (stop True 1 10 demo1)))" by simp
  moreover have "owner_of (lp_mgr (idle demo1)) 1 = Some 10" using demo1_eval(2) by (simp add: idle_def)
  ultimately show ?thesis by (rule owner_is_permanent[OF demo_reach])
qed

lemma foreign_user_is_refused_witness:
  "stop True 1 11 demo1 = (Inl (Connector_Error CONNECTOR_FORBIDDEN), demo1)"
  using foreign_user_is_refused[OF demo1_eval(2), of 11] by simp

lemma connected_is_authenticated_witness: "cs_auth (sess demo1 0) = CONNECTED \<and> cs_heartbeat (sess demo1 0) \<noteq> None"
  using connected_is_authenticated[OF demo_reach, of 1 0] demo1_eval(4,5) by (simp add: idle_def)


lemma restart_revokes_login_witness:
  "require_login_token 1 100 (snd (restart demo_settings True True 1 10 101 7 demo_probe demo1)) = Inl (Connector_Error LOGIN_TOKEN_INVALID)"
proof -
  have "restart demo_settings True True 1 10 101 7 demo_probe (lp_mgr (idle demo1)) =
      (Inr 1, snd (restart demo_settings True True 1 10 101 7 demo_probe demo1))"
    using demo1_eval(7) by (simp add: idle_def prod_eq_iff)
  from restart_revokes_login[OF demo_reach this, of 0] demo1_eval(4,6) show ?thesis by (simp add: idle_def)
qed

section \<open>What the interleavings and branches allow\<close>

text \<open>
  When the termination of a gateway process fails, the session is left stopping and authenticated, and its
  data is read without a probe: here the gateway answers the probe that is not made with no authentication.
\<close>

lemma failed_stop_serves_without_probe:
  "\<exists>l. conn_reach demo_settings l \<and> cs_runtime (sess (lp_mgr l) 0) = STOPPING \<and>
     map_of (mg_sessions (lp_mgr l)) 1 = Some 0 \<and>
     fst (gateway_get demo_settings 1 10 ''/portfolio/accounts'' 6 Transport_Failure
       (Response 200 [] (Some (JInt 7))) (lp_mgr l)) = Inr (JInt 7)"
proof -
  define m where "m = snd (stop False 1 10 demo1)"
  have "stop False 1 10 demo1 = (Inl Process_Error, m)" unfolding m_def by code_simp
  then have "conn_reach demo_settings (idle m)" by (rule idle_stop[OF demo_reach])
  moreover have "cs_runtime (sess m 0) = STOPPING" "map_of (mg_sessions m) 1 = Some 0"
      "fst (gateway_get demo_settings 1 10 ''/portfolio/accounts'' 6 Transport_Failure (Response 200 [] (Some (JInt 7))) m) = Inr (JInt 7)"
    unfolding m_def by code_simp+
  ultimately show ?thesis by (intro exI[of _ "idle m"]) (simp add: idle_def)
qed

text \<open>
  A gateway that could not be started keeps its session: creating the connector again only probes it,
  and every other connector is kept out.
\<close>

lemma failed_start_is_not_retried:
  "\<exists>m. create demo_settings False 1 10 100 5 demo_probe new_manager = (Inl Process_Error, m) \<and>
     fst (create demo_settings True 1 10 101 6 Transport_Failure m) = Inr 0 \<and>
     mg_live (snd (create demo_settings True 1 10 101 6 Transport_Failure m)) = [] \<and>
     fst (create demo_settings True 2 20 200 6 demo_probe m) = Inl (Connector_Error DEV_SINGLE_CONNECTOR_LIMIT)"
  by (rule exI[of _ "snd (create demo_settings False 1 10 100 5 demo_probe new_manager)"]) code_simp

text \<open>
  The limit of one gateway is only enforced when a connector is created for the first time: creating a
  stopped connector again starts its gateway without looking at the others.
\<close>

lemma two_gateways_reachable:
  "\<exists>l. conn_reach demo_settings l \<and> mg_live (lp_mgr l) = [2, 1] \<and>
     cs_runtime (sess (lp_mgr l) 1) = CONNECTED \<and> cs_runtime (sess (lp_mgr l) 2) = CONNECTED \<and>
     map_of (mg_sessions (lp_mgr l)) 2 = Some 1 \<and> map_of (mg_sessions (lp_mgr l)) 1 = Some 2"
proof -
  have s: "stop True 1 10 demo1 = (Inr 0, snd (stop True 1 10 demo1))"
    and c2: "create demo_settings True 2 20 200 6 demo_probe (snd (stop True 1 10 demo1)) = (Inr 1, demo2)"
    and c3: "create demo_settings True 1 10 101 7 demo_probe demo2 = (Inr 2, demo3)"
    and free: "\<not> mg_locked (snd (stop True 1 10 demo1))" "\<not> mg_locked demo2"
    by code_simp+
  have "conn_reach demo_settings (idle (snd (stop True 1 10 demo1)))" by (rule idle_stop[OF demo_reach s])
  then have "conn_reach demo_settings (idle demo2)" using idle_create[OF _ free(1) c2] by blast
  then have "conn_reach demo_settings (idle demo3)" using idle_create[OF _ free(2) c3] by blast
  moreover have "mg_live demo3 = [2, 1]" "cs_runtime (sess demo3 1) = CONNECTED" "cs_runtime (sess demo3 2) = CONNECTED"
    "map_of (mg_sessions demo3) 2 = Some 1" "map_of (mg_sessions demo3) 1 = Some 2"
    by code_simp+
  ultimately show ?thesis by (intro exI[of _ "idle demo3"]) (simp add: idle_def)
qed

text \<open>
  A probe that is under way while the connector is stopped overwrites the stopped state: no process is
  left, yet the session counts as active and keeps every other connector out.
\<close>

lemma stopped_session_revived:
  "\<exists>l. conn_reach demo_settings l \<and> mg_live (lp_mgr l) = [] \<and> lp_pending l = [] \<and>
     cs_runtime (sess (lp_mgr l) 0) = DEGRADED \<and> cs_process (sess (lp_mgr l) 0) = None \<and>
     fst (create demo_settings True 2 20 200 8 demo_probe (lp_mgr l)) = Inl (Connector_Error DEV_SINGLE_CONNECTOR_LIMIT)"
proof -
  define m where "m = snd (stop True 1 10 demo1)"
  define m' where "m' = snd (refresh_end demo_settings 7 Transport_Failure 0 m)"
  have g: "get_session 1 10 demo1 = Inr 0" and b: "refresh_begin demo_settings 0 demo1 = (True, demo1)"
    and s: "stop True 1 10 demo1 = (Inr 0, m)" and e: "refresh_end demo_settings 7 Transport_Failure 0 m = (Inr (), m')"
    unfolding m'_def m_def by code_simp+
  define l1 where "l1 = \<lparr>lp_mgr = demo1, lp_pending = [(0, False)], lp_restarts = []\<rparr>"
  have "conn_step demo_settings (idle demo1) l1"
    using step_status[where st=demo_settings and cid=1 and uid=10 and l="idle demo1" and r=0] g b by (simp add: idle_def begin_probe_def l1_def)
  then have "conn_reach demo_settings l1" by (rule reach_step[OF demo_reach])
  moreover have "conn_step demo_settings l1 (l1\<lparr>lp_mgr := m\<rparr>)"
    using step_stop[where st=demo_settings and kill=True and cid=1 and uid=10 and l=l1 and res="Inr 0" and m=m] s by (simp add: l1_def)
  ultimately have "conn_reach demo_settings (l1\<lparr>lp_mgr := m\<rparr>)" by (rule reach_step)
  moreover have "conn_step demo_settings (l1\<lparr>lp_mgr := m\<rparr>) (idle m')"
    using step_probe[where st=demo_settings and r=0 and locked=False and l="l1\<lparr>lp_mgr := m\<rparr>" and now=7 and h=Transport_Failure and res="Inr ()" and m=m'] e
    by (simp add: l1_def idle_def)
  ultimately have "conn_reach demo_settings (idle m')" by (rule reach_step)
  moreover have "mg_live m' = []" "cs_runtime (sess m' 0) = DEGRADED" "cs_process (sess m' 0) = None"
    "fst (create demo_settings True 2 20 200 8 demo_probe m') = Inl (Connector_Error DEV_SINGLE_CONNECTOR_LIMIT)"
    unfolding m'_def m_def by code_simp+
  ultimately show ?thesis by (intro exI[of _ "idle m'"]) (simp add: idle_def)
qed

end
