(* ===== verification/StockRules.thy ===== *)
theory StockRules
  imports Prelude PyStr PyFloat
begin

text \<open>
  \<open>STOCK_RULE_ENGINE_V1\<close> of \<open>app/stock_rule_engine.py\<close>, from the scored metrics of the areas to the
  decision: eligibility, area results, the weighted scores, confidence and decision.  A score is a
  binary64 float, averages are Decimal arithmetic on its shortest decimal representation.  The
  explanatory fields of a metric, the source references and the texts of positive and negative factors
  are left out.
\<close>

section \<open>Data\<close>

datatype area =
    VALUATION | FUNDAMENTAL_BUSINESS_QUALITY | GROWTH | BALANCE_SHEET | QUARTERLY_EARNINGS_TREND
  | ORDER_BOOK_CAPACITY_CATALYSTS | PRICE_TECHNICAL | NEWS_GEOPOLITICAL_EVENTS | SHAREHOLDING
  | MANAGEMENT_GOVERNANCE | SECTOR_MACRO

fun area_weight :: "area \<Rightarrow> int" where
  "area_weight VALUATION = 18"
| "area_weight FUNDAMENTAL_BUSINESS_QUALITY = 16"
| "area_weight GROWTH = 14"
| "area_weight BALANCE_SHEET = 9"
| "area_weight QUARTERLY_EARNINGS_TREND = 9"
| "area_weight ORDER_BOOK_CAPACITY_CATALYSTS = 8"
| "area_weight PRICE_TECHNICAL = 7"
| "area_weight NEWS_GEOPOLITICAL_EVENTS = 7"
| "area_weight SHAREHOLDING = 4"
| "area_weight MANAGEMENT_GOVERNANCE = 5"
| "area_weight SECTOR_MACRO = 3"

datatype requirement_state =
    READY_FRESH | READY_STALE | PARTIAL | MISSING | CONFLICTING | UNSUPPORTED | NOT_APPLICABLE | REFRESHING | FAILED

datatype area_status = A_READY_FRESH | A_READY_STALE | A_PARTIAL | A_CONFLICTING | A_UNSCORABLE | A_UNSUPPORTED | A_NOT_APPLICABLE

datatype decision_signal = STRONG_BUY | BUY | ACCUMULATE | HOLD | REDUCE | AVOID | EXIT_REVIEW | INSUFFICIENT_DATA

datatype stock_confidence = HIGH | MEDIUM | LOW

datatype severity = SEV_HIGH | SEV_CRITICAL

datatype source_tier =
    OFFICIAL | REGULATORY | TRUSTED_MARKET_DATA | LICENSED_STRUCTURED | APPROVED_SECONDARY | APPROVED_EXTERNAL_TOOL
  | USER_UPLOAD | UNVERIFIED

record research_requirement =
  rr_id :: string
  rr_area :: area
  rr_mandatory :: bool
  rr_status :: requirement_state
  rr_tier :: "source_tier option"
  rr_evidence :: "string list"
  rr_missing :: "string list"
  rr_concepts :: "(string \<times> string) list"
  rr_excluded :: "string list"
  rr_applicability :: "string option"

record readiness =
  rd_requirements :: "research_requirement list"
  rd_overall_pct :: int
  rd_critical_pct :: int

record metric_result =
  mr_metric :: string
  mr_score :: rat
  mr_weight :: int
  mr_applied :: rat
  mr_evidence :: "string list"

record area_result =
  ar_area :: area
  ar_weight :: int
  ar_raw :: "rat option"
  ar_contribution :: rat
  ar_status :: area_status
  ar_applicable :: bool
  ar_metrics :: "metric_result list"
  ar_evidence :: "string list"
  ar_missing :: "string list"

record override =
  ov_code :: string
  ov_severity :: severity
  ov_block_buy :: bool
  ov_evidence :: "string list"

record eligibility =
  el_full :: bool
  el_partial :: bool
  el_blocking :: "string list"
  el_reason :: string

record stock_result =
  sr_overall :: "rat option"
  sr_quality :: "rat option"
  sr_opportunity :: "rat option"
  sr_risk :: "rat option"
  sr_confidence_score :: rat
  sr_confidence :: stock_confidence
  sr_decision :: decision_signal
  sr_partial :: bool
  sr_eligibility :: eligibility
  sr_missing :: "string list"
  sr_evidence :: "string list"

section \<open>Scores\<close>

text \<open>\<open>float(Decimal(str(value)).quantize(Decimal("0.01")))\<close>, of a Decimal and of a float.\<close>

definition round_score :: "rat \<Rightarrow> rat" where "round_score x = fl64 (quantize 2 x)"
definition round_score_float :: "rat \<Rightarrow> rat" where "round_score_float x = round_score (repr_dec x)"

definition clamp :: "rat \<Rightarrow> rat" where "clamp x = max 0 (min 100 x)"

definition decimal_sum :: "rat list \<Rightarrow> rat" where
  "decimal_sum xs = foldl (\<lambda>acc x. dec28 (acc + x)) 0 xs"

text \<open>\<open>sum(Decimal(str(score)) * weight) / Decimal(total)\<close>, rounded; no weight gives no score.\<close>

definition weighted_mean :: "(rat \<times> int) list \<Rightarrow> rat option" where
  "weighted_mean xs =
     (let tot = sum_list (map snd xs)
      in if tot = 0 then None
         else Some (round_score (dec28 (decimal_sum (map (\<lambda>(s, w). dec28 (repr_dec s * of_int w)) xs) / of_int tot))))"

definition area_weighted_score :: "area_result list \<Rightarrow> area list \<Rightarrow> rat option" where
  "area_weighted_score rs areas =
     weighted_mean (List.map_filter (\<lambda>r. if ar_area r \<in> set areas then map_option (\<lambda>s. (s, ar_weight r)) (ar_raw r) else None) rs)"

definition custom_area_score :: "area_result list \<Rightarrow> (area \<times> int) list \<Rightarrow> rat option" where
  "custom_area_score rs weights =
     weighted_mean (List.map_filter (\<lambda>r. case (ar_raw r, map_of weights (ar_area r)) of
        (Some s, Some w) \<Rightarrow> Some (s, w) | _ \<Rightarrow> None) rs)"

section \<open>Eligibility\<close>

definition current_news_is_optional :: "string \<Rightarrow> bool" where
  "current_news_is_optional rid \<longleftrightarrow> rid = ''CURRENT_NEWS''"

definition CRITICAL_REQUIREMENTS :: "string list" where
  "CRITICAL_REQUIREMENTS = [''VALUATION_INPUTS'', ''BUSINESS_QUALITY_FACTS'', ''BALANCE_SHEET_FACTS'',
     ''QUARTERLY_FINANCIALS'', ''LATEST_PRICE'']"

definition FULL_STATUSES :: "requirement_state set" where "FULL_STATUSES = {READY_FRESH, READY_STALE}"
definition EXEMPT_STATUSES :: "requirement_state set" where "EXEMPT_STATUSES = {NOT_APPLICABLE, UNSUPPORTED}"
definition PARTIAL_STATUSES :: "requirement_state set" where "PARTIAL_STATUSES = {READY_FRESH, READY_STALE, PARTIAL}"

definition by_id :: "readiness \<Rightarrow> string \<Rightarrow> research_requirement option" where
  "by_id rd rid = map_of (rev (map (\<lambda>r. (rr_id r, r)) (rd_requirements rd))) rid"

definition mandatory_blocking :: "readiness \<Rightarrow> string list" where
  "mandatory_blocking rd = sort (map rr_id (filter (\<lambda>r. rr_mandatory r \<and> rr_status r \<notin> FULL_STATUSES \<and>
     rr_status r \<notin> EXEMPT_STATUSES \<and> \<not> current_news_is_optional (rr_id r)) (rd_requirements rd)))"

definition critical_blocks :: "research_requirement option \<Rightarrow> bool" where
  "critical_blocks item \<longleftrightarrow>
     (case item of None \<Rightarrow> True | Some r \<Rightarrow> rr_status r \<notin> FULL_STATUSES \<and> rr_status r \<noteq> NOT_APPLICABLE)"

definition critical_blocking :: "readiness \<Rightarrow> string list" where
  "critical_blocking rd = sort (filter (\<lambda>k. critical_blocks (by_id rd k)) CRITICAL_REQUIREMENTS)"

definition status_in :: "requirement_state set \<Rightarrow> research_requirement option \<Rightarrow> bool" where
  "status_in S item \<longleftrightarrow> (case item of None \<Rightarrow> False | Some r \<Rightarrow> rr_status r \<in> S)"

definition evaluate_eligibility :: "readiness \<Rightarrow> eligibility" where
  "evaluate_eligibility rd =
     (let critical = map (by_id rd) CRITICAL_REQUIREMENTS;
          full = (80 \<le> rd_critical_pct rd \<and> mandatory_blocking rd = [] \<and> critical_blocking rd = []);
          usable_critical = length (filter (status_in PARTIAL_STATUSES) critical);
          conflict = list_ex (status_in {CONFLICTING}) critical;
          partial = (\<not> full \<and> 50 \<le> rd_critical_pct rd \<and> 3 \<le> usable_critical \<and>
            status_in PARTIAL_STATUSES (by_id rd ''LATEST_PRICE'') \<and> \<not> conflict)
      in \<lparr>el_full = full, el_partial = partial,
          el_blocking = sorted_set (mandatory_blocking rd @ critical_blocking rd),
          el_reason = (if full then ''FULL_CRITICAL_AND_MANDATORY_INPUTS_AVAILABLE''
            else if partial then ''MINIMUM_SAFE_PARTIAL_GATE_AVAILABLE''
            else ''MINIMUM_SAFE_CRITICAL_INPUTS_UNAVAILABLE'')\<rparr>)"

fun area_name :: "area \<Rightarrow> string" where
  "area_name VALUATION = ''VALUATION''"
| "area_name FUNDAMENTAL_BUSINESS_QUALITY = ''FUNDAMENTAL_BUSINESS_QUALITY''"
| "area_name GROWTH = ''GROWTH''"
| "area_name BALANCE_SHEET = ''BALANCE_SHEET''"
| "area_name QUARTERLY_EARNINGS_TREND = ''QUARTERLY_EARNINGS_TREND''"
| "area_name ORDER_BOOK_CAPACITY_CATALYSTS = ''ORDER_BOOK_CAPACITY_CATALYSTS''"
| "area_name PRICE_TECHNICAL = ''PRICE_TECHNICAL''"
| "area_name NEWS_GEOPOLITICAL_EVENTS = ''NEWS_GEOPOLITICAL_EVENTS''"
| "area_name SHAREHOLDING = ''SHAREHOLDING''"
| "area_name MANAGEMENT_GOVERNANCE = ''MANAGEMENT_GOVERNANCE''"
| "area_name SECTOR_MACRO = ''SECTOR_MACRO''"

definition unscorable_areas :: "area_result list \<Rightarrow> area list" where
  "unscorable_areas rs = map ar_area (filter (\<lambda>r. ar_applicable r \<and> ar_status r = A_UNSCORABLE \<and>
     ar_area r \<noteq> NEWS_GEOPOLITICAL_EVENTS) rs)"

definition require_scorable_areas :: "eligibility \<Rightarrow> readiness \<Rightarrow> area_result list \<Rightarrow> eligibility" where
  "require_scorable_areas el rd rs =
     (if \<not> el_full el then el
      else (let unscorable = unscorable_areas rs;
                ids = map rr_id (filter (\<lambda>r. rr_area r \<in> set unscorable) (rd_requirements rd));
                blocked = (if ids = [] then map area_name unscorable else ids)
            in if unscorable = [] then el
               else \<lparr>el_full = False, el_partial = True, el_blocking = sorted_set (el_blocking el @ blocked),
                     el_reason = ''APPLICABLE_RULE_ENGINE_AREA_UNSCORABLE''\<rparr>))"

section \<open>Area results\<close>

definition CONCEPT_INPUTS :: "(string \<times> string) list" where
  "CONCEPT_INPUTS = [(''ORDER_BOOK'', ''ORDER_BOOK_OR_MAJOR_CONTRACT''),
     (''CAPEX'', ''CAPACITY_OR_CAPEX_OR_COMMISSIONING''), (''GUIDANCE'', ''MANAGEMENT_GUIDANCE'')]"

text \<open>The missing inputs that the readiness of an area reports.\<close>

definition readiness_missing :: "research_requirement list \<Rightarrow> string list" where
  "readiness_missing items =
     concat (map rr_missing items) @
     List.map_filter (\<lambda>(c, st). if st \<in> {''READY_FRESH'', ''READY_STALE'', ''NOT_APPLICABLE''} then None else map_of CONCEPT_INPUTS c)
       (concat (map rr_concepts items))"

definition empty_area :: "area \<Rightarrow> area_status \<Rightarrow> bool \<Rightarrow> string list \<Rightarrow> string list \<Rightarrow> area_result" where
  "empty_area a st app evidence missing = \<lparr>ar_area = a, ar_weight = area_weight a, ar_raw = None, ar_contribution = 0,
     ar_status = st, ar_applicable = app, ar_metrics = [], ar_evidence = evidence, ar_missing = missing\<rparr>"

text \<open>The metrics come with their weights; a metric's own weight fields are set here.\<close>

definition finish :: "readiness \<Rightarrow> area \<Rightarrow> metric_result list \<Rightarrow> string list \<Rightarrow> bool \<Rightarrow> area_result" where
  "finish rd a metrics missing applicable =
     (let items = filter (\<lambda>r. rr_area r = a) (rd_requirements rd);
          readiness_evidence = concat (map rr_evidence items);
          states = map snd (concat (map rr_concepts items));
          missing_inputs = sorted_set (missing @ readiness_missing items);
          tot = sum_list (map mr_weight metrics);
          applied = map (\<lambda>m. m\<lparr>mr_applied := round_score (dec28 (of_int (mr_weight m * 100) / of_int tot))\<rparr>) metrics
      in if items \<noteq> [] \<and> list_all (\<lambda>r. rr_status r = NOT_APPLICABLE) items
         then empty_area a A_NOT_APPLICABLE False [] []
         else if \<not> applicable \<or> (items \<noteq> [] \<and> list_all (\<lambda>r. rr_status r = UNSUPPORTED) items)
         then empty_area a A_UNSUPPORTED False (sorted_set readiness_evidence) []
         else (case weighted_mean (map (\<lambda>m. (mr_score m, mr_weight m)) metrics) of
             None \<Rightarrow> empty_area a A_UNSCORABLE True (sorted_set readiness_evidence) missing_inputs
           | Some raw \<Rightarrow>
               \<lparr>ar_area = a, ar_weight = area_weight a, ar_raw = Some raw,
                ar_contribution = round_score_float (fl64 (fl64 (raw * of_int (area_weight a)) / 100)),
                ar_status =
                  (if list_ex (\<lambda>r. rr_status r = CONFLICTING) items then A_CONFLICTING
                   else if list_ex (\<lambda>r. rr_status r \<in> {MISSING, PARTIAL, FAILED, REFRESHING}) items \<or> missing_inputs \<noteq> []
                   then A_PARTIAL
                   else if list_ex (\<lambda>r. rr_status r = READY_STALE) items \<or> ''READY_STALE'' \<in> set states
                   then A_READY_STALE else A_READY_FRESH),
                ar_applicable = True, ar_metrics = applied,
                ar_evidence = sorted_set (readiness_evidence @ concat (map mr_evidence metrics)),
                ar_missing = missing_inputs\<rparr>))"

section \<open>Confidence and decision\<close>

fun authority_points :: "source_tier \<Rightarrow> int" where
  "authority_points OFFICIAL = 100"
| "authority_points REGULATORY = 100"
| "authority_points TRUSTED_MARKET_DATA = 90"
| "authority_points LICENSED_STRUCTURED = 80"
| "authority_points APPROVED_SECONDARY = 65"
| "authority_points APPROVED_EXTERNAL_TOOL = 50"
| "authority_points USER_UPLOAD = 40"
| "authority_points UNVERIFIED = 20"

fun freshness_points :: "requirement_state \<Rightarrow> int" where
  "freshness_points READY_FRESH = 100"
| "freshness_points READY_STALE = 55"
| "freshness_points PARTIAL = 40"
| "freshness_points CONFLICTING = 20"
| "freshness_points REFRESHING = 20"
| "freshness_points _ = 0"

text \<open>An integer mean as a float, zero for nothing.\<close>

definition int_mean :: "int list \<Rightarrow> rat" where
  "int_mean xs = (if xs = [] then 0 else fl64 (of_int (sum_list xs) / of_nat (length xs)))"

definition confidence :: "readiness \<Rightarrow> rat" where
  "confidence rd =
     (let supported = filter (\<lambda>r. rr_status r \<notin> {UNSUPPORTED, NOT_APPLICABLE}) (rd_requirements rd);
          authority = int_mean (map authority_points (List.map_filter rr_tier supported));
          fresh = int_mean (map (freshness_points \<circ> rr_status) supported);
          conflicts = length (filter (\<lambda>r. rr_status r = CONFLICTING) supported);
          score = dec28 (dec28 (dec28 (dec28 (dec28 (of_int (rd_critical_pct rd) * (2 / 5)) +
              dec28 (of_int (rd_overall_pct rd) * (1 / 5))) +
            dec28 (repr_dec authority * (1 / 5))) +
          dec28 (repr_dec fresh * (1 / 5))) - of_nat (min 30 (conflicts * 15)))
      in round_score (clamp score))"

definition level_of :: "rat \<Rightarrow> stock_confidence" where
  "level_of score = (if 80 \<le> score then HIGH else if 55 \<le> score then MEDIUM else LOW)"

definition signal_for :: "rat \<Rightarrow> decision_signal" where
  "signal_for score =
     (if 85 \<le> score then STRONG_BUY else if 75 \<le> score then BUY else if 65 \<le> score then ACCUMULATE
      else if 50 \<le> score then HOLD else if 35 \<le> score then REDUCE else if 20 \<le> score then AVOID else EXIT_REVIEW)"

text \<open>
  \<open>all(readiness.for_requirement(key).status == READY_FRESH ...)\<close>: the first stale requirement ends the
  check; an absent requirement raises (None).
\<close>

fun critical_fresh :: "readiness \<Rightarrow> string list \<Rightarrow> bool option" where
  "critical_fresh rd [] = Some True"
| "critical_fresh rd (k # ks) =
     (case find (\<lambda>r. rr_id r = k) (rd_requirements rd) of
        None \<Rightarrow> None
      | Some r \<Rightarrow> if rr_status r = READY_FRESH then critical_fresh rd ks else Some False)"

definition decision ::
    "rat option \<Rightarrow> readiness \<Rightarrow> stock_confidence \<Rightarrow> bool \<Rightarrow> override list \<Rightarrow> decision_signal option" where
  "decision score rd conf partial overrides =
     (case score of
        None \<Rightarrow> Some INSUFFICIENT_DATA
      | Some s \<Rightarrow>
          if list_ex ov_block_buy overrides
          then Some (if list_ex (\<lambda>ov. ov_severity ov = SEV_CRITICAL) overrides then EXIT_REVIEW else AVOID)
          else (case critical_fresh rd CRITICAL_REQUIREMENTS of
                  None \<Rightarrow> None
                | Some fresh \<Rightarrow>
                    (let sig = signal_for s;
                         sig = (if sig = STRONG_BUY \<and> (rd_critical_pct rd < 100 \<or> conf \<noteq> HIGH \<or> \<not> fresh) then BUY else sig);
                         sig = (if list_ex (\<lambda>r. rr_status r = CONFLICTING \<and> rr_mandatory r) (rd_requirements rd) \<and>
                                   sig \<in> {STRONG_BUY, BUY} then HOLD else sig);
                         sig = (if partial \<and> sig \<in> {STRONG_BUY, BUY, ACCUMULATE} then HOLD else sig)
                     in Some sig)))"

definition QUALITY_AREAS :: "area list" where
  "QUALITY_AREAS = [FUNDAMENTAL_BUSINESS_QUALITY, GROWTH, BALANCE_SHEET, QUARTERLY_EARNINGS_TREND, MANAGEMENT_GOVERNANCE]"

definition OPPORTUNITY_AREAS :: "area list" where
  "OPPORTUNITY_AREAS = [VALUATION, ORDER_BOOK_CAPACITY_CATALYSTS, PRICE_TECHNICAL, NEWS_GEOPOLITICAL_EVENTS, SECTOR_MACRO]"

definition ALL_AREAS :: "area list" where
  "ALL_AREAS = [VALUATION, FUNDAMENTAL_BUSINESS_QUALITY, GROWTH, BALANCE_SHEET, QUARTERLY_EARNINGS_TREND,
     ORDER_BOOK_CAPACITY_CATALYSTS, PRICE_TECHNICAL, NEWS_GEOPOLITICAL_EVENTS, SHAREHOLDING, MANAGEMENT_GOVERNANCE, SECTOR_MACRO]"

definition RISK_WEIGHTS :: "(area \<times> int) list" where
  "RISK_WEIGHTS = [(BALANCE_SHEET, 30), (MANAGEMENT_GOVERNANCE, 30), (QUARTERLY_EARNINGS_TREND, 15),
     (NEWS_GEOPOLITICAL_EVENTS, 15), (FUNDAMENTAL_BUSINESS_QUALITY, 10)]"

text \<open>
  \<open>evaluate\<close> on the area results and the risk overrides; None is the exception of \<open>decision\<close>.
\<close>

definition evaluate_stock :: "readiness \<Rightarrow> area_result list \<Rightarrow> override list \<Rightarrow> bool \<Rightarrow> stock_result option" where
  "evaluate_stock rd areas overrides allow_partial =
     (let el = require_scorable_areas (evaluate_eligibility rd) rd areas;
          scorable = filter (\<lambda>r. ar_applicable r \<and> ar_raw r \<noteq> None) areas;
          raw_overall = area_weighted_score scorable ALL_AREAS;
          quality = area_weighted_score scorable QUALITY_AREAS;
          opportunity = area_weighted_score scorable OPPORTUNITY_AREAS;
          risk = map_option (\<lambda>r. round_score_float (fl64 (100 - r))) (custom_area_score scorable RISK_WEIGHTS);
          conf_score = confidence rd;
          conf = level_of conf_score;
          permitted = (el_full el \<or> (allow_partial \<and> el_partial el));
          partial = (\<not> el_full el);
          keep = (\<lambda>x. if permitted then x else None)
      in case (if permitted then decision raw_overall rd conf partial overrides else Some INSUFFICIENT_DATA) of
           None \<Rightarrow> None
         | Some d \<Rightarrow> Some \<lparr>sr_overall = keep raw_overall, sr_quality = keep quality, sr_opportunity = keep opportunity,
             sr_risk = keep risk, sr_confidence_score = conf_score, sr_confidence = conf, sr_decision = d,
             sr_partial = partial, sr_eligibility = el,
             sr_missing = sorted_set (el_blocking el @ concat (map ar_missing areas)),
             sr_evidence = sorted_set (concat (map ar_evidence areas) @ concat (map ov_evidence overrides))\<rparr>)"

section \<open>Weighted means of scores\<close>

text \<open>A score is a number of hundredths, as a float.\<close>

definition cents :: "int \<Rightarrow> rat" where "cents k = fl64 (of_int k / 100)"

definition is_score :: "rat \<Rightarrow> bool" where "is_score x \<longleftrightarrow> (\<exists>k. 0 \<le> k \<and> k \<le> 10000 \<and> x = cents k)"

lemma is_scoreI [intro]: "0 \<le> k \<Longrightarrow> k \<le> 10000 \<Longrightarrow> is_score (cents k)"
  by (auto simp: is_score_def)

lemma cents_mono: "j \<le> k \<Longrightarrow> cents j \<le> cents k"
  unfolding cents_def by (rule fl64_mono) (simp add: divide_right_mono)

lemma cents_100 [simp]: "cents 0 = 0" "cents 10000 = 100"
  by (simp_all add: cents_def)

lemma score_bounds: "is_score x \<Longrightarrow> 0 \<le> x \<and> x \<le> 100"
  unfolding is_score_def using cents_mono[of 0] cents_mono[of _ 10000] by fastforce

lemma repr_cents:
  assumes "0 \<le> k" and "k \<le> 10000"
  shows "repr_dec (cents k) = of_int k / 100"
proof (cases "k = 0")
  case True
  then show ?thesis by (simp add: repr_dec_def)
next
  case False
  then have "1 \<le> k" using assms by simp
  then have "(1::rat) / 100 \<le> of_int k / 100" by (simp add: divide_right_mono)
  moreover have "10 powi (- 300) \<le> (1::rat) / 100" by (simp add: power_int_minus field_simps)
  ultimately have d: "10 powi (- 300) \<le> of_int k / (100::rat)" by (rule order_trans[rotated])
  have e: "of_int k / 100 = of_int k * (10::rat) powi (- 2)" by (simp add: power_int_minus)
  have k: "0 < k" "k < 10 ^ 15" using assms False by simp_all
  have "short_decimal (of_int k / 100)"
    unfolding short_decimal_def using d e k by blast
  then show ?thesis unfolding cents_def by (rule repr_of_short_decimal)
qed

lemma few_digits_cents: "\<bar>m\<bar> < 10 ^ 28 \<Longrightarrow> few_digits 10 28 (- 1000026) (of_int m / 100)"
  unfolding few_digits_def by (intro exI[of _ m] exI[of _ "- 2"]) (simp add: power_int_minus)

lemma dec28_cents: "\<bar>m\<bar> < 10 ^ 28 \<Longrightarrow> dec28 (of_int m / 100) = of_int m / 100"
  by (rule decimal.rnd_exact[OF few_digits_cents])

lemma decimal_sum_cents:
  assumes "list_all (\<lambda>m. 0 \<le> m) ms" and "0 \<le> a" and "a + sum_list ms < 10 ^ 28"
  shows "foldl (\<lambda>acc x. dec28 (acc + x)) (of_int a / 100) (map (\<lambda>m. of_int m / 100) ms) = of_int (a + sum_list ms) / 100"
  using assms
proof (induction ms arbitrary: a)
  case (Cons m ms)
  have s: "0 \<le> sum_list ms" using Cons.prems(1) by (auto simp: list_all_iff intro!: sum_list_nonneg)
  then have "\<bar>a + m\<bar> < 10 ^ 28" using Cons.prems by simp
  then have "dec28 (of_int (a + m) / 100) = of_int (a + m) / 100" by (rule dec28_cents)
  moreover have "of_int a / 100 + of_int m / 100 = (of_int (a + m) / 100 :: rat)" by (simp add: add_divide_distrib)
  ultimately have "dec28 (of_int a / 100 + of_int m / 100) = of_int (a + m) / 100" by (simp only:)
  moreover have "list_all (\<lambda>m. 0 \<le> m) ms" "0 \<le> a + m" "a + m + sum_list ms < 10 ^ 28"
    using Cons.prems by simp_all
  ultimately show ?case
    unfolding list.map foldl_Cons sum_list.Cons add.assoc[symmetric] using Cons.IH[of "a + m"] by (simp only:)
qed simp

lemma round_between:
  assumes "of_int a / 100 \<le> x" and "x \<le> of_int b / 100"
  shows "\<exists>j. a \<le> j \<and> j \<le> b \<and> round_score x = cents j"
proof (intro exI conjI)
  show "a \<le> rnd_even (x * 100)" by (rule rnd_even_ge_int) (use assms in simp)
  show "rnd_even (x * 100) \<le> b" by (rule rnd_even_le_int) (use assms in simp)
  show "round_score x = cents (rnd_even (x * 100))" by (simp add: round_score_def quantize_def cents_def)
qed

text \<open>The scores of a weighted mean as hundredths.\<close>

definition score_terms :: "int \<Rightarrow> int \<Rightarrow> (rat \<times> int) list \<Rightarrow> bool" where
  "score_terms a b xs \<longleftrightarrow> 0 \<le> a \<and> b \<le> 10000 \<and>
     list_all (\<lambda>(s, w). (\<exists>k. a \<le> k \<and> k \<le> b \<and> s = cents k) \<and> 0 < w \<and> w \<le> 100) xs"

lemma score_terms_sums:
  assumes "score_terms a b xs"
  shows "\<exists>ms. map (\<lambda>(s, w). dec28 (repr_dec s * of_int w)) xs = map (\<lambda>m. of_int m / 100) ms \<and>
    list_all (\<lambda>m. 0 \<le> m) ms \<and> a * sum_list (map snd xs) \<le> sum_list ms \<and> sum_list ms \<le> b * sum_list (map snd xs) \<and>
    sum_list ms \<le> 1000000 * int (length xs)"
  using assms
proof (induction xs)
  case Nil
  show ?case by (intro exI[of _ "[]"]) simp
next
  case (Cons x xs)
  obtain s w where x: "x = (s, w)" by (cases x)
  obtain k where k: "a \<le> k" "k \<le> b" "s = cents k" and w: "0 < w" "w \<le> 100" and ab: "0 \<le> a" "b \<le> 10000"
    using Cons.prems unfolding x score_terms_def by auto
  obtain ms where ms: "map (\<lambda>(s, w). dec28 (repr_dec s * of_int w)) xs = map (\<lambda>m. of_int m / 100) ms"
      "list_all (\<lambda>m. 0 \<le> m) ms" "a * sum_list (map snd xs) \<le> sum_list ms" "sum_list ms \<le> b * sum_list (map snd xs)"
      "sum_list ms \<le> 1000000 * int (length xs)"
    using Cons.IH Cons.prems unfolding score_terms_def by auto
  have kw: "a * w \<le> k * w" "k * w \<le> b * w" "0 \<le> k * w" "k * w \<le> 1000000"
    using k w ab mult_mono[of k 10000 w 100] by (simp_all add: mult_right_mono)
  then have "\<bar>k * w\<bar> < 10 ^ 28" by simp
  then have "dec28 (of_int (k * w) / 100) = of_int (k * w) / 100" by (rule dec28_cents)
  moreover have "repr_dec s = of_int k / 100" unfolding k(3) by (rule repr_cents) (use k ab in simp_all)
  then have "repr_dec s * of_int w = of_int (k * w) / 100" by simp
  ultimately have "dec28 (repr_dec s * of_int w) = of_int (k * w) / 100" by (simp only:)
  then show ?case
    using ms kw by (intro exI[of _ "k * w # ms"]) (simp add: x distrib_left)
qed

lemma mean_bounds:
  assumes "0 < (W::int)"
  shows mean_lower: "a * W \<le> m \<Longrightarrow> of_int a / 100 \<le> (of_int m / 100 / of_int W :: rat)"
    and mean_upper: "m \<le> a * W \<Longrightarrow> (of_int m / 100 / of_int W :: rat) \<le> of_int a / 100"
proof -
  have W: "(0::rat) < of_int W" using assms by simp
  { assume "a * W \<le> m"
    then have "(of_int a :: rat) * of_int W \<le> of_int m" unfolding of_int_mult[symmetric] of_int_le_iff .
    then have "of_int a \<le> (of_int m / of_int W :: rat)" using W by (simp add: pos_le_divide_eq)
    then show "of_int a / 100 \<le> (of_int m / 100 / of_int W :: rat)" by (simp add: divide_right_mono) }
  { assume "m \<le> a * W"
    then have "(of_int m :: rat) \<le> of_int a * of_int W" unfolding of_int_mult[symmetric] of_int_le_iff .
    then have "(of_int m / of_int W :: rat) \<le> of_int a" using W by (simp add: pos_divide_le_eq)
    then show "(of_int m / 100 / of_int W :: rat) \<le> of_int a / 100" by (simp add: divide_right_mono) }
qed

lemma score_terms_total:
  assumes "score_terms a b xs" and "xs \<noteq> []"
  shows "0 < sum_list (map snd xs)"
proof (cases xs)
  case (Cons x ys)
  have "0 \<le> sum_list (map snd ys)"
    by (rule sum_list_nonneg) (use assms Cons in \<open>auto simp: score_terms_def list_all_iff\<close>)
  moreover have "0 < snd x" using assms Cons by (auto simp: score_terms_def)
  ultimately show ?thesis by (simp add: Cons)
qed (use assms in simp)

lemma weighted_mean_between:
  assumes xs: "score_terms a b xs" "xs \<noteq> []" and len: "length xs \<le> 10 ^ 12"
  shows "\<exists>j. a \<le> j \<and> j \<le> b \<and> weighted_mean xs = Some (cents j)"
proof -
  define W where "W = sum_list (map snd xs)"
  have W: "0 < W" unfolding W_def by (rule score_terms_total[OF xs])
  obtain ms where ms: "map (\<lambda>(s, w). dec28 (repr_dec s * of_int w)) xs = map (\<lambda>m. of_int m / 100) ms"
      "list_all (\<lambda>m. 0 \<le> m) ms" "a * W \<le> sum_list ms" "sum_list ms \<le> b * W" "sum_list ms \<le> 1000000 * int (length xs)"
    using score_terms_sums[OF xs(1)] unfolding W_def by blast
  have "sum_list ms < 10 ^ 28" using ms(5) len by simp
  then have "decimal_sum (map (\<lambda>m. of_int m / 100) ms) = of_int (sum_list ms) / 100"
    using decimal_sum_cents[OF ms(2), of 0] by (simp add: decimal_sum_def)
  then have mean: "weighted_mean xs = Some (round_score (dec28 (of_int (sum_list ms) / 100 / of_int W)))"
    using W unfolding weighted_mean_def Let_def ms(1) W_def by (simp only: if_False less_irrefl simp_thms) (metis less_irrefl)
  let ?q = "of_int (sum_list ms) / 100 / of_int W :: rat"
  have lo: "of_int a / 100 \<le> ?q"
    using ms(3) W by (intro mean_lower)
  have hi: "?q \<le> of_int b / 100"
    using ms(4) W by (intro mean_upper)
  have ab: "0 \<le> a" "b \<le> 10000" using xs(1) by (auto simp: score_terms_def)
  have "a \<le> b" using ms(3,4) W by (meson mult_right_le_imp_le order_trans)
  then have small: "\<bar>a\<bar> < 10 ^ 28" "\<bar>b\<bar> < 10 ^ 28" using ab by simp_all
  have "of_int a / 100 \<le> dec28 ?q" by (rule decimal.rnd_ge[OF few_digits_cents[OF small(1)] lo])
  moreover have "dec28 ?q \<le> of_int b / 100" by (rule decimal.rnd_le[OF few_digits_cents[OF small(2)] hi])
  ultimately show ?thesis unfolding mean using round_between by simp
qed

section \<open>Every reported score is a score\<close>

text \<open>The float of a score's complement, and of any float between 0 and 100, rounds to a score.\<close>

lemma repr_search_fl64: "fl64 x = x \<Longrightarrow> fl64 (repr_search n p x) = x"
proof (induction n arbitrary: p)
  case (Suc n)
  show ?case
  proof (cases "filter (\<lambda>d. fl64 d = x) (dec_candidates p x)")
    case (Cons d ds)
    then have "d \<in> set (filter (\<lambda>d. fl64 d = x) (dec_candidates p x))" by simp
    moreover have "\<forall>e \<in> set (d # ds). fl64 e = x" unfolding Cons[symmetric] by simp
    ultimately show ?thesis using Cons by (auto simp: Cons split: list.splits if_splits)
  qed (simp add: Suc)
qed simp

lemma fl64_repr: "fl64 x = x \<Longrightarrow> fl64 (repr_dec x) = x"
  by (simp add: repr_dec_def repr_search_fl64)

lemma repr_in_range:
  assumes x: "fl64 x = x" "0 \<le> x" "x \<le> 100"
  shows "0 \<le> repr_dec x \<and> repr_dec x \<le> 100"
proof (intro conjI)
  have r: "fl64 (repr_dec x) = x" by (rule fl64_repr[OF x(1)])
  show "0 \<le> repr_dec x"
  proof (rule ccontr)
    assume "\<not> 0 \<le> repr_dec x"
    then have "x \<le> 0" using fl64_mono[of "repr_dec x" 0] r by simp
    then have "x = 0" using x(2) by simp
    then show False using \<open>\<not> 0 \<le> repr_dec x\<close> by (simp add: repr_dec_def)
  qed
  show "repr_dec x \<le> 100"
  proof (rule ccontr)
    assume a: "\<not> repr_dec x \<le> 100"
    then have "100 \<le> x" using fl64_mono[of 100 "repr_dec x"] r by simp
    then have "x = cents 10000" using x(3) by simp
    then show False using a repr_cents[of 10000] by simp
  qed
qed

text \<open>A little outside the scale a float still rounds to a score.\<close>

lemma fl64_edges: "fl64 (51201 / 512) = 51201 / 512" "fl64 (- 1 / 512) = - 1 / 512"
proof -
  have "few_digits 2 53 (- 1074) (51201 / 512)"
    unfolding few_digits_def by (rule exI[of _ 51201], rule exI[of _ "- 9"]) (simp add: power_int_def power_one_over)
  then show "fl64 (51201 / 512) = 51201 / 512" by (rule binary64.rnd_exact)
  have "few_digits 2 53 (- 1074) (- 1 / 512)"
    unfolding few_digits_def by (rule exI[of _ "- 1"], rule exI[of _ "- 9"]) (simp add: power_int_def power_one_over)
  then show "fl64 (- 1 / 512) = - 1 / 512" by (rule binary64.rnd_exact)
qed

lemma repr_near_range:
  assumes x: "fl64 x = x" "- 1 / 512 < x" "x < 51201 / 512"
  shows "- 1 / 512 \<le> repr_dec x \<and> repr_dec x \<le> 51201 / 512"
proof -
  have r: "fl64 (repr_dec x) = x" by (rule fl64_repr[OF x(1)])
  have "\<not> repr_dec x \<le> - 1 / 512" using fl64_mono[of "repr_dec x" "- 1 / 512"] x(2) unfolding r fl64_edges by linarith
  moreover have "\<not> 51201 / 512 \<le> repr_dec x" using fl64_mono[of "51201 / 512" "repr_dec x"] x(3) unfolding r fl64_edges by linarith
  ultimately show ?thesis by linarith
qed

lemma dec28_near_range:
  assumes "- 1 / 512 \<le> x \<and> x \<le> 51201 / 512"
  shows "- 1 / 512 \<le> dec28 x \<and> dec28 x \<le> 51201 / 512"
proof -
  have "few_digits 10 28 (- 1000026) (- 1 / 512)"
    unfolding few_digits_def by (rule exI[of _ "- 1953125"], rule exI[of _ "- 9"]) (simp add: power_int_def power_one_over)
  moreover have "few_digits 10 28 (- 1000026) (51201 / 512)"
    unfolding few_digits_def by (rule exI[of _ "100001953125"], rule exI[of _ "- 9"]) (simp add: power_int_def power_one_over)
  ultimately show ?thesis using decimal.rnd_in_range assms by blast
qed

lemma round_score_near:
  assumes "- 1 / 512 \<le> x \<and> x \<le> 51201 / 512"
  shows "\<exists>k. 0 \<le> k \<and> k \<le> 10000 \<and> round_score x = cents k"
proof (intro exI conjI)
  have "rnd_even (- 1 / 5) \<le> rnd_even (x * 100)" "rnd_even (x * 100) \<le> rnd_even (50001 / 5)"
    by (rule rnd_even_mono; use assms in linarith)+
  moreover have "rnd_even (- 1 / 5) = 0" "rnd_even (50001 / 5) = 10000" by code_simp+
  ultimately show "0 \<le> rnd_even (x * 100)" "rnd_even (x * 100) \<le> 10000" by simp_all
  show "round_score x = cents (rnd_even (x * 100))" by (simp add: round_score_def quantize_def cents_def)
qed

lemma round_score_ok: "0 \<le> x \<Longrightarrow> x \<le> 100 \<Longrightarrow> is_score (round_score x)"
  using round_between[of 0 x 10000] by auto

lemma round_float_ok: "0 \<le> x \<Longrightarrow> x \<le> 100 \<Longrightarrow> is_score (round_score_float (fl64 x))"
proof -
  assume x: "0 \<le> x" "x \<le> 100"
  then have "0 \<le> fl64 x" "fl64 x \<le> 100" using fl64_mono[of 0 x] fl64_mono[of x 100] by simp_all
  then show ?thesis unfolding round_score_float_def using repr_in_range[OF fl64_idem] round_score_ok by simp
qed

lemma weighted_mean_score:
  assumes "list_all (\<lambda>(s, w). is_score s \<and> 0 < w \<and> w \<le> 100) xs" and "length xs \<le> 10 ^ 12"
    and "weighted_mean xs = Some r"
  shows "is_score r"
proof -
  have t: "score_terms 0 10000 xs"
    using assms(1) unfolding score_terms_def is_score_def by (auto simp: list_all_iff)
  moreover have "xs \<noteq> []" using assms(3) by (auto simp: weighted_mean_def)
  ultimately show ?thesis using weighted_mean_between[OF t _ assms(2)] assms(3) by auto
qed

text \<open>What the metric rules give an area, and what an area gives the overall scores.\<close>

definition metric_ok :: "int \<Rightarrow> int \<Rightarrow> metric_result \<Rightarrow> bool" where
  "metric_ok a b m \<longleftrightarrow> (\<exists>k. a \<le> k \<and> k \<le> b \<and> mr_score m = cents k) \<and> 0 < mr_weight m \<and> mr_weight m \<le> 100"

definition area_ok :: "int \<Rightarrow> int \<Rightarrow> area_result \<Rightarrow> bool" where
  "area_ok a b r \<longleftrightarrow> ar_weight r = area_weight (ar_area r) \<and>
     (\<forall>s. ar_raw r = Some s \<longrightarrow> (\<exists>k. a \<le> k \<and> k \<le> b \<and> s = cents k)) \<and>
     ar_contribution r = (case ar_raw r of None \<Rightarrow> 0
       | Some s \<Rightarrow> round_score_float (fl64 (fl64 (s * of_int (ar_weight r)) / 100)))"

lemma area_weight_bounds: "0 < area_weight a \<and> area_weight a \<le> 100"
  by (cases a) simp_all

lemma area_scores:
  assumes "area_ok 0 10000 r"
  shows "pred_option is_score (ar_raw r) \<and> is_score (ar_contribution r)"
proof (cases "ar_raw r")
  case None
  then show ?thesis using assms is_scoreI[of 0] by (simp add: area_ok_def)
next
  case (Some s)
  then have s: "is_score s" and w: "0 < ar_weight r \<and> ar_weight r \<le> 100"
    and c: "ar_contribution r = round_score_float (fl64 (fl64 (s * of_int (ar_weight r)) / 100))"
    using assms area_weight_bounds[of "ar_area r"] by (auto simp: area_ok_def is_score_def)
  have "0 \<le> s * of_int (ar_weight r)" "s * of_int (ar_weight r) \<le> 100 * 100"
    using score_bounds[OF s] w by (simp, intro mult_mono) simp_all
  then have "0 \<le> fl64 (s * of_int (ar_weight r)) / 100" "fl64 (s * of_int (ar_weight r)) / 100 \<le> 100"
    using fl64_mono[of 0 "s * of_int (ar_weight r)"] fl64_mono[of "s * of_int (ar_weight r)" 10000] fl64_int[of 10000] by simp_all
  then show ?thesis unfolding c Some using s round_float_ok by simp
qed

lemma length_map_filter: "length (List.map_filter f xs) \<le> length xs"
  by (induction xs) (auto simp: List.map_filter_simps split: option.splits)

lemma set_map_filter: "set (List.map_filter f xs) = {y. \<exists>x \<in> set xs. f x = Some y}"
  by (induction xs) (auto simp: List.map_filter_simps split: option.splits)

lemma pred_option_choice: "x \<in> {None, y} \<Longrightarrow> pred_option P y \<Longrightarrow> pred_option P x"
  by auto

lemma finish_raw: "ar_raw (finish rd a metrics missing app) \<in> {None, weighted_mean (map (\<lambda>m. (mr_score m, mr_weight m)) metrics)}"
  unfolding finish_def Let_def empty_area_def by (simp split: option.splits)

lemma finish_weight:
  "ar_weight (finish rd a metrics missing app) = area_weight (ar_area (finish rd a metrics missing app)) \<and>
   ar_contribution (finish rd a metrics missing app) = (case ar_raw (finish rd a metrics missing app) of None \<Rightarrow> 0
     | Some s \<Rightarrow> round_score_float (fl64 (fl64 (s * of_int (ar_weight (finish rd a metrics missing app))) / 100)))"
  unfolding finish_def Let_def empty_area_def by (simp split: option.splits)

lemma score_terms_metrics:
  assumes "list_all (metric_ok a b) metrics" and "0 \<le> a" "b \<le> 10000"
  shows "score_terms a b (map (\<lambda>m. (mr_score m, mr_weight m)) metrics)"
  using assms unfolding score_terms_def metric_ok_def by (auto simp: list_all_iff)

lemma finish_area_ok:
  assumes "list_all (metric_ok a b) metrics" and "0 \<le> a" "b \<le> 10000" and "length metrics \<le> 10 ^ 12"
  shows "area_ok a b (finish rd ar metrics missing app)"
proof -
  have "\<exists>k. a \<le> k \<and> k \<le> b \<and> s = cents k" if s: "ar_raw (finish rd ar metrics missing app) = Some s" for s
  proof -
    have m: "weighted_mean (map (\<lambda>m. (mr_score m, mr_weight m)) metrics) = Some s"
      using finish_raw[of rd ar metrics missing app] s by auto
    then have "metrics \<noteq> []" by (auto simp: weighted_mean_def)
    then show ?thesis
      using weighted_mean_between[OF score_terms_metrics[OF assms(1-3)]] assms(4) m by auto
  qed
  then show ?thesis using finish_weight[of rd ar metrics missing app] unfolding area_ok_def by blast
qed

lemma score_terms_areas:
  assumes "list_all (area_ok a b) rs" and "0 \<le> a" "b \<le> 10000"
  shows "score_terms a b (List.map_filter (\<lambda>r. if ar_area r \<in> A then map_option (\<lambda>s. (s, ar_weight r)) (ar_raw r) else None) rs)"
  using assms area_weight_bounds
  unfolding score_terms_def area_ok_def by (fastforce simp: list_all_iff List.map_filter_def)

lemma area_weighted_between:
  assumes "list_all (area_ok a b) rs" and "0 \<le> a" "b \<le> 10000" and len: "length rs \<le> 10 ^ 12"
    and r: "area_weighted_score rs A = Some r"
  shows "\<exists>k. a \<le> k \<and> k \<le> b \<and> r = cents k"
proof -
  let ?xs = "List.map_filter (\<lambda>r. if ar_area r \<in> set A then map_option (\<lambda>s. (s, ar_weight r)) (ar_raw r) else None) rs"
  have "?xs \<noteq> []" using r by (auto simp: area_weighted_score_def weighted_mean_def)
  moreover have "length ?xs \<le> 10 ^ 12" using length_map_filter[of _ rs] len by (meson order_trans)
  ultimately show ?thesis
    using weighted_mean_between[OF score_terms_areas[OF assms(1-3), of "set A"]] r unfolding area_weighted_score_def by auto
qed

lemma custom_score_ok:
  assumes ok: "list_all (area_ok 0 10000) rs" and w: "list_all (\<lambda>(_, w). 0 < w \<and> w \<le> 100) ws" and len: "length rs \<le> 10 ^ 12"
    and r: "custom_area_score rs ws = Some r"
  shows "is_score r"
proof -
  let ?f = "\<lambda>r. case (ar_raw r, map_of ws (ar_area r)) of (Some s, Some w) \<Rightarrow> Some (s, w) | _ \<Rightarrow> None"
  have "is_score s \<and> 0 < w' \<and> w' \<le> 100" if m: "(s, w') \<in> set (List.map_filter ?f rs)" for s w'
  proof -
    obtain q where "q \<in> set rs" "?f q = Some (s, w')" using m unfolding set_map_filter by blast
    then have q: "q \<in> set rs" "ar_raw q = Some s" "map_of ws (ar_area q) = Some w'"
      by (cases "ar_raw q"; cases "map_of ws (ar_area q)"; simp)+
    have "is_score s" using ok q by (auto simp: list_all_iff area_ok_def is_score_def)
    moreover have "(ar_area q, w') \<in> set ws" by (rule map_of_SomeD[OF q(3)])
    ultimately show ?thesis using w by (auto simp: list_all_iff)
  qed
  then have "list_all (\<lambda>(s, w). is_score s \<and> 0 < w \<and> w \<le> 100) (List.map_filter ?f rs)" by (auto simp: list_all_iff)
  moreover have "length (List.map_filter ?f rs) \<le> 10 ^ 12" using length_map_filter[of ?f rs] len by simp
  ultimately show ?thesis using weighted_mean_score r unfolding custom_area_score_def by blast
qed

lemma confidence_score_ok: "is_score (confidence rd)"
  unfolding confidence_def Let_def by (rule round_score_ok) (simp_all add: clamp_def)

lemma evaluate_fields:
  assumes "evaluate_stock rd areas overrides p = Some r"
  shows "sr_overall r \<in> {None, area_weighted_score (filter (\<lambda>r. ar_applicable r \<and> ar_raw r \<noteq> None) areas) ALL_AREAS}"
    and "sr_quality r \<in> {None, area_weighted_score (filter (\<lambda>r. ar_applicable r \<and> ar_raw r \<noteq> None) areas) QUALITY_AREAS}"
    and "sr_opportunity r \<in> {None, area_weighted_score (filter (\<lambda>r. ar_applicable r \<and> ar_raw r \<noteq> None) areas) OPPORTUNITY_AREAS}"
    and "sr_risk r \<in> {None, map_option (\<lambda>r. round_score_float (fl64 (100 - r)))
      (custom_area_score (filter (\<lambda>r. ar_applicable r \<and> ar_raw r \<noteq> None) areas) RISK_WEIGHTS)}"
    and "sr_confidence_score r = confidence rd"
  using assms unfolding evaluate_stock_def Let_def by (auto split: option.splits)


text \<open>The score of an area lies between the lowest and the highest score of its metrics and is a number
  of hundredths, as are its weighted contribution and every applied weight: none of the roundings (the
  Decimal products, sum and quotient, the quantization, the float) moves a mean out of the range of what it averages.\<close>

theorem area_score_between_metrics:
  assumes "list_all (metric_ok a b) metrics" and "0 \<le> a" and "b \<le> 10000" and "length metrics \<le> 10 ^ 12"
    and "ar_raw (finish rd ar metrics missing app) = Some r"
  shows "cents a \<le> r \<and> r \<le> cents b \<and> 0 \<le> r \<and> r \<le> 100 \<and> is_score r"
proof -
  obtain k where k: "a \<le> k" "k \<le> b" "r = cents k"
    using finish_area_ok[OF assms(1-4)] assms(5) unfolding area_ok_def by blast
  then have "is_score r" using assms(2,3) by auto
  then show ?thesis using k cents_mono[of a k] cents_mono[of k b] score_bounds by simp
qed

text \<open>When the areas carry scores of some range, the overall score of an evaluation lies in that range, and
  its quality, opportunity, risk and confidence scores are numbers of hundredths from 0 to 100.\<close>

theorem overall_scores_in_range:
  assumes ok: "list_all (area_ok a b) areas" and ab: "0 \<le> a" "b \<le> 10000" and len: "length areas \<le> 10 ^ 12"
    and r: "evaluate_stock rd areas overrides p = Some r"
  shows "pred_option (\<lambda>s. cents a \<le> s \<and> s \<le> cents b \<and> is_score s) (sr_overall r) \<and>
    pred_option is_score (sr_quality r) \<and> pred_option is_score (sr_opportunity r) \<and>
    pred_option is_score (sr_risk r) \<and> is_score (sr_confidence_score r)"
proof -
  let ?rs = "filter (\<lambda>r. ar_applicable r \<and> ar_raw r \<noteq> None) areas"
  have l: "length ?rs \<le> 10 ^ 12" using len length_filter_le order_trans by blast
  have rs: "list_all (area_ok a b) ?rs" using ok by (auto simp: list_all_iff)
  have rs0: "list_all (area_ok 0 10000) ?rs"
    using rs ab unfolding area_ok_def list_all_iff by (meson order_trans)
  have sc: "pred_option (\<lambda>s. cents a \<le> s \<and> s \<le> cents b \<and> is_score s) (area_weighted_score ?rs A)" for A
    using area_weighted_between[OF rs ab l, of A] ab cents_mono by (auto simp: pred_option_def intro!: is_scoreI)
  then have sc': "pred_option is_score (area_weighted_score ?rs A)" for A
    by (rule option.pred_mono_strong) simp
  have "is_score (round_score_float (fl64 (100 - s)))" if "custom_area_score ?rs RISK_WEIGHTS = Some s" for s
  proof -
    have "is_score s" by (rule custom_score_ok[OF rs0 _ l that]) (simp add: RISK_WEIGHTS_def)
    then show ?thesis using score_bounds[of s] by (intro round_float_ok) simp_all
  qed
  then have risk: "pred_option is_score (map_option (\<lambda>r. round_score_float (fl64 (100 - r))) (custom_area_score ?rs RISK_WEIGHTS))"
    by (auto simp: pred_option_def)
  note f = evaluate_fields[OF r]
  show ?thesis
    using pred_option_choice[OF f(1) sc] pred_option_choice[OF f(2) sc'] pred_option_choice[OF f(3) sc']
      pred_option_choice[OF f(4) risk] f(5) confidence_score_ok by simp
qed

section \<open>Eligibility and decision\<close>

lemma sort_empty [simp]: "sort xs = [] \<longleftrightarrow> xs = []"
  by (metis length_0_conv length_sort)

lemma critical_ok:
  "critical_blocking rd = [] \<longleftrightarrow>
   (\<forall>k \<in> set CRITICAL_REQUIREMENTS. \<exists>r. by_id rd k = Some r \<and> (rr_status r \<in> FULL_STATUSES \<or> rr_status r = NOT_APPLICABLE))"
  unfolding critical_blocking_def critical_blocks_def by (auto simp: filter_empty_conv split: option.splits)

lemma mandatory_ok:
  "mandatory_blocking rd = [] \<longleftrightarrow>
   (\<forall>r \<in> set (rd_requirements rd). rr_mandatory r \<and> rr_id r \<noteq> ''CURRENT_NEWS'' \<longrightarrow>
      rr_status r \<in> FULL_STATUSES \<union> EXEMPT_STATUSES)"
  unfolding mandatory_blocking_def current_news_is_optional_def by (auto simp: filter_empty_conv)

lemma by_id_member: "by_id rd k = Some r \<Longrightarrow> r \<in> set (rd_requirements rd) \<and> rr_id r = k"
  unfolding by_id_def by (auto dest!: map_of_SomeD)

lemma critical_fresh_total:
  assumes "\<forall>k \<in> set ks. \<exists>r \<in> set (rd_requirements rd). rr_id r = k"
  shows "critical_fresh rd ks \<noteq> None"
  using assms
proof (induction ks)
  case (Cons k ks)
  then have "find (\<lambda>r. rr_id r = k) (rd_requirements rd) \<noteq> None" by (auto simp: find_None_iff)
  then show ?case using Cons by auto
qed simp

lemma critical_fresh_all:
  assumes "critical_fresh rd ks = Some True" and "k \<in> set ks"
  shows "\<exists>r. find (\<lambda>r. rr_id r = k) (rd_requirements rd) = Some r \<and> rr_status r = READY_FRESH"
  using assms by (induction rd ks rule: critical_fresh.induct) (auto split: option.splits if_splits)

lemma critical_fresh_raises:
  assumes "critical_fresh rd ks = None"
  shows "\<exists>k \<in> set ks. by_id rd k = None"
proof (rule ccontr)
  assume "\<not> (\<exists>k \<in> set ks. by_id rd k = None)"
  then have "\<forall>k \<in> set ks. \<exists>r \<in> set (rd_requirements rd). rr_id r = k" by (metis by_id_member option.exhaust)
  then show False using critical_fresh_total[of ks rd] assms by simp
qed

lemma positive_decision:
  assumes "decision (Some s) rd conf partial ovs = Some d" and "d \<in> {STRONG_BUY, BUY, ACCUMULATE}"
  shows "\<not> list_ex ov_block_buy ovs" and "\<not> partial" and "65 \<le> s"
    and "d \<noteq> ACCUMULATE \<Longrightarrow> 75 \<le> s \<and> \<not> list_ex (\<lambda>r. rr_status r = CONFLICTING \<and> rr_mandatory r) (rd_requirements rd)"
    and "d = STRONG_BUY \<Longrightarrow> 85 \<le> s \<and> 100 \<le> rd_critical_pct rd \<and> conf = HIGH \<and> critical_fresh rd CRITICAL_REQUIREMENTS = Some True"
  using assms unfolding decision_def signal_for_def Let_def
  by (simp_all split: option.splits if_splits)

lemma eligibility_full:
  "el_full (evaluate_eligibility rd) \<longleftrightarrow> 80 \<le> rd_critical_pct rd \<and> mandatory_blocking rd = [] \<and> critical_blocking rd = []"
  by (simp add: evaluate_eligibility_def Let_def)

lemma eligibility_partial: "el_partial (evaluate_eligibility rd) \<Longrightarrow> \<not> el_full (evaluate_eligibility rd)"
  by (simp add: evaluate_eligibility_def Let_def)

lemma unscorable_none:
  "unscorable_areas areas = [] \<longleftrightarrow>
   (\<forall>r \<in> set areas. ar_applicable r \<and> ar_status r = A_UNSCORABLE \<longrightarrow> ar_area r = NEWS_GEOPOLITICAL_EVENTS)"
  unfolding unscorable_areas_def by (auto simp: filter_empty_conv)

lemma scorable_full:
  "el_full (require_scorable_areas el rd areas) \<longleftrightarrow> el_full el \<and> unscorable_areas areas = []"
  by (simp add: require_scorable_areas_def Let_def)

lemma evaluate_decision:
  assumes "evaluate_stock rd areas ovs p = Some r"
  defines "el \<equiv> require_scorable_areas (evaluate_eligibility rd) rd areas"
    and "raw \<equiv> area_weighted_score (filter (\<lambda>r. ar_applicable r \<and> ar_raw r \<noteq> None) areas) ALL_AREAS"
  shows "sr_eligibility r = el" and "sr_partial r = (\<not> el_full el)" and "sr_confidence r = level_of (confidence rd)"
    and "el_full el \<or> p \<and> el_partial el \<Longrightarrow>
      sr_overall r = raw \<and> decision raw rd (level_of (confidence rd)) (\<not> el_full el) ovs = Some (sr_decision r)"
    and "\<not> (el_full el \<or> p \<and> el_partial el) \<Longrightarrow> sr_overall r = None \<and> sr_decision r = INSUFFICIENT_DATA"
  using assms(1) unfolding evaluate_stock_def Let_def el_def raw_def
  by (auto split: option.splits if_splits)

lemma decision_none [simp]: "decision None rd conf partial ovs = Some INSUFFICIENT_DATA"
  by (simp add: decision_def)

lemma decision_sufficient: "decision (Some s) rd conf partial ovs \<noteq> Some INSUFFICIENT_DATA"
  unfolding decision_def signal_for_def Let_def by (auto split: option.splits)

text \<open>A full analysis is allowed exactly when the critical completeness is at least 80, every mandatory
  requirement other than the current news is ready (fresh or stale) or exempt, every critical requirement is present
  and ready or not applicable, and no applicable area but the news was left unscorable.  A full analysis is never
  marked partial and has nothing that blocks it.\<close>

theorem full_analysis_exact:
  fixes rd areas
  defines "el \<equiv> require_scorable_areas (evaluate_eligibility rd) rd areas"
  shows "(el_full el \<longleftrightarrow> 80 \<le> rd_critical_pct rd \<and>
      (\<forall>r \<in> set (rd_requirements rd). rr_mandatory r \<and> rr_id r \<noteq> ''CURRENT_NEWS'' \<longrightarrow>
        rr_status r \<in> {READY_FRESH, READY_STALE, NOT_APPLICABLE, UNSUPPORTED}) \<and>
      (\<forall>k \<in> set CRITICAL_REQUIREMENTS. \<exists>r. by_id rd k = Some r \<and> rr_status r \<in> {READY_FRESH, READY_STALE, NOT_APPLICABLE}) \<and>
      (\<forall>r \<in> set areas. ar_applicable r \<and> ar_status r = A_UNSCORABLE \<longrightarrow> ar_area r = NEWS_GEOPOLITICAL_EVENTS)) \<and>
    (el_full el \<longrightarrow> \<not> el_partial el \<and> el_blocking el = [])"
proof (intro conjI impI)
  assume "el_full el"
  then have u: "el = evaluate_eligibility rd" and f: "el_full (evaluate_eligibility rd)"
    unfolding el_def scorable_full by (simp_all add: require_scorable_areas_def Let_def)
  show "\<not> el_partial el" using f eligibility_partial unfolding u by blast
  show "el_blocking el = []" using f unfolding u eligibility_full by (simp add: evaluate_eligibility_def Let_def)
next
  have "{READY_FRESH, READY_STALE, NOT_APPLICABLE, UNSUPPORTED} = FULL_STATUSES \<union> EXEMPT_STATUSES"
    by (auto simp: FULL_STATUSES_def EXEMPT_STATUSES_def)
  moreover have "st \<in> {READY_FRESH, READY_STALE, NOT_APPLICABLE} \<longleftrightarrow> st \<in> FULL_STATUSES \<or> st = NOT_APPLICABLE" for st
    by (auto simp: FULL_STATUSES_def)
  ultimately show "el_full el \<longleftrightarrow> 80 \<le> rd_critical_pct rd \<and>
      (\<forall>r \<in> set (rd_requirements rd). rr_mandatory r \<and> rr_id r \<noteq> ''CURRENT_NEWS'' \<longrightarrow>
        rr_status r \<in> {READY_FRESH, READY_STALE, NOT_APPLICABLE, UNSUPPORTED}) \<and>
      (\<forall>k \<in> set CRITICAL_REQUIREMENTS. \<exists>r. by_id rd k = Some r \<and> rr_status r \<in> {READY_FRESH, READY_STALE, NOT_APPLICABLE}) \<and>
      (\<forall>r \<in> set areas. ar_applicable r \<and> ar_status r = A_UNSCORABLE \<longrightarrow> ar_area r = NEWS_GEOPOLITICAL_EVENTS)"
    unfolding el_def scorable_full eligibility_full critical_ok mandatory_ok unscorable_none by (simp only: conj_assoc)
qed

text \<open>C16: A buying signal (strong buy, buy, accumulate) is only given for a full analysis, never against a blocking
  risk override, never for a score below 65.  Buy and strong buy need a score of 75 and no conflict in a mandatory
  requirement; a strong buy needs a score of 85, complete and fresh critical evidence and high confidence.\<close>

theorem buying_signal_is_earned:
  assumes "evaluate_stock rd areas ovs p = Some r" and "sr_decision r \<in> {STRONG_BUY, BUY, ACCUMULATE}"
  shows "el_full (sr_eligibility r) \<and> \<not> sr_partial r \<and> \<not> list_ex ov_block_buy ovs \<and>
    (\<exists>s. sr_overall r = Some s \<and> 65 \<le> s \<and>
      (sr_decision r \<noteq> ACCUMULATE \<longrightarrow>
        75 \<le> s \<and> \<not> list_ex (\<lambda>r. rr_status r = CONFLICTING \<and> rr_mandatory r) (rd_requirements rd)) \<and>
      (sr_decision r = STRONG_BUY \<longrightarrow> 85 \<le> s \<and> 100 \<le> rd_critical_pct rd \<and> 80 \<le> sr_confidence_score r \<and>
        (\<forall>k \<in> set CRITICAL_REQUIREMENTS. \<exists>q \<in> set (rd_requirements rd). rr_id q = k \<and> rr_status q = READY_FRESH)))"
proof -
  note e = evaluate_decision[OF assms(1)]
  let ?el = "require_scorable_areas (evaluate_eligibility rd) rd areas"
  have perm: "el_full ?el \<or> p \<and> el_partial ?el"
  proof (rule ccontr)
    assume "\<not> (el_full ?el \<or> p \<and> el_partial ?el)"
    then show False using e(5) assms(2) by simp
  qed
  from e(4)[OF perm] have d: "decision (sr_overall r) rd (level_of (confidence rd)) (\<not> el_full ?el) ovs = Some (sr_decision r)"
    by simp
  then obtain s where s: "sr_overall r = Some s" using assms(2) by (cases "sr_overall r") auto
  note pos = positive_decision[OF d[unfolded s] assms(2)]
  have "80 \<le> confidence rd" if "level_of (confidence rd) = HIGH"
    using that by (simp add: level_of_def split: if_splits)
  moreover have "\<exists>q \<in> set (rd_requirements rd). rr_id q = k \<and> rr_status q = READY_FRESH"
    if "critical_fresh rd CRITICAL_REQUIREMENTS = Some True" "k \<in> set CRITICAL_REQUIREMENTS" for k
    using critical_fresh_all[OF that] by (auto simp: find_Some_iff)
  ultimately show ?thesis using pos e(1,2) evaluate_fields(5)[OF assms(1)] s by auto
qed

lemma evaluate_hidden:
  assumes "evaluate_stock rd areas ovs p = Some r"
    and "\<not> (el_full (sr_eligibility r) \<or> p \<and> el_partial (sr_eligibility r))"
  shows "sr_overall r = None \<and> sr_quality r = None \<and> sr_opportunity r = None \<and> sr_risk r = None"
  using assms unfolding evaluate_stock_def Let_def by (auto split: option.splits if_splits)

lemma area_weighted_none:
  assumes "list_all (area_ok 0 10000) rs"
  shows "area_weighted_score rs ALL_AREAS = None \<longleftrightarrow> \<not> list_ex (\<lambda>r. ar_raw r \<noteq> None) rs"
proof -
  let ?xs = "List.map_filter (\<lambda>r. if ar_area r \<in> set ALL_AREAS then map_option (\<lambda>s. (s, ar_weight r)) (ar_raw r) else None) rs"
  have all: "ar \<in> set ALL_AREAS" for ar by (cases ar) (simp_all add: ALL_AREAS_def)
  have "?xs = [] \<longleftrightarrow> \<not> list_ex (\<lambda>r. ar_raw r \<noteq> None) rs"
    using all by (induction rs) (auto simp: List.map_filter_simps split: option.splits)
  moreover have "sum_list (map snd ?xs) \<noteq> 0" if "?xs \<noteq> []"
    using score_terms_total[OF score_terms_areas[OF assms, of "set ALL_AREAS"] that] by simp
  then have "area_weighted_score rs ALL_AREAS = None \<longleftrightarrow> ?xs = []"
    unfolding area_weighted_score_def weighted_mean_def Let_def by (cases "?xs = []") simp_all
  ultimately show ?thesis by simp
qed

text \<open>An evaluation answers "insufficient data" exactly when no analysis is permitted or no applicable area
  carries a score; and then, without permission, none of its four scores is shown.\<close>

theorem insufficient_data_exact:
  assumes "evaluate_stock rd areas ovs p = Some r" and "list_all (area_ok 0 10000) areas"
  shows "(sr_decision r = INSUFFICIENT_DATA \<longleftrightarrow>
      \<not> (el_full (sr_eligibility r) \<or> p \<and> el_partial (sr_eligibility r)) \<or>
      \<not> list_ex (\<lambda>q. ar_applicable q \<and> ar_raw q \<noteq> None) areas) \<and>
    (\<not> (el_full (sr_eligibility r) \<or> p \<and> el_partial (sr_eligibility r)) \<longrightarrow>
      sr_overall r = None \<and> sr_quality r = None \<and> sr_opportunity r = None \<and> sr_risk r = None)"
proof -
  note e = evaluate_decision[OF assms(1)]
  let ?rs = "filter (\<lambda>r. ar_applicable r \<and> ar_raw r \<noteq> None) areas"
  have ok: "list_all (area_ok 0 10000) ?rs" using assms(2) by (auto simp: list_all_iff)
  have ex: "list_ex (\<lambda>r. ar_raw r \<noteq> None) ?rs \<longleftrightarrow> list_ex (\<lambda>q. ar_applicable q \<and> ar_raw q \<noteq> None) areas"
    by (auto simp: list_ex_iff)
  show ?thesis
  proof (cases "el_full (sr_eligibility r) \<or> p \<and> el_partial (sr_eligibility r)")
    case True
    have "sr_decision r = INSUFFICIENT_DATA \<longleftrightarrow> area_weighted_score ?rs ALL_AREAS = None"
      using e(4)[OF True[unfolded e(1)]] decision_sufficient decision_none by (metis option.exhaust option.inject)
    then show ?thesis unfolding area_weighted_none[OF ok] ex using True by simp
  next
    case False
    then show ?thesis using e(5)[OF False[unfolded e(1)]] evaluate_hidden[OF assms(1) False] by simp
  qed
qed

text \<open>Once the areas are scored, the aggregation never fails when a full analysis is allowed.  It can only fail for
  a partial analysis that was asked for, when a critical requirement is absent from the readiness. (Scoring the
  balance sheet area fails by itself when the readiness does not list its requirement, whatever the analysis.)\<close>

theorem only_partial_evaluation_fails:
  assumes "evaluate_stock rd areas ovs p = None"
  shows "p \<and> \<not> el_full (evaluate_eligibility rd) \<and> el_partial (evaluate_eligibility rd) \<and>
    \<not> list_ex ov_block_buy ovs \<and> (\<exists>k \<in> set CRITICAL_REQUIREMENTS. by_id rd k = None)"
proof -
  let ?el = "require_scorable_areas (evaluate_eligibility rd) rd areas"
  have perm: "el_full ?el \<or> p \<and> el_partial ?el"
    and d: "\<exists>raw conf partial. decision raw rd conf partial ovs = None"
    using assms unfolding evaluate_stock_def Let_def by (auto split: option.splits if_splits)
  from d have "\<not> list_ex ov_block_buy ovs" and "critical_fresh rd CRITICAL_REQUIREMENTS = None"
    unfolding decision_def Let_def by (auto split: option.splits if_splits)
  moreover from this obtain k where k: "k \<in> set CRITICAL_REQUIREMENTS" "by_id rd k = None"
    using critical_fresh_raises by blast
  then have n: "\<not> el_full (evaluate_eligibility rd)" unfolding eligibility_full critical_ok by fastforce
  then have "?el = evaluate_eligibility rd" by (simp add: require_scorable_areas_def)
  ultimately show ?thesis using perm k n by auto
qed


section \<open>Witnesses\<close>

abbreviation witness_requirement :: "string \<Rightarrow> area \<Rightarrow> research_requirement" where
  "witness_requirement k ar \<equiv> \<lparr>rr_id = k, rr_area = ar, rr_mandatory = True, rr_status = READY_FRESH, rr_tier = Some OFFICIAL,
     rr_evidence = [], rr_missing = [], rr_concepts = [], rr_excluded = [], rr_applicability = None\<rparr>"

definition witness_readiness :: readiness where
  "witness_readiness = \<lparr>rd_requirements = map (\<lambda>k. witness_requirement k VALUATION) CRITICAL_REQUIREMENTS,
     rd_overall_pct = 100, rd_critical_pct = 100\<rparr>"

definition witness_metrics :: "metric_result list" where
  "witness_metrics = [\<lparr>mr_metric = ''P/E relative value'', mr_score = 50, mr_weight = 45, mr_applied = 0, mr_evidence = []\<rparr>]"

definition witness_area :: area_result where
  "witness_area = \<lparr>ar_area = VALUATION, ar_weight = 18, ar_raw = Some 100, ar_contribution = 18, ar_status = A_READY_FRESH,
     ar_applicable = True, ar_metrics = [], ar_evidence = [], ar_missing = []\<rparr>"

lemma cents_50 [simp]: "cents 5000 = 50"
  by (simp add: cents_def)

lemma mean_single:
  assumes "k \<le> 10000" "0 \<le> k" "0 < w" "w \<le> 100"
  shows "weighted_mean [(cents k, w)] = Some (cents k)"
proof -
  have "score_terms k k [(cents k, w)]" unfolding score_terms_def using assms by auto
  from weighted_mean_between[OF this] show ?thesis using antisym by fastforce
qed

lemma area_score_between_metrics_witness:
  "\<exists>r. ar_raw (finish witness_readiness VALUATION witness_metrics [] True) = Some r \<and> 0 \<le> r \<and> r \<le> 100"
proof -
  have r: "ar_raw (finish witness_readiness VALUATION witness_metrics [] True) = Some 50"
    using mean_single[of 5000 45]
    unfolding finish_def witness_readiness_def witness_metrics_def CRITICAL_REQUIREMENTS_def Let_def by simp
  have "list_all (metric_ok 0 10000) witness_metrics"
    unfolding witness_metrics_def metric_ok_def by (auto intro!: exI[of _ 5000])
  from area_score_between_metrics[OF this _ _ _ r] show ?thesis
    using r by (simp add: witness_metrics_def)
qed

lemma witness_full: "el_full (require_scorable_areas (evaluate_eligibility witness_readiness) witness_readiness [witness_area])"
  unfolding scorable_full eligibility_full mandatory_ok critical_ok unscorable_none
  by (simp add: witness_readiness_def CRITICAL_REQUIREMENTS_def by_id_def FULL_STATUSES_def witness_area_def)

lemma witness_area_ok: "list_all (area_ok 0 10000) [witness_area]"
proof -
  have "cents 1800 = 18" using fl64_int[of 18] by (simp add: cents_def)
  moreover have "fl64 (fl64 1800 / 100) = 18" using fl64_int[of 18] fl64_int[of 1800] by simp
  ultimately have "round_score_float (fl64 (fl64 1800 / 100)) = 18"
    using repr_cents[of 1800] round_between[of 1800 18 1800] unfolding round_score_float_def by auto
  then show ?thesis by (auto simp: witness_area_def area_ok_def intro!: exI[of _ 10000])
qed

lemma witness_confidence: "confidence witness_readiness = 100"
proof -
  have "dec28 40 = 40" "dec28 20 = 20" "dec28 60 = 60" "dec28 80 = 80" "repr_dec 100 = 100"
    using dec28_int[of 40] dec28_int[of 20] dec28_int[of 60] dec28_int[of 80] repr_cents[of 10000] by simp_all
  moreover have "round_score 100 = 100"
    using round_between[of 10000 100 10000] by auto
  ultimately show ?thesis
    unfolding confidence_def witness_readiness_def Let_def
    by (simp add: CRITICAL_REQUIREMENTS_def int_mean_def List.map_filter_simps clamp_def)
qed

lemma evaluate_witness_result:
  "\<exists>r. evaluate_stock witness_readiness [witness_area] [] False = Some r \<and> sr_decision r = STRONG_BUY"
proof -
  have raw: "area_weighted_score [witness_area] ALL_AREAS = Some 100"
    using mean_single[of 10000 18] by (simp add: area_weighted_score_def witness_area_def ALL_AREAS_def List.map_filter_simps)
  have d: "decision (Some 100) witness_readiness HIGH False [] = Some STRONG_BUY"
    by (simp add: decision_def signal_for_def Let_def witness_readiness_def CRITICAL_REQUIREMENTS_def)
  have f: "filter (\<lambda>r. ar_applicable r \<and> ar_raw r \<noteq> None) [witness_area] = [witness_area]" by (simp add: witness_area_def)
  have "level_of (confidence witness_readiness) = HIGH" by (simp add: witness_confidence level_of_def)
  then show ?thesis unfolding evaluate_stock_def Let_def f raw using witness_full d by simp
qed

lemma overall_scores_in_range_witness:
  "\<exists>r. evaluate_stock witness_readiness [witness_area] [] False = Some r \<and> is_score (sr_confidence_score r)"
  using overall_scores_in_range[OF witness_area_ok] evaluate_witness_result by fastforce

lemma full_analysis_exact_witness:
  "el_blocking (require_scorable_areas (evaluate_eligibility witness_readiness) witness_readiness [witness_area]) = []"
  using full_analysis_exact[of witness_readiness "[witness_area]"] witness_full by blast

lemma buying_signal_is_earned_witness:
  "\<exists>r s. evaluate_stock witness_readiness [witness_area] [] False = Some r \<and> sr_overall r = Some s \<and> 85 \<le> s"
proof -
  obtain r where r: "evaluate_stock witness_readiness [witness_area] [] False = Some r" "sr_decision r = STRONG_BUY"
    using evaluate_witness_result by blast
  then show ?thesis using buying_signal_is_earned[OF r(1)] by auto
qed

lemma insufficient_data_exact_witness:
  "\<exists>r. evaluate_stock witness_readiness [witness_area] [] False = Some r \<and> sr_decision r \<noteq> INSUFFICIENT_DATA"
proof -
  obtain r where r: "evaluate_stock witness_readiness [witness_area] [] False = Some r"
    using evaluate_witness_result by blast
  then show ?thesis
    using insufficient_data_exact[OF r witness_area_ok] witness_full evaluate_decision(1)[OF r]
    by (auto simp: witness_area_def)
qed

text \<open>Three critical requirements are ready, the quarterly figures are not even listed: the evaluation raises.\<close>

definition witness_incomplete :: readiness where
  "witness_incomplete = \<lparr>rd_requirements = map (\<lambda>k. witness_requirement k VALUATION)
     [''VALUATION_INPUTS'', ''BUSINESS_QUALITY_FACTS'', ''BALANCE_SHEET_FACTS'', ''LATEST_PRICE''], rd_overall_pct = 80, rd_critical_pct = 80\<rparr>"

lemma only_partial_evaluation_fails_witness:
  "\<exists>k \<in> set CRITICAL_REQUIREMENTS. by_id witness_incomplete k = None"
proof -
  have "by_id witness_incomplete ''QUARTERLY_FINANCIALS'' = None"
    by (simp add: witness_incomplete_def by_id_def)
  then have n: "\<not> el_full (evaluate_eligibility witness_incomplete)"
    unfolding eligibility_full critical_ok by (simp add: CRITICAL_REQUIREMENTS_def)
  have "el_partial (evaluate_eligibility witness_incomplete)"
    using n unfolding evaluate_eligibility_def Let_def
    by (simp add: witness_incomplete_def by_id_def CRITICAL_REQUIREMENTS_def status_in_def PARTIAL_STATUSES_def)
  moreover have "area_weighted_score [witness_area] ALL_AREAS = Some 100"
    using mean_single[of 10000 18] by (simp add: area_weighted_score_def witness_area_def ALL_AREAS_def List.map_filter_simps)
  moreover have "decision (Some 100) witness_incomplete c True [] = None" for c
    by (simp add: decision_def witness_incomplete_def CRITICAL_REQUIREMENTS_def)
  moreover have "filter (\<lambda>r. ar_applicable r \<and> ar_raw r \<noteq> None) [witness_area] = [witness_area]" by (simp add: witness_area_def)
  ultimately have "evaluate_stock witness_incomplete [witness_area] [] True = None"
    using n unfolding evaluate_stock_def Let_def by (simp add: require_scorable_areas_def)
  from only_partial_evaluation_fails[OF this] show ?thesis by blast
qed

text \<open>A higher score can earn a weaker signal: a conflict in the (mandatory, exempted) news holds back a buy
  but not an accumulate.\<close>

lemma decision_not_monotone:
  defines "rd \<equiv> witness_readiness\<lparr>rd_requirements := (witness_requirement ''CURRENT_NEWS'' NEWS_GEOPOLITICAL_EVENTS)\<lparr>rr_status := CONFLICTING\<rparr> #
    rd_requirements witness_readiness\<rparr>"
  shows "el_full (evaluate_eligibility rd) \<and> decision (Some 70) rd HIGH False [] = Some ACCUMULATE \<and>
    decision (Some 80) rd HIGH False [] = Some HOLD"
proof (intro conjI)
  show "el_full (evaluate_eligibility rd)"
    unfolding eligibility_full mandatory_ok critical_ok
    by (simp add: rd_def witness_readiness_def CRITICAL_REQUIREMENTS_def by_id_def FULL_STATUSES_def)
  show "decision (Some 70) rd HIGH False [] = Some ACCUMULATE" "decision (Some 80) rd HIGH False [] = Some HOLD"
    by (simp_all add: decision_def signal_for_def Let_def rd_def witness_readiness_def CRITICAL_REQUIREMENTS_def)
qed

end
