(* ===== verification/StockData.thy ===== *)
theory StockData
  imports StockRules Evidence "HOL-Library.Product_Lexorder"
begin

text \<open>
  The evidence that \<open>STOCK_RULE_ENGINE_V1\<close> reads (\<open>app/stock_rule_engine.py\<close>): the selection of one
  datum per structured metric, of one homogeneous series of financial facts, and the Decimal arithmetic
  that turns data into scores.  A field of unknown type (\<open>Any\<close>) is given by what the code makes of it:
  \<open>_decimal(value)\<close> is \<open>rat option\<close>, a parsed period end is a time.  Sources and URLs of a datum, which
  are only displayed, are left out.
\<close>

section \<open>Data\<close>

record datum =
  dt_value :: rat
  dt_as_of :: "time option"
  dt_evidence :: string
  dt_unit :: "string option"
  dt_authority :: nat
  dt_basis :: "string option"
  dt_period :: "string option"

record rule_fact =
  rf_metric :: string
  rf_period_type :: string
  rf_period_end :: "time option"
  rf_basis :: "string option"
  rf_number :: "rat option"
  rf_unit :: "string option"
  rf_as_of :: "time option"
  rf_tier :: fact_source_tier
  rf_real :: bool
  rf_evidence :: string

record snapshot_fact =
  sf_number :: "rat option"
  sf_text :: string
  sf_unit :: "string option"
  sf_period :: "string option"
  sf_as_of :: "time option"
  sf_published_at :: "time option"
  sf_retrieved_at :: time
  sf_url :: string

record snapshot_record =
  sn_instrument :: string
  sn_provider :: string
  sn_source_type :: "string option"
  sn_source_name :: "string option"
  sn_currency :: "string option"
  sn_as_of :: "time option"
  sn_retrieved_text :: string
  sn_facts :: "(string \<times> snapshot_fact) list"

record price_observation =
  po_instrument :: string
  po_observed_at :: time
  po_observed_text :: string
  po_price :: rat
  po_currency :: "string option"
  po_provider :: string
  po_url :: string
  po_retrieved_at :: time

section \<open>Python idioms\<close>

text \<open>\<open>max(xs, key=f)\<close>: the first of the largest elements.\<close>

definition py_max :: "('a \<Rightarrow> 'k::linorder) \<Rightarrow> 'a list \<Rightarrow> 'a" where
  "py_max f xs = foldl (\<lambda>b x. if f b < f x then x else b) (hd xs) (tl xs)"

definition py_min :: "('a \<Rightarrow> 'k::linorder) \<Rightarrow> 'a list \<Rightarrow> 'a" where
  "py_min f xs = foldl (\<lambda>b x. if f x < f b then x else b) (hd xs) (tl xs)"

definition alnum :: "char \<Rightarrow> bool" where
  "alnum c = (let n = of_char c :: nat in (97 \<le> n \<and> n \<le> 122) \<or> (48 \<le> n \<and> n \<le> 57))"

text \<open>\<open>re.sub("[^a-z0-9]", "", s.casefold())\<close>.\<close>

definition metric_key :: "string \<Rightarrow> string" where
  "metric_key s = filter alnum (lower s)"

fun prefix_of :: "string \<Rightarrow> string \<Rightarrow> bool" where
  "prefix_of [] s = True"
| "prefix_of (c # cs) [] = False"
| "prefix_of (c # cs) (d # ds) = (c = d \<and> prefix_of cs ds)"

text \<open>\<open>sub in s\<close>.\<close>

fun contains :: "string \<Rightarrow> string \<Rightarrow> bool" where
  "contains sub [] = (sub = [])"
| "contains sub (c # cs) = (prefix_of sub (c # cs) \<or> contains sub cs)"

text \<open>\<open>re.search(r"(?<![a-z0-9])term(?![a-z0-9])", text)\<close>.\<close>

fun find_term :: "bool \<Rightarrow> string \<Rightarrow> string \<Rightarrow> bool" where
  "find_term ok wanted [] = False"
| "find_term ok wanted (c # cs) =
     ((ok \<and> prefix_of wanted (c # cs) \<and> (case drop (length wanted) (c # cs) of [] \<Rightarrow> True | d # _ \<Rightarrow> \<not> alnum d)) \<or>
      find_term (\<not> alnum c) wanted cs)"

definition contains_term :: "string \<Rightarrow> string \<Rightarrow> bool" where
  "contains_term text wanted = find_term True (lower wanted) text"

definition or_text :: "string option \<Rightarrow> string" where
  "or_text s = (case s of None \<Rightarrow> [] | Some t \<Rightarrow> t)"

text \<open>\<open>timedelta.days\<close>, and the year and month of an instant (UTC, proleptic Gregorian calendar).\<close>

definition DAY :: int where "DAY = 86400000000"

definition days_between :: "time \<Rightarrow> time \<Rightarrow> int" where
  "days_between a b = (a - b) div DAY"

definition year_month :: "time \<Rightarrow> int \<times> int" where
  "year_month t =
     (let z = t div DAY + 719468;
          era = z div 146097;
          doe = z mod 146097;
          yoe = (doe - doe div 1460 + doe div 36524 - doe div 146096) div 365;
          doy = doe - (365 * yoe + yoe div 4 - yoe div 100);
          mp = (5 * doy + 2) div 153;
          m = (if mp < 10 then mp + 3 else mp - 9)
      in (yoe + era * 400 + (if m \<le> 2 then 1 else 0), m))"

section \<open>Financial facts\<close>

definition amount_scales :: "(string \<times> rat) list" where
  "amount_scales = [(''thousand'', 1000), (''thousands'', 1000), (''lakh'', 100000), (''lakhs'', 100000),
     (''million'', 1000000), (''millions'', 1000000), (''crore'', 10000000), (''crores'', 10000000),
     (''billion'', 1000000000), (''billions'', 1000000000)]"

definition letter :: "char \<Rightarrow> bool" where
  "letter c = (let n = of_char (lower_char c) :: nat in 97 \<le> n \<and> n \<le> 122)"

definition scaled_unit :: "string \<Rightarrow> (rat \<times> string) option" where
  "scaled_unit u =
     (let s = strip u; cur = take 3 s; rest = drop 3 s; sep = (\<lambda>c. c = CHR '' '' \<or> c = CHR ''_'')
      in if length cur = 3 \<and> list_all letter cur \<and> rest \<noteq> [] \<and> sep (hd rest)
         then map_option (\<lambda>m. (m, upper cur)) (map_of amount_scales (lower (dropWhile sep rest))) else None)"

definition normalize_financial_amount :: "rat \<Rightarrow> string option \<Rightarrow> rat \<times> string option" where
  "normalize_financial_amount v u =
     (case u of
        None \<Rightarrow> (v, u)
      | Some t \<Rightarrow> (case scaled_unit t of None \<Rightarrow> (v, u) | Some (m, cur) \<Rightarrow> (dec28 (v * m), Some cur)))"

text \<open>A fact as a datum of the wanted metrics and period type.\<close>

definition fact_datum :: "string list \<Rightarrow> string option \<Rightarrow> rule_fact \<Rightarrow> datum option" where
  "fact_datum metrics period_type f =
     (let as_of = (case rf_period_end f of Some t \<Rightarrow> Some t | None \<Rightarrow> rf_as_of f)
      in if \<not> rf_real f \<or> metric_key (rf_metric f) \<notin> set (map metric_key metrics) then None
         else if (case period_type of None \<Rightarrow> False | Some p \<Rightarrow> p \<noteq> [] \<and> upper (rf_period_type f) \<noteq> upper p) then None
         else (case (rf_number f, as_of) of
             (Some n, Some t) \<Rightarrow>
               (case normalize_financial_amount n (rf_unit f) of (v, u) \<Rightarrow>
                  Some \<lparr>dt_value = v, dt_as_of = Some t, dt_evidence = rf_evidence f, dt_unit = u,
                    dt_authority = fact_source_authority (rf_tier f), dt_basis = rf_basis f, dt_period = Some (rf_period_type f)\<rparr>)
           | _ \<Rightarrow> None))"

type_synonym period_id = "time option \<times> string option \<times> string \<times> string option"

definition period_key :: "datum \<Rightarrow> period_id" where
  "period_key d = (dt_as_of d, dt_period d, or_text (dt_basis d), dt_unit d)"

fun select_data :: "(period_id \<times> datum) list \<Rightarrow> datum list \<Rightarrow> (period_id \<times> datum) list" where
  "select_data sel [] = sel"
| "select_data sel (d # ds) =
     (case map_of sel (period_key d) of
        None \<Rightarrow> select_data (dset (period_key d) d sel) ds
      | Some e \<Rightarrow> select_data (if dt_authority e < dt_authority d then dset (period_key d) d sel else sel) ds)"

type_synonym series_id = "string option \<times> string option \<times> string option"

definition series_key :: "datum \<Rightarrow> series_id" where
  "series_key d = (dt_period d, dt_basis d, dt_unit d)"

definition str_of :: "string option \<Rightarrow> string" where
  "str_of s = (case s of None \<Rightarrow> ''None'' | Some t \<Rightarrow> t)"

definition as_of_time :: "datum \<Rightarrow> time" where
  "as_of_time d = (case dt_as_of d of None \<Rightarrow> 0 | Some t \<Rightarrow> t)"

definition series_rank :: "datum list \<Rightarrow> time \<times> bool \<times> nat \<times> string \<times> string" where
  "series_rank rows =
     (Max (set (map as_of_time rows)), dt_basis (hd rows) = Some ''CONSOLIDATED'',
      Max (set (map dt_authority rows)), str_of (dt_period (hd rows)), str_of (dt_unit (hd rows)))"

definition group_series :: "datum list \<Rightarrow> datum list list" where
  "group_series ds = map (\<lambda>k. filter (\<lambda>d. series_key d = k) ds) (dedup_keep_first (map series_key ds))"

definition fact_series :: "rule_fact list \<Rightarrow> string list \<Rightarrow> string option \<Rightarrow> datum list" where
  "fact_series facts metrics period_type =
     (let groups = group_series (map snd (select_data [] (List.map_filter (fact_datum metrics period_type) facts)))
      in if groups = [] then [] else sort_key as_of_time (py_max series_rank groups))"

definition latest_fact :: "rule_fact list \<Rightarrow> string list \<Rightarrow> string option \<Rightarrow> datum option" where
  "latest_fact facts metrics period_type =
     (let series = fact_series facts metrics period_type in if series = [] then None else Some (last series))"

section \<open>Structured metrics\<close>

definition provider_authority :: "string option \<Rightarrow> string option \<Rightarrow> string option \<Rightarrow> nat" where
  "provider_authority provider source_type source_name =
     (let text = upper (or_text provider @ '' '' @ or_text source_type @ '' '' @ or_text source_name)
      in if contains ''SEC'' text \<or> contains ''REGULATORY'' text then 5
         else if contains ''NSE'' text \<or> contains ''EXCHANGE'' text \<or> contains ''COMPANY FILING'' text then 4
         else if contains ''EODHD'' text \<or> contains ''LICENSED'' text then 3
         else if contains ''YAHOO'' text then 2
         else 1)"

definition DATETIME_MIN :: time where "DATETIME_MIN = - 62135596800000000"

definition datum_rank :: "datum \<Rightarrow> nat \<times> time \<times> string" where
  "datum_rank d = (dt_authority d, (case dt_as_of d of None \<Rightarrow> DATETIME_MIN | Some t \<Rightarrow> t), dt_evidence d)"

definition structured_datum :: "snapshot_record \<Rightarrow> string \<times> snapshot_fact \<Rightarrow> (string \<times> datum) option" where
  "structured_datum r = (\<lambda>(raw_key, f).
     (case sf_number f of
        None \<Rightarrow> None
      | Some n \<Rightarrow>
          if raw_key = ''latestPrice'' \<and> n \<le> 0 then None
          else Some (metric_key raw_key,
            \<lparr>dt_value = n, dt_as_of = (case sf_as_of f of None \<Rightarrow> sn_as_of r | Some t \<Rightarrow> Some t),
             dt_evidence = ''structured:'' @ sn_provider r @ '':'' @ raw_key @ '':'' @ sn_retrieved_text r,
             dt_unit = sf_unit f, dt_authority = provider_authority (Some (sn_provider r)) (sn_source_type r) (sn_source_name r),
             dt_basis = None, dt_period = None\<rparr>)))"

definition keep_better :: "(string \<times> datum) list \<Rightarrow> string \<times> datum \<Rightarrow> (string \<times> datum) list" where
  "keep_better sel = (\<lambda>(k, d).
     (case map_of sel k of
        None \<Rightarrow> dset k d sel
      | Some e \<Rightarrow> if datum_rank e < datum_rank d then dset k d sel else sel))"

definition structured_data :: "snapshot_record list \<Rightarrow> (string \<times> datum) list" where
  "structured_data rs = foldl keep_better [] (concat (map (\<lambda>r. List.map_filter (structured_datum r) (sn_facts r)) rs))"

definition pick :: "(string \<times> datum) list \<Rightarrow> string list \<Rightarrow> datum option" where
  "pick values keys = (case List.map_filter (\<lambda>k. map_of values (metric_key k)) keys of [] \<Rightarrow> None | d # _ \<Rightarrow> Some d)"

definition fact_rank :: "datum \<Rightarrow> time \<times> nat" where
  "fact_rank d = (as_of_time d, dt_authority d)"

definition financial_or_structured ::
    "rule_fact list \<Rightarrow> (string \<times> datum) list \<Rightarrow> string list \<Rightarrow> string list \<Rightarrow> string option list \<Rightarrow> datum option" where
  "financial_or_structured facts structured keys metrics periods =
     (let candidates = List.map_filter (latest_fact facts metrics) periods;
          summary = pick structured keys
      in if candidates = [] then summary
         else (let f = py_max fact_rank candidates
               in case summary of
                    None \<Rightarrow> Some f
                  | Some s \<Rightarrow> if dt_authority s \<le> dt_authority f then Some f else Some s))"

section \<open>Derived data\<close>

definition opt_max :: "time list \<Rightarrow> time option" where
  "opt_max ts = (if ts = [] then None else Some (Max (set ts)))"

definition derived_datum :: "rat \<Rightarrow> string \<Rightarrow> datum \<Rightarrow> string \<Rightarrow> datum list \<Rightarrow> datum" where
  "derived_datum v unit primary evidence others =
     \<lparr>dt_value = v, dt_as_of = opt_max (List.map_filter dt_as_of (primary # others)),
      dt_evidence = join_with ''|'' (evidence # map dt_evidence (primary # others)), dt_unit = Some unit,
      dt_authority = Min (set (map dt_authority (primary # others))), dt_basis = None, dt_period = None\<rparr>"

definition derived_from_many :: "rat \<Rightarrow> string \<Rightarrow> datum list \<Rightarrow> string \<Rightarrow> datum" where
  "derived_from_many v unit inputs evidence = derived_datum v unit (last inputs) evidence (butlast inputs)"

definition compatible :: "datum \<Rightarrow> datum \<Rightarrow> bool" where
  "compatible l r \<longleftrightarrow> dt_as_of l = dt_as_of r \<and> dt_basis l = dt_basis r \<and> dt_period l = dt_period r \<and> dt_unit l = dt_unit r"

definition debt_equity_datum :: "rule_fact list \<Rightarrow> (string \<times> datum) list \<Rightarrow> datum option" where
  "debt_equity_datum facts structured =
     (let summary = map_option (\<lambda>s. derived_datum (if 5 < \<bar>dt_value s\<bar> then dt_value s else dec28 (dt_value s * 100))
            ''PERCENT'' s ''normalized:debt-equity'' []) (pick structured [''debttoequity''])
      in case (latest_fact facts [''debt_or_borrowings'', ''total_debt''] (Some ''ANNUAL''),
               latest_fact facts [''equity'', ''total_equity''] (Some ''ANNUAL'')) of
           (Some debt, Some equity) \<Rightarrow>
             if 0 < dt_value equity \<and> compatible debt equity
             then (let derived = derived_datum (dec28 (dec28 (dt_value debt / dt_value equity) * 100)) ''PERCENT'' debt
                         ''derived:debt-equity'' [equity]
                   in case summary of
                        None \<Rightarrow> Some derived
                      | Some s \<Rightarrow> if dt_authority s \<le> dt_authority derived then Some derived else summary)
             else summary
         | _ \<Rightarrow> summary)"

definition as_percent :: "rat \<Rightarrow> rat" where
  "as_percent v = (if \<bar>v\<bar> \<le> 2 then dec28 (v * 100) else v)"

definition percent_change :: "datum \<Rightarrow> datum \<Rightarrow> rat" where
  "percent_change latest prior = dec28 (dec28 (dec28 (dt_value latest / \<bar>dt_value prior\<bar>) - 1) * 100)"

definition comparable :: "datum \<Rightarrow> datum \<Rightarrow> bool" where
  "comparable latest d \<longleftrightarrow>
     (case (dt_as_of d, dt_as_of latest) of
        (Some t, Some u) \<Rightarrow>
          (case (year_month t, year_month u) of ((y, m), (y', m')) \<Rightarrow> y = y' - 1 \<and> (m - 1) div 3 = (m' - 1) div 3) \<and>
          dt_basis d = dt_basis latest \<and> dt_period d = dt_period latest \<and> dt_unit d = dt_unit latest
      | _ \<Rightarrow> False)"

definition comparable_yoy :: "datum list \<Rightarrow> (rat \<times> datum \<times> datum) option" where
  "comparable_yoy series =
     (if length series < 2 then None
      else (let latest = last series; candidates = filter (comparable latest) (butlast series)
            in if candidates = [] then None
               else (let prior = py_min (\<lambda>d. \<bar>days_between (as_of_time latest) (as_of_time d) - 365\<bar>) candidates
                     in if dt_value prior = 0 then None else Some (percent_change latest prior, latest, prior))))"

definition sequential_change :: "datum list \<Rightarrow> (rat \<times> datum \<times> datum) option" where
  "sequential_change series =
     (if length series < 2 then None
      else (let prior = last (butlast series)
            in if dt_value prior = 0 then None else Some (percent_change (last series) prior, last series, prior)))"

text \<open>\<open>math.pow\<close> is a parameter: libm does not round it correctly.\<close>

definition series_cagr :: "(rat \<Rightarrow> rat \<Rightarrow> rat) \<Rightarrow> datum list \<Rightarrow> rat option" where
  "series_cagr fpow series =
     (if length series < 3 \<or> dt_value (hd series) \<le> 0 \<or> dt_value (last series) \<le> 0 \<or>
         dt_as_of (hd series) = None \<or> dt_as_of (last series) = None then None
      else (let years = repr_dec (fl64 (of_int (days_between (as_of_time (last series)) (as_of_time (hd series))) / (1461 / 4)))
            in if years \<le> 1 then None
               else Some (dec28 (dec28 (repr_dec (fpow (fl64 (dec28 (dt_value (last series) / dt_value (hd series))))
                      (fl64 (1 / fl64 years))) - 1) * 100))))"

definition last_n :: "nat \<Rightarrow> 'a list \<Rightarrow> 'a list" where
  "last_n n xs = drop (length xs - n) xs"

text \<open>
  \<open>zip(series[-5:-1], series[-4:])\<close>: the consecutive pairs of the last five elements; of a shorter series
  the slices start at the same element, so each element is paired with itself.
\<close>

definition growth_pairs :: "datum list \<Rightarrow> (datum \<times> datum) list" where
  "growth_pairs series = zip (butlast (last_n 5 series)) (last_n 4 series)"

definition share_percent :: "nat \<Rightarrow> nat \<Rightarrow> rat" where
  "share_percent k n = dec28 (dec28 (of_nat k / of_nat n) * 100)"

definition growth_consistency :: "datum list \<Rightarrow> datum list \<Rightarrow> (rat \<times> datum list) option" where
  "growth_consistency revenue earnings =
     (let pairs = growth_pairs revenue @ growth_pairs earnings
      in if pairs = [] then None
         else Some (share_percent (length (filter (\<lambda>(p, c). dt_value p \<le> dt_value c) pairs)) (length pairs),
           concat (map (\<lambda>(p, c). [p, c]) pairs)))"

definition day_of :: "datum \<Rightarrow> int option" where
  "day_of d = map_option (\<lambda>t. t div DAY) (dt_as_of d)"

definition aligned_ratios :: "datum list \<Rightarrow> datum list \<Rightarrow> rat \<Rightarrow> rat list" where
  "aligned_ratios numerators denominators multiplier =
     (let by_date = rev (map (\<lambda>d. (day_of d, d)) (filter (\<lambda>d. dt_as_of d \<noteq> None \<and> dt_value d \<noteq> 0) denominators))
      in List.map_filter (\<lambda>n. if dt_as_of n = None then None
           else (case map_of by_date (day_of n) of
               None \<Rightarrow> None
             | Some d \<Rightarrow> if compatible n d then Some (dec28 (dec28 (dt_value n / dt_value d) * multiplier)) else None)) numerators)"

definition usable_prices :: "price_observation list \<Rightarrow> price_observation list" where
  "usable_prices ps = sort_key po_observed_at (filter (\<lambda>p. 0 < po_price p) ps)"

end
