(* ===== verification/Backfill.thy ===== *)
theory Backfill
  imports StockData
begin

text \<open>
  Planning of the daily-bar backfill (\<open>app/nse_daily_backfill.py\<close>): the windows of one request
  range, the ranges that the stored bars leave open, and the subtraction of ranges already fetched.
  A date is its number of days, an instant its microseconds.
\<close>

section \<open>Windows\<close>

datatype plan_error = WINDOW_PLANNING_FAILURE

type_synonym range = "int \<times> int"

function window_loop :: "int \<Rightarrow> int \<Rightarrow> int \<Rightarrow> range list" where
  "window_loop cursor end_date width =
     (if cursor \<le> end_date \<and> 1 \<le> width
      then (let last_day = cursor + min (width - 1) (end_date - cursor)
            in (cursor, last_day) # (if last_day = end_date then [] else window_loop (last_day + 1) end_date width))
      else [])"
  by pat_completeness auto

termination
  by (relation "measure (\<lambda>(cursor, end_date, width). nat (end_date + 1 - cursor))") (auto simp: min_def)

declare window_loop.simps [simp del]

definition plan_windows :: "int \<Rightarrow> int \<Rightarrow> int \<Rightarrow> plan_error + range list" where
  "plan_windows start end_date width =
     (if end_date < start \<or> width < 1 then Inl WINDOW_PLANNING_FAILURE else Inr (window_loop start end_date width))"

section \<open>Coverage\<close>

record daily_bar =
  db_instrument :: string
  db_date :: int
  db_open :: "rat option"
  db_high :: "rat option"
  db_low :: "rat option"
  db_close :: "rat option"
  db_previous_close :: "rat option"
  db_volume :: "int option"
  db_turnover :: "rat option"
  db_currency :: string
  db_provider :: string
  db_symbol :: "string option"
  db_mode :: string
  db_source_url :: string
  db_retrieved :: time

datatype coverage_state = NO_HISTORY | PARTIAL_HISTORY | STALE_HISTORY | CURRENT_HISTORY

definition nse_usable_bars ::
    "daily_bar option list option \<Rightarrow> string \<Rightarrow> string \<Rightarrow> string \<Rightarrow> int \<Rightarrow> daily_bar list" where
  "nse_usable_bars rows key symbol currency end_date =
     sort_key db_date (filter (\<lambda>b. db_instrument b = key \<and> db_provider b = ''NSE'' \<and> db_mode b = ''REAL'' \<and>
       db_symbol b = Some symbol \<and> db_currency b = currency \<and> db_date b \<le> end_date \<and> list_all (\<lambda>x. x \<noteq> None) [db_open b, db_high b, db_low b, db_close b])
       (List.map_filter (\<lambda>b. b) (case rows of None \<Rightarrow> [] | Some bs \<Rightarrow> bs)))"

definition HOUR :: int where "HOUR = 3600000000"

definition coverage_plan ::
    "daily_bar list \<Rightarrow> int \<Rightarrow> int \<Rightarrow> time \<Rightarrow> int \<Rightarrow> bool \<Rightarrow> coverage_state \<times> range list" where
  "coverage_plan rows start end_date now freshness_hours force =
     (if rows = [] then (NO_HISTORY, [(start, end_date)])
      else (let first_bar = hd rows; last_bar = last rows;
                freshness = freshness_hours * HOUR;
                prefix = (start < db_date first_bar);
                stale = (freshness \<le> now - db_retrieved last_bar \<or> freshness \<le> (end_date - db_date last_bar) * DAY);
                state = (if prefix then PARTIAL_HISTORY else if stale then STALE_HISTORY else CURRENT_HISTORY);
                tail_start = (if db_date last_bar < end_date then min end_date (db_date last_bar + 1) else end_date)
            in (state,
                if force then [(start, end_date)]
                else (if prefix then [(start, min end_date (db_date first_bar - 1))] else []) @
                     (if stale then [(max start tail_start, end_date)] else []))))"

text \<open>One completed range cut out of the remaining ones; then all of them, in ascending order.\<close>

fun cut_range :: "range \<Rightarrow> range \<Rightarrow> range list" where
  "cut_range (low, high) (start, end_date) =
     (if high < start \<or> end_date < low then [(start, end_date)]
      else (if start < low then [(start, low - 1)] else []) @ (if high < end_date then [(high + 1, end_date)] else []))"

definition uncovered :: "range list \<Rightarrow> range list \<Rightarrow> range list" where
  "uncovered intervals completed =
     foldl (\<lambda>remaining c. concat (map (cut_range c) remaining)) intervals (sort completed)"

text \<open>
  The fetched ranges of an instrument that are still fresh, and the windows requested for it; no
  window is the outcome \<open>SKIPPED_CURRENT\<close>.
\<close>

definition fresh_ranges :: "(int \<times> int \<times> time) list \<Rightarrow> time \<Rightarrow> int \<Rightarrow> range list" where
  "fresh_ranges completed now freshness_hours =
     map (\<lambda>(a, b, stamp). (a, b)) (filter (\<lambda>(a, b, stamp). now - stamp < freshness_hours * HOUR) completed)"

fun plan_all :: "int \<Rightarrow> range list \<Rightarrow> plan_error + range list" where
  "plan_all width [] = Inr []"
| "plan_all width ((a, b) # rs) =
     (case plan_windows a b width of
        Inl e \<Rightarrow> Inl e
      | Inr ws \<Rightarrow> (case plan_all width rs of Inl e \<Rightarrow> Inl e | Inr ws' \<Rightarrow> Inr (ws @ ws')))"

definition requested_windows ::
    "daily_bar list \<Rightarrow> int \<Rightarrow> int \<Rightarrow> time \<Rightarrow> int \<Rightarrow> bool \<Rightarrow> (int \<times> int \<times> time) list \<Rightarrow> int \<Rightarrow> plan_error + range list" where
  "requested_windows rows start end_date now freshness_hours force completed width =
     (let intervals = snd (coverage_plan rows start end_date now freshness_hours force);
          fetched = fresh_ranges completed now freshness_hours
      in plan_all width (if \<not> force \<and> rows \<noteq> [] then uncovered intervals fetched else intervals))"

text \<open>The class of a failed window.\<close>

definition window_failure_class :: "string \<Rightarrow> string" where
  "window_failure_class reason =
     (if reason = ''DAILY_BAR_PERSISTENCE_UNAVAILABLE'' then ''PERSISTENCE_FAILURE''
      else if contains ''429'' reason then ''THROTTLED''
      else if contains ''HTTP_'' reason then ''HTTP_ERROR''
      else if reason \<in> {''EMPTY_RESPONSE'', ''NO_VALID_HISTORY''} then ''EMPTY_RESPONSE''
      else if list_ex (\<lambda>s. contains s reason) [''CSV'', ''HEADERS'', ''REJECTED_ROWS''] then ''PARSER_FAILURE''
      else if list_ex (\<lambda>s. contains s reason) [''MAPPING'', ''CURRENCY'', ''UNSUPPORTED_INSTRUMENT'', ''IDENTITY_MISMATCH'']
        then ''NO_TRUSTED_MAPPING''
      else if prefix_of ''IDENTITY'' reason then ''IDENTITY_UNAVAILABLE''
      else if contains ''WINDOW'' reason \<or> contains ''DATE_RANGE'' reason then ''WINDOW_PLANNING_FAILURE''
      else ''PROVIDER_UNAVAILABLE'')"

section \<open>The days of a list of ranges\<close>

definition days_in :: "range list \<Rightarrow> int list" where
  "days_in rs = concat (map (\<lambda>(a, b). [a..b]) rs)"

lemma days_in_simps [simp]: "days_in [] = []" "days_in ((a, b) # rs) = [a..b] @ days_in rs"
  by (simp_all add: days_in_def)

lemma days_in_append [simp]: "days_in (xs @ ys) = days_in xs @ days_in ys"
  by (simp add: days_in_def)

lemma upto_join: "a \<le> b + 1 \<Longrightarrow> b \<le> c \<Longrightarrow> [a..b] @ [b + 1..c] = [a..c]"
  using upto_split2[of a b c] by (cases "a = b + 1") auto

lemma window_loop_days:
  "1 \<le> width \<Longrightarrow> days_in (window_loop cursor end_date width) = [cursor..end_date] \<and>
     (\<forall>(a, b) \<in> set (window_loop cursor end_date width). a \<le> b \<and> b < a + width)"
proof (induction cursor end_date width rule: window_loop.induct)
  case (1 cursor end_date width)
  show ?case
  proof (cases "cursor \<le> end_date")
    case True
    let ?l = "cursor + min (width - 1) (end_date - cursor)"
    have l: "cursor \<le> ?l" "?l \<le> end_date" "?l < cursor + width" using True 1(2) by (auto simp: min_def)
    have step: "window_loop cursor end_date width =
        (cursor, ?l) # (if ?l = end_date then [] else window_loop (?l + 1) end_date width)"
      using True 1(2) by (simp add: window_loop.simps[of cursor] Let_def)
    show ?thesis
    proof (cases "?l = end_date")
      case True
      then show ?thesis using l unfolding step by simp
    next
      case False
      have ih: "days_in (window_loop (?l + 1) end_date width) = [?l + 1..end_date] \<and>
         (\<forall>(a, b) \<in> set (window_loop (?l + 1) end_date width). a \<le> b \<and> b < a + width)"
        by (rule 1(1)) (use True False 1(2) in simp_all)
      then show ?thesis using l False upto_join[of cursor ?l end_date] unfolding step by simp
    qed
  qed (simp add: window_loop.simps)
qed

text \<open>A request range is planned whenever it is not empty and the window size is positive, and is
  refused otherwise.  The planned windows, in order, contain every day of the range exactly once, and
  each is a proper interval of at most the window size.\<close>

theorem windows_partition_range:
  "plan_windows start end_date width = Inl WINDOW_PLANNING_FAILURE \<and> (end_date < start \<or> width < 1) \<or>
   (\<exists>ws. plan_windows start end_date width = Inr ws \<and> days_in ws = [start..end_date] \<and>
      list_all (\<lambda>(a, b). a \<le> b \<and> b < a + width) ws)"
  using window_loop_days[of width start end_date] by (auto simp: plan_windows_def list_all_iff)

lemma cut_days: "low \<le> high \<Longrightarrow> days_in (cut_range (low, high) (a, b)) = filter (\<lambda>d. \<not> (low \<le> d \<and> d \<le> high)) [a..b]"
proof -
  assume lh: "low \<le> high"
  have keep: "filter (\<lambda>d. \<not> (low \<le> d \<and> d \<le> high)) [x..y] = [x..y]" if "y < low \<or> high < x" for x y
    using that by (auto simp: filter_id_conv)
  have drop: "filter (\<lambda>d. \<not> (low \<le> d \<and> d \<le> high)) [x..y] = []" if "low \<le> x" "y \<le> high" for x y
    using that by (auto simp: filter_empty_conv)
  show ?thesis
  proof (cases "high < a \<or> b < low \<or> b < a")
    case True
    then show ?thesis using keep[of b a] lh by auto
  next
    case False
    define m n where "m = max a low" and "n = min b high"
    have mn: "a \<le> m" "m - 1 \<le> n" "n \<le> b" "a \<le> n + 1" "low \<le> m" "n \<le> high"
      using False lh unfolding m_def n_def by linarith+
    have "[a..b] = [a..m - 1] @ [m..n] @ [n + 1..b]"
      using upto_join[of a "m - 1" n] upto_join[of a n b] mn by (metis append_assoc diff_add_cancel)
    then have "filter (\<lambda>d. \<not> (low \<le> d \<and> d \<le> high)) [a..b] =
        filter (\<lambda>d. \<not> (low \<le> d \<and> d \<le> high)) [a..m - 1] @ filter (\<lambda>d. \<not> (low \<le> d \<and> d \<le> high)) [n + 1..b]"
      using drop[of m n] mn by simp
    moreover have "filter (\<lambda>d. \<not> (low \<le> d \<and> d \<le> high)) [a..m - 1] = [a..m - 1]"
      by (cases "a < low") (simp_all add: m_def keep)
    moreover have "filter (\<lambda>d. \<not> (low \<le> d \<and> d \<le> high)) [n + 1..b] = [n + 1..b]"
      by (cases "high < b") (simp_all add: n_def keep)
    ultimately show ?thesis using False by (auto simp: m_def n_def)
  qed
qed

lemma cut_list_days:
  "low \<le> high \<Longrightarrow> days_in (concat (map (cut_range (low, high)) rs)) = filter (\<lambda>d. \<not> (low \<le> d \<and> d \<le> high)) (days_in rs)"
  by (induction rs) (simp_all add: cut_days split_paired_all del: cut_range.simps)

definition proper :: "range \<Rightarrow> bool" where "proper r \<longleftrightarrow> fst r \<le> snd r"

definition in_range :: "int \<Rightarrow> range \<Rightarrow> bool" where "in_range d r \<longleftrightarrow> fst r \<le> d \<and> d \<le> snd r"

lemma uncovered_fold:
  "list_all proper cs \<Longrightarrow>
     days_in (foldl (\<lambda>remaining c. concat (map (cut_range c) remaining)) rs cs) =
     filter (\<lambda>d. \<not> list_ex (in_range d) cs) (days_in rs)"
proof (induction cs arbitrary: rs)
  case (Cons c cs)
  obtain low high where c: "c = (low, high)" by (cases c)
  have "low \<le> high" using Cons.prems by (simp add: c proper_def)
  then show ?case using Cons by (simp add: c cut_list_days in_range_def del: split_paired_Ex)
qed simp

lemma cut_proper: "proper r \<Longrightarrow> list_all proper (cut_range c r)"
  by (cases c; cases r) (auto simp: proper_def)

lemma uncovered_proper:
  "list_all proper rs \<Longrightarrow> list_all proper (foldl (\<lambda>remaining c. concat (map (cut_range c) remaining)) rs cs)"
proof (induction cs arbitrary: rs)
  case (Cons c cs)
  have "list_all proper (concat (map (cut_range c) rs))"
    using Cons.prems cut_proper by (induction rs) auto
  then show ?case using Cons.IH by simp
qed simp

lemma uncovered_days:
  "list_all proper completed \<Longrightarrow>
     days_in (uncovered rs completed) = filter (\<lambda>d. \<not> list_ex (in_range d) completed) (days_in rs)"
  unfolding uncovered_def by (subst uncovered_fold) (auto simp: list_all_iff list_ex_iff)

lemma uncovered_all_proper: "list_all proper rs \<Longrightarrow> list_all proper (uncovered rs completed)"
  unfolding uncovered_def by (rule uncovered_proper)

section \<open>What is requested\<close>

lemma plan_all_days:
  "1 \<le> width \<Longrightarrow> list_all proper rs \<Longrightarrow>
     \<exists>ws. plan_all width rs = Inr ws \<and> days_in ws = days_in rs \<and> list_all (\<lambda>(a, b). a \<le> b \<and> b < a + width) ws"
proof (induction rs)
  case (Cons r rs)
  obtain a b where r: "r = (a, b)" by (cases r)
  then have "a \<le> b" using Cons.prems by (simp add: proper_def)
  then have "plan_windows a b width = Inr (window_loop a b width)" using Cons.prems by (simp add: plan_windows_def)
  then show ?case using Cons window_loop_days[of width a b] by (auto simp: r list_all_iff)
qed simp

definition is_stale :: "daily_bar list \<Rightarrow> int \<Rightarrow> time \<Rightarrow> int \<Rightarrow> bool" where
  "is_stale rows end_date now freshness_hours \<longleftrightarrow>
     freshness_hours * HOUR \<le> now - db_retrieved (last rows) \<or>
     freshness_hours * HOUR \<le> (end_date - db_date (last rows)) * DAY"

text \<open>The days a plan is meant to ask for.\<close>

definition wanted_day ::
    "daily_bar list \<Rightarrow> int \<Rightarrow> time \<Rightarrow> int \<Rightarrow> bool \<Rightarrow> (int \<times> int \<times> time) list \<Rightarrow> int \<Rightarrow> bool" where
  "wanted_day rows end_date now freshness_hours force completed d \<longleftrightarrow>
     force \<or> rows = [] \<or>
     (d < db_date (hd rows) \<or> is_stale rows end_date now freshness_hours \<and> (db_date (last rows) < d \<or> d = end_date)) \<and>
     \<not> list_ex (in_range d) (fresh_ranges completed now freshness_hours)"

lemma usable_bar_dates:
  assumes "rows = nse_usable_bars stored key symbol currency end_date" and "rows \<noteq> []"
  shows "db_date (hd rows) \<le> db_date (last rows) \<and> db_date (last rows) \<le> end_date"
proof -
  have sorted: "sorted (map db_date rows)" unfolding assms(1) nse_usable_bars_def by simp
  have "db_date (hd rows) \<le> db_date (last rows)"
    using sorted assms(2) by (cases rows) (auto simp: last_in_set)
  moreover have "last rows \<in> set rows" using assms(2) by simp
  then have "db_date (last rows) \<le> end_date" unfolding assms(1) nse_usable_bars_def by simp
  ultimately show ?thesis ..
qed

text \<open>The prefix and tail ranges over the dates of the first and last bar.\<close>

definition plan_ranges :: "int \<Rightarrow> int \<Rightarrow> int \<Rightarrow> int \<Rightarrow> bool \<Rightarrow> range list" where
  "plan_ranges start end_date f l stale =
     (if start < f then [(start, min end_date (f - 1))] else []) @
     (if stale then [(max start (if l < end_date then min end_date (l + 1) else end_date), end_date)] else [])"

lemma plan_ranges_spec:
  assumes "start \<le> end_date" and "f \<le> l" and "l \<le> end_date"
  shows "list_all proper (plan_ranges start end_date f l stale)"
    and "distinct (days_in (plan_ranges start end_date f l stale))"
    and "set (days_in (plan_ranges start end_date f l stale)) =
      {d. start \<le> d \<and> d \<le> end_date \<and> (d < f \<or> stale \<and> (l < d \<or> d = end_date))}"
  using assms by (cases "start < f"; cases stale; auto simp: plan_ranges_def proper_def)+

lemma coverage_plan_ranges:
  "snd (coverage_plan rows start end_date now fh force) =
     (if force \<or> rows = [] then [(start, end_date)]
      else plan_ranges start end_date (db_date (hd rows)) (db_date (last rows)) (is_stale rows end_date now fh))"
  by (simp add: coverage_plan_def plan_ranges_def is_stale_def Let_def)

lemma coverage_days:
  fixes force :: bool and now fh :: int
  assumes "start \<le> end_date" and "rows \<noteq> [] \<Longrightarrow> db_date (hd rows) \<le> db_date (last rows) \<and> db_date (last rows) \<le> end_date"
  defines "ivs \<equiv> snd (coverage_plan rows start end_date now fh force)"
  shows "list_all proper ivs \<and> distinct (days_in ivs) \<and>
    set (days_in ivs) = {d. start \<le> d \<and> d \<le> end_date \<and> (force \<or> rows = [] \<or> d < db_date (hd rows) \<or>
      is_stale rows end_date now fh \<and> (db_date (last rows) < d \<or> d = end_date))}"
proof (cases "force \<or> rows = []")
  case True
  then show ?thesis using assms(1) by (auto simp: ivs_def coverage_plan_ranges proper_def)
next
  case False
  then have "ivs = plan_ranges start end_date (db_date (hd rows)) (db_date (last rows)) (is_stale rows end_date now fh)"
    by (simp add: ivs_def coverage_plan_ranges)
  then show ?thesis using plan_ranges_spec[OF assms(1)] assms(2) False by simp
qed

text \<open>C22: For every range, window size and stored history the plan of an instrument exists, asks for no
  day twice, and asks for exactly the wanted days: all of them when forced or without history,
  otherwise those before the first bar and, when the history is stale, those after the last bar (the
  end day again when there is none), less the days of fresh successful requests.\<close>

theorem requested_days_exact:
  assumes "start \<le> end_date" and "1 \<le> width" and "list_all (\<lambda>(a, b, stamp). a \<le> b) completed"
    and "rows = nse_usable_bars stored key symbol currency end_date"
  shows "\<exists>ws. requested_windows rows start end_date now fh force completed width = Inr ws \<and> distinct (days_in ws) \<and>
    set (days_in ws) = {d. start \<le> d \<and> d \<le> end_date \<and> wanted_day rows end_date now fh force completed d}"
proof -
  let ?done = "fresh_ranges completed now fh"
  define ivs where "ivs = snd (coverage_plan rows start end_date now fh force)"
  let ?rs = "if \<not> force \<and> rows \<noteq> [] then uncovered ivs ?done else ivs"
  have days: "list_all proper ivs" "distinct (days_in ivs)"
      "set (days_in ivs) = {d. start \<le> d \<and> d \<le> end_date \<and> (force \<or> rows = [] \<or> d < db_date (hd rows) \<or>
        is_stale rows end_date now fh \<and> (db_date (last rows) < d \<or> d = end_date))}"
    unfolding ivs_def using coverage_days[OF assms(1) usable_bar_dates[OF assms(4)], where force = force and now = now and fh = fh] by blast+
  have "list_all proper ?done"
    using assms(3) by (auto simp: fresh_ranges_def list_all_iff proper_def)
  then have u: "days_in (uncovered ivs ?done) = filter (\<lambda>d. \<not> list_ex (in_range d) ?done) (days_in ivs)"
    by (rule uncovered_days)
  have "list_all proper ?rs" by (rule if_split[THEN iffD2]) (intro conjI impI days(1) uncovered_all_proper)
  then obtain ws where ws: "plan_all width ?rs = Inr ws" "days_in ws = days_in ?rs"
    using plan_all_days[OF assms(2)] by blast
  have "distinct (days_in ?rs)" using days(2) u by simp
  moreover have "set (days_in ?rs) = {d. start \<le> d \<and> d \<le> end_date \<and> wanted_day rows end_date now fh force completed d}"
    using days(3) u by (auto simp: wanted_day_def)
  ultimately show ?thesis using ws unfolding requested_windows_def Let_def ivs_def[symmetric] by simp
qed

definition witness_bar :: "int \<Rightarrow> daily_bar" where
  "witness_bar d = \<lparr>db_instrument = ''I'', db_date = d, db_open = Some 1, db_high = Some 1, db_low = Some 1, db_close = Some 1,
     db_previous_close = None, db_volume = None, db_turnover = None, db_currency = ''INR'', db_provider = ''NSE'',
     db_symbol = Some ''S'', db_mode = ''REAL'', db_source_url = ''u'', db_retrieved = 0\<rparr>"

lemma requested_days_exact_witness:
  "\<exists>ws. requested_windows (nse_usable_bars (Some [Some (witness_bar 5)]) ''I'' ''S'' ''INR'' 9) 1 9 0 24 False [(1, 2, 0)] 3 = Inr ws \<and>
     distinct (days_in ws) \<and> set (days_in ws) = {d. 1 \<le> d \<and> d \<le> 9 \<and>
       wanted_day (nse_usable_bars (Some [Some (witness_bar 5)]) ''I'' ''S'' ''INR'' 9) 9 0 24 False [(1, 2, 0)] d}"
  by (rule requested_days_exact[OF _ _ _ refl]) simp_all

end
