(* ===== verification/Scheduler.thy ===== *)
theory Scheduler
  imports CycleStore Sessions
begin

text \<open>
  When the system-owned cycles are submitted (\<open>app/global_opportunity_scheduler.py\<close>) and the registry of
  background tasks (\<open>app/background_task_registry.py\<close>).  The durable store is the one of the cycle
  theories, the calendar the one of the session theory.
\<close>

section \<open>The scheduler\<close>

datatype phase_of_day = MARKET_HOURS | POST_CLOSE

record scheduler =
  sd_market_code :: string
  sd_hourly_interval :: int
  sd_post_close_window :: int
  sd_last_market :: "time option"
  sd_last_post_close :: "time option"

definition HOURLY_INTERVAL :: int where "HOURLY_INTERVAL = 3600 * 1000000"
definition POST_CLOSE_WINDOW :: int where "POST_CLOSE_WINDOW = 2 * 3600 * 1000000"

definition new_scheduler :: scheduler where
  "new_scheduler = \<lparr>sd_market_code = ''NSE'', sd_hourly_interval = HOURLY_INTERVAL, sd_post_close_window = POST_CLOSE_WINDOW,
     sd_last_market = None, sd_last_post_close = None\<rparr>"

text \<open>The calendar, with the regular Indian week when none is stored.\<close>

definition clock_us :: "int \<Rightarrow> int \<Rightarrow> int" where "clock_us h m = (h * 60 + m) * 60 * 1000000"

definition load_schedules :: "string \<Rightarrow> schedule list \<Rightarrow> schedule list" where
  "load_schedules code stored =
     (if stored = [] then
        map (\<lambda>day. \<lparr>sc_market_code = code, sc_mic = Some ''XNSE'', sc_timezone = ''Asia/Kolkata'', sc_trading_day = day,
          sc_open = clock_us 9 15, sc_close = clock_us 15 30, sc_enabled = True\<rparr>) [0..4]
      else stored)"

text \<open>A job of the history: when it was updated, if that can be read, its status, and whether it was a
  controlled one.\<close>

record job =
  jb_updated :: "time option"
  jb_status :: string
  jb_controlled :: bool

definition recover_job :: "time option \<Rightarrow> job \<Rightarrow> time option" where
  "recover_job seen j =
     (case jb_updated j of
        None \<Rightarrow> seen
      | Some t \<Rightarrow>
          (let seen' = (if jb_status j = ''COMPLETED'' \<and> (case seen of None \<Rightarrow> True | Some l \<Rightarrow> l < t) then Some t else seen)
           in if jb_status j \<in> {''ACCEPTED'', ''RUNNING''} \<and> (case seen' of None \<Rightarrow> True | Some l \<Rightarrow> l < t) then Some t else seen'))"

definition recover_last_runs :: "job list \<Rightarrow> scheduler \<Rightarrow> scheduler" where
  "recover_last_runs jobs s = s\<lparr>sd_last_market := foldl recover_job (sd_last_market s) jobs\<rparr>"

definition market_hours_due :: "scheduler \<Rightarrow> time \<Rightarrow> bool" where
  "market_hours_due s now = (case sd_last_market s of None \<Rightarrow> True | Some l \<Rightarrow> \<not> now - l < sd_hourly_interval s)"

definition post_close_due :: "zone_utc \<Rightarrow> scheduler \<Rightarrow> schedule list \<Rightarrow> calendar_exception list \<Rightarrow> time \<Rightarrow> bool" where
  "post_close_due utc s schedules exceptions now =
     (let completed = latest_completed_session utc (sd_market_code s) schedules exceptions now
      in if (case (sd_last_post_close s, completed) of (Some l, Some c) \<Rightarrow> c \<le> l | _ \<Rightarrow> False) then False
         else (case completed of None \<Rightarrow> False | Some c \<Rightarrow> \<not> sd_post_close_window s < now - c))"

text \<open>What a poll reads: the recovery pause, whether the worker has a cycle in flight, the store, the calendar.\<close>

record poll =
  po_paused :: bool
  po_active :: bool
  po_store :: db
  po_schedules :: "schedule list"
  po_exceptions :: "calendar_exception list"

definition submission_due :: "zone_local \<Rightarrow> zone_utc \<Rightarrow> scheduler \<Rightarrow> poll \<Rightarrow> time \<Rightarrow> phase_of_day option" where
  "submission_due local utc s p now =
     (if po_paused p then None
      else if po_active p then None
      else if (case active_cycle_run (sd_market_code s) (po_store p) of
                 Some (c, r) \<Rightarrow> r_status r \<in> {R_CANCEL_REQUESTED, R_CANCELLED} | None \<Rightarrow> False) then None
      else (let schedules = load_schedules (sd_market_code s) (po_schedules p);
                status = market_session_status local (Some (sd_market_code s)) schedules (po_exceptions p) now
            in if status = ''OPEN'' then (if market_hours_due s now then Some MARKET_HOURS else None)
               else if status = ''CLOSED'' then
                 (if post_close_due utc s schedules (po_exceptions p) now then Some POST_CLOSE else None)
               else None))"

definition note_submission :: "phase_of_day \<Rightarrow> time \<Rightarrow> scheduler \<Rightarrow> scheduler" where
  "note_submission ph now s = (case ph of MARKET_HOURS \<Rightarrow> s\<lparr>sd_last_market := Some now\<rparr> | POST_CLOSE \<Rightarrow> s\<lparr>sd_last_post_close := Some now\<rparr>)"

definition has_valid_production_snapshot :: "job list \<Rightarrow> bool" where
  "has_valid_production_snapshot jobs = list_ex (\<lambda>j. jb_status j = ''COMPLETED'' \<and> \<not> jb_controlled j) jobs"

text \<open>The explicit bootstrap; \<open>accepted\<close> is False when the submission raises.\<close>

definition submit_initial :: "job list \<Rightarrow> poll \<Rightarrow> bool \<Rightarrow> time \<Rightarrow> scheduler \<Rightarrow> scheduler \<times> bool" where
  "submit_initial jobs p accepted now s =
     (if po_active p \<or> po_paused p \<or> has_valid_production_snapshot jobs then (s, False)
      else if accepted then (s\<lparr>sd_last_market := Some now, sd_last_post_close := Some now\<rparr>, True)
      else (s, False))"

text \<open>The loop: polls that submit (with what they read), polls that do nothing (nothing due, or the submission raised), and a
  restart of the process, which recovers what it can from the job history.\<close>

datatype schedule_event = Submitted phase_of_day poll | Idle | Restarted "job list"

inductive scheduler_step :: "zone_local \<Rightarrow> zone_utc \<Rightarrow> time \<Rightarrow> schedule_event \<Rightarrow> scheduler \<Rightarrow> scheduler \<Rightarrow> bool"
  for local utc where
  poll_submits: "submission_due local utc s p now = Some ph \<Longrightarrow>
    scheduler_step local utc now (Submitted ph p) s (note_submission ph now s)"
| poll_idle: "scheduler_step local utc now Idle s s"
| restart: "scheduler_step local utc now (Restarted jobs) s
    (recover_last_runs jobs (s\<lparr>sd_last_market := None, sd_last_post_close := None\<rparr>))"

inductive_cases submitE: "scheduler_step local utc now (Submitted ph p) s s'"
inductive_cases idleE: "scheduler_step local utc now Idle s s'"
inductive_cases restartE: "scheduler_step local utc now (Restarted jobs) s s'"

section \<open>The cadence\<close>

lemma due_facts:
  assumes "submission_due local utc s p now = Some ph"
  shows "\<not> po_paused p" and "\<not> po_active p"
    and "ph = MARKET_HOURS \<Longrightarrow> market_hours_due s now \<and>
      market_session_status local (Some (sd_market_code s)) (load_schedules (sd_market_code s) (po_schedules p)) (po_exceptions p) now = ''OPEN''"
    and "ph = POST_CLOSE \<Longrightarrow> post_close_due utc s (load_schedules (sd_market_code s) (po_schedules p)) (po_exceptions p) now"
  using assms by (auto simp: submission_due_def Let_def split: if_splits)

lemma post_close_facts:
  assumes "post_close_due utc s schedules exceptions now"
  shows "\<exists>c. latest_completed_session utc (sd_market_code s) schedules exceptions now = Some c \<and> c \<le> now \<and>
    now - c \<le> sd_post_close_window s \<and> (\<forall>l. sd_last_post_close s = Some l \<longrightarrow> l < c)"
proof -
  obtain c where c: "latest_completed_session utc (sd_market_code s) schedules exceptions now = Some c"
      "now - c \<le> sd_post_close_window s" "\<forall>l. sd_last_post_close s = Some l \<longrightarrow> l < c"
    using assms by (fastforce simp: post_close_due_def Let_def split: option.splits if_splits)
  have "c \<le> now"
    using first_some_SomeD[OF c(1)[unfolded latest_completed_session_def]] by (auto split: option.splits if_splits)
  then show ?thesis using c by blast
qed

text \<open>The jobs that give a restart a submission of \<open>t\<close> or later back.\<close>

definition recovers :: "time \<Rightarrow> job \<Rightarrow> bool" where
  "recovers t j \<longleftrightarrow> jb_status j \<in> {''COMPLETED'', ''ACCEPTED'', ''RUNNING''} \<and>
     (case jb_updated j of None \<Rightarrow> False | Some u \<Rightarrow> t \<le> u)"

lemma recover_job_since:
  assumes "(\<exists>l. seen = Some l \<and> t \<le> l) \<or> recovers t j"
  shows "\<exists>l. recover_job seen j = Some l \<and> t \<le> l"
  using assms by (cases seen; cases "jb_updated j") (auto simp: recover_job_def recovers_def Let_def)

lemma recover_jobs_since:
  "(\<exists>l. seen = Some l \<and> t \<le> l) \<or> list_ex (recovers t) jobs \<Longrightarrow> \<exists>l. foldl recover_job seen jobs = Some l \<and> t \<le> l"
proof (induction jobs arbitrary: seen)
  case (Cons j jobs)
  have "(\<exists>l. recover_job seen j = Some l \<and> t \<le> l) \<or> list_ex (recovers t) jobs"
    using Cons.prems recover_job_since[of seen t j] by auto
  then show ?case using Cons.IH by simp
qed simp

text \<open>What a run of the loop keeps: the latest noted submissions, and across a restart the hourly one that the job
  history gives back.\<close>

definition paced :: "scheduler \<Rightarrow> time option \<Rightarrow> time option \<Rightarrow> scheduler \<Rightarrow> bool" where
  "paced s0 market post s \<longleftrightarrow> sd_hourly_interval s = sd_hourly_interval s0 \<and> sd_post_close_window s = sd_post_close_window s0 \<and>
     sd_market_code s = sd_market_code s0 \<and>
     (\<forall>t. market = Some t \<longrightarrow> (\<exists>l. sd_last_market s = Some l \<and> t \<le> l)) \<and>
     (\<forall>t. post = Some t \<longrightarrow> (\<exists>l. sd_last_post_close s = Some l \<and> t \<le> l))"

fun restart_keeps :: "time option \<Rightarrow> time option \<Rightarrow> schedule_event \<Rightarrow> bool" where
  "restart_keeps market post (Restarted jobs) = (post = None \<and> pred_option (\<lambda>t. list_ex (recovers t) jobs) market)"
| "restart_keeps market post e = True"

lemma paced_step:
  assumes "scheduler_step local utc now e s s'" and "paced s0 market post s" and "restart_keeps market post e"
    and "\<forall>t. market = Some t \<longrightarrow> t \<le> now" and "\<forall>t. post = Some t \<longrightarrow> t \<le> now"
  shows "paced s0 market post s'"
proof (cases e)
  case (Submitted ph p)
  then have "s' = note_submission ph now s" using assms(1) by (auto elim: submitE)
  then show ?thesis using assms(2,4,5) by (auto simp: paced_def note_submission_def split: phase_of_day.split)
next
  case Idle
  then show ?thesis using assms(1,2) by (auto elim: idleE)
next
  case (Restarted jobs)
  then have "s' = recover_last_runs jobs (s\<lparr>sd_last_market := None, sd_last_post_close := None\<rparr>)"
    using assms(1) by (auto elim: restartE)
  then show ?thesis
    using assms(2,3) Restarted recover_jobs_since[of None _ jobs] by (auto simp: paced_def recover_last_runs_def)
qed

lemma paced_run:
  assumes "trace (scheduler_step local utc) t s ls t' s'" and "paced s0 market post s"
    and "\<forall>(clk, e) \<in> set ls. restart_keeps market post e"
    and "\<forall>t0. market = Some t0 \<longrightarrow> t0 \<le> t" and "\<forall>t0. post = Some t0 \<longrightarrow> t0 \<le> t"
  shows "paced s0 market post s'"
  using assms
proof (induction rule: trace.induct)
  case (trace_cons t clk e s s1 ls t' s')
  have "paced s0 market post s1"
    by (rule paced_step[OF trace_cons.hyps(2) trace_cons.prems(1)])
      (use trace_cons.prems(2-) trace_cons.hyps(1) in \<open>auto dest: order_trans\<close>)
  then show ?case
    by (rule trace_cons.IH) (use trace_cons.prems(2-) trace_cons.hyps(1) in \<open>auto dest: order_trans\<close>)
qed simp

lemma restart_keeps_None: "restart_keeps None None e"
  by (cases e) simp_all

lemma trace_split:
  "trace step t s (xs @ ys) t' s' \<Longrightarrow> \<exists>t1 s1. trace step t s xs t1 s1 \<and> trace step t1 s1 ys t' s'"
proof (induction xs arbitrary: t s)
  case (Cons x xs)
  then obtain clk e s1 where x: "x = (clk, e)" "t \<le> clk" "step clk e s s1" "trace step clk s1 (xs @ ys) t' s'"
    by (cases x) (auto elim: trace_consE)
  then obtain t2 s2 where "trace step clk s1 xs t2 s2" "trace step t2 s2 ys t' s'" using Cons.IH by blast
  then show ?case using x by (auto intro: trace.intros)
qed (auto intro: trace.intros)

text \<open>The session a poll may submit a post-close cycle for, and whether the market is open for it.\<close>

definition closed_session :: "zone_utc \<Rightarrow> scheduler \<Rightarrow> poll \<Rightarrow> time \<Rightarrow> time option" where
  "closed_session utc s p now =
     latest_completed_session utc (sd_market_code s) (load_schedules (sd_market_code s) (po_schedules p)) (po_exceptions p) now"

definition market_open :: "zone_local \<Rightarrow> scheduler \<Rightarrow> poll \<Rightarrow> time \<Rightarrow> bool" where
  "market_open local s p now \<longleftrightarrow>
     market_session_status local (Some (sd_market_code s)) (load_schedules (sd_market_code s) (po_schedules p)) (po_exceptions p) now = ''OPEN''"

text \<open>What one submission tells of the state it was made in.\<close>

lemma submission_allowed:
  assumes "scheduler_step local utc now (Submitted ph p) s s'" and "paced s0 market post s"
  shows "s' = note_submission ph now s"
    and "ph = MARKET_HOURS \<Longrightarrow> market_open local s0 p now \<and> (\<forall>t. market = Some t \<longrightarrow> sd_hourly_interval s0 \<le> now - t)"
    and "ph = POST_CLOSE \<Longrightarrow> \<exists>c. closed_session utc s0 p now = Some c \<and> c \<le> now \<and> now - c \<le> sd_post_close_window s0 \<and>
      (\<forall>t. post = Some t \<longrightarrow> t < c)"
proof -
  have due: "submission_due local utc s p now = Some ph" and n: "s' = note_submission ph now s"
    using assms(1) by (auto elim: submitE)
  show "s' = note_submission ph now s" by (rule n)
  show "market_open local s0 p now \<and> (\<forall>t. market = Some t \<longrightarrow> sd_hourly_interval s0 \<le> now - t)" if "ph = MARKET_HOURS"
    using due_facts(3)[OF due that] assms(2) by (auto simp: market_open_def market_hours_due_def paced_def)
  show "\<exists>c. closed_session utc s0 p now = Some c \<and> c \<le> now \<and> now - c \<le> sd_post_close_window s0 \<and>
      (\<forall>t. post = Some t \<longrightarrow> t < c)" if ph: "ph = POST_CLOSE"
  proof -
    have s: "sd_market_code s = sd_market_code s0" "sd_post_close_window s = sd_post_close_window s0"
        "\<forall>t. post = Some t \<longrightarrow> (\<exists>l. sd_last_post_close s = Some l \<and> t \<le> l)"
      using assms(2) by (simp_all add: paced_def)
    obtain c where c: "closed_session utc s0 p now = Some c" "c \<le> now" "now - c \<le> sd_post_close_window s0"
        "\<forall>l. sd_last_post_close s = Some l \<longrightarrow> l < c"
      using post_close_facts[OF due_facts(4)[OF due ph]] unfolding closed_session_def s(1,2) by blast
    have "\<forall>t. post = Some t \<longrightarrow> t < c" using s(3) c(4) by fastforce
    then show ?thesis using c(1-3) by blast
  qed
qed

text \<open>C21: Every hourly submission is made while the market is open, and every post-close submission within two hours of
  the close of a completed session. Two hourly submissions are at least an hour apart, however often the loop polls and
  whatever happened before; a restart of the process between them keeps the distance when the job history it reads has a
  job, completed or in flight, updated since the first one. Two post-close submissions between which the process is not
  restarted are made for two different sessions: the second one's closed after the first submission. (After a restart
  the session just submitted for is due again, see below.) The clock of the process does not run backwards.\<close>

theorem submissions_are_paced:
  assumes "trace (scheduler_step local utc) t s (xs @ [(t1, Submitted ph p1)] @ ys @ [(t2, Submitted ph p2)]) t' s'"
    and "\<forall>(clk, e) \<in> set ys. \<forall>jobs. e = Restarted jobs \<longrightarrow> ph = MARKET_HOURS \<and> list_ex (recovers t1) jobs"
  shows "case ph of
      MARKET_HOURS \<Rightarrow> market_open local s p1 t1 \<and> market_open local s p2 t2 \<and> sd_hourly_interval s \<le> t2 - t1
    | POST_CLOSE \<Rightarrow> \<exists>c1 c2. closed_session utc s p1 t1 = Some c1 \<and> c1 \<le> t1 \<and> t1 - c1 \<le> sd_post_close_window s \<and>
        closed_session utc s p2 t2 = Some c2 \<and> t1 < c2 \<and> c2 \<le> t2 \<and> t2 - c2 \<le> sd_post_close_window s"
proof -
  let ?m = "if ph = MARKET_HOURS then Some t1 else None" and ?p = "if ph = POST_CLOSE then Some t1 else None"
  obtain ta sa where a: "trace (scheduler_step local utc) t s xs ta sa"
      "trace (scheduler_step local utc) ta sa ([(t1, Submitted ph p1)] @ ys @ [(t2, Submitted ph p2)]) t' s'"
    using trace_split[OF assms(1)] by blast
  have sa: "paced s None None sa"
    by (rule paced_run[OF a(1)]) (simp_all add: paced_def restart_keeps_None split_beta)
  obtain s1 where s1: "scheduler_step local utc t1 (Submitted ph p1) sa s1"
      "trace (scheduler_step local utc) t1 s1 (ys @ [(t2, Submitted ph p2)]) t' s'"
    using a(2) by (auto elim: trace_consE)
  obtain tb sb where b: "trace (scheduler_step local utc) t1 s1 ys tb sb"
      "trace (scheduler_step local utc) tb sb [(t2, Submitted ph p2)] t' s'"
    using trace_split[OF s1(2)] by blast
  note first = submission_allowed[OF s1(1) sa]
  have "paced s ?m ?p s1" using sa unfolding first(1) by (cases ph) (simp_all add: paced_def note_submission_def)
  moreover have "restart_keeps ?m ?p e" if "(clk, e) \<in> set ys" for clk e
    using assms(2) that by (cases e) auto
  ultimately have sb: "paced s ?m ?p sb" by (intro paced_run[OF b(1)]) auto
  obtain s2 where "scheduler_step local utc t2 (Submitted ph p2) sb s2" using b(2) by (auto elim: trace_consE)
  note second = submission_allowed[OF this sb]
  show ?thesis
  proof (cases ph)
    case MARKET_HOURS
    then show ?thesis using first(2) second(2) by simp
  next
    case POST_CLOSE
    then show ?thesis using first(3) second(3) by auto
  qed
qed

text \<open>A restart forgets the post-close submissions: the one just made is due again.\<close>

lemma restart_repeats_post_close:
  assumes "submission_due local utc s p now = Some POST_CLOSE" and "scheduler_step local utc now (Submitted POST_CLOSE p) s s1"
    and "scheduler_step local utc now (Restarted jobs) s1 s2"
  shows "submission_due local utc s2 p now = Some POST_CLOSE"
proof -
  have s2: "sd_last_post_close s2 = None" "sd_market_code s2 = sd_market_code s" "sd_post_close_window s2 = sd_post_close_window s"
    using assms(2,3) by (auto elim!: submitE restartE simp: recover_last_runs_def note_submission_def)
  let ?sch = "load_schedules (sd_market_code s) (po_schedules p)"
  have d: "\<not> po_paused p" "\<not> po_active p"
      "\<not> (case active_cycle_run (sd_market_code s) (po_store p) of Some (c, r) \<Rightarrow> r_status r \<in> {R_CANCEL_REQUESTED, R_CANCELLED} | None \<Rightarrow> False)"
      "market_session_status local (Some (sd_market_code s)) ?sch (po_exceptions p) now = ''CLOSED''"
      "post_close_due utc s ?sch (po_exceptions p) now"
    using assms(1) by (auto simp: submission_due_def Let_def split: if_splits)
  obtain c where "latest_completed_session utc (sd_market_code s) ?sch (po_exceptions p) now = Some c" "now - c \<le> sd_post_close_window s"
    using post_close_facts[OF d(5)] by blast
  then have "post_close_due utc s2 ?sch (po_exceptions p) now" by (simp add: post_close_due_def Let_def s2)
  then show ?thesis using d(1-4) by (simp add: submission_due_def Let_def s2)
qed

section \<open>Background tasks\<close>

record 'task registry =
  bg_max_tasks :: nat
  bg_tasks :: "'task list"

definition DEFAULT_MAX_TRACKED_TASKS :: nat where "DEFAULT_MAX_TRACKED_TASKS = 32"

definition new_registry :: "nat \<Rightarrow> 'task registry" where
  "new_registry m = \<lparr>bg_max_tasks = m, bg_tasks = []\<rparr>"

definition has_capacity :: "'task registry \<Rightarrow> bool" where
  "has_capacity r \<longleftrightarrow> length (bg_tasks r) < bg_max_tasks r"

definition registry_add :: "'task \<Rightarrow> 'task registry \<Rightarrow> 'task registry" where
  "registry_add t r = r\<lparr>bg_tasks := List.insert t (bg_tasks r)\<rparr>"

definition on_done :: "'task \<Rightarrow> 'task registry \<Rightarrow> 'task registry" where
  "on_done t r = r\<lparr>bg_tasks := removeAll t (bg_tasks r)\<rparr>"

definition registry_reset :: "'task registry \<Rightarrow> 'task registry" where
  "registry_reset r = r\<lparr>bg_tasks := []\<rparr>"

text \<open>
  \<open>drain\<close>: the tasks that finish in time (all of them without a time limit) run their callback; the
  others are reported and stay tracked.
\<close>

definition drain :: "('task \<Rightarrow> bool) option \<Rightarrow> 'task registry \<Rightarrow> 'task list \<times> 'task registry" where
  "drain in_time r =
     (let finished = (case in_time of None \<Rightarrow> bg_tasks r | Some f \<Rightarrow> filter f (bg_tasks r))
      in (filter (\<lambda>t. t \<notin> set finished) (bg_tasks r), foldl (\<lambda>r t. on_done t r) r finished))"

lemma drain_tracks_the_rest:
  "bg_tasks (snd (drain in_time r)) = fst (drain in_time r)"
proof -
  have "bg_tasks (foldl (\<lambda>r t. on_done t r) r ts) = filter (\<lambda>t. t \<notin> set ts) (bg_tasks r)" for ts
  proof (induction ts arbitrary: r)
    case (Cons t ts)
    show ?case unfolding foldl_Cons Cons.IH by (simp add: on_done_def removeAll_filter_not_eq conj_commute cong: filter_cong) metis
  qed simp
  then show ?thesis by (simp add: drain_def Let_def)
qed

section \<open>A concrete day\<close>

definition demo_poll :: poll where
  "demo_poll = \<lparr>po_paused = False, po_active = False, po_store = empty_db, po_schedules = [], po_exceptions = []\<rparr>"

definition plain_local :: zone_local where "plain_local z t = Some (t div day_us, t mod day_us)"
definition plain_utc :: zone_utc where "plain_utc z d tod = Some (d * day_us + tod)"

lemma demo_first: "submission_due plain_local plain_utc new_scheduler demo_poll (4 * day_us + clock_us 10 0) = Some MARKET_HOURS"
  by code_simp

lemma demo_second:
  "submission_due plain_local plain_utc (note_submission MARKET_HOURS (4 * day_us + clock_us 10 0) new_scheduler) demo_poll
     (4 * day_us + clock_us 11 0) = Some MARKET_HOURS"
  by code_simp

lemma demo_day:
  defines "t1 \<equiv> 4 * day_us + clock_us 10 0" and "t2 \<equiv> 4 * day_us + clock_us 11 0"
  shows "trace (scheduler_step plain_local plain_utc) t1 new_scheduler
    ([] @ [(t1, Submitted MARKET_HOURS demo_poll)] @ [(t1, Idle)] @ [(t2, Submitted MARKET_HOURS demo_poll)])
    t2 (note_submission MARKET_HOURS t2 (note_submission MARKET_HOURS t1 new_scheduler))"
proof -
  have "t1 \<le> t2" by (simp add: clock_us_def t1_def t2_def)
  then show ?thesis
    using demo_first demo_second unfolding t1_def[symmetric] t2_def[symmetric]
    by (auto intro!: trace.intros poll_submits poll_idle)
qed

lemma submissions_are_paced_witness:
  "(\<exists>t' s'. trace (scheduler_step plain_local plain_utc) (4 * day_us + clock_us 10 0) new_scheduler
      ([] @ [(4 * day_us + clock_us 10 0, Submitted MARKET_HOURS demo_poll)] @ [(4 * day_us + clock_us 10 0, Idle)] @
       [(4 * day_us + clock_us 11 0, Submitted MARKET_HOURS demo_poll)]) t' s') \<and>
   market_open plain_local new_scheduler demo_poll (4 * day_us + clock_us 10 0) \<and>
   market_open plain_local new_scheduler demo_poll (4 * day_us + clock_us 11 0) \<and>
   HOURLY_INTERVAL \<le> (4 * day_us + clock_us 11 0) - (4 * day_us + clock_us 10 0)"
  using demo_day submissions_are_paced[OF demo_day] by (auto simp: new_scheduler_def)

end
