(* ===== verification/PriceHistory.thy ===== *)
theory PriceHistory
  imports Backfill Sessions
begin

text \<open>
  The price history that features are computed from: validated daily closes of a configured market and the
  ranges still to be fetched (\<open>app/session_history.py\<close>), the normalization of quotes and of exchange
  candles, the quarantine of implausible observations and the choice between both sources
  (\<open>app/technical_features.py\<close>).  A date is its number of days, an instant its microseconds; every instant
  is aware.  \<open>ist\<close> is the date of an instant in Asia/Kolkata and \<open>local\<close>, \<open>utc\<close> are the time-zone database;
  \<open>parse\<close> is \<open>urllib.parse\<close> on the URL of a row.
\<close>

section \<open>Quarantine\<close>

text \<open>A missing value is NaN in the code: every comparison with it is false.\<close>

definition REVERSION_TOLERANCE :: rat where
  "REVERSION_TOLERANCE = fl64 (115 / 100)"

definition implausible :: "rat option \<Rightarrow> rat option \<Rightarrow> rat option \<Rightarrow> bool" where
  "implausible p c f =
     (case (p, c, f) of
        (Some prior, Some current, Some following) \<Rightarrow>
          0 < prior \<and> 0 < current \<and> 0 < following \<and>
          (2 < fl64 (current / prior) \<or> fl64 (current / prior) < 1 / 2) \<and>
          fl64 (1 / REVERSION_TOLERANCE) < fl64 (following / prior) \<and> fl64 (following / prior) < REVERSION_TOLERANCE
      | _ \<Rightarrow> False)"

definition quarantine_implausible_indices :: "rat option list \<Rightarrow> nat list" where
  "quarantine_implausible_indices values =
     filter (\<lambda>i. implausible (values ! (i - 1)) (values ! i) (values ! (i + 1))) [1..<length values - 1]"

definition keep_indices :: "nat list \<Rightarrow> 'a list \<Rightarrow> 'a list" where
  "keep_indices dropped xs = map snd (filter (\<lambda>(i, _). i \<notin> set dropped) (enumerate 0 xs))"

definition float_of :: "rat \<Rightarrow> rat option" where
  "float_of x = Some (fl64 x)"

section \<open>Rows of one day\<close>

record 'a price_history =
  ph_observations :: "'a list"
  ph_conflicting_dates :: "int list"
  ph_current_conflict :: bool
  ph_rejected :: nat
  ph_duplicates :: nat
  ph_currency :: "string option"
  ph_quarantined_dates :: "int list"
  ph_session_dates :: "int list"
  ph_missing_dates :: "int list"
  ph_valid_until :: "time option"

text \<open>\<open>sorted(grouped)\<close> and \<open>grouped[day]\<close> of rows grouped by \<open>key\<close>.\<close>

definition days_of :: "('a \<Rightarrow> int) \<Rightarrow> 'a list \<Rightarrow> int list" where
  "days_of key rows = sorted_set (map key rows)"

definition day_group :: "('a \<Rightarrow> int) \<Rightarrow> 'a list \<Rightarrow> int \<Rightarrow> 'a list" where
  "day_group key rows day = filter (\<lambda>r. key r = day) rows"

definition day_duplicates :: "('a \<Rightarrow> int) \<Rightarrow> 'a list \<Rightarrow> nat" where
  "day_duplicates key rows = sum_list (map (\<lambda>day. length (day_group key rows day) - 1) (days_of key rows))"

text \<open>The representatives and the conflicting days of a rule \<open>sel\<close> for the rows of a day.\<close>

definition chosen_rows :: "('a \<Rightarrow> int) \<Rightarrow> ('a list \<Rightarrow> 'a option) \<Rightarrow> 'a list \<Rightarrow> 'a list" where
  "chosen_rows key sel rows = List.map_filter (\<lambda>day. sel (day_group key rows day)) (days_of key rows)"

definition conflict_days :: "('a \<Rightarrow> int) \<Rightarrow> ('a list \<Rightarrow> 'a option) \<Rightarrow> 'a list \<Rightarrow> int list" where
  "conflict_days key sel rows = filter (\<lambda>day. sel (day_group key rows day) = None) (days_of key rows)"

definition latest_conflict :: "('a \<Rightarrow> int) \<Rightarrow> ('a list \<Rightarrow> 'a option) \<Rightarrow> 'a list \<Rightarrow> bool" where
  "latest_conflict key sel rows =
     (conflict_days key sel rows \<noteq> [] \<and> last (days_of key rows) \<in> set (conflict_days key sel rows))"

definition same :: "'a list \<Rightarrow> bool" where
  "same xs = (length (remdups xs) = 1)"

definition newest_rows :: "('a \<Rightarrow> time) \<Rightarrow> 'a list \<Rightarrow> 'a list" where
  "newest_rows stamp rows = filter (\<lambda>r. stamp r = Max (set (map stamp rows))) rows"

definition first_currency :: "string option \<Rightarrow> string option list \<Rightarrow> string option" where
  "first_currency currency currencies =
     (if or_text currency \<noteq> [] then currency else case currencies of [] \<Rightarrow> None | c # _ \<Rightarrow> c)"

section \<open>Validated daily closes\<close>

record url =
  url_scheme :: string
  url_host :: "string option"
  url_parts :: "string list"
  url_flags :: "(string \<times> string list) list"
  url_path_has_history :: bool

definition history_symbol :: "(string \<Rightarrow> url) \<Rightarrow> price_observation \<Rightarrow> string option" where
  "history_symbol parse row =
     (let u = parse (po_url row)
      in if po_provider row \<notin> {''YAHOO_FINANCE'', ''YAHOO_FINANCE_MCP''} \<or> url_scheme u \<noteq> ''https'' \<or>
           url_host u \<noteq> Some ''finance.yahoo.com'' \<or> length (url_parts u) \<noteq> 3 \<or>
           url_parts u ! 0 \<noteq> ''quote'' \<or> url_parts u ! 2 \<noteq> ''history'' then None
         else if list_ex (\<lambda>key. case map_of (url_flags u) key of None \<Rightarrow> False
             | Some vs \<Rightarrow> list_ex (\<lambda>v. lower v \<notin> {''false'', ''0'', ''unadjusted''}) vs)
             [''auto_adjust'', ''adjusted'', ''adjustment''] then None
         else if (case map_of (url_flags u) ''interval'' of None \<Rightarrow> False | Some vs \<Rightarrow> vs \<noteq> [''1d'']) then None
         else Some (upper (url_parts u ! 1)))"

definition is_daily_history :: "(string \<Rightarrow> url) \<Rightarrow> price_observation \<Rightarrow> bool" where
  "is_daily_history parse row = url_path_has_history (parse (po_url row))"

definition ends_with :: "string \<Rightarrow> string \<Rightarrow> bool" where
  "ends_with s suffix = (length suffix \<le> length s \<and> drop (length s - length suffix) s = suffix)"

text \<open>The exchange day of a row: rows stamped at UTC midnight carry the date itself.\<close>

definition row_day :: "zone_local \<Rightarrow> string \<Rightarrow> price_observation \<Rightarrow> int" where
  "row_day local zone row =
     (if po_observed_at row mod day_us = 0 then utc_date (po_observed_at row)
      else case local zone (po_observed_at row) of None \<Rightarrow> utc_date (po_observed_at row) | Some (d, _) \<Rightarrow> d)"

definition date_label :: "zone_local \<Rightarrow> string \<Rightarrow> price_observation \<Rightarrow> bool" where
  "date_label local zone row =
     (po_observed_at row mod day_us = 0 \<or>
      (case local zone (po_observed_at row) of None \<Rightarrow> False | Some (_, tod) \<Rightarrow> tod = 0))"

record close_request =
  cr_instrument :: string
  cr_as_of :: time
  cr_currency :: "string option"
  cr_trusted :: "string list option"
  cr_market :: "string option"
  cr_schedules :: "schedule list"
  cr_exceptions :: "calendar_exception list"
  cr_symbol :: "string option"

definition trusted_row :: "close_request \<Rightarrow> string \<Rightarrow> bool" where
  "trusted_row q p = (case cr_trusted q of None \<Rightarrow> True | Some ps \<Rightarrow> p \<in> set ps)"

definition close_eligible ::
    "(string \<Rightarrow> url) \<Rightarrow> zone_local \<Rightarrow> zone_utc \<Rightarrow> close_request \<Rightarrow> string \<Rightarrow> string \<Rightarrow> price_observation \<Rightarrow> bool" where
  "close_eligible parse local utc q market zone row =
     (po_instrument row = cr_instrument q \<and> or_text (history_symbol parse row) \<noteq> [] \<and>
      or_text (cr_currency q) \<noteq> [] \<and> po_currency row = cr_currency q \<and> trusted_row q (po_provider row) \<and>
      (or_text (cr_symbol q) = [] \<or> or_text (history_symbol parse row) = upper (or_text (cr_symbol q))) \<and>
      (upper market \<in> {''NSE'', ''XNSE''} \<longrightarrow> ends_with (or_text (history_symbol parse row)) ''.NS'') \<and>
      po_provider row \<in> {''YAHOO_FINANCE'', ''NSE'', ''YAHOO_FINANCE_MCP''} \<and>
      po_observed_at row \<le> cr_as_of q \<and> po_retrieved_at row \<le> cr_as_of q \<and> 0 < po_price row \<and>
      (case session_bounds utc market (cr_schedules q) (cr_exceptions q) (row_day local zone row) of
         None \<Rightarrow> False
       | Some (_, close) \<Rightarrow> close \<le> cr_as_of q \<and> close \<le> po_retrieved_at row \<and>
           (date_label local zone row \<or> \<bar>total_seconds (po_observed_at row - close)\<bar> \<le> 60)))"

text \<open>A newer retrieval revises the same provider's candle; different providers must agree.\<close>

definition current_closes :: "price_observation list \<Rightarrow> price_observation list" where
  "current_closes rows =
     concat (map (\<lambda>p. newest_rows po_retrieved_at (filter (\<lambda>r. po_provider r = p) rows))
       (dedup_keep_first (map po_provider rows)))"

definition choose_close :: "price_observation list \<Rightarrow> price_observation option" where
  "choose_close rows =
     (let current = current_closes rows
      in if same (map po_price current) then Some (py_min (\<lambda>r. (po_provider r, po_url r)) current) else None)"

definition empty_history :: "nat \<Rightarrow> 'a price_history" where
  "empty_history rejected = \<lparr>ph_observations = [], ph_conflicting_dates = [], ph_current_conflict = False,
     ph_rejected = rejected, ph_duplicates = 0, ph_currency = None, ph_quarantined_dates = [],
     ph_session_dates = [], ph_missing_dates = [], ph_valid_until = None\<rparr>"

definition session_close :: "zone_utc \<Rightarrow> close_request \<Rightarrow> string \<Rightarrow> int \<Rightarrow> time" where
  "session_close utc q market day = snd (the (session_bounds utc market (cr_schedules q) (cr_exceptions q) day))"

definition validate_daily_closes ::
    "(string \<Rightarrow> url) \<Rightarrow> zone_local \<Rightarrow> zone_utc \<Rightarrow> close_request \<Rightarrow> string \<Rightarrow> price_observation list \<Rightarrow>
     price_observation price_history" where
  "validate_daily_closes parse local utc q market rows =
     (case filter (matches_market (upper market)) (cr_schedules q) of
        [] \<Rightarrow> empty_history (length rows)
      | first # _ \<Rightarrow>
          let zone = sc_timezone first
          in if local zone (cr_as_of q) = None then empty_history (length rows)
             else
               let key = row_day local zone;
                   ok = filter (close_eligible parse local utc q market zone) rows;
                   days = days_of key ok;
                   dates = filter (\<lambda>day. choose_close (day_group key ok day) \<noteq> None) days;
                   output = map (\<lambda>day. (the (choose_close (day_group key ok day)))
                     \<lparr>po_observed_at := session_close utc q market day\<rparr>) dates;
                   expected = (if days = [] then []
                     else map fst (completed_sessions utc market (cr_schedules q) (cr_exceptions q) (hd days) (last days) (cr_as_of q)));
                   unresolved = (if days = [] then []
                     else unresolved_session_dates local market (cr_schedules q) (cr_exceptions q) (hd days) (cr_as_of q))
               in \<lparr>ph_observations = output,
                   ph_conflicting_dates = conflict_days key choose_close ok,
                   ph_current_conflict = latest_conflict key choose_close ok,
                   ph_rejected = length rows - length ok,
                   ph_duplicates = day_duplicates key ok,
                   ph_currency = None, ph_quarantined_dates = [],
                   ph_session_dates = dates,
                   ph_missing_dates = sorted_set (filter (\<lambda>d. d \<notin> set dates) expected @ unresolved),
                   ph_valid_until = (if output = [] then None
                     else next_session_close utc market (cr_schedules q) (cr_exceptions q) (po_observed_at (last output)))\<rparr>)"

section \<open>Normalized quotes\<close>

definition price_ok :: "close_request \<Rightarrow> price_observation \<Rightarrow> bool" where
  "price_ok q row =
     (po_instrument row = cr_instrument q \<and> po_observed_at row \<le> cr_as_of q \<and> po_retrieved_at row \<le> cr_as_of q \<and>
      0 < po_price row \<and> trusted_row q (po_provider row) \<and> (cr_currency q = None \<or> po_currency row = cr_currency q))"

text \<open>No provider is more authoritative: only ties of one price are broken by provenance.\<close>

definition choose_price :: "price_observation list \<Rightarrow> price_observation option" where
  "choose_price rows =
     (let current = newest_rows po_observed_at rows
      in if same (map po_price current) then Some (py_min (\<lambda>r. (po_provider r, po_url r, po_retrieved_at r)) current) else None)"

definition price_day :: "price_observation \<Rightarrow> int" where
  "price_day row = utc_date (po_observed_at row)"

definition normalize_quotes :: "close_request \<Rightarrow> price_observation list \<Rightarrow> price_observation price_history" where
  "normalize_quotes q rows =
     (let ok = filter (price_ok q) rows;
          rejected = length rows - length ok;
          currencies = remdups (map po_currency ok);
          output = chosen_rows price_day choose_price ok;
          dropped = quarantine_implausible_indices (map (float_of \<circ> po_price) output)
      in if 1 < length currencies then
           (empty_history rejected)\<lparr>ph_conflicting_dates := days_of price_day ok, ph_current_conflict := True,
              ph_currency := cr_currency q\<rparr>
         else
           \<lparr>ph_observations = keep_indices dropped output,
            ph_conflicting_dates = conflict_days price_day choose_price ok,
            ph_current_conflict = latest_conflict price_day choose_price ok,
            ph_rejected = rejected,
            ph_duplicates = day_duplicates price_day ok,
            ph_currency = first_currency (cr_currency q) currencies,
            ph_quarantined_dates = sort (map (\<lambda>i. price_day (output ! i)) dropped),
            ph_session_dates = [], ph_missing_dates = [], ph_valid_until = None\<rparr>)"

definition normalize_price_history ::
    "(string \<Rightarrow> url) \<Rightarrow> zone_local \<Rightarrow> zone_utc \<Rightarrow> close_request \<Rightarrow> price_observation list \<Rightarrow> price_observation price_history" where
  "normalize_price_history parse local utc q rows =
     (case cr_market q of
        None \<Rightarrow> normalize_quotes q rows
      | Some market \<Rightarrow>
          let s = validate_daily_closes parse local utc q market rows;
              dropped = quarantine_implausible_indices (map (float_of \<circ> po_price) (ph_observations s));
              dropped_dates = map (\<lambda>i. ph_session_dates s ! i) dropped
          in s\<lparr>ph_observations := keep_indices dropped (ph_observations s),
               ph_currency := cr_currency q,
               ph_quarantined_dates := dropped_dates,
               ph_session_dates := keep_indices dropped (ph_session_dates s),
               ph_missing_dates := sorted_set (ph_missing_dates s @ dropped_dates)\<rparr>)"

section \<open>Normalized candles\<close>

definition bar_ok :: "(time \<Rightarrow> int) \<Rightarrow> close_request \<Rightarrow> daily_bar \<Rightarrow> bool" where
  "bar_ok ist q bar =
     (db_instrument bar = cr_instrument q \<and> db_provider bar = ''NSE'' \<and> db_mode bar = ''REAL'' \<and>
      trusted_row q (db_provider bar) \<and> (cr_currency q = None \<or> Some (db_currency bar) = cr_currency q) \<and>
      db_retrieved bar \<le> cr_as_of q \<and> db_date bar \<le> ist (cr_as_of q))"

definition bar_values where
  "bar_values bar = (db_open bar, db_high bar, db_low bar, db_close bar, db_previous_close bar, db_volume bar, db_turnover bar)"

definition choose_bar :: "daily_bar list \<Rightarrow> daily_bar option" where
  "choose_bar bars =
     (let current = newest_rows db_retrieved bars
      in if same (map bar_values current) \<and> (case db_close (hd current) of None \<Rightarrow> False | Some c \<Rightarrow> 0 < c)
         then Some (py_min (\<lambda>b. (or_text (db_symbol b), db_source_url b)) current) else None)"

text \<open>A bar is quarantined whole when its close, high or low is implausible among its neighbours.\<close>

definition implausible_bars :: "daily_bar list \<Rightarrow> nat list" where
  "implausible_bars bars =
     sorted_set (concat (map (\<lambda>field. quarantine_implausible_indices (map (\<lambda>b. map_option fl64 (field b)) bars))
       [db_close, db_high, db_low]))"

definition normalize_daily_history ::
    "(time \<Rightarrow> int) \<Rightarrow> close_request \<Rightarrow> daily_bar list \<Rightarrow> daily_bar price_history \<times> bool" where
  "normalize_daily_history ist q bars =
     (let ok = filter (bar_ok ist q) bars;
          rejected = length bars - length ok;
          currencies = remdups (map db_currency ok);
          output = chosen_rows db_date choose_bar ok;
          dropped = implausible_bars output
      in (if 1 < length currencies then
            (empty_history rejected)\<lparr>ph_conflicting_dates := days_of db_date ok, ph_current_conflict := True,
               ph_currency := cr_currency q\<rparr>
          else
            \<lparr>ph_observations = keep_indices dropped output,
             ph_conflicting_dates = conflict_days db_date choose_bar ok,
             ph_current_conflict = latest_conflict db_date choose_bar ok,
             ph_rejected = rejected,
             ph_duplicates = day_duplicates db_date ok,
             ph_currency = first_currency (cr_currency q) (map Some currencies),
             ph_quarantined_dates = sort (map (\<lambda>i. db_date (output ! i)) dropped),
             ph_session_dates = [], ph_missing_dates = [], ph_valid_until = None\<rparr>,
          ok \<noteq> []))"

section \<open>The choice of a source\<close>

definition bar_symbol :: "close_request \<Rightarrow> string option" where
  "bar_symbol q =
     (if or_text (cr_symbol q) \<noteq> [] \<and> ends_with (or_text (cr_symbol q)) ''.NS''
      then Some (take (length (or_text (cr_symbol q)) - 3) (or_text (cr_symbol q))) else cr_symbol q)"

definition bar_eligible :: "zone_utc \<Rightarrow> close_request \<Rightarrow> string \<Rightarrow> daily_bar \<Rightarrow> bool" where
  "bar_eligible utc q market bar =
     (case session_bounds utc market (cr_schedules q) (cr_exceptions q) (db_date bar) of
        None \<Rightarrow> False
      | Some (_, close) \<Rightarrow> close \<le> cr_as_of q \<and> close \<le> db_retrieved bar \<and> db_retrieved bar \<le> cr_as_of q \<and>
          (or_text (bar_symbol q) = [] \<or> db_symbol bar = bar_symbol q))"

definition with_sessions ::
    "zone_local \<Rightarrow> zone_utc \<Rightarrow> close_request \<Rightarrow> string \<Rightarrow> daily_bar price_history \<Rightarrow> daily_bar price_history" where
  "with_sessions local utc q market h =
     (if ph_observations h = [] then h
      else
        let dates = map db_date (ph_observations h);
            expected = map fst (completed_sessions utc market (cr_schedules q) (cr_exceptions q) (hd dates) (last dates) (cr_as_of q));
            unresolved = unresolved_session_dates local market (cr_schedules q) (cr_exceptions q) (hd dates) (cr_as_of q)
        in h\<lparr>ph_session_dates := dates,
             ph_missing_dates := sorted_set (filter (\<lambda>d. d \<notin> set dates) expected @ unresolved),
             ph_valid_until := next_session_close utc market (cr_schedules q) (cr_exceptions q)
               (session_close utc q market (last dates))\<rparr>)"

datatype history = Daily "daily_bar price_history" | Closes "price_observation price_history"

definition past_validity :: "time option \<Rightarrow> time \<Rightarrow> bool" where
  "past_validity valid_until as_of = (case valid_until of None \<Rightarrow> True | Some v \<Rightarrow> v < as_of)"

definition daily_stale :: "(time \<Rightarrow> int) \<Rightarrow> int \<Rightarrow> close_request \<Rightarrow> daily_bar price_history \<Rightarrow> bool" where
  "daily_stale ist max_age_days q h =
     (if or_text (cr_market q) \<noteq> [] then past_validity (ph_valid_until h) (cr_as_of q)
      else ph_observations h \<noteq> [] \<and> max_age_days < ist (cr_as_of q) - db_date (last (ph_observations h)))"

definition closes_fresh :: "int \<Rightarrow> close_request \<Rightarrow> price_observation price_history \<Rightarrow> bool" where
  "closes_fresh max_age_days q h =
     (if or_text (cr_market q) \<noteq> [] then \<not> past_validity (ph_valid_until h) (cr_as_of q)
      else ph_observations h \<noteq> [] \<and> cr_as_of q - po_observed_at (last (ph_observations h)) \<le> max_age_days * day_us)"

definition daily_history ::
    "(time \<Rightarrow> int) \<Rightarrow> zone_local \<Rightarrow> zone_utc \<Rightarrow> close_request \<Rightarrow> daily_bar list \<Rightarrow> daily_bar price_history \<times> bool" where
  "daily_history ist local utc q bars =
     (if or_text (cr_market q) \<noteq> [] then
        let (h, some) = normalize_daily_history ist q (filter (bar_eligible utc q (or_text (cr_market q))) bars)
        in (with_sessions local utc q (or_text (cr_market q)) h, some)
      else normalize_daily_history ist q bars)"

definition prefer_closes ::
    "(time \<Rightarrow> int) \<Rightarrow> int \<Rightarrow> close_request \<Rightarrow> daily_bar price_history \<Rightarrow> price_observation price_history \<Rightarrow> bool" where
  "prefer_closes ist max_age_days q daily fallback =
     (\<not> ph_current_conflict daily \<and>
      (length (ph_observations daily) < 20 \<or> daily_stale ist max_age_days q daily \<or> ph_missing_dates daily \<noteq> []) \<and>
      20 \<le> length (ph_observations fallback) \<and> \<not> ph_current_conflict fallback \<and> closes_fresh max_age_days q fallback \<and>
      (ph_missing_dates fallback = [] \<or> length (ph_observations daily) < 20))"

definition select_price_history ::
    "(string \<Rightarrow> url) \<Rightarrow> (time \<Rightarrow> int) \<Rightarrow> zone_local \<Rightarrow> zone_utc \<Rightarrow> int \<Rightarrow> close_request \<Rightarrow> price_observation list \<Rightarrow>
     daily_bar list \<Rightarrow> history \<times> daily_bar price_history \<times> bool \<times> string option" where
  "select_price_history parse ist local utc max_age_days q rows bars =
     (let (daily, some_daily) = daily_history ist local utc q bars;
          fallback = normalize_price_history parse local utc q rows
      in if some_daily \<and> \<not> prefer_closes ist max_age_days q daily fallback then (Daily daily, daily, True, None)
         else (Closes fallback, daily, False,
           if \<not> some_daily then None
           else Some (if daily_stale ist max_age_days q daily then ''NSE_DAILY_HISTORY_STALE''
             else if ph_missing_dates daily \<noteq> [] then ''NSE_DAILY_HISTORY_INCOMPLETE'' else ''NSE_DAILY_HISTORY_BELOW_20'')))"

section \<open>Ranges to fetch\<close>

fun gap_loop :: "int list \<Rightarrow> int list \<Rightarrow> (int \<times> int) option \<Rightarrow> (int \<times> int) list" where
  "gap_loop present [] None = []"
| "gap_loop present [] (Some (a, b)) = [(a, b + 1)]"
| "gap_loop present (d # ds) cur =
     (if d \<in> set present
      then (case cur of None \<Rightarrow> [] | Some (a, b) \<Rightarrow> [(a, b + 1)]) @ gap_loop present ds None
      else gap_loop present ds (Some (case cur of None \<Rightarrow> (d, d) | Some (a, _) \<Rightarrow> (a, d))))"

definition missing_history_ranges ::
    "zone_utc \<Rightarrow> string \<Rightarrow> schedule list \<Rightarrow> calendar_exception list \<Rightarrow> int list \<Rightarrow> int \<Rightarrow> time \<Rightarrow> int option \<Rightarrow> (int \<times> int) list" where
  "missing_history_ranges utc market schedules exceptions existing start as_of listing =
     gap_loop existing (map fst (completed_sessions utc market schedules exceptions
       (case listing of None \<Rightarrow> start | Some l \<Rightarrow> max start l) (utc_date as_of) as_of)) None"

section \<open>Quarantined observations\<close>

lemma quarantine_iff:
  "i \<in> set (quarantine_implausible_indices vs) \<longleftrightarrow>
     1 \<le> i \<and> i + 1 < length vs \<and> implausible (vs ! (i - 1)) (vs ! i) (vs ! (i + 1))"
  by (auto simp: quarantine_implausible_indices_def)

lemma sorted_quarantine: "sorted (quarantine_implausible_indices vs)"
  unfolding quarantine_implausible_indices_def by (rule sorted_wrt_filter) simp

lemma tolerance_bounds: "1 < REVERSION_TOLERANCE" "REVERSION_TOLERANCE < 2" "1 / 2 \<le> fl64 (1 / REVERSION_TOLERANCE)"
  by code_simp+

text \<open>A level that holds on the next day is not quarantined, however large the move to it.\<close>

lemma persisting_level_is_kept:
  assumes "vs ! (i + 1) = vs ! i"
  shows "i \<notin> set (quarantine_implausible_indices vs)"
  using assms tolerance_bounds
  by (auto simp: quarantine_iff implausible_def split: option.splits)

text \<open>The prices between two bad ticks are as implausible as the ticks.\<close>

lemma alternating_ticks_lose_the_good_price:
  "quarantine_implausible_indices (map float_of [100, 300, 101, 300, 100]) = [1, 2, 3]"
  by code_simp

section \<open>Only what is known\<close>

text \<open>
  An observation is known when it was observed and retrieved, a candle when its day has come and it was
  retrieved.  Unknown rows are counted as rejected and have no other effect.
\<close>

definition known_price :: "close_request \<Rightarrow> price_observation \<Rightarrow> bool" where
  "known_price q r = (po_observed_at r \<le> cr_as_of q \<and> po_retrieved_at r \<le> cr_as_of q)"

definition known_bar :: "(time \<Rightarrow> int) \<Rightarrow> close_request \<Rightarrow> daily_bar \<Rightarrow> bool" where
  "known_bar ist q b = (db_retrieved b \<le> cr_as_of q \<and> db_date b \<le> ist (cr_as_of q))"

definition uncounted :: "'a price_history \<Rightarrow> 'a price_history" where
  "uncounted h = h\<lparr>ph_rejected := 0\<rparr>"

lemma filter_implied: "(\<And>x. P x \<Longrightarrow> Q x) \<Longrightarrow> filter P (filter Q xs) = filter P xs"
  by (induction xs) auto

lemma price_ok_known: "filter (price_ok q) (filter (known_price q) rows) = filter (price_ok q) rows"
  by (rule filter_implied) (simp add: price_ok_def known_price_def)

lemma close_eligible_known:
  "filter (close_eligible parse local utc q m z) (filter (known_price q) rows) = filter (close_eligible parse local utc q m z) rows"
  by (rule filter_implied) (simp add: close_eligible_def known_price_def)

lemma bar_ok_known: "filter (bar_ok ist q) (filter (known_bar ist q) bars) = filter (bar_ok ist q) bars"
  by (rule filter_implied) (simp add: bar_ok_def known_bar_def)

lemma normalize_quotes_known:
  "uncounted (normalize_quotes q (filter (known_price q) rows)) = uncounted (normalize_quotes q rows)"
  unfolding normalize_quotes_def Let_def price_ok_known by (simp add: uncounted_def empty_history_def)

lemma validate_known:
  "uncounted (validate_daily_closes parse local utc q m (filter (known_price q) rows)) =
   uncounted (validate_daily_closes parse local utc q m rows)"
  unfolding validate_daily_closes_def Let_def close_eligible_known
  by (simp add: uncounted_def empty_history_def split: list.split)

lemma uncounted_eqD:
  assumes "uncounted g = uncounted h"
  shows "ph_observations g = ph_observations h" "ph_conflicting_dates g = ph_conflicting_dates h"
    "ph_current_conflict g = ph_current_conflict h" "ph_duplicates g = ph_duplicates h" "ph_currency g = ph_currency h"
    "ph_quarantined_dates g = ph_quarantined_dates h" "ph_session_dates g = ph_session_dates h"
    "ph_missing_dates g = ph_missing_dates h" "ph_valid_until g = ph_valid_until h"
  using assms by (cases g; cases h; simp add: uncounted_def)+

lemma normalize_price_history_known:
  "uncounted (normalize_price_history parse local utc q (filter (known_price q) rows)) =
   uncounted (normalize_price_history parse local utc q rows)"
proof (cases "cr_market q")
  case None
  then show ?thesis by (simp add: normalize_price_history_def normalize_quotes_known)
next
  case (Some m)
  note eq = uncounted_eqD[OF validate_known[of parse local utc q m rows]]
  show ?thesis by (simp add: normalize_price_history_def Some Let_def eq uncounted_def)
qed

lemma normalize_daily_known:
  "map_prod uncounted id (normalize_daily_history ist q (filter (known_bar ist q) bars)) =
   map_prod uncounted id (normalize_daily_history ist q bars)"
  unfolding normalize_daily_history_def Let_def bar_ok_known by (simp add: uncounted_def empty_history_def)

lemma with_sessions_uncounted:
  "uncounted g = uncounted h \<Longrightarrow> uncounted (with_sessions local utc q m g) = uncounted (with_sessions local utc q m h)"
  using uncounted_eqD[of g h] by (cases g; cases h; simp add: uncounted_def with_sessions_def Let_def)

lemma daily_history_known:
  "map_prod uncounted id (daily_history ist local utc q (filter (known_bar ist q) bars)) =
   map_prod uncounted id (daily_history ist local utc q bars)"
proof (cases "or_text (cr_market q) = []")
  case True
  then show ?thesis by (simp add: daily_history_def normalize_daily_known)
next
  case False
  let ?e = "filter (bar_eligible utc q (or_text (cr_market q)))"
  have "?e (filter (known_bar ist q) bars) = filter (known_bar ist q) (?e bars)" by (simp add: conj_commute)
  then show ?thesis
    using normalize_daily_known[of ist q "?e bars"] False
    by (auto simp: daily_history_def split_def map_prod_def intro: with_sessions_uncounted)
qed

lemma prefer_closes_uncounted:
  assumes "uncounted d = uncounted d'" "uncounted f = uncounted f'"
  shows "prefer_closes ist n q d f = prefer_closes ist n q d' f'"
  using uncounted_eqD[OF assms(1)] uncounted_eqD[OF assms(2)]
  by (simp add: prefer_closes_def daily_stale_def closes_fresh_def)

fun uncounted_history :: "history \<Rightarrow> history" where
  "uncounted_history (Daily h) = Daily (uncounted h)"
| "uncounted_history (Closes h) = Closes (uncounted h)"

definition uncounted_selection where
  "uncounted_selection s = (case s of (h, d, u, r) \<Rightarrow> (uncounted_history h, uncounted d, u, r))"

lemma select_known:
  "uncounted_selection (select_price_history parse ist local utc n q (filter (known_price q) rows) (filter (known_bar ist q) bars)) =
   uncounted_selection (select_price_history parse ist local utc n q rows bars)"
proof -
  obtain d s where d: "daily_history ist local utc q bars = (d, s)" by fastforce
  obtain d' s' where d': "daily_history ist local utc q (filter (known_bar ist q) bars) = (d', s')" by fastforce
  have e: "uncounted d' = uncounted d" "s' = s" using daily_history_known[of ist local utc q bars] d d' by simp_all
  note f = normalize_price_history_known[of parse local utc q rows]
  have "prefer_closes ist n q d' (normalize_price_history parse local utc q (filter (known_price q) rows)) =
      prefer_closes ist n q d (normalize_price_history parse local utc q rows)"
    using prefer_closes_uncounted[OF e(1) f] .
  then show ?thesis
    using e f uncounted_eqD[OF e(1)]
    by (simp add: select_price_history_def d d' uncounted_selection_def daily_stale_def)
qed

section \<open>Ranges to fetch\<close>

definition covers :: "(int \<times> int) list \<Rightarrow> int \<Rightarrow> bool" where
  "covers rs d = (\<exists>(a, b) \<in> set rs. a \<le> d \<and> d < b)"

lemma covers_simps [simp]: "covers [] d = False" "covers ((a, b) # rs) d = ((a \<le> d \<and> d < b) \<or> covers rs d)"
  "covers (rs @ ts) d = (covers rs d \<or> covers ts d)"
  by (auto simp: covers_def)

lemma gap_loop_lower:
  "covers (gap_loop present ds cur) x \<Longrightarrow> (\<exists>a b. cur = Some (a, b) \<and> a \<le> x) \<or> (\<exists>d \<in> set ds. d \<le> x)"
  by (induction present ds cur rule: gap_loop.induct) (fastforce split: option.splits if_splits)+

lemma gap_loop_open:
  "a \<le> x \<Longrightarrow> x \<le> b \<Longrightarrow> sorted_wrt (<) ds \<Longrightarrow> \<forall>d \<in> set ds. b < d \<Longrightarrow> covers (gap_loop present ds (Some (a, b))) x"
  by (induction ds arbitrary: b) auto

text \<open>Every session that is not present is covered, and no present session is.\<close>

lemma gap_loop_covers:
  assumes "sorted_wrt (<) ds" and "case cur of None \<Rightarrow> True | Some (a, b) \<Rightarrow> a \<le> b \<and> (\<forall>d \<in> set ds. b < d)" and "x \<in> set ds"
  shows "covers (gap_loop present ds cur) x \<longleftrightarrow> x \<notin> set present"
  using assms
proof (induction present ds cur rule: gap_loop.induct)
  case (3 present e ds cur)
  have later: "\<forall>d \<in> set ds. e < d" and ds: "sorted_wrt (<) ds" using "3.prems"(1) by simp_all
  have cl: "\<not> covers (case cur of None \<Rightarrow> [] | Some (a, b) \<Rightarrow> [(a, b + 1)]) x"
    using "3.prems"(2,3) by (auto split: option.splits)
  show ?case
  proof (cases "e \<in> set present")
    case True
    have "\<not> covers (gap_loop present ds None) e" using gap_loop_lower[of present ds None e] later by fastforce
    then show ?thesis using True cl "3.IH"(1)[OF True ds] "3.prems"(3) by auto
  next
    case False
    obtain a where a: "(case cur of None \<Rightarrow> (e, e) | Some (a, _) \<Rightarrow> (a, e)) = (a, e)" "a \<le> e"
      using "3.prems"(2) by (cases cur) auto
    have "covers (gap_loop present ds (Some (a, e))) e" using gap_loop_open[OF a(2) order_refl ds later] .
    then show ?thesis using False a later "3.IH"(2)[OF False ds] "3.prems"(3) by auto
  qed
qed auto

text \<open>C36: The ranges to fetch are the gaps of the stored history: a completed session from the start (or the listing)
  to the day of the request is covered by a range exactly when no stored date is that day.\<close>

theorem fetched_ranges_are_the_gaps:
  assumes "session_bounds utc market schedules exceptions d = Some (o1, c1)" and "c1 \<le> as_of"
    and "start \<le> d" and "\<forall>l. listing = Some l \<longrightarrow> l \<le> d" and "d \<le> utc_date as_of"
  shows "covers (missing_history_ranges utc market schedules exceptions stored start as_of listing) d \<longleftrightarrow> d \<notin> set stored"
proof -
  let ?start = "case listing of None \<Rightarrow> start | Some l \<Rightarrow> max start l"
  let ?ss = "completed_sessions utc market schedules exceptions ?start (utc_date as_of) as_of"
  have "(d, c1) \<in> set ?ss" using assms completed_sessions_listed by (auto split: option.split)
  then have d: "d \<in> set (map fst ?ss)" by force
  have "sorted_wrt (<) (map fst ?ss)" using completed_sessions_listed by (simp add: sorted_wrt_map)
  from gap_loop_covers[OF this _ d, of None] show ?thesis by (simp add: missing_history_ranges_def)
qed

theorem fetched_ranges_are_the_gaps_witness:
  "covers (missing_history_ranges demo_utc ''nse'' demo_schedules [] [0] 0 (2 * 86400000000) None) 1 \<longleftrightarrow> (1 :: int) \<notin> set [0]"
proof -
  have b: "session_bounds demo_utc ''nse'' demo_schedules [] 1 = Some (86400000000 + 13500000000, 86400000000 + 36000000000)"
    by code_simp
  show ?thesis
    by (rule fetched_ranges_are_the_gaps[OF b]) (simp_all add: utc_date_def day_us_def)
qed

end
