(* ===== verification/StockAreas.thy ===== *)
theory StockAreas
  imports StockData
begin

text \<open>
  The rules of \<open>STOCK_RULE_ENGINE_V1\<close> (\<open>app/stock_rule_engine.py\<close>) that score financial and market data:
  valuation, business quality, growth, balance sheet, quarterly trend, price and shareholding.  Each
  rule gives the weighted metrics of its area and what it reports as missing; \<open>finish\<close> turns them into the
  area's result.
\<close>

section \<open>Curves\<close>

text \<open>\<open>_piecewise\<close>: Decimal interpolation between the points of a table, rounded to a score.\<close>

fun dec_interpolate :: "rat \<Rightarrow> (rat \<times> rat) list \<Rightarrow> rat" where
  "dec_interpolate v ((x0, y0) # (x1, y1) # ps) =
     (if x0 \<le> v \<and> v \<le> x1
      then round_score (dec28 (y0 + dec28 (dec28 (dec28 (v - x0) / dec28 (x1 - x0)) * dec28 (y1 - y0))))
      else dec_interpolate v ((x1, y1) # ps))"
| "dec_interpolate v _ = 50"

definition curve :: "rat \<Rightarrow> (rat \<times> rat) list \<Rightarrow> rat" where
  "curve v ps =
     (if v \<le> fst (hd ps) then round_score (snd (hd ps))
      else if fst (last ps) \<le> v then round_score (snd (last ps))
      else dec_interpolate v ps)"

definition GROWTH_CURVE :: "(rat \<times> rat) list" where
  "GROWTH_CURVE = [(-30, 5), (-10, 25), (0, 45), (10, 65), (20, 80), (40, 95)]"

definition TREND_CURVE :: "(rat \<times> rat) list" where
  "TREND_CURVE = [(-40, 8), (-20, 25), (-5, 45), (0, 55), (10, 72), (30, 88), (60, 78)]"

definition growth_score :: "rat \<Rightarrow> rat" where "growth_score v = curve v GROWTH_CURVE"
definition trend_score :: "rat \<Rightarrow> rat" where "trend_score v = curve v TREND_CURVE"

section \<open>Metrics\<close>

text \<open>A metric with its weight; the score is a float and is rounded once more.\<close>

definition metric :: "string \<Rightarrow> datum \<Rightarrow> rat \<Rightarrow> int \<Rightarrow> metric_result" where
  "metric name d score weight =
     \<lparr>mr_metric = name, mr_score = round_score_float score, mr_weight = weight, mr_applied = 100,
      mr_evidence = sorted_set (split_on CHR ''|'' (dt_evidence d))\<rparr>"

text \<open>A metric of an optional datum, on a condition.\<close>

definition given :: "bool \<Rightarrow> 'a list \<Rightarrow> 'a list" where "given b xs = (if b then xs else [])"

definition on_datum :: "datum option \<Rightarrow> (datum \<Rightarrow> metric_result list) \<Rightarrow> metric_result list" where
  "on_datum d f = (case d of None \<Rightarrow> [] | Some x \<Rightarrow> f x)"

definition missing_unless :: "metric_result list \<Rightarrow> string \<Rightarrow> string list" where
  "missing_unless ms name = (if ms = [] then [name] else [])"

section \<open>Valuation\<close>

definition valuation_price :: "price_observation list \<Rightarrow> time \<Rightarrow> price_observation option" where
  "valuation_price prices now =
     (let usable = filter (\<lambda>p. po_observed_at p \<le> now \<and> po_retrieved_at p \<le> now \<and> 0 < po_price p \<and>
            or_text (po_currency p) \<noteq> [] \<and> po_url p \<noteq> []) prices;
          stamp = Max (set (map po_observed_at usable));
          latest = filter (\<lambda>p. po_observed_at p = stamp) usable
      in if usable = [] \<or> Max (set (map po_price latest)) \<noteq> Min (set (map po_price latest)) then None
         else Some (py_min (\<lambda>p. (po_provider p, po_url p)) latest))"

definition fact_anchor :: "snapshot_fact \<Rightarrow> time" where
  "fact_anchor f = (case sf_as_of f of Some t \<Rightarrow> t | None \<Rightarrow> (case sf_published_at f of Some t \<Rightarrow> t | None \<Rightarrow> sf_retrieved_at f))"

text \<open>A per-share basis of a snapshot: its anchor and value, when it is recent, positive and in the right unit.\<close>

definition valuation_basis ::
    "string \<Rightarrow> price_observation \<Rightarrow> time \<Rightarrow> snapshot_record \<Rightarrow> (time \<times> rat) option" where
  "valuation_basis source_name price now r =
     (case map_of (sn_facts r) source_name of
        None \<Rightarrow> None
      | Some f \<Rightarrow>
          let cur = upper (or_text (sn_currency r)); anchor = fact_anchor f
          in if sn_instrument r \<noteq> po_instrument price \<or> or_text (sn_currency r) = [] \<or> sn_currency r \<noteq> po_currency price then None
             else if or_text (sf_unit f) \<noteq> [] \<and>
               upper (or_text (sf_unit f)) \<notin> {cur, cur @ ''/SHARE'', cur @ '' PER SHARE'', ''CURRENCY/SHARE''} then None
             else if source_name = ''trailingEps'' \<and> or_text (sf_period f) \<noteq> [] \<and>
               upper (or_text (sf_period f)) \<notin> {''TTM'', ''TRAILING_TWELVE_MONTHS''} then None
             else if now < sf_retrieved_at f \<or> now < anchor \<or> 120 * DAY < now - anchor then None
             else (case sf_number f of None \<Rightarrow> None | Some n \<Rightarrow> if 0 < n then Some (anchor, n) else None))"

definition valuation_ratio ::
    "string \<Rightarrow> snapshot_record list \<Rightarrow> price_observation \<Rightarrow> time \<Rightarrow> rat option" where
  "valuation_ratio source_name records price now =
     (let bases = List.map_filter (valuation_basis source_name price now) records;
          newest = Max (set (map fst bases));
          current = map snd (filter (\<lambda>b. fst b = newest) bases)
      in if bases = [] \<or> length (remdups current) \<noteq> 1 then None else Some (dec28 (po_price price / hd current)))"

definition materialize_valuation ::
    "snapshot_record list \<Rightarrow> price_observation list \<Rightarrow> time \<Rightarrow> (string \<times> datum) list" where
  "materialize_valuation records prices now =
     (case valuation_price prices now of
        None \<Rightarrow> []
      | Some price \<Rightarrow> List.map_filter (\<lambda>(source_name, target).
          map_option (\<lambda>v. (target, \<lparr>dt_value = v, dt_as_of = Some (po_observed_at price), dt_evidence = ''derived:'' @ target,
              dt_unit = Some ''RATIO'', dt_authority = 0, dt_basis = None, dt_period = None\<rparr>))
            (valuation_ratio source_name records price now))
          [(''trailingEps'', ''trailingPE''), (''bookValue'', ''priceToBook'')])"

definition valuation_data :: "snapshot_record list \<Rightarrow> price_observation list \<Rightarrow> time \<Rightarrow> (string \<times> datum) list" where
  "valuation_data records prices now =
     foldl (\<lambda>sel (k, d). dset (metric_key k) d sel) (structured_data records) (materialize_valuation records prices now)"

definition PE_CURVE :: "(rat \<times> rat) list" where
  "PE_CURVE = [(8, 92), (15, 78), (25, 58), (40, 32), (60, 12)]"

definition valuation_metrics :: "rule_fact list \<Rightarrow> (string \<times> datum) list \<Rightarrow> bool \<Rightarrow> metric_result list" where
  "valuation_metrics facts structured financial =
     (let market_cap = pick structured [''marketcap''];
          fcf = financial_or_structured facts structured [''freecashflow''] [''free_cash_flow''] [Some ''ANNUAL'', Some ''TTM'']
      in on_datum (pick structured [''trailingpe'', ''pe'', ''pricetoearnings'']) (\<lambda>d. given (0 < dt_value d)
           (let earnings_yield = dec28 (100 / dt_value d)
            in [metric ''TRAILING_PE'' d (curve (dt_value d) PE_CURVE) 25,
                metric ''EARNINGS_YIELD'' (derived_datum earnings_yield ''PERCENT'' d ''derived:earnings-yield'' [])
                  (curve earnings_yield [(3 / 2, 10), (5 / 2, 30), (4, 55), (13 / 2, 78), (10, 92)]) 10])) @
         on_datum (pick structured [''forwardpe'']) (\<lambda>d. given (0 < dt_value d)
           [metric ''FORWARD_PE'' d (curve (dt_value d) [(8, 94), (15, 80), (25, 58), (40, 30), (60, 10)]) 15]) @
         on_datum (pick structured [''pricetobook'', ''pb'']) (\<lambda>d. given (0 < dt_value d)
           [metric ''PRICE_TO_BOOK'' d (curve (dt_value d)
              (if financial then [(4 / 5, 94), (3 / 2, 82), (3, 60), (5, 38), (8, 15)]
               else [(1, 88), (2, 76), (4, 56), (8, 30), (12, 12)])) (if financial then 18 else 8)]) @
         on_datum (pick structured [''evtoebitda'', ''enterprisevaluetoebitda'']) (\<lambda>d. given (0 < dt_value d \<and> \<not> financial)
           [metric ''EV_EBITDA'' d (curve (dt_value d) [(5, 94), (8, 80), (12, 62), (20, 35), (30, 12)]) 15]) @
         on_datum (pick structured [''pegratio'', ''peg'']) (\<lambda>d. given (0 < dt_value d)
           [metric ''PEG'' d (curve (dt_value d) [(1 / 2, 90), (1, 82), (3 / 2, 65), (5 / 2, 38), (4, 15)]) 10]) @
         on_datum fcf (\<lambda>f. on_datum market_cap (\<lambda>c.
           given (0 < dt_value c \<and> or_text (dt_unit f) \<noteq> [] \<and> dt_unit f = dt_unit c \<and> dt_period f \<in> {None, Some ''ANNUAL'', Some ''TTM''})
             (let fcf_yield = dec28 (dec28 (dt_value f / dt_value c) * 100)
              in [metric ''FCF_YIELD'' (derived_datum fcf_yield ''PERCENT'' f ''derived:fcf-yield'' [c])
                    (curve fcf_yield [(-5, 5), (0, 25), (2, 48), (5, 72), (8, 90)]) 15]))))"

definition valuation_area ::
    "readiness \<Rightarrow> rule_fact list \<Rightarrow> snapshot_record list \<Rightarrow> price_observation list \<Rightarrow> bool \<Rightarrow> time \<Rightarrow> area_result" where
  "valuation_area rd facts records prices financial now =
     (let ms = valuation_metrics facts (valuation_data records prices now) financial
      in finish rd VALUATION ms (missing_unless ms ''VALUATION_BASIS'') True)"

section \<open>Business quality\<close>

definition PAT :: "string list" where "PAT = [''pat'', ''net_income'', ''net_profit'']"
definition REVENUE :: "string list" where "REVENUE = [''revenue'', ''total_revenue'']"

definition RETURN_CURVE :: "(rat \<times> rat) list" where
  "RETURN_CURVE = [(0, 15), (5, 38), (10, 58), (18, 78), (28, 94)]"

definition return_metric :: "string \<Rightarrow> string \<Rightarrow> int \<Rightarrow> datum option \<Rightarrow> metric_result list" where
  "return_metric name evidence weight datum =
     on_datum datum (\<lambda>d. (let v = as_percent (dt_value d)
       in [metric name (derived_datum v ''PERCENT'' d evidence []) (curve v RETURN_CURVE) weight]))"

definition positive_share :: "datum list \<Rightarrow> rat" where
  "positive_share ds = share_percent (length (filter (\<lambda>d. 0 < dt_value d) ds)) (length ds)"

definition cash_metric :: "string \<Rightarrow> string \<Rightarrow> (rat \<times> rat) list \<Rightarrow> int \<Rightarrow> datum option \<Rightarrow> datum option \<Rightarrow> metric_result list" where
  "cash_metric name evidence table weight flow pat =
     on_datum flow (\<lambda>f. on_datum pat (\<lambda>p. given (dt_value p \<noteq> 0 \<and> compatible f p)
       (let ratio = dec28 (dt_value f / \<bar>dt_value p\<bar>)
        in [metric name (derived_datum ratio ''RATIO'' f evidence [p]) (curve ratio table) weight])))"

definition quality_metrics :: "rule_fact list \<Rightarrow> (string \<times> datum) list \<Rightarrow> bool \<Rightarrow> metric_result list" where
  "quality_metrics facts structured financial =
     (let either = financial_or_structured facts structured;
          annual_pat = fact_series facts PAT (Some ''ANNUAL'');
          annual_revenue = fact_series facts REVENUE (Some ''ANNUAL'');
          margins = aligned_ratios annual_pat annual_revenue 100;
          stability = repr_dec (pstdev (map fl64 (last_n 5 margins)));
          pat = (if annual_pat \<noteq> [] then Some (last annual_pat) else latest_fact facts PAT (Some ''ANNUAL''))
      in return_metric ''ROE'' ''normalized:roe'' 20 (either [''roe'', ''returnonequity''] [''roe'', ''return_on_equity''] [None]) @
         return_metric ''ROCE'' ''normalized:roce'' 20 (if financial then None
           else either [''roce'', ''returnoncapitalemployed''] [''roce'', ''return_on_capital_employed''] [None]) @
         return_metric ''OPERATING_MARGIN'' ''normalized:operating_margin'' 12 (either [''operatingmargin''] [''operating_margin''] [None]) @
         return_metric ''NET_MARGIN'' ''normalized:net_margin'' 10
           (either [''profitmargin'', ''netmargin''] [''profit_margin'', ''net_margin''] [None]) @
         given (3 \<le> length margins)
           [metric ''MARGIN_STABILITY'' (derived_from_many (dec28 (100 - stability)) ''INDEX''
              (last_n 5 annual_pat @ last_n 5 annual_revenue) ''derived:margin-stability'')
              (curve stability [(2, 92), (5, 78), (10, 55), (20, 25), (35, 8)]) 12] @
         cash_metric ''CASH_CONVERSION'' ''derived:cash-conversion'' [(0, 8), (1 / 2, 40), (4 / 5, 65), (1, 82), (13 / 10, 94)] 16
           (latest_fact facts [''operating_cash_flow'', ''cash_flow_from_operating_activities''] (Some ''ANNUAL'')) pat @
         cash_metric ''FCF_QUALITY'' ''derived:fcf-quality'' [(- (1 / 2), 5), (0, 25), (1 / 2, 55), (4 / 5, 75), (11 / 10, 90)] 10
           (either [''freecashflow''] [''free_cash_flow''] [Some ''ANNUAL'']) pat @
         given (3 \<le> length annual_pat)
           (let recent = last_n 5 annual_pat; consistency = positive_share recent
            in [metric ''PROFITABILITY_CONSISTENCY'' (derived_from_many consistency ''PERCENT'' recent ''derived:profitability-consistency'')
                  (fl64 consistency) 16]))"

definition quality_area ::
    "readiness \<Rightarrow> rule_fact list \<Rightarrow> snapshot_record list \<Rightarrow> bool \<Rightarrow> area_result" where
  "quality_area rd facts records financial =
     (let ms = quality_metrics facts (structured_data records) financial
      in finish rd FUNDAMENTAL_BUSINESS_QUALITY ms (missing_unless ms ''QUALITY_FACTS'') True)"

section \<open>Growth and quarterly trend\<close>

definition change_metric :: "string \<Rightarrow> string \<Rightarrow> int \<Rightarrow> (rat \<times> datum \<times> datum) option \<Rightarrow> metric_result list" where
  "change_metric name evidence weight comparison =
     (case comparison of
        None \<Rightarrow> []
      | Some (change, latest, prior) \<Rightarrow>
          [metric name (derived_datum change ''PERCENT'' latest evidence [prior]) (growth_score change) weight])"

definition cagr_metric :: "string \<Rightarrow> string \<Rightarrow> int \<Rightarrow> datum list \<Rightarrow> rat option \<Rightarrow> metric_result list" where
  "cagr_metric name evidence weight series cagr =
     (case cagr of None \<Rightarrow> []
      | Some c \<Rightarrow> [metric name (derived_from_many c ''PERCENT'' series evidence) (growth_score c) weight])"

definition earnings_series :: "rule_fact list \<Rightarrow> string \<Rightarrow> datum list" where
  "earnings_series facts period =
     (let pat = fact_series facts PAT (Some period) in if pat = [] then fact_series facts [''eps''] (Some period) else pat)"

definition growth_metrics :: "(rat \<Rightarrow> rat \<Rightarrow> rat) \<Rightarrow> rule_fact list \<Rightarrow> metric_result list" where
  "growth_metrics fpow facts =
     (let annual_revenue = fact_series facts REVENUE (Some ''ANNUAL'');
          annual_earnings = earnings_series facts ''ANNUAL'';
          quarterly_revenue = fact_series facts REVENUE (Some ''QUARTERLY'');
          quarterly_earnings = earnings_series facts ''QUARTERLY''
      in cagr_metric ''REVENUE_CAGR'' ''derived:revenue_cagr'' 27 annual_revenue (series_cagr fpow annual_revenue) @
         cagr_metric ''EARNINGS_CAGR'' ''derived:earnings_cagr'' 27 annual_earnings (series_cagr fpow annual_earnings) @
         change_metric ''REVENUE_YOY'' ''derived:revenue_yoy'' 15 (comparable_yoy quarterly_revenue) @
         change_metric ''EARNINGS_YOY'' ''derived:earnings_yoy'' 15 (comparable_yoy quarterly_earnings) @
         change_metric ''RECENT_REVENUE_QOQ'' ''derived:revenue-qoq'' 6 (sequential_change quarterly_revenue) @
         (case growth_consistency annual_revenue annual_earnings of
            None \<Rightarrow> []
          | Some (score, source_data) \<Rightarrow>
              [metric ''MULTI_YEAR_GROWTH_CONSISTENCY'' (derived_from_many score ''PERCENT'' source_data ''derived:growth-consistency'')
                 (fl64 score) 10]))"

definition growth_area :: "(rat \<Rightarrow> rat \<Rightarrow> rat) \<Rightarrow> readiness \<Rightarrow> rule_fact list \<Rightarrow> area_result" where
  "growth_area fpow rd facts =
     (let ms = growth_metrics fpow facts in finish rd GROWTH ms (missing_unless ms ''MULTI_PERIOD_GROWTH_HISTORY'') True)"

definition quarterly_metrics :: "rule_fact list \<Rightarrow> metric_result list" where
  "quarterly_metrics facts =
     (let revenue = fact_series facts REVENUE (Some ''QUARTERLY'');
          earnings = fact_series facts PAT (Some ''QUARTERLY'');
          eps = fact_series facts [''eps''] (Some ''QUARTERLY'');
          operating_profit = fact_series facts [''operating_income'', ''operating_profit''] (Some ''QUARTERLY'');
          margins = aligned_ratios operating_profit revenue 100;
          margin_change = dec28 (last margins - last (butlast margins))
      in change_metric ''REVENUE_YOY'' ''derived:quarterly-revenue_yoy'' 25 (comparable_yoy revenue) @
         change_metric ''PAT_YOY'' ''derived:quarterly-pat_yoy'' 25 (comparable_yoy earnings) @
         change_metric ''EPS_YOY'' ''derived:quarterly-eps_yoy'' 15 (comparable_yoy eps) @
         change_metric ''REVENUE_QOQ'' ''derived:quarterly-revenue_qoq'' 5 (sequential_change revenue) @
         change_metric ''PAT_QOQ'' ''derived:quarterly-pat_qoq'' 5 (sequential_change earnings) @
         given (2 \<le> length margins)
           [metric ''OPERATING_MARGIN_TREND'' (derived_from_many margin_change ''PERCENTAGE_POINTS''
              (last_n 2 operating_profit @ last_n 2 revenue) ''derived:quarterly-margin-trend'')
              (curve margin_change [(-8, 8), (-3, 30), (0, 55), (2, 75), (5, 92)]) 15] @
         given (3 \<le> length earnings)
           (let recent = last_n 4 earnings; consistency = positive_share recent
            in [metric ''EARNINGS_CONSISTENCY'' (derived_from_many consistency ''PERCENT'' recent ''derived:quarterly-consistency'')
                  (fl64 consistency) 10]))"

definition quarterly_area :: "readiness \<Rightarrow> rule_fact list \<Rightarrow> area_result" where
  "quarterly_area rd facts =
     (let ms = quarterly_metrics facts
      in finish rd QUARTERLY_EARNINGS_TREND ms (missing_unless ms ''COMPARABLE_QUARTERLY_RESULTS'') True)"

section \<open>Classification of the issuer\<close>

definition FINANCIAL_CLASSIFICATION_TERMS :: "string list" where
  "FINANCIAL_CLASSIFICATION_TERMS = [
    ''stock exchanges'', ''financial exchanges'', ''financial data'', ''financial'',
    ''banks'', ''banking'', ''insurance'', ''asset management'', ''capital markets'',
    ''investment banking'', ''financial market infrastructure'',
    ''credit service'', ''credit services'', ''lending'', ''non-bank financial'', ''nbfc'',
    ''leasing'', ''housing finance'', ''mortgage'', ''mortgages'',
    ''finance company'', ''finance companies'', ''microfinance'']"

definition FINANCIAL_SECTOR_SUBTYPE_TERMS :: "string list" where
  "FINANCIAL_SECTOR_SUBTYPE_TERMS = [
    ''banks'', ''banking'', ''non-bank'', ''nbfc'', ''housing finance'', ''mortgage finance'',
    ''microfinance'', ''credit service'', ''credit services'', ''lending'', ''finance company'',
    ''micro finance'', ''nbf'', ''cooperative bank'', ''urban financial'']"

definition ASSET_MANAGEMENT_TERMS :: "string list" where
  "ASSET_MANAGEMENT_TERMS = [''asset management'', ''investment management'']"

text \<open>\<open>re.sub(r"[^a-z0-9\s]+", " ", s).strip()\<close>: a run of other characters becomes one space.\<close>

fun squash :: "bool \<Rightarrow> string \<Rightarrow> string" where
  "squash in_run [] = []"
| "squash in_run (c # cs) =
     (if alnum c \<or> is_space c then c # squash False cs
      else if in_run then squash True cs else CHR '' '' # squash True cs)"

definition normalized_text :: "string \<Rightarrow> string" where
  "normalized_text s = strip (squash False (lower s))"

datatype financial_subtype = ASSET_MANAGEMENT | FINANCIAL_SECTOR | CORPORATE

definition classify_financial_subtype :: "string option \<Rightarrow> string option \<Rightarrow> financial_subtype" where
  "classify_financial_subtype industry sector =
     (let text = normalized_text (lower (or_text sector) @ '' '' @ or_text industry);
          mentions = (\<lambda>w. contains (normalized_text w) text)
      in if list_ex mentions ASSET_MANAGEMENT_TERMS then ASSET_MANAGEMENT
         else if list_ex mentions FINANCIAL_SECTOR_SUBTYPE_TERMS \<or> contains_term text ''hfc'' then FINANCIAL_SECTOR
         else CORPORATE)"

definition LENDER_BALANCE_SHEET_INPUT :: string where
  "LENDER_BALANCE_SHEET_INPUT = ''FINANCIAL_SECTOR_CAPITAL_OR_ASSET_QUALITY''"

definition CORPORATE_BALANCE_SHEET_INPUTS :: "string list" where
  "CORPORATE_BALANCE_SHEET_INPUTS = [''DEBT'', ''EQUITY'', ''CASH'', ''INTEREST_COVERAGE_INPUTS'', ''LIQUIDITY_CURRENT_RATIO_INPUTS'']"

text \<open>The excluded inputs of \<open>balance_sheet_applicability\<close>.\<close>

definition balance_sheet_excluded :: "string option \<Rightarrow> string option \<Rightarrow> string list" where
  "balance_sheet_excluded industry sector =
     (if classify_financial_subtype industry sector = FINANCIAL_SECTOR then CORPORATE_BALANCE_SHEET_INPUTS else [LENDER_BALANCE_SHEET_INPUT])"

type_synonym metadata = "(string \<times> string) list"

definition first_text :: "metadata \<Rightarrow> string list \<Rightarrow> string" where
  "first_text md keys = or_text (find (\<lambda>t. t \<noteq> []) (List.map_filter (map_of md) keys))"

text \<open>\<open>_sector\<close>: the canonical metadata, else the first snapshot that names a sector, else an industry.\<close>

definition snapshot_text :: "snapshot_record list \<Rightarrow> string \<Rightarrow> string option" where
  "snapshot_text records key =
     (case List.map_filter (\<lambda>r. find (\<lambda>(k, f). metric_key k = key \<and> sf_text f \<noteq> []) (sn_facts r)) records of
        [] \<Rightarrow> None | (k, f) # _ \<Rightarrow> Some (strip (sf_text f)))"

definition sector_of :: "metadata \<Rightarrow> snapshot_record list \<Rightarrow> string option" where
  "sector_of md records =
     (let raw = first_text md [''canonicalSector'', ''sector'', ''industrySector'']
      in if raw \<noteq> [] then Some (strip raw)
         else case snapshot_text records ''sector'' of Some t \<Rightarrow> Some t | None \<Rightarrow> snapshot_text records ''industry'')"

definition is_financial :: "metadata \<Rightarrow> snapshot_record list \<Rightarrow> bool" where
  "is_financial md records =
     (let text = lower (or_text (sector_of md records) @ '' '' @ or_text (map_of md ''industry''))
      in list_ex (\<lambda>w. contains w text) FINANCIAL_CLASSIFICATION_TERMS)"

section \<open>Balance sheet\<close>

definition lender_metrics :: "rule_fact list \<Rightarrow> metric_result list" where
  "lender_metrics facts =
     (let percent = (\<lambda>name evidence table weight metrics. on_datum (latest_fact facts metrics None) (\<lambda>d.
            (let v = as_percent (dt_value d) in [metric name (derived_datum v ''PERCENT'' d evidence []) (curve v table) weight])));
          npa = [(1, 92), (2, 78), (4, 52), (7, 25), (12, 8)]
      in percent ''CAPITAL_ADEQUACY'' ''normalized:capital-adequacy'' [(9, 20), (12, 50), (15, 72), (18, 90)] 50
           [''capital_adequacy'', ''capital_adequacy_ratio''] @
         percent ''GROSS_NPA'' ''normalized:gross_npa'' npa 25 [''gross_npa'', ''gross_npa_ratio''] @
         percent ''NET_NPA'' ''normalized:net_npa'' npa 25 [''net_npa'', ''net_npa_ratio''])"

definition corporate_metrics :: "rule_fact list \<Rightarrow> (string \<times> datum) list \<Rightarrow> metric_result list" where
  "corporate_metrics facts structured =
     (let annual = (\<lambda>metrics. latest_fact facts metrics (Some ''ANNUAL''));
          debt_series = fact_series facts [''debt_or_borrowings'', ''total_debt''] (Some ''ANNUAL'')
      in on_datum (debt_equity_datum facts structured) (\<lambda>d.
           [metric ''DEBT_TO_EQUITY'' d (curve (dt_value d) [(0, 95), (30, 85), (60, 68), (100, 45), (200, 18)]) 28]) @
         on_datum (annual [''debt_or_borrowings'', ''total_debt'']) (\<lambda>debt.
         on_datum (annual [''cash_and_cash_equivalents'', ''cash_and_equivalents'']) (\<lambda>cash.
         on_datum (annual [''equity'', ''total_equity'']) (\<lambda>equity.
           given (0 < dt_value equity \<and> compatible debt equity \<and> compatible cash equity)
             (let v = dec28 (dec28 (dec28 (dt_value debt - dt_value cash) / dt_value equity) * 100)
              in [metric ''NET_DEBT_TO_EQUITY'' (derived_datum v ''PERCENT'' debt ''derived:net-debt-equity'' [cash, equity])
                    (curve v [(-20, 98), (0, 90), (30, 75), (80, 48), (150, 18)]) 18])))) @
         on_datum (annual [''ebitda'']) (\<lambda>ebitda.
         on_datum (annual [''finance_cost'', ''interest_expense'']) (\<lambda>cost.
           given (0 < dt_value cost \<and> compatible ebitda cost)
             (let v = dec28 (dt_value ebitda / dt_value cost)
              in [metric ''INTEREST_COVERAGE'' (derived_datum v ''RATIO'' ebitda ''derived:interest-coverage'' [cost])
                    (curve v [(1 / 2, 5), (1, 18), (2, 45), (4, 70), (8, 92)]) 24]))) @
         on_datum (annual [''current_assets'']) (\<lambda>assets.
         on_datum (annual [''current_liabilities'']) (\<lambda>liabilities.
           given (0 < dt_value liabilities \<and> compatible assets liabilities)
             (let v = dec28 (dt_value assets / dt_value liabilities)
              in [metric ''CURRENT_RATIO'' (derived_datum v ''RATIO'' assets ''derived:current-ratio'' [liabilities])
                    (curve v [(1 / 2, 8), (9 / 10, 35), (6 / 5, 65), (9 / 5, 88), (3, 82)]) 15]))) @
         given (2 \<le> length debt_series \<and> 0 < dt_value (last (butlast debt_series)))
           (let prior = last (butlast debt_series);
                v = dec28 (dec28 (dec28 (dt_value (last debt_series) / dt_value prior) - 1) * 100)
            in [metric ''DEBT_TREND'' (derived_datum v ''PERCENT'' (last debt_series) ''derived:debt-trend'' [prior])
                  (curve v [(-20, 95), (0, 78), (10, 58), (30, 30), (60, 8)]) 15]))"

text \<open>
  Which of the two rules applies is read from the readiness of the balance sheet; its absence raises
  (None).
\<close>

definition balance_sheet_area ::
    "readiness \<Rightarrow> rule_fact list \<Rightarrow> snapshot_record list \<Rightarrow> metadata \<Rightarrow> area_result option" where
  "balance_sheet_area rd facts records md =
     (case find (\<lambda>r. rr_id r = ''BALANCE_SHEET_FACTS'') (rd_requirements rd) of
        None \<Rightarrow> None
      | Some r \<Rightarrow>
          (let industry = first_text md [''officialIndustry'', ''industry''];
               excluded = (if rr_applicability r = Some ''BALANCE_SHEET_SUBTYPE_INPUTS'' then rr_excluded r
                 else balance_sheet_excluded (Some industry) (sector_of md records));
               lender = (LENDER_BALANCE_SHEET_INPUT \<notin> set excluded);
               ms = (if lender then lender_metrics facts else corporate_metrics facts (structured_data records))
           in Some (finish rd BALANCE_SHEET ms
                (missing_unless ms (if lender then ''FINANCIAL_SECTOR_CAPITAL_OR_ASSET_QUALITY'' else ''BALANCE_SHEET_LEVERAGE_OR_LIQUIDITY'')) True)))"

section \<open>Price\<close>

definition median_float :: "rat list \<Rightarrow> rat" where
  "median_float xs =
     (let ys = sort xs; n = length ys
      in if odd n then ys ! (n div 2) else fl64 (fl64 (ys ! (n div 2 - 1) + ys ! (n div 2)) / 2))"

definition relative_percent :: "rat \<Rightarrow> rat \<Rightarrow> rat" where
  "relative_percent v basis = dec28 (dec28 (dec28 (v / basis) - 1) * 100)"

definition price_datum :: "price_observation \<Rightarrow> datum" where
  "price_datum p = \<lparr>dt_value = po_price p, dt_as_of = Some (po_observed_at p),
     dt_evidence = ''price:'' @ po_provider p @ '':'' @ po_observed_text p, dt_unit = po_currency p,
     dt_authority = provider_authority (Some (po_provider p)) None None, dt_basis = None, dt_period = None\<rparr>"

definition technical_metrics :: "price_observation list \<Rightarrow> metric_result list" where
  "technical_metrics prices =
     (let latest = last prices; d = price_datum latest;
          versus = (\<lambda>n. relative_percent (po_price latest) (repr_dec (median_float (map (fl64 \<circ> po_price) (last_n n prices)))));
          window = (if 150 \<le> length prices then last_n 150 prices else last_n 50 prices);
          drawdown = relative_percent (po_price latest) (Max (set (map po_price window)));
          trend = relative_percent (po_price latest) (po_price (hd window))
      in [metric ''PRICE_VS_50_OBSERVATION_MEDIAN'' (derived_datum (versus 50) ''PERCENT'' d ''derived:price-vs-median-50'' [])
            (trend_score (versus 50)) 35] @
         given (150 \<le> length prices)
           [metric ''PRICE_VS_150_OBSERVATION_MEDIAN'' (derived_datum (versus 150) ''PERCENT'' d ''derived:price-vs-median-150'' [])
              (trend_score (versus 150)) 35] @
         [metric ''DRAWDOWN_FROM_OBSERVATION_PEAK'' (derived_datum drawdown ''PERCENT'' d ''derived:drawdown'' [])
            (curve drawdown [(-50, 5), (-30, 25), (-15, 52), (-5, 75), (0, 90)]) 20,
          metric ''OBSERVATION_WINDOW_TREND'' (derived_datum trend ''PERCENT'' d ''derived:price-trend'' [price_datum (hd window)])
            (trend_score trend) 10])"

definition technical_area :: "readiness \<Rightarrow> price_observation list \<Rightarrow> area_result" where
  "technical_area rd all_prices =
     (let prices = usable_prices all_prices
      in if length prices < 50 then finish rd PRICE_TECHNICAL [] [''FIFTY_OBSERVATION_TECHNICAL_BASIS''] True
         else finish rd PRICE_TECHNICAL (technical_metrics prices) [] True)"

section \<open>Shareholding\<close>

datatype holder = PROMOTER | PROMOTER_PLEDGE | FII_FPI | DII | MUTUAL_FUNDS | INSURANCE | GOVERNMENT | PUBLIC_RETAIL | OTHERS

record holding_snapshot =
  hs_id :: string
  hs_period_end :: time
  hs_provider :: string
  hs_values :: "(holder \<times> rat) list"

text \<open>The dictionary of a snapshot's values: a later value of a category replaces an earlier one.\<close>

definition holding_of :: "holding_snapshot \<Rightarrow> holder \<Rightarrow> rat option" where
  "holding_of s c = map_of (rev (hs_values s)) c"

definition shareholding_datum :: "holding_snapshot \<Rightarrow> rat \<Rightarrow> holding_snapshot option \<Rightarrow> datum" where
  "shareholding_datum s v extra =
     \<lparr>dt_value = v, dt_as_of = Some (hs_period_end s),
      dt_evidence = join_with ''|'' (map (\<lambda>x. ''shareholding:'' @ hs_id x) (s # (case extra of None \<Rightarrow> [] | Some e \<Rightarrow> [e]))),
      dt_unit = Some ''PERCENT'', dt_authority = (if upper (hs_provider s) = ''NSE'' then 5 else 3), dt_basis = None, dt_period = None\<rparr>"

definition trend_metric :: "holding_snapshot \<Rightarrow> holding_snapshot \<Rightarrow> holder \<times> string \<times> int \<Rightarrow> metric_result list" where
  "trend_metric latest previous = (\<lambda>(category, name, weight).
     (case (holding_of latest category, holding_of previous category) of
        (Some now, Some before) \<Rightarrow>
          (let change = dec28 (now - before)
           in [metric name (shareholding_datum latest change (Some previous))
                 (curve change [(-5, 15), (-2, 35), (0, 55), (2, 75), (5, 92)]) weight])
      | _ \<Rightarrow> []))"

definition shareholding_metrics :: "holding_snapshot list \<Rightarrow> metric_result list" where
  "shareholding_metrics snapshots =
     (let latest = last snapshots; previous = last (butlast snapshots)
      in (case holding_of latest PROMOTER of None \<Rightarrow> []
          | Some v \<Rightarrow> [metric ''PROMOTER_HOLDING'' (shareholding_datum latest v None)
              (curve v [(0, 25), (20, 45), (40, 65), (55, 78), (70, 82)]) 25]) @
         (case holding_of latest PROMOTER_PLEDGE of None \<Rightarrow> []
          | Some v \<Rightarrow> [metric ''PROMOTER_PLEDGE'' (shareholding_datum latest v None)
              (curve v [(0, 95), (5, 75), (15, 48), (30, 20), (50, 5)]) 35]) @
         given (2 \<le> length snapshots) (concat (map (trend_metric latest previous)
           [(PROMOTER, ''PROMOTER_TREND'', 20), (FII_FPI, ''FII_FPI_TREND'', 10), (DII, ''DII_TREND'', 10)])))"

definition is_india :: "string \<Rightarrow> string \<Rightarrow> bool" where
  "is_india country exchange \<longleftrightarrow> upper (strip country) \<in> {''IN'', ''IND'', ''INDIA''} \<or>
     upper (strip exchange) \<in> {''NSE'', ''XNSE'', ''BSE'', ''XBOM''}"

definition shareholding_area :: "readiness \<Rightarrow> bool \<Rightarrow> holding_snapshot list \<Rightarrow> area_result" where
  "shareholding_area rd india shareholding =
     (if \<not> india then finish rd SHAREHOLDING [] [] False
      else if shareholding = [] then finish rd SHAREHOLDING [] [''LATEST_VALID_SHAREHOLDING_PERIOD''] True
      else (let ms = shareholding_metrics (sort_key hs_period_end shareholding)
            in finish rd SHAREHOLDING ms (missing_unless ms ''PROMOTER_INSTITUTIONAL_PUBLIC_CATEGORIES'') True))"

text \<open>\<open>shareholding_scorable_ownership_coverage\<close> of \<open>app/research_applicability.py\<close>.\<close>

definition scorable_ownership :: "holding_snapshot list \<Rightarrow> bool" where
  "scorable_ownership snapshots =
     (let ordered = sort_key hs_period_end snapshots;
          categories = (\<lambda>s. set (map fst (hs_values s)))
      in snapshots \<noteq> [] \<and>
         (PROMOTER \<in> categories (last ordered) \<or>
          2 \<le> length ordered \<and>
          list_ex (\<lambda>c. c \<in> categories (last ordered) \<and> c \<in> categories (last (butlast ordered))) [PROMOTER, FII_FPI, DII]))"

end
