(* ===== verification/StockEvents.thy ===== *)
theory StockEvents
  imports StockAreas
begin

text \<open>
  The event rules of \<open>STOCK_RULE_ENGINE_V1\<close> (\<open>app/stock_rule_engine.py\<close>) and the impact of news features
  they read (\<open>app/news_intelligence.py\<close>): event scores, catalysts, news, governance, sector and macro exposure,
  and the risk overrides.  Texts are Latin-1; whether a text is a governance disclosure
  (the regular expressions of \<open>app/extraction.py\<close>) is a parameter.
\<close>

section \<open>Events\<close>

datatype event_type =
    ORDER_WIN | NEW_CONTRACT | CLIENT_WIN | NEW_PLANT | CREDIT_RATING | BORROWING_CHANGE | MANAGEMENT_GUIDANCE
  | MAJOR_CORPORATE_ANNOUNCEMENT | NEW_ORDER | ORDER_BACKLOG_CHANGE | NEW_CUSTOMER | CUSTOMER_EXPANSION
  | MAJOR_CUSTOMER | CUSTOMER_LOSS | MAJOR_CONTRACT | GOVERNMENT_CONTRACT | CAPEX | FACTORY_EXPANSION
  | CAPACITY_EXPANSION | NEW_FACILITY | GEOGRAPHIC_EXPANSION | ACQUISITION | PARTNERSHIP | PRODUCT_LAUNCH
  | GUIDANCE_RAISED | GUIDANCE_LOWERED | GUIDANCE_MAINTAINED | GUIDANCE_CUT | REVENUE_GUIDANCE | MARGIN_GUIDANCE
  | INVESTMENT | ORDER_CANCELLED | PROJECT_DELAY | DEBT_CHANGE | FUNDING | MANAGEMENT_CHANGE | REGULATORY_EVENT
  | EARNINGS_RELEASE | ANNUAL_REPORT | EV_OTHER

fun event_type_name :: "event_type \<Rightarrow> string" where
  "event_type_name ORDER_WIN = ''ORDER_WIN''"
| "event_type_name NEW_CONTRACT = ''NEW_CONTRACT''"
| "event_type_name CLIENT_WIN = ''CLIENT_WIN''"
| "event_type_name NEW_PLANT = ''NEW_PLANT''"
| "event_type_name CREDIT_RATING = ''CREDIT_RATING''"
| "event_type_name BORROWING_CHANGE = ''BORROWING_CHANGE''"
| "event_type_name MANAGEMENT_GUIDANCE = ''MANAGEMENT_GUIDANCE''"
| "event_type_name MAJOR_CORPORATE_ANNOUNCEMENT = ''MAJOR_CORPORATE_ANNOUNCEMENT''"
| "event_type_name NEW_ORDER = ''NEW_ORDER''"
| "event_type_name ORDER_BACKLOG_CHANGE = ''ORDER_BACKLOG_CHANGE''"
| "event_type_name NEW_CUSTOMER = ''NEW_CUSTOMER''"
| "event_type_name CUSTOMER_EXPANSION = ''CUSTOMER_EXPANSION''"
| "event_type_name MAJOR_CUSTOMER = ''MAJOR_CUSTOMER''"
| "event_type_name CUSTOMER_LOSS = ''CUSTOMER_LOSS''"
| "event_type_name MAJOR_CONTRACT = ''MAJOR_CONTRACT''"
| "event_type_name GOVERNMENT_CONTRACT = ''GOVERNMENT_CONTRACT''"
| "event_type_name CAPEX = ''CAPEX''"
| "event_type_name FACTORY_EXPANSION = ''FACTORY_EXPANSION''"
| "event_type_name CAPACITY_EXPANSION = ''CAPACITY_EXPANSION''"
| "event_type_name NEW_FACILITY = ''NEW_FACILITY''"
| "event_type_name GEOGRAPHIC_EXPANSION = ''GEOGRAPHIC_EXPANSION''"
| "event_type_name ACQUISITION = ''ACQUISITION''"
| "event_type_name PARTNERSHIP = ''PARTNERSHIP''"
| "event_type_name PRODUCT_LAUNCH = ''PRODUCT_LAUNCH''"
| "event_type_name GUIDANCE_RAISED = ''GUIDANCE_RAISED''"
| "event_type_name GUIDANCE_LOWERED = ''GUIDANCE_LOWERED''"
| "event_type_name GUIDANCE_MAINTAINED = ''GUIDANCE_MAINTAINED''"
| "event_type_name GUIDANCE_CUT = ''GUIDANCE_CUT''"
| "event_type_name REVENUE_GUIDANCE = ''REVENUE_GUIDANCE''"
| "event_type_name MARGIN_GUIDANCE = ''MARGIN_GUIDANCE''"
| "event_type_name INVESTMENT = ''INVESTMENT''"
| "event_type_name ORDER_CANCELLED = ''ORDER_CANCELLED''"
| "event_type_name PROJECT_DELAY = ''PROJECT_DELAY''"
| "event_type_name DEBT_CHANGE = ''DEBT_CHANGE''"
| "event_type_name FUNDING = ''FUNDING''"
| "event_type_name MANAGEMENT_CHANGE = ''MANAGEMENT_CHANGE''"
| "event_type_name REGULATORY_EVENT = ''REGULATORY_EVENT''"
| "event_type_name EARNINGS_RELEASE = ''EARNINGS_RELEASE''"
| "event_type_name ANNUAL_REPORT = ''ANNUAL_REPORT''"
| "event_type_name EV_OTHER = ''OTHER''"

datatype event_impact = STRONG_POSITIVE | POSITIVE | NEUTRAL | NEGATIVE | STRONG_NEGATIVE | UNCERTAIN

datatype reliability_level = LEVEL_A | LEVEL_B | LEVEL_C | LEVEL_D | LEVEL_E

datatype time_horizon = IMMEDIATE | SHORT_TERM | MEDIUM_TERM | LONG_TERM | UNKNOWN_TERM

datatype lifecycle = DETECTED | VALIDATED | REJECTED

datatype source_classification =
    SC_OFFICIAL_COMPANY | SC_REGULATORY | SC_EXCHANGE | SC_CUSTOMER | SC_PARTNER | SC_SUPPLIER | SC_REPUTABLE_NEWS
  | SC_INVESTMENT_RESEARCH | SC_OTHER

record stock_event =
  se_id :: string
  se_type :: event_type
  se_date :: "time option"
  se_published_at :: "time option"
  se_detected_at :: time
  se_title :: string
  se_summary :: string
  se_url :: string
  se_class :: source_classification
  se_reliability :: reliability_level
  se_real :: bool
  se_confidence :: rat
  se_impact :: event_impact
  se_horizon :: time_horizon
  se_monetary :: "rat option"
  se_percentage :: "rat option"
  se_capacity :: "rat option"
  se_customer :: "string option"
  se_counterparty :: "string option"
  se_location :: "string option"
  se_status :: lifecycle
  se_independence :: "string option"

fun impact_direction :: "event_impact \<Rightarrow> rat" where
  "impact_direction STRONG_POSITIVE = 1"
| "impact_direction POSITIVE = 3 / 5"
| "impact_direction NEUTRAL = 0"
| "impact_direction UNCERTAIN = 0"
| "impact_direction NEGATIVE = - (3 / 5)"
| "impact_direction STRONG_NEGATIVE = - 1"

definition SEVERE_TYPES :: "event_type set" where
  "SEVERE_TYPES = {MAJOR_CONTRACT, GOVERNMENT_CONTRACT, ORDER_CANCELLED, PROJECT_DELAY, GUIDANCE_RAISED, GUIDANCE_CUT,
     REGULATORY_EVENT, MANAGEMENT_CHANGE}"

fun reliability_factor :: "reliability_level \<Rightarrow> rat" where
  "reliability_factor LEVEL_A = 1"
| "reliability_factor LEVEL_B = 17 / 20"
| "reliability_factor LEVEL_C = 13 / 20"
| "reliability_factor LEVEL_D = 2 / 5"
| "reliability_factor LEVEL_E = 1 / 5"

fun duration_factor :: "time_horizon \<Rightarrow> rat" where
  "duration_factor IMMEDIATE = 3 / 4"
| "duration_factor SHORT_TERM = 17 / 20"
| "duration_factor MEDIUM_TERM = 1"
| "duration_factor LONG_TERM = 1"
| "duration_factor UNKNOWN_TERM = 3 / 5"

definition event_severity :: "stock_event \<Rightarrow> rat" where
  "event_severity e =
     (let s = (if se_type e \<in> SEVERE_TYPES then 1 else 3 / 4)
      in if se_monetary e \<noteq> None \<or> se_capacity e \<noteq> None \<or> se_percentage e \<noteq> None then min 1 (dec28 (s + 1 / 10)) else s)"

definition event_score :: "stock_event \<Rightarrow> rat" where
  "event_score e =
     (let probability = dec28 (repr_dec (se_confidence e) * reliability_factor (se_reliability e));
          swing = dec28 (dec28 (dec28 (dec28 (impact_direction (se_impact e) * 50) * event_severity e) * probability) *
            duration_factor (se_horizon e))
      in round_score (clamp (dec28 (50 + swing))))"

definition AUTHORITATIVE_CLASSES :: "source_classification set" where
  "AUTHORITATIVE_CLASSES = {SC_OFFICIAL_COMPANY, SC_REGULATORY, SC_EXCHANGE}"

definition event_authority :: "stock_event \<Rightarrow> nat" where
  "event_authority e =
     (if se_class e \<in> {SC_REGULATORY, SC_EXCHANGE} then 5
      else if se_class e = SC_OFFICIAL_COMPANY then 4
      else if se_class e = SC_REPUTABLE_NEWS then 2 else 1)"

definition event_at :: "stock_event \<Rightarrow> time option" where
  "event_at e = (case se_date e of Some t \<Rightarrow> Some t | None \<Rightarrow> se_published_at e)"

definition event_datum :: "stock_event \<Rightarrow> datum" where
  "event_datum e = \<lparr>dt_value = repr_dec (event_score e),
     dt_as_of = Some (case event_at e of Some t \<Rightarrow> t | None \<Rightarrow> se_detected_at e), dt_evidence = ''event:'' @ se_id e,
     dt_unit = Some ''EVENT'', dt_authority = event_authority e, dt_basis = None, dt_period = None\<rparr>"

definition event_metric :: "int \<Rightarrow> stock_event \<Rightarrow> metric_result" where
  "event_metric weight e = metric (event_type_name (se_type e)) (event_datum e) (event_score e) weight"

definition event_text :: "stock_event \<Rightarrow> string" where
  "event_text e = lower (se_title e @ '' '' @ se_summary e)"

definition RESOLUTION_TERMS :: "string list" where
  "RESOLUTION_TERMS = [''resolved'', ''remediated'', ''cleared'', ''settled and closed'', ''no wrongdoing'']"

definition FRAUD_TERMS :: "string list" where
  "FRAUD_TERMS = [''confirmed fraud'', ''accounting fraud'', ''accounting crisis'', ''financial misstatement'']"

definition CRITICAL_REGULATORY_TERMS :: "string list" where
  "CRITICAL_REGULATORY_TERMS = [''license revoked'', ''trading ban'', ''insolvency'', ''criminal enforcement'', ''operations suspended'']"

definition MACRO_TERMS :: "string list" where
  "MACRO_TERMS = [''war'', ''sanction'', ''tariff'', ''interest rate'', ''central bank'', ''commodity'', ''oil'', ''crude'',
     ''currency'', ''supply chain'', ''geopolitical'']"

definition mentions_any :: "string list \<Rightarrow> string \<Rightarrow> bool" where
  "mentions_any terms text \<longleftrightarrow> list_ex (\<lambda>w. contains_term text w) terms"

definition CATALYST_TYPES :: "event_type set" where
  "CATALYST_TYPES = {ORDER_WIN, NEW_CONTRACT, CLIENT_WIN, NEW_PLANT, MAJOR_CORPORATE_ANNOUNCEMENT, NEW_ORDER,
     ORDER_BACKLOG_CHANGE, NEW_CUSTOMER, CUSTOMER_EXPANSION, MAJOR_CUSTOMER, CUSTOMER_LOSS, MAJOR_CONTRACT,
     GOVERNMENT_CONTRACT, CAPEX, FACTORY_EXPANSION, CAPACITY_EXPANSION, NEW_FACILITY, GEOGRAPHIC_EXPANSION, ACQUISITION,
     PARTNERSHIP, PRODUCT_LAUNCH, GUIDANCE_RAISED, GUIDANCE_LOWERED, GUIDANCE_MAINTAINED, GUIDANCE_CUT, ORDER_CANCELLED,
     PROJECT_DELAY}"

definition material_catalyst :: "stock_event \<Rightarrow> bool" where
  "material_catalyst e \<longleftrightarrow>
     se_real e \<and> se_status e = VALIDATED \<and> fl64 (3 / 5) \<le> se_confidence e \<and>
     se_reliability e \<in> {LEVEL_A, LEVEL_B} \<and> se_type e \<in> CATALYST_TYPES \<and>
     (se_monetary e \<noteq> None \<or> se_capacity e \<noteq> None \<or> se_percentage e \<noteq> None \<or> or_text (se_customer e) \<noteq> [] \<or>
      or_text (se_counterparty e) \<noteq> [] \<or> se_class e \<in> AUTHORITATIVE_CLASSES)"

section \<open>Exposure\<close>

definition is_macro_event :: "stock_event \<Rightarrow> bool" where
  "is_macro_event e \<longleftrightarrow> mentions_any MACRO_TERMS (event_text e)"

definition EXPOSURES :: "(string \<times> string list) list" where
  "EXPOSURES = [
    (''energy'', [''oil'', ''crude'', ''gas'', ''commodity'']),
    (''airline'', [''oil'', ''fuel'', ''jet fuel'']),
    (''aviation'', [''oil'', ''fuel'', ''jet fuel'']),
    (''financial'', [''interest rate'', ''central bank'', ''credit'']),
    (''bank'', [''interest rate'', ''central bank'', ''credit'']),
    (''materials'', [''commodity'', ''tariff'', ''supply chain'']),
    (''industrial'', [''tariff'', ''supply chain'', ''commodity'']),
    (''technology'', [''sanction'', ''tariff'', ''supply chain'', ''currency'']),
    (''consumer'', [''currency'', ''commodity'', ''interest rate'']),
    (''automobile'', [''commodity'', ''tariff'', ''supply chain''])]"

definition proven_macro_exposure :: "string option \<Rightarrow> stock_event \<Rightarrow> bool" where
  "proven_macro_exposure sector e \<longleftrightarrow>
     (let text = lower (se_title e @ '' '' @ se_summary e @ '' '' @ or_text (se_location e) @ '' '' @ or_text (se_counterparty e));
          allowed = concat (map snd (filter (\<lambda>(label, _). contains label (lower (or_text sector))) EXPOSURES))
      in mentions_any allowed text)"

definition issuer_or_proven_exposure :: "string option \<Rightarrow> stock_event \<Rightarrow> bool" where
  "issuer_or_proven_exposure sector e \<longleftrightarrow>
     se_real e \<and> 1 / 2 \<le> se_confidence e \<and> (is_macro_event e \<longrightarrow> proven_macro_exposure sector e)"

section \<open>Catalysts\<close>

definition event_concept :: "event_type \<Rightarrow> string option" where
  "event_concept t =
     (if t \<in> {NEW_ORDER, ORDER_BACKLOG_CHANGE, MAJOR_CONTRACT, GOVERNMENT_CONTRACT, ORDER_CANCELLED} then Some ''ORDER_BOOK''
      else if t \<in> {CAPEX, FACTORY_EXPANSION, CAPACITY_EXPANSION, NEW_FACILITY, PROJECT_DELAY} then Some ''CAPEX''
      else if prefix_of ''GUIDANCE_'' (event_type_name t) then Some ''GUIDANCE''
      else None)"

definition concept_input :: "event_type \<Rightarrow> string option" where
  "concept_input t = (case event_concept t of None \<Rightarrow> None | Some c \<Rightarrow> map_of CONCEPT_INPUTS c)"

definition area_requirements :: "readiness \<Rightarrow> area \<Rightarrow> research_requirement list" where
  "area_requirements rd ar = filter (\<lambda>r. rr_area r = ar) (rd_requirements rd)"

text \<open>A ready area without a score: a completed check that found nothing.\<close>

definition ready_without_score :: "readiness \<Rightarrow> area_result \<Rightarrow> string list \<Rightarrow> area_result" where
  "ready_without_score rd base evidence =
     base\<lparr>ar_status := (if list_ex (\<lambda>r. rr_status r = READY_STALE) (area_requirements rd (ar_area base))
            then A_READY_STALE else A_READY_FRESH),
          ar_missing := [], ar_evidence := sorted_set (ar_evidence base @ evidence)\<rparr>"

definition completed_check_area :: "readiness \<Rightarrow> area \<Rightarrow> string \<Rightarrow> area_result option" where
  "completed_check_area rd ar prefix =
     (let items = area_requirements rd ar;
          checks = filter (prefix_of prefix) (concat (map rr_evidence items));
          base = finish rd ar [] [] True
      in if checks = [] \<or> list_ex (\<lambda>r. rr_status r \<notin> FULL_STATUSES) items then None
         else if ar_status base \<noteq> A_UNSCORABLE then Some base
         else Some (ready_without_score rd base checks))"

definition catalyst_area :: "readiness \<Rightarrow> stock_event list \<Rightarrow> area_result" where
  "catalyst_area rd events =
     (let excluded = concat (map rr_excluded (filter (\<lambda>r. rr_id r = ''ORDER_BOOK_CAPEX_GUIDANCE'') (rd_requirements rd)));
          relevant = filter (\<lambda>e. material_catalyst e \<and>
            (case concept_input (se_type e) of None \<Rightarrow> True | Some i \<Rightarrow> i \<notin> set excluded)) events;
          ms = map (event_metric 1) relevant;
          plain = finish rd ORDER_BOOK_CAPACITY_CATALYSTS ms (missing_unless ms ''MATERIAL_ISSUER_RELEVANT_CATALYST_EVIDENCE'') True
      in if ms = [] then (case completed_check_area rd ORDER_BOOK_CAPACITY_CATALYSTS ''catalyst-check:'' of
             Some covered \<Rightarrow> covered | None \<Rightarrow> plain)
         else plain)"

section \<open>News features\<close>

record impact_feature =
  nf_id :: string
  nf_key :: string
  nf_type :: string
  nf_impact :: rat
  nf_publication :: "time option"
  nf_public_at :: time
  nf_discovered_at :: time
  nf_computed_at :: time
  nf_valid_until :: "time option"
  nf_severe :: bool

datatype search_outcome = SEARCH_COMPLETE_WITH_EVENTS | SEARCH_COMPLETE_NO_EVENTS | SEARCH_PARTIAL | SEARCH_FAILED

record search_run =
  run_id :: string
  run_completed_at :: time
  run_outcome :: search_outcome

datatype search_status = FAILED_SEARCH | STALE_SEARCH | READY_WITH_EVENTS | READY_NO_EVENTS | PARTIAL_SEARCH

definition search_state :: "search_run option \<Rightarrow> time \<Rightarrow> search_status" where
  "search_state run now =
     (case run of
        None \<Rightarrow> FAILED_SEARCH
      | Some r \<Rightarrow>
          if now < run_completed_at r \<or> DAY < now - run_completed_at r then STALE_SEARCH
          else (case run_outcome r of SEARCH_COMPLETE_WITH_EVENTS \<Rightarrow> READY_WITH_EVENTS
              | SEARCH_COMPLETE_NO_EVENTS \<Rightarrow> READY_NO_EVENTS | SEARCH_PARTIAL \<Rightarrow> PARTIAL_SEARCH | SEARCH_FAILED \<Rightarrow> FAILED_SEARCH))"

definition known_at :: "impact_feature \<Rightarrow> time" where
  "known_at f = max (nf_public_at f) (max (nf_discovered_at f) (nf_computed_at f))"

text \<open>\<open>timedelta.total_seconds()\<close>, and \<open>round(x, 8)\<close> of a float.\<close>

definition total_seconds :: "time \<Rightarrow> rat" where "total_seconds d = fl64 (of_int d / 1000000)"
definition round8 :: "rat \<Rightarrow> rat" where "round8 x = fl64 (quantize 8 x)"

definition impact_at :: "impact_feature \<Rightarrow> time \<Rightarrow> rat option" where
  "impact_at f now =
     (if now < known_at f then None
      else case nf_valid_until f of
          None \<Rightarrow> Some (nf_impact f)
        | Some until \<Rightarrow>
            if until \<le> now then None
            else (let start = (case nf_publication f of Some t \<Rightarrow> t | None \<Rightarrow> nf_discovered_at f);
                      decay = max 0 (min 1 (fl64 (total_seconds (until - now) / total_seconds (until - start))))
                  in Some (round8 (fl64 (nf_impact f * decay)))))"

definition newer_feature :: "impact_feature \<Rightarrow> impact_feature \<Rightarrow> bool" where
  "newer_feature old f \<longleftrightarrow> (nf_computed_at old, nf_id old) < (nf_computed_at f, nf_id f)"

fun latest_features :: "time \<Rightarrow> (string \<times> impact_feature) list \<Rightarrow> impact_feature list \<Rightarrow> (string \<times> impact_feature) list" where
  "latest_features now sel [] = sel"
| "latest_features now sel (f # fs) =
     (if now < known_at f then latest_features now sel fs
      else (case map_of sel (nf_key f) of
              None \<Rightarrow> latest_features now (dset (nf_key f) f sel) fs
            | Some old \<Rightarrow> latest_features now (if newer_feature old f then dset (nf_key f) f sel else sel) fs))"

definition latest_known_features :: "impact_feature list \<Rightarrow> time \<Rightarrow> impact_feature list" where
  "latest_known_features fs now = map snd (sort_key fst (latest_features now [] fs))"

definition aggregate_impact :: "impact_feature list \<Rightarrow> time \<Rightarrow> rat option" where
  "aggregate_impact fs now =
     (let values = List.map_filter (\<lambda>f. impact_at f now) (latest_known_features fs now)
      in if values = [] then None else Some (round8 (fl64 (py_sum values / of_nat (length values)))))"

section \<open>News\<close>

definition CURRENT_NEWS_WINDOW_DAYS :: int where "CURRENT_NEWS_WINDOW_DAYS = 30"

definition current_event :: "string option \<Rightarrow> time \<Rightarrow> stock_event \<Rightarrow> bool" where
  "current_event sector now e \<longleftrightarrow>
     (case event_at e of
        None \<Rightarrow> False
      | Some t \<Rightarrow> se_status e \<noteq> REJECTED \<and> 0 \<le> now - t \<and> now - t \<le> CURRENT_NEWS_WINDOW_DAYS * DAY \<and>
          issuer_or_proven_exposure sector e)"

definition event_key :: "stock_event \<Rightarrow> string \<times> string \<times> int option" where
  "event_key e = (lower (se_url e), lower (strip (se_title e)), map_option (\<lambda>t. t div DAY) (event_at e))"

fun distinct_events :: "(string \<times> string \<times> int option) list \<Rightarrow> stock_event list \<Rightarrow> stock_event list" where
  "distinct_events seen [] = []"
| "distinct_events seen (e # es) =
     (if event_key e \<in> set seen then distinct_events seen es else e # distinct_events (event_key e # seen) es)"

definition news_events :: "string option \<Rightarrow> time \<Rightarrow> stock_event list \<Rightarrow> stock_event list" where
  "news_events sector now events = distinct_events [] (filter (current_event sector now) events)"

definition impact_metric :: "impact_feature list \<Rightarrow> rat \<Rightarrow> metric_result" where
  "impact_metric fs impact = \<lparr>mr_metric = ''COMPANY_NEWS_IMPACT'', mr_score = fl64 (50 + fl64 (impact / 2)), mr_weight = 1,
     mr_applied = 100, mr_evidence = sort (map nf_id fs)\<rparr>"

definition news_area ::
    "readiness \<Rightarrow> string option \<Rightarrow> stock_event list \<Rightarrow> impact_feature list \<Rightarrow> search_run option \<Rightarrow> time \<Rightarrow> area_result" where
  "news_area rd sector events features run now =
     (let state = search_state run now;
          searched = (state = READY_WITH_EVENTS \<or> state = READY_NO_EVENTS);
          ms = map (event_metric 1) (news_events sector now events);
          base = finish rd NEWS_GEOPOLITICAL_EVENTS [] [] True;
          items = area_requirements rd NEWS_GEOPOLITICAL_EVENTS
      in case aggregate_impact features now of
           Some impact \<Rightarrow>
             (let result = finish rd NEWS_GEOPOLITICAL_EVENTS [impact_metric features impact] [] True
              in if searched then result else result\<lparr>ar_status := A_PARTIAL\<rparr>)
         | None \<Rightarrow>
             if ms = [] \<and> searched \<and> run \<noteq> None
             then (if ar_status base \<noteq> A_UNSCORABLE \<or> items = [] \<or> list_ex (\<lambda>r. rr_status r \<notin> FULL_STATUSES) items then base
                   else ready_without_score rd base [''search-run:'' @ run_id (the run)])
             else finish rd NEWS_GEOPOLITICAL_EVENTS ms (missing_unless ms ''RELEVANT_CURRENT_EVENT_WITHIN_30_DAYS'') True)"

section \<open>Governance\<close>

definition governance_event :: "(string \<Rightarrow> bool) \<Rightarrow> stock_event \<Rightarrow> bool" where
  "governance_event disclosure e \<longleftrightarrow>
     se_type e \<in> {MANAGEMENT_CHANGE, REGULATORY_EVENT, CREDIT_RATING} \<or> disclosure (event_text e)"

definition governance_metric :: "stock_event \<Rightarrow> metric_result" where
  "governance_metric e =
     (let resolved = (mentions_any RESOLUTION_TERMS (event_text e) \<or> se_status e = REJECTED);
          score = (if resolved then (if se_status e \<noteq> REJECTED then 60 else 65) else event_score e)
      in metric ''GOVERNANCE_EVIDENCE'' (event_datum e) score 1)"

definition pledge_governance_metrics :: "holding_snapshot list \<Rightarrow> metric_result list" where
  "pledge_governance_metrics shareholding =
     (if shareholding = [] then []
      else (case map_of (hs_values (last shareholding)) PROMOTER_PLEDGE of
          None \<Rightarrow> []
        | Some v \<Rightarrow> [metric ''PROMOTER_PLEDGE_GOVERNANCE'' (shareholding_datum (last shareholding) v None)
            (curve v [(0, 95), (5, 75), (15, 45), (30, 18), (50, 5)]) 1]))"

definition governance_metrics :: "(string \<Rightarrow> bool) \<Rightarrow> stock_event list \<Rightarrow> holding_snapshot list \<Rightarrow> metric_result list" where
  "governance_metrics disclosure events shareholding =
     map governance_metric (filter (governance_event disclosure) events) @ pledge_governance_metrics shareholding"

definition governance_area :: "(string \<Rightarrow> bool) \<Rightarrow> readiness \<Rightarrow> stock_event list \<Rightarrow> holding_snapshot list \<Rightarrow> area_result" where
  "governance_area disclosure rd events shareholding =
     (let ms = governance_metrics disclosure events shareholding;
          base = finish rd MANAGEMENT_GOVERNANCE [] [] True;
          items = area_requirements rd MANAGEMENT_GOVERNANCE
      in if ms = [] \<and> ar_status base = A_UNSCORABLE \<and> items \<noteq> [] \<and> list_all (\<lambda>r. rr_status r \<in> {READY_FRESH, READY_STALE}) items
         then ready_without_score rd base (concat (map rr_evidence items))
         else finish rd MANAGEMENT_GOVERNANCE ms (missing_unless ms ''STRUCTURED_GOVERNANCE_EVIDENCE'') True)"

section \<open>Sector and macro\<close>

definition macro_metrics ::
    "string \<Rightarrow> string option \<Rightarrow> (string \<times> datum) list \<Rightarrow> stock_event list \<Rightarrow> time \<Rightarrow> metric_result list" where
  "macro_metrics instrument sector structured events now =
     (case sector of
        None \<Rightarrow> []
      | Some s \<Rightarrow> given (s \<noteq> [])
          [metric ''CANONICAL_SECTOR_BASIS'' \<lparr>dt_value = 50, dt_as_of = Some now,
             dt_evidence = ''canonical-sector:'' @ instrument @ '':'' @ lower s, dt_unit = Some ''CATEGORY'', dt_authority = 4,
             dt_basis = None, dt_period = None\<rparr> 50 20]) @
     on_datum (pick structured [''sectorperformance'', ''sectorreturn'']) (\<lambda>d.
       (let v = as_percent (dt_value d)
        in [metric ''SECTOR_PERFORMANCE'' (derived_datum v ''PERCENT'' d ''normalized:sector-performance'' []) (trend_score v) 45])) @
     map (event_metric 35) (filter (\<lambda>e. is_macro_event e \<and> proven_macro_exposure sector e) events)"

definition sector_macro_area ::
    "readiness \<Rightarrow> string \<Rightarrow> string option \<Rightarrow> snapshot_record list \<Rightarrow> stock_event list \<Rightarrow> time \<Rightarrow> area_result" where
  "sector_macro_area rd instrument sector records events now =
     (let ms = macro_metrics instrument sector (structured_data records) events now
      in finish rd SECTOR_MACRO ms (missing_unless ms ''CANONICAL_SECTOR_OR_DURABLE_MACRO_EXPOSURE'') True)"

section \<open>Risk overrides\<close>

definition authoritative_unresolved :: "stock_event \<Rightarrow> bool" where
  "authoritative_unresolved e \<longleftrightarrow>
     se_real e \<and> se_status e = VALIDATED \<and> se_reliability e = LEVEL_A \<and> se_class e \<in> AUTHORITATIVE_CLASSES \<and>
     3 / 4 \<le> se_confidence e \<and> \<not> mentions_any RESOLUTION_TERMS (event_text e)"

definition override_of :: "string \<Rightarrow> severity \<Rightarrow> string list \<Rightarrow> override" where
  "override_of code sev evidence = \<lparr>ov_code = code, ov_severity = sev, ov_block_buy = True, ov_evidence = evidence\<rparr>"

definition governance_evidence :: "stock_event \<Rightarrow> string" where
  "governance_evidence e = ''event:'' @ se_id e @ '':GOVERNANCE_HISTORY''"

definition event_override :: "stock_event \<Rightarrow> override option" where
  "event_override e =
     (let text = event_text e; any_in = list_ex (\<lambda>w. contains w text)
      in if any_in FRAUD_TERMS \<and> se_impact e = STRONG_NEGATIVE
         then Some (override_of ''CONFIRMED_FRAUD_OR_ACCOUNTING_CRISIS'' SEV_CRITICAL [governance_evidence e])
         else if se_type e = REGULATORY_EVENT \<and> se_impact e = STRONG_NEGATIVE \<and> any_in CRITICAL_REGULATORY_TERMS
         then Some (override_of ''CRITICAL_REGULATORY_ACTION'' SEV_CRITICAL [governance_evidence e])
         else if se_type e = MANAGEMENT_CHANGE \<and> se_impact e = STRONG_NEGATIVE \<and> any_in [''auditor'', ''resignation'', ''qualification'']
         then Some (override_of ''SEVERE_UNRESOLVED_GOVERNANCE'' SEV_HIGH [governance_evidence e])
         else None)"

definition extreme_balance_sheet :: "rule_fact list \<Rightarrow> snapshot_record list \<Rightarrow> string list" where
  "extreme_balance_sheet facts records =
     (let official = fact_source_authority OFFICIAL_NSE
      in case (debt_equity_datum facts (structured_data records), latest_fact facts [''ebitda''] (Some ''ANNUAL''),
               latest_fact facts [''finance_cost'', ''interest_expense''] (Some ''ANNUAL'')) of
           (Some de, Some ebitda, Some cost) \<Rightarrow>
             if 300 < dt_value de \<and> 0 < dt_value cost \<and> compatible ebitda cost \<and> dec28 (dt_value ebitda / dt_value cost) < 1 \<and>
                official \<le> dt_authority de \<and> official \<le> dt_authority ebitda \<and> official \<le> dt_authority cost
             then sorted_set (concat (map (\<lambda>d. split_on CHR ''|'' (dt_evidence d)) [de, ebitda, cost]))
             else []
         | _ \<Rightarrow> [])"

definition first_by_code :: "override list \<Rightarrow> override list" where
  "first_by_code ovs = map snd (foldl (\<lambda>sel ov. setdefault (ov_code ov) ov sel) [] ovs)"

definition risk_overrides ::
    "stock_event list \<Rightarrow> impact_feature list \<Rightarrow> rule_fact list \<Rightarrow> snapshot_record list \<Rightarrow> bool \<Rightarrow> time \<Rightarrow> override list" where
  "risk_overrides events features facts records financial now =
     (let validated = List.map_filter (\<lambda>f. if nf_severe f \<and> impact_at f now \<noteq> None
              then Some (override_of (''VALIDATED_'' @ nf_type f) SEV_CRITICAL [nf_id f]) else None) (latest_known_features features now);
          authoritative = filter authoritative_unresolved events;
          extreme = extreme_balance_sheet facts records;
          negative = filter (\<lambda>e. se_type e \<in> {GUIDANCE_CUT, ORDER_CANCELLED, PROJECT_DELAY}) authoritative;
          independent = remdups (map (\<lambda>e. if or_text (se_independence e) \<noteq> [] then or_text (se_independence e) else se_url e) negative)
      in first_by_code (validated @ List.map_filter event_override authoritative @
           given (\<not> financial \<and> extreme \<noteq> []) [override_of ''EXTREME_BALANCE_SHEET_STRESS'' SEV_CRITICAL extreme] @
           given (2 \<le> length independent)
             [override_of ''BROKEN_INVESTMENT_THESIS'' SEV_HIGH (sort (map governance_evidence negative))]))"

section \<open>The evaluation\<close>

record stock_input =
  si_instrument :: string
  si_country :: string
  si_exchange :: string
  si_readiness :: readiness
  si_facts :: "rule_fact list"
  si_records :: "snapshot_record list"
  si_prices :: "price_observation list"
  si_events :: "stock_event list"
  si_shareholding :: "holding_snapshot list"
  si_metadata :: metadata
  si_now :: time
  si_features :: "impact_feature list"
  si_search :: "search_run option"

definition stock_areas :: "(rat \<Rightarrow> rat \<Rightarrow> rat) \<Rightarrow> (string \<Rightarrow> bool) \<Rightarrow> stock_input \<Rightarrow> area_result list option" where
  "stock_areas fpow disclosure v =
     (let rd = si_readiness v; now = si_now v; sector = sector_of (si_metadata v) (si_records v);
          financial = is_financial (si_metadata v) (si_records v)
      in map_option (\<lambda>balance.
          [valuation_area rd (si_facts v) (si_records v) (si_prices v) financial now,
           quality_area rd (si_facts v) (si_records v) financial,
           growth_area fpow rd (si_facts v),
           balance,
           quarterly_area rd (si_facts v),
           catalyst_area rd (si_events v),
           technical_area rd (si_prices v),
           news_area rd sector (si_events v) (si_features v) (si_search v) now,
           shareholding_area rd (is_india (si_country v) (si_exchange v)) (si_shareholding v),
           governance_area disclosure rd (si_events v) (si_shareholding v),
           sector_macro_area rd (si_instrument v) sector (si_records v) (si_events v) now])
        (balance_sheet_area rd (si_facts v) (si_records v) (si_metadata v)))"

text \<open>\<open>StockRuleEngineV1.evaluate\<close>; None is an exception.\<close>

definition evaluate_input ::
    "(rat \<Rightarrow> rat \<Rightarrow> rat) \<Rightarrow> (string \<Rightarrow> bool) \<Rightarrow> stock_input \<Rightarrow> bool \<Rightarrow> stock_result option" where
  "evaluate_input fpow disclosure v allow_partial =
     Option.bind (stock_areas fpow disclosure v) (\<lambda>areas. evaluate_stock (si_readiness v) areas
       (risk_overrides (si_events v) (si_features v) (si_facts v) (si_records v)
         (is_financial (si_metadata v) (si_records v)) (si_now v)) allow_partial)"

section \<open>Impacts keep their range when rounded\<close>

lemma round8_bound: "\<bar>x\<bar> \<le> 100 + 1 / 1000000000 \<Longrightarrow> \<bar>round8 x\<bar> \<le> 100"
proof -
  assume "\<bar>x\<bar> \<le> 100 + 1 / 1000000000"
  then have "quantize 8 x \<le> 100" "quantize 8 (- x) \<le> 100" by (simp_all add: quantize_le_100 abs_le_iff)
  then have "\<bar>quantize 8 x\<bar> \<le> 100" by (simp add: quantize_minus abs_le_iff)
  then show ?thesis unfolding round8_def by (rule fl64_abs_100)
qed

lemma fl64_near: "\<bar>y\<bar> \<le> 101 \<Longrightarrow> \<bar>fl64 y - y\<bar> \<le> 1 / 10000000"
  using fl64_error[of y 101] by simp

lemma round8_near: "\<bar>x\<bar> \<le> 100 + 1 / 1024 \<Longrightarrow> \<bar>round8 x\<bar> \<le> 100 + 1 / 1000"
proof -
  assume x: "\<bar>x\<bar> \<le> 100 + 1 / 1024"
  have q: "quantize 8 y \<le> 100 + 1 / 1020" if "y \<le> 100 + 1 / 1024" for y
  proof -
    have "\<bar>quantize 8 y - y\<bar> \<le> 1 / 200000000" using quantize_error[of 8 y] by simp
    then show ?thesis using that by linarith
  qed
  have "\<bar>quantize 8 x\<bar> \<le> 100 + 1 / 1020" using q[of x] q[of "- x"] x unfolding quantize_minus abs_le_iff by blast
  moreover from this have "\<bar>fl64 (quantize 8 x) - quantize 8 x\<bar> \<le> 1 / 10000000"
    by (intro fl64_near) linarith
  ultimately show ?thesis unfolding round8_def by linarith
qed

lemma round8_range: "- 1 / 1000000000 \<le> x \<Longrightarrow> x \<le> 100 + 1 / 1000000000 \<Longrightarrow> 0 \<le> round8 x \<and> round8 x \<le> 100"
  unfolding round8_def using fl64_mono[OF quantize_ge_0] fl64_mono[OF quantize_le_100] by fastforce

lemma round8_error: "\<bar>x\<bar> \<le> 101 \<Longrightarrow> \<bar>round8 x - x\<bar> \<le> 1 / 150000000"
proof -
  assume x: "\<bar>x\<bar> \<le> 101"
  have q: "\<bar>quantize 8 x - x\<bar> \<le> 1 / 200000000" using quantize_error[of 8 x] by simp
  then have "\<bar>quantize 8 x\<bar> \<le> 200" using x by (simp add: abs_le_iff; linarith)
  then have "\<bar>round8 x - quantize 8 x\<bar> \<le> 200 / 2 ^ 53" unfolding round8_def by (rule fl64_error) simp
  then have "\<bar>round8 x - quantize 8 x\<bar> \<le> 1 / 600000000" by (rule order_trans) simp
  then show ?thesis using q by linarith
qed

end
