(* ===== verification/FloatSum.thy ===== *)
theory FloatSum
  imports PyFloat
begin

text \<open>
  The compensated sum of nonnegative floats is nonnegative: sums and differences of floats lie on the finest
  grid, where rounding is relative down to zero, so the compensation stays below the running sum.
\<close>

definition on_grid :: "rat \<Rightarrow> bool" where
  "on_grid x \<longleftrightarrow> (\<exists>m. x = of_int m * 2 powi (- 1074))"

lemma on_grid_add: "on_grid x \<Longrightarrow> on_grid y \<Longrightarrow> on_grid (x + y)"
  unfolding on_grid_def by (metis distrib_right of_int_add)

lemma on_grid_minus: "on_grid x \<Longrightarrow> on_grid y \<Longrightarrow> on_grid (x - y)"
  unfolding on_grid_def by (metis left_diff_distrib of_int_diff)

lemma on_grid_fl64: "on_grid (fl64 x)"
proof -
  obtain m e where e: "fl64 x = of_int m * rat_of_nat 2 powi e" "- 1074 \<le> e"
    using rnd_sig_few_digits[of 2 53 "- 1074" x] unfolding fl64_def few_digits_def by auto
  define k where "k = int 2 ^ nat (e - - 1074)"
  have "rat_of_nat 2 powi e = of_int k * rat_of_nat 2 powi (- 1074)"
    unfolding k_def by (rule powi_split) (use e(2) in simp_all)
  then have "fl64 x = of_int (m * k) * 2 powi (- 1074)" using e(1) by simp
  then show ?thesis unfolding on_grid_def by blast
qed

lemma fl64_grid_error_nonneg:
  assumes "on_grid x" and "0 \<le> x"
  shows "\<bar>fl64 x - x\<bar> \<le> x / 2 ^ 53"
proof (cases "2 powi (- 1022) \<le> x")
  case True
  then show ?thesis by (rule fl64_rel_error)
next
  case False
  obtain m where m: "x = of_int m * 2 powi (- 1074)" using assms(1) by (auto simp: on_grid_def)
  have p: "(0::rat) < 2 powi (- 1074)" by (simp add: zero_less_power_int)
  have "(2::rat) powi (- 1022) = of_int (2 ^ 52) * 2 powi (- 1074)"
    using powi_split[of 2 "- 1074" "- 1022"] by simp
  then have "of_int m * 2 powi (- 1074) < of_int (2 ^ 52) * (2 powi (- 1074) :: rat)" using False m by simp
  then have "m < 2 ^ 52" using p by (simp only: mult_less_cancel_right_pos of_int_less_iff)
  moreover have "0 \<le> m" using assms(2) p m by (simp add: zero_le_mult_iff)
  ultimately have "\<bar>m\<bar> < int 2 ^ 53" by simp
  then have "few_digits 2 53 (- 1074) x"
    unfolding few_digits_def using m by (intro exI[of _ m] exI[of _ "- 1074"]) simp
  then have "fl64 x = x" by (rule binary64.rnd_exact)
  then show ?thesis using assms(2) by simp
qed

lemma fl64_grid_error:
  assumes "on_grid x"
  shows "\<bar>fl64 x - x\<bar> \<le> \<bar>x\<bar> / 2 ^ 53"
proof (cases "0 \<le> x")
  case True
  then show ?thesis using fl64_grid_error_nonneg[OF assms] by simp
next
  case False
  have "on_grid (0 - x)" by (rule on_grid_minus) (use assms in \<open>auto simp: on_grid_def intro: exI[of _ 0]\<close>)
  then have "\<bar>fl64 (- x) - (- x)\<bar> \<le> - x / 2 ^ 53" using fl64_grid_error_nonneg[of "- x"] False by simp
  then show ?thesis using False by (simp add: fl64_minus)
qed

text \<open>One step on nonnegative floats \<open>s\<close> and \<open>x\<close>, with the relative error \<open>u\<close> of an operation.\<close>

lemma compensation_step:
  assumes u: "0 < u" "u \<le> 1 / 10000000" and err: "\<And>z. on_grid z \<Longrightarrow> \<bar>fl64 z - z\<bar> \<le> \<bar>z\<bar> * u"
    and ab: "on_grid a" "on_grid b" "0 \<le> b" "b \<le> a"
    and t: "t = fl64 (a + b)" and e: "e = fl64 (fl64 (a - t) + b)"
  shows "\<bar>e\<bar> \<le> 4 * (u * t)" and "0 \<le> t"
proof -
  define y where "y = a + b"
  have y: "0 \<le> y" "b \<le> y / 2" using ab by (simp_all add: y_def)
  have gt: "on_grid t" by (simp add: t on_grid_fl64)
  have small: "u * z \<le> z / 10000000" if "0 \<le> z" for z
    using mult_right_mono[OF u(2) that] by simp
  have uy: "u * y \<le> y / 10000000" "0 \<le> u * y" using small[OF y(1)] u(1) y(1) by simp_all
  have t1: "\<bar>t - y\<bar> \<le> u * y" using err[of y] on_grid_add[OF ab(1,2)] y(1) by (simp add: t y_def mult.commute)
  show "0 \<le> t" using t1 uy y by linarith
  have ay: "a - y = - b" by (simp add: y_def)
  have at: "\<bar>a - t\<bar> \<le> y" using t1 uy y ay ab(3) by linarith
  have "\<bar>fl64 (a - t) - (a - t)\<bar> \<le> \<bar>a - t\<bar> * u" using err on_grid_minus[OF ab(1) gt] by blast
  also have "\<dots> \<le> y * u" using at u(1) by (intro mult_right_mono) simp_all
  finally have "\<bar>fl64 (a - t) - (a - t)\<bar> \<le> u * y" by (simp add: mult.commute)
  then have d: "\<bar>fl64 (a - t) + b\<bar> \<le> 2 * (u * y)" using t1 ay by linarith
  have "\<bar>e - (fl64 (a - t) + b)\<bar> \<le> \<bar>fl64 (a - t) + b\<bar> * u"
    unfolding e using err on_grid_add[OF on_grid_fl64 ab(2)] by blast
  also have "\<dots> \<le> \<bar>fl64 (a - t) + b\<bar> / 2" using small[of "\<bar>fl64 (a - t) + b\<bar>"] by (simp add: mult.commute)
  also have "\<dots> \<le> u * y" using d by (simp only: divide_le_eq_numeral1 mult.commute[of "u * y"])
  finally have "\<bar>e - (fl64 (a - t) + b)\<bar> \<le> u * y" .
  moreover have "\<bar>e\<bar> \<le> \<bar>e - (fl64 (a - t) + b)\<bar> + \<bar>fl64 (a - t) + b\<bar>"
    using abs_triangle_ineq[of "e - (fl64 (a - t) + b)" "fl64 (a - t) + b"] by simp
  ultimately have e3: "\<bar>e\<bar> \<le> 3 * (u * y)" using d by linarith
  have "u * (y - t) \<le> u * (u * y)" using t1 u(1) by (intro mult_left_mono) linarith+
  moreover have "u * (u * y) \<le> (u * y) / 10000000" using small[OF uy(2)] .
  ultimately have "u * y \<le> u * t + u * y / 10000000" by (simp add: right_diff_distrib)
  then have "3 * (u * y) \<le> 4 * (u * t)" using uy(2) by linarith
  then show "\<bar>e\<bar> \<le> 4 * (u * t)" using e3 by linarith
qed

text \<open>The compensation is at most five units per term.\<close>

lemma compensation_bound:
  assumes u: "0 < u" "of_nat k * u \<le> 1 / 1000000" "u \<le> 1 / 10000000" and err: "\<And>z. on_grid z \<Longrightarrow> \<bar>fl64 z - z\<bar> \<le> \<bar>z\<bar> * u"
    and g: "on_grid c" "on_grid e" and c: "\<bar>c\<bar> \<le> 5 * (of_nat k * (u * t))" and e: "\<bar>e\<bar> \<le> 4 * (u * t)" and t: "0 \<le> t"
  shows "\<bar>fl64 (c + e)\<bar> \<le> 5 * (of_nat (Suc k) * (u * t))"
proof -
  have ut: "0 \<le> u * t" using u(1) t by simp
  have "\<bar>fl64 (c + e) - (c + e)\<bar> \<le> \<bar>c + e\<bar> * u" using err on_grid_add[OF g] by blast
  moreover have "\<bar>c + e\<bar> * u \<le> (5 * (of_nat k * (u * t)) + 4 * (u * t)) * u"
    using c e u(1) by (intro mult_right_mono) linarith+
  moreover have "(5 * (of_nat k * (u * t)) + 4 * (u * t)) * u = 5 * ((of_nat k * u) * (u * t)) + 4 * (u * (u * t))"
    by (simp add: algebra_simps)
  moreover have "(of_nat k * u) * (u * t) \<le> 1 / 1000000 * (u * t)" using u(2) ut by (rule mult_right_mono)
  moreover have "u * (u * t) \<le> 1 / 10000000 * (u * t)" using u(3) ut by (rule mult_right_mono)
  moreover have "of_nat (Suc k) * (u * t) = of_nat k * (u * t) + u * t" by (simp add: algebra_simps)
  ultimately show ?thesis using c e ut by linarith
qed

lemma neumaier_nonneg_gen:
  assumes u: "0 < u" "of_nat n * u \<le> 1 / 1000000" "u \<le> 1 / 10000000" and err: "\<And>z. on_grid z \<Longrightarrow> \<bar>fl64 z - z\<bar> \<le> \<bar>z\<bar> * u"
    and "0 \<le> s" "fl64 s = s" "on_grid c" "\<bar>c\<bar> \<le> 5 * (of_nat k * (u * s))" "k + length xs \<le> n"
    and "\<And>x. x \<in> set xs \<Longrightarrow> 0 \<le> x \<and> fl64 x = x"
  shows "0 \<le> neumaier s c xs"
  using assms(5-)
proof (induction xs arbitrary: s c k)
  case Nil
  have "of_nat k * u \<le> of_nat n * u" using Nil(5) u(1) by (intro mult_right_mono) simp_all
  then have "(of_nat k * u) * s \<le> 1 / 1000000 * s" using u(2) Nil(1) by (intro mult_right_mono) linarith+
  then have "0 \<le> s + c" using Nil(1,4) by (simp add: mult.assoc)
  then have "0 \<le> fl64 (s + c)" unfolding fl64_def by (intro rnd_sig_nonneg) simp_all
  then show ?case using Nil(1) by simp
next
  case (Cons x xs)
  define t where "t = fl64 (s + x)"
  define e where "e = (if \<bar>x\<bar> \<le> \<bar>s\<bar> then fl64 (fl64 (s - t) + x) else fl64 (fl64 (x - t) + s))"
  have x: "0 \<le> x" "fl64 x = x" using Cons.prems(6)[of x] by simp_all
  have g: "on_grid s" "on_grid x" using on_grid_fl64[of s] on_grid_fl64[of x] Cons.prems(2) x(2) by simp_all
  have e1: "\<bar>e\<bar> \<le> 4 * (u * t)" and t0: "0 \<le> t"
  proof -
    consider "x \<le> s" | "s < x" by linarith
    then have "\<bar>e\<bar> \<le> 4 * (u * t) \<and> 0 \<le> t"
    proof cases
      case 1
      then show ?thesis
        using compensation_step[OF u(1,3) err g x(1) 1 t_def refl] Cons.prems(1) x(1) by (simp add: e_def)
    next
      case 2
      have "t = fl64 (x + s)" by (simp add: t_def add.commute)
      from compensation_step[OF u(1,3) err g(2,1) Cons.prems(1) _ this refl] 2 show ?thesis
        using Cons.prems(1) x(1) by (simp add: e_def)
    qed
    then show "\<bar>e\<bar> \<le> 4 * (u * t)" "0 \<le> t" by blast+
  qed
  have "fl64 s \<le> t" unfolding t_def using x(1) by (intro binary64.rnd_mono) simp
  then have "s \<le> t" by (simp only: Cons.prems(2))
  then have "u * s \<le> u * t" using u(1) by (intro mult_left_mono) linarith+
  then have "of_nat k * (u * s) \<le> of_nat k * (u * t)" by (rule mult_left_mono) simp
  then have c: "\<bar>c\<bar> \<le> 5 * (of_nat k * (u * t))" using Cons.prems(4) by linarith
  have "of_nat k * u \<le> of_nat n * u" using Cons.prems(5) u(1) by (intro mult_right_mono) simp_all
  then have ku: "of_nat k * u \<le> 1 / 1000000" using u(2) by linarith
  have "\<bar>fl64 (c + e)\<bar> \<le> 5 * (of_nat (Suc k) * (u * t))"
    by (rule compensation_bound[OF u(1) ku u(3) err Cons.prems(3) _ c e1 t0]) (auto simp: e_def on_grid_fl64)
  from Cons.IH[OF t0 _ on_grid_fl64 this] Cons.prems(5,6)
  have "0 \<le> neumaier t (fl64 (c + e)) xs" by (simp add: t_def fl64_idem)
  moreover have "neumaier s c (x # xs) = neumaier t (fl64 (c + e)) xs" by (simp add: t_def e_def Let_def)
  ultimately show ?case by simp
qed

lemma py_sum_nonneg:
  assumes "length xs \<le> 100000" and "\<And>x. x \<in> set xs \<Longrightarrow> 0 \<le> x \<and> fl64 x = x"
  shows "0 \<le> py_sum xs"
proof (cases xs)
  case (Cons y ys)
  have "0 \<le> neumaier y 0 ys"
    by (rule neumaier_nonneg_gen[where u = "1 / 2 ^ 53" and k = 0 and n = 100000])
      (use assms Cons fl64_grid_error in \<open>auto simp: on_grid_def\<close>)
  then show ?thesis by (simp add: Cons)
qed simp

end
