(* ===== verification/Technical.thy ===== *)
theory Technical
  imports PriceHistory StockEvents FloatSum
begin

text \<open>
  The technical features of an instrument (\<open>app/technical_features.py\<close>): the configuration and its
  validation, the indicators (Wilder averages, ATR and ADX, EMA, RSI, OLS slope, swing points), the features
  of a selected history, their classification, score and readiness.  Prices are floats; the float of a
  positive price is positive (no price is below the smallest float).  The constant texts of a snapshot
  (version, configuration, extrema basis) are left out.
\<close>

section \<open>Configuration\<close>

record technical_config =
  cf_max_age_days :: nat
  cf_return_lookbacks :: "nat list"
  cf_level_lookback :: nat
  cf_year_observations :: nat
  cf_slope_threshold_pct :: rat
  cf_breakout_buffer_pct :: rat
  cf_pullback_retreat_pct :: rat
  cf_pullback_proximity_pct :: rat
  cf_base_range_pct :: rat
  cf_extension_distance_pct :: rat
  cf_extension_rsi :: rat
  cf_volume_confirmation_ratio :: rat
  cf_volume_contraction_ratio :: rat
  cf_score_weights :: "rat list"
  cf_momentum_full_scale_pct :: rat
  cf_extension_penalty :: rat
  cf_volume_breakout_bonus :: rat
  cf_swing_pivot_window :: nat

definition default_config :: technical_config where
  "default_config = \<lparr>cf_max_age_days = 7, cf_return_lookbacks = [5, 21, 63, 126, 252], cf_level_lookback = 20,
     cf_year_observations = 252, cf_slope_threshold_pct = fl64 (2 / 100), cf_breakout_buffer_pct = 1,
     cf_pullback_retreat_pct = 2, cf_pullback_proximity_pct = 3, cf_base_range_pct = 5, cf_extension_distance_pct = 10,
     cf_extension_rsi = 70, cf_volume_confirmation_ratio = 3 / 2, cf_volume_contraction_ratio = 3 / 4,
     cf_score_weights = [50, 30, 20], cf_momentum_full_scale_pct = 20, cf_extension_penalty = 15,
     cf_volume_breakout_bonus = 5, cf_swing_pivot_window = 3\<rparr>"

text \<open>\<open>__post_init__\<close>; a negative integer fails its first check.\<close>

definition valid_config :: "technical_config \<Rightarrow> bool" where
  "valid_config c =
     (1 \<le> cf_max_age_days c \<and> 2 \<le> cf_level_lookback c \<and> 2 \<le> cf_year_observations c \<and>
      length (cf_return_lookbacks c) = 5 \<and> list_all (\<lambda>n. 1 \<le> n) (cf_return_lookbacks c) \<and>
      sorted_set (cf_return_lookbacks c) = cf_return_lookbacks c \<and>
      length (cf_score_weights c) = 3 \<and> 0 < py_sum (cf_score_weights c) \<and> 1 \<le> cf_swing_pivot_window c \<and>
      list_all (\<lambda>x. 0 \<le> x) ([cf_slope_threshold_pct c, cf_breakout_buffer_pct c, cf_pullback_retreat_pct c,
        cf_pullback_proximity_pct c, cf_base_range_pct c, cf_extension_distance_pct c, cf_extension_rsi c,
        cf_volume_confirmation_ratio c, cf_volume_contraction_ratio c, cf_momentum_full_scale_pct c,
        cf_extension_penalty c, cf_volume_breakout_bonus c] @ cf_score_weights c) \<and>
      cf_momentum_full_scale_pct c \<noteq> 0 \<and>
      cf_volume_contraction_ratio c < 1 \<and> 1 < cf_volume_confirmation_ratio c)"

lemma default_config_valid: "valid_config default_config"
  by code_simp

section \<open>Indicators\<close>

text \<open>\<open>xs[-n:]\<close>, and \<open>xs[-n-1:-1]\<close>.\<close>

definition lastn :: "nat \<Rightarrow> 'a list \<Rightarrow> 'a list" where
  "lastn n xs = drop (length xs - n) xs"

definition before_last :: "nat \<Rightarrow> 'a list \<Rightarrow> 'a list" where
  "before_last n xs = take n (drop (length xs - Suc n) xs)"

definition percentage :: "rat \<Rightarrow> rat \<Rightarrow> rat" where
  "percentage v reference = fl64 (fl64 (fl64 (v / reference) - 1) * 100)"

definition clamp100 :: "rat \<Rightarrow> rat" where
  "clamp100 v = min 100 (max 0 v)"

definition float_mean :: "rat list \<Rightarrow> rat" where
  "float_mean xs = fl64 (py_sum xs / of_nat (length xs))"

definition wilder_next :: "nat \<Rightarrow> rat \<Rightarrow> rat \<Rightarrow> rat" where
  "wilder_next period prev v = fl64 (fl64 (fl64 (prev * of_nat (period - 1)) + v) / of_nat period)"

fun running_from :: "(rat \<Rightarrow> rat \<Rightarrow> rat) \<Rightarrow> rat \<Rightarrow> rat list \<Rightarrow> rat list" where
  "running_from f prev [] = []"
| "running_from f prev (v # vs) = f prev v # running_from f (f prev v) vs"

text \<open>A series seeded by the mean of the first period.\<close>

definition seeded :: "(rat \<Rightarrow> rat \<Rightarrow> rat) \<Rightarrow> nat \<Rightarrow> rat list \<Rightarrow> rat list" where
  "seeded f period values =
     (if length values < period then []
      else let s = float_mean (take period values) in s # running_from f s (drop period values))"

definition wilder :: "nat \<Rightarrow> rat list \<Rightarrow> rat list" where
  "wilder period values = seeded (wilder_next period) period values"

definition ema_next :: "nat \<Rightarrow> rat \<Rightarrow> rat \<Rightarrow> rat" where
  "ema_next period prev v =
     (let alpha = fl64 (2 / of_nat (period + 1)) in fl64 (fl64 (alpha * v) + fl64 (fl64 (1 - alpha) * prev)))"

definition ema :: "nat \<Rightarrow> rat list \<Rightarrow> rat list" where
  "ema period values = seeded (ema_next period) period values"

record candle =
  cn_high :: rat
  cn_low :: rat
  cn_close :: rat

definition true_range :: "candle \<times> candle \<Rightarrow> rat" where
  "true_range pc = (case pc of (p, c) \<Rightarrow>
     max (max (fl64 (cn_high c - cn_low c)) \<bar>fl64 (cn_high c - cn_close p)\<bar>) \<bar>fl64 (cn_low c - cn_close p)\<bar>)"

definition movement :: "candle \<times> candle \<Rightarrow> rat \<times> rat" where
  "movement pc = (case pc of (p, c) \<Rightarrow>
     let up = fl64 (cn_high c - cn_high p); down = fl64 (cn_low p - cn_low c)
     in (if 0 < up \<and> down < up then up else 0, if 0 < down \<and> up < down then down else 0))"

definition directional_index :: "rat \<times> rat \<times> rat \<Rightarrow> rat" where
  "directional_index tud = (case tud of (total_range, up, down) \<Rightarrow>
     let di = (\<lambda>x. if total_range \<noteq> 0 then fl64 (fl64 (100 * x) / total_range) else 0);
         denominator = fl64 (di up + di down)
     in if denominator \<noteq> 0 then fl64 (fl64 (100 * \<bar>fl64 (di up - di down)\<bar>) / denominator) else 0)"

definition atr_adx :: "nat \<Rightarrow> candle list \<Rightarrow> rat option \<times> rat option" where
  "atr_adx period candles =
     (let pairs = zip candles (tl candles);
          ranges = wilder period (map true_range pairs);
          positive = wilder period (map (fst \<circ> movement) pairs);
          negative = wilder period (map (snd \<circ> movement) pairs);
          adx = wilder period (map directional_index (zip ranges (zip positive negative)))
      in (if ranges = [] then None else Some (max 0 (last ranges)),
          if adx = [] then None else Some (clamp100 (last adx))))"

definition rsi_step :: "nat \<Rightarrow> rat \<times> rat \<Rightarrow> rat \<Rightarrow> rat \<times> rat" where
  "rsi_step period gl change =
     (wilder_next period (fst gl) (max change 0), wilder_next period (snd gl) (max (- change) 0))"

definition rsi_of :: "rat \<times> rat \<Rightarrow> rat" where
  "rsi_of gl = (case gl of (gain, loss) \<Rightarrow>
     if gain = 0 \<and> loss = 0 then 50 else if loss = 0 then 100
     else fl64 (100 - fl64 (100 / fl64 (1 + fl64 (gain / loss)))))"

definition float_changes :: "rat list \<Rightarrow> rat list" where
  "float_changes values = map (\<lambda>(a, b). fl64 (b - a)) (zip values (tl values))"

definition rsi :: "nat \<Rightarrow> rat list \<Rightarrow> rat option" where
  "rsi period values =
     (if length values \<le> period then None
      else let changes = float_changes values;
               start = (float_mean (map (\<lambda>v. max v 0) (take period changes)), float_mean (map (\<lambda>v. max (- v) 0) (take period changes)))
           in Some (rsi_of (foldl (rsi_step period) start (drop period changes))))"

definition slope :: "rat list \<Rightarrow> rat" where
  "slope values =
     (let center = (of_nat (length values) - 1) / 2;
          m = float_mean values;
          num = py_sum (map (\<lambda>(i, v). fl64 ((of_nat i - center) * fl64 (v - m))) (enumerate 0 values));
          den = py_sum (map (\<lambda>i. fl64 ((of_nat i - center) ^ 2)) [0..<length values])
      in fl64 (fl64 (fl64 (num / den) / m) * 100))"

text \<open>A pivot is strictly beyond every one of the \<open>w\<close> prices on each side.\<close>

definition pivot :: "(rat \<Rightarrow> rat \<Rightarrow> bool) \<Rightarrow> rat list \<Rightarrow> nat \<Rightarrow> nat \<Rightarrow> bool" where
  "pivot beyond prices w i =
     (list_all (beyond (prices ! i)) (take w (drop (i - w) prices)) \<and>
      list_all (beyond (prices ! i)) (take w (drop (i + 1) prices)))"

definition confirmed_swing_points :: "rat list \<Rightarrow> nat \<Rightarrow> (nat \<times> rat) list \<times> (nat \<times> rat) list" where
  "confirmed_swing_points prices w =
     (let points = (\<lambda>beyond. map (\<lambda>i. (i, prices ! i)) (filter (pivot beyond prices w) [w..<length prices - w]))
      in (points (>), points (<)))"

section \<open>Features of a price series\<close>

record trend_features =
  tf_latest_price :: "rat option"
  tf_dma20 :: "rat option"
  tf_dma50 :: "rat option"
  tf_dma100 :: "rat option"
  tf_dma200 :: "rat option"
  tf_distance_to_dma20_pct :: "rat option"
  tf_distance_to_dma50_pct :: "rat option"
  tf_distance_to_dma100_pct :: "rat option"
  tf_distance_to_dma200_pct :: "rat option"
  tf_trend_slope20 :: "rat option"
  tf_trend_slope50 :: "rat option"

definition dma :: "nat \<Rightarrow> rat list \<Rightarrow> rat option" where
  "dma period prices = (if period \<le> length prices then Some (fl64 (py_sum (lastn period prices) / of_nat period)) else None)"

definition distance_to :: "rat list \<Rightarrow> rat option \<Rightarrow> rat option" where
  "distance_to prices level = map_option (percentage (last prices)) level"

definition no_trend :: trend_features where
  "no_trend = \<lparr>tf_latest_price = None, tf_dma20 = None, tf_dma50 = None, tf_dma100 = None, tf_dma200 = None,
     tf_distance_to_dma20_pct = None, tf_distance_to_dma50_pct = None, tf_distance_to_dma100_pct = None,
     tf_distance_to_dma200_pct = None, tf_trend_slope20 = None, tf_trend_slope50 = None\<rparr>"

definition trend_of :: "rat list \<Rightarrow> trend_features" where
  "trend_of prices =
     \<lparr>tf_latest_price = Some (last prices), tf_dma20 = dma 20 prices, tf_dma50 = dma 50 prices,
      tf_dma100 = dma 100 prices, tf_dma200 = dma 200 prices,
      tf_distance_to_dma20_pct = distance_to prices (dma 20 prices),
      tf_distance_to_dma50_pct = distance_to prices (dma 50 prices),
      tf_distance_to_dma100_pct = distance_to prices (dma 100 prices),
      tf_distance_to_dma200_pct = distance_to prices (dma 200 prices),
      tf_trend_slope20 = (if 20 \<le> length prices then Some (slope (lastn 20 prices)) else None),
      tf_trend_slope50 = (if 50 \<le> length prices then Some (slope (lastn 50 prices)) else None)\<rparr>"

record momentum_features =
  mf_rsi14 :: "rat option"
  mf_macd :: "rat option"
  mf_macd_signal :: "rat option"
  mf_macd_histogram :: "rat option"
  mf_returns :: "rat option list"

definition no_momentum :: momentum_features where
  "no_momentum = \<lparr>mf_rsi14 = None, mf_macd = None, mf_macd_signal = None, mf_macd_histogram = None,
     mf_returns = replicate 5 None\<rparr>"

definition macd_series :: "rat list \<Rightarrow> rat list" where
  "macd_series prices = map (\<lambda>(a, b). fl64 (a - b)) (zip (drop 14 (ema 12 prices)) (ema 26 prices))"

definition last_opt :: "'a list \<Rightarrow> 'a option" where
  "last_opt xs = (if xs = [] then None else Some (last xs))"

text \<open>The returns 1W, 1M, 3M, 6M and 1Y are the five lookbacks in their order.\<close>

definition momentum_of :: "technical_config \<Rightarrow> rat list \<Rightarrow> momentum_features" where
  "momentum_of c prices =
     (let series = macd_series prices; macd = last_opt series; signal = last_opt (ema 9 series)
      in \<lparr>mf_rsi14 = rsi 14 prices, mf_macd = macd, mf_macd_signal = signal,
          mf_macd_histogram = (case (macd, signal) of (Some a, Some b) \<Rightarrow> Some (fl64 (a - b)) | _ \<Rightarrow> None),
          mf_returns = map (\<lambda>n. if n < length prices then Some (percentage (last prices) (prices ! (length prices - n - 1))) else None)
            (cf_return_lookbacks c)\<rparr>)"

record level_features =
  lf_distance_from52_week_high_pct :: "rat option"
  lf_distance_from52_week_low_pct :: "rat option"
  lf_support_level :: "rat option"
  lf_resistance_level :: "rat option"
  lf_distance_to_support_pct :: "rat option"
  lf_distance_to_resistance_pct :: "rat option"
  lf_higher_highs_higher_lows :: "bool option"
  lf_lower_highs_lower_lows :: "bool option"

definition no_levels :: level_features where
  "no_levels = \<lparr>lf_distance_from52_week_high_pct = None, lf_distance_from52_week_low_pct = None, lf_support_level = None,
     lf_resistance_level = None, lf_distance_to_support_pct = None, lf_distance_to_resistance_pct = None,
     lf_higher_highs_higher_lows = None, lf_lower_highs_lower_lows = None\<rparr>"

definition list_max :: "rat list \<Rightarrow> rat" where "list_max xs = fold max (tl xs) (hd xs)"
definition list_min :: "rat list \<Rightarrow> rat" where "list_min xs = fold min (tl xs) (hd xs)"

definition levels_of :: "technical_config \<Rightarrow> rat list \<Rightarrow> level_features" where
  "levels_of c prices =
     (let n = length prices; L = cf_level_lookback c; year = lastn (cf_year_observations c) prices;
          window = before_last L prices;
          support = (if L < n then Some (list_min window) else None);
          resistance = (if L < n then Some (list_max window) else None);
          earlier = take L (lastn (2 * L) prices); later = lastn L prices
      in \<lparr>lf_distance_from52_week_high_pct = (if cf_year_observations c \<le> n then Some (percentage (last prices) (list_max year)) else None),
          lf_distance_from52_week_low_pct = (if cf_year_observations c \<le> n then Some (percentage (last prices) (list_min year)) else None),
          lf_support_level = support, lf_resistance_level = resistance,
          lf_distance_to_support_pct = distance_to prices support,
          lf_distance_to_resistance_pct = distance_to prices resistance,
          lf_higher_highs_higher_lows = (if 2 * L \<le> n
            then Some (list_max earlier < list_max later \<and> list_min earlier < list_min later) else None),
          lf_lower_highs_lower_lows = (if 2 * L \<le> n
            then Some (list_max later < list_max earlier \<and> list_min later < list_min earlier) else None)\<rparr>)"

record swing_features =
  wf_latest_swing_high :: "rat option"
  wf_previous_swing_high :: "rat option"
  wf_latest_swing_low :: "rat option"
  wf_previous_swing_low :: "rat option"
  wf_swing_higher_high :: "bool option"
  wf_swing_lower_high :: "bool option"
  wf_swing_higher_low :: "bool option"
  wf_swing_lower_low :: "bool option"
  wf_market_structure_state :: string

definition no_swings :: swing_features where
  "no_swings = \<lparr>wf_latest_swing_high = None, wf_previous_swing_high = None, wf_latest_swing_low = None,
     wf_previous_swing_low = None, wf_swing_higher_high = None, wf_swing_lower_high = None,
     wf_swing_higher_low = None, wf_swing_lower_low = None, wf_market_structure_state = ''INSUFFICIENT_DATA''\<rparr>"

definition nth_last :: "nat \<Rightarrow> (nat \<times> rat) list \<Rightarrow> rat option" where
  "nth_last k xs = (if k < length xs then Some (snd (rev xs ! k)) else None)"

definition compare_with :: "(rat \<Rightarrow> rat \<Rightarrow> bool) \<Rightarrow> rat option \<Rightarrow> rat option \<Rightarrow> bool option" where
  "compare_with r latest previous = (case (latest, previous) of (Some a, Some b) \<Rightarrow> Some (r a b) | _ \<Rightarrow> None)"

definition swings_of :: "technical_config \<Rightarrow> rat list \<Rightarrow> swing_features" where
  "swings_of c prices =
     (if length prices < cf_swing_pivot_window c * 2 + 1 then no_swings
      else
        let (highs, lows) = confirmed_swing_points prices (cf_swing_pivot_window c);
            h1 = nth_last 0 highs; h2 = nth_last 1 highs; l1 = nth_last 0 lows; l2 = nth_last 1 lows;
            hh = compare_with (>) h1 h2; lh = compare_with (<) h1 h2;
            hl = compare_with (>) l1 l2; ll = compare_with (<) l1 l2
        in \<lparr>wf_latest_swing_high = h1, wf_previous_swing_high = h2, wf_latest_swing_low = l1, wf_previous_swing_low = l2,
            wf_swing_higher_high = hh, wf_swing_lower_high = lh, wf_swing_higher_low = hl, wf_swing_lower_low = ll,
            wf_market_structure_state =
              (if hh = None \<or> hl = None then ''INSUFFICIENT_DATA''
               else if hh = Some True \<and> hl = Some True then ''BULLISH''
               else if lh = Some True \<and> ll = Some True then ''BEARISH'' else ''MIXED'')\<rparr>)"

section \<open>Candles and volume\<close>

record volume_features =
  vf_atr14 :: "rat option"
  vf_adx14 :: "rat option"
  vf_atr_pct :: "rat option"
  vf_volume_average20 :: "rat option"
  vf_current_volume :: "rat option"
  vf_volume_ratio20 :: "rat option"
  vf_readiness :: "(string \<times> string) list"
  vf_missing :: "string list"

definition no_volume :: volume_features where
  "no_volume = \<lparr>vf_atr14 = None, vf_adx14 = None, vf_atr_pct = None, vf_volume_average20 = None,
     vf_current_volume = None, vf_volume_ratio20 = None, vf_readiness = [], vf_missing = []\<rparr>"

definition bad_candle :: "int list \<Rightarrow> daily_bar \<Rightarrow> bool" where
  "bad_candle conflicts row =
     ((conflicts \<noteq> [] \<and> db_date row \<le> Max (set conflicts)) \<or>
      list_ex (\<lambda>v. case v of None \<Rightarrow> True | Some x \<Rightarrow> x \<le> 0) [db_open row, db_high row, db_low row, db_close row] \<or>
      the (db_high row) < the (db_low row))"

text \<open>The candles after the last bad one, and whether any was missing.\<close>

definition candle_suffix :: "int list \<Rightarrow> daily_bar list \<Rightarrow> daily_bar list \<times> bool" where
  "candle_suffix conflicts rows =
     foldl (\<lambda>(suffix, missing) row. if bad_candle conflicts row then ([], True) else (suffix @ [row], missing))
       ([], conflicts \<noteq> []) rows"

definition candle_of :: "daily_bar \<Rightarrow> candle" where
  "candle_of b = \<lparr>cn_high = fl64 (the (db_high b)), cn_low = fl64 (the (db_low b)), cn_close = fl64 (the (db_close b))\<rparr>"

definition candle_readiness :: "rat option \<Rightarrow> bool \<Rightarrow> string" where
  "candle_readiness v missing =
     (if v \<noteq> None then ''AVAILABLE'' else if missing then ''MISSING_OHLC'' else ''INSUFFICIENT_HISTORY'')"

text \<open>The volume baseline of candles: average, ratio, state of \<open>VOLUME20\<close>, missing inputs.\<close>

definition volume_baseline ::
    "int list \<Rightarrow> daily_bar list \<Rightarrow> rat option \<times> rat option \<times> string \<times> string list" where
  "volume_baseline conflicts rows =
     (let recent = lastn 21 rows
      in if length rows < 21 then (None, None, ''INSUFFICIENT_HISTORY'', [])
         else if list_ex (\<lambda>day. db_date (hd recent) \<le> day \<and> day \<le> db_date (last recent)) conflicts
         then (None, None, ''CONFLICTING'', [])
         else if list_ex (\<lambda>row. db_volume row = None) (butlast recent) then (None, None, ''MISSING_VOLUME'', [])
         else
           let average = dec28 (decimal_sum (map (\<lambda>row. of_int (the (db_volume row))) (butlast recent)) / 20)
           in case db_volume (last recent) of
                None \<Rightarrow> (Some (fl64 average), None, ''MISSING_VOLUME'', [])
              | Some v \<Rightarrow>
                  if average = 0 then (Some (fl64 average), None, ''ZERO_BASELINE'', [''NONZERO_VOLUME_BASELINE''])
                  else (Some (fl64 average), Some (fl64 (dec28 (of_int v / average))), ''AVAILABLE'', []))"

definition candles_of :: "rat option \<Rightarrow> daily_bar list \<Rightarrow> int list \<Rightarrow> volume_features" where
  "candles_of latest rows conflicts =
     (let (suffix, missing) = candle_suffix conflicts rows;
          (atr, adx) = atr_adx 14 (map candle_of suffix);
          (average, ratio, state, lacking) = volume_baseline conflicts rows
      in \<lparr>vf_atr14 = atr, vf_adx14 = adx,
          vf_atr_pct = map_option (\<lambda>a. fl64 (fl64 (100 * a) / the latest)) atr,
          vf_volume_average20 = average,
          vf_current_volume = map_option of_int (db_volume (last rows)),
          vf_volume_ratio20 = ratio,
          vf_readiness = [(''ATR14'', candle_readiness atr missing), (''ADX14'', candle_readiness adx missing), (''VOLUME20'', state)],
          vf_missing = lacking\<rparr>)"

record volume_observation =
  vo_instrument :: string
  vo_observed_at :: time
  vo_retrieved_at :: time
  vo_volume :: "rat option"
  vo_provider :: string

definition volume_ok :: "close_request \<Rightarrow> volume_observation \<Rightarrow> bool" where
  "volume_ok q row =
     (vo_instrument row = cr_instrument q \<and> (case vo_volume row of None \<Rightarrow> False | Some v \<Rightarrow> 0 \<le> v) \<and>
      vo_observed_at row \<le> cr_as_of q \<and> vo_retrieved_at row \<le> cr_as_of q \<and> trusted_row q (vo_provider row))"

definition volume_day :: "volume_observation \<Rightarrow> int" where
  "volume_day row = utc_date (vo_observed_at row)"

definition day_volumes :: "volume_observation list \<Rightarrow> rat list" where
  "day_volumes rows = remdups (map (\<lambda>r. the (vo_volume r)) (newest_rows vo_observed_at rows))"

text \<open>\<open>date.isoformat()\<close>: the civil date of a day number (0 is 1970-01-01).\<close>

definition civil_date :: "int \<Rightarrow> int \<times> int \<times> int" where
  "civil_date d =
     (let z = d + 719468; era = z div 146097; doe = z - era * 146097;
          yoe = (doe - doe div 1460 + doe div 36524 - doe div 146096) div 365;
          doy = doe - (365 * yoe + yoe div 4 - yoe div 100);
          mp = (5 * doy + 2) div 153;
          month = (if mp < 10 then mp + 3 else mp - 9)
      in (yoe + era * 400 + (if month \<le> 2 then 1 else 0), month, doy - (153 * mp + 2) div 5 + 1))"

definition zero_padded :: "nat \<Rightarrow> int \<Rightarrow> string" where
  "zero_padded n i = (let s = int_str i in replicate (n - length s) (CHR ''0'') @ s)"

definition iso_date :: "int \<Rightarrow> string" where
  "iso_date d = (case civil_date d of (y, m, dd) \<Rightarrow>
     zero_padded 4 y @ ''-'' @ zero_padded 2 m @ ''-'' @ zero_padded 2 dd)"

definition volume_of :: "close_request \<Rightarrow> volume_observation list \<Rightarrow> price_observation list \<Rightarrow> volume_features" where
  "volume_of q volumes rows =
     (let ok = filter (volume_ok q) volumes;
          days = days_of volume_day ok;
          daily = (\<lambda>day. if day \<notin> set days then None
            else case day_volumes (day_group volume_day ok day) of [v] \<Rightarrow> Some (fl64 v) | _ \<Rightarrow> None);
          conflicting = map (\<lambda>day. ''CONFLICTING_VOLUME:'' @ iso_date day)
            (filter (\<lambda>day. length (day_volumes (day_group volume_day ok day)) \<noteq> 1) days);
          latest = (if rows = [] then None else daily (price_day (last rows)));
          baseline = map (\<lambda>r. daily (price_day r)) (before_last 20 rows);
          average = (if 21 \<le> length rows \<and> None \<notin> set baseline then Some (fl64 (py_sum (map the baseline) / 20)) else None)
      in no_volume\<lparr>vf_volume_average20 := average,
           vf_current_volume := map_option repr_dec latest,
           vf_volume_ratio20 := (case (average, latest) of (Some a, Some v) \<Rightarrow> if 0 < a then Some (fl64 (v / a)) else None | _ \<Rightarrow> None),
           vf_missing := conflicting @ (if average = Some 0 then [''NONZERO_VOLUME_BASELINE''] else [])\<rparr>)"

section \<open>Classification and score\<close>

record verdict =
  vd_breakout_state :: string
  vd_technical_state :: string
  vd_technical_score :: "rat option"
  vd_score_components :: "(string \<times> rat) list"

definition no_verdict :: verdict where
  "no_verdict = \<lparr>vd_breakout_state = ''INSUFFICIENT_DATA'', vd_technical_state = ''INSUFFICIENT_DATA'',
     vd_technical_score = None, vd_score_components = []\<rparr>"

definition broke_out :: "technical_config \<Rightarrow> level_features \<Rightarrow> rat \<Rightarrow> bool" where
  "broke_out c lf price =
     (case lf_resistance_level lf of None \<Rightarrow> False | Some r \<Rightarrow> cf_breakout_buffer_pct c < percentage price r)"

definition breakout_state_of :: "technical_config \<Rightarrow> level_features \<Rightarrow> rat option \<Rightarrow> rat \<Rightarrow> string" where
  "breakout_state_of c lf ratio price =
     (if broke_out c lf price \<and> (case ratio of None \<Rightarrow> False | Some v \<Rightarrow> cf_volume_confirmation_ratio c \<le> v) then ''VOLUME_CONFIRMED''
      else if broke_out c lf price then ''PRICE_BREAKOUT''
      else if (case lf_support_level lf of None \<Rightarrow> False | Some v \<Rightarrow> percentage price v < - cf_breakout_buffer_pct c) then ''PRICE_BREAKDOWN''
      else ''NONE'')"

definition broad_up :: "technical_config \<Rightarrow> trend_features \<Rightarrow> bool" where
  "broad_up c tf =
     (tf_dma50 tf \<noteq> None \<and> cf_slope_threshold_pct c < the (tf_trend_slope50 tf) \<and>
      (tf_dma200 tf = None \<or> the (tf_dma200 tf) < the (tf_dma50 tf)))"

definition technical_state_of ::
    "technical_config \<Rightarrow> trend_features \<Rightarrow> momentum_features \<Rightarrow> level_features \<Rightarrow> rat list \<Rightarrow> string" where
  "technical_state_of c tf mf lf prices =
     (let price = last prices; up = broad_up c tf; threshold = cf_slope_threshold_pct c
      in if cf_extension_distance_pct c \<le> the (tf_distance_to_dma20_pct tf) \<and> cf_extension_rsi c \<le> the (mf_rsi14 mf) then ''OVEREXTENDED''
         else if broke_out c lf price then ''BREAKOUT''
         else if up \<and> the (tf_dma50 tf) < price \<and>
           percentage price (list_max (before_last 5 prices)) \<le> - cf_pullback_retreat_pct c \<and>
           min \<bar>the (tf_distance_to_dma20_pct tf)\<bar> \<bar>the (tf_distance_to_dma50_pct tf)\<bar> \<le> cf_pullback_proximity_pct c then ''PULLBACK_IN_UPTREND''
         else if (case tf_trend_slope50 tf of None \<Rightarrow> False | Some s \<Rightarrow> s < - threshold) \<and>
           threshold < the (tf_trend_slope20 tf) \<and> the (tf_dma20 tf) < price then ''REVERSAL_CANDIDATE''
         else if up \<and> the (tf_dma50 tf) < price then ''UPTREND''
         else if tf_dma50 tf \<noteq> None \<and> price < the (tf_dma50 tf) \<and> the (tf_trend_slope50 tf) < - threshold then ''DOWNTREND''
         else if \<bar>the (tf_trend_slope20 tf)\<bar> \<le> threshold \<and>
           percentage (list_max (lastn 20 prices)) (list_min (lastn 20 prices)) \<le> cf_base_range_pct c then ''BASE_BUILDING''
         else ''RANGE_BOUND'')"

definition alignment_score :: "rat \<Rightarrow> int" where
  "alignment_score v = (if 0 < v then 100 else if v < 0 then 0 else 50)"

definition alignments :: "trend_features \<Rightarrow> rat list" where
  "alignments tf =
     map (percentage (the (tf_latest_price tf))) (List.map_filter id [tf_dma20 tf, tf_dma50 tf]) @
     (case tf_dma200 tf of None \<Rightarrow> [] | Some d \<Rightarrow> [percentage (the (tf_dma50 tf)) d])"

definition momentum_values :: "technical_config \<Rightarrow> momentum_features \<Rightarrow> rat list" where
  "momentum_values c mf =
     (case mf_rsi14 mf of None \<Rightarrow> [] | Some r \<Rightarrow> [r]) @
     (case mf_returns mf ! 1 of None \<Rightarrow> []
      | Some r \<Rightarrow> [clamp100 (fl64 (50 + fl64 (fl64 (50 * r) / cf_momentum_full_scale_pct c)))])"

definition score_components_of ::
    "technical_config \<Rightarrow> trend_features \<Rightarrow> momentum_features \<Rightarrow> level_features \<Rightarrow> (string \<times> rat) list" where
  "score_components_of c tf mf lf =
     [(''trendAlignment'', fl64 (of_int (sum_list (map alignment_score (alignments tf))) / of_nat (length (alignments tf))))] @
     (if momentum_values c mf = [] then [] else [(''momentum'', float_mean (momentum_values c mf))]) @
     (case (lf_support_level lf, lf_resistance_level lf) of
        (Some s, Some r) \<Rightarrow>
          let span = fl64 (r - s)
          in [(''pricePosition'', if span \<noteq> 0 then clamp100 (fl64 (fl64 (100 * fl64 (the (tf_latest_price tf) - s)) / span)) else 50)]
      | _ \<Rightarrow> [])"

definition score_weight :: "technical_config \<Rightarrow> string \<Rightarrow> rat" where
  "score_weight c key =
     the (map_of (zip [''trendAlignment'', ''momentum'', ''pricePosition''] (cf_score_weights c)) key)"

definition raw_score :: "technical_config \<Rightarrow> (string \<times> rat) list \<Rightarrow> rat option" where
  "raw_score c components =
     (let tot = py_sum (map (\<lambda>(key, _). score_weight c key) components)
      in if tot = 0 then None
         else Some (fl64 (py_sum (map (\<lambda>(key, v). fl64 (v * score_weight c key)) components) / tot)))"

definition technical_score_of :: "technical_config \<Rightarrow> string \<Rightarrow> string \<Rightarrow> (string \<times> rat) list \<Rightarrow> rat option" where
  "technical_score_of c state breakout components =
     map_option (\<lambda>raw.
       let penalised = (if state = ''OVEREXTENDED'' then fl64 (raw - cf_extension_penalty c) else raw);
           boosted = (if breakout = ''VOLUME_CONFIRMED'' then fl64 (penalised + cf_volume_breakout_bonus c) else penalised)
       in round8 (clamp100 boosted)) (raw_score c components)"

definition classify_and_score ::
    "technical_config \<Rightarrow> trend_features \<Rightarrow> momentum_features \<Rightarrow> level_features \<Rightarrow> volume_features \<Rightarrow> rat list \<Rightarrow> verdict" where
  "classify_and_score c tf mf lf vf prices =
     (let breakout = breakout_state_of c lf (vf_volume_ratio20 vf) (last prices);
          state = technical_state_of c tf mf lf prices;
          components = score_components_of c tf mf lf
      in \<lparr>vd_breakout_state = breakout, vd_technical_state = state,
          vd_technical_score = technical_score_of c state breakout components,
          vd_score_components = map (\<lambda>(k, v). (k, round8 v)) components\<rparr>)"

section \<open>The snapshot of an instrument\<close>

record volume_signals =
  vs_volume_state :: string
  vs_expansion :: "bool option"
  vs_contraction :: "bool option"
  vs_breakout_confirmed :: "bool option"
  vs_reversal_confirmed :: "bool option"
  vs_confirmation :: string

definition volume_signals_of :: "technical_config \<Rightarrow> rat option \<Rightarrow> verdict \<Rightarrow> volume_signals" where
  "volume_signals_of c ratio vd =
     (let expansion = map_option (\<lambda>r. cf_volume_confirmation_ratio c \<le> r) ratio;
          contraction = map_option (\<lambda>r. r \<le> cf_volume_contraction_ratio c) ratio;
          price_signal = (vd_breakout_state vd \<in> {''PRICE_BREAKOUT'', ''VOLUME_CONFIRMED''});
          reversal = (vd_technical_state vd = ''REVERSAL_CANDIDATE'')
      in \<lparr>vs_volume_state = (if ratio = None then ''UNAVAILABLE'' else if expansion = Some True then ''EXPANSION''
            else if contraction = Some True then ''CONTRACTION'' else ''NORMAL''),
          vs_expansion = expansion, vs_contraction = contraction,
          vs_breakout_confirmed = (if price_signal then expansion else None),
          vs_reversal_confirmed = (if reversal then expansion else None),
          vs_confirmation = (if \<not> (price_signal \<or> reversal) then ''NOT_APPLICABLE''
            else if ratio = None then ''MISSING_VOLUME'' else ''AVAILABLE'')\<rparr>)"

record history_facts =
  hf_conflicts :: "int list"
  hf_current_conflict :: bool
  hf_rejected :: nat
  hf_duplicates :: nat
  hf_currency :: "string option"
  hf_quarantined :: "int list"
  hf_missing :: "int list"
  hf_valid_until :: "time option"

definition facts_of :: "'a price_history \<Rightarrow> history_facts" where
  "facts_of h = \<lparr>hf_conflicts = ph_conflicting_dates h, hf_current_conflict = ph_current_conflict h, hf_rejected = ph_rejected h,
     hf_duplicates = ph_duplicates h, hf_currency = ph_currency h, hf_quarantined = ph_quarantined_dates h,
     hf_missing = ph_missing_dates h, hf_valid_until = ph_valid_until h\<rparr>"

fun history_facts_of :: "history \<Rightarrow> history_facts" where
  "history_facts_of (Daily h) = facts_of h"
| "history_facts_of (Closes h) = facts_of h"

fun prices_of :: "history \<Rightarrow> rat list" where
  "prices_of (Daily h) = map (\<lambda>b. fl64 (the (db_close b))) (ph_observations h)"
| "prices_of (Closes h) = map (\<lambda>r. fl64 (po_price r)) (ph_observations h)"

text \<open>Display stamps: midnight of the exchange date, or the observation itself.\<close>

fun stamps_of :: "zone_utc \<Rightarrow> history \<Rightarrow> time option list" where
  "stamps_of utc (Daily h) = map (\<lambda>b. utc ''Asia/Kolkata'' (db_date b) 0) (ph_observations h)"
| "stamps_of utc (Closes h) = map (\<lambda>r. Some (po_observed_at r)) (ph_observations h)"

fun trading_dates :: "history \<Rightarrow> int list" where
  "trading_dates (Daily h) = map db_date (ph_observations h)"
| "trading_dates (Closes h) = []"

fun outdated :: "(time \<Rightarrow> int) \<Rightarrow> technical_config \<Rightarrow> close_request \<Rightarrow> history \<Rightarrow> bool" where
  "outdated ist c q (Daily h) =
     (ph_observations h \<noteq> [] \<and>
      (if or_text (cr_market q) \<noteq> [] then past_validity (ph_valid_until h) (cr_as_of q)
       else int (cf_max_age_days c) < ist (cr_as_of q) - db_date (last (ph_observations h))))"
| "outdated ist c q (Closes h) =
     (ph_observations h \<noteq> [] \<and>
      (if or_text (cr_market q) \<noteq> [] then past_validity (ph_valid_until h) (cr_as_of q)
       else int (cf_max_age_days c) * day_us < cr_as_of q - po_observed_at (last (ph_observations h))))"

definition usable_history :: "history \<Rightarrow> bool" where
  "usable_history h =
     (prices_of h \<noteq> [] \<and> \<not> hf_current_conflict (history_facts_of h) \<and> hf_missing (history_facts_of h) = [])"

fun volume_features_of :: "close_request \<Rightarrow> volume_observation list \<Rightarrow> history \<Rightarrow> volume_features" where
  "volume_features_of q volumes (Daily h) =
     candles_of (Some (last (prices_of (Daily h)))) (ph_observations h) (ph_conflicting_dates h)"
| "volume_features_of q volumes (Closes h) = volume_of q volumes (ph_observations h)"

definition history_readiness_of :: "history \<Rightarrow> string" where
  "history_readiness_of h =
     (let n = length (prices_of h)
      in if hf_missing (history_facts_of h) \<noteq> [] then ''INCOMPLETE_HISTORY''
         else if 200 \<le> n then ''FULL_HISTORY'' else if 100 \<le> n then ''EXTENDED_HISTORY''
         else if 50 \<le> n then ''MEDIUM_HISTORY'' else if 20 \<le> n then ''SHORT_HISTORY'' else ''INSUFFICIENT_HISTORY'')"

definition set_default :: "'k \<Rightarrow> 'v \<Rightarrow> ('k \<times> 'v) list \<Rightarrow> ('k \<times> 'v) list" where
  "set_default k v d = (if map_of d k = None then d @ [(k, v)] else d)"

definition feature_readiness_of ::
    "technical_config \<Rightarrow> nat \<Rightarrow> bool \<Rightarrow> bool \<Rightarrow> bool \<Rightarrow> volume_features \<Rightarrow> volume_signals \<Rightarrow> (string \<times> string) list" where
  "feature_readiness_of c n usable_now conflict stale vf vs =
     (let minima = [(''RSI14'', 15), (''MA20'', 20), (''MA50'', 50), (''MA100'', 100), (''MA200'', 200),
            (''BREAKOUT'', cf_level_lookback c + 1), (''SWING_STRUCTURE'', cf_swing_pivot_window c * 2 + 1)];
          d1 = dset ''VOLUME_CONFIRMATION'' (vs_confirmation vs) (vf_readiness vf);
          d2 = fold (\<lambda>(name, least). dset name (if usable_now \<and> least \<le> n then ''AVAILABLE'' else ''INSUFFICIENT_HISTORY'')) minima d1;
          d3 = set_default ''ADX14'' ''MISSING_OHLC'' (set_default ''ATR14'' ''MISSING_OHLC'' d2);
          d4 = set_default ''VOLUME20'' (if vf_volume_ratio20 vf \<noteq> None then ''AVAILABLE'' else ''MISSING_VOLUME'') d3
      in map (\<lambda>(k, v). (k, if conflict then ''CONFLICTING'' else if stale \<and> v = ''AVAILABLE'' then ''STALE'' else v)) d4)"

text \<open>The features whose state is reported, by alias, and whether they have a value.\<close>

definition reported_features ::
    "trend_features \<Rightarrow> momentum_features \<Rightarrow> level_features \<Rightarrow> swing_features \<Rightarrow> volume_features \<Rightarrow> (string \<times> bool) list" where
  "reported_features tf mf lf sw vf =
     [(''latestPrice'', tf_latest_price tf \<noteq> None), (''dma20'', tf_dma20 tf \<noteq> None), (''dma50'', tf_dma50 tf \<noteq> None),
      (''dma100'', tf_dma100 tf \<noteq> None), (''dma200'', tf_dma200 tf \<noteq> None), (''rsi14'', mf_rsi14 mf \<noteq> None),
      (''macd'', mf_macd mf \<noteq> None), (''macdSignal'', mf_macd_signal mf \<noteq> None), (''macdHistogram'', mf_macd_histogram mf \<noteq> None),
      (''adx14'', vf_adx14 vf \<noteq> None), (''atr14'', vf_atr14 vf \<noteq> None), (''atrPct'', vf_atr_pct vf \<noteq> None),
      (''trendSlope20'', tf_trend_slope20 tf \<noteq> None), (''trendSlope50'', tf_trend_slope50 tf \<noteq> None)] @
     zip [''return1W'', ''return1M'', ''return3M'', ''return6M'', ''return1Y''] (map (\<lambda>r. r \<noteq> None) (mf_returns mf)) @
     [(''volumeAverage20'', vf_volume_average20 vf \<noteq> None), (''volumeRatio20'', vf_volume_ratio20 vf \<noteq> None),
      (''supportLevel'', lf_support_level lf \<noteq> None), (''resistanceLevel'', lf_resistance_level lf \<noteq> None),
      (''distanceToSupportPct'', lf_distance_to_support_pct lf \<noteq> None),
      (''distanceToResistancePct'', lf_distance_to_resistance_pct lf \<noteq> None),
      (''higherHighsHigherLows'', lf_higher_highs_higher_lows lf \<noteq> None),
      (''lowerHighsLowerLows'', lf_lower_highs_lower_lows lf \<noteq> None),
      (''distanceFrom52WeekHighPct'', lf_distance_from52_week_high_pct lf \<noteq> None),
      (''distanceFrom52WeekLowPct'', lf_distance_from52_week_low_pct lf \<noteq> None),
      (''latestSwingHigh'', wf_latest_swing_high sw \<noteq> None), (''previousSwingHigh'', wf_previous_swing_high sw \<noteq> None),
      (''latestSwingLow'', wf_latest_swing_low sw \<noteq> None), (''previousSwingLow'', wf_previous_swing_low sw \<noteq> None),
      (''distanceToDma20Pct'', tf_distance_to_dma20_pct tf \<noteq> None), (''distanceToDma50Pct'', tf_distance_to_dma50_pct tf \<noteq> None),
      (''distanceToDma100Pct'', tf_distance_to_dma100_pct tf \<noteq> None), (''distanceToDma200Pct'', tf_distance_to_dma200_pct tf \<noteq> None)]"

definition core_count :: "trend_features \<Rightarrow> momentum_features \<Rightarrow> nat" where
  "core_count tf mf =
     length (filter (\<lambda>v. v \<noteq> None)
       ([tf_dma20 tf, tf_dma50 tf, tf_dma100 tf, tf_dma200 tf, mf_rsi14 mf, mf_macd_signal mf] @ tl (mf_returns mf) @
        [tf_trend_slope20 tf, tf_trend_slope50 tf]))"

definition confidence_of :: "nat \<Rightarrow> history_facts \<Rightarrow> bool \<Rightarrow> nat \<Rightarrow> rat" where
  "confidence_of n hf stale core =
     (let coverage = fl64 (of_nat core / 12);
          factor = (if n = 0 then 0 else fl64 (of_nat n / of_nat (n + length (hf_conflicts hf) + length (hf_quarantined hf))));
          x = fl64 (fl64 (fl64 (100 * coverage) * factor) * (if stale then 1 / 2 else 1))
      in fl64 (quantize 6 x))"

definition round_trend :: "trend_features \<Rightarrow> trend_features" where
  "round_trend t = (let r = map_option round8 in
     \<lparr>tf_latest_price = r (tf_latest_price t), tf_dma20 = r (tf_dma20 t), tf_dma50 = r (tf_dma50 t), tf_dma100 = r (tf_dma100 t),
      tf_dma200 = r (tf_dma200 t), tf_distance_to_dma20_pct = r (tf_distance_to_dma20_pct t),
      tf_distance_to_dma50_pct = r (tf_distance_to_dma50_pct t), tf_distance_to_dma100_pct = r (tf_distance_to_dma100_pct t),
      tf_distance_to_dma200_pct = r (tf_distance_to_dma200_pct t), tf_trend_slope20 = r (tf_trend_slope20 t),
      tf_trend_slope50 = r (tf_trend_slope50 t)\<rparr>)"

definition round_momentum :: "momentum_features \<Rightarrow> momentum_features" where
  "round_momentum m = (let r = map_option round8 in
     \<lparr>mf_rsi14 = r (mf_rsi14 m), mf_macd = r (mf_macd m), mf_macd_signal = r (mf_macd_signal m),
      mf_macd_histogram = r (mf_macd_histogram m), mf_returns = map r (mf_returns m)\<rparr>)"

definition round_levels :: "level_features \<Rightarrow> level_features" where
  "round_levels l = (let r = map_option round8 in
     l\<lparr>lf_distance_from52_week_high_pct := r (lf_distance_from52_week_high_pct l),
       lf_distance_from52_week_low_pct := r (lf_distance_from52_week_low_pct l),
       lf_support_level := r (lf_support_level l), lf_resistance_level := r (lf_resistance_level l),
       lf_distance_to_support_pct := r (lf_distance_to_support_pct l),
       lf_distance_to_resistance_pct := r (lf_distance_to_resistance_pct l)\<rparr>)"

definition round_swings :: "swing_features \<Rightarrow> swing_features" where
  "round_swings w = (let r = map_option round8 in
     w\<lparr>wf_latest_swing_high := r (wf_latest_swing_high w), wf_previous_swing_high := r (wf_previous_swing_high w),
       wf_latest_swing_low := r (wf_latest_swing_low w), wf_previous_swing_low := r (wf_previous_swing_low w)\<rparr>)"

definition round_volume :: "volume_features \<Rightarrow> volume_features" where
  "round_volume v = (let r = map_option round8 in
     v\<lparr>vf_atr14 := r (vf_atr14 v), vf_adx14 := r (vf_adx14 v), vf_atr_pct := r (vf_atr_pct v),
       vf_volume_average20 := r (vf_volume_average20 v), vf_volume_ratio20 := r (vf_volume_ratio20 v)\<rparr>)"

record feature_snapshot =
  fx_instrument :: string
  fx_as_of :: time
  fx_input_source :: string
  fx_price_basis :: string
  fx_diagnostics :: "string list"
  fx_daily_bar_count :: nat
  fx_trading_start :: "int option"
  fx_trading_end :: "int option"
  fx_observation_count :: nat
  fx_history_start :: "time option"
  fx_history_end :: "time option"
  fx_history_readiness :: string
  fx_currency :: "string option"
  fx_trend :: trend_features
  fx_momentum :: momentum_features
  fx_levels :: level_features
  fx_swings :: swing_features
  fx_volume :: volume_features
  fx_signals :: volume_signals
  fx_verdict :: verdict
  fx_confidence :: rat
  fx_coverage :: rat
  fx_states :: "(string \<times> string) list"
  fx_readiness :: "(string \<times> string) list"
  fx_missing :: "string list"
  fx_stale :: "string list"
  fx_conflicting_dates :: "int list"
  fx_rejected :: nat
  fx_duplicates :: nat
  fx_quarantined :: "int list"

definition ohlcv_coverage :: "volume_features \<Rightarrow> rat" where
  "ohlcv_coverage vf =
     fl64 (of_nat (100 * length (filter (\<lambda>v. v \<noteq> None) [vf_atr14 vf, vf_adx14 vf, vf_volume_ratio20 vf])) / 3)"

definition diagnostics_of :: "string option \<Rightarrow> nat \<Rightarrow> bool \<Rightarrow> history_facts \<Rightarrow> string list" where
  "diagnostics_of reason rejected_bars use_daily hf =
     (case reason of None \<Rightarrow> [] | Some r \<Rightarrow> [r]) @
     (if rejected_bars \<noteq> 0 then [''INELIGIBLE_DAILY_BARS_EXCLUDED''] else []) @
     (if use_daily \<and> hf_conflicts hf \<noteq> [] then [''MIXED_NOT_ALLOWED''] else []) @
     (if hf_quarantined hf \<noteq> [] then [''QUARANTINED_IMPLAUSIBLE_OBSERVATIONS_EXCLUDED''] else [])"

definition price_basis_of :: "close_request \<Rightarrow> bool \<Rightarrow> string" where
  "price_basis_of q use_daily =
     (if use_daily then ''PERSISTED_NSE_DAILY_CLOSE_UNADJUSTED''
      else if or_text (cr_market q) \<noteq> [] then ''PERSISTED_YAHOO_DAILY_CLOSE_UNADJUSTED''
      else ''CANONICAL_PERSISTED_PRICE_UNADJUSTED'')"

text \<open>The unrounded feature groups, empty without a usable history.\<close>

record feature_parts =
  fp_trend :: trend_features
  fp_momentum :: momentum_features
  fp_levels :: level_features
  fp_swings :: swing_features
  fp_volume :: volume_features
  fp_verdict :: verdict

definition feature_parts_of ::
    "(time \<Rightarrow> int) \<Rightarrow> technical_config \<Rightarrow> close_request \<Rightarrow> volume_observation list \<Rightarrow> history \<Rightarrow> feature_parts" where
  "feature_parts_of ist c q volumes h =
     (if usable_history h then
        let prices = prices_of h; tf = trend_of prices; mf = momentum_of c prices; lf = levels_of c prices;
            vf = volume_features_of q volumes h
        in \<lparr>fp_trend = tf, fp_momentum = mf, fp_levels = lf, fp_swings = swings_of c prices, fp_volume = vf,
            fp_verdict = (if \<not> outdated ist c q h \<and> 20 \<le> length prices then classify_and_score c tf mf lf vf prices else no_verdict)\<rparr>
      else \<lparr>fp_trend = no_trend, fp_momentum = no_momentum, fp_levels = no_levels, fp_swings = no_swings, fp_volume = no_volume,
            fp_verdict = no_verdict\<rparr>)"

text \<open>The snapshot of a selected history; \<open>daily\<close> is the normalized candle history, selected or not.\<close>

definition features_of ::
    "(time \<Rightarrow> int) \<Rightarrow> zone_utc \<Rightarrow> technical_config \<Rightarrow> close_request \<Rightarrow> volume_observation list \<Rightarrow>
     history \<times> daily_bar price_history \<times> bool \<times> string option \<Rightarrow> feature_snapshot" where
  "features_of ist utc c q volumes selection =
     (case selection of (h, daily, use_daily, reason) \<Rightarrow>
        let hf = history_facts_of h; n = length (prices_of h); stamps = stamps_of utc h; dates = trading_dates h;
            ok = usable_history h; stale = outdated ist c q h; p = feature_parts_of ist c q volumes h;
            vs = volume_signals_of c (vf_volume_ratio20 (fp_volume p)) (fp_verdict p);
            readiness = feature_readiness_of c n ok (hf_current_conflict hf) stale (fp_volume p) vs;
            reported = reported_features (fp_trend p) (fp_momentum p) (fp_levels p) (fp_swings p) (fp_volume p)
        in \<lparr>fx_instrument = cr_instrument q, fx_as_of = cr_as_of q,
            fx_input_source = (if use_daily then ''DAILY_MARKET_BAR_NSE'' else ''CLOSE_ONLY_FALLBACK''),
            fx_price_basis = price_basis_of q use_daily,
            fx_diagnostics = diagnostics_of reason (ph_rejected daily) use_daily hf,
            fx_daily_bar_count = length (ph_observations daily),
            fx_trading_start = (if dates = [] then None else Some (hd dates)),
            fx_trading_end = last_opt dates,
            fx_observation_count = n,
            fx_history_start = (if stamps = [] then None else hd stamps),
            fx_history_end = (if stamps = [] then None else last stamps),
            fx_history_readiness = history_readiness_of h,
            fx_currency = hf_currency hf,
            fx_trend = round_trend (fp_trend p), fx_momentum = round_momentum (fp_momentum p),
            fx_levels = round_levels (fp_levels p), fx_swings = round_swings (fp_swings p),
            fx_volume = round_volume (fp_volume p), fx_signals = vs,
            fx_verdict = (fp_verdict p)\<lparr>vd_technical_score := map_option round8 (vd_technical_score (fp_verdict p))\<rparr>,
            fx_confidence = (if ok then round8 (confidence_of n hf stale (core_count (fp_trend p) (fp_momentum p))) else 0),
            fx_coverage = round8 (ohlcv_coverage (fp_volume p)),
            fx_states = map (\<lambda>(k, present). (k, if hf_current_conflict hf then ''CONFLICTING'' else if \<not> present then ''MISSING''
              else if stale then ''STALE'' else ''AVAILABLE'')) reported,
            fx_readiness = readiness,
            fx_missing = sorted_set ((if hf_missing hf \<noteq> [] then [''HISTORY_SESSION_GAPS''] else []) @ vf_missing (fp_volume p) @
              map fst (filter (\<lambda>(_, present). \<not> present) reported) @
              (if \<not> use_daily \<or> ''MISSING_OHLC'' \<in> snd ` set readiness then [''PERSISTED_OHLC''] else []) @
              (if vf_volume_average20 (fp_volume p) = None then [''PERSISTED_VOLUME_HISTORY''] else [])),
            fx_stale = (if stale then [''PRICE_HISTORY''] else []),
            fx_conflicting_dates = hf_conflicts hf, fx_rejected = hf_rejected hf, fx_duplicates = hf_duplicates hf,
            fx_quarantined = hf_quarantined hf\<rparr>)"

definition compute_features ::
    "(string \<Rightarrow> url) \<Rightarrow> (time \<Rightarrow> int) \<Rightarrow> zone_local \<Rightarrow> zone_utc \<Rightarrow> technical_config \<Rightarrow> close_request \<Rightarrow>
     price_observation list \<Rightarrow> volume_observation list \<Rightarrow> daily_bar list \<Rightarrow> feature_snapshot" where
  "compute_features parse ist local utc c q rows volumes bars =
     features_of ist utc c q volumes (select_price_history parse ist local utc (int (cf_max_age_days c)) q rows bars)"

section \<open>Indicators stay in their range\<close>

lemma float_nonneg: "0 \<le> x \<Longrightarrow> 0 \<le> fl64 x"
  by (simp add: fl64_def rnd_sig_nonneg)

lemma float_mean_nonneg:
  assumes "length xs \<le> 100000" and "\<And>x. x \<in> set xs \<Longrightarrow> 0 \<le> x \<and> fl64 x = x"
  shows "0 \<le> float_mean xs"
  using py_sum_nonneg[OF assms] by (simp add: float_mean_def float_nonneg)

lemma wilder_next_nonneg: "0 \<le> prev \<Longrightarrow> 0 \<le> v \<Longrightarrow> 0 \<le> wilder_next period prev v"
  unfolding wilder_next_def by (intro float_nonneg divide_nonneg_nonneg add_nonneg_nonneg mult_nonneg_nonneg) simp_all

lemma rsi_steps_nonneg:
  "0 \<le> fst gl \<Longrightarrow> 0 \<le> snd gl \<Longrightarrow>
     0 \<le> fst (foldl (rsi_step p) gl changes) \<and> 0 \<le> snd (foldl (rsi_step p) gl changes)"
  by (induction changes arbitrary: gl) (simp_all add: rsi_step_def wilder_next_nonneg)

lemma rsi_of_range:
  assumes "0 \<le> fst gl" "0 \<le> snd gl"
  shows "0 \<le> rsi_of gl \<and> rsi_of gl \<le> 100"
proof -
  obtain gain loss where gl: "gl = (gain, loss)" by fastforce
  define d where "d = fl64 (1 + fl64 (gain / loss))"
  have "0 \<le> fl64 (gain / loss)" using assms by (intro float_nonneg) (simp add: gl)
  then have "fl64 1 \<le> d" unfolding d_def by (intro binary64.rnd_mono) simp
  then have d: "1 \<le> d" by simp
  then have "0 \<le> 100 / d" "100 / d \<le> 100" by (simp_all add: divide_le_eq)
  then have "0 \<le> fl64 (100 / d)" "fl64 (100 / d) \<le> fl64 100"
    by (simp_all add: float_nonneg binary64.rnd_mono del: fl64_numeral)
  then have "0 \<le> 100 - fl64 (100 / d)" "100 - fl64 (100 / d) \<le> 100" by simp_all
  then have "0 \<le> fl64 (100 - fl64 (100 / d))" "fl64 (100 - fl64 (100 / d)) \<le> fl64 100"
    by (simp_all add: float_nonneg binary64.rnd_mono del: fl64_numeral)
  then show ?thesis by (simp add: rsi_of_def gl d_def)
qed

lemma rsi_range:
  assumes "rsi p vs = Some r" and "p \<le> 100000"
  shows "0 \<le> r \<and> r \<le> 100"
proof -
  define cs where "cs = float_changes vs"
  have fl: "fl64 c = c" if "c \<in> set cs" for c using that by (auto simp: cs_def float_changes_def fl64_idem)
  have m: "0 \<le> float_mean (map (\<lambda>v. max (f v) 0) (take p cs))" if "\<And>c. c \<in> set cs \<Longrightarrow> fl64 (f c) = f c" for f
    by (rule float_mean_nonneg) (use assms(2) that in \<open>auto simp: max_def dest: in_set_takeD\<close>)
  define start where "start = (float_mean (map (\<lambda>v. max v 0) (take p cs)), float_mean (map (\<lambda>v. max (- v) 0) (take p cs)))"
  have "0 \<le> fst start" "0 \<le> snd start"
    using m[of "\<lambda>v. v"] m[of uminus] fl by (simp_all add: start_def fl64_minus)
  then have "0 \<le> rsi_of (foldl (rsi_step p) start (drop p cs)) \<and> rsi_of (foldl (rsi_step p) start (drop p cs)) \<le> 100"
    using rsi_steps_nonneg rsi_of_range by blast
  then show ?thesis using assms(1) by (auto simp: rsi_def cs_def start_def Let_def split: if_splits)
qed

lemma clamp100_range: "0 \<le> clamp100 x \<and> clamp100 x \<le> 100"
  by (simp add: clamp100_def)

definition percent_opt :: "rat option \<Rightarrow> bool" where
  "percent_opt v = (case v of None \<Rightarrow> True | Some x \<Rightarrow> 0 \<le> x \<and> x \<le> 100)"

lemma percent_opt_simps [simp]: "percent_opt None" "percent_opt (Some x) \<longleftrightarrow> 0 \<le> x \<and> x \<le> 100"
  by (simp_all add: percent_opt_def)

lemma round8_percent: "0 \<le> x \<Longrightarrow> x \<le> 100 \<Longrightarrow> 0 \<le> round8 x \<and> round8 x \<le> 100"
  using round8_range[of x] by linarith

lemma percent_round8: "percent_opt v \<Longrightarrow> percent_opt (map_option round8 v)"
  using round8_percent by (cases v) simp_all

section \<open>Swing points\<close>

lemma pivot_append: "i + w < length prices \<Longrightarrow> pivot beyond (prices @ later) w i = pivot beyond prices w i"
  by (simp add: pivot_def nth_append)

lemma filter_upt_less: "filter (\<lambda>i. i < m) [a..<b] = [a..<min m b]"
  by (induction b) (auto simp: min_def le_Suc_eq)

text \<open>A confirmed swing point is final: whatever prices follow, the swing highs and lows confirmed so far stay
  confirmed, and no other point of the same window is confirmed later.\<close>

theorem swing_points_are_final:
  "confirmed_swing_points prices w =
     map_prod (filter (\<lambda>p. fst p + w < length prices)) (filter (\<lambda>p. fst p + w < length prices))
       (confirmed_swing_points (prices @ later) w)"
proof -
  let ?all = "[w..<length (prices @ later) - w]" and ?n = "length prices - w"
  have upt: "filter (\<lambda>i. i + w < length prices) ?all = [w..<?n]"
  proof -
    have "(\<lambda>i. i + w < length prices) = (\<lambda>i. i < ?n)" by auto
    then show ?thesis by (simp only: filter_upt_less) (simp add: min_def)
  qed
  have "filter (\<lambda>p. fst p + w < length prices) (map (\<lambda>i. (i, (prices @ later) ! i)) (filter (pivot r (prices @ later) w) ?all)) =
      map (\<lambda>i. (i, prices ! i)) (filter (pivot r prices w) [w..<?n])" for r
  proof -
    have "filter (\<lambda>p. fst p + w < length prices) (map (\<lambda>i. (i, (prices @ later) ! i)) (filter (pivot r (prices @ later) w) ?all)) =
        map (\<lambda>i. (i, (prices @ later) ! i)) (filter (pivot r (prices @ later) w) (filter (\<lambda>i. i + w < length prices) ?all))"
      by (simp add: filter_map comp_def conj_commute)
    also have "\<dots> = map (\<lambda>i. (i, (prices @ later) ! i)) (filter (pivot r prices w) [w..<?n])"
      unfolding upt by (intro arg_cong[where f = "map _"] filter_cong) (auto simp: pivot_append)
    also have "\<dots> = map (\<lambda>i. (i, prices ! i)) (filter (pivot r prices w) [w..<?n])"
      by (rule map_cong) (auto simp: nth_append)
    finally show ?thesis .
  qed
  then show ?thesis by (simp add: confirmed_swing_points_def Let_def)
qed

section \<open>Only what is known\<close>

definition known_volume :: "close_request \<Rightarrow> volume_observation \<Rightarrow> bool" where
  "known_volume q v = (vo_observed_at v \<le> cr_as_of q \<and> vo_retrieved_at v \<le> cr_as_of q)"

lemma volume_of_known: "volume_of q (filter (known_volume q) volumes) rows = volume_of q volumes rows"
proof -
  have "filter (volume_ok q) (filter (known_volume q) volumes) = filter (volume_ok q) volumes"
    by (rule filter_implied) (simp add: volume_ok_def known_volume_def)
  then show ?thesis by (simp add: volume_of_def Let_def)
qed

text \<open>The snapshot but for the counts of rejected rows.\<close>

definition uncounted_features :: "feature_snapshot \<Rightarrow> feature_snapshot" where
  "uncounted_features f = f\<lparr>fx_rejected := 0, fx_diagnostics := filter (\<lambda>d. d \<noteq> ''INELIGIBLE_DAILY_BARS_EXCLUDED'') (fx_diagnostics f)\<rparr>"

lemma uncounted_sels:
  "ph_observations (uncounted h) = ph_observations h" "ph_conflicting_dates (uncounted h) = ph_conflicting_dates h"
  "ph_valid_until (uncounted h) = ph_valid_until h"
  by (simp_all add: uncounted_def)

lemma uncounted_history_sels:
  "prices_of (uncounted_history h) = prices_of h" "stamps_of utc (uncounted_history h) = stamps_of utc h"
  "trading_dates (uncounted_history h) = trading_dates h" "outdated ist c q (uncounted_history h) = outdated ist c q h"
  "volume_features_of q volumes (uncounted_history h) = volume_features_of q volumes h"
  "history_facts_of (uncounted_history h) = (history_facts_of h)\<lparr>hf_rejected := 0\<rparr>"
  by (cases h; simp add: uncounted_sels facts_of_def; simp add: uncounted_def)+

lemma uncounted_history_usable:
  "usable_history (uncounted_history h) = usable_history h" "history_readiness_of (uncounted_history h) = history_readiness_of h"
  by (simp_all add: usable_history_def history_readiness_of_def uncounted_history_sels)

lemma confidence_uncounted: "confidence_of n (hf\<lparr>hf_rejected := 0\<rparr>) stale core = confidence_of n hf stale core"
  by (simp add: confidence_of_def)

lemma diagnostics_uncounted:
  "filter (\<lambda>d. d \<noteq> ''INELIGIBLE_DAILY_BARS_EXCLUDED'') (diagnostics_of r 0 u (hf\<lparr>hf_rejected := 0\<rparr>)) =
   filter (\<lambda>d. d \<noteq> ''INELIGIBLE_DAILY_BARS_EXCLUDED'') (diagnostics_of r n u hf)"
  by (simp add: diagnostics_of_def)

lemma parts_uncounted: "feature_parts_of ist c q volumes (uncounted_history h) = feature_parts_of ist c q volumes h"
  by (simp add: feature_parts_of_def uncounted_history_sels uncounted_history_usable)

lemma features_uncounted:
  "uncounted_features (features_of ist utc c q volumes (uncounted_selection s)) = uncounted_features (features_of ist utc c q volumes s)"
proof -
  obtain h d u r where s: "s = (h, d, u, r)" by (cases s) auto
  have "ph_rejected (uncounted d) = 0" by (simp add: uncounted_def)
  then show ?thesis
    unfolding s uncounted_selection_def features_of_def prod.case Let_def uncounted_features_def
    by (simp add: uncounted_history_sels uncounted_history_usable parts_uncounted confidence_uncounted diagnostics_uncounted
        uncounted_sels)
qed

lemma volume_features_known: "volume_features_of q (filter (known_volume q) volumes) h = volume_features_of q volumes h"
  by (cases h) (simp_all add: volume_of_known)

lemma features_known: "features_of ist utc c q (filter (known_volume q) volumes) s = features_of ist utc c q volumes s"
proof -
  have "feature_parts_of ist c q (filter (known_volume q) volumes) h = feature_parts_of ist c q volumes h" for h
    by (simp add: feature_parts_of_def volume_features_known)
  then show ?thesis by (simp add: features_of_def)
qed

text \<open>The features of an instrument do not look ahead: prices, volumes and candles that were observed or retrieved
  after the instant of the request (candles: or dated after its day) change nothing but the counts of rejected rows.\<close>

lemma features_have_no_lookahead:
  "uncounted_features (compute_features parse ist local utc c q (filter (known_price q) rows)
     (filter (known_volume q) volumes) (filter (known_bar ist q) bars)) =
   uncounted_features (compute_features parse ist local utc c q rows volumes bars)"
proof -
  let ?sel = "select_price_history parse ist local utc (int (cf_max_age_days c)) q"
  have "uncounted_features (features_of ist utc c q volumes (?sel (filter (known_price q) rows) (filter (known_bar ist q) bars))) =
      uncounted_features (features_of ist utc c q volumes (?sel rows bars))"
    using features_uncounted select_known by metis
  then show ?thesis by (simp add: compute_features_def features_known)
qed

section \<open>What a snapshot can say\<close>

text \<open>\<open>round(x, 6)\<close> keeps a percentage.\<close>

lemma percent_float: "0 \<le> x \<Longrightarrow> x \<le> 100 \<Longrightarrow> 0 \<le> fl64 x \<and> fl64 x \<le> 100"
  using float_nonneg[of x] binary64.rnd_mono[of x 100] by simp

lemma rounded_percent:
  assumes "0 \<le> x" "x \<le> 100"
  shows "0 \<le> fl64 (quantize 6 x) \<and> fl64 (quantize 6 x) \<le> 100"
proof -
  have "0 \<le> quantize 6 x" using quantum.rnd_ge[of 0 6 x] assms(1) by (auto intro: exI[of _ 0])
  moreover have "quantize 6 x \<le> 100" using quantum.rnd_le[of 100 6 x] assms(2) by (auto intro: exI[of _ 100000000])
  ultimately show ?thesis by (rule percent_float)
qed

lemma confidence_range:
  assumes "core \<le> 12"
  shows "0 \<le> confidence_of n hf stale core \<and> confidence_of n hf stale core \<le> 100"
proof -
  define cov where "cov = fl64 (of_nat core / 12)"
  define fac where "fac = (if n = 0 then 0 else fl64 (of_nat n / of_nat (n + length (hf_conflicts hf) + length (hf_quarantined hf))))"
  have unit: "0 \<le> fl64 x \<and> fl64 x \<le> 1" if "0 \<le> x" "x \<le> 1" for x
    using float_nonneg[OF that(1)] binary64.rnd_mono[OF that(2)] by simp
  have "of_nat core \<le> (12 :: rat)" using assms by (metis of_nat_le_iff of_nat_numeral)
  then have cov: "0 \<le> cov" "cov \<le> 1" unfolding cov_def using unit[of "of_nat core / 12"] by simp_all
  have fac: "0 \<le> fac" "fac \<le> 1"
    unfolding fac_def using unit[of "of_nat n / of_nat (n + length (hf_conflicts hf) + length (hf_quarantined hf))"]
    by (auto simp: divide_le_eq)
  have shrink: "0 \<le> a * b \<and> a * b \<le> 100" if "0 \<le> a" "a \<le> 100" "0 \<le> b" "b \<le> 1" for a b :: rat
    using mult_left_mono[OF that(4,1)] that by simp
  have 1: "0 \<le> fl64 (100 * cov)" "fl64 (100 * cov) \<le> 100" using percent_float[of "100 * cov"] cov by simp_all
  have 2: "0 \<le> fl64 (fl64 (100 * cov) * fac)" "fl64 (fl64 (100 * cov) * fac) \<le> 100"
    using percent_float shrink[OF 1 fac] by blast+
  define x where "x = fl64 (fl64 (fl64 (100 * cov) * fac) * (if stale then 1 / 2 else 1))"
  have x: "0 \<le> x" "x \<le> 100" unfolding x_def using percent_float shrink[OF 2, of "if stale then 1 / 2 else 1"] by simp_all
  show ?thesis using rounded_percent[OF x] by (simp add: confidence_of_def cov_def fac_def x_def Let_def)
qed

lemma core_count_le: "length (mf_returns mf) = 5 \<Longrightarrow> core_count tf mf \<le> 12"
  unfolding core_count_def by (rule order_trans[OF length_filter_le]) simp

lemma parts_in_range:
  assumes p_def: "p = feature_parts_of ist c q volumes h"
  shows "percent_opt (mf_rsi14 (fp_momentum p))" and "percent_opt (vf_adx14 (fp_volume p))"
    and "percent_opt (vd_technical_score (fp_verdict p))"
    and "case vf_atr14 (fp_volume p) of None \<Rightarrow> True | Some a \<Rightarrow> 0 \<le> a"
    and "valid_config c \<Longrightarrow> length (mf_returns (fp_momentum p)) = 5"
proof -
  have adx: "percent_opt (snd (atr_adx 14 cs)) \<and> (case fst (atr_adx 14 cs) of None \<Rightarrow> True | Some a \<Rightarrow> 0 \<le> a)" for cs
    by (simp add: atr_adx_def Let_def clamp100_range)
  have "percent_opt (vf_adx14 (volume_features_of q volumes h)) \<and>
      (case vf_atr14 (volume_features_of q volumes h) of None \<Rightarrow> True | Some a \<Rightarrow> 0 \<le> a)"
    using adx by (cases h) (simp_all add: candles_of_def volume_of_def no_volume_def Let_def split_def)
  then show "percent_opt (vf_adx14 (fp_volume p))" "case vf_atr14 (fp_volume p) of None \<Rightarrow> True | Some a \<Rightarrow> 0 \<le> a"
    by (simp_all add: p_def feature_parts_of_def no_volume_def Let_def)
  have "percent_opt (rsi 14 xs)" for xs using rsi_range[of 14 xs] by (cases "rsi 14 xs") simp_all
  then show "percent_opt (mf_rsi14 (fp_momentum p))"
    by (simp add: p_def feature_parts_of_def no_momentum_def momentum_of_def Let_def)
  have "percent_opt (technical_score_of c st br cs)" for st br cs
    using round8_percent clamp100_range by (cases "raw_score c cs") (simp_all add: technical_score_of_def Let_def)
  then show "percent_opt (vd_technical_score (fp_verdict p))"
    by (simp add: p_def feature_parts_of_def no_verdict_def classify_and_score_def Let_def)
  show "valid_config c \<Longrightarrow> length (mf_returns (fp_momentum p)) = 5"
    by (simp add: p_def feature_parts_of_def no_momentum_def momentum_of_def valid_config_def Let_def)
qed

text \<open>The score and the confidence of a snapshot lie between 0 and 100, and it is about the instrument of its request.\<close>

lemma confidence_in_range:
  assumes "valid_config c" and p: "p = feature_parts_of ist c q volumes h"
  shows "0 \<le> round8 (confidence_of n hf st (core_count (fp_trend p) (fp_momentum p)))"
    and "round8 (confidence_of n hf st (core_count (fp_trend p) (fp_momentum p))) \<le> 100"
  using confidence_range[OF core_count_le[OF parts_in_range(5)[OF p assms(1)]]] round8_percent by blast+

lemma verdict_in_range:
  assumes "valid_config c"
  shows "percent_opt (vd_technical_score (fx_verdict (compute_features parse ist local utc c q rows volumes bars)))"
    and "0 \<le> fx_confidence (compute_features parse ist local utc c q rows volumes bars)"
    and "fx_confidence (compute_features parse ist local utc c q rows volumes bars) \<le> 100"
    and "fx_instrument (compute_features parse ist local utc c q rows volumes bars) = cr_instrument q"
proof -
  let ?s = "select_price_history parse ist local utc (int (cf_max_age_days c)) q rows bars"
  obtain h d u r where s: "?s = (h, d, u, r)" by (cases ?s) auto
  define p where "p = feature_parts_of ist c q volumes h"
  note C = confidence_in_range[OF assms p_def]
  show "percent_opt (vd_technical_score (fx_verdict (compute_features parse ist local utc c q rows volumes bars)))"
    using parts_in_range(3)[OF p_def, THEN percent_round8]
    by (simp add: compute_features_def s features_of_def Let_def flip: p_def)
  show "0 \<le> fx_confidence (compute_features parse ist local utc c q rows volumes bars)"
    and "fx_confidence (compute_features parse ist local utc c q rows volumes bars) \<le> 100"
    and "fx_instrument (compute_features parse ist local utc c q rows volumes bars) = cr_instrument q"
    using C by (simp_all add: compute_features_def s features_of_def Let_def flip: p_def)
qed

text \<open>C37: Every snapshot is in range, whatever the evidence: RSI, ADX, the technical score and the confidence lie
  between 0 and 100 and ATR is not negative.\<close>

theorem indicators_in_range:
  assumes "valid_config c"
  shows "percent_opt (mf_rsi14 (fx_momentum (compute_features parse ist local utc c q rows volumes bars))) \<and>
    percent_opt (vf_adx14 (fx_volume (compute_features parse ist local utc c q rows volumes bars))) \<and>
    percent_opt (vd_technical_score (fx_verdict (compute_features parse ist local utc c q rows volumes bars))) \<and>
    percent_opt (Some (fx_confidence (compute_features parse ist local utc c q rows volumes bars))) \<and>
    (case vf_atr14 (fx_volume (compute_features parse ist local utc c q rows volumes bars)) of None \<Rightarrow> True | Some a \<Rightarrow> 0 \<le> a)"
proof -
  let ?s = "select_price_history parse ist local utc (int (cf_max_age_days c)) q rows bars"
  obtain h d u r where s: "?s = (h, d, u, r)" by (cases ?s) auto
  define p where "p = feature_parts_of ist c q volumes h"
  note R = parts_in_range[OF p_def]
  have nonneg: "0 \<le> round8 a" if "0 \<le> a" for a
    using quantum.rnd_ge[of 0 8 a] that by (auto simp: round8_def intro!: float_nonneg exI[of _ 0])
  have "percent_opt (mf_rsi14 (fx_momentum (features_of ist utc c q volumes (h, d, u, r)))) \<and>
      percent_opt (vf_adx14 (fx_volume (features_of ist utc c q volumes (h, d, u, r)))) \<and>
      (case vf_atr14 (fx_volume (features_of ist utc c q volumes (h, d, u, r))) of None \<Rightarrow> True | Some a \<Rightarrow> 0 \<le> a)"
    using R(1,2)[THEN percent_round8] R(4) nonneg
    by (cases "vf_atr14 (fp_volume p)")
      (simp_all add: features_of_def Let_def round_momentum_def round_volume_def percent_round8 flip: p_def)
  then show ?thesis
    using verdict_in_range(1-3)[OF assms, of parse ist local utc q rows volumes bars] by (simp add: compute_features_def s)
qed

text \<open>C11: No signal without sound evidence: a snapshot of fewer than twenty prices, out of date, with a session gap or
  with a conflict on its last day names no technical state, no breakout and no score.\<close>

theorem no_signal_from_unsound_history:
  assumes f: "f = compute_features parse ist local utc c q rows volumes bars"
    and "fx_observation_count f < 20 \<or> fx_stale f \<noteq> [] \<or> fx_history_readiness f = ''INCOMPLETE_HISTORY'' \<or>
      ''CONFLICTING'' \<in> snd ` set (fx_states f)"
  shows "fx_verdict f = no_verdict"
proof -
  let ?s = "select_price_history parse ist local utc (int (cf_max_age_days c)) q rows bars"
  obtain h d u r where s: "?s = (h, d, u, r)" by (cases ?s) auto
  have f': "f = features_of ist utc c q volumes (h, d, u, r)" by (simp add: f compute_features_def s)
  have "\<not> usable_history h \<or> outdated ist c q h \<or> length (prices_of h) < 20"
    using assms(2) unfolding f' features_of_def
    by (auto simp: Let_def usable_history_def history_readiness_of_def split: if_splits)
  then have "fp_verdict (feature_parts_of ist c q volumes h) = no_verdict"
    by (auto simp: feature_parts_of_def Let_def)
  then show ?thesis by (simp add: f' features_of_def Let_def no_verdict_def)
qed

section \<open>Concrete requests\<close>

definition demo_request :: close_request where
  "demo_request = \<lparr>cr_instrument = ''i'', cr_as_of = 86400000000, cr_currency = Some ''INR'', cr_trusted = None, cr_market = None,
     cr_schedules = [], cr_exceptions = [], cr_symbol = None\<rparr>"

definition demo_price :: "time \<Rightarrow> rat \<Rightarrow> price_observation" where
  "demo_price t p = \<lparr>po_instrument = ''i'', po_observed_at = t, po_observed_text = [], po_price = p, po_currency = Some ''INR'',
     po_provider = ''Y'', po_url = ''u'', po_retrieved_at = t\<rparr>"

definition demo_features :: "price_observation list \<Rightarrow> feature_snapshot" where
  "demo_features rows = compute_features (\<lambda>_. \<lparr>url_scheme = [], url_host = None, url_parts = [], url_flags = [], url_path_has_history = False\<rparr>)
     utc_date demo_local demo_utc default_config demo_request rows [] []"

text \<open>Two prices at one instant that disagree.\<close>

theorem no_signal_from_unsound_history_witness:
  "fx_verdict (demo_features [demo_price 0 100, demo_price 0 101]) = no_verdict"
proof -
  have "fx_observation_count (demo_features [demo_price 0 100, demo_price 0 101]) < 20" by code_simp
  then show ?thesis
    using no_signal_from_unsound_history[OF demo_features_def[of "[demo_price 0 100, demo_price 0 101]"]] by blast
qed

theorem indicators_in_range_witness:
  "percent_opt (Some (fx_confidence (demo_features [demo_price 0 100, demo_price 86400000000 101])))"
  using indicators_in_range[OF default_config_valid] by (simp only: demo_features_def)

end
