(* ===== verification/SectorStrength.thy ===== *)
theory SectorStrength
  imports Technical
begin

text \<open>
  Date-aligned returns of a stock against its sector and market benchmarks
  (\<open>app/sector_relative_strength.py\<close>), with the sector names of \<open>app/sector_leaderboard.py\<close>.  The
  session options of a request always name its market.  Sector names are ASCII.
\<close>

section \<open>Sector names\<close>

definition ascii_letter :: "char \<Rightarrow> bool" where
  "ascii_letter c = (let n = of_char c :: nat in (65 \<le> n \<and> n \<le> 90) \<or> (97 \<le> n \<and> n \<le> 122))"

text \<open>\<open>s.title()\<close>.\<close>

fun title_from :: "bool \<Rightarrow> string \<Rightarrow> string" where
  "title_from inside [] = []"
| "title_from inside (c # cs) = (if inside then lower_char c else upper_char c) # title_from (ascii_letter c) cs"

definition normalize_sector :: "string \<Rightarrow> string \<times> string" where
  "normalize_sector v =
     (let key = join_with '' '' (split_words (lower v));
          aliases = [(''financial services'', (''financials'', ''Financials'')), (''financials'', (''financials'', ''Financials'')),
            (''consumer cyclical'', (''consumer-discretionary'', ''Consumer Discretionary'')),
            (''consumer discretionary'', (''consumer-discretionary'', ''Consumer Discretionary'')),
            (''health care'', (''healthcare'', ''Healthcare'')), (''healthcare'', (''healthcare'', ''Healthcare''))]
      in case map_of aliases key of Some p \<Rightarrow> p
         | None \<Rightarrow> (map (\<lambda>c. if c = CHR '' '' then CHR ''-'' else c) key, title_from False (strip v)))"

section \<open>Data\<close>

record benchmark_reference =
  br_instrument :: string
  br_currency :: string
  br_trusted :: "string list option"

record sector_context =
  sx_sector :: "string option"
  sx_source :: "string option"
  sx_as_of :: "time option"
  sx_region :: "string option"
  sx_sector_benchmark :: "benchmark_reference option"
  sx_market_benchmark :: "benchmark_reference option"
  sx_mapping_version :: "string option"
  sx_sector_mapping_status :: "string option"
  sx_market_mapping_status :: "string option"

definition no_context :: sector_context where
  "no_context = \<lparr>sx_sector = None, sx_source = None, sx_as_of = None, sx_region = None, sx_sector_benchmark = None,
     sx_market_benchmark = None, sx_mapping_version = None, sx_sector_mapping_status = None, sx_market_mapping_status = None\<rparr>"

record sector_config =
  sf_return_lookbacks :: "nat list"
  sf_period_weights :: "rat list"
  sf_max_age_days :: nat
  sf_material_edge :: rat
  sf_improvement :: rat
  sf_full_scale_edge :: rat

definition default_sector_config :: sector_config where
  "default_sector_config = \<lparr>sf_return_lookbacks = [5, 21, 63, 126], sf_period_weights = [1, 1, 1, 1], sf_max_age_days = 7,
     sf_material_edge = fl64 (2 / 100), sf_improvement = fl64 (2 / 100), sf_full_scale_edge = fl64 (2 / 10)\<rparr>"

definition valid_sector_config :: "sector_config \<Rightarrow> bool" where
  "valid_sector_config c =
     (length (sf_return_lookbacks c) = 4 \<and> list_all (\<lambda>n. 1 \<le> n) (sf_return_lookbacks c) \<and>
      sorted_set (sf_return_lookbacks c) = sf_return_lookbacks c \<and> length (sf_period_weights c) = 4 \<and>
      0 < py_sum (sf_period_weights c) \<and> 1 \<le> sf_max_age_days c \<and> 0 < sf_full_scale_edge c \<and>
      list_all (\<lambda>x. 0 \<le> x) (sf_period_weights c) \<and> 0 \<le> sf_material_edge c \<and> 0 \<le> sf_improvement c)"

lemma default_sector_config_valid: "valid_sector_config default_sector_config"
  by code_simp

section \<open>Dated histories\<close>

type_synonym dated = "(int \<times> rat) list"

definition dict_of :: "('k \<times> 'v) list \<Rightarrow> ('k \<times> 'v) list" where
  "dict_of kvs = foldl (\<lambda>d (k, v). dset k v d) [] kvs"

definition bar_close :: "daily_bar \<Rightarrow> rat" where "bar_close b = fl64 (the (db_close b))"
definition row_price :: "price_observation \<Rightarrow> rat" where "row_price r = fl64 (po_price r)"

text \<open>With session options: the selected history with its sessions.\<close>

fun session_rows :: "history \<Rightarrow> dated" where
  "session_rows (Daily h) = dict_of (zip (ph_session_dates h) (map bar_close (ph_observations h)))"
| "session_rows (Closes h) = dict_of (zip (ph_session_dates h) (map row_price (ph_observations h)))"

definition session_history ::
    "(string \<Rightarrow> url) \<Rightarrow> (time \<Rightarrow> int) \<Rightarrow> zone_local \<Rightarrow> zone_utc \<Rightarrow> close_request \<Rightarrow> price_observation list \<Rightarrow> daily_bar list \<Rightarrow>
     dated \<times> bool \<times> bool \<times> string" where
  "session_history parse ist local utc q rows bars =
     (case select_price_history parse ist local utc 7 q rows bars of (h, _, use_daily, _) \<Rightarrow>
        let hf = history_facts_of h
        in (session_rows h, hf_current_conflict hf \<or> hf_missing hf \<noteq> [],
            prices_of h \<noteq> [] \<and> past_validity (hf_valid_until hf) (cr_as_of q),
            if use_daily then ''DAILY_MARKET_BAR_NSE'' else ''CLOSE_ONLY_FALLBACK''))"

text \<open>Without: candles, or closes when there are none (for a stock also when the candles are few or stale).\<close>

definition closes_recent :: "nat \<Rightarrow> close_request \<Rightarrow> price_observation price_history \<Rightarrow> bool" where
  "closes_recent max_age q h = (cr_as_of q - po_observed_at (last (ph_observations h)) \<le> int max_age * day_us)"

definition dated_history ::
    "(string \<Rightarrow> url) \<Rightarrow> (time \<Rightarrow> int) \<Rightarrow> zone_local \<Rightarrow> zone_utc \<Rightarrow> nat \<Rightarrow> bool \<Rightarrow> close_request \<Rightarrow>
     price_observation list \<Rightarrow> daily_bar list \<Rightarrow> dated \<times> bool \<times> bool \<times> string" where
  "dated_history parse ist local utc max_age stock q rows bars =
     (if cr_market q \<noteq> None then session_history parse ist local utc q rows bars
      else
        let (h, present) = normalize_daily_history ist q bars;
            closes = normalize_price_history parse local utc q rows;
            old = (ph_observations h \<noteq> [] \<and> int max_age < ist (cr_as_of q) - db_date (last (ph_observations h)));
            use_closes = (stock \<and> \<not> ph_current_conflict h \<and> (length (ph_observations h) < 20 \<or> old) \<and>
              20 \<le> length (ph_observations closes) \<and> \<not> ph_current_conflict closes \<and> closes_recent max_age q closes)
        in if present \<and> \<not> use_closes then
             (dict_of (map (\<lambda>b. (db_date b, bar_close b)) (ph_observations h)), ph_current_conflict h, old, ''DAILY_MARKET_BAR_NSE'')
           else
             (dict_of (map (\<lambda>r. (price_day r, row_price r)) (ph_observations closes)), ph_current_conflict closes,
              ph_observations closes \<noteq> [] \<and> \<not> closes_recent max_age q closes, ''CLOSE_ONLY_FALLBACK''))"

section \<open>Benchmarks\<close>

record leg =
  lg_rows :: dated
  lg_missing :: "string list"
  lg_stale :: "string list"
  lg_state :: string
  lg_source :: "string option"

definition or_default :: "string option \<Rightarrow> string \<Rightarrow> string" where
  "or_default s d = (if or_text s \<noteq> [] then or_text s else d)"

definition missing_leg :: "string \<Rightarrow> string \<Rightarrow> leg" where
  "missing_leg code state = \<lparr>lg_rows = [], lg_missing = [code], lg_stale = [], lg_state = state, lg_source = None\<rparr>"

text \<open>One benchmark of \<open>name\<close> (\<open>SECTOR\<close> or \<open>MARKET\<close>); \<open>unmapped\<close> is its state without a reference.\<close>

definition benchmark_leg ::
    "(benchmark_reference \<Rightarrow> dated \<times> bool \<times> bool \<times> string) \<Rightarrow> string \<Rightarrow> string \<Rightarrow> string \<Rightarrow> benchmark_reference option \<Rightarrow> leg" where
  "benchmark_leg history instrument name unmapped ref =
     (case ref of
        None \<Rightarrow> missing_leg (name @ ''_BENCHMARK_MAPPING'') unmapped
      | Some r \<Rightarrow>
          if br_instrument r = instrument \<or> br_currency r = [] then
            missing_leg (''INVALID_'' @ name @ ''_BENCHMARK_MAPPING'') ''BENCHMARK_IDENTITY_UNAVAILABLE''
          else (case history r of (dates, conflict, stale, source) \<Rightarrow>
            if dates = [] \<or> conflict then
              (missing_leg (if \<not> conflict then name @ ''_HISTORY'' else ''CONFLICTING_'' @ name @ ''_PRICE'')
                ''BENCHMARK_HISTORY_UNAVAILABLE'')\<lparr>lg_source := Some source\<rparr>
            else if stale then
              \<lparr>lg_rows = [], lg_missing = [], lg_stale = [name @ ''_HISTORY''], lg_state = ''STALE_BENCHMARK_HISTORY'', lg_source = Some source\<rparr>
            else \<lparr>lg_rows = dates, lg_missing = [], lg_stale = [], lg_state = ''INSUFFICIENT_OVERLAP'', lg_source = Some source\<rparr>))"

section \<open>Periods\<close>

record period =
  pd_suffix :: string
  pd_weight :: rat
  pd_window :: "(int \<times> int) option"
  pd_stock :: "rat option"
  pd_sector :: "rat option"
  pd_market :: "rat option"
  pd_vs_sector :: "rat option"
  pd_vs_market :: "rat option"
  pd_edge :: "rat option"
  pd_missing :: "string list"

text \<open>The return of a benchmark over the stock's own window, when it has both dates.\<close>

definition aligned_return :: "bool \<Rightarrow> int \<times> int \<Rightarrow> dated \<Rightarrow> rat option" where
  "aligned_return stock_stale window rows =
     (case (map_of rows (fst window), map_of rows (snd window)) of
        (Some a, Some b) \<Rightarrow> if stock_stale then None else Some (percentage b a)
      | _ \<Rightarrow> None)"

definition unaligned :: "bool \<Rightarrow> string \<Rightarrow> string \<Rightarrow> dated \<Rightarrow> rat option \<Rightarrow> string list" where
  "unaligned stock_stale name suffix rows value_now =
     (if value_now = None \<and> rows \<noteq> [] \<and> \<not> stock_stale then [name @ ''_ALIGNED_DATES_'' @ suffix] else [])"

definition period_of ::
    "dated \<Rightarrow> bool \<Rightarrow> bool \<Rightarrow> dated \<Rightarrow> dated \<Rightarrow> string \<times> nat \<times> rat \<Rightarrow> period" where
  "period_of stock_dates conflict stale sector_rows market_rows spec =
     (case spec of (suffix, lookback, weight) \<Rightarrow>
        let days = sorted_set (map fst stock_dates)
        in if conflict \<or> length days \<le> lookback then
             \<lparr>pd_suffix = suffix, pd_weight = weight, pd_window = None, pd_stock = None, pd_sector = None, pd_market = None,
              pd_vs_sector = None, pd_vs_market = None, pd_edge = None, pd_missing = []\<rparr>
           else
             let window = (days ! (length days - lookback - 1), last days);
                 stock = percentage (the (map_of stock_dates (snd window))) (the (map_of stock_dates (fst window)));
                 sector = aligned_return stale window sector_rows;
                 market = aligned_return stale window market_rows;
                 relative = map_option (\<lambda>v. fl64 (stock - v));
                 period_edges = map (\<lambda>v. fl64 (v / of_nat lookback)) (List.map_filter id [relative sector, relative market])
             in \<lparr>pd_suffix = suffix, pd_weight = weight, pd_window = Some window, pd_stock = Some stock,
                 pd_sector = sector, pd_market = market, pd_vs_sector = relative sector, pd_vs_market = relative market,
                 pd_edge = (if period_edges = [] then None else Some (float_mean period_edges)),
                 pd_missing = unaligned stale ''SECTOR'' suffix sector_rows sector @ unaligned stale ''MARKET'' suffix market_rows market\<rparr>)"

definition period_edges :: "period list \<Rightarrow> (string \<times> rat \<times> rat) list" where
  "period_edges ps = List.map_filter (\<lambda>p. map_option (\<lambda>e. (pd_suffix p, e, pd_weight p)) (pd_edge p)) ps"

definition strength_score :: "sector_config \<Rightarrow> (string \<times> rat \<times> rat) list \<Rightarrow> rat option" where
  "strength_score c es =
     (if length es < 2 \<or> py_sum (map (\<lambda>(_, _, w). w) es) \<le> 0 then None
      else
        let average = fl64 (py_sum (map (\<lambda>(_, e, w). fl64 (e * w)) es) / py_sum (map (\<lambda>(_, _, w). w) es))
        in Some (clamp100 (fl64 (50 + fl64 (fl64 (50 * average) / sf_full_scale_edge c)))))"

definition sector_state_of :: "sector_config \<Rightarrow> period list \<Rightarrow> (string \<times> rat \<times> rat) list \<Rightarrow> string" where
  "sector_state_of c ps es =
     (if strength_score c es = None \<or> length (filter (\<lambda>p. pd_vs_sector p \<noteq> None) ps) < 2 then ''INSUFFICIENT_DATA''
      else if list_all (\<lambda>(_, e, _). sf_material_edge c < e) es then ''LEADING''
      else if list_all (\<lambda>(_, e, _). e < - sf_material_edge c) es then ''LAGGING''
      else
        let short = map (\<lambda>(_, e, _). e) (filter (\<lambda>(s, _, _). s \<in> {''1W'', ''1M''}) es);
            long = map (\<lambda>(_, e, _). e) (filter (\<lambda>(s, _, _). s \<in> {''3M'', ''6M''}) es);
            change = (if short \<noteq> [] \<and> long \<noteq> [] then fl64 (float_mean short - float_mean long) else 0)
        in if sf_improvement c < change then ''IMPROVING'' else if change < - sf_improvement c then ''WEAKENING'' else ''NEUTRAL'')"

section \<open>The snapshot\<close>

record sector_snapshot =
  sy_instrument :: string
  sy_as_of :: time
  sy_mapping_version :: "string option"
  sy_benchmark_states :: "(string \<times> string) list"
  sy_history_sources :: "(string \<times> string) list"
  sy_sector :: "string option"
  sy_classification_source :: "string option"
  sy_classification_as_of :: "time option"
  sy_region :: "string option"
  sy_sector_benchmark :: "string option"
  sy_market_benchmark :: "string option"
  sy_periods :: "period list"
  sy_feature_states :: "(string \<times> string) list"
  sy_sector_state :: string
  sy_score :: "rat option"
  sy_confidence :: rat
  sy_missing :: "string list"
  sy_stale :: "string list"

definition classified :: "sector_context \<Rightarrow> time \<Rightarrow> bool" where
  "classified x as_of =
     (or_text (sx_sector x) \<noteq> [] \<and> or_text (sx_source x) \<noteq> [] \<and>
      (case sx_as_of x of None \<Rightarrow> False | Some t \<Rightarrow> t \<le> as_of))"

text \<open>The relative features in the order of their fields, by alias.\<close>

definition return_fields :: "period list \<Rightarrow> (string \<times> rat option) list" where
  "return_fields ps =
     concat (map (\<lambda>(prefix, field). map (\<lambda>p. (prefix @ pd_suffix p, field p)) ps)
       [(''stockReturn'', pd_stock), (''sectorReturn'', pd_sector), (''marketReturn'', pd_market),
        (''relativeVsSector'', pd_vs_sector), (''relativeVsMarket'', pd_vs_market)])"

definition round_period :: "period \<Rightarrow> period" where
  "round_period p = (let r = map_option round8 in
     p\<lparr>pd_stock := r (pd_stock p), pd_sector := r (pd_sector p), pd_market := r (pd_market p),
       pd_vs_sector := r (pd_vs_sector p), pd_vs_market := r (pd_vs_market p)\<rparr>)"

definition leg_state :: "leg \<Rightarrow> (period \<Rightarrow> rat option) \<Rightarrow> period list \<Rightarrow> string" where
  "leg_state l field ps = (if list_ex (\<lambda>p. field p \<noteq> None) ps then ''AVAILABLE'' else lg_state l)"

definition relative_confidence :: "period list \<Rightarrow> rat" where
  "relative_confidence ps =
     fl64 (quantize 6 (fl64 (of_nat (100 * length (filter (\<lambda>v. v \<noteq> None) (map pd_vs_sector ps @ map pd_vs_market ps))) / 8)))"

definition source_entry :: "string \<Rightarrow> leg \<Rightarrow> (string \<times> string) list" where
  "source_entry name l = (case lg_source l of None \<Rightarrow> [] | Some s \<Rightarrow> [(name, s)])"

text \<open>The stock's history, both benchmarks and the periods.\<close>

record comparison =
  cp_conflict :: bool
  cp_stale :: bool
  cp_source :: string
  cp_sector_leg :: leg
  cp_market_leg :: leg
  cp_periods :: "period list"

definition comparison_of ::
    "(string \<Rightarrow> url) \<Rightarrow> (time \<Rightarrow> int) \<Rightarrow> zone_local \<Rightarrow> zone_utc \<Rightarrow> sector_config \<Rightarrow> sector_context \<Rightarrow> close_request \<Rightarrow>
     (string \<Rightarrow> price_observation list) \<Rightarrow> (string \<Rightarrow> daily_bar list) \<Rightarrow> comparison" where
  "comparison_of parse ist local utc c x q closes bars =
     (let key = cr_instrument q; valid = classified x (cr_as_of q);
          (stock_dates, stock_conflict, stock_stale, stock_source) =
            dated_history parse ist local utc (sf_max_age_days c) True q (closes key) (bars key);
          history = (\<lambda>r. dated_history parse ist local utc (sf_max_age_days c) False
            (q\<lparr>cr_instrument := br_instrument r, cr_currency := Some (br_currency r), cr_trusted := br_trusted r,
               cr_market := None, cr_schedules := [], cr_exceptions := [], cr_symbol := None\<rparr>)
            (closes (br_instrument r)) (bars (br_instrument r)));
          sector_leg = benchmark_leg history key ''SECTOR''
            (if \<not> valid then ''NO_SECTOR_CLASSIFICATION'' else or_default (sx_sector_mapping_status x) ''UNMAPPED_SECTOR_BENCHMARK'')
            (if valid then sx_sector_benchmark x else None);
          market_leg = benchmark_leg history key ''MARKET''
            (or_default (sx_market_mapping_status x) ''BENCHMARK_IDENTITY_UNAVAILABLE'') (sx_market_benchmark x)
      in \<lparr>cp_conflict = stock_conflict, cp_stale = stock_stale, cp_source = stock_source,
          cp_sector_leg = sector_leg, cp_market_leg = market_leg,
          cp_periods = map (period_of stock_dates stock_conflict stock_stale (lg_rows sector_leg) (lg_rows market_leg))
            (zip [''1W'', ''1M'', ''3M'', ''6M''] (zip (sf_return_lookbacks c) (sf_period_weights c)))\<rparr>)"

definition snapshot_of_comparison :: "sector_config \<Rightarrow> sector_context \<Rightarrow> close_request \<Rightarrow> comparison \<Rightarrow> sector_snapshot" where
  "snapshot_of_comparison c x q cp =
     (let valid = classified x (cr_as_of q); ps = cp_periods cp; es = period_edges ps; fields = return_fields ps
      in \<lparr>sy_instrument = cr_instrument q, sy_as_of = cr_as_of q, sy_mapping_version = sx_mapping_version x,
          sy_benchmark_states = [(''sector'', leg_state (cp_sector_leg cp) pd_vs_sector ps),
            (''market'', leg_state (cp_market_leg cp) pd_vs_market ps)],
          sy_history_sources = (''stock'', cp_source cp) # source_entry ''sector'' (cp_sector_leg cp) @ source_entry ''market'' (cp_market_leg cp),
          sy_sector = (if valid then Some (snd (normalize_sector (or_text (sx_sector x)))) else None),
          sy_classification_source = (if valid then sx_source x else None),
          sy_classification_as_of = (if valid then sx_as_of x else None), sy_region = sx_region x,
          sy_sector_benchmark = (if valid then map_option br_instrument (sx_sector_benchmark x) else None),
          sy_market_benchmark = map_option br_instrument (sx_market_benchmark x),
          sy_periods = map round_period ps,
          sy_feature_states = map (\<lambda>(alias, v). (alias, if v = None then ''MISSING'' else if cp_stale cp then ''STALE'' else ''AVAILABLE'')) fields,
          sy_sector_state = sector_state_of c ps es,
          sy_score = map_option round8 (strength_score c es),
          sy_confidence = relative_confidence ps,
          sy_missing = sorted_set ((if valid then [] else [''AUTHORITATIVE_SECTOR_CLASSIFICATION'']) @
            (if cp_conflict cp then [''CONFLICTING_STOCK_PRICE''] else []) @ lg_missing (cp_sector_leg cp) @ lg_missing (cp_market_leg cp) @
            concat (map pd_missing ps) @ map fst (filter (\<lambda>(_, v). v = None) fields)),
          sy_stale = sorted_set ((if cp_stale cp then [''STOCK_HISTORY''] else []) @ lg_stale (cp_sector_leg cp) @ lg_stale (cp_market_leg cp))\<rparr>)"

definition sector_strength ::
    "(string \<Rightarrow> url) \<Rightarrow> (time \<Rightarrow> int) \<Rightarrow> zone_local \<Rightarrow> zone_utc \<Rightarrow> sector_config \<Rightarrow> sector_context \<Rightarrow> close_request \<Rightarrow>
     (string \<Rightarrow> price_observation list) \<Rightarrow> (string \<Rightarrow> daily_bar list) \<Rightarrow> sector_snapshot" where
  "sector_strength parse ist local utc c x q closes bars =
     snapshot_of_comparison c x q (comparison_of parse ist local utc c x q closes bars)"

section \<open>Only what is known\<close>

lemma session_rows_uncounted: "session_rows (uncounted_history h) = session_rows h"
  by (cases h) (simp_all add: uncounted_def)

lemma same_history:
  assumes "uncounted_history g = uncounted_history h"
  shows "session_rows g = session_rows h" "prices_of g = prices_of h"
    "hf_current_conflict (history_facts_of g) = hf_current_conflict (history_facts_of h)"
    "hf_missing (history_facts_of g) = hf_missing (history_facts_of h)"
    "hf_conflicts (history_facts_of g) = hf_conflicts (history_facts_of h)"
    "hf_valid_until (history_facts_of g) = hf_valid_until (history_facts_of h)"
proof -
  have hf: "(history_facts_of g)\<lparr>hf_rejected := 0\<rparr> = (history_facts_of h)\<lparr>hf_rejected := 0\<rparr>"
    using assms uncounted_history_sels(6)[of h] uncounted_history_sels(6)[of g] by simp
  show "session_rows g = session_rows h" "prices_of g = prices_of h"
    using assms session_rows_uncounted[of h] session_rows_uncounted[of g]
      uncounted_history_sels(1)[of h] uncounted_history_sels(1)[of g] by simp_all
  show "hf_current_conflict (history_facts_of g) = hf_current_conflict (history_facts_of h)"
    "hf_missing (history_facts_of g) = hf_missing (history_facts_of h)"
    "hf_conflicts (history_facts_of g) = hf_conflicts (history_facts_of h)"
    "hf_valid_until (history_facts_of g) = hf_valid_until (history_facts_of h)"
    using arg_cong[OF hf, of hf_current_conflict] arg_cong[OF hf, of hf_missing] arg_cong[OF hf, of hf_conflicts]
      arg_cong[OF hf, of hf_valid_until] by simp_all
qed

lemma session_history_known:
  "session_history parse ist local utc q (filter (known_price q) rows) (filter (known_bar ist q) bars) =
   session_history parse ist local utc q rows bars"
proof -
  let ?sel = "select_price_history parse ist local utc 7 q"
  obtain h d u r where s: "?sel rows bars = (h, d, u, r)" by (cases "?sel rows bars") auto
  obtain h' d' u' r' where s': "?sel (filter (known_price q) rows) (filter (known_bar ist q) bars) = (h', d', u', r')"
    by (cases "?sel (filter (known_price q) rows) (filter (known_bar ist q) bars)") auto
  have e: "uncounted_history h' = uncounted_history h" "u' = u"
    using select_known[of parse ist local utc 7 q rows bars] unfolding s s' uncounted_selection_def by simp_all
  show ?thesis by (simp add: session_history_def Let_def s s' e(2) same_history[OF e(1)])
qed

lemma dated_history_known:
  "dated_history parse ist local utc n stock q (filter (known_price q) rows) (filter (known_bar ist q) bars) =
   dated_history parse ist local utc n stock q rows bars"
proof (cases "cr_market q")
  case (Some m)
  then show ?thesis by (simp add: dated_history_def session_history_known)
next
  case None
  obtain h p where d: "normalize_daily_history ist q bars = (h, p)" by fastforce
  obtain h' p' where d': "normalize_daily_history ist q (filter (known_bar ist q) bars) = (h', p')" by fastforce
  have e: "uncounted h' = uncounted h" "p' = p" using normalize_daily_known[of ist q bars] d d' by simp_all
  show ?thesis
    using uncounted_eqD[OF e(1)] uncounted_eqD[OF normalize_price_history_known[of parse local utc q rows]]
    by (simp add: dated_history_def Let_def None d d' e(2) closes_recent_def)
qed

lemma known_other:
  "cr_as_of q' = cr_as_of q \<Longrightarrow> known_price q = known_price q'" "cr_as_of q' = cr_as_of q \<Longrightarrow> known_bar ist q = known_bar ist q'"
  by (auto simp: known_price_def known_bar_def)

text \<open>The relative strength of a stock does not look ahead: prices and candles of the stock or of a benchmark that
  were not known at the instant of the request change nothing.\<close>

lemma relative_strength_has_no_lookahead:
  "sector_strength parse ist local utc c x q (\<lambda>k. filter (known_price q) (closes k)) (\<lambda>k. filter (known_bar ist q) (bars k)) =
   sector_strength parse ist local utc c x q closes bars"
proof -
  have "dated_history parse ist local utc n stock q' (filter (known_price q) rows) (filter (known_bar ist q) bs) =
      dated_history parse ist local utc n stock q' rows bs" if "cr_as_of q' = cr_as_of q" for n stock q' rows bs
    using dated_history_known[of parse ist local utc n stock q' rows bs] known_other[OF that] by simp
  then show ?thesis by (simp add: sector_strength_def comparison_of_def)
qed

section \<open>What a snapshot can say\<close>

lemma strength_score_range: "strength_score c es = Some v \<Longrightarrow> 0 \<le> v \<and> v \<le> 100"
  by (auto simp: strength_score_def Let_def clamp100_range split: if_splits)

lemma relative_confidence_range:
  assumes "length ps = 4"
  shows "0 \<le> relative_confidence ps \<and> relative_confidence ps \<le> 100"
proof -
  let ?k = "length (filter (\<lambda>v. v \<noteq> None) (map pd_vs_sector ps @ map pd_vs_market ps))"
  have "?k \<le> 8" by (rule order_trans[OF length_filter_le]) (simp add: assms)
  then have "rat_of_nat ?k \<le> rat_of_nat 8" by (simp only: of_nat_le_iff)
  then have x: "0 \<le> of_nat (100 * ?k) / (8 :: rat)" "of_nat (100 * ?k) / (8 :: rat) \<le> 100" by (simp_all add: field_simps)
  then show ?thesis unfolding relative_confidence_def using percent_float rounded_percent by blast
qed

lemma period_vs_sector:
  assumes "pd_vs_sector (period_of sd conflict stale srows mrows spec) \<noteq> None"
  shows "\<not> conflict \<and> \<not> stale \<and> srows \<noteq> []"
  using assms
  by (cases spec) (auto simp: period_of_def aligned_return_def Let_def split: if_splits option.splits)

lemma sector_leg_rows:
  assumes "lg_rows (benchmark_leg history key name unmapped ref) \<noteq> []"
  shows "\<exists>r. ref = Some r \<and> br_instrument r \<noteq> key"
  using assms by (auto simp: benchmark_leg_def missing_leg_def split: option.splits if_splits)

lemma round_period_vs_sector: "pd_vs_sector (round_period p) \<noteq> None \<longleftrightarrow> pd_vs_sector p \<noteq> None"
  by (cases "pd_vs_sector p") (simp_all add: round_period_def Let_def)

lemma leg_stale_names: "n \<in> {''SECTOR'', ''MARKET''} \<Longrightarrow> ''STOCK_HISTORY'' \<notin> set (lg_stale (benchmark_leg h k n u b))"
  by (auto simp: benchmark_leg_def missing_leg_def split: option.splits prod.splits)

lemma compared_sector:
  fixes cp assumes cp: "cp = comparison_of parse ist local utc c x q closes bars"
    and p: "p \<in> set (cp_periods cp)" "pd_vs_sector p \<noteq> None"
  shows "\<not> cp_conflict cp \<and> \<not> cp_stale cp \<and> classified x (cr_as_of q) \<and>
    (\<exists>r. sx_sector_benchmark x = Some r \<and> br_instrument r \<noteq> cr_instrument q)"
proof -
  let ?dh = "dated_history parse ist local utc (sf_max_age_days c) True q (closes (cr_instrument q)) (bars (cr_instrument q))"
  obtain sd con stl src where dh: "?dh = (sd, con, stl, src)" by (cases ?dh) auto
  have "\<not> cp_conflict cp \<and> \<not> cp_stale cp \<and> lg_rows (cp_sector_leg cp) \<noteq> []"
    using p period_vs_sector unfolding cp comparison_of_def Let_def dh prod.case comparison.simps by fastforce
  then show ?thesis
    using sector_leg_rows unfolding cp comparison_of_def Let_def dh prod.case comparison.simps by (fastforce split: if_splits)
qed

text \<open>C38: No sector state without sector evidence: unless the stock is classified by an authoritative source, is not out
  of date, and has at least two returns over its own dates of another instrument that is mapped as its sector
  benchmark, its state is \<open>INSUFFICIENT_DATA\<close>.\<close>

theorem sector_state_needs_sector_evidence:
  assumes s: "s = sector_strength parse ist local utc c x q closes bars"
    and "\<not> (classified x (cr_as_of q) \<and> ''STOCK_HISTORY'' \<notin> set (sy_stale s) \<and>
      (\<exists>r. sx_sector_benchmark x = Some r \<and> br_instrument r \<noteq> cr_instrument q) \<and>
      map_of (sy_benchmark_states s) ''sector'' = Some ''AVAILABLE'' \<and>
      2 \<le> length (filter (\<lambda>p. pd_vs_sector p \<noteq> None) (sy_periods s)))"
  shows "sy_sector_state s = ''INSUFFICIENT_DATA''"
proof (rule ccontr)
  assume st: "sy_sector_state s \<noteq> ''INSUFFICIENT_DATA''"
  define cp where "cp = comparison_of parse ist local utc c x q closes bars"
  let ?ps = "cp_periods cp"
  have sel: "sy_sector_state s = sector_state_of c ?ps (period_edges ?ps)" "sy_periods s = map round_period ?ps"
      "map_of (sy_benchmark_states s) ''sector'' = Some (leg_state (cp_sector_leg cp) pd_vs_sector ?ps)"
      "sy_stale s = sorted_set ((if cp_stale cp then [''STOCK_HISTORY''] else []) @ lg_stale (cp_sector_leg cp) @ lg_stale (cp_market_leg cp))"
    by (simp_all add: s sector_strength_def snapshot_of_comparison_def Let_def cp_def)
  have two: "2 \<le> length (filter (\<lambda>p. pd_vs_sector p \<noteq> None) ?ps)"
    using st unfolding sel(1) sector_state_of_def by (metis (no_types, lifting) not_le)
  then obtain p where p: "p \<in> set ?ps" "pd_vs_sector p \<noteq> None"
    by (metis (mono_tags, lifting) filter_False length_0_conv not_numeral_le_zero)
  note ok = compared_sector[OF cp_def p]
  have "list_ex (\<lambda>p. pd_vs_sector p \<noteq> None) ?ps" using p by (auto simp: list_ex_iff)
  moreover have "length (filter (\<lambda>p. pd_vs_sector p \<noteq> None) (map round_period ?ps)) = length (filter (\<lambda>p. pd_vs_sector p \<noteq> None) ?ps)"
    by (simp only: filter_map length_map comp_def round_period_vs_sector)
  moreover have "''STOCK_HISTORY'' \<notin> set (sy_stale s)"
    using ok leg_stale_names by (simp add: sel(4) cp_def comparison_of_def Let_def split_def)
  ultimately show False using ok two assms(2) by (simp add: sel(2,3) leg_state_def)
qed

text \<open>The score and the confidence of a sector snapshot lie between 0 and 100.\<close>

lemma sector_scores_in_range:
  assumes "valid_sector_config c"
  shows "percent_opt (sy_score (sector_strength parse ist local utc c x q closes bars)) \<and>
    percent_opt (Some (sy_confidence (sector_strength parse ist local utc c x q closes bars)))"
proof -
  have len: "length (zip [''1W'', ''1M'', ''3M'', ''6M''] (zip (sf_return_lookbacks c) (sf_period_weights c))) = 4"
    using assms by (simp add: valid_sector_config_def)
  have "percent_opt (strength_score c es)" for es
    using strength_score_range by (cases "strength_score c es") simp_all
  then show ?thesis
    using relative_confidence_range[of "map _ _", unfolded length_map, OF len] percent_round8
    by (simp add: sector_strength_def snapshot_of_comparison_def comparison_of_def Let_def split_def)
qed

section \<open>A concrete stock\<close>

definition demo_strength :: "sector_context \<Rightarrow> sector_snapshot" where
  "demo_strength x = sector_strength (\<lambda>_. \<lparr>url_scheme = [], url_host = None, url_parts = [], url_flags = [], url_path_has_history = False\<rparr>)
     utc_date demo_local demo_utc default_sector_config x demo_request
     (\<lambda>_. [demo_price 0 4, demo_price 86400000000 5]) (\<lambda>_. [])"

theorem sector_state_needs_sector_evidence_witness: "sy_sector_state (demo_strength no_context) = ''INSUFFICIENT_DATA''"
  by (rule sector_state_needs_sector_evidence[OF demo_strength_def]) (simp add: classified_def no_context_def or_text_def)

text \<open>Two periods ahead of the sector make a leader.\<close>

lemma two_periods_lead:
  fixes p defines "p \<equiv> \<lparr>pd_suffix = ''1W'', pd_weight = 1, pd_window = Some (0, 7), pd_stock = Some 8, pd_sector = Some 3, pd_market = None,
     pd_vs_sector = Some 5, pd_vs_market = None, pd_edge = Some 1, pd_missing = []\<rparr>"
  shows "sector_state_of default_sector_config [p, p\<lparr>pd_suffix := ''1M''\<rparr>] (period_edges [p, p\<lparr>pd_suffix := ''1M''\<rparr>]) = ''LEADING''"
  unfolding p_def by code_simp

end
