(* ===== verification/StockEngine.thy ===== *)
theory StockEngine
  imports StockEvents
begin

text \<open>
  Properties of the whole stock rule engine: the scores of every rule and evaluation are in range, the
  series a rule reads is homogeneous and authoritative, readiness and rule agree on scorable ownership, news cannot
  look ahead, and authoritative evidence of fraud blocks every buying signal.
\<close>

section \<open>Curves give scores\<close>

definition int_score :: "rat \<Rightarrow> bool" where
  "int_score y \<longleftrightarrow> 0 \<le> y \<and> y \<le> 100 \<and> y = of_int \<lfloor>y\<rfloor>"

fun good_table :: "(rat \<times> rat) list \<Rightarrow> bool" where
  "good_table ((x0, y0) # (x1, y1) # ps) \<longleftrightarrow> int_score y0 \<and> x0 < x1 \<and> good_table ((x1, y1) # ps)"
| "good_table [(x, y)] \<longleftrightarrow> int_score y"
| "good_table [] \<longleftrightarrow> False"

lemma int_score_round: "int_score y \<Longrightarrow> is_score (round_score y)"
  by (auto simp: int_score_def intro: round_score_ok)

lemma dec28_between: "\<bar>a\<bar> < 10 ^ 28 \<Longrightarrow> \<bar>b\<bar> < 10 ^ 28 \<Longrightarrow> of_int a \<le> x \<Longrightarrow> x \<le> of_int b \<Longrightarrow>
    of_int a \<le> dec28 x \<and> dec28 x \<le> of_int b"
  by (rule decimal.rnd_in_range) (simp_all add: few_digits_int)

lemma dec28_mono: "x \<le> y \<Longrightarrow> dec28 x \<le> dec28 y"
  by (rule decimal.rnd_mono)

lemma ratio_unit:
  assumes "x0 \<le> v" and "v \<le> x1"
  shows "0 \<le> dec28 (dec28 (v - x0) / dec28 (x1 - x0)) \<and> dec28 (dec28 (v - x0) / dec28 (x1 - x0)) \<le> 1"
proof -
  have n: "0 \<le> dec28 (v - x0)" "dec28 (v - x0) \<le> dec28 (x1 - x0)"
    using dec28_mono[of 0 "v - x0"] dec28_mono[of "v - x0" "x1 - x0"] assms by simp_all
  then have "0 \<le> dec28 (v - x0) / dec28 (x1 - x0)" "dec28 (v - x0) / dec28 (x1 - x0) \<le> 1"
    using order_trans[OF n] by (auto simp: divide_le_eq_1 less_le)
  then show ?thesis using dec28_between[of 0 1] by simp
qed

lemma segment_score:
  assumes y: "int_score y0" "int_score y1" and q: "0 \<le> q" "q \<le> 1"
  shows "0 \<le> dec28 (y0 + dec28 (q * dec28 (y1 - y0))) \<and> dec28 (y0 + dec28 (q * dec28 (y1 - y0))) \<le> 100"
proof -
  obtain a b where ab: "y0 = of_int a" "y1 = of_int b" "0 \<le> a" "a \<le> 100" "0 \<le> b" "b \<le> 100"
    using y unfolding int_score_def by (metis of_int_0_le_iff of_int_le_numeral_iff)
  have "\<bar>b - a\<bar> < 10 ^ 28" using ab by simp
  then have d: "dec28 (y1 - y0) = of_int (b - a)" unfolding ab using dec28_int[of "b - a"] by simp
  have "of_int (min 0 (b - a)) \<le> q * of_int (b - a)" "q * of_int (b - a) \<le> of_int (max 0 (b - a))"
    using q mult_right_mono[of q 1 "of_int (b - a) :: rat"] mult_right_mono_neg[of q 1 "of_int (b - a) :: rat"]
      mult_nonneg_nonneg[of q "of_int (b - a)"] mult_nonneg_nonpos[of q "of_int (b - a)"]
    by (cases "0 \<le> b - a"; simp add: min_def max_def)+
  then have "of_int (min 0 (b - a)) \<le> dec28 (q * of_int (b - a))" "dec28 (q * of_int (b - a)) \<le> of_int (max 0 (b - a))"
    using dec28_between[of "min 0 (b - a)" "max 0 (b - a)"] ab by (simp_all add: min_def max_def)
  then have "of_int 0 \<le> y0 + dec28 (q * of_int (b - a))" "y0 + dec28 (q * of_int (b - a)) \<le> of_int 100"
    using ab by (simp_all add: min_def max_def split: if_splits)
  then show ?thesis unfolding d using dec28_between[of 0 100] by simp
qed

lemma interpolate_score: "good_table ps \<Longrightarrow> is_score (dec_interpolate v ps)"
proof (induction v ps rule: dec_interpolate.induct)
  case (1 v x0 y0 x1 y1 ps)
  have y: "int_score y0" "int_score y1" using 1(2) by (cases ps; auto)+
  show ?case
  proof (cases "x0 \<le> v \<and> v \<le> x1")
    case True
    then show ?thesis using segment_score[OF y] ratio_unit[of x0 v x1] round_score_ok by simp
  next
    case False
    then show ?thesis using 1 by auto
  qed
qed (use is_scoreI[of 5000] in auto)

lemma good_table_scores: "good_table ps \<Longrightarrow> p \<in> set ps \<Longrightarrow> int_score (snd p)"
  by (induction ps rule: good_table.induct) auto

lemma curve_score: "good_table ps \<Longrightarrow> is_score (curve v ps)"
proof -
  assume g: "good_table ps"
  then have "ps \<noteq> []" by auto
  then have "is_score (round_score (snd (hd ps)))" "is_score (round_score (snd (last ps)))"
    using good_table_scores[OF g] int_score_round by simp_all
  then show ?thesis using interpolate_score[OF g] by (simp add: curve_def)
qed

lemma tables_good [simp]:
  "good_table GROWTH_CURVE" "good_table TREND_CURVE" "good_table PE_CURVE" "good_table RETURN_CURVE"
  by (simp_all add: GROWTH_CURVE_def TREND_CURVE_def PE_CURVE_def RETURN_CURVE_def int_score_def)

lemma growth_trend_score [simp]: "is_score (growth_score v)" "is_score (trend_score v)"
  by (simp_all add: growth_score_def trend_score_def curve_score)

section \<open>Metrics are valid\<close>

lemma metric_float_valid:
  assumes "0 \<le> x" "x \<le> 100" and "0 < w" "w \<le> 100"
  shows "metric_ok 0 10000 (metric name d (fl64 x) w)"
  using round_float_ok[OF assms(1,2)] assms(3,4) by (auto simp: metric_ok_def metric_def is_score_def)

lemma metric_valid:
  assumes "is_score s" and w: "0 < w" "w \<le> 100"
  shows "metric_ok 0 10000 (metric name d s w)"
proof -
  obtain k where k: "0 \<le> k" "k \<le> 10000" "s = cents k" using assms(1) by (auto simp: is_score_def)
  then have "0 \<le> (of_int k / 100 :: rat)" "(of_int k / 100 :: rat) \<le> 100" by simp_all
  from metric_float_valid[OF this w] show ?thesis by (simp add: k(3) cents_def)
qed

abbreviation metrics_ok :: "metric_result list \<Rightarrow> bool" where "metrics_ok ms \<equiv> list_all (metric_ok 0 10000) ms"

lemma metrics_append: "metrics_ok xs \<Longrightarrow> metrics_ok ys \<Longrightarrow> metrics_ok (xs @ ys)"
  by simp

lemma metrics_Cons: "metric_ok 0 10000 m \<Longrightarrow> metrics_ok ms \<Longrightarrow> metrics_ok (m # ms)"
  by simp

lemma metrics_Nil: "metrics_ok []"
  by simp

lemma metrics_given: "metrics_ok ms \<Longrightarrow> metrics_ok (given b ms)"
  by (simp add: given_def)

lemma metrics_on_datum: "(\<And>x. metrics_ok (f x)) \<Longrightarrow> metrics_ok (on_datum d f)"
  by (simp add: on_datum_def split: option.splits)

lemma metric_curve: "good_table ps \<Longrightarrow> 0 < w \<Longrightarrow> w \<le> 100 \<Longrightarrow> metric_ok 0 10000 (metric name d (curve v ps) w)"
  by (rule metric_valid[OF curve_score])

lemma share_percent_bounds: "k \<le> n \<Longrightarrow> 0 \<le> share_percent k n \<and> share_percent k n \<le> 100"
proof -
  assume "k \<le> n"
  then have "0 \<le> (of_nat k / of_nat n :: rat)" "(of_nat k / of_nat n :: rat) \<le> 1"
    by (cases "n = 0"; simp add: divide_le_eq_1)+
  then have "0 \<le> dec28 (of_nat k / of_nat n)" "dec28 (of_nat k / of_nat n) \<le> 1"
    using dec28_between[of 0 1] by simp_all
  then show ?thesis using dec28_between[of 0 100] by (simp add: share_percent_def)
qed

lemma positive_share_bounds: "0 \<le> positive_share ds \<and> positive_share ds \<le> 100"
  unfolding positive_share_def by (rule share_percent_bounds) (rule length_filter_le)

lemma growth_consistency_bounds:
  assumes "growth_consistency r e = Some (s, ds)"
  shows "0 \<le> s \<and> s \<le> 100"
proof -
  let ?ps = "growth_pairs r @ growth_pairs e"
  have "s = share_percent (length (filter (\<lambda>(p, c). dt_value p \<le> dt_value c) ?ps)) (length ?ps)"
    using assms unfolding growth_consistency_def Let_def by (auto simp del: filter_append length_append split: if_splits)
  then show ?thesis using share_percent_bounds[OF length_filter_le, of "\<lambda>(p, c). dt_value p \<le> dt_value c" ?ps] by simp
qed

lemma metric_share: "0 < w \<Longrightarrow> w \<le> 100 \<Longrightarrow> metric_ok 0 10000 (metric name d (fl64 (positive_share ds)) w)"
  using positive_share_bounds by (intro metric_float_valid) simp_all

lemmas metrics_intros = metrics_append metrics_Cons metrics_Nil metrics_given metrics_on_datum metric_curve metric_share

lemma valuation_ok: "metrics_ok (valuation_metrics facts structured financial)"
  unfolding valuation_metrics_def Let_def by (intro metrics_intros; simp add: int_score_def)

lemma quality_ok: "metrics_ok (quality_metrics facts structured financial)"
  unfolding quality_metrics_def return_metric_def cash_metric_def Let_def by (intro metrics_intros; simp add: int_score_def)

lemma change_ok: "0 < w \<Longrightarrow> w \<le> 100 \<Longrightarrow> metrics_ok (change_metric name evidence w c)"
  unfolding change_metric_def growth_score_def by (auto split: option.splits intro: metric_curve)

lemma cagr_ok: "0 < w \<Longrightarrow> w \<le> 100 \<Longrightarrow> metrics_ok (cagr_metric name evidence w series c)"
  unfolding cagr_metric_def growth_score_def by (auto split: option.splits intro: metric_curve)

lemma growth_ok: "metrics_ok (growth_metrics fpow facts)"
  unfolding growth_metrics_def Let_def
  by (intro metrics_append change_ok cagr_ok)
    (auto split: option.splits dest: growth_consistency_bounds intro!: metric_float_valid)

lemma quarterly_ok: "metrics_ok (quarterly_metrics facts)"
  unfolding quarterly_metrics_def Let_def by (intro metrics_intros change_ok; simp add: int_score_def)

lemma lender_ok: "metrics_ok (lender_metrics facts)"
  unfolding lender_metrics_def Let_def by (intro metrics_intros; simp add: int_score_def)

lemma corporate_ok: "metrics_ok (corporate_metrics facts structured)"
  unfolding corporate_metrics_def Let_def by (intro metrics_intros; simp add: int_score_def)

lemma technical_ok: "metrics_ok (technical_metrics prices)"
  unfolding technical_metrics_def Let_def trend_score_def by (intro metrics_intros; simp add: int_score_def)

lemma trend_metric_ok: "metrics_ok (trend_metric l p (c, n, w))" if "0 < w" "w \<le> 100"
  using that unfolding trend_metric_def Let_def by (auto split: option.splits simp: int_score_def intro!: metric_curve)

lemma shareholding_ok: "metrics_ok (shareholding_metrics snapshots)"
  unfolding shareholding_metrics_def Let_def
  by (intro metrics_append metrics_given) (auto split: option.splits simp: int_score_def intro!: metric_curve trend_metric_ok)

lemma event_score_ok: "is_score (event_score e)"
  unfolding event_score_def Let_def by (rule round_score_ok) (simp_all add: clamp_def)

lemma event_metrics_ok: "0 < w \<Longrightarrow> w \<le> 100 \<Longrightarrow> metrics_ok (map (event_metric w) es)"
  unfolding event_metric_def list_all_iff using metric_valid[OF event_score_ok] by simp

lemma governance_ok: "metrics_ok (governance_metrics disclosure events shareholding)"
proof -
  have "is_score 60" "is_score 65" using is_scoreI[of 6000] is_scoreI[of 6500] fl64_int[of 60] fl64_int[of 65]
    by (simp_all add: cents_def)
  then have "metric_ok 0 10000 (governance_metric e)" for e
    unfolding governance_metric_def Let_def by (intro metric_valid) (simp_all add: event_score_ok)
  moreover have "metrics_ok (pledge_governance_metrics shareholding)"
    unfolding pledge_governance_metrics_def by (auto split: option.splits simp: int_score_def intro!: metric_curve)
  ultimately show ?thesis unfolding governance_metrics_def by (auto simp: list_all_iff)
qed

lemma macro_ok: "metrics_ok (macro_metrics instrument sector structured events now)"
proof -
  have "is_score 50" using is_scoreI[of 5000] by simp
  then show ?thesis unfolding macro_metrics_def Let_def trend_score_def
    by (intro metrics_append metrics_on_datum event_metrics_ok)
      (auto split: option.splits intro!: metrics_given metric_valid metric_curve)
qed


section \<open>News impact stays in its range\<close>

definition feature_ok :: "impact_feature \<Rightarrow> bool" where
  "feature_ok f \<longleftrightarrow> \<bar>nf_impact f\<bar> \<le> 100"

lemma impact_bound: "feature_ok f \<Longrightarrow> impact_at f now = Some v \<Longrightarrow> \<bar>v\<bar> \<le> 100"
proof -
  assume f: "feature_ok f" and v: "impact_at f now = Some v"
  have "\<bar>round8 (fl64 (nf_impact f * d))\<bar> \<le> 100" if d: "0 \<le> d" "d \<le> 1" for d
  proof -
    have "\<bar>nf_impact f * d\<bar> \<le> 100" using f d mult_mono[of "\<bar>nf_impact f\<bar>" 100 d 1] by (simp add: feature_ok_def abs_mult)
    then have "\<bar>fl64 (nf_impact f * d)\<bar> \<le> 100" by (rule fl64_abs_100)
    then show ?thesis by (intro round8_bound) simp
  qed
  then show ?thesis using f v unfolding impact_at_def Let_def feature_ok_def by (auto split: option.splits if_splits)
qed

text \<open>
  The mean of \<open>n\<close> impacts is off by at most \<open>(5 n + 1) 400 / 2^53\<close>, less than \<open>1 / 2048\<close> up to
  \<open>MAX_RECORDS\<close> of them.
\<close>

definition MAX_RECORDS :: nat where "MAX_RECORDS = 10 ^ 9"

lemma fl64_slack: "fl64 (100 + 1 / 1024) = 100 + 1 / 1024"
proof (rule binary64.rnd_exact, unfold few_digits_def, intro exI conjI)
  show "(100 + 1 / 1024 :: rat) = of_int 102401 * of_nat 2 powi (- 10)" by (simp add: power_int_minus)
qed simp_all

lemma mean_bound:
  assumes v: "list_all (\<lambda>v. \<bar>v\<bar> \<le> 100) vs" and "vs \<noteq> []" and len: "length vs \<le> MAX_RECORDS"
  shows "\<bar>fl64 (py_sum vs / of_nat (length vs))\<bar> \<le> 100 + 1 / 1024"
proof -
  define n where "n = (of_nat (length vs) :: rat)"
  have n: "1 \<le> n" "0 < n" using assms(2) unfolding n_def by (cases vs; simp)+
  have n9: "n \<le> 10 ^ 9"
    using len unfolding n_def MAX_RECORDS_def by (metis of_nat_le_iff of_nat_numeral of_nat_power)
  have s: "sum_list (map abs vs) \<le> 100 * n" unfolding n_def using v by (induction vs) (auto simp: algebra_simps)
  have "\<bar>sum_list vs\<bar> \<le> 100 * n" using s sum_list_abs[of vs] by linarith
  moreover have "\<bar>py_sum vs - sum_list vs\<bar> \<le> (5 * n + 1) * (4 * (100 * n) / 2 ^ 53)"
    unfolding n_def by (rule py_sum_error_length[OF _ s[unfolded n_def]])
      (use n len in \<open>simp_all add: n_def MAX_RECORDS_def\<close>)
  moreover have "(5 * n + 1) * (4 * (100 * n) / 2 ^ 53) \<le> (1 / 1024) * n"
  proof -
    have "(5 * n + 1) * (400 / 2 ^ 53) \<le> 1 / 1024" using n9 by simp
    then have "(5 * n + 1) * (400 / 2 ^ 53) * n \<le> 1 / 1024 * n" using n(2) by (intro mult_right_mono) simp_all
    then show ?thesis by (simp add: algebra_simps)
  qed
  ultimately have "\<bar>py_sum vs\<bar> \<le> (100 + 1 / 1024) * n" unfolding distrib_right by linarith
  then have "\<bar>py_sum vs / n\<bar> \<le> 100 + 1 / 1024" using n(2) by (simp add: abs_divide pos_divide_le_eq)
  then have "py_sum vs / n \<le> 100 + 1 / 1024" "- (py_sum vs / n) \<le> 100 + 1 / 1024" by (simp_all only: abs_le_iff)
  then have "fl64 (py_sum vs / n) \<le> 100 + 1 / 1024" "- fl64 (py_sum vs / n) \<le> 100 + 1 / 1024"
    using fl64_mono fl64_slack fl64_minus by metis+
  then show ?thesis unfolding n_def by (simp only: abs_le_iff)
qed

lemma latest_step:
  "\<exists>sel'. latest_features now sel (f # fs) = latest_features now sel' fs \<and> (sel' = sel \<or> sel' = dset (nf_key f) f sel)"
  by (cases "now < known_at f"; cases "map_of sel (nf_key f)") auto

lemma dset_size: "length (dset k v d) \<le> Suc (length d) \<and> set (map snd (dset k v d)) \<subseteq> insert v (set (map snd d))"
  by (induction d) auto

lemma latest_features_size:
  "length (latest_features now sel fs) \<le> length sel + length fs \<and>
   set (map snd (latest_features now sel fs)) \<subseteq> set (map snd sel) \<union> set fs"
proof (induction fs arbitrary: sel)
  case (Cons f fs)
  obtain sel' where s: "latest_features now sel (f # fs) = latest_features now sel' fs"
      "sel' = sel \<or> sel' = dset (nf_key f) f sel"
    using latest_step by blast
  then have "length sel' \<le> Suc (length sel)" "set (map snd sel') \<subseteq> insert f (set (map snd sel))"
    using dset_size[of "nf_key f" f sel] by auto
  moreover have "length (latest_features now sel' fs) \<le> length sel' + length fs"
    and "set (map snd (latest_features now sel' fs)) \<subseteq> set (map snd sel') \<union> set fs"
    using Cons[of sel'] by blast+
  ultimately show ?case unfolding s(1) by (simp del: set_map) blast
qed simp

lemma latest_known_set: "set (latest_known_features fs now) \<subseteq> set fs"
  using latest_features_size[of now "[]" fs] by (auto simp: latest_known_features_def)

lemma aggregate_bound:
  assumes f: "list_all feature_ok fs" "length fs \<le> MAX_RECORDS" and v: "aggregate_impact fs now = Some v"
  shows "\<bar>v\<bar> \<le> 100 + 1 / 1000"
proof -
  let ?vs = "List.map_filter (\<lambda>f. impact_at f now) (latest_known_features fs now)"
  have "\<forall>f \<in> set (latest_known_features fs now). feature_ok f"
    using f(1) latest_known_set[of fs now] by (auto simp: list_all_iff)
  then have "list_all (\<lambda>v. \<bar>v\<bar> \<le> 100) ?vs" unfolding list_all_iff set_map_filter using impact_bound by blast
  moreover have "length ?vs \<le> MAX_RECORDS"
    using length_map_filter[of "\<lambda>f. impact_at f now" "latest_known_features fs now"] latest_features_size[of now "[]" fs] f(2)
    by (simp add: latest_known_features_def)
  moreover have "?vs \<noteq> []" and "v = round8 (fl64 (py_sum ?vs / of_nat (length ?vs)))"
    using v by (auto simp: aggregate_impact_def Let_def split: if_splits)
  ultimately show ?thesis using round8_near[OF mean_bound] by simp
qed

lemma impact_score_range:
  assumes "\<bar>v\<bar> \<le> 100 + 1 / 1000"
  shows "- 1 / 512 < fl64 (50 + fl64 (v / 2)) \<and> fl64 (50 + fl64 (v / 2)) < 51201 / 512"
proof -
  have h: "\<bar>v / 2\<bar> \<le> 50 + 1 / 2000" using assms by simp
  then have "\<bar>fl64 (v / 2) - v / 2\<bar> \<le> 1 / 10000000" by (intro fl64_near) linarith
  then have b: "\<bar>fl64 (v / 2)\<bar> \<le> 50 + 1 / 1999" using h by linarith
  then have "\<bar>fl64 (50 + fl64 (v / 2)) - (50 + fl64 (v / 2))\<bar> \<le> 1 / 10000000" by (intro fl64_near) linarith
  then show ?thesis using b by linarith
qed

section \<open>Every area is valid\<close>

lemma empty_area_ok: "area_ok 0 10000 (finish rd ar [] missing app)"
  by (rule finish_area_ok) simp_all

lemma finish_ok: "metrics_ok ms \<Longrightarrow> length ms \<le> 10 ^ 12 \<Longrightarrow> area_ok 0 10000 (finish rd ar ms missing app)"
  by (rule finish_area_ok) simp_all

lemma if_area: "(P \<Longrightarrow> area_ok a b x) \<Longrightarrow> (\<not> P \<Longrightarrow> area_ok a b y) \<Longrightarrow> area_ok a b (if P then x else y)"
  by simp

lemma case_area:
  "(opt = None \<Longrightarrow> area_ok a b x) \<Longrightarrow> (\<And>y. opt = Some y \<Longrightarrow> area_ok a b y) \<Longrightarrow>
   area_ok a b (case opt of None \<Rightarrow> x | Some y \<Rightarrow> y)"
  by (cases opt) simp_all

lemma ready_ok: "area_ok 0 10000 base \<Longrightarrow> area_ok 0 10000 (ready_without_score rd base evidence)"
  by (simp add: area_ok_def ready_without_score_def split: option.splits)

lemma single_mean:
  assumes "- 1 / 512 < x \<and> x < 51201 / 512" and "fl64 x = x"
  shows "\<exists>k. 0 \<le> k \<and> k \<le> 10000 \<and> weighted_mean [(x, 1)] = Some (cents k)"
proof -
  have "- 1 / 512 \<le> repr_dec x \<and> repr_dec x \<le> 51201 / 512" using repr_near_range assms by blast
  then have "- 1 / 512 \<le> dec28 (dec28 (dec28 (repr_dec x))) \<and> dec28 (dec28 (dec28 (repr_dec x))) \<le> 51201 / 512"
    by (intro dec28_near_range)
  then show ?thesis using round_score_near by (simp add: weighted_mean_def decimal_sum_def)
qed

lemma news_ok:
  assumes f: "list_all feature_ok fs" "length fs \<le> MAX_RECORDS" and e: "length events \<le> 10 ^ 12"
  shows "area_ok 0 10000 (news_area rd sector events fs run now)"
proof (cases "aggregate_impact fs now")
  case None
  have d: "length (distinct_events seen es) \<le> length es" for seen es
    by (induction seen es rule: distinct_events.induct) auto
  have "length (news_events sector now events) \<le> 10 ^ 12"
    unfolding news_events_def by (rule order_trans[OF d order_trans[OF length_filter_le e]])
  then have "area_ok 0 10000 (finish rd NEWS_GEOPOLITICAL_EVENTS (map (event_metric 1) (news_events sector now events)) miss True)" for miss
    by (intro finish_ok event_metrics_ok) simp_all
  then show ?thesis
    unfolding news_area_def Let_def None option.case by (intro if_area ready_ok empty_area_ok)
next
  case (Some v)
  let ?m = "impact_metric fs v"
  have s: "\<exists>k. 0 \<le> k \<and> k \<le> 10000 \<and> weighted_mean [(mr_score ?m, mr_weight ?m)] = Some (cents k)"
    using single_mean impact_score_range[OF aggregate_bound[OF f Some]] fl64_idem by (simp add: impact_metric_def)
  then have "area_ok 0 10000 (finish rd NEWS_GEOPOLITICAL_EVENTS [?m] [] True)"
    using finish_raw[of rd NEWS_GEOPOLITICAL_EVENTS "[?m]" "[]" True]
      finish_weight[of rd NEWS_GEOPOLITICAL_EVENTS "[?m]" "[]" True] unfolding area_ok_def by auto
  then show ?thesis unfolding news_area_def Let_def Some by (simp add: area_ok_def split: option.splits)
qed

lemma length_given: "length (given b xs) \<le> length xs"
  by (simp add: given_def)

lemma completed_check_ok: "completed_check_area rd ar prefix = Some r \<Longrightarrow> area_ok 0 10000 r"
  unfolding completed_check_area_def Let_def using empty_area_ok ready_ok[OF empty_area_ok] by (auto split: if_splits)

lemma catalyst_ok: "length events \<le> 10 ^ 12 \<Longrightarrow> area_ok 0 10000 (catalyst_area rd events)"
proof -
  assume "length events \<le> 10 ^ 12"
  then have n: "length (filter P events) \<le> 10 ^ 12" for P using length_filter_le order_trans by blast
  have "area_ok 0 10000 (finish rd ORDER_BOOK_CAPACITY_CATALYSTS (map (event_metric 1) (filter P events)) miss True)" for P miss
    by (intro finish_ok event_metrics_ok) (use n in \<open>auto simp: length_map\<close>)
  then show ?thesis
    unfolding catalyst_area_def Let_def by (intro if_area case_area) (assumption | rule completed_check_ok)+
qed

lemma governance_area_ok: "length events \<le> MAX_RECORDS \<Longrightarrow> area_ok 0 10000 (governance_area disclosure rd events sh)"
proof -
  assume e: "length events \<le> MAX_RECORDS"
  have "length (pledge_governance_metrics sh) \<le> 1" by (simp add: pledge_governance_metrics_def split: option.splits)
  moreover have "length (filter (governance_event disclosure) events) \<le> length events" by (rule length_filter_le)
  ultimately have "length (governance_metrics disclosure events sh) \<le> length events + 1"
    unfolding governance_metrics_def length_append length_map by linarith
  then have n: "length (governance_metrics disclosure events sh) \<le> 10 ^ 12" using e by (simp add: MAX_RECORDS_def)
  show ?thesis
    unfolding governance_area_def Let_def by (intro if_area ready_ok empty_area_ok finish_ok governance_ok n)
qed

lemma length_on_datum: "(\<And>x. length (f x) \<le> n) \<Longrightarrow> length (on_datum d f) \<le> n"
  by (simp add: on_datum_def split: option.splits)

lemma macro_area_ok: "length events \<le> MAX_RECORDS \<Longrightarrow> area_ok 0 10000 (sector_macro_area rd i sector records events now)"
proof -
  assume e: "length events \<le> MAX_RECORDS"
  let ?es = "filter (\<lambda>e. is_macro_event e \<and> proven_macro_exposure sector e) events"
  have "length (case sector of None \<Rightarrow> [] | Some s \<Rightarrow> given (s \<noteq> []) [m s]) \<le> 1" for m :: "string \<Rightarrow> metric_result"
    by (simp add: given_def split: option.splits)
  moreover have "length (on_datum d (\<lambda>d. let v = as_percent (dt_value d) in [m d v])) \<le> 1" for d and m :: "datum \<Rightarrow> rat \<Rightarrow> metric_result"
    by (rule length_on_datum) (simp add: Let_def)
  moreover have "length ?es \<le> length events" by (rule length_filter_le)
  ultimately have "length (macro_metrics i sector (structured_data records) events now) \<le> 1 + (1 + length events)"
    unfolding macro_metrics_def length_append length_map by (intro add_mono)
  then have "length (macro_metrics i sector (structured_data records) events now) \<le> 10 ^ 12" using e by (simp add: MAX_RECORDS_def)
  then show ?thesis unfolding sector_macro_area_def Let_def by (intro finish_ok macro_ok)
qed

lemma small_append: "length xs \<le> m \<Longrightarrow> length ys \<le> n \<Longrightarrow> length (xs @ ys) \<le> m + n"
  by simp

lemma small_given: "length xs \<le> n \<Longrightarrow> length (given b xs) \<le> n"
  by (simp add: given_def)

lemma small_change: "length (change_metric name evidence w c) \<le> 1"
  by (simp add: change_metric_def split: option.splits prod.splits)

lemma small_cagr: "length (cagr_metric name evidence w series c) \<le> 1"
  by (simp add: cagr_metric_def split: option.splits)

lemma small_trend: "length (trend_metric l p x) \<le> 1"
  by (simp add: trend_metric_def Let_def split: option.splits prod.splits)

lemma small_share: "length (case x of None \<Rightarrow> [] | Some v \<Rightarrow> [f v]) \<le> 1"
  by (simp split: option.splits)

lemma small_consistency: "length (case x of None \<Rightarrow> [] | Some (s, d) \<Rightarrow> [f s d]) \<le> 1"
  by (simp split: option.splits prod.splits)

lemma small_concat: "length (concat (map (trend_metric l p) [a, b, c])) \<le> 3"
  using small_trend[of l p a] small_trend[of l p b] small_trend[of l p c] by simp

lemma small_explicit: "length [] \<le> 0" "length [x] \<le> 1" "length [x, y] \<le> 2"
  by simp_all

lemmas small_rules = small_append small_given small_change small_cagr small_share small_consistency small_concat
  length_on_datum small_explicit

lemma small_lists:
  "length (valuation_metrics facts structured financial) \<le> 1000"
  "length (quality_metrics facts structured financial) \<le> 1000"
  "length (growth_metrics fpow facts) \<le> 1000"
  "length (quarterly_metrics facts) \<le> 1000"
  "length (lender_metrics facts) \<le> 1000"
  "length (corporate_metrics facts structured) \<le> 1000"
  "length (technical_metrics prices) \<le> 1000"
  "length (shareholding_metrics snapshots) \<le> 1000"
  unfolding valuation_metrics_def quality_metrics_def return_metric_def cash_metric_def growth_metrics_def quarterly_metrics_def
    lender_metrics_def corporate_metrics_def technical_metrics_def shareholding_metrics_def Let_def
  by (rule order_trans, (rule small_rules)+, simp)+

lemma finish_small: "metrics_ok ms \<Longrightarrow> length ms \<le> 1000 \<Longrightarrow> area_ok 0 10000 (finish rd ar ms missing app)"
  by (rule finish_ok) simp_all

lemma balance_ok: "balance_sheet_area rd facts records md = Some r \<Longrightarrow> area_ok 0 10000 r"
  unfolding balance_sheet_area_def Let_def
  using finish_small[OF lender_ok small_lists(5)] finish_small[OF corporate_ok small_lists(6)] by (auto split: option.splits)

lemma technical_area_ok: "area_ok 0 10000 (technical_area rd prices)"
  unfolding technical_area_def Let_def by (intro if_area empty_area_ok finish_small technical_ok small_lists)

lemma shareholding_area_ok: "area_ok 0 10000 (shareholding_area rd india sh)"
  unfolding shareholding_area_def Let_def by (intro if_area empty_area_ok finish_small shareholding_ok small_lists)

lemma data_areas_ok:
  "area_ok 0 10000 (valuation_area rd facts records prices financial now)"
  "area_ok 0 10000 (quality_area rd facts records financial)"
  "area_ok 0 10000 (growth_area fpow rd facts)"
  "area_ok 0 10000 (quarterly_area rd facts)"
  unfolding valuation_area_def quality_area_def growth_area_def quarterly_area_def Let_def
  by (intro finish_small valuation_ok quality_ok growth_ok quarterly_ok small_lists)+

definition input_ok :: "stock_input \<Rightarrow> bool" where
  "input_ok v \<longleftrightarrow> list_all feature_ok (si_features v) \<and>
     length (si_features v) \<le> MAX_RECORDS \<and> length (si_events v) \<le> MAX_RECORDS"

lemma stock_areas_ok:
  assumes "input_ok v" and "stock_areas fpow disclosure v = Some areas"
  shows "list_all (area_ok 0 10000) areas \<and> length areas = 11"
proof -
  have f: "list_all feature_ok (si_features v)" "length (si_features v) \<le> MAX_RECORDS" "length (si_events v) \<le> MAX_RECORDS"
    "length (si_events v) \<le> 10 ^ 12"
    using assms(1) by (simp_all add: input_ok_def MAX_RECORDS_def)
  obtain b where b: "balance_sheet_area (si_readiness v) (si_facts v) (si_records v) (si_metadata v) = Some b"
    using assms(2) unfolding stock_areas_def Let_def by blast
  show ?thesis
    using assms(2) data_areas_ok balance_ok[OF b] catalyst_ok[OF f(4)] technical_area_ok news_ok[OF f(1,2,4)]
      shareholding_area_ok governance_area_ok[OF f(3)] macro_area_ok[OF f(3)]
    unfolding stock_areas_def Let_def b by (simp only: option.map option.inject) (elim subst; simp)
qed

lemma evaluated_scores_ok:
  assumes "input_ok v" and "stock_areas fpow disclosure v = Some areas" and "evaluate_input fpow disclosure v allow_partial = Some r"
  shows "pred_option is_score (sr_overall r) \<and> pred_option is_score (sr_quality r) \<and>
    pred_option is_score (sr_opportunity r) \<and> pred_option is_score (sr_risk r) \<and> is_score (sr_confidence_score r)"
proof -
  have e: "evaluate_stock (si_readiness v) areas (risk_overrides (si_events v) (si_features v) (si_facts v) (si_records v)
      (is_financial (si_metadata v) (si_records v)) (si_now v)) allow_partial = Some r"
    using assms(2,3) by (simp add: evaluate_input_def)
  have ok: "list_all (area_ok 0 10000) areas" "length areas \<le> 10 ^ 12"
    using stock_areas_ok[OF assms(1,2)] by simp_all
  have "pred_option is_score (sr_overall r)"
    using overall_scores_in_range[OF ok(1) _ _ ok(2) e] by (auto intro: option.pred_mono_strong)
  then show ?thesis using overall_scores_in_range[OF ok(1) _ _ ok(2) e] by simp
qed

section \<open>The properties\<close>

text \<open>C24: Whatever financial, market, event, news and shareholding evidence an instrument has, the overall, quality,
  opportunity, risk and confidence scores of its evaluation, and the raw score and the weighted contribution of each of its
  eleven areas, are numbers of hundredths from 0 to 100, whatever \<open>math.pow\<close> and the governance patterns answer. The
  news impacts are those the news service stores, of at most 100 in absolute value, and there are at most
  \<open>MAX_RECORDS\<close> (a thousand million) of them and of the events: beyond, the rounding errors of the float sum are not
  bounded here.\<close>

theorem stock_scores_valid:
  assumes "input_ok v" and "evaluate_input fpow disclosure v allow_partial = Some r"
  shows "pred_option is_score (sr_overall r) \<and> pred_option is_score (sr_quality r) \<and>
    pred_option is_score (sr_opportunity r) \<and> pred_option is_score (sr_risk r) \<and> is_score (sr_confidence_score r) \<and>
    (\<exists>areas. stock_areas fpow disclosure v = Some areas \<and> length areas = 11 \<and>
       list_all (\<lambda>a. pred_option is_score (ar_raw a) \<and> is_score (ar_contribution a)) areas)"
proof -
  obtain areas where a: "stock_areas fpow disclosure v = Some areas"
    using assms(2) unfolding evaluate_input_def by (auto simp: bind_eq_Some_conv)
  have "list_all (\<lambda>a. pred_option is_score (ar_raw a) \<and> is_score (ar_contribution a)) areas"
    using stock_areas_ok[OF assms(1) a] area_scores by (auto simp: list_all_iff)
  then show ?thesis using evaluated_scores_ok[OF assms(1) a assms(2)] stock_areas_ok[OF assms(1) a] a by blast
qed

lemma evaluate_stock_total:
  assumes "\<forall>k \<in> set CRITICAL_REQUIREMENTS. by_id rd k \<noteq> None"
  shows "evaluate_stock rd areas ovs p \<noteq> None"
proof -
  have "\<forall>k \<in> set CRITICAL_REQUIREMENTS. \<exists>r \<in> set (rd_requirements rd). rr_id r = k"
    using assms by_id_member by blast
  then have n: "(decision s rd c q ovs = None) = False" for s c q
    using critical_fresh_total[of CRITICAL_REQUIREMENTS rd] by (auto simp: decision_def Let_def split: option.splits)
  then have m: "((if b then decision s rd c q ovs else Some i) = None) = False" for b s c q i by simp
  have k: "(case x of None \<Rightarrow> None | Some d \<Rightarrow> Some (f d)) \<noteq> None" if "(x = None) = False" for x :: "'x option" and f :: "'x \<Rightarrow> 'y"
    using that by (auto split: option.splits)
  show ?thesis unfolding evaluate_stock_def Let_def by (rule k[OF m])
qed

lemma balance_sheet_requirement:
  "balance_sheet_area rd facts records md = None \<longleftrightarrow> by_id rd ''BALANCE_SHEET_FACTS'' = None"
proof -
  have "by_id rd k = None \<longleftrightarrow> find (\<lambda>r. rr_id r = k) (rd_requirements rd) = None" for k
    unfolding by_id_def map_of_eq_None_iff find_None_iff by (auto simp: image_iff)
  then show ?thesis unfolding balance_sheet_area_def Let_def by (simp split: option.splits)
qed

text \<open>An evaluation, full or partial, returns whenever the readiness lists every critical requirement; when it
  does not list the balance sheet facts the evaluation raises, even one that would have been full or hidden.\<close>

theorem evaluation_needs_critical_requirements:
  "(evaluate_input fpow disclosure v allow_partial = None \<longrightarrow>
      (\<exists>k \<in> set CRITICAL_REQUIREMENTS. by_id (si_readiness v) k = None)) \<and>
   (by_id (si_readiness v) ''BALANCE_SHEET_FACTS'' = None \<longrightarrow> evaluate_input fpow disclosure v allow_partial = None)"
proof -
  have areas: "stock_areas fpow disclosure v = None \<longleftrightarrow> by_id (si_readiness v) ''BALANCE_SHEET_FACTS'' = None"
    unfolding stock_areas_def Let_def by (simp add: balance_sheet_requirement)
  have "\<exists>k \<in> set CRITICAL_REQUIREMENTS. by_id (si_readiness v) k = None"
    if n: "evaluate_input fpow disclosure v allow_partial = None"
  proof (cases "stock_areas fpow disclosure v")
    case None
    then show ?thesis using areas by (auto simp: CRITICAL_REQUIREMENTS_def)
  next
    case (Some areas)
    have "evaluate_stock (si_readiness v) areas ovs p = None \<Longrightarrow> ?thesis" for ovs p
      by (rule ccontr) (use evaluate_stock_total[of "si_readiness v" areas ovs p] in simp)
    then show ?thesis using n unfolding evaluate_input_def Some Option.bind.bind_lunit .
  qed
  then show ?thesis using areas by (auto simp: evaluate_input_def)
qed

text \<open>The selected data of a list: one of top authority for every period key.\<close>

definition selected :: "(period_id \<times> datum) list \<Rightarrow> datum list \<Rightarrow> bool" where
  "selected sel ds \<longleftrightarrow> distinct (map fst sel) \<and>
     (\<forall>(k, d) \<in> set sel. k = period_key d \<and> d \<in> set ds \<and> (\<forall>e \<in> set ds. period_key e = k \<longrightarrow> dt_authority e \<le> dt_authority d)) \<and>
     (\<forall>e \<in> set ds. period_key e \<in> set (map fst sel))"

lemma set_dset_distinct: "distinct (map fst d) \<Longrightarrow> set (dset k v d) = insert (k, v) {p \<in> set d. fst p \<noteq> k}"
  by (induction d) (auto simp: rev_image_eqI)

lemma keys_dset: "set (map fst (dset k v d)) = insert k (set (map fst d))"
  by (induction d) auto

lemma selected_dset:
  assumes sel: "selected sel ds" and x: "\<And>e. map_of sel (period_key x) = Some e \<Longrightarrow> dt_authority e \<le> dt_authority x"
  shows "selected (dset (period_key x) x sel) (ds @ [x])"
proof -
  have d: "distinct (map fst sel)" using sel unfolding selected_def by blast
  have old: "k = period_key d" "d \<in> set ds" "\<And>e. e \<in> set ds \<Longrightarrow> period_key e = k \<Longrightarrow> dt_authority e \<le> dt_authority d"
    if "(k, d) \<in> set sel" for k d using that sel unfolding selected_def by blast+
  have keys: "period_key e \<in> set (map fst sel)" if "e \<in> set ds" for e using that sel unfolding selected_def by blast
  have best: "dt_authority e \<le> dt_authority x" if e: "e \<in> set ds" "period_key e = period_key x" for e
  proof -
    obtain d where m: "map_of sel (period_key x) = Some d" using keys[OF e(1)] e(2) by (metis map_of_eq_None_iff option.exhaust list.set_map)
    show ?thesis using old(3)[OF map_of_SomeD[OF m] e] x[OF m] by simp
  qed
  show ?thesis
    unfolding selected_def set_dset_distinct[OF d] keys_dset
  proof (intro conjI ballI)
    show "distinct (map fst (dset (period_key x) x sel))" by (rule distinct_update[OF d])
    fix p assume "p \<in> insert (period_key x, x) {p \<in> set sel. fst p \<noteq> period_key x}"
    then show "case p of (k, d) \<Rightarrow> k = period_key d \<and> d \<in> set (ds @ [x]) \<and>
        (\<forall>e \<in> set (ds @ [x]). period_key e = k \<longrightarrow> dt_authority e \<le> dt_authority d)"
      using best old[of "fst p" "snd p"] by (cases p) (simp, blast)
  next
    fix e assume "e \<in> set (ds @ [x])"
    then show "period_key e \<in> insert (period_key x) (set (map fst sel))" using keys by auto
  qed
qed

lemma selected_keep:
  assumes sel: "selected sel ds" and e: "map_of sel (period_key x) = Some e" "dt_authority x \<le> dt_authority e"
  shows "selected sel (ds @ [x])"
proof -
  have m: "(period_key x, e) \<in> set sel" by (rule map_of_SomeD[OF e(1)])
  have u: "d = e" if "(period_key x, d) \<in> set sel" for d
    using eq_key_imp_eq_value[OF _ that m] sel unfolding selected_def by blast
  have old: "k = period_key d" "d \<in> set ds" "\<And>e. e \<in> set ds \<Longrightarrow> period_key e = k \<Longrightarrow> dt_authority e \<le> dt_authority d"
    if "(k, d) \<in> set sel" for k d using that sel unfolding selected_def by blast+
  show ?thesis
    unfolding selected_def
  proof (intro conjI ballI)
    fix p assume p: "p \<in> set sel"
    obtain k d where kd: "p = (k, d)" "(k, d) \<in> set sel" using p by (metis prod.collapse)
    show "case p of (k, d) \<Rightarrow> k = period_key d \<and> d \<in> set (ds @ [x]) \<and>
        (\<forall>e \<in> set (ds @ [x]). period_key e = k \<longrightarrow> dt_authority e \<le> dt_authority d)"
      unfolding kd(1) prod.case using old[OF kd(2)] e(2) u kd(2) by auto
  next
    fix y assume "y \<in> set (ds @ [x])"
    then show "period_key y \<in> set (map fst sel)" using sel m unfolding selected_def by (auto intro: rev_image_eqI)
  qed (use sel in \<open>simp add: selected_def\<close>)
qed

lemma selected_step:
  assumes "selected sel ds"
  shows "\<exists>sel'. select_data sel (x # xs) = select_data sel' xs \<and> selected sel' (ds @ [x])"
proof (cases "map_of sel (period_key x)")
  case None
  then show ?thesis using selected_dset[OF assms, of x] by auto
next
  case (Some e)
  then show ?thesis
    using selected_dset[OF assms, of x] selected_keep[OF assms Some] by (cases "dt_authority e < dt_authority x") auto
qed

lemma select_data_selected: "selected sel ds \<Longrightarrow> selected (select_data sel xs) (ds @ xs)"
proof (induction xs arbitrary: sel ds)
  case (Cons x xs)
  then show ?case using selected_step[OF Cons.prems, of x xs] by force
qed simp

lemma py_max_in: "xs \<noteq> [] \<Longrightarrow> py_max f xs \<in> set xs \<and> (\<forall>x \<in> set xs. f x \<le> f (py_max f xs))"
proof -
  have "foldl (\<lambda>b x. if f b < f x then x else b) a ys \<in> set (a # ys) \<and>
      (\<forall>x \<in> set (a # ys). f x \<le> f (foldl (\<lambda>b x. if f b < f x then x else b) a ys))" for a ys
  proof (induction ys arbitrary: a)
    case (Cons y ys)
    show ?case using Cons[of y] Cons[of a] by (auto simp: not_less)
  qed simp
  then show "xs \<noteq> [] \<Longrightarrow> ?thesis" by (cases xs) (auto simp: py_max_def)
qed

lemma group_series_spec:
  assumes "g \<in> set (group_series ds)"
  shows "\<exists>k. g = filter (\<lambda>d. series_key d = k) ds \<and> g \<noteq> []"
  using assms unfolding group_series_def by (auto simp: filter_empty_conv)


lemma series_in_group: "d \<in> set ds \<Longrightarrow> \<exists>g \<in> set (group_series ds). d \<in> set g"
  unfolding group_series_def by auto

text \<open>The data of the wanted metrics and period type.\<close>

abbreviation wanted :: "rule_fact list \<Rightarrow> string list \<Rightarrow> string option \<Rightarrow> datum list" where
  "wanted facts metrics p \<equiv> List.map_filter (fact_datum metrics p) facts"

lemma sorted_le_last: "sorted xs \<Longrightarrow> x \<in> set xs \<Longrightarrow> x \<le> last xs"
  by (induction xs) auto

lemma fact_series_group:
  assumes "fact_series facts metrics p \<noteq> []"
  obtains sel g where "selected sel (wanted facts metrics p)" and "g \<in> set (group_series (map snd sel))"
    and "fact_series facts metrics p = sort_key as_of_time g"
    and "\<And>h. h \<in> set (group_series (map snd sel)) \<Longrightarrow> series_rank h \<le> series_rank g"
proof -
  let ?sel = "select_data [] (wanted facts metrics p)"
  have s: "selected ?sel (wanted facts metrics p)"
    using select_data_selected[of "[]" "[]" "wanted facts metrics p"] by (simp add: selected_def)
  let ?gs = "group_series (map snd ?sel)"
  have g: "?gs \<noteq> []" "fact_series facts metrics p = sort_key as_of_time (py_max series_rank ?gs)"
    using assms by (auto simp: fact_series_def Let_def)
  show thesis using that[OF s _ g(2)] py_max_in[OF g(1), of series_rank] by blast
qed

lemma fact_series_nonempty:
  assumes "d \<in> set (wanted facts metrics p)"
  shows "fact_series facts metrics p \<noteq> []"
proof -
  let ?sel = "select_data [] (wanted facts metrics p)"
  have "selected ?sel (wanted facts metrics p)"
    using select_data_selected[of "[]" "[]" "wanted facts metrics p"] by (simp add: selected_def)
  then have "?sel \<noteq> []" using assms unfolding selected_def by auto
  then obtain e where "e \<in> set (map snd ?sel)" by (metis list.set_intros(1) list.exhaust map_is_Nil_conv)
  then have n: "group_series (map snd ?sel) \<noteq> []" using series_in_group by fastforce
  then have "py_max series_rank (group_series (map snd ?sel)) \<noteq> []"
    using py_max_in[OF n, of series_rank] group_series_spec by blast
  then show ?thesis using n by (simp add: fact_series_def Let_def) (metis length_0_conv length_sort)
qed

text \<open>The series a rule reads never mixes standalone with consolidated, annual with quarterly or differently
  scaled figures; it ascends in time with one datum per period end, each of the highest authority that any
  fact of that period, basis and unit has; and no matching fact is newer than its last datum.\<close>

theorem fact_series_homogeneous:
  assumes "fact_series facts metrics p = s" and "s \<noteq> []"
  shows "(\<forall>d \<in> set s. \<forall>e \<in> set s. series_key d = series_key e) \<and> sorted (map as_of_time s) \<and> distinct (map dt_as_of s) \<and>
    (\<forall>d \<in> set s. d \<in> set (List.map_filter (fact_datum metrics p) facts) \<and>
      (\<forall>e \<in> set (List.map_filter (fact_datum metrics p) facts). period_key e = period_key d \<longrightarrow> dt_authority e \<le> dt_authority d)) \<and>
    (\<forall>e \<in> set (List.map_filter (fact_datum metrics p) facts). as_of_time e \<le> as_of_time (last s))"
proof -
  obtain sel g where sel: "selected sel (wanted facts metrics p)" and g: "g \<in> set (group_series (map snd sel))"
      and s: "s = sort_key as_of_time g" and top: "\<And>h. h \<in> set (group_series (map snd sel)) \<Longrightarrow> series_rank h \<le> series_rank g"
    using fact_series_group[of facts metrics p] assms by metis
  obtain k where k: "g = filter (\<lambda>d. series_key d = k) (map snd sel)" "g \<noteq> []" using group_series_spec[OF g] by blast
  have key: "series_key d = k" "d \<in> set (map snd sel)" if "d \<in> set g" for d using that unfolding k(1) by auto
  have in_sel: "d \<in> set (wanted facts metrics p)"
      "\<forall>e \<in> set (wanted facts metrics p). period_key e = period_key d \<longrightarrow> dt_authority e \<le> dt_authority d"
    if "d \<in> set (map snd sel)" for d
    using that sel unfolding selected_def by fastforce+
  have "distinct (map dt_as_of g)"
  proof -
    have "map fst sel = map period_key (map snd sel)" using sel unfolding selected_def by auto
    moreover have "distinct (map fst sel)" using sel unfolding selected_def by blast
    ultimately have "distinct (map period_key (map snd sel))" by (simp only:)
    then have dk: "distinct (map period_key g)" unfolding k(1) by (rule distinct_map_filter)
    have "inj_on dt_as_of (set g)"
    proof (rule inj_onI)
      fix d e assume de: "d \<in> set g" "e \<in> set g" "dt_as_of d = dt_as_of e"
      then have "period_key d = period_key e" using key(1)[of d] key(1)[of e] by (auto simp: period_key_def series_key_def)
      then show "d = e" using dk de by (meson distinct_map inj_onD)
    qed
    then show ?thesis using dk by (simp add: distinct_map)
  qed
  then have 1: "distinct (map dt_as_of s)" unfolding s by (simp add: distinct_map)
  have 2: "as_of_time e \<le> as_of_time (last s)" if e: "e \<in> set (wanted facts metrics p)" for e
  proof -
    obtain d where d: "d \<in> set (map snd sel)" "period_key d = period_key e" using e sel unfolding selected_def by fastforce
    obtain h where h: "h \<in> set (group_series (map snd sel))" "d \<in> set h" using series_in_group[OF d(1)] by blast
    have "as_of_time e = as_of_time d" using d(2) by (simp add: period_key_def as_of_time_def)
    also have "\<dots> \<le> Max (set (map as_of_time h))" using h(2) by simp
    also have "\<dots> \<le> Max (set (map as_of_time g))" using top[OF h(1)] by (auto simp: series_rank_def less_eq_prod_def)
    also have "\<dots> \<in> as_of_time ` set s" using k(2) by (simp add: s)
    then have "Max (set (map as_of_time g)) \<le> as_of_time (last s)"
      using sorted_le_last[of "map as_of_time s"] assms(2) by (auto simp: s last_map)
    finally show ?thesis .
  qed
  show ?thesis using key in_sel 1 2 unfolding s by auto
qed

section \<open>Shareholding: readiness and rule agree\<close>

lemma holding_present: "holding_of s c \<noteq> None \<longleftrightarrow> c \<in> set (map fst (hs_values s))"
  by (simp add: holding_of_def map_of_eq_None_iff)

text \<open>Readiness calls shareholding scorable exactly when the rule produces an ownership metric (promoter holding
  or one of the three trends): a pledge alone is no ownership metric, and a zero percentage counts as present.\<close>

theorem ownership_coverage_exact:
  "scorable_ownership snapshots \<longleftrightarrow>
   snapshots \<noteq> [] \<and> list_ex (\<lambda>m. mr_metric m \<noteq> ''PROMOTER_PLEDGE'') (shareholding_metrics (sort_key hs_period_end snapshots))"
proof (cases "snapshots = []")
  case False
  let ?o = "sort_key hs_period_end snapshots"
  have t: "list_ex (\<lambda>m. mr_metric m \<noteq> ''PROMOTER_PLEDGE'') (trend_metric l p (c, n, w)) \<longleftrightarrow>
      n \<noteq> ''PROMOTER_PLEDGE'' \<and> holding_of l c \<noteq> None \<and> holding_of p c \<noteq> None" for l p c n w
    by (auto simp: trend_metric_def metric_def Let_def split: option.splits)
  have g: "list_ex P (given b xs) \<longleftrightarrow> b \<and> list_ex P xs" for P :: "metric_result \<Rightarrow> bool" and b xs by (simp add: given_def)
  have h: "list_ex (\<lambda>m. mr_metric m \<noteq> ''PROMOTER_PLEDGE'')
      (case x of None \<Rightarrow> [] | Some v \<Rightarrow> [metric ''PROMOTER_HOLDING'' (d v) (s v) 25]) \<longleftrightarrow> x \<noteq> None" for x d s
    by (simp add: metric_def split: option.splits)
  have q: "list_ex (\<lambda>m. mr_metric m \<noteq> ''PROMOTER_PLEDGE'')
      (case x of None \<Rightarrow> [] | Some v \<Rightarrow> [metric ''PROMOTER_PLEDGE'' (d v) (s v) 35]) \<longleftrightarrow> False" for x d s
    by (simp add: metric_def split: option.splits)
  show ?thesis
    unfolding scorable_ownership_def shareholding_metrics_def Let_def list_ex_append h q g list.map concat.simps t
      holding_present
    using False by auto
qed (simp add: scorable_ownership_def Let_def)

section \<open>News cannot look ahead\<close>

lemma latest_filter: "latest_features now sel (filter (\<lambda>f. known_at f \<le> now) fs) = latest_features now sel fs"
  by (induction now sel fs rule: latest_features.induct) (auto split: option.splits)

text \<open>C34: Features that became public, discovered or computed after the moment of evaluation have no influence on the
  aggregated impact at that moment, however they are ordered among the others.\<close>

theorem news_impact_has_no_lookahead:
  "aggregate_impact (filter (\<lambda>f. known_at f \<le> now) fs) now = aggregate_impact fs now"
  by (simp add: aggregate_impact_def latest_known_features_def latest_filter)

section \<open>Event scores\<close>

lemma dec28_sign: "0 \<le> x \<Longrightarrow> 0 \<le> dec28 x" "x \<le> 0 \<Longrightarrow> dec28 x \<le> 0"
  using dec28_mono[of 0 x] dec28_mono[of x 0] by simp_all

lemma factors_nonneg: "0 \<le> event_severity e" "0 \<le> reliability_factor l" "0 \<le> duration_factor h"
proof -
  show "0 \<le> event_severity e" unfolding event_severity_def Let_def by (auto intro: dec28_sign)
  show "0 \<le> reliability_factor l" by (cases l) simp_all
  show "0 \<le> duration_factor h" by (cases h) simp_all
qed

lemma repr_nonneg: "fl64 x = x \<Longrightarrow> 0 \<le> x \<Longrightarrow> 0 \<le> repr_dec x"
proof (rule ccontr)
  assume x: "fl64 x = x" "0 \<le> x" and "\<not> 0 \<le> repr_dec x"
  then have "x \<le> 0" using fl64_mono[of "repr_dec x" 0] fl64_repr[OF x(1)] by simp
  then have "x = 0" using x(2) by simp
  then show False using \<open>\<not> 0 \<le> repr_dec x\<close> by (simp add: repr_dec_def)
qed

lemma score_sides:
  shows "0 \<le> w \<Longrightarrow> 50 \<le> round_score (clamp (dec28 (50 + w)))" and "w \<le> 0 \<Longrightarrow> round_score (clamp (dec28 (50 + w))) \<le> 50"
proof -
  have 50: "dec28 50 = 50" "round_score 50 = 50" using dec28_int[of 50] round_between[of 5000 50 5000] by auto
  have m: "x \<le> y \<Longrightarrow> round_score (clamp (dec28 x)) \<le> round_score (clamp (dec28 y))" for x y
    unfolding round_score_def clamp_def by (intro fl64_mono quantum.rnd_mono max.mono min.mono dec28_mono order_refl)
  show "0 \<le> w \<Longrightarrow> 50 \<le> round_score (clamp (dec28 (50 + w)))" using m[of 50 "50 + w"] by (simp add: 50 clamp_def)
  show "w \<le> 0 \<Longrightarrow> round_score (clamp (dec28 (50 + w))) \<le> 50" using m[of "50 + w" 50] by (simp add: 50 clamp_def)
qed

text \<open>The score of an event never contradicts the direction of its impact: favourable events score at least 50,
  unfavourable ones at most 50, neutral and uncertain ones exactly 50, whatever its severity, reliability,
  confidence and horizon.\<close>

theorem event_score_follows_impact:
  assumes "0 \<le> se_confidence e" and "fl64 (se_confidence e) = se_confidence e"
  shows "(0 \<le> impact_direction (se_impact e) \<longrightarrow> 50 \<le> event_score e) \<and>
    (impact_direction (se_impact e) \<le> 0 \<longrightarrow> event_score e \<le> 50)"
proof -
  let ?p = "dec28 (repr_dec (se_confidence e) * reliability_factor (se_reliability e))"
  have p: "0 \<le> ?p" by (intro dec28_sign mult_nonneg_nonneg repr_nonneg assms factors_nonneg)
  have up: "0 \<le> dec28 (dec28 (dec28 (dec28 (d * 50) * event_severity e) * ?p) * duration_factor (se_horizon e))" if "0 \<le> d" for d
    by (intro dec28_sign mult_nonneg_nonneg factors_nonneg p that) simp
  have down: "dec28 (dec28 (dec28 (dec28 (d * 50) * event_severity e) * ?p) * duration_factor (se_horizon e)) \<le> 0" if "d \<le> 0" for d
    by (intro dec28_sign mult_nonpos_nonneg factors_nonneg p that) simp
  show ?thesis unfolding event_score_def Let_def using score_sides up down by blast
qed

section \<open>Risk overrides\<close>

lemma setdefault_append: "setdefault k v d = (if k \<in> set (dkeys d) then d else d @ [(k, v)])"
  by (induction d) (auto simp: setdefault_def)

lemma code_fold:
  fixes sel ovs
  assumes "map fst sel = map (ov_code \<circ> snd) sel" and "distinct (map fst sel)"
  defines "r \<equiv> foldl (\<lambda>sel ov. setdefault (ov_code ov) ov sel) sel ovs"
  shows "map fst r = map (ov_code \<circ> snd) r \<and> distinct (map fst r) \<and> set (map snd r) \<subseteq> set (map snd sel) \<union> set ovs \<and>
    set (map fst r) = set (map fst sel) \<union> ov_code ` set ovs"
  using assms(1,2) unfolding r_def
proof (induction ovs arbitrary: sel)
  case (Cons ov ovs)
  let ?sel = "setdefault (ov_code ov) ov sel"
  have a: "map fst ?sel = map (ov_code \<circ> snd) ?sel" "distinct (map fst ?sel)"
    and b: "set (map snd ?sel) \<subseteq> insert ov (set (map snd sel))" "set (map fst ?sel) = insert (ov_code ov) (set (map fst sel))"
    using Cons.prems by (auto simp: setdefault_append)
  note IH = Cons.IH[OF a]
  show ?case
    unfolding foldl.simps(2)
  proof (intro conjI)
    show "set (map snd (foldl (\<lambda>sel ov. setdefault (ov_code ov) ov sel) ?sel ovs)) \<subseteq> set (map snd sel) \<union> set (ov # ovs)"
      using IH b(1) unfolding list.set(2) by blast
    show "set (map fst (foldl (\<lambda>sel ov. setdefault (ov_code ov) ov sel) ?sel ovs)) = set (map fst sel) \<union> ov_code ` set (ov # ovs)"
      using IH b(2) unfolding list.set(2) image_insert by blast
  qed (use IH in blast)+
qed simp

lemma first_by_code_spec:
  "set (first_by_code ovs) \<subseteq> set ovs \<and> ov_code ` set (first_by_code ovs) = ov_code ` set ovs \<and> distinct (map ov_code (first_by_code ovs))"
proof -
  let ?r = "foldl (\<lambda>sel ov. setdefault (ov_code ov) ov sel) [] ovs"
  have r: "map fst ?r = map (ov_code \<circ> snd) ?r" "distinct (map fst ?r)" "set (map snd ?r) \<subseteq> set ovs"
      "set (map fst ?r) = ov_code ` set ovs"
    using code_fold[of "[]" ovs] by auto
  then have "map ov_code (first_by_code ovs) = map fst ?r" by (simp add: first_by_code_def)
  then show ?thesis using r by (metis first_by_code_def list.set_map)
qed

definition FRAUD :: string where "FRAUD = ''CONFIRMED_FRAUD_OR_ACCOUNTING_CRISIS''"

text \<open>An official, validated and unresolved report of fraud.\<close>

definition confirmed_fraud :: "stock_event \<Rightarrow> bool" where
  "confirmed_fraud e \<longleftrightarrow> authoritative_unresolved e \<and> se_impact e = STRONG_NEGATIVE \<and>
     list_ex (\<lambda>w. contains w (event_text e)) FRAUD_TERMS"

lemma override_shape: "event_override e = Some ov \<Longrightarrow> ov_block_buy ov \<and> (ov_code ov = FRAUD \<longrightarrow> ov_severity ov = SEV_CRITICAL)"
  unfolding event_override_def Let_def override_of_def FRAUD_def by (auto split: if_splits)

lemma fraud_override: "confirmed_fraud e \<Longrightarrow> \<exists>ov. event_override e = Some ov \<and> ov_code ov = FRAUD"
  unfolding confirmed_fraud_def event_override_def Let_def override_of_def FRAUD_def by simp

lemma risk_override_shape:
  "ov \<in> set (risk_overrides events features facts records financial now) \<Longrightarrow>
   ov_block_buy ov \<and> (ov_code ov = FRAUD \<longrightarrow> ov_severity ov = SEV_CRITICAL)"
  unfolding risk_overrides_def Let_def
  by (drule subsetD[OF first_by_code_spec[THEN conjunct1]])
    (auto simp: set_map_filter override_of_def FRAUD_def given_def dest: override_shape split: if_splits)

lemma fraud_in_overrides:
  assumes "e \<in> set events" and "confirmed_fraud e"
  shows "\<exists>ov \<in> set (risk_overrides events features facts records financial now). ov_code ov = FRAUD"
proof -
  obtain ov where ov: "event_override e = Some ov" "ov_code ov = FRAUD" using fraud_override[OF assms(2)] by blast
  have "ov \<in> set (List.map_filter event_override (filter authoritative_unresolved events))"
    using assms ov(1) by (auto simp: set_map_filter confirmed_fraud_def)
  then have "FRAUD \<in> ov_code ` set (risk_overrides events features facts records financial now)"
    unfolding risk_overrides_def Let_def first_by_code_spec[THEN conjunct2, THEN conjunct1] using ov(2) by force
  then show ?thesis by (metis imageE)
qed

text \<open>One official, validated and unresolved report of fraud among the events of an instrument decides: any permitted
  evaluation with a score ends in an exit review, and none in a buying signal, whatever the scores.\<close>

theorem confirmed_fraud_forces_exit_review:
  assumes "e \<in> set (si_events v)" and "confirmed_fraud e"
    and "evaluate_input fpow disclosure v allow_partial = Some r"
  shows "sr_decision r = (if sr_overall r = None then INSUFFICIENT_DATA else EXIT_REVIEW)"
proof -
  let ?ovs = "risk_overrides (si_events v) (si_features v) (si_facts v) (si_records v)
      (is_financial (si_metadata v) (si_records v)) (si_now v)"
  obtain areas where ev: "evaluate_stock (si_readiness v) areas ?ovs allow_partial = Some r"
    using assms(3) unfolding evaluate_input_def by (auto simp: bind_eq_Some_conv)
  obtain ov where ov: "ov \<in> set ?ovs" "ov_code ov = FRAUD" using fraud_in_overrides[OF assms(1,2)] by blast
  have b: "list_ex ov_block_buy ?ovs" "list_ex (\<lambda>ov. ov_severity ov = SEV_CRITICAL) ?ovs"
    using ov risk_override_shape[OF ov(1)] by (auto simp: list_ex_iff)
  have d: "decision s (si_readiness v) c partial ?ovs = Some (if s = None then INSUFFICIENT_DATA else EXIT_REVIEW)" for s c partial
    using b by (simp add: decision_def split: option.splits)
  show ?thesis
    using evaluate_decision(4)[OF ev] evaluate_decision(5)[OF ev] d by fastforce
qed

section \<open>Two short-comings\<close>

text \<open>
  With two to four annual figures the growth consistency compares every figure with itself: it is 100 percent
  whatever the figures are.
\<close>

lemma zip_butlast_self: "zip (butlast s) s = map (\<lambda>d. (d, d)) (butlast s)"
  by (induction s) auto

lemma short_series_always_consistent:
  assumes "2 \<le> length s" and "length s \<le> 4"
  shows "\<exists>ds. growth_consistency s [] = Some (share_percent (length s - 1) (length s - 1), ds)"
proof -
  have p: "growth_pairs s = map (\<lambda>d. (d, d)) (butlast s)"
    using assms by (simp add: growth_pairs_def last_n_def zip_butlast_self)
  have "filter (\<lambda>(p, c). dt_value p \<le> dt_value c) (map (\<lambda>d. (d, d)) (butlast s)) = map (\<lambda>d. (d, d)) (butlast s)"
    by (rule filter_True) auto
  moreover have "butlast s \<noteq> []" using assms by (cases s rule: rev_cases) auto
  ultimately show ?thesis
    unfolding growth_consistency_def Let_def p by (simp add: growth_pairs_def last_n_def)
qed

section \<open>Witnesses\<close>

definition witness_event :: stock_event where
  "witness_event = \<lparr>se_id = ''e1'', se_type = REGULATORY_EVENT, se_date = Some 0, se_published_at = None, se_detected_at = 0,
     se_title = ''Regulator'', se_summary = ''Accounting fraud'', se_url = ''u'', se_class = SC_REGULATORY, se_reliability = LEVEL_A,
     se_real = True, se_confidence = 1, se_impact = STRONG_NEGATIVE, se_horizon = LONG_TERM, se_monetary = None,
     se_percentage = None, se_capacity = None, se_customer = None, se_counterparty = None, se_location = None,
     se_status = VALIDATED, se_independence = None\<rparr>"

definition witness_input :: stock_input where
  "witness_input = \<lparr>si_instrument = ''i'', si_country = ''IN'', si_exchange = ''NSE'', si_readiness = witness_readiness,
     si_facts = [], si_records = [], si_prices = [], si_events = [witness_event], si_shareholding = [], si_metadata = [],
     si_now = 1, si_features = [], si_search = None\<rparr>"

lemma witness_fraud: "confirmed_fraud witness_event"
  by code_simp

lemma witness_critical: "\<forall>k \<in> set CRITICAL_REQUIREMENTS. by_id witness_readiness k \<noteq> None"
  by (simp add: witness_readiness_def CRITICAL_REQUIREMENTS_def by_id_def)

lemma witness_areas: "stock_areas fpow disclosure witness_input \<noteq> None"
  by (simp add: stock_areas_def Let_def witness_input_def balance_sheet_area_def witness_readiness_def CRITICAL_REQUIREMENTS_def)

lemma stock_witness_result: "\<exists>r. evaluate_input fpow disclosure witness_input p = Some r"
proof -
  obtain areas where "stock_areas fpow disclosure witness_input = Some areas" using witness_areas by blast
  moreover have "si_readiness witness_input = witness_readiness" by (simp add: witness_input_def)
  ultimately show ?thesis
    unfolding evaluate_input_def using evaluate_stock_total[OF witness_critical] by auto
qed

lemma witness_input_ok: "input_ok witness_input"
  by (simp add: input_ok_def witness_input_def MAX_RECORDS_def)

lemma stock_scores_valid_witness:
  "\<exists>r areas. evaluate_input (\<lambda>x y. x) (\<lambda>t. False) witness_input True = Some r \<and> is_score (sr_confidence_score r) \<and>
     stock_areas (\<lambda>x y. x) (\<lambda>t. False) witness_input = Some areas \<and> list_all (\<lambda>a. pred_option is_score (ar_raw a)) areas"
proof -
  obtain r where r: "evaluate_input (\<lambda>x y. x) (\<lambda>t. False) witness_input True = Some r" using stock_witness_result by blast
  show ?thesis using r stock_scores_valid[OF witness_input_ok r] by (auto simp: list_all_iff)
qed

definition unlisted_input :: stock_input where
  "unlisted_input = witness_input\<lparr>si_readiness := witness_readiness\<lparr>rd_requirements := []\<rparr>\<rparr>"

lemma evaluation_needs_critical_requirements_witness:
  "evaluate_input (\<lambda>x y. x) (\<lambda>t. False) unlisted_input False = None \<and>
   (\<exists>k \<in> set CRITICAL_REQUIREMENTS. by_id (si_readiness unlisted_input) k = None)"
proof -
  have "by_id (si_readiness unlisted_input) ''BALANCE_SHEET_FACTS'' = None"
    by (simp add: unlisted_input_def by_id_def)
  with evaluation_needs_critical_requirements[of "\<lambda>x y. x" "\<lambda>t. False" unlisted_input False]
  show ?thesis by (elim conjE) (intro conjI; simp only: simp_thms)
qed

lemma confirmed_fraud_forces_exit_review_witness:
  "\<exists>r. evaluate_input (\<lambda>x y. x) (\<lambda>t. False) witness_input True = Some r \<and>
    sr_decision r = (if sr_overall r = None then INSUFFICIENT_DATA else EXIT_REVIEW)"
proof -
  have "witness_event \<in> set (si_events witness_input)" by (simp add: witness_input_def)
  from confirmed_fraud_forces_exit_review[OF this witness_fraud] show ?thesis using stock_witness_result by blast
qed

lemma event_score_follows_impact_witness: "event_score witness_event \<le> 50"
  using event_score_follows_impact[of witness_event] by (simp add: witness_event_def)

definition witness_fact :: "time \<Rightarrow> rule_fact" where
  "witness_fact t = \<lparr>rf_metric = ''revenue'', rf_period_type = ''ANNUAL'', rf_period_end = Some t, rf_basis = None,
     rf_number = Some 1, rf_unit = None, rf_as_of = None, rf_tier = YAHOO, rf_real = True, rf_evidence = ''f''\<rparr>"

lemma witness_datum: "\<exists>d. fact_datum [''revenue''] (Some ''ANNUAL'') (witness_fact t) = Some d \<and> as_of_time d = t"
  by (simp add: fact_datum_def witness_fact_def Let_def normalize_financial_amount_def as_of_time_def)

lemma fact_series_homogeneous_witness:
  "7 \<le> as_of_time (last (fact_series [witness_fact 3, witness_fact 7] [''revenue''] (Some ''ANNUAL'')))"
proof -
  let ?fs = "[witness_fact 3, witness_fact 7]"
  obtain d where d: "fact_datum [''revenue''] (Some ''ANNUAL'') (witness_fact 7) = Some d" "as_of_time d = 7"
    using witness_datum by blast
  then have w: "d \<in> set (wanted ?fs [''revenue''] (Some ''ANNUAL''))" unfolding set_map_filter by auto
  then have n: "fact_series ?fs [''revenue''] (Some ''ANNUAL'') \<noteq> []" by (rule fact_series_nonempty)
  have "as_of_time d \<le> as_of_time (last (fact_series ?fs [''revenue''] (Some ''ANNUAL'')))"
    using fact_series_homogeneous[OF refl n] w by blast
  then show ?thesis by (simp only: d(2))
qed

end
