(* ===== verification/Ranker.thy ===== *)
theory Ranker
  imports StockEvents "HOL-Library.Multiset"
begin

text \<open>
  The opportunity ranker (\<open>app/global_opportunity_ranker.py\<close>): the composition of a Stage-B candidate
  with the result of the stock rule engine, and the ranking of the candidates.  The technical and
  sector snapshots are given; of them only the fields the ranker reads are kept.
\<close>

section \<open>Data\<close>

record tech_view =
  tv_instrument :: string
  tv_score :: "rat option"
  tv_state :: string
  tv_confidence :: rat
  tv_stale :: "string list"
  tv_features :: "(string \<times> string) list"

record sector_view =
  sv_instrument :: string
  sv_score :: "rat option"
  sv_state :: string
  sv_confidence :: rat
  sv_stale :: "string list"
  sv_missing :: "string list"

record stage_b_candidate =
  sb_instrument :: string
  sb_version :: string
  sb_technical :: tech_view
  sb_sector :: sector_view
  sb_technical_score :: "rat option"
  sb_sector_score :: "rat option"

text \<open>A result of the rule engine with its areas and overrides.\<close>

record rule_result =
  ru_instrument :: string
  ru_version :: string
  ru_areas :: "area_result list"
  ru_overrides :: "override list"
  ru_result :: stock_result

record opportunity =
  go_instrument :: string
  go_score :: "rat option"
  go_confidence :: rat
  go_coverage :: rat
  go_eligible :: bool
  go_rule_score :: "rat option"
  go_technical_score :: "rat option"
  go_technical_state :: string
  go_sector_score :: "rat option"
  go_sector_state :: string
  go_risk_score :: "rat option"
  go_positive :: "string list"
  go_negative :: "string list"
  go_gates :: "string list"

datatype ranker_error =
    INVALID_RANKER_SCORE | RANKER_IDENTITY_MISMATCH | UNSUPPORTED_RULE_ENGINE_VERSION | UNSUPPORTED_STAGE_B_VERSION
  | DUPLICATE_RULE_AREA | STAGE_B_SCORE_MISMATCH | DUPLICATE_RANKER_INSTRUMENT

definition RANKER_WEIGHTS :: "(string \<times> int) list" where
  "RANKER_WEIGHTS = [(''VALUATION'', 18), (''FUNDAMENTAL_BUSINESS_QUALITY'', 16), (''GROWTH'', 14), (''BALANCE_SHEET'', 9),
     (''QUARTERLY_EARNINGS_TREND'', 9), (''ORDER_BOOK_CAPACITY_CATALYSTS'', 8), (''NEWS_GEOPOLITICAL_EVENTS'', 7),
     (''SHAREHOLDING'', 4), (''MANAGEMENT_GOVERNANCE'', 5), (''TECHNICAL'', 7), (''SECTOR'', 3)]"

definition CRITICAL_AREAS :: "string list" where
  "CRITICAL_AREAS = [''VALUATION'', ''FUNDAMENTAL_BUSINESS_QUALITY'', ''BALANCE_SHEET'', ''QUARTERLY_EARNINGS_TREND'',
     ''MANAGEMENT_GOVERNANCE'']"

definition OPTIONAL_AREAS :: "string list" where "OPTIONAL_AREAS = [''NEWS_GEOPOLITICAL_EVENTS'']"

section \<open>Scoring\<close>

definition check_score :: "rat \<Rightarrow> ranker_error + rat" where
  "check_score v = (if 0 \<le> v \<and> v \<le> 100 then Inr v else Inl INVALID_RANKER_SCORE)"

definition check_optional :: "rat option \<Rightarrow> ranker_error + rat option" where
  "check_optional v = (case v of None \<Rightarrow> Inr None
     | Some x \<Rightarrow> (case check_score x of Inl e \<Rightarrow> Inl e | Inr y \<Rightarrow> Inr (Some y)))"

record rank_state =
  rs_applicable :: int
  rs_values :: "(string \<times> rat \<times> rat) list"
  rs_negatives :: "string list"
  rs_gates :: "string list"

definition add_value :: "string \<Rightarrow> rat \<Rightarrow> rat \<Rightarrow> rank_state \<Rightarrow> ranker_error + rank_state" where
  "add_value name v c st =
     (case check_score v of Inl e \<Rightarrow> Inl e
      | Inr v' \<Rightarrow> (case check_score c of Inl e \<Rightarrow> Inl e
         | Inr c' \<Rightarrow> Inr (st\<lparr>rs_values := rs_values st @ [(name, v', c')]\<rparr>)))"

definition add_negative :: "string \<Rightarrow> rank_state \<Rightarrow> rank_state" where
  "add_negative code st = st\<lparr>rs_negatives := rs_negatives st @ [code]\<rparr>"

definition add_gate :: "string \<Rightarrow> rank_state \<Rightarrow> rank_state" where
  "add_gate code st = st\<lparr>rs_gates := rs_gates st @ [code]\<rparr>"

text \<open>The dictionary of areas by name.\<close>

fun areas_by_name :: "(string \<times> area_result) list \<Rightarrow> area_result list \<Rightarrow> ranker_error + (string \<times> area_result) list" where
  "areas_by_name d [] = Inr d"
| "areas_by_name d (a # as) =
     (if area_name (ar_area a) \<in> fst ` set d then Inl DUPLICATE_RULE_AREA
      else areas_by_name (d @ [(area_name (ar_area a), a)]) as)"

definition rule_gates :: "rule_result option \<Rightarrow> string list" where
  "rule_gates rule =
     (case rule of
        None \<Rightarrow> [''V1_RESULT_MISSING'']
      | Some r \<Rightarrow>
          (if sr_partial (ru_result r) \<or> \<not> el_full (sr_eligibility (ru_result r)) \<or> sr_overall (ru_result r) = None
           then [''V1_ANALYSIS_NOT_ELIGIBLE''] else []) @
          map (\<lambda>ov. ''V1_RISK_OVERRIDE:'' @ ov_code ov)
            (filter (\<lambda>ov. ov_block_buy ov \<or> ov_severity ov = SEV_CRITICAL) (ru_overrides r)))"

definition missing_area :: "string \<Rightarrow> rank_state \<Rightarrow> rank_state" where
  "missing_area name st =
     (if name \<in> set OPTIONAL_AREAS then add_negative (''UNAVAILABLE:'' @ name) st
      else add_negative (''MISSING:'' @ name) st)"

definition rank_area ::
    "(string \<times> area_result) list \<Rightarrow> rat \<Rightarrow> rank_state \<Rightarrow> string \<times> int \<Rightarrow> ranker_error + rank_state" where
  "rank_area areas conf st nw =
     (let name = fst nw in
      case map_of areas name of
        None \<Rightarrow> Inr (missing_area name st)
      | Some a \<Rightarrow>
          if \<not> ar_applicable a \<or> ar_status a = A_NOT_APPLICABLE
          then Inr (st\<lparr>rs_applicable := rs_applicable st - snd nw\<rparr>)
          else if ar_status a \<in> {A_READY_STALE, A_CONFLICTING}
          then (let code = (if ar_status a = A_READY_STALE then ''STALE:'' else ''CONFLICTING:'') @ name;
                    st' = add_negative code st
                in Inr (if name \<in> set CRITICAL_AREAS then add_gate (''CRITICAL_'' @ code) st' else st'))
          else if ar_status a \<in> {A_READY_FRESH, A_PARTIAL}
          then (case ar_raw a of Some raw \<Rightarrow> add_value name raw conf st | None \<Rightarrow> Inr st)
          else Inr (missing_area name st))"

fun rank_areas ::
    "(string \<times> area_result) list \<Rightarrow> rat \<Rightarrow> rank_state \<Rightarrow> (string \<times> int) list \<Rightarrow> ranker_error + rank_state" where
  "rank_areas areas conf st [] = Inr st"
| "rank_areas areas conf st (nw # ws) =
     (if fst nw \<in> {''TECHNICAL'', ''SECTOR''} then rank_areas areas conf st ws
      else (case rank_area areas conf st nw of Inl e \<Rightarrow> Inl e | Inr st' \<Rightarrow> rank_areas areas conf st' ws))"

definition price_gates :: "tech_view \<Rightarrow> sector_view \<Rightarrow> string list" where
  "price_gates t s =
     (if ''PRICE_HISTORY'' \<in> set (tv_stale t) \<or> ''STOCK_HISTORY'' \<in> set (sv_stale s) then [''CRITICAL_STALE_PRICE''] else []) @
     (if ''CONFLICTING'' \<in> snd ` set (tv_features t) \<or> ''CONFLICTING_STOCK_PRICE'' \<in> set (sv_missing s)
      then [''CRITICAL_CONFLICTING_PRICE''] else [])"

definition rank_dimension :: "string \<Rightarrow> rat option \<Rightarrow> rat \<Rightarrow> bool \<Rightarrow> rank_state \<Rightarrow> ranker_error + rank_state" where
  "rank_dimension name v conf ok st =
     (case v of
        Some x \<Rightarrow> if ok then add_value name x conf st else Inr (add_negative (''UNAVAILABLE:'' @ name) st)
      | None \<Rightarrow> Inr (add_negative (''UNAVAILABLE:'' @ name) st))"

definition weight_of :: "string \<Rightarrow> int" where
  "weight_of name = (case map_of RANKER_WEIGHTS name of Some w \<Rightarrow> w | None \<Rightarrow> 0)"

definition evidence_weight :: "(string \<times> rat \<times> rat) list \<Rightarrow> int" where
  "evidence_weight vs = sum_list (map (\<lambda>(n, _, _). weight_of n) vs)"

definition weighted_total :: "(string \<times> rat) list \<Rightarrow> rat" where
  "weighted_total vs = py_sum (map (\<lambda>(n, v). fl64 (of_int (weight_of n) * v)) vs)"

definition summarise ::
    "stage_b_candidate \<Rightarrow> rat option \<Rightarrow> rat option \<Rightarrow> rat option \<Rightarrow> rat option \<Rightarrow> rank_state \<Rightarrow> opportunity" where
  "summarise cand rule_score technical_score sector_score risk st =
     (let vs = rs_values st;
          aw = evidence_weight vs;
          positives = map (\<lambda>(n, _, _). ''SUPPORT:'' @ n) (filter (\<lambda>(_, v, _). 65 \<le> v) vs);
          negatives = rs_negatives st @ map (\<lambda>(n, _, _). ''WEAK:'' @ n) (filter (\<lambda>(_, v, _). v < 65 \<and> v \<le> 40) vs);
          gates = rs_gates st @ (if aw = 0 then [''NO_SCORABLE_EVIDENCE''] else [])
      in \<lparr>go_instrument = sb_instrument cand,
          go_score = (if aw = 0 then None
             else Some (round8 (fl64 (weighted_total (map (\<lambda>(n, v, _). (n, v)) vs) / of_int aw)))),
          go_confidence = round8 (fl64 (weighted_total (map (\<lambda>(n, _, c). (n, c)) vs) / of_int (rs_applicable st))),
          go_coverage = round8 (fl64 (of_int (100 * aw) / of_int (rs_applicable st))),
          go_eligible = (gates = []),
          go_rule_score = rule_score, go_technical_score = technical_score, go_technical_state = tv_state (sb_technical cand),
          go_sector_score = sector_score, go_sector_state = sv_state (sb_sector cand), go_risk_score = risk,
          go_positive = take 6 (sorted_set positives),
          go_negative = take 6 (sorted_set gates @ sorted_set (filter (\<lambda>n. n \<notin> set gates) negatives)),
          go_gates = sorted_set gates\<rparr>)"

text \<open>\<open>GlobalOpportunityRanker.score\<close>; the checks in the order of the code.\<close>

definition check_inputs :: "stage_b_candidate \<Rightarrow> rule_result option \<Rightarrow> ranker_error + (string \<times> area_result) list" where
  "check_inputs cand rule =
     (let key = sb_instrument cand in
      if tv_instrument (sb_technical cand) \<noteq> key \<or> sv_instrument (sb_sector cand) \<noteq> key \<or>
         (case rule of None \<Rightarrow> False | Some r \<Rightarrow> ru_instrument r \<noteq> key) then Inl RANKER_IDENTITY_MISMATCH
      else if (case rule of None \<Rightarrow> False | Some r \<Rightarrow> ru_version r \<noteq> ''STOCK_RULE_ENGINE_V1'') then Inl UNSUPPORTED_RULE_ENGINE_VERSION
      else if sb_version cand \<noteq> ''GLOBAL_STAGE_B_V1'' then Inl UNSUPPORTED_STAGE_B_VERSION
      else areas_by_name [] (case rule of None \<Rightarrow> [] | Some r \<Rightarrow> ru_areas r))"

definition rank_dimensions :: "stage_b_candidate \<Rightarrow> rank_state \<Rightarrow> ranker_error + rank_state" where
  "rank_dimensions cand st =
     (let t = sb_technical cand; s = sb_sector cand;
          st' = st\<lparr>rs_gates := rs_gates st @ price_gates t s\<rparr>;
          price_ok = (price_gates t s = [])
      in if sb_technical_score cand \<noteq> tv_score t \<or> sb_sector_score cand \<noteq> sv_score s then Inl STAGE_B_SCORE_MISMATCH
         else (case rank_dimension ''TECHNICAL'' (sb_technical_score cand) (tv_confidence t) price_ok st' of
             Inl e \<Rightarrow> Inl e
           | Inr st'' \<Rightarrow> rank_dimension ''SECTOR'' (sb_sector_score cand) (sv_confidence s)
               (sv_state s \<noteq> ''INSUFFICIENT_DATA'' \<and> price_ok) st''))"

definition initial_state :: "rule_result option \<Rightarrow> rank_state" where
  "initial_state rule = \<lparr>rs_applicable = sum_list (map snd RANKER_WEIGHTS), rs_values = [], rs_negatives = [], rs_gates = rule_gates rule\<rparr>"

definition rank_scores :: "stage_b_candidate \<Rightarrow> rule_result option \<Rightarrow> ranker_error + rank_state" where
  "rank_scores cand rule =
     (case check_inputs cand rule of Inl e \<Rightarrow> Inl e
      | Inr areas \<Rightarrow>
          (case rank_areas areas (case rule of None \<Rightarrow> 0 | Some r \<Rightarrow> sr_confidence_score (ru_result r)) (initial_state rule) RANKER_WEIGHTS of
             Inl e \<Rightarrow> Inl e | Inr st \<Rightarrow> rank_dimensions cand st))"

definition rank_score :: "stage_b_candidate \<Rightarrow> rule_result option \<Rightarrow> ranker_error + opportunity" where
  "rank_score cand rule =
     (case rank_scores cand rule of Inl e \<Rightarrow> Inl e
      | Inr st \<Rightarrow>
          (case (check_optional (case rule of None \<Rightarrow> None | Some r \<Rightarrow> sr_overall (ru_result r)),
                 check_optional (sb_technical_score cand), check_optional (sb_sector_score cand),
                 check_optional (case rule of None \<Rightarrow> None | Some r \<Rightarrow> sr_risk (ru_result r))) of
             (Inr a, Inr b, Inr c, Inr d) \<Rightarrow> Inr (summarise cand a b c d st)
           | _ \<Rightarrow> Inl INVALID_RANKER_SCORE))"

section \<open>Ranking\<close>

text \<open>\<open>-value if value is not None else inf\<close>.\<close>

definition descending :: "rat option \<Rightarrow> nat \<times> rat" where
  "descending v = (case v of Some x \<Rightarrow> (0, - x) | None \<Rightarrow> (1, 0))"

definition rank_key :: "opportunity \<Rightarrow> (nat \<times> rat) \<times> rat \<times> rat \<times> (nat \<times> rat) \<times> string" where
  "rank_key r = (descending (go_score r), - go_confidence r, - go_coverage r, descending (go_rule_score r), go_instrument r)"

fun score_all ::
    "(string \<rightharpoonup> rule_result) \<Rightarrow> string list \<Rightarrow> stage_b_candidate list \<Rightarrow> ranker_error + opportunity list" where
  "score_all rules seen [] = Inr []"
| "score_all rules seen (c # cs) =
     (if sb_instrument c \<in> set seen then Inl DUPLICATE_RANKER_INSTRUMENT
      else (case rank_score c (rules (sb_instrument c)) of Inl e \<Rightarrow> Inl e
        | Inr r \<Rightarrow> (case score_all rules (sb_instrument c # seen) cs of Inl e \<Rightarrow> Inl e | Inr rs \<Rightarrow> Inr (r # rs))))"

definition rank_candidates :: "(string \<rightharpoonup> rule_result) \<Rightarrow> stage_b_candidate list \<Rightarrow> ranker_error + opportunity list" where
  "rank_candidates rules cs = (case score_all rules [] cs of Inl e \<Rightarrow> Inl e | Inr rs \<Rightarrow> Inr (sort_key rank_key rs))"

section \<open>Weighted means\<close>

definition weight_sum :: "(string \<times> rat) list \<Rightarrow> rat" where
  "weight_sum vs = sum_list (map (\<lambda>(n, v). of_int (weight_of n)) vs)"

definition score_sum :: "(string \<times> rat) list \<Rightarrow> rat" where
  "score_sum vs = sum_list (map (\<lambda>(n, v). of_int (weight_of n) * v) vs)"

definition all_scored :: "(string \<times> rat) list \<Rightarrow> bool" where
  "all_scored vs \<longleftrightarrow> list_all (\<lambda>(n, v). n \<in> fst ` set RANKER_WEIGHTS \<and> 0 \<le> v \<and> v \<le> 100) vs \<and> length vs \<le> 11"

lemma weight_of_bounds: "n \<in> fst ` set RANKER_WEIGHTS \<Longrightarrow> 1 \<le> weight_of n \<and> weight_of n \<le> 18"
  by (auto simp: RANKER_WEIGHTS_def weight_of_def)

lemma term_error:
  assumes w: "1 \<le> w" "w \<le> 18" and v: "0 \<le> v" "v \<le> 100"
  shows "\<bar>fl64 (of_int w * v) - of_int w * v\<bar> \<le> 100 * of_int w / 2 ^ 53"
    and "0 \<le> fl64 (of_int w * v)" and "fl64 (of_int w * v) \<le> 100 * of_int w"
proof -
  have W: "(1::rat) \<le> of_int w" using w(1) by simp
  have b: "0 \<le> of_int w * v" "of_int w * v \<le> of_int w * 100"
    using W v by (simp_all add: mult_left_mono)
  then have "\<bar>of_int w * v\<bar> \<le> 100 * of_int w" by simp
  then show "\<bar>fl64 (of_int w * v) - of_int w * v\<bar> \<le> 100 * of_int w / 2 ^ 53"
    by (rule fl64_error) (use W in simp)
  show "0 \<le> fl64 (of_int w * v)" using fl64_mono[OF b(1)] by simp
  have "fl64 (of_int w * v) \<le> fl64 (of_int (w * 100))" by (rule fl64_mono) (use b(2) in simp)
  also have "fl64 (of_int (w * 100)) = of_int (w * 100)" by (rule fl64_int) (use w in simp)
  finally show "fl64 (of_int w * v) \<le> 100 * of_int w" by simp
qed

lemma terms_error:
  assumes "list_all (\<lambda>(n, v). n \<in> fst ` set RANKER_WEIGHTS \<and> 0 \<le> v \<and> v \<le> 100) vs"
  defines "T \<equiv> map (\<lambda>(n, v). fl64 (of_int (weight_of n) * v)) vs"
  shows "\<bar>sum_list T - score_sum vs\<bar> \<le> weight_sum vs * (100 / 2 ^ 53) \<and> sum_list (map abs T) \<le> 100 * weight_sum vs \<and>
    0 \<le> score_sum vs \<and> score_sum vs \<le> 100 * weight_sum vs"
  using assms(1) unfolding T_def
proof (induction vs)
  case (Cons x vs)
  obtain n v where x: "x = (n, v)" by (cases x)
  have n: "1 \<le> weight_of n" "weight_of n \<le> 18" and v: "0 \<le> v" "v \<le> 100"
    using Cons.prems weight_of_bounds by (auto simp: x)
  note t = term_error[OF n v]
  define w where "w = rat_of_int (weight_of n)"
  have w: "1 \<le> w" unfolding w_def using n(1) by simp
  have wv: "0 \<le> w * v" "w * v \<le> w * 100" using w v by (simp_all add: mult_left_mono)
  define U where "U = weight_sum vs * (100 / 2 ^ 53)"
  have eqs: "weight_sum (x # vs) = w + weight_sum vs" "score_sum (x # vs) = w * v + score_sum vs"
    by (simp_all add: x weight_sum_def score_sum_def w_def)
  have e: "\<bar>fl64 (w * v) - w * v\<bar> \<le> w * (100 / 2 ^ 53)" using t(1) unfolding w_def by simp
  let ?T = "map (\<lambda>(n, v). fl64 (of_int (weight_of n) * v)) vs"
  have ih: "\<bar>sum_list ?T - score_sum vs\<bar> \<le> U" "sum_list (map abs ?T) \<le> 100 * weight_sum vs"
      "0 \<le> score_sum vs" "score_sum vs \<le> 100 * weight_sum vs"
    using Cons unfolding U_def by simp_all
  have "(w + weight_sum vs) * (100 / 2 ^ 53) = w * (100 / 2 ^ 53) + U" unfolding U_def by (rule distrib_right)
  then have "\<bar>fl64 (w * v) + sum_list ?T - (w * v + score_sum vs)\<bar> \<le> (w + weight_sum vs) * (100 / 2 ^ 53)"
    using e ih(1) by linarith
  moreover have "\<bar>fl64 (w * v)\<bar> + sum_list (map abs ?T) \<le> 100 * (w + weight_sum vs)"
    using t(2,3) ih(2) unfolding w_def by simp
  ultimately show ?case using ih(3,4) wv unfolding eqs by (simp add: x w_def[symmetric])
qed (simp add: weight_sum_def score_sum_def)

lemma weight_sum_ge_1: "all_scored vs \<Longrightarrow> vs \<noteq> [] \<Longrightarrow> 1 \<le> weight_sum vs"
proof -
  assume s: "all_scored vs" and ne: "vs \<noteq> []"
  have "list_all (\<lambda>(n, v). n \<in> fst ` set RANKER_WEIGHTS) us \<Longrightarrow> 0 \<le> weight_sum us" for us
  proof (induction us)
    case (Cons u us)
    then show ?case using weight_of_bounds[of "fst u"] by (cases u) (auto simp: weight_sum_def)
  qed (simp add: weight_sum_def)
  note rest = this
  obtain n v us where vs: "vs = (n, v) # us" using ne by (cases vs) auto
  have "list_all (\<lambda>(n, v). n \<in> fst ` set RANKER_WEIGHTS) us" using s by (auto simp: all_scored_def vs list_all_iff)
  then have "0 \<le> weight_sum us" by (rule rest)
  moreover have "1 \<le> rat_of_int (weight_of n)" using s weight_of_bounds[of n] by (auto simp: all_scored_def vs)
  moreover have "weight_sum vs = of_int (weight_of n) + weight_sum us" by (simp add: vs weight_sum_def)
  ultimately show ?thesis by linarith
qed

text \<open>Division by at least the weight of the summed scores.\<close>

lemma mean_error:
  assumes vs: "all_scored vs" and D: "weight_sum vs \<le> D" "1 \<le> D"
  shows "\<bar>fl64 (weighted_total vs / D) - score_sum vs / D\<bar> \<le> 1 / 2000000000"
    and "0 \<le> score_sum vs / D" and "score_sum vs / D \<le> 100"
proof -
  let ?T = "map (\<lambda>(n, v). fl64 (of_int (weight_of n) * v)) vs"
  have t: "\<bar>sum_list ?T - score_sum vs\<bar> \<le> weight_sum vs * (100 / 2 ^ 53)" "sum_list (map abs ?T) \<le> 100 * weight_sum vs"
      "0 \<le> score_sum vs" "score_sum vs \<le> 100 * weight_sum vs"
    using terms_error vs unfolding all_scored_def by blast+
  have "sum_list (map abs ?T) \<le> 100 * D" using t(2) D(1) by linarith
  then have "\<bar>py_sum ?T - sum_list ?T\<bar> \<le> 100 * D / 2 ^ 40"
    by (rule py_sum_error[rotated]) (use D vs in \<open>simp_all add: all_scored_def\<close>)
  then have p: "\<bar>weighted_total vs - sum_list ?T\<bar> \<le> D * (100 / 2 ^ 40)" by (simp add: weighted_total_def)
  have "weight_sum vs * (100 / 2 ^ 53) \<le> D * (100 / 2 ^ 53)" using D(1) by (rule mult_right_mono) simp
  then have "\<bar>sum_list ?T - score_sum vs\<bar> \<le> D * (100 / 2 ^ 53)" using t(1) by (rule order_trans[rotated])
  moreover have "D * (100 / 2 ^ 40) + D * (100 / 2 ^ 53) \<le> D * (1 / 4000000000)"
    unfolding distrib_left[symmetric] by (rule mult_left_mono) (use D in simp_all)
  ultimately have "\<bar>weighted_total vs - score_sum vs\<bar> \<le> D * (1 / 4000000000)" using p by linarith
  then have "\<bar>weighted_total vs - score_sum vs\<bar> / D \<le> 1 / 4000000000"
    using D(2) by (simp add: pos_divide_le_eq mult.commute)
  moreover have "\<bar>weighted_total vs / D - score_sum vs / D\<bar> = \<bar>weighted_total vs - score_sum vs\<bar> / D"
    using D(2) by (simp add: diff_divide_distrib[symmetric] abs_divide)
  ultimately have q: "\<bar>weighted_total vs / D - score_sum vs / D\<bar> \<le> 1 / 4000000000" by simp
  show lo: "0 \<le> score_sum vs / D" using t(3) D(2) by simp
  have "score_sum vs \<le> 100 * D" using t(4) D(1) by linarith
  then show hi: "score_sum vs / D \<le> 100" using D(2) by (simp add: pos_divide_le_eq)
  have "\<bar>weighted_total vs / D\<bar> \<le> 200" using q lo hi by linarith
  then have "\<bar>fl64 (weighted_total vs / D) - weighted_total vs / D\<bar> \<le> 200 / 2 ^ 53" by (rule fl64_error) simp
  then have "\<bar>fl64 (weighted_total vs / D) - weighted_total vs / D\<bar> \<le> 1 / 4000000000" by (rule order_trans) simp
  then show "\<bar>fl64 (weighted_total vs / D) - score_sum vs / D\<bar> \<le> 1 / 2000000000" using q by linarith
qed

lemma rounded_mean:
  assumes "all_scored vs" and "weight_sum vs \<le> D" and "1 \<le> D"
  defines "r \<equiv> round8 (fl64 (weighted_total vs / D))"
  shows "\<bar>r - score_sum vs / D\<bar> \<le> 1 / 100000000" and "0 \<le> r" and "r \<le> 100"
proof -
  define y m where "y = fl64 (weighted_total vs / D)" and "m = score_sum vs / D"
  have m: "\<bar>y - m\<bar> \<le> 1 / 2000000000" "0 \<le> m" "m \<le> 100" unfolding y_def m_def using mean_error[OF assms(1-3)] by blast+
  then have y: "- 1 / 1000000000 \<le> y" "y \<le> 100 + 1 / 1000000000" by linarith+
  then have "\<bar>y\<bar> \<le> 101" by linarith
  then have "\<bar>round8 y - y\<bar> \<le> 1 / 150000000" by (rule round8_error)
  then show "\<bar>r - score_sum vs / D\<bar> \<le> 1 / 100000000" using m(1) unfolding r_def y_def[symmetric] m_def[symmetric] by linarith
  show "0 \<le> r" "r \<le> 100" using round8_range[OF y] unfolding r_def y_def[symmetric] by blast+
qed

section \<open>What counts\<close>

text \<open>The score an area contributes, the gate it closes, and the weight it takes out of the obligation.\<close>

definition area_score :: "(string \<times> area_result) list \<Rightarrow> string \<Rightarrow> rat option" where
  "area_score areas name =
     (case map_of areas name of None \<Rightarrow> None
      | Some a \<Rightarrow> if ar_applicable a \<and> ar_status a \<in> {A_READY_FRESH, A_PARTIAL} then ar_raw a else None)"

definition area_excused :: "(string \<times> area_result) list \<Rightarrow> string \<Rightarrow> bool" where
  "area_excused areas name \<longleftrightarrow>
     (case map_of areas name of None \<Rightarrow> False | Some a \<Rightarrow> \<not> ar_applicable a \<or> ar_status a = A_NOT_APPLICABLE)"

definition area_gates :: "(string \<times> area_result) list \<Rightarrow> string \<Rightarrow> string list" where
  "area_gates areas name =
     (case map_of areas name of None \<Rightarrow> []
      | Some a \<Rightarrow> if ar_applicable a \<and> name \<in> set CRITICAL_AREAS then
          (if ar_status a = A_READY_STALE then [''CRITICAL_'' @ ''STALE:'' @ name]
           else if ar_status a = A_CONFLICTING then [''CRITICAL_'' @ ''CONFLICTING:'' @ name] else []) else [])"

definition in_score_range :: "rat \<Rightarrow> bool" where "in_score_range v \<longleftrightarrow> 0 \<le> v \<and> v \<le> 100"

lemma check_score_Inr [simp]: "check_score v = Inr v' \<longleftrightarrow> v' = v \<and> in_score_range v"
  by (auto simp: check_score_def in_score_range_def)

lemma add_value_Inr: "add_value n v c st = Inr st' \<longleftrightarrow>
    in_score_range v \<and> in_score_range c \<and> st' = st\<lparr>rs_values := rs_values st @ [(n, v, c)]\<rparr>"
  by (auto simp: add_value_def check_score_def in_score_range_def split: if_splits)

lemma missing_area_sel [simp]: "rs_values (missing_area n st) = rs_values st" "rs_gates (missing_area n st) = rs_gates st"
  "rs_applicable (missing_area n st) = rs_applicable st"
  by (simp_all add: missing_area_def add_negative_def)

definition area_values :: "(string \<times> area_result) list \<Rightarrow> rat \<Rightarrow> string \<Rightarrow> (string \<times> rat \<times> rat) list" where
  "area_values areas conf name = (case area_score areas name of None \<Rightarrow> [] | Some v \<Rightarrow> [(name, v, conf)])"

definition range_ok :: "(string \<times> rat \<times> rat) list \<Rightarrow> bool" where
  "range_ok vs \<longleftrightarrow> list_all (\<lambda>(n, v, c). in_score_range v \<and> in_score_range c) vs"

lemma rank_area_effect:
  assumes "rank_area areas conf st nw = Inr st'"
  shows "rs_values st' = rs_values st @ area_values areas conf (fst nw)"
    and "rs_gates st' = rs_gates st @ area_gates areas (fst nw)"
    and "rs_applicable st' = rs_applicable st - (if area_excused areas (fst nw) then snd nw else 0)"
    and "range_ok (area_values areas conf (fst nw))"
  using assms
  by (auto simp: rank_area_def Let_def area_values_def area_score_def area_gates_def area_excused_def range_ok_def
      add_value_Inr add_negative_def add_gate_def split: option.splits if_splits)

definition area_weights :: "(string \<times> int) list \<Rightarrow> (string \<times> int) list" where
  "area_weights ws = filter (\<lambda>nw. fst nw \<notin> {''TECHNICAL'', ''SECTOR''}) ws"

lemma rank_areas_effect:
  assumes "rank_areas areas conf st ws = Inr st'"
  shows "rs_values st' = rs_values st @ concat (map (area_values areas conf) (map fst (area_weights ws))) \<and>
    rs_gates st' = rs_gates st @ concat (map (area_gates areas) (map fst (area_weights ws))) \<and>
    rs_applicable st' = rs_applicable st - sum_list (map snd (filter (\<lambda>nw. area_excused areas (fst nw)) (area_weights ws))) \<and>
    range_ok (concat (map (area_values areas conf) (map fst (area_weights ws))))"
  using assms
proof (induction ws arbitrary: st)
  case (Cons nw ws)
  show ?case
  proof (cases "fst nw \<in> {''TECHNICAL'', ''SECTOR''}")
    case True
    then have "area_weights (nw # ws) = area_weights ws" "rank_areas areas conf st ws = Inr st'"
      using Cons.prems by (simp_all add: area_weights_def)
    then show ?thesis using Cons.IH by simp
  next
    case False
    then obtain st1 where st1: "rank_area areas conf st nw = Inr st1" "rank_areas areas conf st1 ws = Inr st'"
      using Cons.prems by (auto split: sum.splits)
    have "area_weights (nw # ws) = nw # area_weights ws" using False by (simp add: area_weights_def)
    then show ?thesis
      using Cons.IH[OF st1(2)] rank_area_effect[OF st1(1)] by (simp add: range_ok_def)
  qed
qed (simp add: area_weights_def range_ok_def)

lemma rank_dimension_effect:
  assumes "rank_dimension n v c ok st = Inr st'"
  shows "rs_values st' = rs_values st @ (case v of Some x \<Rightarrow> if ok then [(n, x, c)] else [] | None \<Rightarrow> []) \<and>
    rs_gates st' = rs_gates st \<and> rs_applicable st' = rs_applicable st \<and>
    range_ok (case v of Some x \<Rightarrow> if ok then [(n, x, c)] else [] | None \<Rightarrow> [])"
  using assms by (auto simp: rank_dimension_def add_value_Inr add_negative_def range_ok_def split: option.splits if_splits)

text \<open>The names in the order of the weights, and what the whole pass over a candidate collects.\<close>

definition AREA_NAMES :: "string list" where "AREA_NAMES = map fst (area_weights RANKER_WEIGHTS)"

definition areas_of :: "rule_result option \<Rightarrow> (string \<times> area_result) list" where
  "areas_of rule = (case rule of None \<Rightarrow> [] | Some r \<Rightarrow> map (\<lambda>a. (area_name (ar_area a), a)) (ru_areas r))"

definition rule_confidence :: "rule_result option \<Rightarrow> rat" where
  "rule_confidence rule = (case rule of None \<Rightarrow> 0 | Some r \<Rightarrow> sr_confidence_score (ru_result r))"

definition technical_score :: "stage_b_candidate \<Rightarrow> rat option" where
  "technical_score cand = (if price_gates (sb_technical cand) (sb_sector cand) = [] then sb_technical_score cand else None)"

definition sector_score :: "stage_b_candidate \<Rightarrow> rat option" where
  "sector_score cand = (if price_gates (sb_technical cand) (sb_sector cand) = [] \<and>
     sv_state (sb_sector cand) \<noteq> ''INSUFFICIENT_DATA'' then sb_sector_score cand else None)"

definition entry_values :: "string \<Rightarrow> rat option \<Rightarrow> rat \<Rightarrow> (string \<times> rat \<times> rat) list" where
  "entry_values n v c = (case v of None \<Rightarrow> [] | Some x \<Rightarrow> [(n, x, c)])"

definition evidence_values :: "stage_b_candidate \<Rightarrow> rule_result option \<Rightarrow> (string \<times> rat \<times> rat) list" where
  "evidence_values cand rule =
     concat (map (area_values (areas_of rule) (rule_confidence rule)) AREA_NAMES) @
     entry_values ''TECHNICAL'' (technical_score cand) (tv_confidence (sb_technical cand)) @
     entry_values ''SECTOR'' (sector_score cand) (sv_confidence (sb_sector cand))"

definition obligation :: "rule_result option \<Rightarrow> int" where
  "obligation rule = 100 - sum_list (map weight_of (filter (area_excused (areas_of rule)) AREA_NAMES))"

definition evidence_gates :: "stage_b_candidate \<Rightarrow> rule_result option \<Rightarrow> string list" where
  "evidence_gates cand rule = rule_gates rule @ concat (map (area_gates (areas_of rule)) AREA_NAMES) @
     price_gates (sb_technical cand) (sb_sector cand)"

lemma areas_by_name_Inr: "areas_by_name d as = Inr areas \<Longrightarrow> areas = d @ map (\<lambda>a. (area_name (ar_area a), a)) as"
  by (induction d as rule: areas_by_name.induct) (auto split: if_splits)

lemma check_inputs_Inr: "check_inputs cand rule = Inr areas \<Longrightarrow> areas = areas_of rule"
  using areas_by_name_Inr[of "[]"] by (auto simp: check_inputs_def areas_of_def Let_def split: if_splits option.splits)

lemma removed_weights: "sum_list (map snd (filter (\<lambda>nw. P (fst nw)) (area_weights RANKER_WEIGHTS))) = sum_list (map weight_of (filter P AREA_NAMES))"
proof -
  have w: "snd nw = weight_of (fst nw)" if "nw \<in> set (area_weights RANKER_WEIGHTS)" for nw
    using that by (auto simp: area_weights_def RANKER_WEIGHTS_def weight_of_def)
  have eq: "map snd (filter (\<lambda>nw. P (fst nw)) (area_weights RANKER_WEIGHTS)) =
      map (\<lambda>nw. weight_of (fst nw)) (filter (\<lambda>nw. P (fst nw)) (area_weights RANKER_WEIGHTS))"
    using w by (auto simp: map_eq_conv)
  show ?thesis unfolding eq AREA_NAMES_def filter_map map_map comp_def ..
qed

lemma total_weight: "sum_list (map snd RANKER_WEIGHTS) = 100"
  by (simp add: RANKER_WEIGHTS_def)

lemma rank_scores_effect:
  assumes "rank_scores cand rule = Inr st"
  shows "rs_values st = evidence_values cand rule \<and> rs_gates st = evidence_gates cand rule \<and>
    rs_applicable st = obligation rule \<and> range_ok (evidence_values cand rule)"
proof -
  obtain st1 where st1: "rank_areas (areas_of rule) (rule_confidence rule) (initial_state rule) RANKER_WEIGHTS = Inr st1"
      "rank_dimensions cand st1 = Inr st"
    using assms check_inputs_Inr by (fastforce simp: rank_scores_def rule_confidence_def split: sum.splits)
  let ?ok = "price_gates (sb_technical cand) (sb_sector cand) = []"
  let ?st1 = "st1\<lparr>rs_gates := rs_gates st1 @ price_gates (sb_technical cand) (sb_sector cand)\<rparr>"
  obtain st2 where st2: "rank_dimension ''TECHNICAL'' (sb_technical_score cand) (tv_confidence (sb_technical cand)) ?ok ?st1 = Inr st2"
      "rank_dimension ''SECTOR'' (sb_sector_score cand) (sv_confidence (sb_sector cand))
        (sv_state (sb_sector cand) \<noteq> ''INSUFFICIENT_DATA'' \<and> ?ok) st2 = Inr st"
    using st1(2) by (auto simp: rank_dimensions_def Let_def split: if_splits sum.splits)
  have e: "entry_values n (if b then v else None) c = (case v of Some x \<Rightarrow> if b then [(n, x, c)] else [] | None \<Rightarrow> [])" for n v c b
    by (simp add: entry_values_def split: option.split)
  have t: "technical_score cand = (if ?ok then sb_technical_score cand else None)"
      "sector_score cand = (if sv_state (sb_sector cand) \<noteq> ''INSUFFICIENT_DATA'' \<and> ?ok then sb_sector_score cand else None)"
    by (simp_all add: technical_score_def sector_score_def)
  note effects = rank_areas_effect[OF st1(1)] rank_dimension_effect[OF st2(1)] rank_dimension_effect[OF st2(2)]
  show ?thesis
    using effects unfolding evidence_values_def t e evidence_gates_def obligation_def removed_weights
    by (simp add: AREA_NAMES_def initial_state_def total_weight range_ok_def)
qed

lemma rank_score_Inr:
  assumes "rank_score cand rule = Inr r"
  obtains st a b c d where "rank_scores cand rule = Inr st" and "r = summarise cand a b c d st"
  using assms by (auto simp: rank_score_def split: sum.splits)

section \<open>The score of an opportunity\<close>

definition scores_of :: "(string \<times> rat \<times> rat) list \<Rightarrow> (string \<times> rat) list" where
  "scores_of vs = map (\<lambda>(n, v, c). (n, v)) vs"

definition confidences_of :: "(string \<times> rat \<times> rat) list \<Rightarrow> (string \<times> rat) list" where
  "confidences_of vs = map (\<lambda>(n, v, c). (n, c)) vs"

lemma area_values_weights:
  "evidence_weight (concat (map (area_values areas conf) ns)) + sum_list (map weight_of (filter (area_excused areas) ns))
     \<le> sum_list (map weight_of ns) \<and>
   length (concat (map (area_values areas conf) ns)) \<le> length ns \<and>
   fst ` set (concat (map (area_values areas conf) ns)) \<subseteq> set ns"
  if "set ns \<subseteq> fst ` set RANKER_WEIGHTS"
  using that
proof (induction ns)
  case (Cons n ns)
  have "0 \<le> weight_of n" using Cons.prems weight_of_bounds[of n] by auto
  moreover have "area_excused areas n \<Longrightarrow> area_score areas n = None"
    by (auto simp: area_excused_def area_score_def split: option.splits)
  ultimately show ?case
    using Cons by (cases "area_score areas n") (auto simp: evidence_weight_def area_values_def)
qed (simp add: evidence_weight_def)

lemma names_ok: "set AREA_NAMES \<subseteq> fst ` set RANKER_WEIGHTS" "sum_list (map weight_of AREA_NAMES) = 90" "length AREA_NAMES = 9"
  "weight_of ''TECHNICAL'' = 7" "weight_of ''SECTOR'' = 3"
  by (simp_all add: AREA_NAMES_def area_weights_def RANKER_WEIGHTS_def weight_of_def)

lemma evidence_weight_nonneg: "fst ` set vs \<subseteq> fst ` set RANKER_WEIGHTS \<Longrightarrow> 0 \<le> evidence_weight vs"
proof (induction vs)
  case (Cons v vs)
  then have "1 \<le> weight_of (fst v)" using weight_of_bounds[of "fst v"] by simp
  then show ?case using Cons by (cases v) (simp add: evidence_weight_def)
qed (simp add: evidence_weight_def)

lemma evidence_weights:
  shows "evidence_weight (evidence_values cand rule) \<le> obligation rule" and "10 \<le> obligation rule"
    and "length (evidence_values cand rule) \<le> 11"
    and "fst ` set (evidence_values cand rule) \<subseteq> fst ` set RANKER_WEIGHTS"
proof -
  note a = area_values_weights[OF names_ok(1), where areas = "areas_of rule" and conf = "rule_confidence rule", unfolded names_ok(2,3)]
  let ?A = "concat (map (area_values (areas_of rule) (rule_confidence rule)) AREA_NAMES)"
  have "fst ` set ?A \<subseteq> fst ` set RANKER_WEIGHTS" using a names_ok(1) by (meson order_trans)
  then have "0 \<le> evidence_weight ?A" by (rule evidence_weight_nonneg)
  then show "10 \<le> obligation rule" using a by (simp add: obligation_def)
  have e: "evidence_weight (entry_values n v c) \<le> max 0 (weight_of n)" "length (entry_values n v c) \<le> 1"
      "fst ` set (entry_values n v c) \<subseteq> {n}" for n v c
    by (auto simp: entry_values_def evidence_weight_def split: option.split)
  have app: "evidence_weight (xs @ ys) = evidence_weight xs + evidence_weight ys" for xs ys
    by (simp add: evidence_weight_def)
  show "evidence_weight (evidence_values cand rule) \<le> obligation rule"
    unfolding evidence_values_def app obligation_def
    using a e(1)[of "''TECHNICAL''" "technical_score cand" "tv_confidence (sb_technical cand)"]
      e(1)[of "''SECTOR''" "sector_score cand" "sv_confidence (sb_sector cand)"] by (simp add: names_ok)
  show "length (evidence_values cand rule) \<le> 11"
    unfolding evidence_values_def length_append
    using a e(2)[of "''TECHNICAL''" "technical_score cand" "tv_confidence (sb_technical cand)"]
      e(2)[of "''SECTOR''" "sector_score cand" "sv_confidence (sb_sector cand)"] by linarith
  have sub: "n \<in> W \<Longrightarrow> fst ` set (entry_values n v c) \<subseteq> W" for n v c W
    using e(3)[of n v c] by blast
  have "''TECHNICAL'' \<in> fst ` set RANKER_WEIGHTS" "''SECTOR'' \<in> fst ` set RANKER_WEIGHTS"
    by (simp_all add: RANKER_WEIGHTS_def)
  note this[THEN sub]
  note names = this \<open>fst ` set ?A \<subseteq> fst ` set RANKER_WEIGHTS\<close>
  then show "fst ` set (evidence_values cand rule) \<subseteq> fst ` set RANKER_WEIGHTS"
    unfolding evidence_values_def set_append image_Un by (intro Un_least names)
qed

lemma scored_lists:
  assumes "rank_scores cand rule = Inr st"
  shows "all_scored (scores_of (evidence_values cand rule))" and "all_scored (confidences_of (evidence_values cand rule))"
  using rank_scores_effect[OF assms] evidence_weights(3,4)[of cand rule]
  by (auto simp: all_scored_def scores_of_def confidences_of_def range_ok_def in_score_range_def list_all_iff split_beta)

lemma weight_sum_values:
  "weight_sum (scores_of vs) = of_int (evidence_weight vs)" "weight_sum (confidences_of vs) = of_int (evidence_weight vs)"
  by (induction vs) (auto simp: weight_sum_def scores_of_def confidences_of_def evidence_weight_def)

lemma evidence_weight_zero: "all_scored (scores_of vs) \<Longrightarrow> evidence_weight vs = 0 \<longleftrightarrow> vs = []"
proof
  assume s: "all_scored (scores_of vs)" and "evidence_weight vs = 0"
  then have "weight_sum (scores_of vs) = 0" by (simp add: weight_sum_values)
  then show "vs = []" using weight_sum_ge_1[OF s] by (fastforce simp: scores_of_def)
qed (simp add: evidence_weight_def)

text \<open>C18: Whatever the candidate and the rule result, the opportunity score of a successful scoring is the
  weighted mean of the scores that count, to within a hundred-millionth, and lies between 0 and 100;
  it is missing exactly when nothing counts.  The confidence is the weighted sum of the confidences over
  the whole obligation, so missing evidence lowers it; coverage and confidence lie between 0 and 100.\<close>

theorem opportunity_is_weighted_mean:
  assumes "rank_score cand rule = Inr r"
  defines "vs \<equiv> evidence_values cand rule"
  shows "(vs = [] \<longrightarrow> go_score r = None) \<and>
    (vs \<noteq> [] \<longrightarrow> (\<exists>x. go_score r = Some x \<and> 0 \<le> x \<and> x \<le> 100 \<and>
       \<bar>x - score_sum (scores_of vs) / weight_sum (scores_of vs)\<bar> \<le> 1 / 100000000)) \<and>
    \<bar>go_confidence r - score_sum (confidences_of vs) / of_int (obligation rule)\<bar> \<le> 1 / 100000000 \<and>
    0 \<le> go_confidence r \<and> go_confidence r \<le> 100 \<and> 0 \<le> go_coverage r \<and> go_coverage r \<le> 100"
proof -
  obtain st a b c d where st: "rank_scores cand rule = Inr st" and r: "r = summarise cand a b c d st"
    by (rule rank_score_Inr[OF assms(1)])
  note e = rank_scores_effect[OF st] and s = scored_lists[OF st]
  define D where "D = rat_of_int (obligation rule)"
  have A: "weight_sum (confidences_of vs) \<le> D" "weight_sum (scores_of vs) \<le> D" "1 \<le> D"
    using evidence_weights(1)[of cand rule] evidence_weights(2)[of rule] unfolding weight_sum_values D_def vs_def by simp_all
  have aw: "evidence_weight vs = 0 \<longleftrightarrow> vs = []"
    unfolding vs_def by (rule evidence_weight_zero[OF s(1)])
  have score: "go_score r = (if vs = [] then None
      else Some (round8 (fl64 (weighted_total (scores_of vs) / weight_sum (scores_of vs)))))"
    unfolding weight_sum_values using e aw by (simp add: r summarise_def Let_def vs_def scores_of_def)
  have conf: "go_confidence r = round8 (fl64 (weighted_total (confidences_of vs) / D))"
    using e by (simp add: r summarise_def Let_def vs_def confidences_of_def D_def)
  have "go_coverage r = round8 (fl64 (of_int (100 * evidence_weight vs) / D))"
    using e by (simp add: r summarise_def Let_def vs_def D_def)
  moreover have "0 \<le> (of_int (100 * evidence_weight vs) / D :: rat)" "of_int (100 * evidence_weight vs) / D \<le> (100 :: rat)"
  proof -
    have "0 \<le> weight_sum (scores_of vs)"
      using weight_sum_ge_1[OF s(1)] by (cases "scores_of vs = []") (simp_all add: weight_sum_def vs_def)
    then have w: "0 \<le> rat_of_int (evidence_weight vs)" "rat_of_int (evidence_weight vs) \<le> D"
      using A(2) by (simp_all add: weight_sum_values)
    show "0 \<le> (of_int (100 * evidence_weight vs) / D :: rat)" using w A(3) by simp
    show "of_int (100 * evidence_weight vs) / D \<le> (100 :: rat)" using w A(3) by (simp add: pos_divide_le_eq)
  qed
  then have "0 \<le> fl64 (of_int (100 * evidence_weight vs) / D)" "fl64 (of_int (100 * evidence_weight vs) / D) \<le> 100"
    using fl64_mono fl64_0 fl64_numeral(1) by metis+
  ultimately have "0 \<le> go_coverage r \<and> go_coverage r \<le> 100"
    using round8_range[of "fl64 (of_int (100 * evidence_weight vs) / D)"] by simp
  moreover have "vs \<noteq> [] \<longrightarrow> 1 \<le> weight_sum (scores_of vs)"
    using weight_sum_ge_1[OF s(1)] by (auto simp: vs_def scores_of_def)
  ultimately show ?thesis
    using rounded_mean[OF s(1)[folded vs_def] order_refl] rounded_mean[OF s(2)[folded vs_def] A(1,3)]
    unfolding score conf D_def[symmetric] by simp
qed

section \<open>Eligibility\<close>

lemma areas_by_name_distinct:
  "areas_by_name d as = Inr areas \<Longrightarrow> distinct (map fst d) \<Longrightarrow> distinct (map fst d @ map (\<lambda>a. area_name (ar_area a)) as)"
proof (induction d as rule: areas_by_name.induct)
  case (2 d a as)
  then show ?case by (auto split: if_splits)
qed simp

lemma rank_scores_distinct:
  "rank_scores cand rule = Inr st \<Longrightarrow> distinct (map fst (areas_of rule))"
  using areas_by_name_distinct[of "[]"]
  by (fastforce simp: rank_scores_def check_inputs_def areas_of_def Let_def comp_def split: sum.splits if_splits option.splits)

definition spoils :: "area_result \<Rightarrow> bool" where
  "spoils a \<longleftrightarrow> area_name (ar_area a) \<in> set CRITICAL_AREAS \<and> ar_applicable a \<and> ar_status a \<in> {A_READY_STALE, A_CONFLICTING}"

lemma area_gates_empty:
  "area_gates areas name = [] \<longleftrightarrow>
     (\<forall>a. map_of areas name = Some a \<longrightarrow> \<not> (name \<in> set CRITICAL_AREAS \<and> ar_applicable a \<and> ar_status a \<in> {A_READY_STALE, A_CONFLICTING}))"
  by (auto simp: area_gates_def split: option.split)

lemma critical_names: "set CRITICAL_AREAS \<subseteq> set AREA_NAMES"
  by (simp add: CRITICAL_AREAS_def AREA_NAMES_def area_weights_def RANKER_WEIGHTS_def)

lemma no_area_gates:
  assumes "distinct (map fst (areas_of (Some ru)))"
  shows "concat (map (area_gates (areas_of (Some ru))) AREA_NAMES) = [] \<longleftrightarrow> (\<forall>a \<in> set (ru_areas ru). \<not> spoils a)"
proof -
  have look: "map_of (areas_of (Some ru)) n = Some a \<longleftrightarrow> a \<in> set (ru_areas ru) \<and> area_name (ar_area a) = n" for n a
    using map_of_eq_Some_iff[OF assms] by (auto simp: areas_of_def)
  have "concat (map (area_gates (areas_of (Some ru))) AREA_NAMES) = [] \<longleftrightarrow>
      (\<forall>n \<in> set AREA_NAMES. area_gates (areas_of (Some ru)) n = [])" by simp
  also have "\<dots> \<longleftrightarrow> (\<forall>a \<in> set (ru_areas ru). \<not> spoils a)"
    unfolding area_gates_empty look spoils_def using critical_names by blast
  finally show ?thesis .
qed

lemma eligible_iff_gates:
  assumes "rank_score cand rule = Inr r"
  shows "(go_eligible r \<longleftrightarrow> evidence_gates cand rule = [] \<and> evidence_values cand rule \<noteq> []) \<and> (go_eligible r \<longleftrightarrow> go_gates r = [])"
proof -
  obtain st a b c d where st: "rank_scores cand rule = Inr st" and r: "r = summarise cand a b c d st"
    by (rule rank_score_Inr[OF assms(1)])
  note e = rank_scores_effect[OF st]
  have aw: "evidence_weight (evidence_values cand rule) = 0 \<longleftrightarrow> evidence_values cand rule = []"
    by (rule evidence_weight_zero[OF scored_lists(1)[OF st]])
  show ?thesis using e aw by (simp add: r summarise_def Let_def)
qed

text \<open>C8: A scored candidate may be ranked exactly when it has a result of a full, not partial, analysis with an
  overall score, no override that blocks buying or is critical, no critical area that is stale or
  conflicting, a current price without conflict, and some evidence that counts.  Otherwise a gate is
  reported.\<close>

theorem rank_eligible_exact:
  assumes "rank_score cand rule = Inr r"
  shows "(go_eligible r \<longleftrightarrow>
      (\<exists>ru. rule = Some ru \<and> \<not> sr_partial (ru_result ru) \<and> el_full (sr_eligibility (ru_result ru)) \<and> sr_overall (ru_result ru) \<noteq> None \<and>
        (\<forall>ov \<in> set (ru_overrides ru). \<not> ov_block_buy ov \<and> ov_severity ov \<noteq> SEV_CRITICAL) \<and>
        (\<forall>a \<in> set (ru_areas ru). \<not> spoils a)) \<and>
      price_gates (sb_technical cand) (sb_sector cand) = [] \<and> evidence_values cand rule \<noteq> []) \<and>
    (go_eligible r \<longleftrightarrow> go_gates r = [])"
proof -
  obtain st where st: "rank_scores cand rule = Inr st" using rank_score_Inr[OF assms(1)] by metis
  note g = eligible_iff_gates[OF assms]
  have "rule_gates rule = [] \<and> concat (map (area_gates (areas_of rule)) AREA_NAMES) = [] \<longleftrightarrow>
      (\<exists>ru. rule = Some ru \<and> \<not> sr_partial (ru_result ru) \<and> el_full (sr_eligibility (ru_result ru)) \<and> sr_overall (ru_result ru) \<noteq> None \<and>
        (\<forall>ov \<in> set (ru_overrides ru). \<not> ov_block_buy ov \<and> ov_severity ov \<noteq> SEV_CRITICAL) \<and> (\<forall>a \<in> set (ru_areas ru). \<not> spoils a))"
  proof (cases rule)
    case (Some ru)
    show ?thesis
      using no_area_gates[of ru] rank_scores_distinct[OF st] by (auto simp: Some rule_gates_def filter_empty_conv)
  qed (simp add: rule_gates_def)
  moreover have "evidence_gates cand rule = [] \<longleftrightarrow>
      (rule_gates rule = [] \<and> concat (map (area_gates (areas_of rule)) AREA_NAMES) = []) \<and>
      price_gates (sb_technical cand) (sb_sector cand) = []"
    unfolding evidence_gates_def append_is_Nil_conv conj_assoc ..
  ultimately show ?thesis using g by argo
qed

section \<open>The order of the ranking\<close>

lemma score_all_Inr:
  "score_all rules seen cs = Inr rs \<longleftrightarrow>
     distinct (map sb_instrument cs) \<and> set (map sb_instrument cs) \<inter> set seen = {} \<and>
     list_all2 (\<lambda>c r. rank_score c (rules (sb_instrument c)) = Inr r) cs rs"
proof (induction cs arbitrary: seen rs)
  case (Cons c cs)
  show ?case
  proof (cases "rank_score c (rules (sb_instrument c))")
    case (Inl e)
    then show ?thesis by (auto simp: list_all2_Cons1)
  next
    case (Inr r)
    have "score_all rules seen (c # cs) = Inr rs \<longleftrightarrow>
        sb_instrument c \<notin> set seen \<and> (\<exists>us. rs = r # us \<and> score_all rules (sb_instrument c # seen) cs = Inr us)"
      using Inr by (auto split: sum.splits)
    then show ?thesis using Inr unfolding Cons.IH by (auto simp: list_all2_Cons1)
  qed
qed auto

lemma rank_score_instrument: "rank_score cand rule = Inr r \<Longrightarrow> go_instrument r = sb_instrument cand"
  by (erule rank_score_Inr) (simp add: summarise_def Let_def)

lemma score_all_map:
  assumes "score_all rules [] cs = Inr rs"
  defines "f \<equiv> \<lambda>c. projr (rank_score c (rules (sb_instrument c)))"
  shows "rs = map f cs" and "map go_instrument rs = map sb_instrument cs" and "mset cs' = mset cs \<Longrightarrow> score_all rules [] cs' = Inr (map f cs')"
proof -
  have d: "distinct (map sb_instrument cs)" and l: "list_all2 (\<lambda>c r. rank_score c (rules (sb_instrument c)) = Inr r) cs rs"
    using assms(1) by (simp_all add: score_all_Inr)
  show rs: "rs = map f cs"
    using l unfolding f_def by (induction rule: list_all2_induct) auto
  show "map go_instrument rs = map sb_instrument cs"
    using l by (induction rule: list_all2_induct) (auto dest: rank_score_instrument)
  have ok: "rank_score c (rules (sb_instrument c)) = Inr (f c)" if "c \<in> set cs" for c
    using l that unfolding f_def rs by (auto simp: list_all2_map2 list_all2_same f_def)
  show "score_all rules [] cs' = Inr (map f cs')" if "mset cs' = mset cs"
  proof -
    have "set cs' = set cs" using that by (rule mset_eq_setD)
    moreover have "mset (map sb_instrument cs') = mset (map sb_instrument cs)" using that by simp
    then have "distinct (map sb_instrument cs')" using d mset_eq_imp_distinct_iff by blast
    ultimately show ?thesis using ok by (simp add: score_all_Inr list_all2_map2 list_all2_same)
  qed
qed

text \<open>The ranking does not depend on the order in which the candidates are supplied, and ranks every
  candidate exactly once.\<close>

theorem ranking_ignores_input_order:
  assumes "rank_candidates rules cs = Inr rs" and "mset cs' = mset cs"
  shows "rank_candidates rules cs' = Inr rs \<and> mset (map go_instrument rs) = mset (map sb_instrument cs)"
proof -
  obtain us where us: "score_all rules [] cs = Inr us" "rs = sort_key rank_key us"
    using assms(1) by (auto simp: rank_candidates_def split: sum.splits)
  define f where "f = (\<lambda>c. projr (rank_score c (rules (sb_instrument c))))"
  note m = score_all_map[OF us(1), folded f_def]
  have "distinct (map go_instrument us)" using m(2) us(1) by (simp add: score_all_Inr)
  then have "inj_on go_instrument (set us)" by (simp add: distinct_map)
  then have "inj_on rank_key (set us)" by (auto simp: inj_on_def rank_key_def)
  moreover have "mset (map f cs') = mset us" using assms(2) m(1) by simp
  then have "set (map f cs') = set us" by (rule mset_eq_setD)
  ultimately have inj: "inj_on rank_key (set (map f cs'))" by (simp only:)
  have "mset (map f cs') = mset (sort_key rank_key us)" using \<open>mset (map f cs') = mset us\<close> by simp
  then have "sort_key rank_key (map f cs') = sort_key rank_key us"
    by (rule sort_key_inj_key_eq[OF _ inj]) simp
  then have "rank_candidates rules cs' = Inr rs" using m(3)[OF assms(2)] us(2) by (simp add: rank_candidates_def)
  moreover have "mset (map go_instrument rs) = mset (map go_instrument us)" using us(2) by simp
  ultimately show ?thesis using m(2) by simp
qed

section \<open>A concrete ranking\<close>

definition sample_candidate :: "string \<Rightarrow> rat \<Rightarrow> stage_b_candidate" where
  "sample_candidate key t = \<lparr>sb_instrument = key, sb_version = ''GLOBAL_STAGE_B_V1'',
     sb_technical = \<lparr>tv_instrument = key, tv_score = Some t, tv_state = ''UPTREND'', tv_confidence = 90, tv_stale = [], tv_features = []\<rparr>,
     sb_sector = \<lparr>sv_instrument = key, sv_score = None, sv_state = ''INSUFFICIENT_DATA'', sv_confidence = 0, sv_stale = [], sv_missing = []\<rparr>,
     sb_technical_score = Some t, sb_sector_score = None\<rparr>"

definition sample_rule :: "string \<Rightarrow> rule_result" where
  "sample_rule key = \<lparr>ru_instrument = key, ru_version = ''STOCK_RULE_ENGINE_V1'',
     ru_areas = [\<lparr>ar_area = VALUATION, ar_weight = 18, ar_raw = Some 80, ar_contribution = 14, ar_status = A_READY_FRESH,
       ar_applicable = True, ar_metrics = [], ar_evidence = [], ar_missing = []\<rparr>],
     ru_overrides = [],
     ru_result = \<lparr>sr_overall = Some 80, sr_quality = None, sr_opportunity = Some 80, sr_risk = None, sr_confidence_score = 95,
       sr_confidence = HIGH, sr_decision = BUY, sr_partial = False,
       sr_eligibility = \<lparr>el_full = True, el_partial = False, el_blocking = [], el_reason = ''R''\<rparr>, sr_missing = [], sr_evidence = []\<rparr>\<rparr>"

lemmas sample_simps = sample_candidate_def sample_rule_def rank_score_def rank_scores_def check_inputs_def Let_def
  initial_state_def RANKER_WEIGHTS_def rank_area_def missing_area_def add_negative_def add_value_def check_score_def
  rank_dimensions_def rank_dimension_def price_gates_def check_optional_def OPTIONAL_AREAS_def

lemma sample_scored:
  assumes "0 \<le> t" and "t \<le> 100"
  shows "\<exists>r. rank_score (sample_candidate key t) (Some (sample_rule key)) = Inr r"
  using assms by (simp add: sample_simps)

lemma opportunity_is_weighted_mean_witness:
  "\<exists>r x. rank_score (sample_candidate ''A'' 70) (Some (sample_rule ''A'')) = Inr r \<and> go_score r = Some x \<and> 0 \<le> x \<and> x \<le> 100"
proof -
  obtain r where r: "rank_score (sample_candidate ''A'' 70) (Some (sample_rule ''A'')) = Inr r"
    using sample_scored[of 70 "''A''"] by auto
  have "evidence_values (sample_candidate ''A'' 70) (Some (sample_rule ''A'')) \<noteq> []"
    by (simp add: evidence_values_def entry_values_def technical_score_def price_gates_def sample_candidate_def)
  then show ?thesis using opportunity_is_weighted_mean[OF r] r by blast
qed

lemma rank_eligible_exact_witness:
  "\<exists>r. rank_score (sample_candidate ''A'' 70) (Some (sample_rule ''A'')) = Inr r \<and> go_eligible r"
proof -
  obtain r where r: "rank_score (sample_candidate ''A'' 70) (Some (sample_rule ''A'')) = Inr r"
    using sample_scored[of 70 "''A''"] by auto
  have "evidence_values (sample_candidate ''A'' 70) (Some (sample_rule ''A'')) \<noteq> []"
    by (simp add: evidence_values_def entry_values_def technical_score_def price_gates_def sample_candidate_def)
  moreover have "price_gates (sb_technical (sample_candidate ''A'' 70)) (sb_sector (sample_candidate ''A'' 70)) = []"
    by (simp add: price_gates_def sample_candidate_def)
  moreover have "\<not> spoils a" if "a \<in> set (ru_areas (sample_rule ''A''))" for a
    using that by (simp add: sample_rule_def spoils_def)
  ultimately show ?thesis
    using rank_eligible_exact[OF r] r by (auto simp: sample_rule_def)
qed

lemma ranking_ignores_input_order_witness:
  "\<exists>rs. rank_candidates (\<lambda>k. Some (sample_rule k)) [sample_candidate ''A'' 70, sample_candidate ''B'' 60] = Inr rs \<and>
     rank_candidates (\<lambda>k. Some (sample_rule k)) [sample_candidate ''B'' 60, sample_candidate ''A'' 70] = Inr rs"
proof -
  obtain a b where "rank_score (sample_candidate ''A'' 70) (Some (sample_rule ''A'')) = Inr a"
      "rank_score (sample_candidate ''B'' 60) (Some (sample_rule ''B'')) = Inr b"
    using sample_scored[of 70 "''A''"] sample_scored[of 60 "''B''"] by auto
  moreover have "sb_instrument (sample_candidate k t) = k" for k t by (simp add: sample_candidate_def)
  ultimately have "rank_candidates (\<lambda>k. Some (sample_rule k)) [sample_candidate ''A'' 70, sample_candidate ''B'' 60] =
      Inr (sort_key rank_key [a, b])" by (simp add: rank_candidates_def)
  then show ?thesis
    using ranking_ignores_input_order[of _ "[sample_candidate ''A'' 70, sample_candidate ''B'' 60]" _
      "[sample_candidate ''B'' 60, sample_candidate ''A'' 70]"] by (auto simp: add_mset_commute)
qed

end
