(* ===== verification/Recommend.thy ===== *)
theory Recommend
  imports PyStr PyFloat
begin

text \<open>
  The recommendation policy (\<open>app/recommendation_engine.py\<close>): price ranges, the actions for the two
  horizons and the comparison of a new review with the original trade levels.  Prices and scores are
  finite floats, as the snapshots hold them, so \<open>number\<close> is the identity on them.  The fingerprint is
  taken by an argument \<open>digest\<close>, which stands for SHA-256 over the canonical JSON of its content.
\<close>

section \<open>Data\<close>

datatype new_action = AVOID_STOCK | STRONG_BUY_CANDIDATE | BUY_CANDIDATE | WATCH_WAIT

datatype holder_action = EXIT_REVIEW_HOLDING | TOP_UP_HOLDING | HOLD_NO_NEW_MONEY | HOLD_HOLDING | REDUCE_HOLDING | PARTIAL_EXIT_HOLDING

datatype short_action = BUY_SHORT | WAIT_SHORT | HOLD_SHORT | PARTIAL_EXIT_SHORT | EXIT_SHORT

datatype long_action = ACCUMULATE_LONG | HOLD_LONG | REDUCE_LONG | TOP_UP_LONG | EXIT_REVIEW_LONG

datatype trade_state =
    NEW_TRADE | HOLDING | INVALIDATED | INVALIDATION_APPROACHING | TARGET_REACHED | TARGET_APPROACHING | IN_ENTRY_ZONE
  | ENTRY_APPROACHING | PARTIAL_PROFIT | EXIT_REVIEW_STATE | THESIS_WEAKENING

record trade_ranges =
  rg_short_entry_low :: "rat option"
  rg_short_entry_high :: "rat option"
  rg_short_target_1 :: "rat option"
  rg_short_target_2 :: "rat option"
  rg_short_invalidation :: "rat option"
  rg_long_entry_low :: "rat option"
  rg_long_entry_high :: "rat option"
  rg_long_fair_value :: "rat option"
  rg_long_target :: "rat option"
  rg_long_invalidation :: "rat option"

record evidence_state =
  ev_technical_state :: "string option"
  ev_support :: "rat option"
  ev_resistance :: "rat option"
  ev_atr14 :: "rat option"
  ev_fair_value :: "rat option"
  ev_bull_target :: "rat option"
  ev_invalidation :: "rat option"
  ev_areas :: "(string \<times> rat option) list"
  ev_overrides :: "(string \<times> string) list"
  ev_missing :: "string list"
  ev_stale :: "string list"
  ev_rule_missing :: "string list"
  ev_technical_missing :: "string list"
  ev_technical_stale :: "string list"
  ev_other :: json

record opportunity_snapshot =
  sn_id :: string
  sn_instrument :: string
  sn_price :: "rat option"
  sn_score :: "rat option"
  sn_confidence :: rat
  sn_coverage :: rat
  sn_rule_score :: "rat option"
  sn_rank_eligible :: bool
  sn_positive :: "string list"
  sn_negative :: "string list"
  sn_evidence :: evidence_state

record stock_recommendation =
  rc_id :: string
  rc_snapshot :: string
  rc_instrument :: string
  rc_price :: "rat option"
  rc_score :: "rat option"
  rc_confidence :: rat
  rc_coverage :: rat
  rc_new :: new_action
  rc_holder :: holder_action
  rc_short :: short_action
  rc_long :: long_action
  rc_ranges :: trade_ranges
  rc_negative :: "string list"
  rc_fingerprint :: string

record lifecycle_state =
  lf_short_state :: trade_state
  lf_long_state :: trade_state
  lf_short :: short_action
  lf_long :: long_action
  lf_status :: trade_state
  lf_price_at :: "rat option"
  lf_price :: "rat option"
  lf_short_distance :: "rat option"
  lf_long_distance :: "rat option"
  lf_reasons :: "string list"

text \<open>The dictionary of the earlier state: the marker of a review, or a state of the lifecycle.\<close>

datatype prior_state = Review | Prior lifecycle_state

section \<open>Ranges\<close>

definition round4 :: "rat \<Rightarrow> rat" where "round4 x = fl64 (quantize 4 x)"

definition no_ranges :: trade_ranges where
  "no_ranges = \<lparr>rg_short_entry_low = None, rg_short_entry_high = None, rg_short_target_1 = None, rg_short_target_2 = None,
     rg_short_invalidation = None, rg_long_entry_low = None, rg_long_entry_high = None, rg_long_fair_value = None,
     rg_long_target = None, rg_long_invalidation = None\<rparr>"

definition short_ranges :: "opportunity_snapshot \<Rightarrow> trade_ranges \<Rightarrow> trade_ranges" where
  "short_ranges s g =
     (case (sn_price s, ev_support (sn_evidence s), ev_resistance (sn_evidence s)) of
        (Some p, Some support, Some resistance) \<Rightarrow>
          if p \<noteq> 0 \<and> support \<noteq> 0 \<and> resistance \<noteq> 0 \<and> 0 < support \<and> support \<le> p \<and> p < resistance
          then (let g' = g\<lparr>rg_short_entry_low := Some support,
                           rg_short_entry_high := Some (min p (fl64 (support * fl64 (103 / 100)))),
                           rg_short_target_1 := Some resistance\<rparr>
                in case ev_atr14 (sn_evidence s) of
                     Some atr \<Rightarrow> if atr \<noteq> 0 \<and> 0 < atr \<and> atr < support
                       then g'\<lparr>rg_short_target_2 := Some (fl64 (resistance + atr)), rg_short_invalidation := Some (fl64 (support - atr))\<rparr>
                       else g'
                   | None \<Rightarrow> g')
          else g
      | _ \<Rightarrow> g)"

definition long_ranges :: "opportunity_snapshot \<Rightarrow> trade_ranges \<Rightarrow> trade_ranges" where
  "long_ranges s g =
     (case ev_fair_value (sn_evidence s) of
        None \<Rightarrow> g
      | Some fair \<Rightarrow>
          if 0 < fair
          then (let floor_price = fl64 (fair * fl64 (8 / 10));
                    g' = g\<lparr>rg_long_entry_low := Some floor_price, rg_long_entry_high := Some (fl64 (fair * fl64 (9 / 10))),
                           rg_long_fair_value := Some fair\<rparr>;
                    g' = (case ev_bull_target (sn_evidence s) of
                        Some bull \<Rightarrow> if bull \<noteq> 0 \<and> fair \<le> bull then g'\<lparr>rg_long_target := Some bull\<rparr> else g' | None \<Rightarrow> g')
                in case ev_invalidation (sn_evidence s) of
                     Some i \<Rightarrow> if 0 < i \<and> i < floor_price then g'\<lparr>rg_long_invalidation := Some i\<rparr> else g' | None \<Rightarrow> g')
          else g)"

definition map_ranges :: "(rat option \<Rightarrow> rat option) \<Rightarrow> trade_ranges \<Rightarrow> trade_ranges" where
  "map_ranges f g = \<lparr>rg_short_entry_low = f (rg_short_entry_low g), rg_short_entry_high = f (rg_short_entry_high g),
     rg_short_target_1 = f (rg_short_target_1 g), rg_short_target_2 = f (rg_short_target_2 g),
     rg_short_invalidation = f (rg_short_invalidation g), rg_long_entry_low = f (rg_long_entry_low g),
     rg_long_entry_high = f (rg_long_entry_high g), rg_long_fair_value = f (rg_long_fair_value g),
     rg_long_target = f (rg_long_target g), rg_long_invalidation = f (rg_long_invalidation g)\<rparr>"

definition range_values :: "trade_ranges \<Rightarrow> rat option list" where
  "range_values g = [rg_short_entry_low g, rg_short_entry_high g, rg_short_target_1 g, rg_short_target_2 g, rg_short_invalidation g,
     rg_long_entry_low g, rg_long_entry_high g, rg_long_fair_value g, rg_long_target g, rg_long_invalidation g]"

definition ranges :: "opportunity_snapshot \<Rightarrow> trade_ranges" where
  "ranges s = map_ranges (map_option round4) (long_ranges s (short_ranges s no_ranges))"

section \<open>Lifecycle\<close>

text \<open>Truthiness of an optional price.\<close>

definition nonzero :: "rat option \<Rightarrow> rat option" where
  "nonzero v = (case v of Some x \<Rightarrow> if x \<noteq> 0 then Some x else None | None \<Rightarrow> None)"

definition reaches :: "rat option \<Rightarrow> (rat \<Rightarrow> bool) \<Rightarrow> bool" where
  "reaches v test = (case nonzero v of Some x \<Rightarrow> test x | None \<Rightarrow> False)"

definition horizon_state ::
    "bool \<Rightarrow> rat option \<Rightarrow> rat option \<Rightarrow> rat option \<Rightarrow> rat option \<Rightarrow> rat option \<Rightarrow> trade_state" where
  "horizon_state reviewed invalidation low high target price =
     (case price of
        None \<Rightarrow> if reviewed then HOLDING else NEW_TRADE
      | Some p \<Rightarrow>
          if reaches invalidation (\<lambda>i. p \<le> i) then INVALIDATED
          else if reaches invalidation (\<lambda>i. p \<le> fl64 (i * fl64 (103 / 100))) then INVALIDATION_APPROACHING
          else if reaches target (\<lambda>t. t \<le> p) then TARGET_REACHED
          else if reaches target (\<lambda>t. fl64 (t * fl64 (97 / 100)) \<le> p) then TARGET_APPROACHING
          else if (case (low, high) of (Some l, Some h) \<Rightarrow> l \<le> p \<and> p \<le> h | _ \<Rightarrow> False) then IN_ENTRY_ZONE
          else if reaches high (\<lambda>h. h < p \<and> p \<le> fl64 (h * fl64 (103 / 100))) then ENTRY_APPROACHING
          else if reviewed then HOLDING else NEW_TRADE)"

definition short_horizon ::
    "stock_recommendation \<Rightarrow> short_action \<Rightarrow> rat option \<Rightarrow> bool \<Rightarrow> trade_state \<times> short_action \<times> string list" where
  "short_horizon anchor short price reviewed =
     (let g = rc_ranges anchor;
          st = horizon_state reviewed (rg_short_invalidation g) (rg_short_entry_low g) (rg_short_entry_high g) (rg_short_target_1 g) price
      in if st = INVALIDATED then (st, EXIT_SHORT, [''SHORT_INVALIDATION_REACHED''])
         else if st = TARGET_REACHED then
           (let first = [''TARGET_1_REACHED'', ''SHORT_TERM_RISK_REWARD_COMPRESSED'']
            in case (nonzero (rg_short_target_2 g), price) of
                 (Some t2, Some p) \<Rightarrow>
                   if fl64 (t2 * fl64 (97 / 100)) \<le> p
                   then (if t2 \<le> p then (TARGET_REACHED, EXIT_SHORT, first @ [''TARGET_2_REACHED''])
                         else (PARTIAL_PROFIT, PARTIAL_EXIT_SHORT, first @ [''TARGET_2_APPROACHING'']))
                   else (PARTIAL_PROFIT, PARTIAL_EXIT_SHORT, first)
               | _ \<Rightarrow> (PARTIAL_PROFIT, PARTIAL_EXIT_SHORT, first))
         else if reviewed \<and> short = WAIT_SHORT \<and> rc_short anchor \<in> {BUY_SHORT, HOLD_SHORT, PARTIAL_EXIT_SHORT}
         then (st, HOLD_SHORT, [])
         else (st, short, []))"

definition long_horizon ::
    "stock_recommendation \<Rightarrow> long_action \<Rightarrow> rat option \<Rightarrow> bool \<Rightarrow> trade_state \<times> long_action" where
  "long_horizon anchor long price reviewed =
     (let g = rc_ranges anchor;
          st = horizon_state reviewed (rg_long_invalidation g) (rg_long_entry_low g) (rg_long_entry_high g) (rg_long_target g) price
      in if st = INVALIDATED then (INVALIDATED, EXIT_REVIEW_LONG)
         else if st \<in> {TARGET_REACHED, TARGET_APPROACHING} \<and> long \<notin> {REDUCE_LONG, EXIT_REVIEW_LONG} then (st, HOLD_LONG)
         else if reviewed \<and> long = ACCUMULATE_LONG \<and>
           (case price of None \<Rightarrow> False | Some p \<Rightarrow> reaches (rc_price anchor) (\<lambda>a. p \<le> fl64 (a * fl64 (97 / 100))))
         then (st, TOP_UP_LONG)
         else (st, long))"

definition target_distance :: "rat option \<Rightarrow> rat option \<Rightarrow> rat option" where
  "target_distance level price =
     (case (nonzero price, nonzero level) of
        (Some p, Some t) \<Rightarrow> Some (round4 (fl64 (fl64 (fl64 (t / p) - 1) * 100)))
      | _ \<Rightarrow> None)"

text \<open>The two horizons after the joint rules: a broken thesis, and horizons that were closed before.\<close>

definition short_outcome ::
    "stock_recommendation \<Rightarrow> stock_recommendation \<Rightarrow> rat option \<Rightarrow> prior_state option \<Rightarrow> trade_state \<times> short_action" where
  "short_outcome anchor rec price prior =
     (let (ss, short, _) = short_horizon anchor (rc_short rec) price (prior \<noteq> None);
          (ss, short) = (if rc_short rec = EXIT_SHORT \<and> ss \<notin> {INVALIDATED, TARGET_REACHED}
            then (EXIT_REVIEW_STATE, EXIT_SHORT) else (ss, short))
      in case prior of
           Some (Prior q) \<Rightarrow> if lf_short q = EXIT_SHORT then (lf_short_state q, EXIT_SHORT) else (ss, short)
         | _ \<Rightarrow> (ss, short))"

definition long_outcome ::
    "stock_recommendation \<Rightarrow> stock_recommendation \<Rightarrow> rat option \<Rightarrow> prior_state option \<Rightarrow> trade_state \<times> long_action" where
  "long_outcome anchor rec price prior =
     (let (_, short, _) = short_horizon anchor (rc_short rec) price (prior \<noteq> None);
          (ls, long) = long_horizon anchor (rc_long rec) price (prior \<noteq> None);
          (ls, long) = (if rc_long rec = EXIT_REVIEW_LONG then (EXIT_REVIEW_STATE, EXIT_REVIEW_LONG)
            else if long = REDUCE_LONG then (THESIS_WEAKENING, long) else (ls, long));
          long = (if short = PARTIAL_EXIT_SHORT \<and> long = ACCUMULATE_LONG then HOLD_LONG else long)
      in case prior of
           Some (Prior q) \<Rightarrow> if lf_long_state q = INVALIDATED then (INVALIDATED, EXIT_REVIEW_LONG) else (ls, long)
         | _ \<Rightarrow> (ls, long))"

definition lifecycle_reasons :: "stock_recommendation \<Rightarrow> stock_recommendation \<Rightarrow> rat option \<Rightarrow> prior_state option \<Rightarrow> string list" where
  "lifecycle_reasons anchor rec price prior =
     (let (_, _, reasons) = short_horizon anchor (rc_short rec) price (prior \<noteq> None)
      in reasons @ (if rc_long rec = EXIT_REVIEW_LONG then [''LONG_TERM_THESIS_BROKEN''] else []))"

definition trade_lifecycle :: "stock_recommendation \<Rightarrow> stock_recommendation \<Rightarrow> rat option \<Rightarrow> prior_state option \<Rightarrow> lifecycle_state" where
  "trade_lifecycle anchor rec price prior =
     (let (ss, short) = short_outcome anchor rec price prior;
          (ls, long) = long_outcome anchor rec price prior
      in \<lparr>lf_short_state = ss, lf_long_state = ls, lf_short = short, lf_long = long,
          lf_status = (if ls \<in> {EXIT_REVIEW_STATE, INVALIDATED, THESIS_WEAKENING} then ls else ss),
          lf_price_at = rc_price anchor, lf_price = price,
          lf_short_distance = target_distance (rg_short_target_2 (rc_ranges anchor)) price,
          lf_long_distance = target_distance (rg_long_target (rc_ranges anchor)) price,
          lf_reasons = lifecycle_reasons anchor rec price prior\<rparr>)"

section \<open>Evaluation\<close>

definition AREA_ALIASES :: "(string \<times> string) list" where
  "AREA_ALIASES = [(''QUALITY'', ''FUNDAMENTAL_BUSINESS_QUALITY''), (''QUARTERLY'', ''QUARTERLY_EARNINGS_TREND''),
     (''CATALYST'', ''ORDER_BOOK_CAPACITY_CATALYSTS''), (''NEWS'', ''NEWS_GEOPOLITICAL_EVENTS''),
     (''GOVERNANCE'', ''MANAGEMENT_GOVERNANCE'')]"

definition raw_scores :: "evidence_state \<Rightarrow> (string \<times> rat option) list" where
  "raw_scores ev = foldl (\<lambda>d (a, v). dset a v d) [] (ev_areas ev)"

definition area_scores :: "evidence_state \<Rightarrow> (string \<times> rat option) list" where
  "area_scores ev =
     (let raw = raw_scores ev
      in foldl (\<lambda>d (k, v). dset k (case map_of raw v of Some x \<Rightarrow> x | None \<Rightarrow> None) d) raw AREA_ALIASES)"

definition dimension :: "evidence_state \<Rightarrow> string \<Rightarrow> rat option" where
  "dimension ev k = (case map_of (area_scores ev) k of Some x \<Rightarrow> x | None \<Rightarrow> None)"

definition weak_dimensions :: "evidence_state \<Rightarrow> string list" where
  "weak_dimensions ev = filter (\<lambda>a. case dimension ev a of Some x \<Rightarrow> x \<le> 30 | None \<Rightarrow> False)
     [''QUALITY'', ''GROWTH'', ''BALANCE_SHEET'', ''QUARTERLY'']"

definition thesis_broken :: "evidence_state \<Rightarrow> bool" where
  "thesis_broken ev \<longleftrightarrow> list_ex (\<lambda>ov. snd ov = ''CRITICAL'') (ev_overrides ev) \<or>
     (case dimension ev ''GOVERNANCE'' of Some x \<Rightarrow> x \<le> 20 | None \<Rightarrow> False) \<or> 2 \<le> length (weak_dimensions ev)"

definition buy_qualified :: "opportunity_snapshot \<Rightarrow> bool" where
  "buy_qualified s \<longleftrightarrow> sn_rank_eligible s \<and> (case sn_score s of Some x \<Rightarrow> 65 \<le> x | None \<Rightarrow> False) \<and>
     60 \<le> sn_confidence s \<and> 60 \<le> sn_coverage s \<and> \<not> thesis_broken (sn_evidence s)"

definition BUY_STATES :: "string list" where
  "BUY_STATES = [''UPTREND'', ''BREAKOUT'', ''PULLBACK_IN_UPTREND'', ''REVERSAL_CANDIDATE'']"

definition short_buy :: "opportunity_snapshot \<Rightarrow> bool" where
  "short_buy s \<longleftrightarrow> buy_qualified s \<and>
     (case ev_technical_state (sn_evidence s) of Some t \<Rightarrow> t \<in> set BUY_STATES | None \<Rightarrow> False)"

definition long_buy :: "opportunity_snapshot \<Rightarrow> bool" where
  "long_buy s \<longleftrightarrow> buy_qualified s \<and>
     list_all (\<lambda>a. case dimension (sn_evidence s) a of Some x \<Rightarrow> 60 \<le> x | None \<Rightarrow> False) [''QUALITY'', ''VALUATION'']"

definition base_recommendation :: "opportunity_snapshot \<Rightarrow> stock_recommendation" where
  "base_recommendation s =
     (let broken = thesis_broken (sn_evidence s); g = ranges s
      in \<lparr>rc_id = [], rc_snapshot = [], rc_instrument = sn_instrument s, rc_price = sn_price s, rc_score = sn_score s,
          rc_confidence = sn_confidence s, rc_coverage = sn_coverage s,
          rc_new = (if broken then AVOID_STOCK
            else if buy_qualified s then (if (case sn_score s of Some x \<Rightarrow> 80 \<le> x | None \<Rightarrow> False) then STRONG_BUY_CANDIDATE else BUY_CANDIDATE)
            else WATCH_WAIT),
          rc_holder = (if broken then EXIT_REVIEW_HOLDING else if long_buy s then TOP_UP_HOLDING
            else if \<not> buy_qualified s then HOLD_NO_NEW_MONEY else HOLD_HOLDING),
          rc_short = (if broken then EXIT_SHORT else if short_buy s then BUY_SHORT else WAIT_SHORT),
          rc_long = (if broken then EXIT_REVIEW_LONG else if long_buy s then ACCUMULATE_LONG
            else if weak_dimensions (sn_evidence s) \<noteq> [] then REDUCE_LONG else HOLD_LONG),
          rc_ranges = g,
          rc_negative = sorted_set (sn_negative s @
            (if list_ex (\<lambda>v. v = None) (range_values g) then [''PRICE_RANGE_EVIDENCE_INSUFFICIENT''] else []) @
            (if broken then [''LONG_TERM_THESIS_BROKEN''] else [])),
          rc_fingerprint = []\<rparr>)"

definition review :: "stock_recommendation \<Rightarrow> stock_recommendation \<Rightarrow> stock_recommendation" where
  "review previous r =
     (let c = trade_lifecycle previous r (rc_price r) (Some Review);
          r1 = r\<lparr>rc_short := lf_short c, rc_long := lf_long c\<rparr>;
          r2 = (if lf_long c = EXIT_REVIEW_LONG then r1\<lparr>rc_holder := EXIT_REVIEW_HOLDING\<rparr>
                else if lf_long c = REDUCE_LONG \<or> lf_short c = EXIT_SHORT then r1\<lparr>rc_holder := REDUCE_HOLDING\<rparr>
                else if lf_short c = PARTIAL_EXIT_SHORT then
                  (let r' = r1\<lparr>rc_holder := PARTIAL_EXIT_HOLDING\<rparr>
                   in if rc_long r1 \<noteq> TOP_UP_LONG then r'\<lparr>rc_new := WATCH_WAIT\<rparr> else r')
                else r1)
      in r2\<lparr>rc_negative := sorted_set (rc_negative r @ lf_reasons c)\<rparr>)"

record fingerprint_content =
  fc_instrument :: string
  fc_new :: new_action
  fc_holder :: holder_action
  fc_short :: short_action
  fc_long :: long_action
  fc_bucket :: "rat option"
  fc_ranges :: trade_ranges
  fc_dimensions :: "(string \<times> rat option) list"
  fc_overrides :: "(string \<times> string) list"
  fc_technical :: "string option"
  fc_missing :: "string list"
  fc_stale :: "string list"
  fc_other :: json
  fc_scores :: "int option list"

text \<open>\<open>round(p, -1)\<close>, and \<open>round(x / 5) * 5\<close>.\<close>

definition round_tens :: "rat \<Rightarrow> rat" where "round_tens p = fl64 (of_int (rnd_even (p / 10) * 10))"
definition round_fives :: "rat \<Rightarrow> int" where "round_fives x = rnd_even (fl64 (x / 5)) * 5"

definition fingerprint_of :: "opportunity_snapshot \<Rightarrow> stock_recommendation \<Rightarrow> fingerprint_content" where
  "fingerprint_of s r =
     \<lparr>fc_instrument = rc_instrument r, fc_new = rc_new r, fc_holder = rc_holder r, fc_short = rc_short r, fc_long = rc_long r,
      fc_bucket = map_option round_tens (rc_price r), fc_ranges = rc_ranges r,
      fc_dimensions = area_scores (sn_evidence s), fc_overrides = ev_overrides (sn_evidence s),
      fc_technical = ev_technical_state (sn_evidence s), fc_missing = ev_missing (sn_evidence s), fc_stale = ev_stale (sn_evidence s),
      fc_other = ev_other (sn_evidence s),
      fc_scores = [map_option round_fives (rc_score r), Some (round_fives (rc_confidence r)), Some (round_fives (rc_coverage r))]\<rparr>"

definition evaluate ::
    "(fingerprint_content \<Rightarrow> string) \<Rightarrow> opportunity_snapshot \<Rightarrow> stock_recommendation option \<Rightarrow> stock_recommendation" where
  "evaluate digest s previous =
     (let r = (case previous of None \<Rightarrow> base_recommendation s | Some q \<Rightarrow> review q (base_recommendation s))
      in r\<lparr>rc_fingerprint := digest (fingerprint_of s r)\<rparr>)"

section \<open>The levels of a trade\<close>

definition below :: "rat option \<Rightarrow> rat option \<Rightarrow> bool" where
  "below a b \<longleftrightarrow> (case (a, b) of (Some x, Some y) \<Rightarrow> x \<le> y | _ \<Rightarrow> True)"

definition float_option :: "rat option \<Rightarrow> bool" where
  "float_option v \<longleftrightarrow> (case v of None \<Rightarrow> True | Some x \<Rightarrow> fl64 x = x)"

definition levels_ordered :: "trade_ranges \<Rightarrow> bool" where
  "levels_ordered g \<longleftrightarrow>
     below (rg_short_invalidation g) (rg_short_entry_low g) \<and> below (rg_short_entry_low g) (rg_short_entry_high g) \<and>
     below (rg_short_entry_high g) (rg_short_target_1 g) \<and> below (rg_short_target_1 g) (rg_short_target_2 g) \<and>
     below (rg_long_invalidation g) (rg_long_entry_low g) \<and> below (rg_long_entry_low g) (rg_long_entry_high g) \<and>
     below (rg_long_entry_high g) (rg_long_fair_value g) \<and> below (rg_long_fair_value g) (rg_long_target g)"

lemma round4_mono: "x \<le> y \<Longrightarrow> round4 x \<le> round4 y"
  unfolding round4_def by (intro fl64_mono quantum.rnd_mono)

lemma below_round4: "below a b \<Longrightarrow> below (map_option round4 a) (map_option round4 b)"
  by (auto simp: below_def round4_mono split: option.splits)

lemma below_None [simp]: "below None b" "below a None"
  by (auto simp: below_def split: option.split)

lemma below_Some [simp]: "below (Some x) (Some y) \<longleftrightarrow> x \<le> y"
  by (simp add: below_def)

lemma fl64_scale:
  assumes "fl64 x = x" and "0 \<le> x"
  shows fl64_scale_up: "1 \<le> c \<Longrightarrow> x \<le> fl64 (x * c)" and fl64_scale_down: "c \<le> 1 \<Longrightarrow> fl64 (x * c) \<le> x"
proof -
  show "x \<le> fl64 (x * c)" if "1 \<le> c"
    using fl64_mono[of x "x * c"] mult_left_mono[OF that assms(2)] assms(1) by simp
  show "fl64 (x * c) \<le> x" if "c \<le> 1"
    using fl64_mono[of "x * c" x] mult_left_mono[OF that assms(2)] assms(1) by simp
qed

lemma rate_bounds: "1 \<le> fl64 (103 / 100)" "fl64 (9 / 10) \<le> 1" "fl64 (8 / 10) \<le> fl64 (9 / 10)"
  using fl64_mono[of 1 "103 / 100"] fl64_mono[of "9 / 10" 1] fl64_mono[of "8 / 10" "9 / 10"] by simp_all

lemma short_ranges_ordered:
  assumes "float_option (ev_support (sn_evidence s))" and "float_option (ev_resistance (sn_evidence s))"
  shows "let g = short_ranges s no_ranges in
    below (rg_short_invalidation g) (rg_short_entry_low g) \<and> below (rg_short_entry_low g) (rg_short_entry_high g) \<and>
    below (rg_short_entry_high g) (rg_short_target_1 g) \<and> below (rg_short_target_1 g) (rg_short_target_2 g)"
proof (cases "(sn_price s, ev_support (sn_evidence s), ev_resistance (sn_evidence s))")
  case (fields a b c)
  show ?thesis
  proof (cases "\<exists>p l h. a = Some p \<and> b = Some l \<and> c = Some h \<and> 0 < l \<and> l \<le> p \<and> p < h")
    case True
    then obtain p l h where v: "a = Some p" "b = Some l" "c = Some h" "0 < l" "l \<le> p" "p < h" by blast
    have f: "fl64 l = l" "fl64 h = h" using assms fields v by (simp_all add: float_option_def)
    have up: "l \<le> fl64 (l * fl64 (103 / 100))" by (rule fl64_scale_up[OF f(1)]) (use v rate_bounds in simp_all)
    have atr: "fl64 (l - r) \<le> l" "h \<le> fl64 (h + r)" if "0 < r" for r
      using fl64_mono[of "l - r" l] fl64_mono[of h "h + r"] that f by simp_all
    show ?thesis
      using v up atr fields by (auto simp: short_ranges_def no_ranges_def Let_def split: option.split)
  next
    case False
    then have "short_ranges s no_ranges = no_ranges"
      using fields by (auto simp: short_ranges_def split: option.split)
    then show ?thesis by (simp add: no_ranges_def)
  qed
qed

lemma short_ranges_long [simp]:
  "rg_long_entry_low (short_ranges s g) = rg_long_entry_low g" "rg_long_entry_high (short_ranges s g) = rg_long_entry_high g"
  "rg_long_fair_value (short_ranges s g) = rg_long_fair_value g" "rg_long_target (short_ranges s g) = rg_long_target g"
  "rg_long_invalidation (short_ranges s g) = rg_long_invalidation g"
  by (simp_all add: short_ranges_def Let_def split: option.split)

lemma long_ranges_short [simp]:
  "rg_short_entry_low (long_ranges s g) = rg_short_entry_low g" "rg_short_entry_high (long_ranges s g) = rg_short_entry_high g"
  "rg_short_target_1 (long_ranges s g) = rg_short_target_1 g" "rg_short_target_2 (long_ranges s g) = rg_short_target_2 g"
  "rg_short_invalidation (long_ranges s g) = rg_short_invalidation g"
  by (simp_all add: long_ranges_def Let_def split: option.split)

lemma long_ranges_ordered:
  assumes "float_option (ev_fair_value (sn_evidence s))"
    and "rg_long_entry_low g = None" "rg_long_target g = None" "rg_long_invalidation g = None" "rg_long_fair_value g = None"
  shows "let g' = long_ranges s g in
    below (rg_long_invalidation g') (rg_long_entry_low g') \<and> below (rg_long_entry_low g') (rg_long_entry_high g') \<and>
    below (rg_long_entry_high g') (rg_long_fair_value g') \<and> below (rg_long_fair_value g') (rg_long_target g')"
proof (cases "\<exists>x. ev_fair_value (sn_evidence s) = Some x \<and> 0 < x")
  case True
  then obtain x where x: "ev_fair_value (sn_evidence s) = Some x" "0 < x" by blast
  have f: "fl64 x = x" using assms(1) x by (simp add: float_option_def)
  have "fl64 (x * fl64 (9 / 10)) \<le> x" by (rule fl64_scale_down[OF f]) (use x rate_bounds in simp_all)
  moreover have "fl64 (x * fl64 (8 / 10)) \<le> fl64 (x * fl64 (9 / 10))"
    by (rule fl64_mono) (use x rate_bounds mult_left_mono in simp)
  ultimately show ?thesis
    using x assms(2-) by (simp add: long_ranges_def Let_def split: option.split)
next
  case False
  then have "long_ranges s g = g" by (auto simp: long_ranges_def split: option.split)
  then show ?thesis using assms(2-) by simp
qed

text \<open>C19: For every snapshot of float prices the levels of both trades are in order after rounding: invalidation,
  entry range, first and second target of the short trade, and invalidation, entry range, fair value and
  target of the long one.\<close>

theorem trade_levels_are_ordered:
  assumes "float_option (ev_support (sn_evidence s))" and "float_option (ev_resistance (sn_evidence s))"
    and "float_option (ev_fair_value (sn_evidence s))"
  shows "levels_ordered (ranges s)"
proof -
  let ?g = "long_ranges s (short_ranges s no_ranges)"
  have "levels_ordered ?g"
    using short_ranges_ordered[OF assms(1,2)] long_ranges_ordered[OF assms(3), of "short_ranges s no_ranges"]
    by (simp add: levels_ordered_def Let_def no_ranges_def)
  then show ?thesis
    unfolding ranges_def levels_ordered_def map_ranges_def trade_ranges.simps by (intro conjI below_round4) simp_all
qed

section \<open>Actions\<close>

lemma lifecycle_sel [simp]:
  "lf_short (trade_lifecycle a r p prior) = snd (short_outcome a r p prior)"
  "lf_short_state (trade_lifecycle a r p prior) = fst (short_outcome a r p prior)"
  "lf_long (trade_lifecycle a r p prior) = snd (long_outcome a r p prior)"
  "lf_long_state (trade_lifecycle a r p prior) = fst (long_outcome a r p prior)"
  by (simp_all add: trade_lifecycle_def split_beta)

lemma short_horizon_action:
  "fst (snd (short_horizon anchor short price reviewed)) \<in> {EXIT_SHORT, PARTIAL_EXIT_SHORT, short} \<union> (if short = WAIT_SHORT then {HOLD_SHORT} else {})"
  by (auto simp: short_horizon_def Let_def split: option.split)

lemma long_horizon_action:
  "snd (long_horizon anchor long price reviewed) \<in> {EXIT_REVIEW_LONG, HOLD_LONG, long} \<union> (if long = ACCUMULATE_LONG then {TOP_UP_LONG} else {})"
  by (auto simp: long_horizon_def Let_def)

lemma short_outcome_action:
  "snd (short_outcome a r p prior) \<in> {EXIT_SHORT, fst (snd (short_horizon a (rc_short r) p (prior \<noteq> None)))}"
  by (auto simp: short_outcome_def Let_def split_beta split: option.split prior_state.split)

lemma long_outcome_action:
  "snd (long_outcome a r p prior) \<in> {EXIT_REVIEW_LONG, HOLD_LONG, snd (long_horizon a (rc_long r) p (prior \<noteq> None))}"
  by (auto simp: long_outcome_def Let_def split_beta split: option.split prior_state.split)

text \<open>A review can only keep a buying action, never create one.\<close>

lemma short_buy_kept: "snd (short_outcome a r p prior) = BUY_SHORT \<Longrightarrow> rc_short r = BUY_SHORT"
  using short_outcome_action[of a r p prior] short_horizon_action[of a "rc_short r" p "prior \<noteq> None"]
  by (auto split: if_splits)

lemma long_buy_kept:
  "snd (long_outcome a r p prior) \<in> {ACCUMULATE_LONG, TOP_UP_LONG} \<Longrightarrow> rc_long r \<in> {ACCUMULATE_LONG, TOP_UP_LONG}"
  using long_outcome_action[of a r p prior] long_horizon_action[of a "rc_long r" p "prior \<noteq> None"]
  by (auto split: if_splits)

text \<open>What a review does to an evaluation of a broken thesis.\<close>

lemma exit_kept: "rc_short r = EXIT_SHORT \<Longrightarrow> snd (short_outcome a r p prior) = EXIT_SHORT"
proof -
  assume r: "rc_short r = EXIT_SHORT"
  obtain ss act rs where h: "short_horizon a EXIT_SHORT p (prior \<noteq> None) = (ss, act, rs)" by (metis prod_cases3)
  have "ss \<in> {INVALIDATED, TARGET_REACHED} \<Longrightarrow> act = EXIT_SHORT"
    using h by (auto simp: short_horizon_def Let_def split: if_splits option.splits)
  then show ?thesis using r h by (auto simp: short_outcome_def split: option.split prior_state.split)
qed

lemma exit_review_kept: "rc_long r = EXIT_REVIEW_LONG \<Longrightarrow> snd (long_outcome a r p prior) = EXIT_REVIEW_LONG"
  by (auto simp: long_outcome_def Let_def split_beta split: option.split prior_state.split)

lemma review_sel [simp]:
  "rc_short (review q r) = snd (short_outcome q r (rc_price r) (Some Review))"
  "rc_long (review q r) = snd (long_outcome q r (rc_price r) (Some Review))"
  by (simp_all add: review_def Let_def)

lemma review_new: "rc_new (review q r) \<in> {rc_new r, WATCH_WAIT} \<and>
    (rc_long (review q r) = EXIT_REVIEW_LONG \<longrightarrow> rc_new (review q r) = rc_new r \<and> rc_holder (review q r) = EXIT_REVIEW_HOLDING)"
  by (simp add: review_def Let_def)

lemma evaluate_sel:
  "rc_short (evaluate digest s prev) = (case prev of None \<Rightarrow> rc_short (base_recommendation s) | Some q \<Rightarrow> rc_short (review q (base_recommendation s)))"
  "rc_long (evaluate digest s prev) = (case prev of None \<Rightarrow> rc_long (base_recommendation s) | Some q \<Rightarrow> rc_long (review q (base_recommendation s)))"
  "rc_new (evaluate digest s prev) = (case prev of None \<Rightarrow> rc_new (base_recommendation s) | Some q \<Rightarrow> rc_new (review q (base_recommendation s)))"
  "rc_holder (evaluate digest s prev) = (case prev of None \<Rightarrow> rc_holder (base_recommendation s) | Some q \<Rightarrow> rc_holder (review q (base_recommendation s)))"
  by (simp_all add: evaluate_def Let_def split: option.split)

lemma base_broken:
  "thesis_broken (sn_evidence s) \<Longrightarrow> rc_short (base_recommendation s) = EXIT_SHORT \<and> rc_long (base_recommendation s) = EXIT_REVIEW_LONG \<and>
     rc_new (base_recommendation s) = AVOID_STOCK \<and> rc_holder (base_recommendation s) = EXIT_REVIEW_HOLDING"
  by (simp add: base_recommendation_def Let_def)

text \<open>C13: Whatever was recommended before and wherever the price stands, a broken thesis is answered with the exit
  actions on every horizon and for every investor; and a stock is to be avoided exactly when its thesis is
  broken.\<close>

theorem broken_thesis_forces_exit:
  "(thesis_broken (sn_evidence s) \<longrightarrow> rc_short (evaluate digest s prev) = EXIT_SHORT \<and>
      rc_long (evaluate digest s prev) = EXIT_REVIEW_LONG \<and> rc_holder (evaluate digest s prev) = EXIT_REVIEW_HOLDING) \<and>
   (rc_new (evaluate digest s prev) = AVOID_STOCK \<longleftrightarrow> thesis_broken (sn_evidence s))"
proof (cases "thesis_broken (sn_evidence s)")
  case True
  note b = base_broken[OF True]
  show ?thesis
  proof (cases prev)
    case (Some q)
    have "rc_short (review q (base_recommendation s)) = EXIT_SHORT" "rc_long (review q (base_recommendation s)) = EXIT_REVIEW_LONG"
      using b exit_kept exit_review_kept by simp_all
    then show ?thesis using True b review_new[of q "base_recommendation s"] unfolding evaluate_sel Some by simp
  qed (use True b evaluate_sel in simp)
next
  case False
  then have "rc_new (base_recommendation s) \<noteq> AVOID_STOCK" by (simp add: base_recommendation_def Let_def)
  moreover have "rc_new (review q (base_recommendation s)) \<in> {rc_new (base_recommendation s), WATCH_WAIT}" for q
    using review_new by blast
  ultimately have "rc_new (evaluate digest s prev) \<noteq> AVOID_STOCK"
    unfolding evaluate_sel by (cases prev) (simp, metis insertE new_action.distinct(5) option.simps(5) singletonD)
  then show ?thesis using False by simp
qed

lemma evaluate_buys:
  "rc_short (evaluate digest s prev) = BUY_SHORT \<Longrightarrow> short_buy s"
  "rc_long (evaluate digest s prev) \<in> {ACCUMULATE_LONG, TOP_UP_LONG} \<Longrightarrow> long_buy s"
  "rc_new (evaluate digest s prev) \<in> {BUY_CANDIDATE, STRONG_BUY_CANDIDATE} \<Longrightarrow> buy_qualified s"
proof -
  have b: "rc_short (base_recommendation s) = BUY_SHORT \<Longrightarrow> short_buy s"
      "rc_long (base_recommendation s) \<in> {ACCUMULATE_LONG, TOP_UP_LONG} \<Longrightarrow> long_buy s"
      "rc_new (base_recommendation s) \<in> {BUY_CANDIDATE, STRONG_BUY_CANDIDATE} \<Longrightarrow> buy_qualified s"
    by (simp_all add: base_recommendation_def Let_def split: if_splits)
  show "rc_short (evaluate digest s prev) = BUY_SHORT \<Longrightarrow> short_buy s"
    using b(1) short_buy_kept unfolding evaluate_sel by (auto split: option.splits)
  show "rc_long (evaluate digest s prev) \<in> {ACCUMULATE_LONG, TOP_UP_LONG} \<Longrightarrow> long_buy s"
    using b(2) long_buy_kept unfolding evaluate_sel by (auto split: option.splits)
  show "rc_new (evaluate digest s prev) \<in> {BUY_CANDIDATE, STRONG_BUY_CANDIDATE} \<Longrightarrow> buy_qualified s"
    using b(3) review_new[of "the prev" "base_recommendation s"] unfolding evaluate_sel by (cases prev) auto
qed

section \<open>A concrete stock_recommendation\<close>

definition sample_evidence :: evidence_state where
  "sample_evidence = \<lparr>ev_technical_state = Some ''UPTREND'', ev_support = Some 980, ev_resistance = Some 1150, ev_atr14 = Some 50,
     ev_fair_value = Some 1500, ev_bull_target = Some 1800, ev_invalidation = Some 900,
     ev_areas = [(''FUNDAMENTAL_BUSINESS_QUALITY'', Some 80), (''VALUATION'', Some 80), (''MANAGEMENT_GOVERNANCE'', Some 10)],
     ev_overrides = [], ev_missing = [], ev_stale = [], ev_rule_missing = [], ev_technical_missing = [], ev_technical_stale = [],
     ev_other = JNull\<rparr>"

definition sample_snapshot :: opportunity_snapshot where
  "sample_snapshot = \<lparr>sn_id = ''S1'', sn_instrument = ''A'', sn_price = Some 1000, sn_score = Some 80, sn_confidence = 80,
     sn_coverage = 90, sn_rule_score = Some 80, sn_rank_eligible = True, sn_positive = [], sn_negative = [],
     sn_evidence = sample_evidence\<rparr>"

lemma trade_levels_are_ordered_witness: "levels_ordered (ranges sample_snapshot)"
  by (rule trade_levels_are_ordered)
    (simp_all add: sample_snapshot_def sample_evidence_def float_option_def fl64_int[of 980, simplified] fl64_int[of 1150, simplified] fl64_int[of 1500, simplified])

lemma broken_thesis_forces_exit_witness: "rc_short (evaluate (\<lambda>_. []) sample_snapshot None) = EXIT_SHORT"
proof -
  have "dimension sample_evidence ''GOVERNANCE'' = Some 10"
    by (simp add: dimension_def area_scores_def raw_scores_def AREA_ALIASES_def sample_evidence_def Let_def)
  then have "thesis_broken (sn_evidence sample_snapshot)" by (simp add: thesis_broken_def sample_snapshot_def)
  then show ?thesis using broken_thesis_forces_exit[of sample_snapshot] by blast
qed

end
