(* ===== verification/Radar.thy ===== *)
theory Radar
  imports Recommend "HOL-Library.Product_Lexorder" "HOL-Library.Option_ord"
begin

text \<open>
  Preparation and publication of a recommendation cycle (\<open>prepare_cycle\<close> and its helpers in
  \<open>app/global_opportunity_cycle.py\<close>, the upserts of \<open>publish_opportunity_cycle\<close>).  Arguments stand
  for the two uses of SHA-256 and for \<open>uuid4\<close>; None is an exception.
\<close>

section \<open>Public actions\<close>

datatype public_action = STRONG_BUY_PUBLIC | BUY_PUBLIC | PARTIAL_EXIT_PUBLIC | SELL_PUBLIC

datatype public_horizon = SHORT_TERM_HORIZON | LONG_TERM_HORIZON

definition public_action_of :: "short_action \<Rightarrow> long_action \<Rightarrow> new_action \<Rightarrow> public_action option" where
  "public_action_of short long new =
     (if short \<in> {EXIT_SHORT} \<or> long \<in> {EXIT_REVIEW_LONG} then Some SELL_PUBLIC
      else if short \<in> {PARTIAL_EXIT_SHORT} \<or> long \<in> {REDUCE_LONG} then Some PARTIAL_EXIT_PUBLIC
      else if short \<in> {BUY_SHORT} \<or> long \<in> {ACCUMULATE_LONG, TOP_UP_LONG}
      then Some (if new = STRONG_BUY_CANDIDATE then STRONG_BUY_PUBLIC else BUY_PUBLIC)
      else None)"

definition public_horizon_of :: "short_action \<Rightarrow> long_action \<Rightarrow> public_horizon option" where
  "public_horizon_of short long =
     (if short \<in> {EXIT_SHORT, PARTIAL_EXIT_SHORT, BUY_SHORT} then Some SHORT_TERM_HORIZON
      else if long \<in> {EXIT_REVIEW_LONG, REDUCE_LONG, ACCUMULATE_LONG, TOP_UP_LONG} then Some LONG_TERM_HORIZON
      else None)"

section \<open>Durable state\<close>

record stored_state =
  ss_instrument :: string
  ss_life :: lifecycle_state
  ss_latest :: string
  ss_anchor :: "string option"
  ss_updated :: time

record radar_store =
  st_history :: "stock_recommendation list"
  st_states :: "(string \<times> stored_state) list"

text \<open>A live recommendation: one of its horizons is not closed.  (The long action is never \<open>EXIT\<close>.)\<close>

definition active_recommendation :: "stored_state \<Rightarrow> bool" where
  "active_recommendation s \<longleftrightarrow> lf_short (ss_life s) \<noteq> EXIT_SHORT \<or> lf_long_state (ss_life s) \<noteq> INVALIDATED"

definition histories :: "radar_store \<Rightarrow> string \<rightharpoonup> stock_recommendation" where
  "histories st = map_of (rev (map (\<lambda>r. (rc_id r, r)) (st_history st)))"

section \<open>Cards\<close>

datatype data_state = STALE_DATA | PARTIAL_DATA | FRESH_DATA

record card =
  cd_snapshot :: opportunity_snapshot
  cd_latest :: stock_recommendation
  cd_state :: stored_state
  cd_missing :: "string list"
  cd_stale :: "string list"
  cd_data :: data_state
  cd_public :: "public_action option"
  cd_horizon :: "public_horizon option"

type_synonym review_digest = "string \<Rightarrow> short_action \<Rightarrow> long_action \<Rightarrow> string"

record preparation =
  pr_history :: "stock_recommendation list"
  pr_states :: "stored_state list"
  pr_cards :: "card list"

definition make_card :: "opportunity_snapshot \<Rightarrow> stock_recommendation \<Rightarrow> stored_state \<Rightarrow> card" where
  "make_card s latest state =
     (let ev = sn_evidence s;
          stale = sorted_set (ev_stale ev @ ev_technical_stale ev);
          missing = sorted_set (ev_missing ev @ ev_rule_missing ev @ ev_technical_missing ev)
      in \<lparr>cd_snapshot = s, cd_latest = latest, cd_state = state, cd_missing = missing, cd_stale = stale,
          cd_data = (if stale \<noteq> [] then STALE_DATA else if missing \<noteq> [] \<or> sn_coverage s < 100 then PARTIAL_DATA else FRESH_DATA),
          cd_public = public_action_of (lf_short (ss_life state)) (lf_long (ss_life state)) (rc_new latest),
          cd_horizon = public_horizon_of (lf_short (ss_life state)) (lf_long (ss_life state))\<rparr>)"

text \<open>The earlier state of an instrument, its latest recommendation and the one that anchors the trade.\<close>

definition old_state :: "radar_store \<Rightarrow> opportunity_snapshot \<Rightarrow> stored_state option" where
  "old_state store s = map_of (st_states store) (sn_instrument s)"

definition previous_recommendation :: "radar_store \<Rightarrow> opportunity_snapshot \<Rightarrow> stock_recommendation option" where
  "previous_recommendation store s = Option.bind (old_state store s) (\<lambda>o1. histories store (ss_latest o1))"

definition anchor_recommendation :: "radar_store \<Rightarrow> opportunity_snapshot \<Rightarrow> stock_recommendation option" where
  "anchor_recommendation store s = Option.bind (old_state store s) (\<lambda>o1. Option.bind (ss_anchor o1) (histories store))"

definition earlier_recommendation :: "radar_store \<Rightarrow> opportunity_snapshot \<Rightarrow> stock_recommendation option" where
  "earlier_recommendation store s =
     (case anchor_recommendation store s of Some a \<Rightarrow> Some a | None \<Rightarrow> previous_recommendation store s)"

definition new_evaluation :: "(fingerprint_content \<Rightarrow> string) \<Rightarrow> radar_store \<Rightarrow> opportunity_snapshot \<Rightarrow> stock_recommendation" where
  "new_evaluation digest store s = evaluate digest s (earlier_recommendation store s)"

definition new_life :: "(fingerprint_content \<Rightarrow> string) \<Rightarrow> radar_store \<Rightarrow> opportunity_snapshot \<Rightarrow> lifecycle_state" where
  "new_life digest store s =
     (let rec = new_evaluation digest store s
      in trade_lifecycle (case earlier_recommendation store s of Some a \<Rightarrow> a | None \<Rightarrow> rec) rec (sn_price s)
           (map_option (\<lambda>o1. Prior (ss_life o1)) (old_state store s)))"

definition new_recommendation ::
    "(fingerprint_content \<Rightarrow> string) \<Rightarrow> review_digest \<Rightarrow> radar_store \<Rightarrow> opportunity_snapshot \<Rightarrow> stock_recommendation" where
  "new_recommendation digest digest2 store s =
     (let rec = new_evaluation digest store s; life = new_life digest store s
      in rec\<lparr>rc_short := lf_short life, rc_long := lf_long life,
             rc_fingerprint := digest2 (rc_fingerprint rec) (lf_short life) (lf_long life)\<rparr>)"

text \<open>An unchanged fingerprint keeps the latest recommendation; otherwise a new one is written.\<close>

definition unchanged ::
    "(fingerprint_content \<Rightarrow> string) \<Rightarrow> review_digest \<Rightarrow> radar_store \<Rightarrow> opportunity_snapshot \<Rightarrow> stock_recommendation option" where
  "unchanged digest digest2 store s =
     (case previous_recommendation store s of
        Some q \<Rightarrow> if rc_fingerprint q = rc_fingerprint (new_recommendation digest digest2 store s) then Some q else None
      | None \<Rightarrow> None)"

definition new_state ::
    "(fingerprint_content \<Rightarrow> string) \<Rightarrow> radar_store \<Rightarrow> time \<Rightarrow> opportunity_snapshot \<Rightarrow> string \<Rightarrow> stored_state" where
  "new_state digest store now s latest_id =
     \<lparr>ss_instrument = sn_instrument s, ss_life = new_life digest store s, ss_latest = latest_id,
      ss_anchor = (case old_state store s of
          Some o1 \<Rightarrow> (case ss_anchor o1 of Some a \<Rightarrow> Some a | None \<Rightarrow> Some (ss_latest o1))
        | None \<Rightarrow> Some latest_id), ss_updated = now\<rparr>"

definition prepare_snapshot ::
    "(fingerprint_content \<Rightarrow> string) \<Rightarrow> review_digest \<Rightarrow> (nat \<Rightarrow> string) \<Rightarrow> radar_store \<Rightarrow> time \<Rightarrow> preparation \<Rightarrow>
     opportunity_snapshot \<Rightarrow> preparation" where
  "prepare_snapshot digest digest2 uuid store now acc s =
     (let fresh = (new_recommendation digest digest2 store s)\<lparr>rc_id := uuid (length (pr_history acc)), rc_snapshot := sn_id s\<rparr>;
          latest = (case unchanged digest digest2 store s of Some q \<Rightarrow> q | None \<Rightarrow> fresh);
          state = new_state digest store now s (rc_id latest)
      in \<lparr>pr_history = pr_history acc @ (if unchanged digest digest2 store s = None then [fresh] else []),
          pr_states = pr_states acc @ [state], pr_cards = pr_cards acc @ [make_card s latest state]\<rparr>)"

section \<open>Sections of the radar\<close>

type_synonym order_key = "rat \<times> rat \<times> rat \<times> rat \<times> string"

definition buy_order :: "opportunity_snapshot \<Rightarrow> order_key option" where
  "buy_order s = map_option (\<lambda>x. (- x, - sn_confidence s, - sn_coverage s,
     - (case sn_rule_score s of Some r \<Rightarrow> r | None \<Rightarrow> - 1), sn_instrument s)) (sn_score s)"

text \<open>\<open>sorted(cards, key=order)\<close>; a card without a score raises.\<close>

definition sort_cards :: "card list \<Rightarrow> card list option" where
  "sort_cards cs = (if list_all (\<lambda>c. buy_order (cd_snapshot c) \<noteq> None) cs
     then Some (sort_key (\<lambda>c. buy_order (cd_snapshot c)) cs) else None)"

definition is_public_buy :: "card \<Rightarrow> bool" where
  "is_public_buy c \<longleftrightarrow> cd_public c \<in> {Some STRONG_BUY_PUBLIC, Some BUY_PUBLIC}"

definition is_public_exit :: "card \<Rightarrow> bool" where
  "is_public_exit c \<longleftrightarrow> cd_public c \<in> {Some SELL_PUBLIC, Some PARTIAL_EXIT_PUBLIC}"

definition exit_urgency :: "card \<Rightarrow> nat \<times> rat \<times> string" where
  "exit_urgency c =
     (let score = (case sn_score (cd_snapshot c) of Some x \<Rightarrow> x | None \<Rightarrow> 0); key = sn_instrument (cd_snapshot c)
      in if cd_public c = Some SELL_PUBLIC then (0, score, key) else (1, - score, key))"

record selection =
  sl_best :: "card option"
  sl_short :: "card list"
  sl_long :: "card list"
  sl_exit :: "card list"
  sl_previous :: "card list"
  sl_unseen :: "stored_state list"

definition short_section :: "card list \<Rightarrow> card list" where
  "short_section cards = filter (\<lambda>c. sn_rank_eligible (cd_snapshot c) \<and> lf_short (ss_life (cd_state c)) = BUY_SHORT \<and> is_public_buy c) cards"

definition long_section :: "card list \<Rightarrow> card list" where
  "long_section cards = filter (\<lambda>c. sn_rank_eligible (cd_snapshot c) \<and>
     lf_long (ss_life (cd_state c)) \<in> {ACCUMULATE_LONG, TOP_UP_LONG} \<and> is_public_buy c) cards"

definition by_instrument :: "card list \<Rightarrow> (string \<times> card) list" where
  "by_instrument cs = foldl (\<lambda>d c. dset (sn_instrument (cd_snapshot c)) c d) [] cs"

definition select_cards :: "radar_store \<Rightarrow> preparation \<Rightarrow> selection option" where
  "select_cards store pr =
     (let cards = pr_cards pr in
      case (sort_cards (short_section cards), sort_cards (long_section cards)) of
        (Some short, Some long) \<Rightarrow>
          (case sort_cards (map snd (by_instrument (short @ long))) of
             Some buys \<Rightarrow>
               Some \<lparr>sl_best = (case buys of [] \<Rightarrow> None | b # _ \<Rightarrow> Some b), sl_short = short, sl_long = long,
                 sl_exit = sort_key exit_urgency (filter is_public_exit cards),
                 sl_previous = filter (\<lambda>c. sn_instrument (cd_snapshot c) \<in> fst ` set (st_states store)) cards,
                 sl_unseen = map snd (filter (\<lambda>ks. fst ks \<notin> ss_instrument ` set (pr_states pr)) (st_states store))\<rparr>
           | None \<Rightarrow> None)
      | _ \<Rightarrow> None)"

definition prepare_all ::
    "(fingerprint_content \<Rightarrow> string) \<Rightarrow> review_digest \<Rightarrow> (nat \<Rightarrow> string) \<Rightarrow> radar_store \<Rightarrow> time \<Rightarrow> opportunity_snapshot list \<Rightarrow> preparation" where
  "prepare_all digest digest2 uuid store now ss =
     foldl (prepare_snapshot digest digest2 uuid store now) \<lparr>pr_history = [], pr_states = [], pr_cards = []\<rparr> ss"

definition prepare_cycle ::
    "(fingerprint_content \<Rightarrow> string) \<Rightarrow> review_digest \<Rightarrow> (nat \<Rightarrow> string) \<Rightarrow> radar_store \<Rightarrow> time \<Rightarrow> opportunity_snapshot list \<Rightarrow>
     (stock_recommendation list \<times> stored_state list \<times> selection) option" where
  "prepare_cycle digest digest2 uuid store now ss =
     (let pr = prepare_all digest digest2 uuid store now ss
      in map_option (\<lambda>sel. (pr_history pr, pr_states pr, sel)) (select_cards store pr))"

section \<open>Publication\<close>

text \<open>A controlled cycle leaves the current states alone.\<close>

definition publish_opportunity_cycle :: "bool \<Rightarrow> stock_recommendation list \<Rightarrow> stored_state list \<Rightarrow> radar_store \<Rightarrow> radar_store" where
  "publish_opportunity_cycle controlled recs states store =
     \<lparr>st_history = st_history store @ recs,
      st_states = foldl (\<lambda>d s. dset (ss_instrument s) s d) (st_states store) (if controlled then [] else states)\<rparr>"

text \<open>One cycle: preparation over the store and publication in one transaction.\<close>

datatype radar_event = Cycle "opportunity_snapshot list" bool

inductive radar_step ::
    "(fingerprint_content \<Rightarrow> string) \<Rightarrow> review_digest \<Rightarrow> time \<Rightarrow> radar_event \<Rightarrow> radar_store \<Rightarrow> radar_store \<Rightarrow> bool"
  for digest digest2 where
  radar_cycle: "prepare_cycle digest digest2 uuid store now ss = Some (recs, states, sel) \<Longrightarrow>
    radar_step digest digest2 now (Cycle ss controlled) store (publish_opportunity_cycle controlled recs states store)"

inductive_cases radar_stepE: "radar_step digest digest2 now e store store'"

section \<open>What a preparation produces\<close>

definition closed_kept :: "stored_state \<Rightarrow> stored_state \<Rightarrow> bool" where
  "closed_kept s s' \<longleftrightarrow>
     (lf_short (ss_life s) = EXIT_SHORT \<longrightarrow> lf_short (ss_life s') = EXIT_SHORT) \<and>
     (lf_long_state (ss_life s) = INVALIDATED \<longrightarrow> lf_long_state (ss_life s') = INVALIDATED) \<and>
     (ss_anchor s \<noteq> None \<longrightarrow> ss_anchor s' = ss_anchor s)"

definition card_ok :: "radar_store \<Rightarrow> card \<Rightarrow> bool" where
  "card_ok store c \<longleftrightarrow>
     (lf_short (ss_life (cd_state c)) = BUY_SHORT \<longrightarrow> short_buy (cd_snapshot c)) \<and>
     (lf_long (ss_life (cd_state c)) \<in> {ACCUMULATE_LONG, TOP_UP_LONG} \<longrightarrow> long_buy (cd_snapshot c)) \<and>
     cd_public c = public_action_of (lf_short (ss_life (cd_state c))) (lf_long (ss_life (cd_state c))) (rc_new (cd_latest c)) \<and>
     ss_instrument (cd_state c) = sn_instrument (cd_snapshot c) \<and>
     (\<forall>s. map_of (st_states store) (ss_instrument (cd_state c)) = Some s \<longrightarrow> closed_kept s (cd_state c))"

lemma short_closed: "lf_short q = EXIT_SHORT \<Longrightarrow> snd (short_outcome a r p (Some (Prior q))) = EXIT_SHORT"
  by (simp add: short_outcome_def split_beta Let_def)

lemma long_closed: "lf_long_state q = INVALIDATED \<Longrightarrow> fst (long_outcome a r p (Some (Prior q))) = INVALIDATED"
  by (simp add: long_outcome_def split_beta Let_def)

lemma make_card_sel [simp]:
  "cd_snapshot (make_card s l st) = s" "cd_latest (make_card s l st) = l" "cd_state (make_card s l st) = st"
  "cd_public (make_card s l st) = public_action_of (lf_short (ss_life st)) (lf_long (ss_life st)) (rc_new l)"
  by (simp_all add: make_card_def Let_def)

lemma prepare_snapshot_card:
  "\<exists>c. card_ok store c \<and> cd_snapshot c = s \<and>
     pr_cards (prepare_snapshot digest digest2 uuid store now acc s) = pr_cards acc @ [c] \<and>
     pr_states (prepare_snapshot digest digest2 uuid store now acc s) = pr_states acc @ [cd_state c]"
proof -
  let ?old = "old_state store s"
  obtain latest st where c:
    "pr_cards (prepare_snapshot digest digest2 uuid store now acc s) = pr_cards acc @ [make_card s latest st]"
    "pr_states (prepare_snapshot digest digest2 uuid store now acc s) = pr_states acc @ [st]"
    "st = new_state digest store now s (rc_id latest)"
    by (simp add: prepare_snapshot_def Let_def)
  obtain prev anchor where l: "ss_life st = trade_lifecycle anchor (evaluate digest s prev) (sn_price s) (map_option (\<lambda>o1. Prior (ss_life o1)) ?old)"
    by (simp add: c(3) new_state_def new_life_def new_evaluation_def Let_def)
  have i: "ss_instrument st = sn_instrument s" by (simp add: c(3) new_state_def)
  have "closed_kept o1 st" if "map_of (st_states store) (ss_instrument st) = Some o1" for o1
  proof -
    have o1: "?old = Some o1" using that i by (simp add: old_state_def)
    then have "ss_anchor o1 \<noteq> None \<longrightarrow> ss_anchor st = ss_anchor o1" by (auto simp: c(3) new_state_def)
    then show ?thesis using o1 l by (simp add: closed_kept_def short_closed long_closed)
  qed
  then have "card_ok store (make_card s latest st)"
    using evaluate_buys(1,2) short_buy_kept long_buy_kept i
    unfolding card_ok_def make_card_sel lifecycle_sel l by blast
  then show ?thesis using c(1,2) by auto
qed

lemma prepare_all_cards:
  shows "list_all (card_ok store) (pr_cards (prepare_all digest digest2 uuid store now ss))"
    and "map cd_snapshot (pr_cards (prepare_all digest digest2 uuid store now ss)) = ss"
    and "pr_states (prepare_all digest digest2 uuid store now ss) = map cd_state (pr_cards (prepare_all digest digest2 uuid store now ss))"
proof -
  have "list_all (card_ok store) (pr_cards acc) \<Longrightarrow> pr_states acc = map cd_state (pr_cards acc) \<Longrightarrow>
      (let pr = foldl (prepare_snapshot digest digest2 uuid store now) acc ss in
       list_all (card_ok store) (pr_cards pr) \<and> map cd_snapshot (pr_cards pr) = map cd_snapshot (pr_cards acc) @ ss \<and>
       pr_states pr = map cd_state (pr_cards pr))" for acc
  proof (induction ss arbitrary: acc)
    case (Cons s ss)
    obtain c where "card_ok store c" "cd_snapshot c = s"
        "pr_cards (prepare_snapshot digest digest2 uuid store now acc s) = pr_cards acc @ [c]"
        "pr_states (prepare_snapshot digest digest2 uuid store now acc s) = pr_states acc @ [cd_state c]"
      using prepare_snapshot_card by blast
    then show ?case
      using Cons.IH[of "prepare_snapshot digest digest2 uuid store now acc s"] Cons.prems by (simp add: Let_def)
  qed simp
  from this[of "\<lparr>pr_history = [], pr_states = [], pr_cards = []\<rparr>"]
  show "list_all (card_ok store) (pr_cards (prepare_all digest digest2 uuid store now ss))"
    "map cd_snapshot (pr_cards (prepare_all digest digest2 uuid store now ss)) = ss"
    "pr_states (prepare_all digest digest2 uuid store now ss) = map cd_state (pr_cards (prepare_all digest digest2 uuid store now ss))"
    unfolding prepare_all_def by (simp_all add: Let_def)
qed

section \<open>The published sections\<close>

lemma sort_cards_total:
  "(\<And>c. c \<in> set cs \<Longrightarrow> sn_score (cd_snapshot c) \<noteq> None) \<Longrightarrow> \<exists>xs. sort_cards cs = Some xs \<and> set xs = set cs"
  by (auto simp: sort_cards_def buy_order_def list_all_iff)

lemma by_instrument_set: "set (map snd (by_instrument cs)) \<subseteq> set cs"
proof -
  have "snd ` set (foldl (\<lambda>d c. dset (sn_instrument (cd_snapshot c)) c d) d cs) \<subseteq> snd ` set d \<union> set cs" for d
  proof (induction cs arbitrary: d)
    case (Cons c cs)
    let ?d = "dset (sn_instrument (cd_snapshot c)) c d"
    have "snd ` set (dset k c d) \<subseteq> insert c (snd ` set d)" for k by (induction d) auto
    then have "snd ` set ?d \<subseteq> insert c (snd ` set d)" .
    then show ?case using Cons.IH[of ?d] by (simp only: foldl_Cons list.simps) blast
  qed simp
  from this[of "[]"] show ?thesis by (simp add: by_instrument_def)
qed

lemma section_qualified:
  assumes "list_all (card_ok store) cards" and "c \<in> set (short_section cards) \<union> set (long_section cards)"
  shows "buy_qualified (cd_snapshot c) \<and> sn_score (cd_snapshot c) \<noteq> None \<and>
    lf_short (ss_life (cd_state c)) \<noteq> EXIT_SHORT \<and> lf_long (ss_life (cd_state c)) \<noteq> EXIT_REVIEW_LONG \<and> \<not> is_public_exit c"
proof -
  have ok: "card_ok store c" and b: "is_public_buy c"
    using assms by (auto simp: list_all_iff short_section_def long_section_def)
  have "buy_qualified (cd_snapshot c)"
    using assms(2) ok by (auto simp: card_ok_def short_section_def long_section_def short_buy_def long_buy_def)
  moreover from this have "sn_score (cd_snapshot c) \<noteq> None" by (auto simp: buy_qualified_def split: option.splits)
  ultimately show ?thesis
    using ok b by (auto simp: card_ok_def is_public_buy_def is_public_exit_def public_action_of_def split: if_splits)
qed

lemma select_cards_total:
  assumes "list_all (card_ok store) (pr_cards pr)"
  shows "\<exists>sel. select_cards store pr = Some sel \<and> set (sl_short sel) = set (short_section (pr_cards pr)) \<and>
    set (sl_long sel) = set (long_section (pr_cards pr)) \<and>
    (\<forall>c. sl_best sel = Some c \<longrightarrow> c \<in> set (sl_short sel) \<union> set (sl_long sel)) \<and>
    set (sl_exit sel) = {c \<in> set (pr_cards pr). is_public_exit c} \<and>
    sl_previous sel = filter (\<lambda>c. sn_instrument (cd_snapshot c) \<in> fst ` set (st_states store)) (pr_cards pr) \<and>
    sl_unseen sel = map snd (filter (\<lambda>ks. fst ks \<notin> ss_instrument ` set (pr_states pr)) (st_states store))"
proof -
  note q = section_qualified[OF assms]
  obtain short where s: "sort_cards (short_section (pr_cards pr)) = Some short" "set short = set (short_section (pr_cards pr))"
    using sort_cards_total q by blast
  obtain long where l: "sort_cards (long_section (pr_cards pr)) = Some long" "set long = set (long_section (pr_cards pr))"
    using sort_cards_total q by blast
  have sub: "set (map snd (by_instrument (short @ long))) \<subseteq> set short \<union> set long" using by_instrument_set[of "short @ long"] by simp
  then obtain buys where b: "sort_cards (map snd (by_instrument (short @ long))) = Some buys"
      "set buys = set (map snd (by_instrument (short @ long)))"
    using sort_cards_total[of "map snd (by_instrument (short @ long))"] q s(2) l(2) by blast
  have "b \<in> set short \<union> set long" if "buys = b # bs" for b bs
    using that sub b(2) by (metis list.set_intros(1) subsetD)
  then have best: "c \<in> set short \<union> set long" if "(case buys of [] \<Rightarrow> None | b # _ \<Rightarrow> Some b) = Some c" for c
    using that by (cases buys) simp_all
  let ?sel = "\<lparr>sl_best = (case buys of [] \<Rightarrow> None | b # _ \<Rightarrow> Some b), sl_short = short, sl_long = long,
    sl_exit = sort_key exit_urgency (filter is_public_exit (pr_cards pr)),
    sl_previous = filter (\<lambda>c. sn_instrument (cd_snapshot c) \<in> fst ` set (st_states store)) (pr_cards pr),
    sl_unseen = map snd (filter (\<lambda>ks. fst ks \<notin> ss_instrument ` set (pr_states pr)) (st_states store))\<rparr>"
  have "select_cards store pr = Some ?sel"
    using s(1) l(1) b(1) by (simp add: select_cards_def Let_def)
  then show ?thesis using s(2) l(2) best by (intro exI[of _ ?sel]) auto
qed

text \<open>C35: The preparation of a cycle never fails, whatever the snapshots and the stored history. The states it
  hands to the publication are those of the snapshots, one for each and in their order; and every instrument with
  an earlier recommendation appears in it: when the cycle has a snapshot of it, as a reviewed card whose state is
  among the states to publish, and otherwise its stored state is marked as unseen.\<close>

theorem preparation_covers_history:
  "\<exists>recs states sel. prepare_cycle digest digest2 uuid store now ss = Some (recs, states, sel) \<and>
     map ss_instrument states = map sn_instrument ss \<and>
     (\<forall>k s. (k, s) \<in> set (st_states store) \<longrightarrow>
        (if k \<in> sn_instrument ` set ss
         then \<exists>c \<in> set (sl_previous sel). sn_instrument (cd_snapshot c) = k \<and> cd_state c \<in> set states
         else s \<in> set (sl_unseen sel)))"
proof -
  let ?pr = "prepare_all digest digest2 uuid store now ss"
  note ok = prepare_all_cards[where digest = digest and ?digest2.0 = digest2 and uuid = uuid and store = store and now = now and ss = ss]
  obtain sel where sel: "select_cards store ?pr = Some sel"
      "sl_previous sel = filter (\<lambda>c. sn_instrument (cd_snapshot c) \<in> fst ` set (st_states store)) (pr_cards ?pr)"
      "sl_unseen sel = map snd (filter (\<lambda>ks. fst ks \<notin> ss_instrument ` set (pr_states ?pr)) (st_states store))"
    using select_cards_total[OF ok(1)] by blast
  have ids: "ss_instrument ` set (pr_states ?pr) = sn_instrument ` set ss"
  proof -
    have "ss_instrument (cd_state c) = sn_instrument (cd_snapshot c)" if "c \<in> set (pr_cards ?pr)" for c
      using ok(1) that by (auto simp: list_all_iff card_ok_def)
    then have "ss_instrument ` set (pr_states ?pr) = sn_instrument ` cd_snapshot ` set (pr_cards ?pr)"
      unfolding ok(3) by (auto simp: image_iff)
    also have "cd_snapshot ` set (pr_cards ?pr) = set ss" using arg_cong[OF ok(2), of set] by simp
    finally show ?thesis .
  qed
  have card: "\<exists>c \<in> set (pr_cards ?pr). sn_instrument (cd_snapshot c) = k" if k: "k \<in> sn_instrument ` set ss" for k
  proof -
    have "set ss = cd_snapshot ` set (pr_cards ?pr)" using arg_cong[OF ok(2), of set] by simp
    then show ?thesis using k by auto
  qed
  have each: "map ss_instrument (pr_states ?pr) = map sn_instrument ss"
  proof -
    have "map ss_instrument (pr_states ?pr) = map sn_instrument (map cd_snapshot (pr_cards ?pr))"
      unfolding ok(3) using ok(1) by (simp add: list_all_iff card_ok_def)
    then show ?thesis unfolding ok(2) .
  qed
  have "if k \<in> sn_instrument ` set ss
      then \<exists>c \<in> set (sl_previous sel). sn_instrument (cd_snapshot c) = k \<and> cd_state c \<in> set (pr_states ?pr) else s \<in> set (sl_unseen sel)"
    if ks: "(k, s) \<in> set (st_states store)" for k s
  proof (cases "k \<in> sn_instrument ` set ss")
    case True
    then obtain c where c: "c \<in> set (pr_cards ?pr)" "sn_instrument (cd_snapshot c) = k" using card by blast
    then have "c \<in> set (sl_previous sel)" using ks by (force simp: sel(2))
    moreover have "cd_state c \<in> set (pr_states ?pr)" using c(1) unfolding ok(3) by simp
    ultimately show ?thesis using True c(2) by auto
  next
    case False
    then show ?thesis using ks by (force simp: sel(3) ids)
  qed
  moreover have "prepare_cycle digest digest2 uuid store now ss = Some (pr_history ?pr, pr_states ?pr, sel)"
    using sel(1) by (simp add: prepare_cycle_def Let_def)
  ultimately show ?thesis using each by blast
qed

lemma radar_buy_facts:
  assumes "prepare_cycle digest digest2 uuid store now ss = Some (recs, states, sel)"
    and "c \<in> set (sl_short sel) \<union> set (sl_long sel) \<or> sl_best sel = Some c"
  shows "cd_snapshot c \<in> set ss \<and> sn_rank_eligible (cd_snapshot c) \<and> (\<exists>x. sn_score (cd_snapshot c) = Some x \<and> 65 \<le> x) \<and>
    60 \<le> sn_confidence (cd_snapshot c) \<and> 60 \<le> sn_coverage (cd_snapshot c) \<and> \<not> thesis_broken (sn_evidence (cd_snapshot c)) \<and>
    lf_short (ss_life (cd_state c)) \<noteq> EXIT_SHORT \<and> lf_long (ss_life (cd_state c)) \<noteq> EXIT_REVIEW_LONG \<and> c \<notin> set (sl_exit sel)"
proof -
  let ?pr = "prepare_all digest digest2 uuid store now ss"
  have sel: "select_cards store ?pr = Some sel"
    using assms(1) by (auto simp: prepare_cycle_def Let_def)
  note ok = prepare_all_cards[where digest = digest and ?digest2.0 = digest2 and uuid = uuid and store = store and now = now and ss = ss]
  note s = select_cards_total[OF ok(1)]
  have c: "c \<in> set (short_section (pr_cards ?pr)) \<union> set (long_section (pr_cards ?pr))"
    using s sel assms(2) by auto
  note q = section_qualified[OF ok(1) c]
  have "c \<in> set (pr_cards ?pr)" using c by (auto simp: short_section_def long_section_def)
  then have "cd_snapshot c \<in> set ss" using arg_cong[OF ok(2), of set] by auto
  moreover have "c \<notin> set (sl_exit sel)" using s sel q by auto
  ultimately show ?thesis using q by (auto simp: buy_qualified_def split: option.splits)
qed

text \<open>C5: Every card of the two buying sections, and the best buy, is about a rank-eligible candidate with a score of
  at least 65, a confidence and coverage of at least 60 and an unbroken thesis, has no exit action on either
  horizon, and is not listed for exit.\<close>

theorem radar_buys_are_qualified:
  assumes "prepare_cycle digest digest2 uuid store now ss = Some (recs, states, sel)"
    and "c \<in> set (sl_short sel) \<union> set (sl_long sel) \<or> sl_best sel = Some c"
  shows "cd_snapshot c \<in> set ss \<and> sn_rank_eligible (cd_snapshot c) \<and> (\<exists>x. sn_score (cd_snapshot c) = Some x \<and> 65 \<le> x) \<and>
    60 \<le> sn_confidence (cd_snapshot c) \<and> 60 \<le> sn_coverage (cd_snapshot c) \<and> \<not> thesis_broken (sn_evidence (cd_snapshot c)) \<and>
    lf_short (ss_life (cd_state c)) \<noteq> EXIT_SHORT \<and> lf_long (ss_life (cd_state c)) \<noteq> EXIT_REVIEW_LONG \<and> c \<notin> set (sl_exit sel)"
  by (rule radar_buy_facts[OF assms])

section \<open>Closed horizons\<close>

lemma upsert_kept:
  assumes "\<And>s' s. s' \<in> set states \<Longrightarrow> map_of d0 (ss_instrument s') = Some s \<Longrightarrow> closed_kept s s'"
    and "map_of d0 k = Some s" and "map_of d k = Some s1" and "closed_kept s s1"
  shows "\<exists>s'. map_of (foldl (\<lambda>d s. dset (ss_instrument s) s d) d states) k = Some s' \<and> closed_kept s s'"
  using assms
proof (induction states arbitrary: d s1)
  case (Cons x states)
  obtain s2 where s2: "map_of (dset (ss_instrument x) x d) k = Some s2" "closed_kept s s2"
  proof (cases "k = ss_instrument x")
    case True
    then show thesis using that[of x] Cons.prems(1)[of x s] Cons.prems(2) by simp
  next
    case False
    then show thesis using that[of s1] Cons.prems(3,4) by simp
  qed
  have "closed_kept s0 s'" if "s' \<in> set states" "map_of d0 (ss_instrument s') = Some s0" for s' s0
    using that Cons.prems(1) by simp
  then show ?case using Cons.IH[OF _ Cons.prems(2) s2] by simp
qed simp

lemma closed_kept_refl [simp]: "closed_kept s s"
  by (simp add: closed_kept_def)

lemma closed_kept_trans: "closed_kept a b \<Longrightarrow> closed_kept b c \<Longrightarrow> closed_kept a c"
  by (auto simp: closed_kept_def)

lemma radar_step_kept:
  assumes "radar_step digest digest2 now e store store'" and "map_of (st_states store) k = Some s"
  shows "(\<exists>s'. map_of (st_states store') k = Some s' \<and> closed_kept s s') \<and> (\<exists>ext. st_history store' = st_history store @ ext)"
proof -
  obtain uuid ss recs states sel controlled where 1:
      "prepare_cycle digest digest2 uuid store now ss = Some (recs, states, sel)"
      "store' = publish_opportunity_cycle controlled recs states store"
    using assms(1) by (auto elim: radar_stepE)
  let ?pr = "prepare_all digest digest2 uuid store now ss"
  note ok = prepare_all_cards[where digest = digest and ?digest2.0 = digest2 and uuid = uuid and store = store and now = now and ss = ss]
  have "states = pr_states ?pr" using 1(1) by (auto simp: prepare_cycle_def Let_def)
  then have "closed_kept s0 s'" if "s' \<in> set states" "map_of (st_states store) (ss_instrument s') = Some s0" for s' s0
    using ok(1,3) that by (auto simp: list_all_iff card_ok_def)
  then have "\<exists>s'. map_of (foldl (\<lambda>d s. dset (ss_instrument s) s d) (st_states store) (if controlled then [] else states)) k = Some s' \<and> closed_kept s s'"
    by (intro upsert_kept[OF _ assms(2) assms(2)]) (auto split: if_splits)
  then show ?thesis unfolding 1(2) publish_opportunity_cycle_def by simp
qed

text \<open>C6: Through any sequence of cycles over any snapshots, a short horizon that was exited stays exited, an
  invalidated long horizon stays invalidated, the anchor of the original trade is never replaced, and the
  recommendation history only grows.\<close>

theorem closed_horizons_never_reopen:
  assumes "trace (radar_step digest digest2) t store ls t' store'" and "map_of (st_states store) k = Some s"
  shows "\<exists>s' ext. map_of (st_states store') k = Some s' \<and> st_history store' = st_history store @ ext \<and>
    (lf_short (ss_life s) = EXIT_SHORT \<longrightarrow> lf_short (ss_life s') = EXIT_SHORT) \<and>
    (lf_long_state (ss_life s) = INVALIDATED \<longrightarrow> lf_long_state (ss_life s') = INVALIDATED) \<and>
    (\<forall>a. ss_anchor s = Some a \<longrightarrow> ss_anchor s' = Some a)"
proof -
  define P where "P = (\<lambda>st :: radar_store. (\<exists>s'. map_of (st_states st) k = Some s' \<and> closed_kept s s') \<and> (\<exists>ext. st_history st = st_history store @ ext))"
  have "P store'"
    using assms(1)
  proof (rule trace_preserves)
    show "P store" using assms(2) by (simp add: P_def)
    show "P s1" if "radar_step digest digest2 clk l s0 s1" "P s0" for clk l s0 s1
      using radar_step_kept[OF that(1)] that(2) closed_kept_trans unfolding P_def by (metis append.assoc)
  qed
  then show ?thesis unfolding P_def closed_kept_def by fastforce
qed

section \<open>A concrete cycle\<close>

definition sample_store :: radar_store where
  "sample_store = \<lparr>st_history = [], st_states = [(''A'', \<lparr>ss_instrument = ''A'',
     ss_life = \<lparr>lf_short_state = INVALIDATED, lf_long_state = HOLDING, lf_short = EXIT_SHORT, lf_long = HOLD_LONG,
       lf_status = INVALIDATED, lf_price_at = None, lf_price = None, lf_short_distance = None, lf_long_distance = None, lf_reasons = []\<rparr>,
     ss_latest = ''R1'', ss_anchor = Some ''R1'', ss_updated = 0\<rparr>)]\<rparr>"

definition good_snapshot :: opportunity_snapshot where
  "good_snapshot = sample_snapshot\<lparr>sn_instrument := ''B'', sn_evidence := sample_evidence\<lparr>ev_areas :=
     [(''FUNDAMENTAL_BUSINESS_QUALITY'', Some 80), (''VALUATION'', Some 80)], ev_fair_value := None, ev_support := None\<rparr>\<rparr>"

lemma closed_horizons_never_reopen_witness:
  "\<exists>store' s'. trace (radar_step (\<lambda>_. []) (\<lambda>_ _ _. [])) 0 sample_store [(1, Cycle [sample_snapshot] False)] 1 store' \<and>
     map_of (st_states store') ''A'' = Some s' \<and> lf_short (ss_life s') = EXIT_SHORT \<and> ss_anchor s' = Some ''R1''"
proof -
  obtain recs states sel where "prepare_cycle (\<lambda>_. []) (\<lambda>_ _ _. []) (\<lambda>n. ''R2'') sample_store 1 [sample_snapshot] = Some (recs, states, sel)"
    using select_cards_total[OF prepare_all_cards(1)] by (fastforce simp: prepare_cycle_def Let_def)
  then have "radar_step (\<lambda>_. []) (\<lambda>_ _ _. []) 1 (Cycle [sample_snapshot] False) sample_store
      (publish_opportunity_cycle False recs states sample_store)" by (rule radar_cycle)
  then have "trace (radar_step (\<lambda>_. []) (\<lambda>_ _ _. [])) 0 sample_store [(1, Cycle [sample_snapshot] False)] 1
      (publish_opportunity_cycle False recs states sample_store)"
    by (intro trace_cons[OF _ _ trace_nil]) simp_all
  from this closed_horizons_never_reopen[OF this, of "''A''"] show ?thesis
    by (simp add: sample_store_def) blast
qed

lemma good_snapshot_buy: "short_buy good_snapshot" "weak_dimensions (sn_evidence good_snapshot) = []"
proof -
  have d: "dimension (sn_evidence good_snapshot) k = (if k \<in> {''QUALITY'', ''FUNDAMENTAL_BUSINESS_QUALITY'', ''VALUATION''} then Some 80 else None)"
    if "k \<in> {''QUALITY'', ''GOVERNANCE'', ''GROWTH'', ''BALANCE_SHEET'', ''QUARTERLY''}" for k
    using that by (auto simp: dimension_def area_scores_def raw_scores_def AREA_ALIASES_def good_snapshot_def sample_evidence_def Let_def)
  then show w: "weak_dimensions (sn_evidence good_snapshot) = []" by (simp add: weak_dimensions_def)
  have "\<not> thesis_broken (sn_evidence good_snapshot)"
    using d by (simp add: thesis_broken_def w) (simp add: good_snapshot_def sample_evidence_def)
  then have "buy_qualified good_snapshot"
    by (simp add: buy_qualified_def) (simp add: good_snapshot_def sample_snapshot_def)
  moreover have "ev_technical_state (sn_evidence good_snapshot) = Some ''UPTREND''"
    by (simp add: good_snapshot_def sample_evidence_def)
  ultimately show "short_buy good_snapshot" by (simp add: short_buy_def BUY_STATES_def)
qed

definition empty_store :: radar_store where "empty_store = \<lparr>st_history = [], st_states = []\<rparr>"

lemma good_card:
  "\<exists>c. pr_cards (prepare_all digest digest2 uuid empty_store now [good_snapshot]) = [c] \<and> c \<in> set (short_section [c])"
proof -
  let ?r = "base_recommendation good_snapshot"
  have g: "ranges good_snapshot = no_ranges"
    by (simp add: ranges_def short_ranges_def long_ranges_def map_ranges_def no_ranges_def good_snapshot_def sample_snapshot_def sample_evidence_def)
  have "\<not> thesis_broken (sn_evidence good_snapshot)" "buy_qualified good_snapshot"
    using good_snapshot_buy(1) by (simp_all add: short_buy_def buy_qualified_def)
  then have b: "rc_short ?r = BUY_SHORT" "rc_long ?r \<in> {ACCUMULATE_LONG, HOLD_LONG}" "rc_ranges ?r = no_ranges"
    using good_snapshot_buy g by (simp_all add: base_recommendation_def Let_def)
  define rec where "rec = ?r\<lparr>rc_fingerprint := digest (fingerprint_of good_snapshot ?r)\<rparr>"
  have rec: "rc_short rec = BUY_SHORT" "rc_long rec \<in> {ACCUMULATE_LONG, HOLD_LONG}" "rc_ranges rec = no_ranges"
    using b by (simp_all add: rec_def)
  have hs: "horizon_state False None None None None (Some p) = NEW_TRADE" for p
    by (simp add: horizon_state_def reaches_def nonzero_def)
  have price: "sn_price good_snapshot = Some 1000" by (simp add: good_snapshot_def sample_snapshot_def)
  have short: "short_horizon rec BUY_SHORT (Some 1000) False = (NEW_TRADE, BUY_SHORT, [])"
    using rec(3) by (simp add: short_horizon_def no_ranges_def hs)
  have long: "long_horizon rec (rc_long rec) (Some 1000) False = (NEW_TRADE, rc_long rec)"
    using rec(3) by (simp add: long_horizon_def no_ranges_def hs)
  have life: "new_life digest empty_store good_snapshot = trade_lifecycle rec rec (Some 1000) None"
    by (simp add: new_life_def new_evaluation_def earlier_recommendation_def anchor_recommendation_def
        previous_recommendation_def old_state_def empty_store_def evaluate_def rec_def price Let_def)
  have out: "snd (short_outcome rec rec (Some 1000) None) = BUY_SHORT"
      "snd (long_outcome rec rec (Some 1000) None) = rc_long rec"
    using rec short long by (auto simp: short_outcome_def long_outcome_def)
  obtain c where c: "pr_cards (prepare_all digest digest2 uuid empty_store now [good_snapshot]) = [c]"
      "ss_life (cd_state c) = trade_lifecycle rec rec (Some 1000) None" "cd_snapshot c = good_snapshot"
    by (simp add: prepare_all_def prepare_snapshot_def Let_def new_state_def life)
  have "card_ok empty_store c" using prepare_all_cards(1)[of empty_store digest digest2 uuid now "[good_snapshot]"] c(1) by simp
  then show ?thesis
    using c rec(2) out good_snapshot_buy
    by (auto simp: card_ok_def short_section_def is_public_buy_def public_action_of_def short_buy_def buy_qualified_def)
qed

lemma radar_buys_are_qualified_witness:
  "\<exists>recs states sel c. prepare_cycle (\<lambda>_. []) (\<lambda>_ _ _. []) (\<lambda>n. ''R1'') empty_store 1 [good_snapshot] = Some (recs, states, sel) \<and>
     c \<in> set (sl_short sel) \<and> \<not> thesis_broken (sn_evidence (cd_snapshot c)) \<and> c \<notin> set (sl_exit sel)"
proof -
  let ?pr = "prepare_all (\<lambda>_. []) (\<lambda>_ _ _. []) (\<lambda>n. ''R1'') empty_store 1 [good_snapshot]"
  obtain sel where sel: "select_cards empty_store ?pr = Some sel" "set (sl_short sel) = set (short_section (pr_cards ?pr))"
    using select_cards_total[OF prepare_all_cards(1)] by blast
  obtain c where "c \<in> set (sl_short sel)" using good_card sel(2) by metis
  moreover have "prepare_cycle (\<lambda>_. []) (\<lambda>_ _ _. []) (\<lambda>n. ''R1'') empty_store 1 [good_snapshot] = Some (pr_history ?pr, pr_states ?pr, sel)"
    using sel(1) by (simp add: prepare_cycle_def Let_def)
  ultimately show ?thesis using radar_buys_are_qualified by blast
qed

lemma preparation_covers_history_witness:
  "\<exists>recs states sel. prepare_cycle (\<lambda>_. []) (\<lambda>_ _ _. []) (\<lambda>n. ''R1'') sample_store 1 [] = Some (recs, states, sel) \<and>
     states = [] \<and> snd (hd (st_states sample_store)) \<in> set (sl_unseen sel)"
proof -
  obtain recs states sel where p: "prepare_cycle (\<lambda>_. []) (\<lambda>_ _ _. []) (\<lambda>n. ''R1'') sample_store 1 [] = Some (recs, states, sel)"
      "states = []" "\<forall>k s. (k, s) \<in> set (st_states sample_store) \<longrightarrow> s \<in> set (sl_unseen sel)"
    using preparation_covers_history[of "\<lambda>_. []" "\<lambda>_ _ _. []" "\<lambda>n. ''R1''" sample_store 1 "[]"] by auto
  have "(fst (hd (st_states sample_store)), snd (hd (st_states sample_store))) \<in> set (st_states sample_store)"
    by (simp add: sample_store_def)
  then have "snd (hd (st_states sample_store)) \<in> set (sl_unseen sel)" using p(3) by blast
  then show ?thesis using p(1,2) by auto
qed

end
