(* ===== verification/Pipeline.thy ===== *)
theory Pipeline
  imports StockEngine Ranker Radar
begin

text \<open>
  The bridge from the rule engine and the ranker to the recommendations: the evidence that
  \<open>app/global_opportunity_orchestration.py\<close> serializes (\<open>_rule_evidence\<close>, \<open>_technical_evidence\<close>,
  \<open>_analyst_valuation_evidence\<close>), the snapshot of a ranked entry and of a deferred review
  (\<open>app/global_opportunity_cycle.py\<close>).
\<close>

section \<open>Evidence of an analysed candidate\<close>

record technical_snapshot =
  ts_price :: "rat option"
  ts_support :: "rat option"
  ts_resistance :: "rat option"
  ts_atr14 :: "rat option"
  ts_state :: string
  ts_missing :: "string list"
  ts_stale :: "string list"
  ts_conflicting :: "int list"
  ts_currency :: "string option"

record public_analyst =
  pa_target_median :: "rat option"
  pa_target_high :: "rat option"
  pa_currency :: "string option"
  pa_freshness :: string

text \<open>A finite positive target as a float.\<close>

definition eligible_target :: "rat option \<Rightarrow> rat option" where
  "eligible_target v = (case v of Some x \<Rightarrow> if 0 < x then Some (fl64 x) else None | None \<Rightarrow> None)"

text \<open>Fair value and bull target; the invalidation is never supplied.\<close>

definition analyst_valuation_evidence :: "public_analyst option \<Rightarrow> string option \<Rightarrow> rat option \<times> rat option" where
  "analyst_valuation_evidence analyst currency =
     (case (analyst, currency) of
        (Some a, Some c) \<Rightarrow>
          if c = [] \<or> pa_currency a \<noteq> Some c then (None, None)
          else if pa_freshness a \<noteq> ''FRESH'' then (None, None)
          else (eligible_target (pa_target_median a), eligible_target (pa_target_high a))
      | _ \<Rightarrow> (None, None))"

text \<open>The keys of the technical evidence.\<close>

definition TECHNICAL_EVIDENCE_KEYS :: "string list" where
  "TECHNICAL_EVIDENCE_KEYS = [''latest_price'', ''history_end'', ''feature_version'', ''currency'',
     ''support_level'', ''resistance_level'', ''distance_to_support_pct'', ''distance_to_resistance_pct'',
     ''atr14'', ''atr_pct'', ''rsi14'', ''macd'', ''macd_signal'', ''macd_histogram'', ''adx14'',
     ''technical_state'', ''breakout_state'',
     ''current_volume'', ''volume_average20'', ''volume_ratio20'', ''volume_state'',
     ''volume_expansion'', ''volume_contraction'', ''breakout_volume_confirmed'', ''reversal_volume_confirmed'',
     ''dma20'', ''dma50'', ''dma100'', ''dma200'',
     ''distance_to_dma20_pct'', ''distance_to_dma50_pct'', ''distance_to_dma100_pct'', ''distance_to_dma200_pct'',
     ''return1_w'', ''return1_m'', ''return3_m'', ''return6_m'', ''return1_y'',
     ''trend_slope20'', ''trend_slope50'',
     ''distance_from52_week_high_pct'', ''distance_from52_week_low_pct'',
     ''higher_highs_higher_lows'', ''lower_highs_lower_lows'',
     ''latest_swing_high'', ''previous_swing_high'', ''latest_swing_low'', ''previous_swing_low'',
     ''swing_higher_high'', ''swing_lower_high'', ''swing_higher_low'', ''swing_lower_low'',
     ''market_structure_state'', ''technical_score'', ''confidence'', ''history_readiness'',
     ''missing_inputs'', ''stale_inputs'']"

definition technical_evidence :: "technical_snapshot \<Rightarrow> evidence_state \<Rightarrow> evidence_state" where
  "technical_evidence t ev = ev\<lparr>ev_technical_state := Some (ts_state t), ev_support := ts_support t,
     ev_resistance := ts_resistance t, ev_atr14 := ts_atr14 t, ev_technical_missing := ts_missing t,
     ev_technical_stale := ts_stale t\<rparr>"

text \<open>
  The serialized rule result has the areas and the missing inputs; it has no risk overrides, so the
  recommendation reads an empty list of them.
\<close>

definition rule_evidence :: "rule_result \<Rightarrow> evidence_state \<Rightarrow> evidence_state" where
  "rule_evidence ru ev = ev\<lparr>ev_areas := map (\<lambda>a. (area_name (ar_area a), ar_raw a)) (ru_areas ru),
     ev_overrides := [], ev_rule_missing := sr_missing (ru_result ru)\<rparr>"

definition no_evidence :: evidence_state where
  "no_evidence = \<lparr>ev_technical_state = None, ev_support = None, ev_resistance = None, ev_atr14 = None, ev_fair_value = None,
     ev_bull_target = None, ev_invalidation = None, ev_areas = [], ev_overrides = [], ev_missing = [], ev_stale = [],
     ev_rule_missing = [], ev_technical_missing = [], ev_technical_stale = [], ev_other = JNull\<rparr>"

definition candidate_evidence :: "technical_snapshot \<Rightarrow> rule_result \<Rightarrow> public_analyst option \<Rightarrow> evidence_state" where
  "candidate_evidence t ru analyst =
     (let (fair, bull) = analyst_valuation_evidence analyst (ts_currency t)
      in (technical_evidence t (rule_evidence ru no_evidence))\<lparr>ev_fair_value := fair, ev_bull_target := bull\<rparr>)"

section \<open>Snapshots\<close>

text \<open>The snapshot of a ranked entry; and the entries of a ranking, in its order.\<close>

definition entry_snapshot ::
    "(string \<Rightarrow> string) \<Rightarrow> technical_snapshot \<Rightarrow> rule_result \<Rightarrow> public_analyst option \<Rightarrow> opportunity \<Rightarrow> opportunity_snapshot" where
  "entry_snapshot uuid t ru analyst o1 =
     \<lparr>sn_id = uuid (go_instrument o1), sn_instrument = go_instrument o1, sn_price = ts_price t, sn_score = go_score o1,
      sn_confidence = go_confidence o1, sn_coverage = go_coverage o1, sn_rule_score = go_rule_score o1,
      sn_rank_eligible = go_eligible o1, sn_positive = go_positive o1, sn_negative = go_negative o1,
      sn_evidence = candidate_evidence t ru analyst\<rparr>"

definition ranked_snapshots ::
    "(string \<Rightarrow> string) \<Rightarrow> (string \<rightharpoonup> technical_snapshot) \<Rightarrow> (string \<rightharpoonup> rule_result) \<Rightarrow> (string \<rightharpoonup> public_analyst) \<Rightarrow>
     opportunity list \<Rightarrow> opportunity_snapshot list" where
  "ranked_snapshots uuid technical rules analysts ranked =
     List.map_filter (\<lambda>o1. case (technical (go_instrument o1), rules (go_instrument o1)) of
         (Some t, Some ru) \<Rightarrow> Some (entry_snapshot uuid t ru (analysts (go_instrument o1)) o1)
       | _ \<Rightarrow> None) ranked"

text \<open>
  The snapshot of a live recommendation that this cycle did not analyse: its last evidence with the
  price evidence of now, if there is any, never eligible.
\<close>

definition review_snapshot ::
    "(string \<Rightarrow> string) \<Rightarrow> string \<Rightarrow> evidence_state \<Rightarrow> technical_snapshot option \<Rightarrow> opportunity_snapshot" where
  "review_snapshot uuid key earlier technical =
     (let ev = (case technical of
            Some t \<Rightarrow> technical_evidence t earlier
          | None \<Rightarrow> earlier\<lparr>ev_technical_state := None, ev_support := None, ev_resistance := None, ev_atr14 := None,
              ev_technical_missing := [], ev_technical_stale := []\<rparr>);
          ev = ev\<lparr>ev_stale := sorted_set (ev_stale ev @ [''THESIS_NOT_REVALIDATED''])\<rparr>;
          conflicting = (''conflicting_dates'' \<in> set TECHNICAL_EVIDENCE_KEYS \<and>
            (case technical of Some t \<Rightarrow> ts_conflicting t \<noteq> [] | None \<Rightarrow> False));
          price = (case technical of Some t \<Rightarrow> ts_price t | None \<Rightarrow> None)
      in \<lparr>sn_id = uuid key, sn_instrument = key,
          sn_price = (if ev_technical_stale ev \<noteq> [] \<or> conflicting then None else price),
          sn_score = None, sn_confidence = 0, sn_coverage = 0, sn_rule_score = None, sn_rank_eligible = False,
          sn_positive = [], sn_negative = [''REVIEW_EVIDENCE_INSUFFICIENT''], sn_evidence = ev\<rparr>)"

section \<open>What the bridge keeps and drops\<close>

lemma blocked_not_eligible:
  assumes "rank_score cand (Some ru) = Inr r" and "ov \<in> set (ru_overrides ru)" and "ov_block_buy ov \<or> ov_severity ov = SEV_CRITICAL"
  shows "\<not> go_eligible r"
proof -
  have "rule_gates (Some ru) \<noteq> []"
    using assms(2,3) by (auto simp: rule_gates_def filter_empty_conv)
  then show ?thesis using eligible_iff_gates[OF assms(1)] by (simp add: evidence_gates_def)
qed

text \<open>The evidence of a recommendation is the same with and without overrides.\<close>

lemma overrides_are_dropped:
  "candidate_evidence t (ru\<lparr>ru_overrides := ovs\<rparr>) analyst = candidate_evidence t ru analyst"
  "ev_overrides (candidate_evidence t ru analyst) = []"
  by (simp_all add: candidate_evidence_def rule_evidence_def technical_evidence_def no_evidence_def split_beta)

text \<open>So a critical override alone does not break the thesis: a holder is told to hold.\<close>

lemma critical_override_is_not_an_exit:
  assumes "rank_score cand (Some ru) = Inr r" and "ov \<in> set (ru_overrides ru)" and "ov_severity ov = SEV_CRITICAL"
    and "weak_dimensions (candidate_evidence t ru analyst) = []"
    and "dimension (candidate_evidence t ru analyst) ''GOVERNANCE'' = None"
  shows "rc_holder (evaluate digest (entry_snapshot uuid t ru analyst r) None) = HOLD_NO_NEW_MONEY \<and>
    rc_long (evaluate digest (entry_snapshot uuid t ru analyst r) None) = HOLD_LONG"
proof -
  have "\<not> go_eligible r" using blocked_not_eligible[OF assms(1,2)] assms(3) by blast
  moreover have "\<not> thesis_broken (candidate_evidence t ru analyst)"
    using assms(4,5) overrides_are_dropped(2) by (simp add: thesis_broken_def)
  ultimately show ?thesis
    using assms(4) by (simp add: evaluate_def base_recommendation_def entry_snapshot_def buy_qualified_def long_buy_def Let_def)
qed

text \<open>The dates of conflicting prices are not among the keys, so a review uses a conflicting price.\<close>

lemma review_price_ignores_conflicts:
  "sn_price (review_snapshot uuid key earlier (Some (t\<lparr>ts_conflicting := ds\<rparr>))) = sn_price (review_snapshot uuid key earlier (Some t))"
proof -
  have "''conflicting_dates'' \<notin> set TECHNICAL_EVIDENCE_KEYS" by (simp add: TECHNICAL_EVIDENCE_KEYS_def)
  then show ?thesis by (simp add: review_snapshot_def technical_evidence_def Let_def)
qed

end
