(* ===== verification/Discovery.thy ===== *)
theory Discovery
  imports PyStr PyNum "HOL-Library.Product_Lexorder"
begin

text \<open>
  The nomination of candidates for deep investigation (\<open>app/opportunity_discovery.py\<close>): the three
  evidence paths, the budget, the rotation over the whole universe and its cursor, and the sequence of
  cycles that hand the cursor on.  Reading the events of an instrument is an argument; None is a read
  that raised.
\<close>

section \<open>Nominations\<close>

datatype path = MARKET_TECHNICAL | FUNDAMENTAL_CHANGE | EVENT_CATALYST | ROTATION_EXPLORATION

record scan_candidate =
  gc_instrument :: string
  gc_acquirable :: bool
  gc_pre_score :: "rat option"
  gc_growth :: "(string \<times> rat option) option"

text \<open>
  An event with its date (\<open>event_date or published_at\<close>): the instant, whether it has a zone, and the
  eight digits of its calendar date, which the order of the nominations reads.
\<close>

record catalyst_event =
  ce_id :: string
  ce_type :: string
  ce_when :: "time option"
  ce_zoned :: bool
  ce_digits :: int
  ce_real :: bool
  ce_exchange :: bool
  ce_rejected :: bool
  ce_url :: string

record nomination =
  nm_instrument :: string
  nm_path :: path
  nm_reasons :: "string list"
  nm_score :: "rat option"
  nm_digits :: "int option"
  nm_time :: "time option"
  nm_source :: "string option"

definition CATALYST_WINDOW :: int where "CATALYST_WINDOW = 30 * 86400000000"

text \<open>\<open>event_concept(...)\<close> is not None.\<close>

definition has_concept :: "string \<Rightarrow> bool" where
  "has_concept t \<longleftrightarrow>
     t \<in> {''NEW_ORDER'', ''ORDER_BACKLOG_CHANGE'', ''MAJOR_CONTRACT'', ''GOVERNMENT_CONTRACT'', ''ORDER_CANCELLED''} \<or>
     t \<in> {''CAPEX'', ''FACTORY_EXPANSION'', ''CAPACITY_EXPANSION'', ''NEW_FACILITY'', ''PROJECT_DELAY''} \<or>
     take 9 t = ''GUIDANCE_''"

definition catalyst_ok :: "time \<Rightarrow> catalyst_event \<Rightarrow> bool" where
  "catalyst_ok as_of e \<longleftrightarrow> ce_real e \<and> ce_exchange e \<and> \<not> ce_rejected e \<and> has_concept (ce_type e) \<and> ce_zoned e \<and>
     (case ce_when e of None \<Rightarrow> False | Some w \<Rightarrow> 0 \<le> as_of - w \<and> as_of - w \<le> CATALYST_WINDOW)"

definition latest_catalyst :: "time \<Rightarrow> catalyst_event list \<Rightarrow> catalyst_event option" where
  "latest_catalyst as_of events =
     foldl (\<lambda>latest e.
        if \<not> catalyst_ok as_of e then latest
        else (case latest of
            None \<Rightarrow> Some e
          | Some l \<Rightarrow> if (the (ce_when l), ce_id l) < (the (ce_when e), ce_id e) then Some e else latest)) None events"

definition nominate_compact :: "string set \<Rightarrow> time \<Rightarrow> catalyst_event list \<Rightarrow> scan_candidate \<Rightarrow> nomination list" where
  "nominate_compact market_ids as_of events c =
     (if \<not> gc_acquirable c then []
      else (if gc_instrument c \<in> market_ids
            then [\<lparr>nm_instrument = gc_instrument c, nm_path = MARKET_TECHNICAL, nm_reasons = [''EXISTING_PRELIMINARY_SIGNAL''],
                   nm_score = gc_pre_score c, nm_digits = None, nm_time = None, nm_source = None\<rparr>] else []) @
           (case gc_growth c of
              Some (state, Some score) \<Rightarrow>
                if state \<in> {''AVAILABLE'', ''PARTIAL''}
                then [\<lparr>nm_instrument = gc_instrument c, nm_path = FUNDAMENTAL_CHANGE,
                       nm_reasons = [''DURABLE_REVENUE_OR_EARNINGS_CHANGE''], nm_score = Some score, nm_digits = None,
                       nm_time = None, nm_source = None\<rparr>] else []
            | _ \<Rightarrow> []) @
           (case latest_catalyst as_of events of
              Some e \<Rightarrow> [\<lparr>nm_instrument = gc_instrument c, nm_path = EVENT_CATALYST, nm_reasons = [ce_type e], nm_score = None,
                          nm_digits = Some (ce_digits e), nm_time = ce_when e, nm_source = Some (ce_url e)\<rparr>]
            | None \<Rightarrow> []))"

section \<open>Discovery\<close>

record discovery_input =
  di_candidates :: "scan_candidate list"
  di_market :: "string set"
  di_budget :: nat
  di_as_of :: time
  di_events :: "string \<Rightarrow> catalyst_event list option"
  di_exclude :: "string set"
  di_full :: bool

definition eligible_candidates :: "discovery_input \<Rightarrow> (string \<times> scan_candidate) list" where
  "eligible_candidates i =
     foldl (\<lambda>d c. dset (gc_instrument c) c d) []
       (filter (\<lambda>c. gc_acquirable c \<and> gc_instrument c \<notin> di_exclude i) (di_candidates i))"

definition read_nominations :: "discovery_input \<Rightarrow> scan_candidate \<Rightarrow> nomination list" where
  "read_nominations i c =
     nominate_compact (di_market i) (di_as_of i) (case di_events i (gc_instrument c) of None \<Rightarrow> [] | Some es \<Rightarrow> es) c"

definition nomination_key :: "nomination \<Rightarrow> rat \<times> int \<times> string" where
  "nomination_key n = (- (case nm_score n of Some s \<Rightarrow> s | None \<Rightarrow> 0), - (case nm_digits n of Some d \<Rightarrow> d | None \<Rightarrow> 0),
     nm_instrument n)"

definition pool_insert :: "nat \<Rightarrow> nomination list \<Rightarrow> nomination \<Rightarrow> nomination list" where
  "pool_insert budget pool n = take budget (sort_key nomination_key (pool @ [n]))"

definition evidence_pool :: "discovery_input \<Rightarrow> path \<Rightarrow> nomination list" where
  "evidence_pool i p =
     foldl (pool_insert (di_budget i)) []
       (filter (\<lambda>n. nm_path n = p) (concat (map (\<lambda>kc. read_nominations i (snd kc)) (eligible_candidates i))))"

type_synonym selected_map = "(string \<times> (path \<times> nomination) list) list"

definition add_nomination :: "nomination \<Rightarrow> selected_map \<Rightarrow> selected_map" where
  "add_nomination n sel =
     dset (nm_instrument n) (dset (nm_path n) n (case map_of sel (nm_instrument n) of None \<Rightarrow> [] | Some d \<Rightarrow> d)) sel"

text \<open>The reserve of the rotation, and the evidence paths below it.\<close>

definition reserve :: "nat \<Rightarrow> bool \<Rightarrow> nat" where
  "reserve budget any = (if any then min budget (max 1 (budget div 4)) else 0)"

definition pick_nomination :: "nat \<Rightarrow> nat \<Rightarrow> nomination list \<Rightarrow> selected_map \<Rightarrow> selected_map" where
  "pick_nomination limit k pool sel =
     (if k < length pool \<and> (length sel < limit \<or> nm_instrument (pool ! k) \<in> fst ` set sel)
      then add_nomination (pool ! k) sel else sel)"

definition pick_paths :: "nat \<Rightarrow> nomination list list \<Rightarrow> nat \<Rightarrow> selected_map \<Rightarrow> selected_map" where
  "pick_paths limit pools k sel = foldl (\<lambda>sel pool. pick_nomination limit k pool sel) sel pools"

definition pick_evidence :: "nat \<Rightarrow> nat \<Rightarrow> nomination list list \<Rightarrow> selected_map" where
  "pick_evidence budget limit pools = foldl (\<lambda>sel k. pick_paths limit pools k sel) [] [0..<budget]"

definition rotation_nomination :: "string \<Rightarrow> nomination" where
  "rotation_nomination key = \<lparr>nm_instrument = key, nm_path = ROTATION_EXPLORATION, nm_reasons = [''CANONICAL_ROTATION''],
     nm_score = None, nm_digits = None, nm_time = None, nm_source = None\<rparr>"

fun rotate_loop ::
    "nat \<Rightarrow> nat \<Rightarrow> nat \<Rightarrow> selected_map \<Rightarrow> string option \<Rightarrow> string list \<Rightarrow> selected_map \<times> string option" where
  "rotate_loop res budget explored sel cursor [] = (sel, cursor)"
| "rotate_loop res budget explored sel cursor (key # keys) =
     (if res \<le> explored \<and> budget \<le> length sel then (sel, cursor)
      else if key \<in> fst ` set sel then rotate_loop res budget explored sel (Some key) keys
      else rotate_loop res budget (Suc explored) (add_nomination (rotation_nomination key) sel) (Some key) keys)"

definition rotation_order :: "'a::linorder option \<Rightarrow> 'a list \<Rightarrow> 'a list" where
  "rotation_order after ids =
     filter (\<lambda>k. case after of None \<Rightarrow> True | Some a \<Rightarrow> a < k) ids @
     filter (\<lambda>k. case after of None \<Rightarrow> False | Some a \<Rightarrow> k \<le> a) ids"

definition add_rest :: "(string \<times> scan_candidate) list \<Rightarrow> selected_map \<Rightarrow> selected_map" where
  "add_rest eligible sel = foldl (\<lambda>d kc. if fst kc \<in> fst ` set d then d else dset (fst kc) [] d) sel eligible"

definition renominate :: "discovery_input \<Rightarrow> (string \<times> scan_candidate) list \<Rightarrow> selected_map \<Rightarrow> selected_map" where
  "renominate i eligible sel =
     foldl (\<lambda>d k. case map_of eligible k of None \<Rightarrow> d | Some c \<Rightarrow> foldl (\<lambda>d n. add_nomination n d) d (read_nominations i c)) sel (map fst sel)"

definition discovery_selection :: "discovery_input \<Rightarrow> string option \<Rightarrow> selected_map \<times> string option" where
  "discovery_selection i after =
     (let eligible = eligible_candidates i;
          res = reserve (di_budget i) (eligible \<noteq> []);
          chosen = pick_evidence (di_budget i) (di_budget i - res)
            (map (evidence_pool i) [MARKET_TECHNICAL, FUNDAMENTAL_CHANGE, EVENT_CATALYST])
      in rotate_loop res (di_budget i) 0 chosen after (rotation_order after (sort (map fst eligible))))"

definition discover :: "discovery_input \<Rightarrow> string option \<Rightarrow> scan_candidate list \<times> selected_map \<times> string option" where
  "discover i after =
     (let eligible = eligible_candidates i;
          (sel, cursor) = discovery_selection i after;
          sel = (if di_full i then add_rest eligible sel else sel);
          sel = renominate i eligible sel
      in (List.map_filter (\<lambda>k. map_of eligible k) (map fst sel), sel, cursor))"

section \<open>The eligible candidates\<close>

lemma keys_dset_cases: "map fst (dset k v d) = (if k \<in> fst ` set d then map fst d else map fst d @ [k])"
  by (simp add: update_keys)

lemma eligible_fold:
  assumes "distinct (map fst d)" and "\<And>k c. (k, c) \<in> set d \<Longrightarrow> gc_instrument c = k"
  shows "let d' = foldl (\<lambda>d c. dset (gc_instrument c) c d) d cs in
    distinct (map fst d') \<and> fst ` set d' = fst ` set d \<union> gc_instrument ` set cs \<and> (\<forall>(k, c) \<in> set d'. gc_instrument c = k)"
  using assms
proof (induction cs arbitrary: d)
  case (Cons c cs)
  let ?d = "dset (gc_instrument c) c d"
  have d: "distinct (map fst ?d)" using Cons.prems(1) by (rule distinct_update)
  have mem: "(k, x) \<in> set ?d \<Longrightarrow> gc_instrument x = k" for k x
    using set_dset_subset[of "gc_instrument c" c d] Cons.prems(2)[of k x] by blast
  have "fst ` set ?d = insert (gc_instrument c) (fst ` set d)"
    using arg_cong[OF keys_dset_cases[of "gc_instrument c" c d], of set] by auto
  then show ?case using Cons.IH[OF d mem] unfolding Let_def foldl_Cons by simp
qed auto

lemma eligible_members:
  "(k, c) \<in> set (eligible_candidates i) \<Longrightarrow> c \<in> set (di_candidates i) \<and> gc_acquirable c \<and> gc_instrument c \<notin> di_exclude i"
proof -
  have "snd ` set (foldl (\<lambda>d c. dset (gc_instrument c) c d) d cs) \<subseteq> snd ` set d \<union> set cs" for d and cs :: "scan_candidate list"
  proof (induction cs arbitrary: d)
    case (Cons c cs)
    then show ?case using Cons[of "dset (gc_instrument c) c d"] set_dset_subset[of "gc_instrument c" c d] by force
  qed simp
  from this[of "[]" "filter (\<lambda>c. gc_acquirable c \<and> gc_instrument c \<notin> di_exclude i) (di_candidates i)"]
  show "(k, c) \<in> set (eligible_candidates i) \<Longrightarrow> ?thesis" unfolding eligible_candidates_def by force
qed

definition eligible_ids :: "discovery_input \<Rightarrow> string set" where
  "eligible_ids i = {gc_instrument c | c. c \<in> set (di_candidates i) \<and> gc_acquirable c \<and> gc_instrument c \<notin> di_exclude i}"

lemma eligible_facts:
  "distinct (map fst (eligible_candidates i))" "fst ` set (eligible_candidates i) = eligible_ids i"
  "(k, c) \<in> set (eligible_candidates i) \<Longrightarrow> gc_instrument c = k"
  using eligible_fold[of "[]" "filter (\<lambda>c. gc_acquirable c \<and> gc_instrument c \<notin> di_exclude i) (di_candidates i)"]
  by (auto simp: eligible_candidates_def Let_def eligible_ids_def)

lemma finite_eligible [simp]: "finite (eligible_ids i)"
  by (simp add: eligible_facts(2)[symmetric])

lemma card_eligible: "length (eligible_candidates i) = card (eligible_ids i)"
  using distinct_card[OF eligible_facts(1)[of i]] by (simp add: eligible_facts(2)[symmetric])

lemma nominated_instrument: "n \<in> set (read_nominations i c) \<Longrightarrow> nm_instrument n = gc_instrument c"
  by (auto simp: read_nominations_def nominate_compact_def split: option.splits if_splits)

lemma pool_eligible: "n \<in> set (evidence_pool i p) \<Longrightarrow> nm_instrument n \<in> eligible_ids i"
proof -
  have fold: "set (foldl (pool_insert b) pool ns) \<subseteq> set pool \<union> set ns" for b pool ns
  proof (induction ns arbitrary: pool)
    case (Cons n ns)
    have "set (pool_insert b pool n) \<subseteq> insert n (set pool)"
      using set_take_subset[of b "sort_key nomination_key (pool @ [n])"] by (auto simp: pool_insert_def)
    then show ?case using Cons[of "pool_insert b pool n"] by auto
  qed simp
  assume "n \<in> set (evidence_pool i p)"
  then have "n \<in> set (concat (map (\<lambda>kc. read_nominations i (snd kc)) (eligible_candidates i)))"
    using fold unfolding evidence_pool_def by fastforce
  then obtain k c where "(k, c) \<in> set (eligible_candidates i)" "n \<in> set (read_nominations i c)" by auto
  then show ?thesis using nominated_instrument eligible_facts(2,3) by force
qed

section \<open>The selection\<close>

text \<open>Keys of a selection are distinct, known, and at most a limit.\<close>

definition selection_ok :: "string set \<Rightarrow> nat \<Rightarrow> selected_map \<Rightarrow> bool" where
  "selection_ok E limit sel \<longleftrightarrow> distinct (map fst sel) \<and> fst ` set sel \<subseteq> E \<and> length sel \<le> limit"

lemma add_keys: "map fst (add_nomination n sel) = (if nm_instrument n \<in> fst ` set sel then map fst sel else map fst sel @ [nm_instrument n])"
  unfolding add_nomination_def by (rule keys_dset_cases)

lemma add_length: "length (add_nomination n sel) = (if nm_instrument n \<in> fst ` set sel then length sel else Suc (length sel))"
  using arg_cong[OF add_keys[of n sel], of length] by (simp split: if_splits)

lemma add_key_set: "fst ` set (add_nomination n sel) = insert (nm_instrument n) (fst ` set sel)"
  using arg_cong[OF add_keys[of n sel], of set] by (auto split: if_splits)

lemma pick_ok:
  "selection_ok E limit sel \<Longrightarrow> (\<And>n. n \<in> set pool \<Longrightarrow> nm_instrument n \<in> E) \<Longrightarrow> selection_ok E limit (pick_nomination limit k pool sel)"
  using add_keys[of "pool ! k" sel] add_length[of "pool ! k" sel] add_key_set[of "pool ! k" sel]
  by (auto simp: selection_ok_def pick_nomination_def split: if_splits)

lemma pick_evidence_ok:
  assumes "\<And>pool n. pool \<in> set pools \<Longrightarrow> n \<in> set pool \<Longrightarrow> nm_instrument n \<in> E"
  shows "selection_ok E limit (pick_evidence budget limit pools)"
proof -
  have paths: "selection_ok E limit (pick_paths limit pools k sel)" if "selection_ok E limit sel" for k sel
    using assms that unfolding pick_paths_def
  proof (induction pools arbitrary: sel)
    case (Cons pool pools)
    have rest: "nm_instrument n \<in> E" if "q \<in> set pools" "n \<in> set q" for q n
      by (rule Cons.prems(1)[OF list.set_intros(2)[OF that(1)] that(2)])
    have "selection_ok E limit (pick_nomination limit k pool sel)"
      by (rule pick_ok[OF Cons.prems(2)]) (erule Cons.prems(1)[of pool, OF list.set_intros(1)])
    then show ?case unfolding foldl_Cons by (rule Cons.IH[rotated]) (rule rest)
  qed simp
  have "selection_ok E limit (foldl (\<lambda>sel k. pick_paths limit pools k sel) sel ks)" if "selection_ok E limit sel" for sel ks
    using that by (induction ks arbitrary: sel) (simp_all add: paths)
  then show ?thesis unfolding pick_evidence_def by (simp add: selection_ok_def)
qed

lemma rotate_loop_spec:
  assumes "distinct (map fst sel)" and "length sel + res \<le> budget + explored" and "length sel \<le> budget"
    and "rotate_loop res budget explored sel cursor keys = (sel', cursor')"
  shows "\<exists>k \<le> length keys. fst ` set sel' = fst ` set sel \<union> set (take k keys) \<and> distinct (map fst sel') \<and> length sel' \<le> budget \<and>
    cursor' = (if k = 0 then cursor else Some (keys ! (k - 1))) \<and> (k = length keys \<or> length sel' = budget \<and> res \<le> explored + k)"
  using assms
proof (induction res budget explored sel cursor keys rule: rotate_loop.induct)
  case (2 res budget explored sel cursor key keys)
  have step: ?case
    if r: "rotate_loop res budget ex s1 (Some key) keys = (sel', cursor')" and ex: "ex \<le> Suc explored"
      and s1: "fst ` set s1 = insert key (fst ` set sel)"
      and ih: "\<exists>k \<le> length keys. fst ` set sel' = fst ` set s1 \<union> set (take k keys) \<and> distinct (map fst sel') \<and> length sel' \<le> budget \<and>
        cursor' = (if k = 0 then Some key else Some (keys ! (k - 1))) \<and> (k = length keys \<or> length sel' = budget \<and> res \<le> ex + k)" for ex s1
  proof -
    obtain k where k: "k \<le> length keys" "fst ` set sel' = fst ` set s1 \<union> set (take k keys)" "distinct (map fst sel')" "length sel' \<le> budget"
        "cursor' = (if k = 0 then Some key else Some (keys ! (k - 1)))" "k = length keys \<or> length sel' = budget \<and> res \<le> ex + k"
      using ih by blast
    show ?thesis using k s1 ex by (intro exI[of _ "Suc k"]) (auto simp: nth_Cons')
  qed
  show ?case
  proof (cases "res \<le> explored \<and> budget \<le> length sel")
    case True
    then show ?thesis using 2 by (intro exI[of _ 0]) auto
  next
    case go: False
    show ?thesis
    proof (cases "key \<in> fst ` set sel")
      case True
      then have r: "rotate_loop res budget explored sel (Some key) keys = (sel', cursor')" using 2(6) go by simp
      show ?thesis by (rule step[OF r]) (use True 2(1)[OF go True 2(3-5) r] in auto)
    next
      case False
      let ?s = "add_nomination (rotation_nomination key) sel"
      have i: "nm_instrument (rotation_nomination key) = key" by (simp add: rotation_nomination_def)
      have r: "rotate_loop res budget (Suc explored) ?s (Some key) keys = (sel', cursor')" using 2(6) go False by simp
      have s: "map fst ?s = map fst sel @ [key]" "length ?s = Suc (length sel)" "fst ` set ?s = insert key (fst ` set sel)"
        using add_keys[of "rotation_nomination key" sel] add_length[of "rotation_nomination key" sel]
          add_key_set[of "rotation_nomination key" sel] False i by simp_all
      have "length sel < budget" using go 2(4,5) by linarith
      then have "distinct (map fst ?s)" "length ?s + res \<le> budget + Suc explored" "length ?s \<le> budget"
        using s(1,2) False 2(3,4) by simp_all
      from step[OF r _ s(3) 2(2)[OF go False this r]] show ?thesis by simp
    qed
  qed
qed (intro exI[of _ 0], auto)

lemma selection_spec:
  assumes "discovery_selection i after = (sel, cursor)"
  defines "order \<equiv> rotation_order after (sorted_list_of_set (eligible_ids i))"
  shows "\<exists>k \<le> length order. set (take k order) \<subseteq> fst ` set sel \<and> fst ` set sel \<subseteq> eligible_ids i \<union> set order \<and> distinct (map fst sel) \<and>
    length sel \<le> di_budget i \<and> cursor = (if k = 0 then after else Some (order ! (k - 1))) \<and>
    (k = length order \<or> length sel = di_budget i \<and> reserve (di_budget i) (eligible_ids i \<noteq> {}) \<le> k)"
proof -
  let ?b = "di_budget i" and ?E = "eligible_ids i"
  let ?res = "reserve ?b (?E \<noteq> {})"
  let ?pools = "map (evidence_pool i) [MARKET_TECHNICAL, FUNDAMENTAL_CHANGE, EVENT_CATALYST]"
  define chosen where "chosen = pick_evidence ?b (?b - ?res) ?pools"
  have "selection_ok ?E (?b - ?res) chosen"
    unfolding chosen_def by (rule pick_evidence_ok) (use pool_eligible in auto)
  then have c: "distinct (map fst chosen)" "fst ` set chosen \<subseteq> ?E" "length chosen \<le> ?b - ?res" by (simp_all add: selection_ok_def)
  have res: "?res \<le> ?b" by (simp add: reserve_def)
  have ne: "(eligible_candidates i \<noteq> []) = (?E \<noteq> {})" using eligible_facts(2)[of i] by auto
  have order: "order = rotation_order after (sort (map fst (eligible_candidates i)))"
    unfolding order_def eligible_facts(2)[symmetric] list.set_map[symmetric] sorted_list_of_set_sort_remdups
    by (simp only: distinct_remdups_id[OF eligible_facts(1)])
  have "rotate_loop ?res ?b 0 chosen after order = (sel, cursor)"
    using assms(1) unfolding discovery_selection_def Let_def ne chosen_def order .
  moreover have "length chosen + ?res \<le> ?b + 0" "length chosen \<le> ?b" using c(3) res by linarith+
  ultimately obtain k where k: "k \<le> length order"
      "fst ` set sel = fst ` set chosen \<union> set (take k order)" "distinct (map fst sel)" "length sel \<le> ?b"
      "cursor = (if k = 0 then after else Some (order ! (k - 1)))" "k = length order \<or> length sel = ?b \<and> ?res \<le> 0 + k"
    using rotate_loop_spec[OF c(1)] by blast
  then show ?thesis using c(2) by (intro exI[of _ k]) (auto dest: in_set_takeD)
qed

lemma set_rotation_order [simp]: "set (rotation_order after ids) = set ids"
  by (auto simp: rotation_order_def split: option.splits)

lemma distinct_rotation_order: "distinct ids \<Longrightarrow> distinct (rotation_order after ids)"
  by (auto simp: rotation_order_def split: option.splits)

lemma same_keys: "map fst d = map fst d' \<Longrightarrow> fst ` set d = fst ` set d'"
  by (metis list.set_map)

text \<open>The steps after the rotation change the evidence of the selection only.\<close>

lemma renominate_keys: "(\<And>k. k \<in> fst ` set sel \<Longrightarrow> k \<in> eligible_ids i) \<Longrightarrow> map fst (renominate i (eligible_candidates i) sel) = map fst sel"
proof -
  assume E: "\<And>k. k \<in> fst ` set sel \<Longrightarrow> k \<in> eligible_ids i"
  have one: "map fst (foldl (\<lambda>d n. add_nomination n d) d ns) = map fst d" if "\<And>n. n \<in> set ns \<Longrightarrow> nm_instrument n \<in> fst ` set d" for d ns
    using that
  proof (induction ns arbitrary: d)
    case (Cons n ns)
    have k: "map fst (add_nomination n d) = map fst d" using add_keys[of n d] Cons.prems[of n] by simp
    then have "nm_instrument m \<in> fst ` set (add_nomination n d)" if "m \<in> set ns" for m
      using Cons.prems[of m] that same_keys[OF k] by simp
    then show ?case using Cons.IH[of "add_nomination n d"] k by simp
  qed simp
  have step: "map fst (case map_of (eligible_candidates i) k of None \<Rightarrow> d
      | Some c \<Rightarrow> foldl (\<lambda>d n. add_nomination n d) d (read_nominations i c)) = map fst d" if "k \<in> fst ` set d" for k d
  proof (cases "map_of (eligible_candidates i) k")
    case (Some c)
    then have "gc_instrument c = k" using eligible_facts(3) map_of_SomeD by metis
    then show ?thesis using one[of "read_nominations i c" d] nominated_instrument that Some by simp
  qed simp
  have "map fst (foldl (\<lambda>d k. case map_of (eligible_candidates i) k of None \<Rightarrow> d
      | Some c \<Rightarrow> foldl (\<lambda>d n. add_nomination n d) d (read_nominations i c)) d ks) = map fst d"
    if "set ks \<subseteq> fst ` set d" for d ks
    using that
  proof (induction ks arbitrary: d)
    case (Cons k ks)
    let ?d = "case map_of (eligible_candidates i) k of None \<Rightarrow> d
      | Some c \<Rightarrow> foldl (\<lambda>d n. add_nomination n d) d (read_nominations i c)"
    have d: "map fst ?d = map fst d" using step Cons.prems by simp
    then have "fst ` set ?d = fst ` set d" by (rule same_keys)
    then show ?case using Cons.IH[of ?d] Cons.prems d by simp
  qed simp
  then show ?thesis unfolding renominate_def by simp
qed

lemma add_rest_keys:
  assumes "distinct (map fst sel)" and "distinct (map fst el)"
  shows "distinct (map fst (add_rest el sel)) \<and> fst ` set (add_rest el sel) = fst ` set sel \<union> fst ` set el"
  using assms unfolding add_rest_def
proof (induction el arbitrary: sel)
  case (Cons kc el)
  let ?s = "if fst kc \<in> fst ` set sel then sel else dset (fst kc) [] sel"
  have m: "map fst ?s = (if fst kc \<in> fst ` set sel then map fst sel else map fst sel @ [fst kc])" by (simp add: keys_dset_cases)
  then have "distinct (map fst ?s)" using Cons.prems(1) by auto
  moreover have "fst ` set ?s = insert (fst kc) (fst ` set sel)" using arg_cong[OF m, of set] by auto
  ultimately show ?case using Cons.IH[of ?s] Cons.prems(2) by simp
qed simp

text \<open>The instruments of a discovery are the keys of its selection.\<close>

lemma discover_instruments:
  assumes "discovery_selection i after = (sel, cursor)" and "discover i after = (cs, sel', cursor')"
  shows "map gc_instrument cs = map fst (if di_full i then add_rest (eligible_candidates i) sel else sel) \<and> cursor' = cursor \<and>
    (\<forall>c \<in> set cs. c \<in> set (di_candidates i) \<and> gc_acquirable c \<and> gc_instrument c \<notin> di_exclude i)"
proof -
  let ?el = "eligible_candidates i"
  let ?sel = "if di_full i then add_rest ?el sel else sel"
  obtain k where k: "fst ` set sel \<subseteq> eligible_ids i" "distinct (map fst sel)"
    using selection_spec[OF assms(1)] by (auto simp: sorted_list_of_set.set_sorted_key_list_of_set)
  have E: "fst ` set ?sel \<subseteq> eligible_ids i"
    using k(1) add_rest_keys[OF k(2) eligible_facts(1)] eligible_facts(2) by auto
  have keys: "map fst (renominate i ?el ?sel) = map fst ?sel" by (rule renominate_keys) (use E in blast)
  have "discover i after = (List.map_filter (\<lambda>k. map_of ?el k) (map fst (renominate i ?el ?sel)), renominate i ?el ?sel, cursor)"
    using assms(1) by (simp add: discover_def Let_def)
  then have cs: "cs = List.map_filter (\<lambda>k. map_of ?el k) (map fst ?sel)" and cur: "cursor' = cursor"
    using assms(2) unfolding keys by simp_all
  have inst: "map gc_instrument (List.map_filter (\<lambda>k. map_of ?el k) ks) = ks" if "set ks \<subseteq> eligible_ids i" for ks
    using that
  proof (induction ks)
    case (Cons k ks)
    then obtain c where "map_of ?el k = Some c" using eligible_facts(2)[of i] by (metis list.set_intros(1) map_of_eq_None_iff not_Some_eq subsetD)
    moreover from this have "gc_instrument c = k" using eligible_facts(3) map_of_SomeD by metis
    ultimately show ?case using Cons by (simp add: List.map_filter_def)
  qed (simp add: List.map_filter_def)
  have member: "c \<in> set (di_candidates i) \<and> gc_acquirable c \<and> gc_instrument c \<notin> di_exclude i" if "(k, c) \<in> set ?el" for k c
    using that eligible_members by blast
  have "c \<in> set (di_candidates i) \<and> gc_acquirable c \<and> gc_instrument c \<notin> di_exclude i" if c: "c \<in> set cs" for c
  proof -
    obtain k where "map_of ?el k = Some c" using c unfolding cs by (auto simp: List.map_filter_def split: option.splits)
    then show ?thesis using member map_of_SomeD by metis
  qed
  moreover have "map gc_instrument cs = map fst ?sel" unfolding cs by (rule inst) (use E in simp)
  ultimately show ?thesis using cur by blast
qed

text \<open>C23: Discovery fills its budget exactly: it selects distinct acquirable candidates outside the excluded ones, as
  many as the budget or all of them if there are fewer; in a full-universe cycle it selects every one of
  them, whatever the budget.\<close>

theorem discovery_fills_budget:
  assumes "discover i after = (cs, nominations, cursor)"
  shows "distinct (map gc_instrument cs) \<and>
    (\<forall>c \<in> set cs. c \<in> set (di_candidates i) \<and> gc_acquirable c \<and> gc_instrument c \<notin> di_exclude i) \<and>
    (if di_full i then gc_instrument ` set cs = eligible_ids i else length cs = min (di_budget i) (card (eligible_ids i)))"
proof -
  let ?E = "eligible_ids i"
  obtain sel cur where sel: "discovery_selection i after = (sel, cur)" by (cases "discovery_selection i after")
  note inst = discover_instruments[OF sel assms]
  obtain k where k: "set (take k (rotation_order after (sorted_list_of_set ?E))) \<subseteq> fst ` set sel" "fst ` set sel \<subseteq> ?E"
      "distinct (map fst sel)" "length sel \<le> di_budget i"
      "k = length (rotation_order after (sorted_list_of_set ?E)) \<or> length sel = di_budget i"
    using selection_spec[OF sel] by auto
  have le: "length sel \<le> card ?E"
    using card_mono[OF finite_eligible k(2)] distinct_card[OF k(3)] by simp
  have "length sel = min (di_budget i) (card ?E)"
  proof (cases "length sel = di_budget i")
    case False
    then have "?E \<subseteq> fst ` set sel" using k(1,5) by simp
    then have "card ?E \<le> length sel" using card_mono[of "fst ` set sel" ?E] distinct_card[OF k(3)] by simp
    then show ?thesis using le k(4) by simp
  qed (use le in simp)
  moreover have part: "length cs = length sel" if "\<not> di_full i"
  proof -
    have "map gc_instrument cs = map fst sel" using inst that by simp
    then show ?thesis by (rule map_eq_imp_length_eq)
  qed
  moreover have d: "distinct (map gc_instrument cs)"
    using inst k(3) add_rest_keys[OF k(3) eligible_facts(1)] by (cases "di_full i") simp_all
  moreover have full: "gc_instrument ` set cs = ?E" if "di_full i"
  proof -
    have "map gc_instrument cs = map fst (add_rest (eligible_candidates i) sel)" using inst that by simp
    then have "gc_instrument ` set cs = fst ` set (add_rest (eligible_candidates i) sel)" by (metis list.set_map)
    also have "\<dots> = fst ` set sel \<union> ?E" using add_rest_keys[OF k(3) eligible_facts(1)] eligible_facts(2) by simp
    finally show ?thesis using k(2) by blast
  qed
  moreover have "\<forall>c \<in> set cs. c \<in> set (di_candidates i) \<and> gc_acquirable c \<and> gc_instrument c \<notin> di_exclude i"
    using inst by blast
  ultimately show ?thesis by (intro conjI) simp_all
qed

section \<open>Rotation reaches everyone\<close>

text \<open>Where an instrument stands behind the cursor: those above it first, then the others.\<close>

definition turn :: "'a::linorder option \<Rightarrow> 'a \<Rightarrow> bool \<times> 'a" where
  "turn after k = (case after of None \<Rightarrow> False | Some a \<Rightarrow> k \<le> a, k)"

definition waiting_before :: "'a::linorder set \<Rightarrow> 'a option \<Rightarrow> 'a \<Rightarrow> 'a set" where
  "waiting_before E after x = {y \<in> E. turn after y < turn after x}"

lemma turn_less [simp]: "turn after x < turn after y \<longleftrightarrow>
    (case after of None \<Rightarrow> x < y | Some a \<Rightarrow> (a < x \<and> y \<le> a) \<or> (a < x \<longleftrightarrow> a < y) \<and> x < y)"
  by (cases after) (auto simp: turn_def less_prod_def)

lemma turns_sorted:
  assumes "sorted ids" and "distinct ids"
  shows "sorted_wrt (\<lambda>x y. turn after x < turn after y) (rotation_order after ids)"
proof -
  have lt: "sorted_wrt (<) ids" using assms by (simp add: strict_sorted_iff)
  have f: "sorted_wrt (<) (filter P ids)" for P by (rule sorted_wrt_filter[OF lt])
  show ?thesis
  proof (cases after)
    case None
    then show ?thesis using lt by (simp add: rotation_order_def)
  next
    case (Some a)
    have "sorted_wrt (\<lambda>x y. turn after x < turn after y) (filter (\<lambda>k. a < k) ids)"
      by (rule sorted_wrt_mono_rel[OF _ f]) (simp add: Some)
    moreover have "sorted_wrt (\<lambda>x y. turn after x < turn after y) (filter (\<lambda>k. k \<le> a) ids)"
      by (rule sorted_wrt_mono_rel[OF _ f]) (auto simp: Some)
    ultimately show ?thesis by (simp add: rotation_order_def sorted_wrt_append Some)
  qed
qed

lemma turn_after_visit:
  assumes "turn after c < turn after x" and "turn (Some c) y < turn (Some c) x"
  shows "turn after c < turn after y \<and> turn after y < turn after x"
  using assms by (cases after) auto

lemma cycle_progress:
  assumes d: "discover i after = (cs, nominations, cursor)" and b: "0 < b" "b \<le> di_budget i"
    and x: "x \<in> eligible_ids i" "x \<notin> gc_instrument ` set cs" and E': "E' \<subseteq> eligible_ids i"
  shows "card (waiting_before E' cursor x) + max 1 (b div 4) \<le> card (waiting_before (eligible_ids i) after x)"
proof -
  let ?E = "eligible_ids i"
  define order where "order = rotation_order after (sorted_list_of_set ?E)"
  obtain sel cur where sel: "discovery_selection i after = (sel, cur)" by (cases "discovery_selection i after")
  obtain k where k: "set (take k order) \<subseteq> fst ` set sel" "distinct (map fst sel)" "cur = (if k = 0 then after else Some (order ! (k - 1)))"
      "k = length order \<or> reserve (di_budget i) (?E \<noteq> {}) \<le> k"
    using selection_spec[OF sel] unfolding order_def by blast
  have "map gc_instrument cs = map fst (if di_full i then add_rest (eligible_candidates i) sel else sel)" and cur: "cursor = cur"
    using discover_instruments[OF sel d] by simp_all
  then have "gc_instrument ` set cs = fst ` set (if di_full i then add_rest (eligible_candidates i) sel else sel)"
    by (metis list.set_map)
  then have "fst ` set sel \<subseteq> gc_instrument ` set cs"
    using add_rest_keys[OF k(2) eligible_facts(1)] by simp
  then have unvisited: "x \<notin> set (take k order)" using k(1) x(2) by blast
  have x_in: "x \<in> set order" using x(1) by (simp add: order_def)
  have s: "sorted_wrt (\<lambda>x y. turn after x < turn after y) order" unfolding order_def by (rule turns_sorted) simp_all
  have split: "order = take k order @ drop k order" by simp
  have later: "turn after y < turn after z" if "y \<in> set (take k order)" "z \<in> set (drop k order)" for y z
    using s that unfolding sorted_wrt_append[of _ "take k order" "drop k order", simplified] by blast
  have xd: "x \<in> set (drop k order)" using x_in unvisited by (metis Un_iff append_take_drop_id set_append)
  then have "k < length order" by (metis drop_all empty_iff empty_set not_less)
  moreover have "max 1 (b div 4) \<le> reserve (di_budget i) (?E \<noteq> {})" using b x(1) by (auto simp: reserve_def div_le_mono)
  ultimately have res: "max 1 (b div 4) \<le> k" and k0: "0 < k" "k < length order" using k(4) by auto
  define c where "c = order ! (k - 1)"
  have cursor: "cursor = Some c" using cur k(3) k0 by (simp add: c_def)
  have c_in: "c \<in> set (take k order)" using k0 by (auto simp: c_def in_set_conv_nth intro!: exI[of _ "k - 1"])
  let ?V = "set (take k order)"
  have V: "?V \<subseteq> waiting_before ?E after x"
    using later xd set_take_subset[of k order] by (auto simp: waiting_before_def order_def)
  have last: "\<not> turn after c < turn after y" if y: "y \<in> ?V" for y
  proof -
    obtain m where m: "m < k" "y = order ! m" using y k0 by (auto simp: in_set_conv_nth)
    show ?thesis
    proof (cases "m = k - 1")
      case False
      then have "turn after y < turn after c" using sorted_wrt_nth_less[OF s, of m "k - 1"] m k0 by (simp add: c_def)
      then show ?thesis by (rule less_not_sym)
    qed (use m in \<open>simp add: c_def\<close>)
  qed
  have "waiting_before E' cursor x \<subseteq> waiting_before ?E after x - ?V"
  proof
    fix y assume "y \<in> waiting_before E' cursor x"
    then have y: "y \<in> E'" "turn (Some c) y < turn (Some c) x" by (simp_all add: waiting_before_def cursor)
    have "turn after c < turn after y \<and> turn after y < turn after x"
      by (rule turn_after_visit[OF later[OF c_in xd] y(2)])
    then show "y \<in> waiting_before ?E after x - ?V" using y(1) E' last by (auto simp only: waiting_before_def)
  qed
  moreover have fin: "finite (waiting_before ?E after x)" unfolding waiting_before_def by simp
  ultimately have "card (waiting_before E' cursor x) \<le> card (waiting_before ?E after x - ?V)" by (simp add: card_mono)
  also have "\<dots> = card (waiting_before ?E after x) - k"
  proof -
    have "distinct order" unfolding order_def by (rule distinct_rotation_order) simp
    then have "card ?V = k" using k0 by (simp add: distinct_card)
    then show ?thesis using V by (simp add: card_Diff_subset)
  qed
  finally have "card (waiting_before E' cursor x) \<le> card (waiting_before ?E after x) - k" .
  moreover have "k \<le> card (waiting_before ?E after x)"
  proof -
    have "distinct order" unfolding order_def by (rule distinct_rotation_order) simp
    then have "card ?V = k" using k0 by (simp add: distinct_card)
    then show ?thesis using card_mono[OF fin V] by simp
  qed
  ultimately show ?thesis using res by linarith
qed

text \<open>Consecutive cycles: the cursor of one is the start of the next; the instruments they select together.\<close>

fun discovery_cycles :: "discovery_input list \<Rightarrow> string option \<Rightarrow> string set" where
  "discovery_cycles [] after = {}"
| "discovery_cycles (i # is) after =
     (let (cs, nominations, cursor) = discover i after in gc_instrument ` set cs \<union> discovery_cycles is cursor)"

lemma unvisited_waits:
  assumes "0 < b" and "is \<noteq> []" and "\<forall>i \<in> set is. b \<le> di_budget i \<and> x \<in> eligible_ids i"
    and "sorted_wrt (\<lambda>i j. eligible_ids j \<subseteq> eligible_ids i) is" and "x \<notin> discovery_cycles is after"
  shows "length is * max 1 (b div 4) \<le> card (waiting_before (eligible_ids (hd is)) after x)"
  using assms(2-)
proof (induction "is" arbitrary: after)
  case (Cons i "is")
  obtain cs noms cursor where d: "discover i after = (cs, noms, cursor)" by (cases "discover i after")
  have x: "x \<notin> gc_instrument ` set cs" "x \<notin> discovery_cycles is cursor" using Cons.prems(4) d by simp_all
  have i: "b \<le> di_budget i" "x \<in> eligible_ids i" using Cons.prems(2) by simp_all
  note progress = cycle_progress[OF d assms(1) i(1) i(2) x(1)]
  show ?case
  proof (cases "is = []")
    case True
    have "max 1 (b div 4) \<le> card (waiting_before (eligible_ids i) after x)" using progress[OF empty_subsetI] by linarith
    then show ?thesis using True by simp
  next
    case False
    then have "eligible_ids (hd is) \<subseteq> eligible_ids i" using Cons.prems(3) by (cases "is") auto
    from progress[OF this] have "card (waiting_before (eligible_ids (hd is)) cursor x) + max 1 (b div 4)
      \<le> card (waiting_before (eligible_ids i) after x)" .
    moreover have "length is * max 1 (b div 4) \<le> card (waiting_before (eligible_ids (hd is)) cursor x)"
      by (rule Cons.IH[OF False _ _ x(2)]) (use Cons.prems(2,3) in simp_all)
    ultimately show ?thesis by simp
  qed
qed simp

text \<open>C20: No candidate is starved: whatever the scores, the events and the market pool favour, a candidate that stays
  eligible while no others join is selected within as many cycles as it takes to go once round the universe
  at a quarter of the budget (at least one) per cycle.\<close>

theorem rotation_reaches_everyone:
  assumes "0 < b" and "\<forall>i \<in> set is. b \<le> di_budget i \<and> x \<in> eligible_ids i"
    and "sorted_wrt (\<lambda>i j. eligible_ids j \<subseteq> eligible_ids i) is" and "is \<noteq> []"
    and "card (eligible_ids (hd is)) \<le> length is * max 1 (b div 4)"
  shows "x \<in> discovery_cycles is after"
proof (rule ccontr)
  assume "x \<notin> discovery_cycles is after"
  from unvisited_waits[OF assms(1,4,2,3) this]
  have "length is * max 1 (b div 4) \<le> card (waiting_before (eligible_ids (hd is)) after x)" .
  moreover have "waiting_before (eligible_ids (hd is)) after x \<subset> eligible_ids (hd is)"
  proof
    have "hd is \<in> set is" using assms(4) by simp
    then have "x \<in> eligible_ids (hd is)" using assms(2) by blast
    moreover have "x \<notin> waiting_before (eligible_ids (hd is)) after x" unfolding waiting_before_def by blast
    ultimately show "waiting_before (eligible_ids (hd is)) after x \<noteq> eligible_ids (hd is)" by metis
  qed (auto simp: waiting_before_def)
  then have "card (waiting_before (eligible_ids (hd is)) after x) < card (eligible_ids (hd is))" by (rule psubset_card_mono[OF finite_eligible])
  ultimately show False using assms(5) by linarith
qed

section \<open>A concrete universe\<close>

definition sample_candidates :: "scan_candidate list" where
  "sample_candidates = map (\<lambda>k. \<lparr>gc_instrument = k, gc_acquirable = True, gc_pre_score = None, gc_growth = None\<rparr>) [''A'', ''B'', ''C'']"

definition sample_discovery :: discovery_input where
  "sample_discovery = \<lparr>di_candidates = sample_candidates, di_market = {''A''}, di_budget = 1, di_as_of = 0, di_events = (\<lambda>_. None),
     di_exclude = {}, di_full = False\<rparr>"

lemma sample_eligible: "eligible_ids sample_discovery = {''A'', ''B'', ''C''}"
  by (simp add: eligible_facts(2)[symmetric] eligible_candidates_def sample_discovery_def sample_candidates_def)

lemma discovery_fills_budget_witness: "\<exists>cs noms cursor. discover sample_discovery None = (cs, noms, cursor) \<and> length cs = 1"
proof -
  obtain cs noms cursor where d: "discover sample_discovery None = (cs, noms, cursor)" by (cases "discover sample_discovery None")
  have i: "\<not> di_full sample_discovery" "di_budget sample_discovery = 1" by (simp_all add: sample_discovery_def)
  have "length cs = min 1 (card (eligible_ids sample_discovery))" using discovery_fills_budget[OF d] i by simp
  then show ?thesis using d by (simp add: sample_eligible)
qed

lemma rotation_reaches_everyone_witness:
  "''C'' \<in> discovery_cycles [sample_discovery, sample_discovery, sample_discovery] (Some ''B'')"
  by (rule rotation_reaches_everyone[of 1]) (simp_all add: sample_eligible, simp add: sample_discovery_def)

end
