(* ===== verification/Production.thy ===== *)
theory Production
  imports Pipeline Discovery
begin

text \<open>
  One production cycle from the evidence of the instruments to the published radar: the result of the
  rule engine (\<open>StockRuleEngineV1.evaluate\<close>), the ranking of every analysed candidate
  (\<open>GlobalOpportunityOrchestrator.run\<close>, its last part), the snapshots of deferred reviews and the
  preparation (\<open>run_global_opportunity_cycle\<close>).
\<close>

section \<open>The cycle\<close>

definition rule_of ::
    "(rat \<Rightarrow> rat \<Rightarrow> rat) \<Rightarrow> (string \<Rightarrow> bool) \<Rightarrow> bool \<Rightarrow> stock_input \<Rightarrow> rule_result option" where
  "rule_of fpow disclosure allow_partial v =
     Option.bind (stock_areas fpow disclosure v) (\<lambda>areas. map_option
       (\<lambda>r. \<lparr>ru_instrument = si_instrument v, ru_version = ''STOCK_RULE_ENGINE_V1'', ru_areas = areas,
          ru_overrides = risk_overrides (si_events v) (si_features v) (si_facts v) (si_records v)
            (is_financial (si_metadata v) (si_records v)) (si_now v),
          ru_result = r\<rparr>) (evaluate_input fpow disclosure v allow_partial))"

text \<open>
  The live recommendations that this cycle did not analyse, the longest unrevised first.
  \<open>evidence_of\<close> is the evidence stored with a recommendation.
\<close>

definition review_snapshots ::
    "(string \<Rightarrow> string) \<Rightarrow> (string \<Rightarrow> evidence_state) \<Rightarrow> (string \<rightharpoonup> technical_snapshot) \<Rightarrow> radar_store \<Rightarrow> string list \<Rightarrow>
     opportunity_snapshot list" where
  "review_snapshots uuid evidence_of observed store analysed =
     List.map_filter (\<lambda>(k, s).
         if k \<in> set analysed \<or> \<not> active_recommendation s then None
         else (case histories store (ss_latest s) of
             None \<Rightarrow> None
           | Some q \<Rightarrow> Some (review_snapshot uuid k (evidence_of (rc_id q)) (observed k))))
       (sort_key (\<lambda>(k, s). (ss_updated s, k)) (st_states store))"

definition cycle_snapshots ::
    "(string \<Rightarrow> string) \<Rightarrow> (string \<Rightarrow> evidence_state) \<Rightarrow> (string \<rightharpoonup> technical_snapshot) \<Rightarrow> (string \<rightharpoonup> rule_result) \<Rightarrow>
     (string \<rightharpoonup> public_analyst) \<Rightarrow> (string \<rightharpoonup> technical_snapshot) \<Rightarrow> radar_store \<Rightarrow> bool \<Rightarrow> opportunity list \<Rightarrow>
     opportunity_snapshot list" where
  "cycle_snapshots uuid evidence_of technical rules analysts observed store controlled ranked =
     (let snapshots = ranked_snapshots uuid technical rules analysts ranked
      in snapshots @ (if controlled then []
           else review_snapshots uuid evidence_of observed store (map sn_instrument snapshots)))"

datatype cycle_error = Ranking_Failed ranker_error | Universe_Unavailable | Preparation_Failed

text \<open>
  \<open>technical\<close> and \<open>rules\<close> are what was found for the analysed candidates \<open>cands\<close>, \<open>observed\<close> the price
  evidence of deferred reviews.  The snapshots are read back in the order of their instruments.
\<close>

definition run_cycle ::
    "(fingerprint_content \<Rightarrow> string) \<Rightarrow> review_digest \<Rightarrow> (string \<Rightarrow> string) \<Rightarrow> (nat \<Rightarrow> string) \<Rightarrow> (string \<Rightarrow> evidence_state) \<Rightarrow>
     (string \<rightharpoonup> technical_snapshot) \<Rightarrow> (string \<rightharpoonup> rule_result) \<Rightarrow> (string \<rightharpoonup> public_analyst) \<Rightarrow> (string \<rightharpoonup> technical_snapshot) \<Rightarrow>
     radar_store \<Rightarrow> time \<Rightarrow> nat \<Rightarrow> bool \<Rightarrow> stage_b_candidate list \<Rightarrow>
     cycle_error + stock_recommendation list \<times> stored_state list \<times> selection" where
  "run_cycle digest digest2 uuid uuid2 evidence_of technical rules analysts observed store now universe controlled cands =
     (case rank_candidates rules cands of
        Inl e \<Rightarrow> Inl (Ranking_Failed e)
      | Inr ranked \<Rightarrow>
          if \<not> controlled \<and> universe = 0 then Inl Universe_Unavailable
          else (case prepare_cycle digest digest2 uuid2 store now
                  (sort_key sn_instrument (cycle_snapshots uuid evidence_of technical rules analysts observed store controlled ranked)) of
              None \<Rightarrow> Inl Preparation_Failed
            | Some result \<Rightarrow> Inr result))"

section \<open>What is blocked is not bought\<close>

lemma ranked_snapshot_member:
  assumes "s \<in> set (ranked_snapshots uuid technical rules analysts ranked)"
  obtains o1 ru where "o1 \<in> set ranked" and "go_instrument o1 = sn_instrument s" and "rules (sn_instrument s) = Some ru"
    and "sn_rank_eligible s = go_eligible o1" and "sn_score s = go_score o1"
proof -
  obtain o1 where o1: "o1 \<in> set ranked" and s: "(case (technical (go_instrument o1), rules (go_instrument o1)) of
      (Some t, Some ru) \<Rightarrow> Some (entry_snapshot uuid t ru (analysts (go_instrument o1)) o1) | _ \<Rightarrow> None) = Some s"
    using assms unfolding ranked_snapshots_def set_map_filter by blast
  then obtain t ru where "rules (go_instrument o1) = Some ru" "s = entry_snapshot uuid t ru (analysts (go_instrument o1)) o1"
    by (cases "technical (go_instrument o1)"; cases "rules (go_instrument o1)") auto
  then show thesis using that[of o1 ru] o1 by (simp add: entry_snapshot_def)
qed

lemma review_not_eligible: "s \<in> set (review_snapshots uuid evidence_of observed store analysed) \<Longrightarrow> \<not> sn_rank_eligible s"
  by (auto simp: review_snapshots_def set_map_filter review_snapshot_def Let_def split: if_splits option.splits)

lemma ranked_member:
  assumes "rank_candidates rules cands = Inr ranked" and "o1 \<in> set ranked"
  shows "\<exists>cand \<in> set cands. rank_score cand (rules (go_instrument o1)) = Inr o1"
proof -
  obtain rs where rs: "score_all rules [] cands = Inr rs" "set ranked = set rs"
    using assms(1) by (auto simp: rank_candidates_def split: sum.splits)
  then have l: "list_all2 (\<lambda>c r. rank_score c (rules (sb_instrument c)) = Inr r) cands rs" by (simp add: score_all_Inr)
  have "o1 \<in> set rs" using assms(2) rs(2) by simp
  with l have "\<exists>cand \<in> set cands. rank_score cand (rules (sb_instrument cand)) = Inr o1"
    by (induction rule: list_all2_induct) auto
  then show ?thesis using rank_score_instrument by metis
qed

text \<open>A candidate with a blocking or critical override has no card in a buying section.\<close>

lemma blocked_never_bought:
  assumes run: "run_cycle digest digest2 uuid uuid2 evidence_of technical rules analysts observed store now universe controlled cands =
      Inr (recs, states, sel)"
    and bought: "c \<in> set (sl_short sel) \<union> set (sl_long sel) \<or> sl_best sel = Some c"
    and ov: "\<And>ru. rules k = Some ru \<Longrightarrow> \<exists>ov \<in> set (ru_overrides ru). ov_block_buy ov \<or> ov_severity ov = SEV_CRITICAL"
  shows "sn_instrument (cd_snapshot c) \<noteq> k"
proof
  assume k: "sn_instrument (cd_snapshot c) = k"
  obtain ranked where ranked: "rank_candidates rules cands = Inr ranked"
      and p: "prepare_cycle digest digest2 uuid2 store now
        (sort_key sn_instrument (cycle_snapshots uuid evidence_of technical rules analysts observed store controlled ranked)) =
        Some (recs, states, sel)"
    using run by (auto simp: run_cycle_def split: sum.splits if_splits option.splits)
  have b: "cd_snapshot c \<in> set (cycle_snapshots uuid evidence_of technical rules analysts observed store controlled ranked)"
      "sn_rank_eligible (cd_snapshot c)"
    using radar_buy_facts[OF p bought] by simp_all
  then have "cd_snapshot c \<in> set (ranked_snapshots uuid technical rules analysts ranked)"
    using review_not_eligible by (auto simp: cycle_snapshots_def Let_def split: if_splits)
  then obtain o1 ru where o1: "o1 \<in> set ranked" "go_instrument o1 = k" "rules k = Some ru" "go_eligible o1"
    using b(2) k by (metis ranked_snapshot_member)
  then obtain cand where "rank_score cand (Some ru) = Inr o1" using ranked_member[OF ranked] by metis
  then show False using ov[OF o1(3)] blocked_not_eligible o1(4) by blast
qed

lemma rule_of_fields:
  assumes "rule_of fpow disclosure allow_partial v = Some ru"
  shows "ru_instrument ru = si_instrument v" and "ru_version ru = ''STOCK_RULE_ENGINE_V1''"
    and "stock_areas fpow disclosure v = Some (ru_areas ru)"
    and "evaluate_input fpow disclosure v allow_partial = Some (ru_result ru)"
    and "ru_overrides ru = risk_overrides (si_events v) (si_features v) (si_facts v) (si_records v)
      (is_financial (si_metadata v) (si_records v)) (si_now v)"
  using assms by (auto simp: rule_of_def bind_eq_Some_conv)

lemma fraud_blocks:
  assumes "rule_of fpow disclosure allow_partial v = Some ru" and "e \<in> set (si_events v)" and "confirmed_fraud e"
  shows "\<exists>ov \<in> set (ru_overrides ru). ov_block_buy ov \<or> ov_severity ov = SEV_CRITICAL"
  using fraud_in_overrides[OF assms(2,3)] risk_override_shape unfolding rule_of_fields(5)[OF assms(1)] by blast

section \<open>The ranker accepts what the engine produces\<close>

lemma area_kept: "ar_area (finish rd a ms missing app) = a" "ar_area (empty_area a st b xs ys) = a"
    "ar_area (ready_without_score rd base evidence) = ar_area base"
  by (simp_all add: finish_def empty_area_def ready_without_score_def Let_def split: option.split)


lemma completed_check_kept: "completed_check_area rd ar prefix = Some r \<Longrightarrow> ar_area r = ar"
  by (auto simp: completed_check_area_def Let_def area_kept split: if_splits)

lemma simple_areas_kept:
  "ar_area (valuation_area rd facts records prices financial now) = VALUATION"
  "ar_area (quality_area rd facts records financial) = FUNDAMENTAL_BUSINESS_QUALITY"
  "ar_area (growth_area fpow rd facts) = GROWTH"
  "ar_area (quarterly_area rd facts) = QUARTERLY_EARNINGS_TREND"
  "ar_area (technical_area rd prices) = PRICE_TECHNICAL"
  "ar_area (shareholding_area rd india sh) = SHAREHOLDING"
  "ar_area (sector_macro_area rd i sector records events now) = SECTOR_MACRO"
  by (simp_all only: valuation_area_def quality_area_def growth_area_def quarterly_area_def technical_area_def
      shareholding_area_def sector_macro_area_def Let_def area_kept if_distrib[of ar_area] if_cancel)

lemma balance_kept: "balance_sheet_area rd facts records md = Some r \<Longrightarrow> ar_area r = BALANCE_SHEET"
  unfolding balance_sheet_area_def Let_def
  by (cases "find (\<lambda>r. rr_id r = ''BALANCE_SHEET_FACTS'') (rd_requirements rd)")
    (simp_all only: option.case option.inject option.distinct, elim subst, rule area_kept)

lemma catalyst_kept: "ar_area (catalyst_area rd events) = ORDER_BOOK_CAPACITY_CATALYSTS"
  using completed_check_kept unfolding catalyst_area_def Let_def
  by (simp only: area_kept split: option.split if_split) blast

lemma governance_kept: "ar_area (governance_area disclosure rd events sh) = MANAGEMENT_GOVERNANCE"
  unfolding governance_area_def Let_def if_distrib[of ar_area] area_kept by (rule if_cancel)

lemma status_kept: "ar_area (r\<lparr>ar_status := x\<rparr>) = ar_area r"
  by simp

lemma case_cancel: "(case x of None \<Rightarrow> c | Some y \<Rightarrow> c) = c"
  by (cases x) simp_all

lemma news_kept: "ar_area (news_area rd sector events features search now) = NEWS_GEOPOLITICAL_EVENTS"
  unfolding news_area_def Let_def
  by (simp only: option.case_distrib[of ar_area] if_distrib[of ar_area] area_kept status_kept if_cancel case_cancel)

lemma stock_areas_kept:
  assumes "stock_areas fpow disclosure v = Some areas"
  shows "map ar_area areas = [VALUATION, FUNDAMENTAL_BUSINESS_QUALITY, GROWTH, BALANCE_SHEET, QUARTERLY_EARNINGS_TREND,
    ORDER_BOOK_CAPACITY_CATALYSTS, PRICE_TECHNICAL, NEWS_GEOPOLITICAL_EVENTS, SHAREHOLDING, MANAGEMENT_GOVERNANCE, SECTOR_MACRO]"
proof -
  obtain b where b: "balance_sheet_area (si_readiness v) (si_facts v) (si_records v) (si_metadata v) = Some b"
    using assms unfolding stock_areas_def Let_def by blast
  show ?thesis
    using assms unfolding stock_areas_def Let_def b option.map option.inject
    by (elim subst) (simp only: list.map simple_areas_kept catalyst_kept governance_kept news_kept balance_kept[OF b])
qed

lemma areas_by_name_total:
  "distinct (map fst d @ map (\<lambda>a. area_name (ar_area a)) as) \<Longrightarrow> \<exists>areas. areas_by_name d as = Inr areas"
proof (induction d as rule: areas_by_name.induct)
  case (2 d a as)
  then show ?case by auto
qed simp

lemma distinct_area_names: "distinct (map ar_area as) \<Longrightarrow> distinct (map (\<lambda>a. area_name (ar_area a)) as)"
proof -
  assume d: "distinct (map ar_area as)"
  have "inj area_name"
    by (rule inj_on_inverseI[of _ "\<lambda>n. the (find (\<lambda>a. area_name a = n) ALL_AREAS)"]) (case_tac x; simp add: ALL_AREAS_def)
  then have "inj_on area_name (ar_area ` set as)" by (rule inj_on_subset) simp
  then show ?thesis using d by (simp add: distinct_map comp_inj_on[of ar_area, unfolded comp_def])
qed

definition raws_ok :: "(string \<times> area_result) list \<Rightarrow> bool" where
  "raws_ok areas \<longleftrightarrow> list_all (\<lambda>na. pred_option in_score_range (ar_raw (snd na))) areas"

lemma rank_area_total:
  assumes "raws_ok areas" and "in_score_range conf"
  shows "\<exists>st'. rank_area areas conf st nw = Inr st'"
proof (cases "map_of areas (fst nw)")
  case (Some a)
  then have "pred_option in_score_range (ar_raw a)"
    using assms(1) map_of_SomeD[OF Some] by (auto simp: raws_ok_def list_all_iff)
  then show ?thesis using Some assms(2)
    by (auto simp: rank_area_def Let_def add_value_Inr split: option.splits)
qed (simp add: rank_area_def)

lemma rank_areas_total: "raws_ok areas \<Longrightarrow> in_score_range conf \<Longrightarrow> \<exists>st'. rank_areas areas conf st ws = Inr st'"
proof (induction ws arbitrary: st)
  case (Cons nw ws)
  obtain st1 where "rank_area areas conf st nw = Inr st1" using rank_area_total[OF Cons.prems] by blast
  then show ?case using Cons by simp
qed simp

lemma rank_dimension_total:
  "pred_option in_score_range v \<Longrightarrow> in_score_range c \<Longrightarrow> \<exists>st'. rank_dimension n v c ok st = Inr st'"
  by (cases v) (auto simp: rank_dimension_def add_value_Inr)

text \<open>A candidate as the scanner builds it.\<close>

definition well_formed_candidate :: "stage_b_candidate \<Rightarrow> bool" where
  "well_formed_candidate cand \<longleftrightarrow> (let t = sb_technical cand; s = sb_sector cand in
     tv_instrument t = sb_instrument cand \<and> sv_instrument s = sb_instrument cand \<and> sb_version cand = ''GLOBAL_STAGE_B_V1'' \<and>
     sb_technical_score cand = tv_score t \<and> sb_sector_score cand = sv_score s \<and>
     pred_option in_score_range (tv_score t) \<and> pred_option in_score_range (sv_score s) \<and>
     in_score_range (tv_confidence t) \<and> in_score_range (sv_confidence s))"

lemma rank_dimensions_total:
  assumes "well_formed_candidate cand"
  shows "\<exists>st'. rank_dimensions cand st = Inr st'"
proof -
  let ?t = "sb_technical cand" and ?s = "sb_sector cand"
  have ok: "pred_option in_score_range (sb_technical_score cand)" "pred_option in_score_range (sb_sector_score cand)"
      "in_score_range (tv_confidence ?t)" "in_score_range (sv_confidence ?s)"
      "sb_technical_score cand = tv_score ?t" "sb_sector_score cand = sv_score ?s"
    using assms by (simp_all add: well_formed_candidate_def Let_def)
  define st1 where "st1 = st\<lparr>rs_gates := rs_gates st @ price_gates ?t ?s\<rparr>"
  obtain st2 where st2: "rank_dimension ''TECHNICAL'' (sb_technical_score cand) (tv_confidence ?t) (price_gates ?t ?s = []) st1 = Inr st2"
    using rank_dimension_total[OF ok(1,3)] by blast
  obtain st3 where "rank_dimension ''SECTOR'' (sb_sector_score cand) (sv_confidence ?s)
      (sv_state ?s \<noteq> ''INSUFFICIENT_DATA'' \<and> price_gates ?t ?s = []) st2 = Inr st3"
    using rank_dimension_total[OF ok(2,4)] by blast
  then show ?thesis using st2 ok(5,6) unfolding rank_dimensions_def st1_def[symmetric] Let_def by simp
qed

lemma check_optional_total: "pred_option in_score_range v \<Longrightarrow> check_optional v = Inr v"
  by (cases v) (auto simp: check_optional_def check_score_def in_score_range_def)

lemma score_in_range: "is_score x \<Longrightarrow> in_score_range x" "pred_option is_score v \<Longrightarrow> pred_option in_score_range v"
  using score_bounds by (auto simp: in_score_range_def intro: option.pred_mono_strong)

lemma engine_result_accepted:
  assumes ok: "input_ok v" and ru: "rule_of fpow disclosure allow_partial v = Some ru"
    and cand: "well_formed_candidate cand" "sb_instrument cand = si_instrument v"
  shows "\<exists>r. rank_score cand (Some ru) = Inr r \<and> go_rule_score r = sr_overall (ru_result ru) \<and> go_risk_score r = sr_risk (ru_result ru)"
proof -
  note f = rule_of_fields[OF ru]
  note scores = evaluated_scores_ok[OF ok f(3,4)]
  have c: "tv_instrument (sb_technical cand) = si_instrument v" "sv_instrument (sb_sector cand) = si_instrument v"
      "sb_version cand = ''GLOBAL_STAGE_B_V1''" "pred_option in_score_range (sb_technical_score cand)" "pred_option in_score_range (sb_sector_score cand)"
    using cand by (simp_all add: well_formed_candidate_def Let_def)
  have "distinct (map ar_area (ru_areas ru))" unfolding stock_areas_kept[OF f(3)] by simp
  then obtain areas where "areas_by_name [] (ru_areas ru) = Inr areas"
    using areas_by_name_total[of "[]" "ru_areas ru"] distinct_area_names by auto
  then have areas: "check_inputs cand (Some ru) = Inr (areas_of (Some ru))"
    using areas_by_name_Inr[of "[]"] c f(1,2) cand(2) by (simp add: check_inputs_def Let_def areas_of_def)
  have "pred_option in_score_range (ar_raw a)" if "a \<in> set (ru_areas ru)" for a
    using stock_areas_ok[OF ok f(3)] that score_bounds
    by (cases "ar_raw a") (auto simp: list_all_iff area_ok_def in_score_range_def is_score_def)
  then have raws: "raws_ok (areas_of (Some ru))" by (auto simp: raws_ok_def areas_of_def list_all_iff)
  have conf: "in_score_range (sr_confidence_score (ru_result ru))" using scores score_in_range by blast
  obtain st1 where st1: "rank_areas (areas_of (Some ru)) (sr_confidence_score (ru_result ru)) (initial_state (Some ru)) RANKER_WEIGHTS = Inr st1"
    using rank_areas_total[OF raws conf] by blast
  obtain st2 where st2: "rank_dimensions cand st1 = Inr st2" using rank_dimensions_total[OF cand(1)] by blast
  have st: "rank_scores cand (Some ru) = Inr st2" by (simp add: rank_scores_def areas st1 st2)
  have "check_optional (sr_overall (ru_result ru)) = Inr (sr_overall (ru_result ru))"
      "check_optional (sr_risk (ru_result ru)) = Inr (sr_risk (ru_result ru))"
    using scores score_in_range(2) check_optional_total by blast+
  then show ?thesis
    using check_optional_total[OF c(4)] check_optional_total[OF c(5)] by (simp add: rank_score_def st summarise_def Let_def)
qed

lemma unanalysed_accepted:
  assumes "well_formed_candidate cand"
  shows "\<exists>r. rank_score cand None = Inr r"
proof -
  have c: "tv_instrument (sb_technical cand) = sb_instrument cand" "sv_instrument (sb_sector cand) = sb_instrument cand"
      "sb_version cand = ''GLOBAL_STAGE_B_V1''" "pred_option in_score_range (sb_technical_score cand)" "pred_option in_score_range (sb_sector_score cand)"
    using assms by (simp_all add: well_formed_candidate_def Let_def)
  have areas: "check_inputs cand None = Inr []" using c by (simp add: check_inputs_def Let_def)
  obtain st1 where st1: "rank_areas [] 0 (initial_state None) RANKER_WEIGHTS = Inr st1"
    using rank_areas_total[of "[]" 0] by (auto simp: raws_ok_def in_score_range_def)
  obtain st2 where "rank_dimensions cand st1 = Inr st2" using rank_dimensions_total[OF assms] by blast
  then have "rank_scores cand None = Inr st2" by (simp add: rank_scores_def areas st1)
  then show ?thesis
    using check_optional_total[OF c(4)] check_optional_total[OF c(5)] by (simp add: rank_score_def check_optional_def)
qed

text \<open>The rule results of a cycle: of each analysed instrument the result of the engine on its input.\<close>

definition engine_rules :: "(rat \<Rightarrow> rat \<Rightarrow> rat) \<Rightarrow> (string \<Rightarrow> bool) \<Rightarrow> bool \<Rightarrow> (string \<rightharpoonup> stock_input) \<Rightarrow> string \<rightharpoonup> rule_result" where
  "engine_rules fpow disclosure allow_partial inputs k = Option.bind (inputs k) (rule_of fpow disclosure allow_partial)"

definition inputs_ok :: "(string \<rightharpoonup> stock_input) \<Rightarrow> bool" where
  "inputs_ok inputs \<longleftrightarrow> (\<forall>k v. inputs k = Some v \<longrightarrow> input_ok v \<and> si_instrument v = k)"

lemma candidate_accepted:
  assumes "inputs_ok inputs" and "well_formed_candidate cand"
  shows "\<exists>r. rank_score cand (engine_rules fpow disclosure allow_partial inputs (sb_instrument cand)) = Inr r"
proof (cases "engine_rules fpow disclosure allow_partial inputs (sb_instrument cand)")
  case (Some ru)
  then obtain v where "inputs (sb_instrument cand) = Some v" "rule_of fpow disclosure allow_partial v = Some ru"
    by (auto simp: engine_rules_def bind_eq_Some_conv)
  then show ?thesis using assms engine_result_accepted unfolding Some inputs_ok_def by metis
qed (use unanalysed_accepted[OF assms(2)] in simp)

lemma score_all_total:
  assumes "\<And>c. c \<in> set cands \<Longrightarrow> \<exists>r. rank_score c (rules (sb_instrument c)) = Inr r" and "distinct (map sb_instrument cands)"
  shows "\<exists>rs. score_all rules [] cands = Inr rs"
proof -
  have "\<exists>rs. list_all2 (\<lambda>c r. rank_score c (rules (sb_instrument c)) = Inr r) cands rs"
    using assms(1)
  proof (induction cands)
    case (Cons c cands)
    obtain r where r: "rank_score c (rules (sb_instrument c)) = Inr r" using Cons.prems[of c] by auto
    obtain rs where "list_all2 (\<lambda>c r. rank_score c (rules (sb_instrument c)) = Inr r) cands rs"
      using Cons.IH Cons.prems by auto
    then have "list_all2 (\<lambda>c r. rank_score c (rules (sb_instrument c)) = Inr r) (c # cands) (r # rs)" using r by simp
    then show ?case by blast
  qed (use list_all2_Nil in blast)
  then show ?thesis using assms(2) unfolding score_all_Inr by simp
qed

lemma cycle_prepared:
  assumes "rank_candidates rules cands = Inr ranked" and "controlled \<or> universe \<noteq> 0"
  shows "\<exists>recs states sel. run_cycle digest digest2 uuid uuid2 evidence_of technical rules analysts observed store now universe
    controlled cands = Inr (recs, states, sel)"
proof -
  have "\<exists>x. prepare_cycle digest digest2 uuid2 store now ss = Some x" for ss
    using select_cards_total[OF prepare_all_cards(1)] by (fastforce simp: prepare_cycle_def Let_def)
  then obtain x where x: "prepare_cycle digest digest2 uuid2 store now
      (sort_key sn_instrument (cycle_snapshots uuid evidence_of technical rules analysts observed store controlled ranked)) = Some x"
    by blast
  obtain recs states sel where "x = (recs, states, sel)" by (cases x)
  then show ?thesis using assms x by (simp add: run_cycle_def)
qed

section \<open>Reviews are not discoveries\<close>

text \<open>The live recommendations of the universe; discovery excludes them.\<close>

definition review_ids :: "radar_store \<Rightarrow> string set \<Rightarrow> string set" where
  "review_ids store universe = {k. k \<in> universe \<and> (\<exists>s. (k, s) \<in> set (st_states store) \<and> active_recommendation s)}"

text \<open>
  Whatever was recommended: an instrument with a stored state is not investigated again until both its
  horizons are closed, and its reviews are never eligible.
\<close>

lemma evaluated_is_not_investigated_again:
  assumes "(k, s) \<in> set (st_states store)" and "lf_short (ss_life s) \<noteq> EXIT_SHORT \<or> lf_long_state (ss_life s) \<noteq> INVALIDATED"
    and "k \<in> universe" and "discover (i\<lparr>di_exclude := review_ids store universe\<rparr>) after = (cs, noms, cursor)"
  shows "k \<notin> gc_instrument ` set cs"
proof -
  have "k \<in> review_ids store universe" using assms(1-3) by (auto simp: review_ids_def active_recommendation_def)
  moreover obtain sel cur where "discovery_selection (i\<lparr>di_exclude := review_ids store universe\<rparr>) after = (sel, cur)"
    by (metis surj_pair)
  ultimately show ?thesis using discover_instruments[OF _ assms(4)] by fastforce
qed

end
