(* ===== verification/Scanner.thy ===== *)
theory Scanner
  imports SectorStrength Production
begin

text \<open>
  The scanner of the canonical universe (\<open>app/global_scanner.py\<close>): the pre-score of an instrument from
  its stored evidence, the batched scan of a universe, and the enrichment of its candidates with technical
  and sector features.  The store is given by its rows.  A value of unknown type is given by what the code
  makes of it: \<open>_number(v)\<close> and the stripped text.  The duration constants are microseconds.
\<close>

section \<open>Instruments and evidence\<close>

record provider_mapping =
  pm_status :: "string option"
  pm_provider :: "string option"
  pm_instrument_id :: "string option"
  pm_symbol :: "string option"
  pm_resolution :: "string option"

record global_instrument =
  gi_currency :: "string option"
  gi_mappings :: "provider_mapping list"
  gi_ticker :: "string option"
  gi_primary_symbol :: "string option"
  gi_name :: "string option"
  gi_status :: "string option"
  gi_asset_type :: "string option"
  gi_exchange :: "string option"
  gi_region :: "string option"
  gi_country :: "string option"

record fact_value =
  fv_number :: "rat option"
  fv_text :: string
  fv_as_of :: "time option"
  fv_published :: "time option"
  fv_retrieved :: time

record market_snapshot =
  ms_instrument :: string
  ms_provider :: string
  ms_provider_instrument :: string
  ms_currency :: "string option"
  ms_retrieved :: time
  ms_as_of :: "time option"
  ms_facts :: "(string \<times> fact_value) list"

text \<open>\<open>period_end\<close>: absent, not a date, or the instant it denotes.\<close>

datatype period_end = NO_PERIOD | BAD_PERIOD | PERIOD time

record scan_fact =
  sk_instrument :: string
  sk_metric :: string
  sk_tier :: fact_source_tier
  sk_real :: bool
  sk_value :: fact_value
  sk_period_end :: period_end
  sk_basis :: "string option"
  sk_period_type :: string

datatype evidence_class = E_AVAILABLE | E_PARTIAL | E_STALE | E_MISSING | E_CONFLICTING | E_NOT_APPLICABLE

record score_dimension =
  dm_state :: evidence_class
  dm_score :: "rat option"
  dm_coverage :: rat

record global_candidate =
  gl_instrument :: string
  gl_facts :: global_instrument
  gl_history_symbol :: "string option"
  gl_symbol :: "string option"
  gl_verified :: bool
  gl_pre_score :: "rat option"
  gl_confidence :: rat
  gl_critical :: rat
  gl_price_available :: bool
  gl_financial_available :: bool
  gl_technical_available :: bool
  gl_sector_available :: bool
  gl_dimensions :: "(string \<times> score_dimension) list"
  gl_missing :: "string list"
  gl_stale :: "string list"
  gl_deep :: bool
  gl_acquirable :: bool
  gl_reasons :: "string list"

record pre_score_config =
  ps_price_max_age :: int
  ps_financial_max_age :: int
  ps_history_points :: nat

definition valid_pre_score :: "pre_score_config \<Rightarrow> bool" where
  "valid_pre_score c = (0 < ps_price_max_age c \<and> 0 < ps_financial_max_age c \<and> 2 \<le> ps_history_points c)"

definition default_pre_score :: pre_score_config where
  "default_pre_score = \<lparr>ps_price_max_age = 7 * day_us, ps_financial_max_age = 550 * day_us, ps_history_points = 50\<rparr>"

section \<open>Evidence by key\<close>

definition trusted_mappings :: "global_instrument \<Rightarrow> provider_mapping list" where
  "trusted_mappings g =
     filter (\<lambda>m. pm_status m = Some ''VERIFIED'' \<and> or_text (pm_provider m) \<noteq> [] \<and>
       (or_text (pm_instrument_id m) \<noteq> [] \<or> or_text (pm_symbol m) \<noteq> []) \<and> pm_resolution m \<noteq> Some ''BROKER_IMPORT_IDENTITY'')
       (gi_mappings g)"

definition mapped_ids :: "global_instrument \<Rightarrow> string \<Rightarrow> string list" where
  "mapped_ids g provider =
     filter (\<lambda>s. s \<noteq> []) (concat (map (\<lambda>m. [or_text (pm_instrument_id m), or_text (pm_symbol m)])
       (filter (\<lambda>m. pm_provider m = Some provider) (trusted_mappings g))))"

definition trusted_provider :: "global_instrument \<Rightarrow> string \<Rightarrow> bool" where
  "trusted_provider g p = (p \<in> set (map (or_text \<circ> pm_provider) (trusted_mappings g)))"

record scan_evidence =
  se_number :: "rat option"
  se_text :: string
  se_stamp :: time
  se_period_type :: "string option"

definition first_time :: "time option list \<Rightarrow> time \<Rightarrow> time" where
  "first_time ts d = (case filter (\<lambda>t. t \<noteq> None) ts of [] \<Rightarrow> d | t # _ \<Rightarrow> the t)"

definition evidence_at :: "time \<Rightarrow> fact_value \<Rightarrow> time \<Rightarrow> string option \<Rightarrow> scan_evidence option" where
  "evidence_at as_of v stamp ptype =
     (if fv_retrieved v \<le> as_of \<and> stamp \<le> as_of
      then Some \<lparr>se_number = fv_number v, se_text = fv_text v, se_stamp = stamp, se_period_type = ptype\<rparr> else None)"

definition snapshot_ok :: "global_instrument \<Rightarrow> time \<Rightarrow> market_snapshot \<Rightarrow> bool" where
  "snapshot_ok g as_of r =
     (trusted_provider g (ms_provider r) \<and> ms_retrieved r \<le> as_of \<and>
      ms_provider_instrument r \<in> set (mapped_ids g (ms_provider r)) \<and> ms_currency r = gi_currency g)"

definition structured_evidence :: "global_instrument \<Rightarrow> time \<Rightarrow> market_snapshot list \<Rightarrow> string \<Rightarrow> scan_evidence list" where
  "structured_evidence g as_of snapshots key =
     concat (map (\<lambda>r. List.map_filter (\<lambda>(k, v). if k = key then evidence_at as_of v
         (first_time [fv_as_of v, fv_published v, ms_as_of r] (ms_retrieved r)) None else None) (ms_facts r))
       (filter (snapshot_ok g as_of) snapshots))"

definition scan_metric :: "string \<Rightarrow> string" where
  "scan_metric m =
     (case map_of [(''profit_margin'', ''profitMargin''), (''return_on_equity'', ''roe''), (''net_income'', ''pat''),
        (''net_profit'', ''pat''), (''revenue_growth'', ''revenueGrowth''), (''earnings_growth'', ''earningsGrowth''),
        (''equity'', ''total_equity'')] m of None \<Rightarrow> m | Some k \<Rightarrow> k)"

definition basis_rank :: "string option \<Rightarrow> nat" where
  "basis_rank b = (if b = Some ''CONSOLIDATED'' then 2 else if b = Some ''UNKNOWN'' then 1 else 0)"

definition period_rank :: "string \<Rightarrow> nat" where
  "period_rank p = (if p = ''ANNUAL'' then 2 else if p = ''QUARTERLY'' then 1 else 0)"

definition fact_stamp :: "scan_fact \<Rightarrow> time option" where
  "fact_stamp f =
     (case sk_period_end f of
        NO_PERIOD \<Rightarrow> Some (first_time [fv_as_of (sk_value f), fv_published (sk_value f)] (fv_retrieved (sk_value f)))
      | BAD_PERIOD \<Rightarrow> None | PERIOD t \<Rightarrow> Some t)"

definition fact_ok :: "time \<Rightarrow> scan_fact \<Rightarrow> bool" where
  "fact_ok as_of f =
     (sk_tier f \<in> SUPPORTED_FINANCIAL_SOURCE_TIERS \<and> sk_real f \<and> fv_retrieved (sk_value f) \<le> as_of \<and>
      (case fact_stamp f of None \<Rightarrow> False | Some t \<Rightarrow> t \<le> as_of))"

definition scan_rank :: "scan_fact \<Rightarrow> time \<times> nat \<times> nat" where
  "scan_rank f = (the (fact_stamp f), basis_rank (sk_basis f), period_rank (sk_period_type f))"

text \<open>Of the financial facts of a metric only those of the newest period, basis and period type count.\<close>

definition financial_evidence :: "time \<Rightarrow> scan_fact list \<Rightarrow> string \<Rightarrow> scan_evidence list" where
  "financial_evidence as_of facts key =
     (let known = filter (\<lambda>f. fact_ok as_of f \<and> scan_metric (sk_metric f) = key) facts;
          best = Max (set (map scan_rank known))
      in map (\<lambda>f. \<lparr>se_number = fv_number (sk_value f), se_text = fv_text (sk_value f), se_stamp = the (fact_stamp f),
             se_period_type = Some (sk_period_type f)\<rparr>)
           (filter (\<lambda>f. scan_rank f = best) known))"

definition evidence_for :: "global_instrument \<Rightarrow> time \<Rightarrow> market_snapshot list \<Rightarrow> scan_fact list \<Rightarrow> string \<Rightarrow> scan_evidence list" where
  "evidence_for g as_of snapshots facts key =
     structured_evidence g as_of snapshots key @ financial_evidence as_of facts key"

section \<open>Dimensions\<close>

datatype dimension_kind = QUALITY | AVAILABILITY | TEXT

datatype key_verdict = K_MISSING | K_CONFLICTING | K_SCORED bool int

definition QUARTERLY_FINANCIAL_MAX_AGE :: int where "QUARTERLY_FINANCIAL_MAX_AGE = 120 * day_us"
definition ANNUAL_FINANCIAL_MAX_AGE :: int where "ANNUAL_FINANCIAL_MAX_AGE = 400 * day_us"

definition item_max_age :: "pre_score_config \<Rightarrow> int option \<Rightarrow> string option \<Rightarrow> int" where
  "item_max_age c max_age ptype =
     (case max_age of Some a \<Rightarrow> a
      | None \<Rightarrow> (case ptype of None \<Rightarrow> ps_financial_max_age c
          | Some p \<Rightarrow> if p = ''QUARTERLY'' then QUARTERLY_FINANCIAL_MAX_AGE else ANNUAL_FINANCIAL_MAX_AGE))"

definition quality_score :: "rat \<Rightarrow> int" where
  "quality_score v = (if 0 < v then 100 else if v = 0 then 50 else 0)"

definition readable :: "dimension_kind \<Rightarrow> scan_evidence \<Rightarrow> bool" where
  "readable kind e = (if kind = TEXT then se_text e \<noteq> [] else se_number e \<noteq> None)"

text \<open>The values of the newest readable evidence of a key decide its state; \<open>True\<close> marks stale evidence.\<close>

definition key_state :: "pre_score_config \<Rightarrow> time \<Rightarrow> dimension_kind \<Rightarrow> int option \<Rightarrow> scan_evidence list \<Rightarrow> key_verdict" where
  "key_state c as_of kind max_age es =
     (let valid = filter (readable kind) es;
          latest = Max (set (map se_stamp valid));
          current = filter (\<lambda>e. se_stamp e = latest) valid;
          several = (if kind = TEXT then 1 < length (remdups (map se_text current)) else 1 < length (remdups (map se_number current)))
      in if valid = [] then K_MISSING
         else if several then K_CONFLICTING
         else K_SCORED (item_max_age c max_age (se_period_type (hd current)) < as_of - latest)
           (if kind = QUALITY then quality_score (the (se_number (hd current))) else 100))"

definition key_score :: "key_verdict \<Rightarrow> int option" where
  "key_score k = (case k of K_SCORED _ s \<Rightarrow> Some s | _ \<Rightarrow> None)"

definition key_stale :: "key_verdict \<Rightarrow> bool" where "key_stale k = (case k of K_SCORED old _ \<Rightarrow> old | _ \<Rightarrow> False)"
definition key_ready :: "key_verdict \<Rightarrow> bool" where "key_ready k = (case k of K_SCORED old _ \<Rightarrow> \<not> old | _ \<Rightarrow> False)"

definition dimension_of :: "key_verdict list \<Rightarrow> score_dimension" where
  "dimension_of ks =
     (let scores = List.map_filter key_score ks; conflicts = (K_CONFLICTING \<in> set ks)
      in \<lparr>dm_state = (if conflicts then E_CONFLICTING else if list_ex key_stale ks then E_STALE
            else if scores = [] then E_MISSING else if length scores < length ks then E_PARTIAL else E_AVAILABLE),
          dm_score = (if scores \<noteq> [] \<and> \<not> conflicts then Some (fl64 (of_int (sum_list scores) / of_nat (length scores))) else None),
          dm_coverage = (if conflicts then 0 else fl64 (of_nat (length (filter key_ready ks)) / of_nat (length ks)))\<rparr>)"

definition DIMENSION_KEYS :: "(string \<times> dimension_kind \<times> bool \<times> string list) list" where
  "DIMENSION_KEYS =
     [(''VALUATION_AVAILABILITY'', AVAILABILITY, True, [''trailingPE'', ''priceToBook'']),
      (''PROFITABILITY_QUALITY'', QUALITY, False, [''profitMargin'', ''roe'', ''pat'']),
      (''GROWTH_QUALITY'', QUALITY, False, [''revenueGrowth'', ''earningsGrowth'']),
      (''BALANCE_SHEET_QUALITY'', QUALITY, False, [''total_equity'']),
      (''SECTOR_DATA_READINESS'', TEXT, False, [''sector''])]"

text \<open>The states of the keys of one dimension; valuation evidence ages with prices.\<close>

definition dimension_states ::
    "pre_score_config \<Rightarrow> global_instrument \<Rightarrow> time \<Rightarrow> market_snapshot list \<Rightarrow> scan_fact list \<Rightarrow>
     dimension_kind \<times> bool \<times> string list \<Rightarrow> (string \<times> key_verdict) list" where
  "dimension_states c g as_of snapshots facts spec =
     (case spec of (kind, priced, keys) \<Rightarrow>
        map (\<lambda>key. (key, key_state c as_of kind (if priced then Some (ps_price_max_age c) else None)
          (evidence_for g as_of snapshots facts key))) keys)"

section \<open>Prices\<close>

record price_state =
  pt_usable :: bool
  pt_conflict :: bool
  pt_fresh :: bool
  pt_class :: evidence_class
  pt_days :: nat

definition price_usable :: "global_instrument \<Rightarrow> time \<Rightarrow> price_observation \<Rightarrow> bool" where
  "price_usable g as_of p =
     (trusted_provider g (po_provider p) \<and> 0 < po_price p \<and> or_text (gi_currency g) \<noteq> [] \<and>
      po_currency p = gi_currency g \<and> po_observed_at p \<le> as_of \<and> po_retrieved_at p \<le> as_of)"

definition price_state_of :: "pre_score_config \<Rightarrow> global_instrument \<Rightarrow> time \<Rightarrow> price_observation list \<Rightarrow> price_state" where
  "price_state_of c g as_of prices =
     (let ok = filter (price_usable g as_of) prices;
          latest = Max (set (map po_observed_at ok));
          conflict = 1 < length (remdups (map po_price (newest_rows po_observed_at ok)));
          fresh = (ok \<noteq> [] \<and> as_of - latest \<le> ps_price_max_age c \<and> \<not> conflict)
      in \<lparr>pt_usable = (ok \<noteq> []), pt_conflict = conflict, pt_fresh = fresh,
          pt_class = (if conflict then E_CONFLICTING else if ok = [] then E_MISSING else if fresh then E_AVAILABLE else E_STALE),
          pt_days = length (remdups (map price_day ok))\<rparr>)"

definition history_symbol_of :: "global_instrument \<Rightarrow> string option" where
  "history_symbol_of g =
     (case filter (\<lambda>m. pm_provider m = Some ''YAHOO_FINANCE'') (trusted_mappings g) of
        [] \<Rightarrow> None
      | m # _ \<Rightarrow> if or_text (pm_symbol m) \<noteq> [] then pm_symbol m else pm_instrument_id m)"

text \<open>The calendar of an NSE instrument and its candles.\<close>

record calendar =
  cl_schedules :: "schedule list"
  cl_exceptions :: "calendar_exception list"

definition history_request :: "string \<Rightarrow> global_instrument \<Rightarrow> time \<Rightarrow> string option \<Rightarrow> calendar \<Rightarrow> close_request" where
  "history_request key g as_of market cal =
     \<lparr>cr_instrument = key, cr_as_of = as_of, cr_currency = gi_currency g, cr_trusted = None, cr_market = market,
      cr_schedules = cl_schedules cal, cr_exceptions = cl_exceptions cal, cr_symbol = history_symbol_of g\<rparr>"

definition session_days ::
    "(string \<Rightarrow> url) \<Rightarrow> (time \<Rightarrow> int) \<Rightarrow> zone_local \<Rightarrow> zone_utc \<Rightarrow> close_request \<Rightarrow> price_observation list \<Rightarrow> daily_bar list \<Rightarrow> nat \<times> bool" where
  "session_days parse ist local utc q prices bars =
     (case select_price_history parse ist local utc 7 q prices bars of (h, _, _, _) \<Rightarrow>
        let hf = history_facts_of h
        in (length (prices_of h), \<not> past_validity (hf_valid_until hf) (cr_as_of q) \<and> hf_missing hf = [] \<and> hf_conflicts hf = []))"

section \<open>The pre-score\<close>

definition technical_readiness :: "pre_score_config \<Rightarrow> nat \<Rightarrow> bool \<Rightarrow> score_dimension" where
  "technical_readiness c days fresh =
     \<lparr>dm_state = (if days = 0 then E_MISSING else if \<not> fresh then E_STALE else if ps_history_points c \<le> days then E_AVAILABLE else E_PARTIAL),
      dm_score = (if ps_history_points c \<le> days then Some 100 else None),
      dm_coverage = (if fresh then min 1 (fl64 (of_nat days / of_nat (ps_history_points c))) else 0)\<rparr>"

definition price_quality :: "price_state \<Rightarrow> score_dimension" where
  "price_quality p = \<lparr>dm_state = pt_class p, dm_score = (if pt_usable p \<and> \<not> pt_conflict p then Some 100 else None),
     dm_coverage = (if pt_fresh p then 1 else 0)\<rparr>"

definition identity_reasons :: "global_instrument \<Rightarrow> string option \<Rightarrow> string list" where
  "identity_reasons g symbol =
     (if gi_status g \<noteq> Some ''ACTIVE'' then [''INACTIVE''] else []) @
     (if gi_asset_type g \<noteq> Some ''EQUITY'' then [''NON_EQUITY''] else []) @
     (if trusted_mappings g \<noteq> [] \<and> or_text symbol \<noteq> [] \<and> or_text (gi_name g) \<noteq> [] \<and> or_text (gi_exchange g) \<noteq> [] \<and>
         or_text (gi_currency g) \<noteq> [] then [] else [''UNTRUSTED_CANONICAL_IDENTITY''])"

definition evidence_reasons :: "price_state \<Rightarrow> bool \<Rightarrow> string list" where
  "evidence_reasons p financial_ready =
     (if \<not> pt_usable p then [''NO_USABLE_PRICE''] else if pt_conflict p then [''CONFLICTING_PRICE'']
      else if \<not> pt_fresh p then [''STALE_PRICE''] else []) @
     (if financial_ready then [] else [''CRITICAL_FINANCIAL_EVIDENCE_UNREADY''])"

definition dimension_scored :: "score_dimension \<Rightarrow> rat option" where
  "dimension_scored d = (if dm_state d = E_AVAILABLE \<or> dm_state d = E_PARTIAL then dm_score d else None)"

definition round6 :: "rat \<Rightarrow> rat" where "round6 x = fl64 (quantize 6 x)"

definition half_count :: "bool \<Rightarrow> bool \<Rightarrow> rat" where
  "half_count a b = (of_bool a + of_bool b) / 2"

record scan_item =
  it_key :: string
  it_facts :: global_instrument
  it_snapshots :: "market_snapshot list"
  it_financials :: "scan_fact list"
  it_prices :: "price_observation list"
  it_bars :: "daily_bar list"
  it_calendar :: "calendar option"

definition item_days ::
    "(string \<Rightarrow> url) \<Rightarrow> (time \<Rightarrow> int) \<Rightarrow> zone_local \<Rightarrow> zone_utc \<Rightarrow> time \<Rightarrow> scan_item \<Rightarrow> price_state \<Rightarrow> nat \<times> bool" where
  "item_days parse ist local utc as_of it p =
     (case it_calendar it of
        None \<Rightarrow> (pt_days p, pt_fresh p)
      | Some cal \<Rightarrow> session_days parse ist local utc (history_request (it_key it) (it_facts it) as_of (Some ''NSE'') cal)
          (it_prices it) (it_bars it))"

definition core_dimensions ::
    "pre_score_config \<Rightarrow> price_state \<Rightarrow> nat \<times> bool \<Rightarrow> (string \<Rightarrow> key_verdict list) \<Rightarrow> (string \<times> score_dimension) list" where
  "core_dimensions c p history states =
     [(''PRICE_DATA_QUALITY'', price_quality p),
      (''VALUATION_AVAILABILITY'', dimension_of (states ''VALUATION_AVAILABILITY'')),
      (''PROFITABILITY_QUALITY'', dimension_of (states ''PROFITABILITY_QUALITY'')),
      (''GROWTH_QUALITY'', dimension_of (states ''GROWTH_QUALITY'')),
      (''BALANCE_SHEET_QUALITY'', dimension_of (states ''BALANCE_SHEET_QUALITY'')),
      (''TECHNICAL_DATA_READINESS'', technical_readiness c (fst history) (snd history)),
      (''SECTOR_DATA_READINESS'', dimension_of (states ''SECTOR_DATA_READINESS''))]"

definition financial_ready :: "score_dimension \<Rightarrow> bool" where
  "financial_ready d = (0 < dm_coverage d \<and> (dm_state d = E_AVAILABLE \<or> dm_state d = E_PARTIAL))"

definition readiness_mean :: "(string \<times> score_dimension) list \<Rightarrow> rat" where
  "readiness_mean ds = fl64 (py_sum (map (dm_coverage \<circ> snd) ds) / of_nat (length ds))"

definition pre_score ::
    "(string \<Rightarrow> url) \<Rightarrow> (time \<Rightarrow> int) \<Rightarrow> zone_local \<Rightarrow> zone_utc \<Rightarrow> pre_score_config \<Rightarrow> time \<Rightarrow> scan_item \<Rightarrow> global_candidate" where
  "pre_score parse ist local utc c as_of it =
     (let g = it_facts it;
          p = price_state_of c g as_of (it_prices it);
          history = item_days parse ist local utc as_of it p;
          keyed = map (\<lambda>(name, spec). (name, dimension_states c g as_of (it_snapshots it) (it_financials it) spec)) DIMENSION_KEYS;
          core = core_dimensions c p history (\<lambda>name. map snd (the (map_of keyed name)));
          key_states = concat (map snd keyed);
          missing = map fst (filter (\<lambda>(_, k). k = K_MISSING) key_states) @ (if pt_usable p then [] else [''price'']) @
            (if fst history < ps_history_points c then [''technicalHistory''] else []);
          stale = map fst (filter (\<lambda>(_, k). key_stale k) key_states) @
            (if pt_usable p \<and> \<not> pt_fresh p \<and> \<not> pt_conflict p then [''price''] else []);
          profitability = dimension_of (map snd (the (map_of keyed ''PROFITABILITY_QUALITY'')));
          ready = financial_ready profitability;
          critical = half_count (pt_fresh p) ready;
          readiness = readiness_mean core;
          symbol = (if or_text (gi_ticker g) \<noteq> [] then gi_ticker g else gi_primary_symbol g);
          identity = identity_reasons g symbol;
          reasons = identity @ evidence_reasons p ready;
          scores = List.map_filter (dimension_scored \<circ> snd) core
      in \<lparr>gl_instrument = it_key it, gl_facts = g, gl_history_symbol = history_symbol_of g, gl_symbol = symbol,
          gl_verified = (trusted_mappings g \<noteq> []),
          gl_pre_score = (if scores = [] then None else Some (round6 (fl64 (py_sum scores / of_nat (length scores))))),
          gl_confidence = round6 (fl64 (fl64 (100 * readiness) * critical)),
          gl_critical = critical * 100,
          gl_price_available = (pt_usable p \<and> \<not> pt_conflict p),
          gl_financial_available = (dm_score profitability \<noteq> None),
          gl_technical_available = (ps_history_points c \<le> fst history),
          gl_sector_available = (dm_score (dimension_of (map snd (the (map_of keyed ''SECTOR_DATA_READINESS'')))) \<noteq> None),
          gl_dimensions = core @
            [(''FRESHNESS'', \<lparr>dm_state = (if stale \<noteq> [] then E_STALE else E_AVAILABLE), dm_score = None, dm_coverage = readiness\<rparr>),
             (''CRITICAL_COMPLETENESS'', \<lparr>dm_state = (if critical = 1 then E_AVAILABLE else if critical \<noteq> 0 then E_PARTIAL else E_MISSING),
                dm_score = None, dm_coverage = critical\<rparr>)],
          gl_missing = sorted_set missing, gl_stale = sorted_set stale,
          gl_deep = (reasons = []), gl_acquirable = (identity = []), gl_reasons = reasons\<rparr>)"

section \<open>The scan\<close>

record scan_store =
  st_snapshots :: "market_snapshot list"
  st_financials :: "scan_fact list"
  st_prices :: "price_observation list"
  st_bars :: "daily_bar list"
  st_calendar :: calendar

definition nse_exchange :: "string option \<Rightarrow> bool" where
  "nse_exchange e = (e = Some ''NSE'' \<or> e = Some ''XNSE'')"

fun batches :: "nat \<Rightarrow> 'a list \<Rightarrow> 'a list list" where
  "batches n [] = []"
| "batches n (x # xs) = take (Suc n) (x # xs) # batches n (drop n xs)"

text \<open>The rows of the store for a set of instruments.\<close>

definition load_rows :: "string list \<Rightarrow> ('a \<Rightarrow> string) \<Rightarrow> 'a list \<Rightarrow> 'a list" where
  "load_rows ids key rows = filter (\<lambda>r. key r \<in> set ids) rows"

text \<open>One batch: the rows of its keys are loaded together and grouped by instrument.\<close>

definition score_batch ::
    "(string \<Rightarrow> url) \<Rightarrow> (time \<Rightarrow> int) \<Rightarrow> zone_local \<Rightarrow> zone_utc \<Rightarrow> pre_score_config \<Rightarrow> time \<Rightarrow> scan_store \<Rightarrow>
     (string \<times> global_instrument) list \<Rightarrow> string list \<Rightarrow> global_candidate list" where
  "score_batch parse ist local utc c as_of d canonical ids =
     (let calendars = list_ex (\<lambda>k. nse_exchange (gi_exchange (the (map_of canonical k)))) ids;
          snapshots = load_rows ids ms_instrument (st_snapshots d); financials = load_rows ids sk_instrument (st_financials d);
          prices = load_rows ids po_instrument (st_prices d);
          bars = (if calendars then filter (\<lambda>b. db_provider b = ''NSE'') (load_rows ids db_instrument (st_bars d)) else [])
      in map (\<lambda>k. let g = the (map_of canonical k); nse = (calendars \<and> nse_exchange (gi_exchange g)) in
           pre_score parse ist local utc c as_of
             \<lparr>it_key = k, it_facts = g,
              it_snapshots = filter (\<lambda>r. ms_instrument r = k) snapshots,
              it_financials = filter (\<lambda>r. sk_instrument r = k) financials,
              it_prices = filter (\<lambda>r. po_instrument r = k) prices,
              it_bars = (if nse then filter (\<lambda>b. db_instrument b = k) bars else []),
              it_calendar = (if nse then Some (st_calendar d) else None)\<rparr>) (sorted_set ids))"

datatype scan_error = INVALID_BATCH_SIZE | CONFLICTING_CANONICAL_RECORDS string

text \<open>The universe by identity; a record without a valid identity is only counted.\<close>

fun by_identity :: "(string \<times> global_instrument) list \<Rightarrow> (string option \<times> global_instrument) list \<Rightarrow>
    scan_error + (string \<times> global_instrument) list" where
  "by_identity d [] = Inr d"
| "by_identity d ((None, g) # rest) = by_identity d rest"
| "by_identity d ((Some k, g) # rest) =
     (case map_of d k of
        Some g' \<Rightarrow> if g' \<noteq> g then Inl (CONFLICTING_CANONICAL_RECORDS k) else by_identity (dset k g d) rest
      | None \<Rightarrow> by_identity (dset k g d) rest)"

record scan_result =
  sc_as_of :: time
  sc_total :: nat
  sc_eligible :: nat
  sc_acquirable :: nat
  sc_excluded :: "(string \<times> nat) list"
  sc_candidates :: "global_candidate list"
  sc_top :: "global_candidate list"
  sc_deep_ids :: "string list"

definition candidate_key :: "global_candidate \<Rightarrow> rat \<times> rat \<times> rat \<times> string" where
  "candidate_key c = (- (case gl_pre_score c of None \<Rightarrow> - 1 | Some v \<Rightarrow> v), - gl_confidence c, - gl_critical c, gl_instrument c)"

definition count_reasons :: "global_candidate list \<Rightarrow> nat \<Rightarrow> (string \<times> nat) list" where
  "count_reasons cs invalid =
     (let rs = concat (map gl_reasons cs) @ replicate invalid ''UNTRUSTED_CANONICAL_IDENTITY''
      in map (\<lambda>r. (r, length (filter (\<lambda>x. x = r) rs))) (sorted_set rs))"

definition scan_universe ::
    "(string \<Rightarrow> url) \<Rightarrow> (time \<Rightarrow> int) \<Rightarrow> zone_local \<Rightarrow> zone_utc \<Rightarrow> pre_score_config \<Rightarrow> nat \<Rightarrow> scan_store \<Rightarrow>
     (string option \<times> global_instrument) list \<Rightarrow> time \<Rightarrow> nat \<Rightarrow> scan_error + scan_result" where
  "scan_universe parse ist local utc c batch_size d instruments as_of top_n =
     (if batch_size < 1 \<or> 500 < batch_size then Inl INVALID_BATCH_SIZE
      else case by_identity [] instruments of Inl e \<Rightarrow> Inl e
      | Inr canonical \<Rightarrow>
          let scores = concat (map (score_batch parse ist local utc c as_of d canonical) (batches (batch_size - 1) (sort (map fst canonical))));
              candidates = sort_key candidate_key scores;
              eligible = filter gl_deep candidates;
              selected = take top_n eligible
          in Inr \<lparr>sc_as_of = as_of,
               sc_total = length (filter (\<lambda>(_, g). gi_status g = Some ''ACTIVE'' \<and> gi_asset_type g = Some ''EQUITY'') canonical),
               sc_eligible = length eligible, sc_acquirable = length (filter gl_acquirable candidates),
               sc_excluded = count_reasons candidates (length (filter (\<lambda>(k, _). k = None) instruments)),
               sc_candidates = candidates, sc_top = selected, sc_deep_ids = map gl_instrument selected\<rparr>)"

section \<open>Enrichment\<close>

record enriched_candidate =
  en_instrument :: string
  en_symbol :: "string option"
  en_pre_score :: "rat option"
  en_technical :: feature_snapshot
  en_sector :: sector_snapshot
  en_technical_score :: "rat option"
  en_sector_score :: "rat option"
  en_score :: "rat option"
  en_confidence :: rat
  en_coverage :: rat

definition stage_b_score :: "rat \<Rightarrow> rat \<Rightarrow> rat option \<Rightarrow> rat option \<Rightarrow> rat option \<times> rat" where
  "stage_b_score tw sw technical sector =
     (let available = List.map_filter (\<lambda>(v, w). if 0 < w then map_option (\<lambda>x. (x, w)) v else None) [(technical, tw), (sector, sw)];
          weight = py_sum (map snd available)
      in (if weight = 0 then None else Some (fl64 (py_sum (map (\<lambda>(v, w). fl64 (v * w)) available) / weight)), weight))"

definition enrich_request :: "calendar \<Rightarrow> (string \<Rightarrow> string list option) \<Rightarrow> time \<Rightarrow> global_candidate \<Rightarrow> close_request" where
  "enrich_request cal providers as_of cand =
     (let nse = nse_exchange (gi_exchange (gl_facts cand))
      in \<lparr>cr_instrument = gl_instrument cand, cr_as_of = as_of, cr_currency = gi_currency (gl_facts cand),
          cr_trusted = providers (gl_instrument cand),
          cr_market = (if nse then gi_exchange (gl_facts cand) else None),
          cr_schedules = (if nse then cl_schedules cal else []),
          cr_exceptions = (if nse then cl_exceptions cal else []),
          cr_symbol = (if nse \<and> or_text (gl_history_symbol cand) \<noteq> [] then gl_history_symbol cand else None)\<rparr>)"

definition enrich_one ::
    "(string \<Rightarrow> url) \<Rightarrow> (time \<Rightarrow> int) \<Rightarrow> zone_local \<Rightarrow> zone_utc \<Rightarrow> technical_config \<Rightarrow> sector_config \<Rightarrow> rat \<times> rat \<Rightarrow> scan_store \<Rightarrow>
     (string \<Rightarrow> sector_context option) \<Rightarrow> (string \<Rightarrow> string list option) \<Rightarrow> time \<Rightarrow> global_candidate \<Rightarrow> enriched_candidate" where
  "enrich_one parse ist local utc tc sc weights d contexts providers as_of cand =
     (let key = gl_instrument cand; (tw, sw) = weights;
          q = enrich_request (st_calendar d) providers as_of cand;
          closes = (\<lambda>k. filter (\<lambda>r. po_instrument r = k) (st_prices d));
          bars = (\<lambda>k. filter (\<lambda>b. db_instrument b = k \<and> db_provider b = ''NSE'') (st_bars d));
          technical = compute_features parse ist local utc tc q (closes key) [] (bars key);
          sector = sector_strength parse ist local utc sc (case contexts key of None \<Rightarrow> no_context | Some x \<Rightarrow> x) q closes bars;
          (score, weight) = stage_b_score tw sw (vd_technical_score (fx_verdict technical)) (sy_score sector);
          tot = fl64 (tw + sw)
      in \<lparr>en_instrument = key, en_symbol = gl_symbol cand, en_pre_score = gl_pre_score cand, en_technical = technical, en_sector = sector,
          en_technical_score = vd_technical_score (fx_verdict technical), en_sector_score = sy_score sector,
          en_score = map_option round8 score,
          en_confidence = round6 (fl64 (fl64 (fl64 (fx_confidence technical * tw) + fl64 (sy_confidence sector * sw)) / tot)),
          en_coverage = round6 (fl64 (fl64 (weight / tot) * 100))\<rparr>)"

definition enriched_key :: "enriched_candidate \<Rightarrow> rat \<times> rat \<times> string" where
  "enriched_key c = (- (case en_score c of None \<Rightarrow> - 1 | Some v \<Rightarrow> v), - en_confidence c, en_instrument c)"

datatype enrich_error = INVALID_STAGE_B_WEIGHTS

definition enrich_candidates ::
    "(string \<Rightarrow> url) \<Rightarrow> (time \<Rightarrow> int) \<Rightarrow> zone_local \<Rightarrow> zone_utc \<Rightarrow> technical_config \<Rightarrow> sector_config \<Rightarrow> rat \<times> rat \<Rightarrow> scan_store \<Rightarrow>
     (string \<Rightarrow> sector_context option) \<Rightarrow> (string \<Rightarrow> string list option) \<Rightarrow> bool \<Rightarrow> time \<Rightarrow> global_candidate list \<Rightarrow>
     enrich_error + enriched_candidate list" where
  "enrich_candidates parse ist local utc tc sc weights d contexts providers include_unready as_of cands =
     (if fst weights < 0 \<or> snd weights < 0 \<or> fl64 (fst weights + snd weights) = 0 then Inl INVALID_STAGE_B_WEIGHTS
      else Inr (sort_key enriched_key (map (enrich_one parse ist local utc tc sc weights d contexts providers as_of)
        (filter (\<lambda>c. gl_deep c \<or> (include_unready \<and> gl_acquirable c)) cands))))"

text \<open>What the ranker reads of an enriched candidate.\<close>

definition ranker_view :: "enriched_candidate \<Rightarrow> stage_b_candidate" where
  "ranker_view c =
     \<lparr>sb_instrument = en_instrument c, sb_version = ''GLOBAL_STAGE_B_V1'',
      sb_technical = \<lparr>tv_instrument = fx_instrument (en_technical c), tv_score = vd_technical_score (fx_verdict (en_technical c)),
        tv_state = vd_technical_state (fx_verdict (en_technical c)), tv_confidence = fx_confidence (en_technical c),
        tv_stale = fx_stale (en_technical c), tv_features = fx_states (en_technical c)\<rparr>,
      sb_sector = \<lparr>sv_instrument = sy_instrument (en_sector c), sv_score = sy_score (en_sector c),
        sv_state = sy_sector_state (en_sector c), sv_confidence = sy_confidence (en_sector c),
        sv_stale = sy_stale (en_sector c), sv_missing = sy_missing (en_sector c)\<rparr>,
      sb_technical_score = en_technical_score c, sb_sector_score = en_sector_score c\<rparr>"

section \<open>Batches\<close>

lemma concat_batches: "concat (batches n xs) = xs"
  by (induction n xs rule: batches.induct) simp_all

lemma batches_subset: "b \<in> set (batches n xs) \<Longrightarrow> set b \<subseteq> set xs"
  using concat_batches[of n xs] by (metis UN_upper set_concat)

lemma sorted_batches: "sorted xs \<Longrightarrow> distinct xs \<Longrightarrow> b \<in> set (batches n xs) \<Longrightarrow> sorted_set b = b"
proof (induction n xs rule: batches.induct)
  case (2 n x xs)
  have "sorted_set (take (Suc n) (x # xs)) = take (Suc n) (x # xs)"
    using 2(2,3) by (simp only: sorted_set_def distinct_remdups_id distinct_take sorted_sort_id sorted_wrt_take)
  then show ?case using 2 by (auto simp: sorted_wrt_drop)
qed simp

text \<open>The rows of one instrument do not depend on the batch it is loaded with.\<close>

lemma load_rows_group: "k \<in> set ids \<Longrightarrow> filter (\<lambda>r. key r = k) (load_rows ids key rows) = filter (\<lambda>r. key r = k) rows"
  unfolding load_rows_def by (rule filter_implied) simp

definition item_of :: "scan_store \<Rightarrow> (string \<times> global_instrument) list \<Rightarrow> string \<Rightarrow> scan_item" where
  "item_of d canonical k =
     (let g = the (map_of canonical k); nse = nse_exchange (gi_exchange g)
      in \<lparr>it_key = k, it_facts = g, it_snapshots = filter (\<lambda>r. ms_instrument r = k) (st_snapshots d),
          it_financials = filter (\<lambda>r. sk_instrument r = k) (st_financials d),
          it_prices = filter (\<lambda>r. po_instrument r = k) (st_prices d),
          it_bars = (if nse then filter (\<lambda>b. db_instrument b = k \<and> db_provider b = ''NSE'') (st_bars d) else []),
          it_calendar = (if nse then Some (st_calendar d) else None)\<rparr>)"

lemma item_key: "it_key (item_of d canonical k) = k"
  by (simp add: item_of_def Let_def)

lemma score_batch_items:
  "score_batch parse ist local utc c as_of d canonical ids =
   map (\<lambda>k. pre_score parse ist local utc c as_of (item_of d canonical k)) (sorted_set ids)"
  unfolding score_batch_def Let_def item_of_def
proof (rule map_cong[OF refl])
  fix k assume "k \<in> set (sorted_set ids)"
  then have k: "k \<in> set ids" by simp
  have bars: "filter (\<lambda>b. db_instrument b = k) (filter (\<lambda>b. db_provider b = ''NSE'') (load_rows ids db_instrument (st_bars d))) =
      filter (\<lambda>b. db_instrument b = k \<and> db_provider b = ''NSE'') (st_bars d)"
    using k by (auto simp: load_rows_def intro: filter_cong)
  have cal: "list_ex (\<lambda>k. nse_exchange (gi_exchange (the (map_of canonical k)))) ids" if "nse_exchange (gi_exchange (the (map_of canonical k)))"
    using that k by (auto simp: list_ex_iff)
  show "pre_score parse ist local utc c as_of
      \<lparr>it_key = k, it_facts = the (map_of canonical k),
       it_snapshots = filter (\<lambda>r. ms_instrument r = k) (load_rows ids ms_instrument (st_snapshots d)),
       it_financials = filter (\<lambda>r. sk_instrument r = k) (load_rows ids sk_instrument (st_financials d)),
       it_prices = filter (\<lambda>r. po_instrument r = k) (load_rows ids po_instrument (st_prices d)),
       it_bars = (if list_ex (\<lambda>k. nse_exchange (gi_exchange (the (map_of canonical k)))) ids \<and> nse_exchange (gi_exchange (the (map_of canonical k)))
         then filter (\<lambda>b. db_instrument b = k) (if list_ex (\<lambda>k. nse_exchange (gi_exchange (the (map_of canonical k)))) ids
           then filter (\<lambda>b. db_provider b = ''NSE'') (load_rows ids db_instrument (st_bars d)) else []) else []),
       it_calendar = (if list_ex (\<lambda>k. nse_exchange (gi_exchange (the (map_of canonical k)))) ids \<and> nse_exchange (gi_exchange (the (map_of canonical k)))
         then Some (st_calendar d) else None)\<rparr> =
    pre_score parse ist local utc c as_of
      \<lparr>it_key = k, it_facts = the (map_of canonical k),
       it_snapshots = filter (\<lambda>r. ms_instrument r = k) (st_snapshots d),
       it_financials = filter (\<lambda>r. sk_instrument r = k) (st_financials d),
       it_prices = filter (\<lambda>r. po_instrument r = k) (st_prices d),
       it_bars = (if nse_exchange (gi_exchange (the (map_of canonical k)))
         then filter (\<lambda>b. db_instrument b = k \<and> db_provider b = ''NSE'') (st_bars d) else []),
       it_calendar = (if nse_exchange (gi_exchange (the (map_of canonical k))) then Some (st_calendar d) else None)\<rparr>"
    using cal bars by (simp add: load_rows_group[OF k])
qed

lemma batched_scores:
  assumes "sorted xs" "distinct xs"
  shows "concat (map (score_batch parse ist local utc c as_of d canonical) (batches n xs)) =
    map (\<lambda>k. pre_score parse ist local utc c as_of (item_of d canonical k)) xs"
proof -
  have "map (score_batch parse ist local utc c as_of d canonical) (batches n xs) =
      map (map (\<lambda>k. pre_score parse ist local utc c as_of (item_of d canonical k))) (batches n xs)"
    using sorted_batches[OF assms] by (simp add: score_batch_items)
  then show ?thesis by (simp only: map_concat[symmetric] concat_batches)
qed

lemma by_identity_distinct: "by_identity d xs = Inr u \<Longrightarrow> distinct (map fst d) \<Longrightarrow> distinct (map fst u)"
  by (induction d xs rule: by_identity.induct) (auto simp: distinct_update split: option.splits if_splits)

text \<open>The batch size of a scan is only a matter of load: any two valid sizes give the same result.\<close>

theorem batch_size_is_immaterial:
  assumes "1 \<le> m" "m \<le> 500" "1 \<le> n" "n \<le> 500"
  shows "scan_universe parse ist local utc c m d instruments as_of top_n = scan_universe parse ist local utc c n d instruments as_of top_n"
proof (cases "by_identity [] instruments")
  case (Inr u)
  have "distinct (map fst u)" using by_identity_distinct[OF Inr] by simp
  then have "concat (map (score_batch parse ist local utc c as_of d u) (batches (m - 1) (sort (map fst u)))) =
      concat (map (score_batch parse ist local utc c as_of d u) (batches (n - 1) (sort (map fst u))))"
    by (simp add: batched_scores)
  then show ?thesis using assms by (simp add: scan_universe_def Inr)
qed (use assms in \<open>simp add: scan_universe_def\<close>)

section \<open>What makes a candidate eligible\<close>

lemma fresh_price_usable:
  "pt_fresh (price_state_of c g as_of prices) \<Longrightarrow> pt_usable (price_state_of c g as_of prices) \<and> \<not> pt_conflict (price_state_of c g as_of prices)"
  by (simp add: price_state_of_def Let_def)

lemma evidence_reasons_Nil:
  "(pt_fresh p \<Longrightarrow> pt_usable p \<and> \<not> pt_conflict p) \<Longrightarrow> evidence_reasons p ready = [] \<longleftrightarrow> pt_fresh p \<and> ready"
  by (auto simp: evidence_reasons_def)

lemma half_count_full: "half_count a b = 1 \<longleftrightarrow> a \<and> b"
  by (cases a; cases b) (simp_all add: half_count_def)

text \<open>Deep analysis is earned by critical evidence: a candidate qualifies exactly when its identity is trusted and its
  critical completeness is 100, that is when it has a fresh price without a conflict and fresh profitability facts.\<close>

theorem deep_eligibility_exact:
  "gl_deep (pre_score parse ist local utc c as_of it) \<longleftrightarrow>
     gl_acquirable (pre_score parse ist local utc c as_of it) \<and> gl_critical (pre_score parse ist local utc c as_of it) = 100"
  using evidence_reasons_Nil[OF fresh_price_usable]
  by (simp add: pre_score_def Let_def half_count_full)

section \<open>Only what is known\<close>










lemma filter_swap: "filter P (filter Q xs) = filter Q (filter P xs)"
  by (simp add: conj_commute)



section \<open>Enriched candidates\<close>



text \<open>What enrichment hands to the ranker is what the ranker expects: one snapshot of either kind, about the candidate
  itself, with scores in their range.\<close>

lemma sector_instrument: "sy_instrument (sector_strength parse ist local utc c x q closes bars) = cr_instrument q"
  by (simp add: sector_strength_def snapshot_of_comparison_def Let_def split_def)

lemma enriched_well_formed:
  assumes "valid_config tc" and "valid_sector_config sc"
  shows "well_formed_candidate (ranker_view (enrich_one parse ist local utc tc sc w d contexts providers as_of cand))"
proof -
  have percent: "pred_option in_score_range v" if "percent_opt v" for v
    using that by (cases v) (simp_all add: in_score_range_def)
  show ?thesis
    using verdict_in_range[OF assms(1)] sector_scores_in_range[OF assms(2)]
    by (simp add: well_formed_candidate_def ranker_view_def enrich_one_def Let_def split_def sector_instrument enrich_request_def percent in_score_range_def)
qed

lemma enriched_instrument: "sb_instrument (ranker_view (enrich_one parse ist local utc tc sc w d contexts providers as_of cand)) = gl_instrument cand"
  by (simp add: ranker_view_def enrich_one_def Let_def split_def)

text \<open>The instruments of a scan are distinct.\<close>

lemma pre_score_instrument: "gl_instrument (pre_score parse ist local utc c as_of it) = it_key it"
  by (simp add: pre_score_def Let_def)

lemma scan_distinct:
  assumes "scan_universe parse ist local utc c n d instruments as_of top_n = Inr r"
  shows "distinct (map gl_instrument (sc_candidates r))" and "distinct (map gl_instrument (sc_top r))"
proof -
  obtain u where u: "by_identity [] instruments = Inr u" using assms
    by (cases "by_identity [] instruments") (auto simp: scan_universe_def split: if_splits)
  let ?scores = "map (\<lambda>k. pre_score parse ist local utc c as_of (item_of d u k)) (sort (map fst u))"
  have du: "distinct (map fst u)" using by_identity_distinct[OF u] by simp
  then have b: "concat (map (score_batch parse ist local utc c as_of d u) (batches (n - 1) (sort (map fst u)))) = ?scores"
    by (simp add: batched_scores)
  have "sc_candidates r = sort_key candidate_key (concat (map (score_batch parse ist local utc c as_of d u) (batches (n - 1) (sort (map fst u))))) \<and>
      sc_top r = take top_n (filter gl_deep (sort_key candidate_key
        (concat (map (score_batch parse ist local utc c as_of d u) (batches (n - 1) (sort (map fst u)))))))"
    using assms by (auto simp: scan_universe_def u Let_def split: if_splits)
  then have r: "sc_candidates r = sort_key candidate_key ?scores" "sc_top r = take top_n (filter gl_deep (sort_key candidate_key ?scores))"
    unfolding b by blast+
  have "map gl_instrument ?scores = sort (map fst u)" by (simp add: pre_score_instrument item_of_def Let_def comp_def)
  then have "distinct (map gl_instrument ?scores)" using du by simp
  then have c: "distinct (map gl_instrument (sc_candidates r))"
    unfolding r using distinct_map by (metis set_sort distinct_sort)
  then show "distinct (map gl_instrument (sc_candidates r))" .
  from c show "distinct (map gl_instrument (sc_top r))"
    unfolding r by (simp add: take_map[symmetric] distinct_map_filter distinct_take)
qed

lemma enriched_ok:
  assumes "enrich_candidates parse ist local utc tc sc w d contexts providers unready as_of cands = Inr es"
    and "valid_config tc" and "valid_sector_config sc" and "distinct (map gl_instrument cands)"
  shows "list_all well_formed_candidate (map ranker_view es)" and "distinct (map sb_instrument (map ranker_view es))"
    and "mset (map sb_instrument (map ranker_view es)) = mset (map gl_instrument (filter (\<lambda>c. gl_deep c \<or> unready \<and> gl_acquirable c) cands))"
proof -
  let ?kept = "filter (\<lambda>c. gl_deep c \<or> unready \<and> gl_acquirable c) cands"
  let ?one = "enrich_one parse ist local utc tc sc w d contexts providers as_of"
  have es: "es = sort_key enriched_key (map ?one ?kept)" using assms(1) by (auto simp: enrich_candidates_def split: if_splits)
  then show "list_all well_formed_candidate (map ranker_view es)"
    using enriched_well_formed[OF assms(2,3)] by (auto simp: list_all_iff)
  have "mset (map sb_instrument (map ranker_view es)) = mset (map (\<lambda>c. sb_instrument (ranker_view (?one c))) ?kept)"
    unfolding es by (simp add: mset_map image_mset.compositionality comp_def)
  then show m: "mset (map sb_instrument (map ranker_view es)) = mset (map gl_instrument ?kept)" by (simp only: enriched_instrument)
  have "distinct (map gl_instrument ?kept)" using assms(4) by (simp add: distinct_map_filter)
  with m show "distinct (map sb_instrument (map ranker_view es))" by (metis mset_eq_imp_distinct_iff)
qed

section \<open>A concrete universe\<close>

definition demo_instrument :: global_instrument where
  "demo_instrument = \<lparr>gi_currency = Some ''USD'',
     gi_mappings = [\<lparr>pm_status = Some ''VERIFIED'', pm_provider = Some ''Y'', pm_instrument_id = None, pm_symbol = Some ''A'', pm_resolution = None\<rparr>],
     gi_ticker = Some ''A'', gi_primary_symbol = None, gi_name = Some ''a'', gi_status = Some ''ACTIVE'',
     gi_asset_type = Some ''EQUITY'', gi_exchange = Some ''N'', gi_region = None, gi_country = None\<rparr>"

definition demo_store :: scan_store where
  "demo_store = \<lparr>st_snapshots = [], st_financials = [], st_prices = [], st_bars = [], st_calendar = \<lparr>cl_schedules = [], cl_exceptions = []\<rparr>\<rparr>"

lemma demo_identity: "identity_reasons demo_instrument (Some ''A'') = []"
  by (simp add: identity_reasons_def demo_instrument_def trusted_mappings_def or_text_def)

lemma demo_scan:
  "\<exists>r. scan_universe parse ist local utc c 1 demo_store [(Some ''i'', demo_instrument)] as_of n = Inr r \<and>
     map gl_instrument (filter gl_acquirable (sc_candidates r)) = [''i'']"
proof -
  have "gl_acquirable (pre_score parse ist local utc c as_of (item_of demo_store [(''i'', demo_instrument)] ''i''))"
    using demo_identity by (simp add: pre_score_def item_of_def Let_def demo_instrument_def or_text_def)
  then show ?thesis
    by (simp add: scan_universe_def score_batch_items sorted_set_def pre_score_instrument item_key Let_def)
qed

definition demo_universe_scan :: "nat \<Rightarrow> scan_error + scan_result" where
  "demo_universe_scan n = scan_universe (\<lambda>_. \<lparr>url_scheme = [], url_host = None, url_parts = [], url_flags = [], url_path_has_history = False\<rparr>)
     utc_date demo_local demo_utc default_pre_score n demo_store [(Some ''i'', demo_instrument), (Some ''j'', demo_instrument)] 0 3"

lemma batch_size_is_immaterial_witness: "demo_universe_scan 1 = demo_universe_scan 250"
  using batch_size_is_immaterial[of 1 250] by (simp add: demo_universe_scan_def)

end
