(* ===== verification/Requirements.thy ===== *)
theory Requirements
  imports StockEngine
begin

text \<open>
  What the research of an instrument requires (\<open>app/research_readiness.py\<close>): the requirements and their inputs,
  evidence and its freshness, the authority of sources and the grants for external tools; and which requirements
  apply (\<open>app/research_applicability.py\<close>).  Instants are microseconds; identifiers, sources and jurisdictions
  are the normalized keys that the constructors store and \<open>policy_for\<close> looks up.  Industry names are Latin-1.
\<close>

section \<open>Requirements\<close>

datatype importance = MANDATORY | IMPORTANT | SUPPORTING

datatype supported_action = FIND_DATA | UPLOAD_EVIDENCE | RUN_PARTIAL_ANALYSIS

record requirement_input =
  ri_id :: string
  ri_importance :: importance

record readiness_requirement =
  rq_id :: string
  rq_area :: area
  rq_mandatory :: bool
  rq_policy :: string
  rq_minimum :: nat
  rq_actions :: "supported_action list"
  rq_importance :: importance
  rq_inputs :: "requirement_input list"

text \<open>A requirement with the defaults of the class.\<close>

definition required :: "string \<Rightarrow> area \<Rightarrow> string \<Rightarrow> (string \<times> importance) list \<Rightarrow> readiness_requirement" where
  "required rid a policy inputs =
     \<lparr>rq_id = rid, rq_area = a, rq_mandatory = True, rq_policy = policy, rq_minimum = 1,
      rq_actions = [FIND_DATA, UPLOAD_EVIDENCE, RUN_PARTIAL_ANALYSIS], rq_importance = MANDATORY,
      rq_inputs = map (\<lambda>(i, m). \<lparr>ri_id = i, ri_importance = m\<rparr>) inputs\<rparr>"

definition valid_requirement :: "readiness_requirement \<Rightarrow> bool" where
  "valid_requirement r = (1 \<le> rq_minimum r \<and> distinct (map ri_id (rq_inputs r)))"

definition valid_registry :: "readiness_requirement list \<Rightarrow> bool" where
  "valid_registry rqs =
     (list_all valid_requirement rqs \<and> distinct (map rq_id rqs) \<and> list_all (\<lambda>a. a \<in> set (map rq_area rqs)) ALL_AREAS)"

definition DEFAULT_REQUIREMENTS :: "readiness_requirement list" where
  "DEFAULT_REQUIREMENTS =
     [required ''VALUATION_INPUTS'' VALUATION ''VALUATION_INPUTS''
        [(''LATEST_USABLE_PRICE'', MANDATORY), (''EARNINGS_BASIS'', MANDATORY), (''PE'', IMPORTANT), (''PB'', MANDATORY),
         (''EV_EBITDA'', SUPPORTING), (''FCF_YIELD'', SUPPORTING), (''HISTORICAL_OR_PEER_VALUATION'', SUPPORTING)],
      required ''BUSINESS_QUALITY_FACTS'' FUNDAMENTAL_BUSINESS_QUALITY ''ANNUAL_FINANCIALS''
        [(''PROFITABILITY_HISTORY'', MANDATORY), (''ROE'', MANDATORY), (''ROCE'', MANDATORY), (''MARGINS'', MANDATORY),
         (''CASH_CONVERSION_OR_FCF_QUALITY'', MANDATORY)],
      required ''GROWTH_FACTS'' GROWTH ''QUARTERLY_FINANCIALS''
        [(''REVENUE_HISTORY'', MANDATORY), (''EARNINGS_HISTORY'', MANDATORY), (''QUARTERLY_YOY_QOQ_TRENDS'', MANDATORY),
         (''ANNUAL_CAGR_INPUTS'', MANDATORY)],
      required ''BALANCE_SHEET_FACTS'' BALANCE_SHEET ''QUARTERLY_FINANCIALS''
        [(''FINANCIAL_SECTOR_CAPITAL_OR_ASSET_QUALITY'', MANDATORY), (''DEBT'', MANDATORY), (''EQUITY'', MANDATORY),
         (''CASH'', MANDATORY), (''INTEREST_COVERAGE_INPUTS'', SUPPORTING), (''LIQUIDITY_CURRENT_RATIO_INPUTS'', SUPPORTING)],
      required ''QUARTERLY_FINANCIALS'' QUARTERLY_EARNINGS_TREND ''QUARTERLY_FINANCIALS''
        [(''LATEST_QUARTERLY_RESULT'', MANDATORY), (''COMPARABLE_QUARTERS'', MANDATORY), (''QUARTERLY_REVENUE'', MANDATORY),
         (''QUARTERLY_PAT'', MANDATORY), (''QUARTERLY_EBITDA_OR_OPERATING_PROFIT'', IMPORTANT), (''QUARTERLY_EPS'', MANDATORY),
         (''QUARTERLY_MARGINS'', IMPORTANT)],
      required ''ORDER_BOOK_CAPEX_GUIDANCE'' ORDER_BOOK_CAPACITY_CATALYSTS ''ORDER_BOOK_CAPEX_GUIDANCE''
        [(''MATERIAL_CATALYST_EVIDENCE'', MANDATORY), (''ORDER_BOOK_OR_MAJOR_CONTRACT'', MANDATORY),
         (''CAPACITY_OR_CAPEX_OR_COMMISSIONING'', MANDATORY), (''MANAGEMENT_GUIDANCE'', SUPPORTING)],
      required ''LATEST_PRICE'' PRICE_TECHNICAL ''LATEST_PRICE'' [(''LATEST_USABLE_PRICE'', MANDATORY)],
      required ''HISTORICAL_PRICE_SERIES'' PRICE_TECHNICAL ''HISTORICAL_PRICE_SERIES''
        [(''DURABLE_PRICE_OBSERVATIONS'', MANDATORY), (''FIFTY_OBSERVATION_TECHNICAL_BASIS'', MANDATORY),
         (''ONE_HUNDRED_FIFTY_OBSERVATION_TECHNICAL_BASIS'', SUPPORTING)],
      required ''CURRENT_NEWS'' NEWS_GEOPOLITICAL_EVENTS ''CURRENT_NEWS'' [(''RELEVANT_CURRENT_EVENT_EVIDENCE'', MANDATORY)],
      required ''SHAREHOLDING'' SHAREHOLDING ''SHAREHOLDING''
        [(''LATEST_VALID_SHAREHOLDING_PERIOD'', MANDATORY), (''PROMOTER_INSTITUTIONAL_PUBLIC_CATEGORIES'', MANDATORY),
         (''PROMOTER_PLEDGE'', SUPPORTING)],
      required ''GOVERNANCE_HISTORY'' MANAGEMENT_GOVERNANCE ''GOVERNANCE_HISTORY'' [(''GOVERNANCE_EVIDENCE'', MANDATORY)],
      required ''SECTOR_MACRO'' SECTOR_MACRO ''SECTOR_MACRO''
        [(''CANONICAL_SECTOR'', MANDATORY), (''SECTOR_PERFORMANCE'', IMPORTANT), (''RELEVANT_MACRO_EVENT_EXPOSURE'', SUPPORTING)]]"

section \<open>Evidence and freshness\<close>

record research_evidence =
  ev_id :: string
  ev_requirement :: string
  ev_source :: string
  ev_tier :: source_tier
  ev_retrieved :: int
  ev_as_of :: "int option"
  ev_published :: "int option"
  ev_event_date :: "int option"
  ev_valid_until :: "int option"
  ev_fact_key :: "string option"
  ev_value :: "string option"
  ev_complete :: bool
  ev_unresolved :: bool
  ev_url :: "string option"
  ev_inputs :: "string list"

datatype date_basis = AS_OF_OR_RETRIEVED | EVENT_OR_PUBLICATION

record freshness_policy =
  fr_id :: string
  fr_max_age :: "int option"
  fr_basis :: date_basis
  fr_window :: "int option"
  fr_retain :: bool

definition valid_policy :: "freshness_policy \<Rightarrow> bool" where
  "valid_policy p = ((case fr_max_age p of None \<Rightarrow> True | Some a \<Rightarrow> 0 < a) \<and> (case fr_window p of None \<Rightarrow> True | Some w \<Rightarrow> 0 < w))"

definition or_else :: "'a option \<Rightarrow> 'a option \<Rightarrow> 'a option" where
  "or_else a b = (if a = None then b else a)"

definition evidence_time :: "freshness_policy \<Rightarrow> research_evidence \<Rightarrow> int option" where
  "evidence_time p e =
     (case fr_basis p of
        EVENT_OR_PUBLICATION \<Rightarrow> or_else (ev_event_date e) (ev_published e)
      | AS_OF_OR_RETRIEVED \<Rightarrow> or_else (ev_as_of e) (or_else (ev_published e) (Some (ev_retrieved e))))"

definition evidence_age :: "freshness_policy \<Rightarrow> research_evidence \<Rightarrow> int \<Rightarrow> int option" where
  "evidence_age p e now = map_option (\<lambda>t. now - t) (evidence_time p e)"

definition is_fresh :: "freshness_policy \<Rightarrow> research_evidence \<Rightarrow> int \<Rightarrow> bool" where
  "is_fresh p e now =
     (if fr_retain p \<and> ev_unresolved e then True
      else case ev_valid_until e of Some v \<Rightarrow> now \<le> v
      | None \<Rightarrow> (case evidence_age p e now of None \<Rightarrow> False
          | Some a \<Rightarrow> 0 \<le> a \<and> (case fr_max_age p of None \<Rightarrow> True | Some m \<Rightarrow> a \<le> m)))"

definition hours :: "int \<Rightarrow> int" where "hours n = n * 3600000000"

definition aged :: "string \<Rightarrow> int \<Rightarrow> freshness_policy" where
  "aged k age = \<lparr>fr_id = k, fr_max_age = Some age, fr_basis = AS_OF_OR_RETRIEVED, fr_window = None, fr_retain = False\<rparr>"

definition DEFAULT_POLICIES :: "freshness_policy list" where
  "DEFAULT_POLICIES =
     [aged ''LATEST_PRICE'' (15 * 60000000), aged ''HISTORICAL_PRICE_SERIES'' (hours 36),
      aged ''QUARTERLY_FINANCIALS'' (120 * DAY), aged ''ANNUAL_FINANCIALS'' (400 * DAY), aged ''SHAREHOLDING'' (120 * DAY),
      aged ''ORDER_BOOK_CAPEX_GUIDANCE'' (30 * DAY), aged ''VALUATION_INPUTS'' DAY,
      (aged ''CURRENT_NEWS'' DAY)\<lparr>fr_basis := EVENT_OR_PUBLICATION, fr_window := Some (30 * DAY)\<rparr>,
      (aged ''GOVERNANCE_HISTORY'' (365 * DAY))\<lparr>fr_basis := EVENT_OR_PUBLICATION, fr_retain := True\<rparr>,
      aged ''SECTOR_MACRO'' DAY]"

definition policy_named :: "freshness_policy list \<Rightarrow> string \<Rightarrow> freshness_policy option" where
  "policy_named ps k = find (\<lambda>p. fr_id p = k) ps"

section \<open>Authority\<close>

fun tier_rank :: "source_tier \<Rightarrow> nat" where
  "tier_rank OFFICIAL = 0"
| "tier_rank REGULATORY = 1"
| "tier_rank TRUSTED_MARKET_DATA = 2"
| "tier_rank LICENSED_STRUCTURED = 3"
| "tier_rank APPROVED_SECONDARY = 4"
| "tier_rank APPROVED_EXTERNAL_TOOL = 5"
| "tier_rank StockRules.USER_UPLOAD = 6"
| "tier_rank UNVERIFIED = 7"

record fallback_policy =
  fb_triggers :: "requirement_state list"
  fb_low_confidence :: rat
  fb_external :: bool

definition default_fallback :: fallback_policy where
  "default_fallback = \<lparr>fb_triggers = [MISSING, PARTIAL, CONFLICTING, FAILED], fb_low_confidence = fl64 (7 / 10), fb_external = True\<rparr>"

definition permits :: "fallback_policy \<Rightarrow> requirement_state \<Rightarrow> rat option \<Rightarrow> bool" where
  "permits f st conf =
     ((st \<in> set (fb_triggers f) \<or> (case conf of None \<Rightarrow> False | Some c \<Rightarrow> c < fb_low_confidence f)) \<and> fb_external f)"

record authorization =
  az_instrument :: string
  az_requirement :: string
  az_providers :: "string list"
  az_issued_at :: int

text \<open>A grant without a provider is refused by its constructor.\<close>

datatype grant_error = NO_PERMITTED_PROVIDER

definition authorize_external_tool ::
    "fallback_policy \<Rightarrow> string \<Rightarrow> string \<Rightarrow> requirement_state \<Rightarrow> rat option \<Rightarrow> string list \<Rightarrow> int \<Rightarrow> grant_error + authorization option" where
  "authorize_external_tool f instrument rid st conf providers now =
     (if \<not> permits f st conf then Inr None
      else if providers = [] then Inl NO_PERMITTED_PROVIDER
      else Inr (Some \<lparr>az_instrument = instrument, az_requirement = rid, az_providers = providers, az_issued_at = now\<rparr>))"

record authority_policy =
  au_requirement :: string
  au_jurisdiction :: string
  au_authorities :: "(string \<times> source_tier) list"
  au_fallback :: fallback_policy

fun index_of :: "string \<Rightarrow> (string \<times> source_tier) list \<Rightarrow> nat option" where
  "index_of s [] = None"
| "index_of s ((a, _) # rest) = (if a = s then Some 0 else map_option Suc (index_of s rest))"

definition authority_rank :: "authority_policy \<Rightarrow> research_evidence \<Rightarrow> nat \<times> nat" where
  "authority_rank au e =
     (case index_of (ev_source e) (au_authorities au) of
        Some i \<Rightarrow> (i, tier_rank (ev_tier e))
      | None \<Rightarrow> (length (au_authorities au) + 1, tier_rank (ev_tier e)))"

definition policy_for :: "authority_policy list \<Rightarrow> string \<Rightarrow> string \<Rightarrow> authority_policy option" where
  "policy_for aus requirement region =
     or_else (find (\<lambda>a. au_requirement a = requirement \<and> au_jurisdiction a = region) aus)
       (find (\<lambda>a. au_requirement a = requirement \<and> au_jurisdiction a = ''GLOBAL'') aus)"

definition SECONDARY_SOURCES :: "(string \<times> source_tier) list" where
  "SECONDARY_SOURCES = [(''APPROVED_SECONDARY'', APPROVED_SECONDARY), (''APPROVED_EXTERNAL_TOOL'', APPROVED_EXTERNAL_TOOL),
     (''USER_UPLOAD'', StockRules.USER_UPLOAD)]"

definition LICENSED_SOURCES :: "(string \<times> source_tier) list" where
  "LICENSED_SOURCES = (''LICENSED_STRUCTURED'', LICENSED_STRUCTURED) # SECONDARY_SOURCES"

definition FINANCIAL_SOURCES :: "(string \<times> (string \<times> source_tier) list) list" where
  "FINANCIAL_SOURCES =
     [(''GLOBAL'', [(''REGULATORY_FILING'', REGULATORY), (''COMPANY_FILING'', OFFICIAL)] @ LICENSED_SOURCES),
      (''INDIA'', [(''NSE'', OFFICIAL), (''COMPANY_FILING'', OFFICIAL)] @ LICENSED_SOURCES),
      (''USA'', [(''SEC_EDGAR'', REGULATORY), (''COMPANY_FILING'', OFFICIAL)] @ LICENSED_SOURCES),
      (''EUROPE'', [(''REGULATORY_FILING'', REGULATORY), (''COMPANY_FILING'', OFFICIAL), (''EODHD'', LICENSED_STRUCTURED)] @ SECONDARY_SOURCES)]"

definition FINANCIAL_REQUIREMENTS :: "string list" where
  "FINANCIAL_REQUIREMENTS =
     [''VALUATION_INPUTS'', ''BUSINESS_QUALITY_FACTS'', ''GROWTH_FACTS'', ''BALANCE_SHEET_FACTS'', ''QUARTERLY_FINANCIALS'']"

definition MARKET_SOURCES :: "(string \<times> source_tier) list" where
  "MARKET_SOURCES = [(''CONFIGURED_MARKET_DATA'', TRUSTED_MARKET_DATA), (''EXCHANGE_MARKET_DATA'', OFFICIAL),
     (''LICENSED_MARKET_DATA'', LICENSED_STRUCTURED), (''YAHOO_FINANCE'', APPROVED_SECONDARY)]"

definition authority_for :: "string \<Rightarrow> string \<Rightarrow> (string \<times> source_tier) list \<Rightarrow> authority_policy" where
  "authority_for rid region sources =
     \<lparr>au_requirement = rid, au_jurisdiction = region, au_authorities = sources, au_fallback = default_fallback\<rparr>"

definition DEFAULT_AUTHORITIES :: "authority_policy list" where
  "DEFAULT_AUTHORITIES =
     concat (map (\<lambda>rid. map (\<lambda>(region, sources). authority_for rid region sources) FINANCIAL_SOURCES) FINANCIAL_REQUIREMENTS) @
     [authority_for ''LATEST_PRICE'' ''GLOBAL'' MARKET_SOURCES, authority_for ''HISTORICAL_PRICE_SERIES'' ''GLOBAL'' MARKET_SOURCES,
      authority_for ''SHAREHOLDING'' ''INDIA'' [(''NSE'', OFFICIAL), (''COMPANY_FILING'', OFFICIAL), (''LICENSED_STRUCTURED'', LICENSED_STRUCTURED),
        (''APPROVED_EXTERNAL_TOOL'', APPROVED_EXTERNAL_TOOL), (''USER_UPLOAD'', StockRules.USER_UPLOAD)],
      authority_for ''SHAREHOLDING'' ''GLOBAL'' ([(''REGULATORY_FILING'', REGULATORY), (''COMPANY_FILING'', OFFICIAL)] @ LICENSED_SOURCES),
      authority_for ''ORDER_BOOK_CAPEX_GUIDANCE'' ''GLOBAL'' ([(''COMPANY_FILING'', OFFICIAL), (''REGULATORY_FILING'', REGULATORY)] @ SECONDARY_SOURCES),
      authority_for ''CURRENT_NEWS'' ''GLOBAL'' [(''SEARCH_COVERAGE'', APPROVED_SECONDARY), (''REGULATORY_FILING'', REGULATORY),
        (''OFFICIAL_COMPANY'', OFFICIAL), (''REPUTABLE_NEWS'', APPROVED_SECONDARY),
        (''APPROVED_EXTERNAL_TOOL'', APPROVED_EXTERNAL_TOOL), (''USER_UPLOAD'', StockRules.USER_UPLOAD)],
      authority_for ''GOVERNANCE_HISTORY'' ''GLOBAL'' [(''REGULATOR_OR_COURT_RECORD'', REGULATORY), (''COMPANY_FILING'', OFFICIAL),
        (''REPUTABLE_NEWS'', APPROVED_SECONDARY), (''APPROVED_EXTERNAL_TOOL'', APPROVED_EXTERNAL_TOOL), (''USER_UPLOAD'', StockRules.USER_UPLOAD)],
      authority_for ''SECTOR_MACRO'' ''GLOBAL'' [(''OFFICIAL_STATISTICS_OR_CENTRAL_BANK'', OFFICIAL),
        (''EXCHANGE_OR_INDEX_PROVIDER'', TRUSTED_MARKET_DATA), (''LICENSED_STRUCTURED'', LICENSED_STRUCTURED),
        (''REPUTABLE_NEWS'', APPROVED_SECONDARY), (''APPROVED_EXTERNAL_TOOL'', APPROVED_EXTERNAL_TOOL), (''USER_UPLOAD'', StockRules.USER_UPLOAD)],
      (authority_for ''CANONICAL_IDENTITY'' ''GLOBAL'' [(''ISIN_OR_PERMANENT_ID'', OFFICIAL), (''EXACT_EXCHANGE_AND_SYMBOL'', REGULATORY),
        (''NAME_CONFIRMATION'', UNVERIFIED)])\<lparr>au_fallback := default_fallback\<lparr>fb_external := False\<rparr>\<rparr>]"

section \<open>Applicability\<close>

record concept_decision =
  cd_state :: string
  cd_reason :: "string option"

record applicability =
  ap_state :: string
  ap_reason :: "string option"
  ap_classification :: "string option"
  ap_source :: "string option"
  ap_excluded :: "(string \<times> string) list"
  ap_concepts :: "(string \<times> concept_decision) list"

definition applicable :: applicability where
  "applicable = \<lparr>ap_state = ''APPLICABLE'', ap_reason = None, ap_classification = None, ap_source = None, ap_excluded = [], ap_concepts = []\<rparr>"

fun subtype_name :: "financial_subtype \<Rightarrow> string" where
  "subtype_name ASSET_MANAGEMENT = ''ASSET_MANAGEMENT''"
| "subtype_name FINANCIAL_SECTOR = ''FINANCIAL_SECTOR''"
| "subtype_name CORPORATE = ''CORPORATE''"

definition balance_sheet_applicability :: "string option \<Rightarrow> string option \<Rightarrow> applicability" where
  "balance_sheet_applicability industry sector =
     \<lparr>ap_state = ''PARTIALLY_APPLICABLE'', ap_reason = Some ''BALANCE_SHEET_SUBTYPE_INPUTS'',
      ap_classification = Some (subtype_name (classify_financial_subtype industry sector)), ap_source = None,
      ap_excluded = map (\<lambda>k. (k, ''NOT_APPLICABLE_BUSINESS_MODEL'')) (balance_sheet_excluded industry sector),
      ap_concepts = []\<rparr>"

text \<open>\<open>re.sub(r"[^a-z0-9]+", " ", s).strip()\<close>.\<close>

fun squash_all :: "bool \<Rightarrow> string \<Rightarrow> string" where
  "squash_all in_run [] = []"
| "squash_all in_run (c # cs) =
     (if alnum c then c # squash_all False cs else if in_run then squash_all True cs else CHR '' '' # squash_all True cs)"

definition industry_text :: "string option \<Rightarrow> string option \<Rightarrow> string" where
  "industry_text industry source =
     (let text = (if or_text industry \<noteq> [] \<and> or_text source \<noteq> [] then strip (squash_all False (lower (or_text industry))) else [])
      in if text \<in> {''unknown'', ''unclassified'', ''not available'', ''other'', ''n a'', ''na''} then [] else text)"

definition CONTRACTED_TERMS :: "string list" where
  "CONTRACTED_TERMS = [''engineering'', ''construction'', ''aerospace'', ''defense'', ''defence'', ''electrical equipment'',
     ''industrial machinery'', ''software'', ''shipbuilding'']"

definition concept_decisions :: "string \<Rightarrow> (string \<times> concept_decision) list" where
  "concept_decisions text =
     (let financial = list_ex (\<lambda>w. contains w text) FINANCIAL_CLASSIFICATION_TERMS;
          contracted = list_ex (\<lambda>w. contains w text) CONTRACTED_TERMS;
          open_to_all = (if text \<noteq> [] then \<lparr>cd_state = ''APPLICABLE'', cd_reason = Some ''APPLICABLE_BUSINESS_MODEL''\<rparr>
            else \<lparr>cd_state = ''UNKNOWN'', cd_reason = Some ''UNKNOWN_CLASSIFICATION''\<rparr>)
      in [(''ORDER_BOOK'', if financial then \<lparr>cd_state = ''NOT_APPLICABLE'', cd_reason = Some ''NOT_APPLICABLE_BUSINESS_MODEL''\<rparr>
             else if contracted then \<lparr>cd_state = ''APPLICABLE'', cd_reason = Some ''APPLICABLE_BUSINESS_MODEL''\<rparr>
             else \<lparr>cd_state = ''UNKNOWN'', cd_reason = Some ''UNKNOWN_CLASSIFICATION''\<rparr>),
          (''CAPEX'', open_to_all), (''GUIDANCE'', open_to_all)])"

definition input_of_concept :: "string \<Rightarrow> string" where
  "input_of_concept c = the (map_of CONCEPT_INPUTS c)"

definition classify_requirements ::
    "string option \<Rightarrow> string option \<Rightarrow> string option \<Rightarrow> string option \<Rightarrow> (string \<times> applicability) list" where
  "classify_requirements sector industry source asset_type =
     (let text = industry_text industry source;
          name = (\<lambda>s. if or_text s \<noteq> [] then or_text s else ''unknown'');
          common = applicable\<lparr>ap_classification := Some (name sector @ '' / '' @ name industry), ap_source := source\<rparr>;
          decisions = concept_decisions text;
          excluded = map (\<lambda>(k, d). (input_of_concept k, or_text (cd_reason d))) (filter (\<lambda>(_, d). cd_state d = ''NOT_APPLICABLE'') decisions);
          none = \<lparr>cd_state = ''NOT_APPLICABLE'', cd_reason = Some ''NOT_APPLICABLE_ASSET_TYPE''\<rparr>
      in if upper (or_text asset_type) \<in> {''ETF'', ''MUTUAL_FUND'', ''INDEX'', ''BOND''}
         then [(''ORDER_BOOK_CAPEX_GUIDANCE'', common\<lparr>ap_state := ''NOT_APPLICABLE'', ap_reason := Some ''NOT_APPLICABLE_ASSET_TYPE'',
                  ap_excluded := map (\<lambda>(_, v). (v, ''NOT_APPLICABLE_ASSET_TYPE'')) CONCEPT_INPUTS,
                  ap_concepts := map (\<lambda>(k, _). (k, none)) CONCEPT_INPUTS\<rparr>)]
         else
           [(''ORDER_BOOK_CAPEX_GUIDANCE'', common\<lparr>
               ap_state := (if excluded \<noteq> [] then ''PARTIALLY_APPLICABLE'' else if text \<noteq> [] then ''APPLICABLE'' else ''UNKNOWN''),
               ap_reason := Some ''INDEPENDENT_CONCEPT_APPLICABILITY'', ap_excluded := excluded, ap_concepts := decisions\<rparr>)] @
           (if list_ex (\<lambda>w. contains w text) FINANCIAL_CLASSIFICATION_TERMS
            then [(''BUSINESS_QUALITY_FACTS'', common\<lparr>ap_state := ''PARTIALLY_APPLICABLE'', ap_reason := Some ''INDUSTRIAL_ROCE_NOT_APPLICABLE'',
                     ap_excluded := [(''ROCE'', ''INDUSTRIAL_CAPITAL_EMPLOYED_NOT_APPLICABLE'')]\<rparr>)] else []) @
           [(''BALANCE_SHEET_FACTS'', balance_sheet_applicability industry sector)])"

section \<open>Fields of a shareholding period\<close>

record holding_source = holding_snapshot +
  hs_type :: string
  hs_locators :: "string option list"

definition shareholding_input_coverage :: "holding_source \<Rightarrow> string list" where
  "shareholding_input_coverage s =
     (let categories = map fst (hs_values s)
      in ''LATEST_VALID_SHAREHOLDING_PERIOD'' #
         (if list_ex (\<lambda>c. c \<in> {PROMOTER, FII_FPI, DII, PUBLIC_RETAIL}) categories then [''PROMOTER_INSTITUTIONAL_PUBLIC_CATEGORIES''] else []) @
         (if PROMOTER_PLEDGE \<in> set categories then [''PROMOTER_PLEDGE''] else []))"

definition shareholding_source_authority_rank :: "holding_source \<Rightarrow> nat" where
  "shareholding_source_authority_rank s =
     (let is_nse = (upper (hs_provider s) = ''NSE'')
      in if is_nse \<and> (hs_type s = ''NSE_SHAREHOLDING_XBRL'' \<or> list_ex (\<lambda>l. take 9 (or_text l) = ''nse-xbrl:'') (hs_locators s)) then 0
         else if upper (hs_provider s) = ''YAHOO_FINANCE_MCP'' then 2 else if is_nse then 3 else 4)"

fun claim_fields :: "string list \<Rightarrow> holding_source list \<Rightarrow> (holding_source \<times> string list) list" where
  "claim_fields claimed [] = []"
| "claim_fields claimed (s # rest) =
     (let covered = filter (\<lambda>f. f \<notin> set claimed) (shareholding_input_coverage s)
      in if covered = [] then claim_fields claimed rest else (s, covered) # claim_fields (claimed @ covered) rest)"

definition shareholding_field_merge :: "holding_source list \<Rightarrow> (holding_source \<times> string list) list" where
  "shareholding_field_merge snapshots = claim_fields [] (sort_key shareholding_source_authority_rank snapshots)"

lemma coverage_distinct [simp]: "distinct (shareholding_input_coverage s)"
  by (simp add: shareholding_input_coverage_def Let_def)

lemma claim_fields_once:
  "distinct (concat (map snd (claim_fields claimed ss))) \<and>
   set (concat (map snd (claim_fields claimed ss))) = (\<Union>s \<in> set ss. set (shareholding_input_coverage s)) - set claimed"
proof (induction claimed ss rule: claim_fields.induct)
  case (2 claimed s rest)
  let ?c = "filter (\<lambda>f. f \<notin> set claimed) (shareholding_input_coverage s)"
  show ?case
  proof (cases "?c = []")
    case True
    then have "set (shareholding_input_coverage s) \<subseteq> set claimed" by (auto simp: filter_empty_conv)
    with 2(1)[OF refl True] show ?thesis using True by auto
  next
    case False
    have c: "claim_fields claimed (s # rest) = (s, ?c) # claim_fields (claimed @ ?c) rest" using False by (simp add: Let_def)
    from 2(2)[OF refl False] show ?thesis unfolding c by (auto simp: set_eq_iff)
  qed
qed simp

lemma claim_fields_by_authority:
  assumes "sorted (map shareholding_source_authority_rank ss)" and "(s, fs) \<in> set (claim_fields claimed ss)"
  shows "s \<in> set ss \<and> fs \<noteq> [] \<and> set fs \<subseteq> set (shareholding_input_coverage s) - set claimed \<and>
    (\<forall>f \<in> set fs. \<not> (\<exists>x \<in> set ss. f \<in> set (shareholding_input_coverage x) \<and>
       shareholding_source_authority_rank x < shareholding_source_authority_rank s))"
  using assms
proof (induction claimed ss rule: claim_fields.induct)
  case (2 claimed a rest)
  let ?c = "filter (\<lambda>f. f \<notin> set claimed) (shareholding_input_coverage a)"
  have rest: "sorted (map shareholding_source_authority_rank rest)" and
    least: "\<forall>x \<in> set rest. shareholding_source_authority_rank a \<le> shareholding_source_authority_rank x"
    using 2(3) by auto
  show ?case
  proof (cases "?c = []")
    case True
    then have "set (shareholding_input_coverage a) \<subseteq> set claimed" by (auto simp: filter_empty_conv)
    with 2(1)[OF refl True rest] show ?thesis using 2(4) True by auto
  next
    case False
    then have "claim_fields claimed (a # rest) = (a, ?c) # claim_fields (claimed @ ?c) rest" by (simp add: Let_def)
    then consider "s = a" "fs = ?c" | "(s, fs) \<in> set (claim_fields (claimed @ ?c) rest)" using 2(4) by auto
    then show ?thesis
    proof cases
      case 1
      then show ?thesis using False least by (auto simp: not_less)
    next
      case 2
      from "2.IH"(2)[OF refl False rest this] show ?thesis by auto
    qed
  qed
qed simp

text \<open>C40: The merge of the snapshots of a period attributes every field that any of them covers exactly once, to a
  snapshot of the highest authority that covers it; a snapshot that adds nothing is left out.\<close>

theorem fields_claimed_by_authority:
  "distinct (concat (map snd (shareholding_field_merge ss))) \<and>
   set (concat (map snd (shareholding_field_merge ss))) = (\<Union>s \<in> set ss. set (shareholding_input_coverage s)) \<and>
   (\<forall>(s, fs) \<in> set (shareholding_field_merge ss). s \<in> set ss \<and> fs \<noteq> [] \<and>
     (\<forall>f \<in> set fs. f \<in> set (shareholding_input_coverage s) \<and>
        (\<forall>x \<in> set ss. f \<in> set (shareholding_input_coverage x) \<longrightarrow>
           shareholding_source_authority_rank s \<le> shareholding_source_authority_rank x)))"
proof -
  let ?ss = "sort_key shareholding_source_authority_rank ss"
  have "s \<in> set ss \<and> fs \<noteq> [] \<and> (\<forall>f \<in> set fs. f \<in> set (shareholding_input_coverage s) \<and>
      (\<forall>x \<in> set ss. f \<in> set (shareholding_input_coverage x) \<longrightarrow> shareholding_source_authority_rank s \<le> shareholding_source_authority_rank x))"
    if "(s, fs) \<in> set (shareholding_field_merge ss)" for s fs
    using claim_fields_by_authority[of ?ss s fs "[]"] that unfolding shareholding_field_merge_def
    by (fastforce simp: not_less)
  moreover note claim_fields_once[of "[]" ?ss]
  ultimately show ?thesis unfolding shareholding_field_merge_def by auto
qed

text \<open>A filing of the exchange that lacks the pledge, and a snapshot of the external provider that has it: the provider adds
  the pledge and nothing else.\<close>

definition exchange_holding :: holding_source where
  "exchange_holding = \<lparr>hs_id = ''nse'', hs_period_end = 0, hs_provider = ''nse'', hs_values = [(PROMOTER, 50), (DII, 10)],
     hs_type = ''NSE_SHAREHOLDING_XBRL'', hs_locators = [None, None]\<rparr>"

definition provider_holding :: holding_source where
  "provider_holding = \<lparr>hs_id = ''yahoo'', hs_period_end = 0, hs_provider = ''YAHOO_FINANCE_MCP'',
     hs_values = [(PROMOTER, 51), (PROMOTER_PLEDGE, 0)], hs_type = ''API'', hs_locators = [None, None]\<rparr>"

lemma holding_merge: "shareholding_field_merge [provider_holding, exchange_holding] =
    [(exchange_holding, [''LATEST_VALID_SHAREHOLDING_PERIOD'', ''PROMOTER_INSTITUTIONAL_PUBLIC_CATEGORIES'']),
     (provider_holding, [''PROMOTER_PLEDGE''])]"
  by code_simp

theorem fields_claimed_by_authority_witness:
  "shareholding_source_authority_rank exchange_holding \<le> shareholding_source_authority_rank provider_holding \<and>
   shareholding_field_merge [provider_holding, exchange_holding] \<noteq> [] \<and>
   shareholding_input_coverage provider_holding \<noteq> [''PROMOTER_PLEDGE'']"
proof -
  let ?ss = "[provider_holding, exchange_holding]"
  have "\<forall>f \<in> set [''LATEST_VALID_SHAREHOLDING_PERIOD'', ''PROMOTER_INSTITUTIONAL_PUBLIC_CATEGORIES''].
      \<forall>x \<in> set ?ss. f \<in> set (shareholding_input_coverage x) \<longrightarrow>
        shareholding_source_authority_rank exchange_holding \<le> shareholding_source_authority_rank x"
    using fields_claimed_by_authority[of ?ss] unfolding holding_merge by simp
  moreover have "''LATEST_VALID_SHAREHOLDING_PERIOD'' \<in> set (shareholding_input_coverage provider_holding)" by code_simp
  ultimately have "shareholding_source_authority_rank exchange_holding \<le> shareholding_source_authority_rank provider_holding"
    by simp
  then show ?thesis unfolding holding_merge by code_simp
qed

end
