(* ===== verification/Readiness.thy ===== *)
theory Readiness
  imports Requirements
begin

text \<open>
  The assessment of the durable research of an instrument (\<open>app/research_readiness.py\<close>): selection and conflicts,
  coverage, the classification of every requirement, the completeness of the whole, the plan of what to acquire,
  and what the rule engine reads of it.
\<close>

section \<open>Selection and conflicts\<close>

definition authority_time :: "research_evidence \<Rightarrow> int" where
  "authority_time e = the (or_else (ev_as_of e) (or_else (ev_published e) (Some (ev_retrieved e))))"

text \<open>The order of a selection: authority, then recency, then retrieval, then the identifier.\<close>

definition selection_key :: "authority_policy \<Rightarrow> research_evidence \<Rightarrow> (nat \<times> nat) \<times> int \<times> int \<times> string" where
  "selection_key au e = (authority_rank au e, - authority_time e, - ev_retrieved e, ev_id e)"

definition selected_evidence :: "authority_policy \<Rightarrow> research_evidence list \<Rightarrow> research_evidence option" where
  "selected_evidence au es = (if es = [] then None else Some (py_min (selection_key au) es))"

definition keyed :: "research_evidence \<Rightarrow> bool" where
  "keyed e = (or_text (ev_fact_key e) \<noteq> [] \<and> ev_value e \<noteq> None)"

definition top_peers :: "authority_policy \<Rightarrow> research_evidence list \<Rightarrow> research_evidence list" where
  "top_peers au es = filter (\<lambda>e. authority_rank au e = Min (set (map (authority_rank au) es))) es"

definition fingerprint :: "research_evidence \<Rightarrow> string" where
  "fingerprint e = lower (strip (or_text (ev_value e)))"

definition fact_group :: "research_evidence list \<Rightarrow> string \<Rightarrow> research_evidence list" where
  "fact_group es k = filter (\<lambda>e. keyed e \<and> or_text (ev_fact_key e) = k) es"

definition disputed :: "authority_policy \<Rightarrow> research_evidence list \<Rightarrow> string \<Rightarrow> bool" where
  "disputed au es k = (1 < length (remdups (map fingerprint (top_peers au (fact_group es k)))))"

definition conflict_reason :: "authority_policy \<Rightarrow> research_evidence list \<Rightarrow> string option" where
  "conflict_reason au es =
     (case filter (disputed au es) (sorted_set (map (or_text \<circ> ev_fact_key) (filter keyed es))) of
        [] \<Rightarrow> None
      | k # _ \<Rightarrow> Some (''EQUAL_AUTHORITY_CONFLICT:'' @ k @ '':'' @ join_with '','' (sort (map ev_id (top_peers au (fact_group es k))))))"

section \<open>Coverage\<close>

definition score_input_evidence :: "freshness_policy \<Rightarrow> int \<Rightarrow> research_evidence list \<Rightarrow> research_evidence list" where
  "score_input_evidence p now es =
     (case fr_window p of None \<Rightarrow> es
      | Some w \<Rightarrow> filter (\<lambda>e. case or_else (ev_event_date e) (ev_published e) of None \<Rightarrow> False | Some t \<Rightarrow> now - w \<le> t \<and> t \<le> now) es)"

definition input_ids :: "readiness_requirement \<Rightarrow> string list" where
  "input_ids r = map ri_id (rq_inputs r)"

definition mandatory_ids :: "readiness_requirement \<Rightarrow> string list" where
  "mandatory_ids r = map ri_id (filter (\<lambda>i. ri_importance i = MANDATORY) (rq_inputs r))"

text \<open>Evidence without a list of inputs covers all of them.\<close>

definition covers_input :: "readiness_requirement \<Rightarrow> string \<Rightarrow> research_evidence \<Rightarrow> bool" where
  "covers_input r i e = (ev_complete e \<and> i \<in> set (if ev_inputs e = [] then input_ids r else ev_inputs e))"

definition covered_input_ids :: "readiness_requirement \<Rightarrow> research_evidence list \<Rightarrow> string list" where
  "covered_input_ids r es = filter (\<lambda>i. list_ex (covers_input r i) es) (input_ids r)"

fun importance_weight :: "importance \<Rightarrow> int" where
  "importance_weight MANDATORY = 3"
| "importance_weight IMPORTANT = 2"
| "importance_weight SUPPORTING = 1"

definition percent_int :: "int \<Rightarrow> int \<Rightarrow> int" where
  "percent_int n d = rnd_even (fl64 (of_int (100 * n) / of_int d))"

definition requirement_coverage :: "readiness_requirement \<Rightarrow> string list \<Rightarrow> bool \<Rightarrow> int \<times> int" where
  "requirement_coverage r covered has_evidence =
     (if rq_inputs r = [] then (if has_evidence then (100, 100) else (0, 0))
      else
        let weight = (\<lambda>xs. sum_list (map (importance_weight \<circ> ri_importance) xs));
            overall = percent_int (weight (filter (\<lambda>i. ri_id i \<in> set covered) (rq_inputs r))) (weight (rq_inputs r));
            mandatory = mandatory_ids r
        in (overall, if mandatory = [] then overall
              else percent_int (int (length (filter (\<lambda>i. i \<in> set covered) mandatory))) (int (length mandatory))))"

section \<open>The snapshot\<close>

record observation =
  ob_news :: "string option"
  ob_outcomes :: "string list"

record durable_snapshot =
  ds_instrument :: string
  ds_evidence :: "(string \<times> research_evidence list) list"
  ds_supported :: "string list option"
  ds_refreshing :: "string list"
  ds_failures :: "(string \<times> string) list"
  ds_applicability :: "(string \<times> applicability) list"
  ds_observations :: "(string \<times> observation) list"

definition durable_evidence_of :: "durable_snapshot \<Rightarrow> string \<Rightarrow> research_evidence list" where
  "durable_evidence_of d k = (case map_of (ds_evidence d) k of None \<Rightarrow> [] | Some es \<Rightarrow> es)"

definition observation_of :: "durable_snapshot \<Rightarrow> string \<Rightarrow> observation" where
  "observation_of d k = (case map_of (ds_observations d) k of None \<Rightarrow> \<lparr>ob_news = None, ob_outcomes = []\<rparr> | Some v \<Rightarrow> v)"

definition applicability_of :: "durable_snapshot \<Rightarrow> string \<Rightarrow> applicability" where
  "applicability_of d k =
     (case map_of (ds_applicability d) k of Some a \<Rightarrow> a
      | None \<Rightarrow> if k = ''BALANCE_SHEET_FACTS'' then balance_sheet_applicability None None else applicable)"

datatype readiness_error =
    NO_FRESHNESS_POLICY string | NO_AUTHORITY_POLICY string | UNKNOWN_CONCEPT string | INCOMPARABLE_TIMES | FOREIGN_SNAPSHOT

record requirement_readiness =
  rx_id :: string
  rx_area :: area
  rx_mandatory :: bool
  rx_status :: requirement_state
  rx_source :: "string option"
  rx_tier :: "source_tier option"
  rx_as_of :: "int option"
  rx_retrieved :: "int option"
  rx_age :: "int option"
  rx_policy :: freshness_policy
  rx_evidence :: "string list"
  rx_missing_reason :: "string option"
  rx_conflict_reason :: "string option"
  rx_actions :: "supported_action list"
  rx_importance :: importance
  rx_url :: "string option"
  rx_covered :: "string list"
  rx_missing :: "string list"
  rx_coverage :: int
  rx_critical :: int
  rx_applicability :: applicability
  rx_concept_states :: "(string \<times> requirement_state) list"

definition actions_for :: "readiness_requirement \<Rightarrow> requirement_state \<Rightarrow> supported_action list" where
  "actions_for r st =
     (if st \<in> {READY_FRESH, REFRESHING, NOT_APPLICABLE} then []
      else if st = UNSUPPORTED then filter (\<lambda>a. a \<noteq> FIND_DATA) (rq_actions r) else rq_actions r)"

definition result_of ::
    "readiness_requirement \<Rightarrow> freshness_policy \<Rightarrow> int \<Rightarrow> requirement_state \<Rightarrow> research_evidence option \<Rightarrow> research_evidence list \<Rightarrow>
     string option \<Rightarrow> string option \<Rightarrow> string list \<Rightarrow> string list \<Rightarrow> requirement_readiness" where
  "result_of r p now st chosen es missing_reason conflict covered missing =
     (let pct = requirement_coverage r covered (es \<noteq> [])
      in \<lparr>rx_id = rq_id r, rx_area = rq_area r, rx_mandatory = rq_mandatory r, rx_status = st,
          rx_source = map_option ev_source chosen, rx_tier = map_option ev_tier chosen,
          rx_as_of = Option.bind chosen ev_as_of, rx_retrieved = map_option ev_retrieved chosen,
          rx_age = Option.bind chosen (\<lambda>e. evidence_age p e now), rx_policy = p,
          rx_evidence = map ev_id es, rx_missing_reason = missing_reason, rx_conflict_reason = conflict,
          rx_actions = actions_for r st, rx_importance = rq_importance r, rx_url = Option.bind chosen ev_url,
          rx_covered = sorted_set covered, rx_missing = missing, rx_coverage = fst pct, rx_critical = snd pct,
          rx_applicability = applicable, rx_concept_states = []\<rparr>)"

section \<open>Classification\<close>

text \<open>
  The state of a concept is that of its most authoritative evidence.  The name of a concept is looked up for
  every row of evidence, so an unknown one is an error only when there is some.
\<close>

definition concept_rows :: "durable_snapshot \<Rightarrow> string \<Rightarrow> string \<Rightarrow> research_evidence list" where
  "concept_rows d k c = filter (\<lambda>e. input_of_concept c \<in> set (ev_inputs e)) (durable_evidence_of d k)"

definition concept_state :: "authority_policy \<Rightarrow> freshness_policy \<Rightarrow> int \<Rightarrow> research_evidence list \<Rightarrow> requirement_state" where
  "concept_state au p now rows =
     (let chosen = py_min (\<lambda>e. (authority_rank au e, - the (or_else (ev_as_of e) (Some (ev_retrieved e))))) rows
      in if \<not> ev_complete chosen then PARTIAL else if is_fresh p chosen now then READY_FRESH else READY_STALE)"

definition prepend :: "'a \<Rightarrow> 'e + 'a list \<Rightarrow> 'e + 'a list" where
  "prepend x r = (case r of Inl e \<Rightarrow> Inl e | Inr xs \<Rightarrow> Inr (x # xs))"

fun concept_states ::
    "authority_policy option \<Rightarrow> freshness_policy \<Rightarrow> durable_snapshot \<Rightarrow> string \<Rightarrow> int \<Rightarrow> (string \<times> concept_decision) list \<Rightarrow>
     readiness_error + (string \<times> requirement_state) list" where
  "concept_states au p d k now [] = Inr []"
| "concept_states au p d k now ((c, cd) # rest) =
     (if cd_state cd = ''NOT_APPLICABLE'' then prepend (c, NOT_APPLICABLE) (concept_states au p d k now rest)
      else if map_of CONCEPT_INPUTS c = None \<and> durable_evidence_of d k \<noteq> [] then Inl (UNKNOWN_CONCEPT c)
      else if concept_rows d k c = [] then prepend (c, MISSING) (concept_states au p d k now rest)
      else (case au of None \<Rightarrow> Inl (NO_AUTHORITY_POLICY k)
        | Some a \<Rightarrow> prepend (c, concept_state a p now (concept_rows d k c)) (concept_states au p d k now rest)))"

definition with_applicability ::
    "authority_policy option \<Rightarrow> freshness_policy \<Rightarrow> durable_snapshot \<Rightarrow> int \<Rightarrow> applicability \<Rightarrow> requirement_readiness \<Rightarrow>
     readiness_error + requirement_readiness" where
  "with_applicability au p d now ap v =
     (case concept_states au p d (rx_id v) now (ap_concepts ap) of Inl e \<Rightarrow> Inl e
      | Inr states \<Rightarrow> Inr (v\<lparr>rx_applicability := ap, rx_concept_states := states\<rparr>))"

text \<open>The inputs and the evidence that remain when inputs do not apply.\<close>

definition applicable_requirement :: "applicability \<Rightarrow> readiness_requirement \<Rightarrow> readiness_requirement" where
  "applicable_requirement ap r = r\<lparr>rq_inputs := filter (\<lambda>i. ri_id i \<notin> fst ` set (ap_excluded ap)) (rq_inputs r)\<rparr>"

definition applicable_evidence :: "applicability \<Rightarrow> research_evidence list \<Rightarrow> research_evidence list" where
  "applicable_evidence ap es =
     (if ap_excluded ap = [] then es
      else filter (\<lambda>e. ev_inputs e = [] \<or> list_ex (\<lambda>i. i \<notin> fst ` set (ap_excluded ap) \<and> i \<noteq> ''MATERIAL_CATALYST_EVIDENCE'') (ev_inputs e)) es)"

definition required_inputs_are_fresh ::
    "authority_policy \<Rightarrow> freshness_policy \<Rightarrow> readiness_requirement \<Rightarrow> research_evidence list \<Rightarrow> int \<Rightarrow> bool" where
  "required_inputs_are_fresh au p r es now =
     (if mandatory_ids r = [] then (case selected_evidence au es of None \<Rightarrow> False | Some e \<Rightarrow> is_fresh p e now)
      else list_all (\<lambda>i. list_ex (\<lambda>e. covers_input r i e \<and> is_fresh p e now) es) (mandatory_ids r))"

definition empty_reason :: "freshness_policy \<Rightarrow> durable_snapshot \<Rightarrow> string \<Rightarrow> research_evidence list \<Rightarrow> string" where
  "empty_reason p d k durable =
     (if ''SUCCESS_EMPTY'' \<in> set (ob_outcomes (observation_of d k)) then ''NO_QUALIFYING_CURRENT_EVENTS''
      else if fr_window p \<noteq> None \<and> durable \<noteq> [] then ''NO_EVIDENCE_IN_CURRENT_NEWS_WINDOW'' else ''NO_DURABLE_EVIDENCE'')"

definition failure_of :: "durable_snapshot \<Rightarrow> string \<Rightarrow> string" where
  "failure_of d k = or_text (map_of (ds_failures d) k)"

definition status_of ::
    "authority_policy \<Rightarrow> freshness_policy \<Rightarrow> durable_snapshot \<Rightarrow> readiness_requirement \<Rightarrow> research_evidence list \<Rightarrow> research_evidence list \<Rightarrow> int \<Rightarrow>
     requirement_state \<times> string option" where
  "status_of au p d r durable es now =
     (let k = rq_id r; lacking = filter (\<lambda>i. i \<notin> set (covered_input_ids r es)) (mandatory_ids r)
      in if k \<in> set (ds_refreshing d) then (REFRESHING, None)
         else if conflict_reason au es \<noteq> None then (CONFLICTING, None)
         else if es = [] then (if failure_of d k \<noteq> [] then (FAILED, Some (failure_of d k)) else (MISSING, Some (empty_reason p d k durable)))
         else if length (filter ev_complete es) < rq_minimum r then (PARTIAL, Some ''INSUFFICIENT_COMPLETE_EVIDENCE'')
         else if lacking \<noteq> [] then (PARTIAL, Some (''MISSING_REQUIRED_INPUTS:'' @ join_with '','' lacking))
         else if required_inputs_are_fresh au p r es now then (READY_FRESH, None)
         else (READY_STALE, Some ''FRESHNESS_POLICY_EXPIRED''))"

text \<open>The mandatory inputs whose most authoritative evidence is not fresh.\<close>

definition stale_blockers ::
    "authority_policy \<Rightarrow> freshness_policy \<Rightarrow> readiness_requirement \<Rightarrow> research_evidence list \<Rightarrow> int \<Rightarrow> (string \<times> research_evidence) list" where
  "stale_blockers au p r es now =
     List.map_filter (\<lambda>i. case selected_evidence au (filter (covers_input r i) es) of None \<Rightarrow> None
       | Some e \<Rightarrow> if is_fresh p e now then None else Some (i, e)) (mandatory_ids r)"

text \<open>Python compares the times of the blockers: \<open>None\<close> is not comparable with an instant.\<close>

definition incomparable :: "freshness_policy \<Rightarrow> research_evidence list \<Rightarrow> bool" where
  "incomparable p es = (list_ex (\<lambda>e. evidence_time p e = None) es \<and> list_ex (\<lambda>e. evidence_time p e \<noteq> None) es)"

definition oldest :: "freshness_policy \<Rightarrow> research_evidence list \<Rightarrow> research_evidence" where
  "oldest p es = py_min (\<lambda>e. (case evidence_time p e of None \<Rightarrow> 0 | Some t \<Rightarrow> t, ev_id e)) es"

definition classified_evidence ::
    "authority_policy \<Rightarrow> freshness_policy \<Rightarrow> durable_snapshot \<Rightarrow> applicability \<Rightarrow> readiness_requirement \<Rightarrow> int \<Rightarrow>
     readiness_error + requirement_readiness" where
  "classified_evidence au p d ap r now =
     (let durable = applicable_evidence ap (durable_evidence_of d (rq_id r));
          es = score_input_evidence p now durable;
          covered = covered_input_ids r es;
          missing = filter (\<lambda>i. i \<notin> set covered) (input_ids r);
          (st, reason) = status_of au p d r durable es now;
          blockers = (if st = READY_STALE then stale_blockers au p r es now else [])
      in if incomparable p (map snd blockers) then Inl INCOMPARABLE_TIMES
         else Inr (result_of r p now st
           (if blockers = [] then selected_evidence au es else Some (oldest p (map snd blockers))) es
           (if blockers = [] then reason else Some (or_text reason @ '':'' @ join_with '','' (sort (map fst blockers))))
           (conflict_reason au es) covered missing))"

fun news_status :: "string \<Rightarrow> requirement_state option" where
  "news_status s =
     (if s = ''PARTIAL_SEARCH'' then Some PARTIAL else if s = ''FAILED_SEARCH'' then Some FAILED
      else if s = ''STALE_SEARCH'' then Some READY_STALE else None)"

definition news_override :: "durable_snapshot \<Rightarrow> string \<Rightarrow> (requirement_state \<times> string) option" where
  "news_override d k =
     (if k \<noteq> ''CURRENT_NEWS'' then None
      else Option.bind (ob_news (observation_of d k)) (\<lambda>s. map_option (\<lambda>st. (st, s)) (news_status s)))"

definition supported_here :: "durable_snapshot \<Rightarrow> string \<Rightarrow> bool" where
  "supported_here d k = (case ds_supported d of None \<Rightarrow> True | Some ks \<Rightarrow> k \<in> set ks)"

definition bare_result :: "readiness_requirement \<Rightarrow> freshness_policy \<Rightarrow> int \<Rightarrow> requirement_state \<Rightarrow> string option \<Rightarrow> requirement_readiness" where
  "bare_result r p now st reason = result_of r p now st None [] reason None [] []"

definition classify_requirement ::
    "freshness_policy list \<Rightarrow> authority_policy list \<Rightarrow> string \<Rightarrow> durable_snapshot \<Rightarrow> int \<Rightarrow> readiness_requirement \<Rightarrow>
     readiness_error + requirement_readiness" where
  "classify_requirement ps aus region d now r =
     (case policy_named ps (rq_policy r) of None \<Rightarrow> Inl (NO_FRESHNESS_POLICY (rq_policy r))
      | Some p \<Rightarrow>
          let k = rq_id r; ap = applicability_of d k; au = policy_for aus k region;
              r' = applicable_requirement ap r
          in case news_override d k of
               Some (st, s) \<Rightarrow> with_applicability au p d now ap (bare_result r p now st (Some s))
             | None \<Rightarrow>
                 if ap_state ap = ''NOT_APPLICABLE'' then with_applicability au p d now ap (bare_result r p now NOT_APPLICABLE None)
                 else if \<not> supported_here d k then Inr (bare_result r' p now UNSUPPORTED (Some ''REQUIREMENT_UNSUPPORTED_FOR_INSTRUMENT''))
                 else (case au of None \<Rightarrow> Inl (NO_AUTHORITY_POLICY k)
                   | Some a \<Rightarrow> (case classified_evidence a p d ap r' now of Inl e \<Rightarrow> Inl e
                       | Inr v \<Rightarrow> with_applicability au p d now ap v)))"

section \<open>The result for an instrument\<close>

definition decimal_mean :: "int list \<Rightarrow> rat" where
  "decimal_mean xs = dec28 (of_int (sum_list xs) / of_nat (length xs))"

text \<open>The completeness over the areas that have something to count, weighted by the areas.\<close>

definition weighted_completeness :: "(area \<Rightarrow> int list) \<Rightarrow> int" where
  "weighted_completeness values_of =
     (let counted = filter (\<lambda>a. values_of a \<noteq> []) ALL_AREAS;
          weight = (\<lambda>a. of_int (area_weight a) / 100);
          included = decimal_sum (map weight counted);
          weighted = decimal_sum (map (\<lambda>a. dec28 (weight a * decimal_mean (values_of a))) counted)
      in if included = 0 then 0 else rnd_even (dec28 (weighted / included)))"

definition applicable_items :: "requirement_readiness list \<Rightarrow> area \<Rightarrow> requirement_readiness list" where
  "applicable_items xs a = filter (\<lambda>x. rx_area x = a \<and> rx_status x \<noteq> NOT_APPLICABLE) xs"

definition overall_completeness :: "requirement_readiness list \<Rightarrow> int" where
  "overall_completeness xs = weighted_completeness (\<lambda>a. map rx_coverage (applicable_items xs a))"

definition critical_completeness :: "requirement_readiness list \<Rightarrow> int" where
  "critical_completeness xs = weighted_completeness (\<lambda>a. map rx_critical (filter rx_mandatory (applicable_items xs a)))"

definition overall_status :: "requirement_readiness list \<Rightarrow> requirement_state" where
  "overall_status xs =
     (let supported = filter (\<lambda>x. rx_status x \<noteq> NOT_APPLICABLE) xs;
          has = (\<lambda>st ys. list_ex (\<lambda>x. rx_status x = st) ys);
          mandatory = filter rx_mandatory supported
      in if supported = [] then NOT_APPLICABLE
         else if has CONFLICTING mandatory then CONFLICTING
         else if has REFRESHING supported then REFRESHING
         else if has FAILED mandatory then FAILED
         else if list_all (\<lambda>x. rx_status x = READY_FRESH) supported then READY_FRESH else PARTIAL)"

fun tier_score :: "source_tier \<Rightarrow> int" where
  "tier_score OFFICIAL = 100"
| "tier_score REGULATORY = 100"
| "tier_score TRUSTED_MARKET_DATA = 90"
| "tier_score LICENSED_STRUCTURED = 85"
| "tier_score APPROVED_SECONDARY = 70"
| "tier_score APPROVED_EXTERNAL_TOOL = 60"
| "tier_score StockRules.USER_UPLOAD = 50"
| "tier_score UNVERIFIED = 20"

definition confidence_pct :: "requirement_readiness list \<Rightarrow> int \<Rightarrow> int \<Rightarrow> int" where
  "confidence_pct xs overall critical =
     (let chosen = filter (\<lambda>x. rx_tier x \<noteq> None) xs; n = of_nat (length chosen);
          authority = (if chosen = [] then 0 else fl64 (of_int (sum_list (map (tier_score \<circ> the \<circ> rx_tier) chosen)) / n));
          fresh = (if chosen = [] then 0 else fl64 (of_int (100 * int (length (filter (\<lambda>x. rx_status x = READY_FRESH) chosen))) / n));
          base = fl64 (fl64 (fl64 (fl64 (of_int critical * fl64 (45 / 100)) + fl64 (of_int overall * (1 / 4))) +
            fl64 (authority * fl64 (2 / 10))) + fl64 (fresh * fl64 (1 / 10)));
          conflicts = length (filter (\<lambda>x. rx_status x = CONFLICTING) xs);
          failures = length (filter (\<lambda>x. rx_mandatory x \<and> rx_status x = FAILED) xs);
          score = fl64 (fl64 (base - of_nat (20 * conflicts)) - of_nat (10 * failures))
      in max 0 (min 100 (rnd_even score)))"

record readiness_result =
  rt_instrument :: string
  rt_requirements :: "requirement_readiness list"
  rt_generated :: int
  rt_status :: requirement_state
  rt_overall_pct :: int
  rt_critical_pct :: int
  rt_confidence :: stock_confidence
  rt_confidence_pct :: int

fun classify_all ::
    "(readiness_requirement \<Rightarrow> readiness_error + requirement_readiness) \<Rightarrow> readiness_requirement list \<Rightarrow> readiness_error + requirement_readiness list" where
  "classify_all f [] = Inr []"
| "classify_all f (r # rs) =
     (case f r of Inl e \<Rightarrow> Inl e | Inr v \<Rightarrow> (case classify_all f rs of Inl e \<Rightarrow> Inl e | Inr vs \<Rightarrow> Inr (v # vs)))"

text \<open>\<open>load\<close> reads the durable snapshot of an instrument.\<close>

definition assess ::
    "readiness_requirement list \<Rightarrow> freshness_policy list \<Rightarrow> authority_policy list \<Rightarrow> (string \<Rightarrow> durable_snapshot) \<Rightarrow> string \<Rightarrow> string \<Rightarrow> int \<Rightarrow> bool \<Rightarrow>
     readiness_error + readiness_result" where
  "assess rqs ps aus load instrument region now evidence_only =
     (let d0 = load instrument; d = (if evidence_only then d0\<lparr>ds_refreshing := []\<rparr> else d0)
      in if ds_instrument d \<noteq> instrument then Inl FOREIGN_SNAPSHOT
         else case classify_all (classify_requirement ps aus region d now) rqs of
           Inl e \<Rightarrow> Inl e
         | Inr xs \<Rightarrow>
             let overall = overall_completeness xs; critical = critical_completeness xs; pct = confidence_pct xs overall critical
             in Inr \<lparr>rt_instrument = instrument, rt_requirements = xs, rt_generated = now, rt_status = overall_status xs,
                  rt_overall_pct = overall, rt_critical_pct = critical,
                  rt_confidence = (if 80 \<le> pct then HIGH else if 55 \<le> pct then MEDIUM else LOW), rt_confidence_pct = pct\<rparr>)"

definition mandatory_ready :: "readiness_result \<Rightarrow> bool" where
  "mandatory_ready res = list_all (\<lambda>x. \<not> rx_mandatory x \<or> rx_status x \<in> {READY_FRESH, NOT_APPLICABLE}) (rt_requirements res)"

section \<open>The refresh plan\<close>

definition NEEDING_ACQUISITION :: "requirement_state set" where
  "NEEDING_ACQUISITION = {READY_STALE, PARTIAL, MISSING, CONFLICTING, FAILED}"

record refresh_target =
  tg_requirement :: string
  tg_area :: area
  tg_reason :: requirement_state
  tg_authority :: authority_policy
  tg_evidence :: "string list"
  tg_excluded :: "string list"

definition targeted :: "string list option \<Rightarrow> bool \<Rightarrow> requirement_readiness \<Rightarrow> bool" where
  "targeted chosen include_non_mandatory x =
     ((rx_status x \<in> NEEDING_ACQUISITION \<or> (chosen \<noteq> None \<and> list_ex (\<lambda>(_, st). st \<in> NEEDING_ACQUISITION) (rx_concept_states x))) \<and>
      (rx_id x \<noteq> ''CURRENT_NEWS'' \<or> rx_mandatory x \<or> chosen \<noteq> None) \<and>
      (case chosen of None \<Rightarrow> True | Some ks \<Rightarrow> rx_id x \<in> set ks) \<and>
      (rx_mandatory x \<or> include_non_mandatory \<or> chosen \<noteq> None))"

definition target_of :: "authority_policy \<Rightarrow> requirement_readiness \<Rightarrow> refresh_target" where
  "target_of au x =
     \<lparr>tg_requirement = rx_id x, tg_area = rx_area x, tg_reason = rx_status x, tg_authority = au, tg_evidence = rx_evidence x,
      tg_excluded = sorted_set (map fst (ap_excluded (rx_applicability x)) @
        map (input_of_concept \<circ> fst) (filter (\<lambda>(_, st). st = READY_FRESH) (rx_concept_states x)))\<rparr>"

fun plan_targets ::
    "authority_policy list \<Rightarrow> string \<Rightarrow> (requirement_readiness \<Rightarrow> bool) \<Rightarrow> requirement_readiness list \<Rightarrow> readiness_error + refresh_target list" where
  "plan_targets aus region P [] = Inr []"
| "plan_targets aus region P (x # xs) =
     (if \<not> P x then plan_targets aus region P xs
      else case policy_for aus (rx_id x) region of None \<Rightarrow> Inl (NO_AUTHORITY_POLICY (rx_id x))
      | Some au \<Rightarrow> (case plan_targets aus region P xs of Inl e \<Rightarrow> Inl e | Inr ts \<Rightarrow> Inr (target_of au x # ts)))"

definition refresh_plan ::
    "authority_policy list \<Rightarrow> readiness_result \<Rightarrow> string \<Rightarrow> string list option \<Rightarrow> bool \<Rightarrow> readiness_error + refresh_target list" where
  "refresh_plan aus res region ids include_non_mandatory =
     plan_targets aus region (targeted ids include_non_mandatory) (rt_requirements res)"

text \<open>What the rule engine reads of the readiness.\<close>

fun state_name :: "requirement_state \<Rightarrow> string" where
  "state_name READY_FRESH = ''READY_FRESH''"
| "state_name READY_STALE = ''READY_STALE''"
| "state_name PARTIAL = ''PARTIAL''"
| "state_name MISSING = ''MISSING''"
| "state_name CONFLICTING = ''CONFLICTING''"
| "state_name UNSUPPORTED = ''UNSUPPORTED''"
| "state_name NOT_APPLICABLE = ''NOT_APPLICABLE''"
| "state_name REFRESHING = ''REFRESHING''"
| "state_name FAILED = ''FAILED''"

definition engine_requirement :: "requirement_readiness \<Rightarrow> research_requirement" where
  "engine_requirement x =
     \<lparr>rr_id = rx_id x, rr_area = rx_area x, rr_mandatory = rx_mandatory x, rr_status = rx_status x, rr_tier = rx_tier x,
      rr_evidence = rx_evidence x, rr_missing = rx_missing x,
      rr_concepts = map (\<lambda>(c, st). (c, state_name st)) (rx_concept_states x),
      rr_excluded = map fst (ap_excluded (rx_applicability x)), rr_applicability = ap_reason (rx_applicability x)\<rparr>"

definition engine_readiness :: "readiness_result \<Rightarrow> readiness" where
  "engine_readiness res = \<lparr>rd_requirements = map engine_requirement (rt_requirements res),
     rd_overall_pct = rt_overall_pct res, rd_critical_pct = rt_critical_pct res\<rparr>"

section \<open>Results of a classification\<close>

lemma classify_all_member: "classify_all f rs = Inr vs \<Longrightarrow> r \<in> set rs \<Longrightarrow> \<exists>v \<in> set vs. f r = Inr v"
  by (induction rs arbitrary: vs) (auto split: sum.splits)

lemma classify_all_origin: "classify_all f rs = Inr vs \<Longrightarrow> v \<in> set vs \<Longrightarrow> \<exists>r \<in> set rs. f r = Inr v"
  by (induction rs arbitrary: vs) (auto split: sum.splits)

lemma classify_all_total: "(\<And>r. r \<in> set rs \<Longrightarrow> \<exists>v. f r = Inr v) \<Longrightarrow> \<exists>vs. classify_all f rs = Inr vs"
proof (induction rs)
  case (Cons r rs)
  obtain v where v: "f r = Inr v" using Cons.prems[of r] by auto
  obtain vs where vs: "classify_all f rs = Inr vs" using Cons.IH Cons.prems by auto
  show ?case by (simp add: v vs)
qed simp

lemma with_applicability_keeps:
  assumes "with_applicability au p d now ap v = Inr w"
  shows "rx_id w = rx_id v" "rx_area w = rx_area v" "rx_mandatory w = rx_mandatory v" "rx_status w = rx_status v"
    "rx_tier w = rx_tier v" "rx_coverage w = rx_coverage v" "rx_critical w = rx_critical v"
  using assms by (auto simp: with_applicability_def split: sum.splits)

lemma classified_evidence_Inr:
  assumes "classified_evidence au p d ap r now = Inr v"
  defines "es \<equiv> score_input_evidence p now (applicable_evidence ap (durable_evidence_of d (rq_id r)))"
  shows "rx_id v = rq_id r" "rx_mandatory v = rq_mandatory r"
    "rx_status v = fst (status_of au p d r (applicable_evidence ap (durable_evidence_of d (rq_id r))) es now)"
    "(rx_coverage v, rx_critical v) = requirement_coverage r (covered_input_ids r es) (es \<noteq> [])"
  using assms(1) unfolding classified_evidence_def Let_def split_def es_def by (auto simp: result_of_def Let_def split: if_splits)

lemma bare_result_fields:
  "rx_id (bare_result r p now st reason) = rq_id r" "rx_mandatory (bare_result r p now st reason) = rq_mandatory r"
  "rx_status (bare_result r p now st reason) = st"
  "(rx_coverage (bare_result r p now st reason), rx_critical (bare_result r p now st reason)) = requirement_coverage r [] False"
  by (simp_all add: bare_result_def result_of_def Let_def)

lemma applicable_requirement_fields [simp]:
  "rq_id (applicable_requirement ap r) = rq_id r" "rq_mandatory (applicable_requirement ap r) = rq_mandatory r"
  by (simp_all add: applicable_requirement_def)

lemma applicable_mandatory_ids:
  "mandatory_ids (applicable_requirement ap r) = filter (\<lambda>i. i \<notin> fst ` set (ap_excluded ap)) (mandatory_ids r)"
  by (simp add: mandatory_ids_def applicable_requirement_def filter_map comp_def conj_commute)

lemma classify_Inr_cases:
  assumes "classify_requirement ps aus region d now r = Inr v"
  obtains
    (bare) st r' where "r' = r \<or> r' = applicable_requirement (applicability_of d (rq_id r)) r"
      "rx_id v = rq_id r" "rx_mandatory v = rq_mandatory r" "rx_status v = st"
      "(rx_coverage v, rx_critical v) = requirement_coverage r' [] False"
      "news_override d (rq_id r) \<noteq> None \<or> ap_state (applicability_of d (rq_id r)) = ''NOT_APPLICABLE'' \<or> \<not> supported_here d (rq_id r)"
  | (full) p au w where "policy_named ps (rq_policy r) = Some p" "policy_for aus (rq_id r) region = Some au"
      "classified_evidence au p d (applicability_of d (rq_id r)) (applicable_requirement (applicability_of d (rq_id r)) r) now = Inr w"
      "rx_id v = rx_id w" "rx_mandatory v = rx_mandatory w" "rx_status v = rx_status w"
      "rx_coverage v = rx_coverage w" "rx_critical v = rx_critical w"
proof -
  let ?k = "rq_id r" let ?ap = "applicability_of d ?k" let ?au = "policy_for aus ?k region"
  obtain p where p: "policy_named ps (rq_policy r) = Some p"
    using assms by (cases "policy_named ps (rq_policy r)") (auto simp: classify_requirement_def)
  show ?thesis
  proof (cases "news_override d ?k")
    case (Some x)
    obtain st s where x: "x = (st, s)" by fastforce
    have "with_applicability ?au p d now ?ap (bare_result r p now st (Some s)) = Inr v"
      using assms by (simp add: classify_requirement_def p Some x Let_def)
    from with_applicability_keeps[OF this] show ?thesis
      using bare[of r st] Some by (simp add: bare_result_fields)
  next
    case None
    note c = assms[unfolded classify_requirement_def p option.case Let_def None]
    show ?thesis
    proof (cases "ap_state ?ap = ''NOT_APPLICABLE''")
      case True
      have "with_applicability ?au p d now ?ap (bare_result r p now NOT_APPLICABLE None) = Inr v" using c True by simp
      from with_applicability_keeps[OF this] show ?thesis
        using bare[of r NOT_APPLICABLE] True by (simp add: bare_result_fields)
    next
      case na: False
      show ?thesis
      proof (cases "supported_here d ?k")
        case False
        have "v = bare_result (applicable_requirement ?ap r) p now UNSUPPORTED (Some ''REQUIREMENT_UNSUPPORTED_FOR_INSTRUMENT'')"
          using c na False by simp
        then show ?thesis
          using bare[of "applicable_requirement ?ap r" UNSUPPORTED] False by (simp add: bare_result_fields)
      next
        case True
        obtain au where au: "?au = Some au" using c na True by (cases ?au) auto
        obtain w where w: "classified_evidence au p d ?ap (applicable_requirement ?ap r) now = Inr w" "with_applicability (Some au) p d now ?ap w = Inr v"
          using c na True au by (auto split: sum.splits)
        show ?thesis using with_applicability_keeps[OF w(2)] full[OF p au w(1)] by simp
      qed
    qed
  qed
qed

text \<open>A ready requirement has complete evidence for every mandatory input, no conflict, and is not being refreshed.\<close>

lemma ready_status:
  assumes "fst (status_of au p d r durable es now) \<in> {READY_FRESH, READY_STALE}"
  shows "rq_id r \<notin> set (ds_refreshing d)" "conflict_reason au es = None" "rq_minimum r \<le> length (filter ev_complete es)"
    "i \<in> set (mandatory_ids r) \<Longrightarrow> \<exists>e \<in> set es. covers_input r i e"
proof -
  let ?lacking = "filter (\<lambda>i. i \<notin> set (covered_input_ids r es)) (mandatory_ids r)"
  have all: "rq_id r \<notin> set (ds_refreshing d) \<and> conflict_reason au es = None \<and> rq_minimum r \<le> length (filter ev_complete es) \<and> ?lacking = []"
    using assms unfolding status_of_def Let_def by (auto split: if_splits)
  then show "rq_id r \<notin> set (ds_refreshing d)" "conflict_reason au es = None" "rq_minimum r \<le> length (filter ev_complete es)"
    by blast+
  show "\<exists>e \<in> set es. covers_input r i e" if "i \<in> set (mandatory_ids r)"
  proof -
    have "i \<in> set (covered_input_ids r es)" using all that by (auto simp: filter_empty_conv)
    then show ?thesis by (auto simp: covered_input_ids_def list_ex_iff)
  qed
qed

lemma scored_subset: "set (score_input_evidence p now (applicable_evidence ap es)) \<subseteq> set es"
  by (auto simp: score_input_evidence_def applicable_evidence_def split: option.splits if_splits)

lemma ready_rests_on_evidence:
  assumes "classify_requirement ps aus region d now r = Inr v" and "rx_status v \<in> {READY_FRESH, READY_STALE}"
    and "news_override d (rq_id r) = None" and "ap_state (applicability_of d (rq_id r)) \<noteq> ''NOT_APPLICABLE''"
    and "supported_here d (rq_id r)" and i: "i \<in> set (mandatory_ids r)" "i \<notin> fst ` set (ap_excluded (applicability_of d (rq_id r)))"
  shows "\<exists>e \<in> set (durable_evidence_of d (rq_id r)). ev_complete e \<and> (ev_inputs e = [] \<or> i \<in> set (ev_inputs e))"
  using assms(1)
proof (cases rule: classify_Inr_cases)
  case bare
  then show ?thesis using assms(3-5) by blast
next
  case (full p au w)
  let ?r = "applicable_requirement (applicability_of d (rq_id r)) r"
  have "i \<in> set (mandatory_ids ?r)" using i by (simp add: applicable_mandatory_ids)
  from ready_status(4)[OF assms(2)[unfolded full(6) classified_evidence_Inr(3)[OF full(3)]] this] show ?thesis
    using scored_subset by (fastforce simp: covers_input_def split: if_splits)
qed

lemma classify_ids:
  assumes "classify_requirement ps aus region d now r = Inr v"
  shows "rx_id v = rq_id r" "rx_mandatory v = rq_mandatory r"
proof -
  have "rx_id v = rq_id r \<and> rx_mandatory v = rq_mandatory r"
    using assms by (cases rule: classify_Inr_cases) (simp_all add: classified_evidence_Inr)
  then show "rx_id v = rq_id r" "rx_mandatory v = rq_mandatory r" by blast+
qed

lemma status_of_range: "fst (status_of au p d r durable es now) \<notin> {NOT_APPLICABLE, UNSUPPORTED}"
  by (simp add: status_of_def Let_def)

lemma classify_not_exempt:
  assumes "classify_requirement ps aus region d now r = Inr v" and "news_override d (rq_id r) = None"
    and "ap_state (applicability_of d (rq_id r)) \<noteq> ''NOT_APPLICABLE''" and "supported_here d (rq_id r)"
  shows "rx_status v \<notin> {NOT_APPLICABLE, UNSUPPORTED}"
  using assms(1)
proof (cases rule: classify_Inr_cases)
  case bare
  then show ?thesis using assms(2-4) by blast
next
  case (full p au w)
  then show ?thesis using status_of_range by (simp only: classified_evidence_Inr(3)[OF full(3)] not_False_eq_True)
qed

lemma buying_needs_full:
  assumes "evaluate_stock rd areas ovs allow_partial = Some r" and "sr_decision r \<in> {STRONG_BUY, BUY, ACCUMULATE}"
  shows "el_full (require_scorable_areas (evaluate_eligibility rd) rd areas)"
proof (rule ccontr)
  let ?el = "require_scorable_areas (evaluate_eligibility rd) rd areas"
  note e = evaluate_decision[OF assms(1)]
  assume nf: "\<not> el_full ?el"
  have "el_full ?el \<or> allow_partial \<and> el_partial ?el"
  proof (rule ccontr)
    assume "\<not> (el_full ?el \<or> allow_partial \<and> el_partial ?el)"
    then show False using e(5) assms(2) by simp
  qed
  then have d: "decision (sr_overall r) rd (level_of (confidence rd)) True ovs = Some (sr_decision r)" using e(4) nf by auto
  then obtain s where "sr_overall r = Some s" using assms(2) by (cases "sr_overall r") auto
  with positive_decision(2)[OF _ assms(2)] d show False by fastforce
qed

text \<open>C9: A buying signal rests on complete evidence: when the rule engine recommends buying on the readiness that was assessed,
  the durable research holds, for every mandatory requirement that applies and is supported for the instrument and
  every mandatory input of it that applies, complete evidence of that input.  Only the current news may be thin.\<close>

theorem buying_rests_on_complete_evidence:
  assumes "assess rqs ps aus load instrument region now evidence_only = Inr res"
    and "evaluate_stock (engine_readiness res) areas ovs allow_partial = Some r" and "sr_decision r \<in> {STRONG_BUY, BUY, ACCUMULATE}"
    and "q \<in> set rqs" and "rq_mandatory q" and "rq_id q \<noteq> ''CURRENT_NEWS''"
    and "ap_state (applicability_of (load instrument) (rq_id q)) \<noteq> ''NOT_APPLICABLE''" and "supported_here (load instrument) (rq_id q)"
    and "i \<in> set (mandatory_ids q)" and "i \<notin> fst ` set (ap_excluded (applicability_of (load instrument) (rq_id q)))"
  shows "\<exists>e \<in> set (durable_evidence_of (load instrument) (rq_id q)). ev_complete e \<and> (ev_inputs e = [] \<or> i \<in> set (ev_inputs e))"
proof -
  define d where "d = (if evidence_only then (load instrument)\<lparr>ds_refreshing := []\<rparr> else load instrument)"
  have d: "durable_evidence_of d = durable_evidence_of (load instrument)" "applicability_of d = applicability_of (load instrument)"
      "supported_here d = supported_here (load instrument)"
    by (auto simp: d_def durable_evidence_of_def applicability_of_def supported_here_def fun_eq_iff)
  have all: "classify_all (classify_requirement ps aus region d now) rqs = Inr (rt_requirements res)"
    using assms(1) unfolding assess_def Let_def d_def[symmetric] by (auto split: if_splits sum.splits)
  obtain v where v: "v \<in> set (rt_requirements res)" "classify_requirement ps aus region d now q = Inr v"
    using classify_all_member[OF all assms(4)] by blast
  have id: "rx_id v = rq_id q" "rx_mandatory v" using classify_ids[OF v(2)] assms(5) by simp_all
  have "el_full (require_scorable_areas (evaluate_eligibility (engine_readiness res)) (engine_readiness res) areas)"
    by (rule buying_needs_full[OF assms(2,3)])
  then have "mandatory_blocking (engine_readiness res) = []" by (simp add: scorable_full eligibility_full)
  then have "rx_status v \<in> FULL_STATUSES \<union> EXEMPT_STATUSES"
    using v(1) id assms(6) unfolding mandatory_ok by (fastforce simp: engine_readiness_def engine_requirement_def)
  then have st: "rx_status v \<in> {READY_FRESH, READY_STALE, NOT_APPLICABLE, UNSUPPORTED}"
    by (auto simp: FULL_STATUSES_def EXEMPT_STATUSES_def)
  have news: "news_override d (rq_id q) = None" using assms(6) by (simp add: news_override_def)
  have "rx_status v \<in> {READY_FRESH, READY_STALE}"
    using st classify_not_exempt[OF v(2) news] assms(7,8) by (auto simp: d)
  from ready_rests_on_evidence[OF v(2) this news] show ?thesis using assms(7-10) unfolding d by blast
qed

section \<open>Percentages\<close>

lemma percent_int_range:
  assumes "0 \<le> n" and "n \<le> d"
  shows "0 \<le> percent_int n d \<and> percent_int n d \<le> 100"
proof -
  let ?x = "of_int (100 * n) / of_int d :: rat"
  have "of_int 0 \<le> ?x" using assms by simp
  moreover have "?x \<le> of_int 100" using assms by (cases "d = 0") (simp_all add: divide_le_eq)
  ultimately have "of_int 0 \<le> fl64 ?x \<and> fl64 ?x \<le> of_int 100"
    by (intro binary64.rnd_in_range few_digits_int) simp_all
  then show ?thesis unfolding percent_int_def using rnd_even_ge_int rnd_even_le_int by blast
qed

lemma sum_filter_le: "list_all (\<lambda>x. 0 \<le> (f x :: int)) xs \<Longrightarrow> 0 \<le> sum_list (map f (filter P xs)) \<and> sum_list (map f (filter P xs)) \<le> sum_list (map f xs)"
  by (induction xs) auto

lemma importance_weight_nonneg: "0 \<le> importance_weight m"
  by (cases m) simp_all

lemma coverage_range:
  "0 \<le> fst (requirement_coverage r covered has) \<and> fst (requirement_coverage r covered has) \<le> 100 \<and>
   0 \<le> snd (requirement_coverage r covered has) \<and> snd (requirement_coverage r covered has) \<le> 100"
proof -
  let ?w = "importance_weight \<circ> ri_importance"
  have "list_all (\<lambda>x. 0 \<le> ?w x) (rq_inputs r)" by (simp add: list_all_iff importance_weight_nonneg)
  from sum_filter_le[OF this, of "\<lambda>i. ri_id i \<in> set covered"]
  have o: "0 \<le> percent_int (sum_list (map ?w (filter (\<lambda>i. ri_id i \<in> set covered) (rq_inputs r)))) (sum_list (map ?w (rq_inputs r))) \<and>
      percent_int (sum_list (map ?w (filter (\<lambda>i. ri_id i \<in> set covered) (rq_inputs r)))) (sum_list (map ?w (rq_inputs r))) \<le> 100"
    using percent_int_range by blast
  have "0 \<le> percent_int (int (length (filter P xs))) (int (length xs)) \<and> percent_int (int (length (filter P xs))) (int (length xs)) \<le> 100"
    for P and xs :: "string list"
    by (rule percent_int_range) simp_all
  with o show ?thesis unfolding requirement_coverage_def Let_def by simp
qed

lemma decimal_mean_range:
  assumes "list_all (\<lambda>x. 0 \<le> x \<and> x \<le> 100) xs"
  shows "0 \<le> decimal_mean xs \<and> decimal_mean xs \<le> 100"
proof -
  have "0 \<le> sum_list xs \<and> sum_list xs \<le> 100 * int (length xs)" using assms by (induction xs) auto
  then have s: "0 \<le> sum_list xs" "sum_list xs \<le> 100 * int (length xs)" by blast+
  let ?x = "of_int (sum_list xs) / of_nat (length xs) :: rat"
  have "(of_int (sum_list xs) :: rat) \<le> of_int (100 * int (length xs))" using s(2) by (simp only: of_int_le_iff)
  then have "?x \<le> 100" by (cases "xs = []") (simp_all add: divide_le_eq)
  moreover have "0 \<le> ?x" using s(1) by simp
  ultimately have "of_int 0 \<le> dec28 ?x \<and> dec28 ?x \<le> of_int 100" by (intro dec28_between) simp_all
  then show ?thesis by (simp add: decimal_mean_def)
qed

text \<open>A sum of rounded terms stays between zero and an integer bound.\<close>

lemma decimal_sum_bounded:
  assumes "list_all2 (\<lambda>x m. 0 \<le> x \<and> x \<le> of_int m) xs ms" and "0 \<le> s" and "s \<le> of_int a" and "a + sum_list ms < 10 ^ 28"
    and "list_all (\<lambda>m. 0 \<le> m) ms"
  shows "0 \<le> foldl (\<lambda>acc x. dec28 (acc + x)) s xs \<and> foldl (\<lambda>acc x. dec28 (acc + x)) s xs \<le> of_int (a + sum_list ms)"
  using assms
proof (induction xs ms arbitrary: s a rule: list_all2_induct)
  case (Cons x xs m ms)
  have ms: "0 \<le> sum_list ms" "0 \<le> m" using Cons.prems(4) by (auto simp: list_all_iff intro!: sum_list_nonneg)
  have a: "0 \<le> a" using Cons.prems(1,2) by (metis of_int_0_le_iff order_trans)
  have "of_int 0 \<le> dec28 (s + x) \<and> dec28 (s + x) \<le> of_int (a + m)"
    using Cons.hyps(1) Cons.prems(1-3) ms a by (intro dec28_between) (auto intro: add_mono)
  then have "0 \<le> foldl (\<lambda>acc x. dec28 (acc + x)) (dec28 (s + x)) xs \<and>
      foldl (\<lambda>acc x. dec28 (acc + x)) (dec28 (s + x)) xs \<le> of_int (a + m + sum_list ms)"
    using Cons.prems(3,4) by (intro Cons.IH) auto
  then show ?case by (simp add: add.assoc)
qed simp

lemma area_weight_pos: "0 < area_weight a" "area_weight a \<le> 18"
  by (cases a; simp)+

lemma weighted_completeness_range:
  assumes "\<And>a. list_all (\<lambda>x. 0 \<le> x \<and> x \<le> 100) (values_of a)"
  shows "0 \<le> weighted_completeness values_of \<and> weighted_completeness values_of \<le> 100"
proof -
  define counted where "counted = filter (\<lambda>a. values_of a \<noteq> []) ALL_AREAS"
  define ms where "ms = map area_weight counted"
  define included where "included = decimal_sum (map (\<lambda>a. of_int (area_weight a) / 100) counted)"
  define weighted where "weighted = decimal_sum (map (\<lambda>a. dec28 (of_int (area_weight a) / 100 * decimal_mean (values_of a))) counted)"
  have nonneg: "list_all (\<lambda>m. 0 \<le> m) ms" using area_weight_pos by (auto simp: ms_def list_all_iff less_imp_le)
  have "sum_list (map area_weight (filter P ALL_AREAS)) \<le> sum_list (map area_weight ALL_AREAS)" for P
    using sum_filter_le[of area_weight ALL_AREAS P] area_weight_pos by (simp add: list_all_iff less_imp_le)
  then have "sum_list ms \<le> 100" unfolding ms_def counted_def by (rule order_trans) (simp add: ALL_AREAS_def)
  then have small: "0 + sum_list ms < 10 ^ 28" by simp
  have "(\<lambda>m. of_int m / 100 :: rat) \<circ> area_weight = (\<lambda>a. of_int (area_weight a) / 100)" by (simp add: comp_def)
  then have i: "included = of_int (sum_list ms) / 100"
    using decimal_sum_cents[OF nonneg _ small] by (simp add: included_def ms_def decimal_sum_def)
  have term_ok: "0 \<le> dec28 (of_int (area_weight a) / 100 * decimal_mean (values_of a)) \<and>
      dec28 (of_int (area_weight a) / 100 * decimal_mean (values_of a)) \<le> of_int (area_weight a)" for a
  proof -
    have m: "0 \<le> decimal_mean (values_of a)" "decimal_mean (values_of a) \<le> 100" using decimal_mean_range[OF assms] by blast+
    have w: "0 \<le> area_weight a" "area_weight a \<le> 18" using area_weight_pos[of a] by simp_all
    have "of_int (area_weight a) / 100 * decimal_mean (values_of a) \<le> of_int (area_weight a) / 100 * (100 :: rat)"
      using m w by (intro mult_left_mono) simp_all
    then have "of_int 0 \<le> dec28 (of_int (area_weight a) / 100 * decimal_mean (values_of a)) \<and>
        dec28 (of_int (area_weight a) / 100 * decimal_mean (values_of a)) \<le> of_int (area_weight a)"
      using m w by (intro dec28_between) simp_all
    then show ?thesis by simp
  qed
  have "list_all2 (\<lambda>x m. 0 \<le> x \<and> x \<le> of_int m)
      (map (\<lambda>a. dec28 (of_int (area_weight a) / 100 * decimal_mean (values_of a))) counted) ms"
    unfolding ms_def list_all2_map1 list_all2_map2 by (rule list.rel_refl) (rule term_ok)
  from decimal_sum_bounded[OF this, of 0 0] small nonneg
  have w: "0 \<le> weighted" "weighted \<le> of_int (sum_list ms)" by (simp_all add: weighted_def decimal_sum_def)
  have "0 \<le> weighted / included" using w i nonneg by (simp add: list_all_iff sum_list_nonneg)
  moreover have "weighted / included \<le> 100" if "included \<noteq> 0"
  proof -
    have "0 \<le> sum_list ms" using nonneg by (auto simp: list_all_iff intro: sum_list_nonneg)
    then have "0 < included" using that i by simp
    then show ?thesis using w(2) i by (simp add: divide_le_eq)
  qed
  ultimately have "included \<noteq> 0 \<Longrightarrow> of_int 0 \<le> dec28 (weighted / included) \<and> dec28 (weighted / included) \<le> of_int 100"
    by (intro dec28_between) simp_all
  then show ?thesis
    unfolding weighted_completeness_def Let_def counted_def[symmetric] included_def[symmetric] weighted_def[symmetric]
    using rnd_even_ge_int rnd_even_le_int by auto
qed

section \<open>Conflicts and selection\<close>

lemma top_peers_iff:
  "e \<in> set (top_peers au es) \<longleftrightarrow> e \<in> set es \<and> \<not> (\<exists>x \<in> set es. authority_rank au x < authority_rank au e)"
proof (cases "es = []")
  case False
  have "authority_rank au e = Min (authority_rank au ` set es) \<longleftrightarrow> (\<forall>x \<in> set es. authority_rank au e \<le> authority_rank au x)"
    if "e \<in> set es"
    using that by (intro iffI ballI) (auto intro: Min_eqI[symmetric])
  then show ?thesis by (auto simp: top_peers_def not_less)
qed (simp add: top_peers_def)

lemma fact_group_iff: "e \<in> set (fact_group es k) \<longleftrightarrow> e \<in> set es \<and> keyed e \<and> ev_fact_key e = Some k"
  by (auto simp: fact_group_def keyed_def or_text_def split: option.splits)

lemma several_values: "1 < length (remdups (map f xs)) \<longleftrightarrow> (\<exists>x \<in> set xs. \<exists>y \<in> set xs. f x \<noteq> f y)"
proof -
  have "length (remdups (map f xs)) = card (f ` set xs)" by (simp add: length_remdups_card_conv)
  moreover have "1 < card (f ` set xs) \<longleftrightarrow> (\<exists>x \<in> set xs. \<exists>y \<in> set xs. f x \<noteq> f y)"
    using card_le_Suc0_iff_eq[of "f ` set xs"] by (auto simp: not_le[symmetric])
  ultimately show ?thesis by simp
qed

lemma conflict_reason_iff: "conflict_reason au es \<noteq> None \<longleftrightarrow> (\<exists>k. disputed au es k)"
proof -
  have "disputed au es k \<Longrightarrow> k \<in> set (map (or_text \<circ> ev_fact_key) (filter keyed es))" for k
    unfolding disputed_def several_values by (force simp: top_peers_iff fact_group_iff or_text_def)
  then have "filter (disputed au es) (sorted_set (map (or_text \<circ> ev_fact_key) (filter keyed es))) \<noteq> [] \<longleftrightarrow> (\<exists>k. disputed au es k)"
    by (auto simp: filter_empty_conv)
  then show ?thesis unfolding conflict_reason_def by (auto split: list.splits)
qed

text \<open>C15: Evidence is in conflict exactly when two items state the same fact with different values (up to case and
  surrounding space) at equal authority and nothing of higher authority states that fact.\<close>

theorem conflicts_exact:
  "conflict_reason au es \<noteq> None \<longleftrightarrow>
   (\<exists>e1 \<in> set es. \<exists>e2 \<in> set es. keyed e1 \<and> keyed e2 \<and> ev_fact_key e1 = ev_fact_key e2 \<and>
      lower (strip (or_text (ev_value e1))) \<noteq> lower (strip (or_text (ev_value e2))) \<and>
      authority_rank au e1 = authority_rank au e2 \<and>
      \<not> (\<exists>x \<in> set es. keyed x \<and> ev_fact_key x = ev_fact_key e1 \<and> authority_rank au x < authority_rank au e1))"
  (is "?conflict \<longleftrightarrow> ?R")
proof
  assume ?conflict
  then obtain k where k: "disputed au es k" unfolding conflict_reason_iff by blast
  let ?g = "fact_group es k"
  obtain e1 e2 where e: "e1 \<in> set (top_peers au ?g)" "e2 \<in> set (top_peers au ?g)" "fingerprint e1 \<noteq> fingerprint e2"
    using k unfolding disputed_def several_values by blast
  have g: "e1 \<in> set ?g" "e2 \<in> set ?g" and top: "\<not> (\<exists>x \<in> set ?g. authority_rank au x < authority_rank au e1)"
      "\<not> (\<exists>x \<in> set ?g. authority_rank au x < authority_rank au e2)"
    using e(1,2) unfolding top_peers_iff by blast+
  have "authority_rank au e1 = authority_rank au e2" using g top by (meson linorder_less_linear)
  moreover have "e1 \<in> set es" "e2 \<in> set es" "keyed e1" "keyed e2" "ev_fact_key e1 = Some k" "ev_fact_key e2 = Some k"
    using g unfolding fact_group_iff by blast+
  moreover have "\<not> (\<exists>x \<in> set es. keyed x \<and> ev_fact_key x = Some k \<and> authority_rank au x < authority_rank au e1)"
    using top(1) fact_group_iff by blast
  ultimately show ?R using e(3) unfolding fingerprint_def by (intro bexI[of _ e1] bexI[of _ e2] conjI) simp_all
next
  assume ?R
  then obtain e1 e2 where e: "e1 \<in> set es" "e2 \<in> set es" "keyed e1" "keyed e2" "ev_fact_key e1 = ev_fact_key e2"
      "fingerprint e1 \<noteq> fingerprint e2" "authority_rank au e1 = authority_rank au e2"
      "\<not> (\<exists>x \<in> set es. keyed x \<and> ev_fact_key x = ev_fact_key e1 \<and> authority_rank au x < authority_rank au e1)"
    unfolding fingerprint_def by blast
  obtain k where "ev_fact_key e1 = Some k" using e(3) by (cases "ev_fact_key e1") (simp_all add: keyed_def or_text_def)
  then have "e1 \<in> set (top_peers au (fact_group es k))" "e2 \<in> set (top_peers au (fact_group es k))"
    using e by (auto simp: top_peers_iff fact_group_iff)
  then have "disputed au es k" using e(6) unfolding disputed_def several_values by blast
  then show ?conflict unfolding conflict_reason_iff by blast
qed

section \<open>The default registries\<close>

definition known_concepts :: "durable_snapshot \<Rightarrow> bool" where
  "known_concepts d = list_all (\<lambda>(_, a). list_all (\<lambda>(c, _). c \<in> fst ` set CONCEPT_INPUTS) (ap_concepts a)) (ds_applicability d)"

lemma prepend_Inr: "(\<exists>ys. prepend x r = Inr ys) \<longleftrightarrow> (\<exists>xs. r = Inr xs)"
  by (auto simp: prepend_def split: sum.splits)

lemma concept_states_total:
  assumes "list_all (\<lambda>(c, _). c \<in> fst ` set CONCEPT_INPUTS) cs"
  shows "\<exists>states. concept_states (Some au) p d k now cs = Inr states"
  using assms
proof (induction cs)
  case (Cons x cs)
  obtain c cd where x: "x = (c, cd)" by fastforce
  have "map_of CONCEPT_INPUTS c \<noteq> None" using Cons.prems by (simp only: x map_of_eq_None_iff list.pred_inject(2) prod.case not_not)
  moreover have "\<exists>states. concept_states (Some au) p d k now cs = Inr states" using Cons by simp
  ultimately show ?case by (auto simp: x prepend_Inr)
qed simp

lemma known_applicability:
  assumes "known_concepts d"
  shows "list_all (\<lambda>(c, _). c \<in> fst ` set CONCEPT_INPUTS) (ap_concepts (applicability_of d k))"
  using assms unfolding known_concepts_def applicability_of_def
  by (auto simp: list_all_iff balance_sheet_applicability_def applicable_def dest!: map_of_SomeD split: option.splits)

lemma classify_requirements_known:
  "list_all (\<lambda>(_, a). list_all (\<lambda>(c, _). c \<in> fst ` set CONCEPT_INPUTS) (ap_concepts a)) (classify_requirements sector industry source asset)"
  by (simp add: classify_requirements_def Let_def concept_decisions_def CONCEPT_INPUTS_def balance_sheet_applicability_def applicable_def)

lemma stale_blockers_length: "length (stale_blockers au p r es now) \<le> length (mandatory_ids r)"
  unfolding stale_blockers_def List.map_filter_def by (metis (no_types, lifting) length_filter_le length_map)

lemma comparable:
  assumes "fr_basis p = AS_OF_OR_RETRIEVED \<or> length es \<le> 1"
  shows "\<not> incomparable p es"
proof -
  have "evidence_time p e \<noteq> None" if "fr_basis p = AS_OF_OR_RETRIEVED" for e
    using that by (simp add: evidence_time_def or_else_def)
  then show ?thesis using assms by (cases es; cases "tl es") (auto simp: incomparable_def list_ex_iff)
qed

lemma classify_total:
  assumes "policy_named ps (rq_policy r) = Some p" and "policy_for aus (rq_id r) region = Some au" and "known_concepts d"
    and "fr_basis p = AS_OF_OR_RETRIEVED \<or> length (mandatory_ids r) \<le> 1"
  shows "\<exists>v. classify_requirement ps aus region d now r = Inr v"
proof -
  let ?ap = "applicability_of d (rq_id r)" let ?r = "applicable_requirement ?ap r"
  have w: "\<exists>w. with_applicability (Some au) p d now ?ap v = Inr w" for v
    using concept_states_total[OF known_applicability[OF assms(3), of "rq_id r"], of au p d "rx_id v" now]
    by (auto simp: with_applicability_def)
  have "length (mandatory_ids ?r) \<le> length (mandatory_ids r)" by (simp add: applicable_mandatory_ids)
  then have "fr_basis p = AS_OF_OR_RETRIEVED \<or> length (map snd (stale_blockers au p ?r es now)) \<le> 1" for es
    using assms(4) stale_blockers_length[of au p ?r es now] by fastforce
  then have "\<not> incomparable p (map snd (stale_blockers au p ?r es now))" for es by (rule comparable)
  moreover have "\<not> incomparable p []" by (simp add: incomparable_def)
  ultimately have c: "\<exists>v. classified_evidence au p d ?ap ?r now = Inr v"
    unfolding classified_evidence_def Let_def split_def by auto
  show ?thesis
  proof (cases "news_override d (rq_id r)")
    case None
    show ?thesis
      using w c unfolding classify_requirement_def Let_def assms(1,2) option.case None by (fastforce split: sum.splits)
  next
    case (Some x)
    then show ?thesis using w by (cases x) (simp add: classify_requirement_def Let_def assms(1,2))
  qed
qed

text \<open>The constructors accept the default registries, and the weights of the areas total one.\<close>

lemma default_registries_valid:
  "valid_registry DEFAULT_REQUIREMENTS" "list_all valid_policy DEFAULT_POLICIES \<and> distinct (map fr_id DEFAULT_POLICIES)"
  "distinct (map (\<lambda>a. (au_requirement a, au_jurisdiction a)) DEFAULT_AUTHORITIES)"
  "list_all (\<lambda>a. distinct (map fst (au_authorities a))) DEFAULT_AUTHORITIES" "sum_list (map area_weight ALL_AREAS) = 100"
  by (simp_all add: valid_registry_def valid_requirement_def DEFAULT_REQUIREMENTS_def required_def ALL_AREAS_def valid_policy_def
      DEFAULT_POLICIES_def aged_def hours_def DAY_def DEFAULT_AUTHORITIES_def authority_for_def FINANCIAL_REQUIREMENTS_def
      FINANCIAL_SOURCES_def LICENSED_SOURCES_def SECONDARY_SOURCES_def MARKET_SOURCES_def)

lemma default_policy_of:
  "list_all (\<lambda>r. \<exists>p. policy_named DEFAULT_POLICIES (rq_policy r) = Some p \<and>
     (fr_basis p = AS_OF_OR_RETRIEVED \<or> length (mandatory_ids r) \<le> 1)) DEFAULT_REQUIREMENTS"
  by (simp add: DEFAULT_REQUIREMENTS_def required_def DEFAULT_POLICIES_def policy_named_def aged_def mandatory_ids_def)

lemma policy_for_global:
  "k \<in> set (map au_requirement (filter (\<lambda>a. au_jurisdiction a = ''GLOBAL'') aus)) \<Longrightarrow> \<exists>au. policy_for aus k region = Some au"
proof -
  assume "k \<in> set (map au_requirement (filter (\<lambda>a. au_jurisdiction a = ''GLOBAL'') aus))"
  then have "find (\<lambda>a. au_requirement a = k \<and> au_jurisdiction a = ''GLOBAL'') aus \<noteq> None" by (auto simp: find_None_iff)
  then show ?thesis by (auto simp: policy_for_def or_else_def)
qed

lemma default_authority_of:
  "list_all (\<lambda>r. rq_id r \<in> set (map au_requirement (filter (\<lambda>a. au_jurisdiction a = ''GLOBAL'') DEFAULT_AUTHORITIES))) DEFAULT_REQUIREMENTS"
  by (simp add: DEFAULT_REQUIREMENTS_def required_def DEFAULT_AUTHORITIES_def authority_for_def FINANCIAL_REQUIREMENTS_def FINANCIAL_SOURCES_def)

lemma assess_InrD:
  assumes "assess rqs ps aus load instrument region now evidence_only = Inr res"
  obtains d where "d = (if evidence_only then (load instrument)\<lparr>ds_refreshing := []\<rparr> else load instrument)"
    "classify_all (classify_requirement ps aus region d now) rqs = Inr (rt_requirements res)"
    "rt_overall_pct res = overall_completeness (rt_requirements res)" "rt_critical_pct res = critical_completeness (rt_requirements res)"
    "rt_confidence_pct res = confidence_pct (rt_requirements res) (rt_overall_pct res) (rt_critical_pct res)"
  using assms that[OF refl] unfolding assess_def Let_def by (auto split: if_splits sum.splits)

lemma assessed_from:
  assumes "assess rqs ps aus load instrument region now evidence_only = Inr res" and "v \<in> set (rt_requirements res)"
  shows "\<exists>q \<in> set rqs. rx_id v = rq_id q \<and> rx_mandatory v = rq_mandatory q \<and> 0 \<le> rx_coverage v \<and> rx_coverage v \<le> 100 \<and>
    0 \<le> rx_critical v \<and> rx_critical v \<le> 100"
proof -
  obtain d where "classify_all (classify_requirement ps aus region d now) rqs = Inr (rt_requirements res)"
    using assms(1) by (rule assess_InrD)
  then obtain q where q: "q \<in> set rqs" "classify_requirement ps aus region d now q = Inr v"
    using classify_all_origin assms(2) by blast
  have "\<exists>r covered has. (rx_coverage v, rx_critical v) = requirement_coverage r covered has"
    using q(2)
  proof (cases rule: classify_Inr_cases)
    case bare
    then show ?thesis by blast
  next
    case (full p au w)
    then show ?thesis using classified_evidence_Inr(4)[OF full(3)] by auto
  qed
  then obtain r covered has where "rx_coverage v = fst (requirement_coverage r covered has)" "rx_critical v = snd (requirement_coverage r covered has)"
    by (auto simp: prod_eq_iff)
  then show ?thesis using q classify_ids[OF q(2)] coverage_range[of r covered has] by auto
qed

text \<open>Every percentage of a readiness lies between 0 and 100: the coverage of each requirement, overall and of its
  mandatory inputs, both completeness values and the confidence, in decimal and float arithmetic as it rounds.\<close>

theorem readiness_percentages:
  assumes "assess rqs ps aus load instrument region now evidence_only = Inr res"
  shows "0 \<le> rt_overall_pct res \<and> rt_overall_pct res \<le> 100 \<and> 0 \<le> rt_critical_pct res \<and> rt_critical_pct res \<le> 100 \<and>
    0 \<le> rt_confidence_pct res \<and> rt_confidence_pct res \<le> 100 \<and>
    (\<forall>v \<in> set (rt_requirements res). 0 \<le> rx_coverage v \<and> rx_coverage v \<le> 100 \<and> 0 \<le> rx_critical v \<and> rx_critical v \<le> 100)"
proof -
  have v: "0 \<le> rx_coverage v \<and> rx_coverage v \<le> 100 \<and> 0 \<le> rx_critical v \<and> rx_critical v \<le> 100" if "v \<in> set (rt_requirements res)" for v
    using assessed_from[OF assms that] by blast
  have "0 \<le> overall_completeness (rt_requirements res) \<and> overall_completeness (rt_requirements res) \<le> 100"
    unfolding overall_completeness_def
    by (rule weighted_completeness_range) (use v in \<open>auto simp: list_all_iff applicable_items_def\<close>)
  moreover have "0 \<le> critical_completeness (rt_requirements res) \<and> critical_completeness (rt_requirements res) \<le> 100"
    unfolding critical_completeness_def
    by (rule weighted_completeness_range) (use v in \<open>auto simp: list_all_iff applicable_items_def\<close>)
  moreover have "0 \<le> confidence_pct xs a b \<and> confidence_pct xs a b \<le> 100" for xs a b
    unfolding confidence_pct_def Let_def by simp
  ultimately show ?thesis using v by (intro conjI ballI) (use assms in \<open>auto elim!: assess_InrD\<close>)
qed

lemma default_classify_total:
  assumes "known_concepts d" and "r \<in> set DEFAULT_REQUIREMENTS"
  shows "\<exists>v. classify_requirement DEFAULT_POLICIES DEFAULT_AUTHORITIES region d now r = Inr v"
proof -
  obtain p where p: "policy_named DEFAULT_POLICIES (rq_policy r) = Some p" "fr_basis p = AS_OF_OR_RETRIEVED \<or> length (mandatory_ids r) \<le> 1"
    using default_policy_of assms(2) by (auto simp: list_all_iff)
  obtain au where "policy_for DEFAULT_AUTHORITIES (rq_id r) region = Some au"
    using policy_for_global default_authority_of assms(2) by (metis list_all_iff)
  from classify_total[OF p(1) this assms(1) p(2)] show ?thesis .
qed

lemma default_assess_Inr:
  assumes "known_concepts (load instrument)" and "ds_instrument (load instrument) = instrument"
  shows "\<exists>res. assess DEFAULT_REQUIREMENTS DEFAULT_POLICIES DEFAULT_AUTHORITIES load instrument region now evidence_only = Inr res"
proof -
  let ?d = "if evidence_only then (load instrument)\<lparr>ds_refreshing := []\<rparr> else load instrument"
  have "known_concepts ?d" using assms(1) by (simp add: known_concepts_def)
  then obtain vs where "classify_all (classify_requirement DEFAULT_POLICIES DEFAULT_AUTHORITIES region ?d now) DEFAULT_REQUIREMENTS = Inr vs"
    using classify_all_total[of DEFAULT_REQUIREMENTS] default_classify_total by blast
  then show ?thesis using assms(2) by (simp add: assess_def Let_def)
qed

text \<open>C39: The default registries fit together: with the concepts that applicability decides, an assessment never fails,
  whatever the durable evidence, in every jurisdiction and at every instant, except for a snapshot of another instrument.\<close>

theorem default_assessment_total:
  assumes "known_concepts (load instrument)"
  shows "(\<exists>res. assess DEFAULT_REQUIREMENTS DEFAULT_POLICIES DEFAULT_AUTHORITIES load instrument region now evidence_only = Inr res) \<longleftrightarrow>
    ds_instrument (load instrument) = instrument"
proof
  assume "\<exists>res. assess DEFAULT_REQUIREMENTS DEFAULT_POLICIES DEFAULT_AUTHORITIES load instrument region now evidence_only = Inr res"
  then show "ds_instrument (load instrument) = instrument" by (auto simp: assess_def Let_def split: if_splits)
qed (rule default_assess_Inr[where load = load, OF assms])

section \<open>The plan\<close>

lemma plan_targets_exact:
  assumes "\<And>x. x \<in> set xs \<Longrightarrow> P x \<Longrightarrow> \<exists>au. policy_for aus (rx_id x) region = Some au"
  shows "\<exists>ts. plan_targets aus region P xs = Inr ts \<and> map tg_requirement ts = map rx_id (filter P xs)"
  using assms
proof (induction xs)
  case (Cons x xs)
  obtain ts where ts: "plan_targets aus region P xs = Inr ts" "map tg_requirement ts = map rx_id (filter P xs)"
    using Cons.IH Cons.prems by auto
  show ?case
  proof (cases "P x")
    case True
    then obtain au where "policy_for aus (rx_id x) region = Some au" using Cons.prems by auto
    then show ?thesis using True ts by (simp add: target_of_def)
  qed (use ts in simp)
qed simp

lemma default_all_mandatory: "list_all rq_mandatory DEFAULT_REQUIREMENTS"
  by (simp add: DEFAULT_REQUIREMENTS_def required_def)

lemma status_exhaust: "st \<in> NEEDING_ACQUISITION \<or> st \<in> {READY_FRESH, NOT_APPLICABLE} \<or> st \<in> {REFRESHING, UNSUPPORTED}"
  by (cases st) (simp_all add: NEEDING_ACQUISITION_def)

text \<open>C14: The automatic plan of a default assessment always exists, in every jurisdiction, and targets exactly the
  requirements whose evidence is stale, partial, missing, conflicting or failed, each once and in their order.  An
  instrument that is not ready therefore gets work, unless what it lacks is being acquired or cannot be.\<close>

theorem plan_covers_every_gap:
  assumes "assess DEFAULT_REQUIREMENTS ps aus load instrument region now evidence_only = Inr res"
  shows "\<exists>ts. refresh_plan DEFAULT_AUTHORITIES res region2 None include_non_mandatory = Inr ts \<and>
    map tg_requirement ts = map rx_id (filter (\<lambda>x. rx_status x \<in> NEEDING_ACQUISITION) (rt_requirements res)) \<and>
    (mandatory_ready res \<or> ts \<noteq> [] \<or> (\<exists>x \<in> set (rt_requirements res). rx_status x \<in> {REFRESHING, UNSUPPORTED}))"
proof -
  let ?P = "targeted None include_non_mandatory"
  have v: "rx_mandatory v \<and> (\<exists>au. policy_for DEFAULT_AUTHORITIES (rx_id v) region2 = Some au)" if v: "v \<in> set (rt_requirements res)" for v
  proof -
    obtain q where q: "q \<in> set DEFAULT_REQUIREMENTS" "rx_id v = rq_id q" "rx_mandatory v = rq_mandatory q"
      using assessed_from[OF assms v] by blast
    then show ?thesis using default_all_mandatory policy_for_global[of "rq_id q" DEFAULT_AUTHORITIES region2] default_authority_of
      by (simp add: list_all_iff)
  qed
  obtain ts where ts: "refresh_plan DEFAULT_AUTHORITIES res region2 None include_non_mandatory = Inr ts"
      "map tg_requirement ts = map rx_id (filter ?P (rt_requirements res))"
    using plan_targets_exact[of "rt_requirements res" ?P] v unfolding refresh_plan_def by blast
  have f: "filter ?P (rt_requirements res) = filter (\<lambda>x. rx_status x \<in> NEEDING_ACQUISITION) (rt_requirements res)"
    by (rule filter_cong) (use v in \<open>auto simp: targeted_def\<close>)
  have "mandatory_ready res \<or> (\<exists>x \<in> set (rt_requirements res). rx_status x \<in> {REFRESHING, UNSUPPORTED})" if "ts = []"
  proof -
    have "filter (\<lambda>x. rx_status x \<in> NEEDING_ACQUISITION) (rt_requirements res) = []" using ts(2) that f by simp
    then show ?thesis using status_exhaust unfolding mandatory_ready_def list_all_iff filter_empty_conv by blast
  qed
  then show ?thesis using ts f by (intro exI[of _ ts]) auto
qed

section \<open>Witnesses\<close>

text \<open>Five critical requirements of one input each, with one official item of evidence that states all inputs.\<close>

definition witness_needs :: "readiness_requirement list" where
  "witness_needs = map (\<lambda>k. required k VALUATION ''SHAREHOLDING'' [(''FACTS'', MANDATORY)]) CRITICAL_REQUIREMENTS"

definition witness_item :: "string \<Rightarrow> research_evidence" where
  "witness_item k = \<lparr>ev_id = ''e'', ev_requirement = k, ev_source = ''NSE'', ev_tier = OFFICIAL, ev_retrieved = 0, ev_as_of = None,
     ev_published = None, ev_event_date = None, ev_valid_until = None, ev_fact_key = None, ev_value = None, ev_complete = True,
     ev_unresolved = False, ev_url = None, ev_inputs = []\<rparr>"

definition witness_research :: durable_snapshot where
  "witness_research = \<lparr>ds_instrument = ''i'', ds_evidence = map (\<lambda>k. (k, [witness_item k])) CRITICAL_REQUIREMENTS, ds_supported = None,
     ds_refreshing = [], ds_failures = [], ds_applicability = map (\<lambda>k. (k, applicable)) CRITICAL_REQUIREMENTS, ds_observations = []\<rparr>"

definition witness_authorities :: "authority_policy list" where
  "witness_authorities = map (\<lambda>k. authority_for k ''GLOBAL'' [(''NSE'', OFFICIAL)]) CRITICAL_REQUIREMENTS"

lemma percent_int_full: "0 < n \<Longrightarrow> percent_int n n = 100"
  using rnd_even_of_int[of 100] by (simp add: percent_int_def)

definition witness_result :: "string \<Rightarrow> requirement_readiness" where
  "witness_result k = result_of (required k VALUATION ''SHAREHOLDING'' [(''FACTS'', MANDATORY)]) (aged ''SHAREHOLDING'' (120 * DAY)) 0
     READY_FRESH (Some (witness_item k)) [witness_item k] None None [''FACTS''] []"

lemma witness_classify:
  "list_all (\<lambda>k. classify_requirement [aged ''SHAREHOLDING'' (120 * DAY)] witness_authorities ''GLOBAL'' witness_research 0
     (required k VALUATION ''SHAREHOLDING'' [(''FACTS'', MANDATORY)]) = Inr (witness_result k)) CRITICAL_REQUIREMENTS"
proof -
  let ?p = "aged ''SHAREHOLDING'' (120 * DAY)"
  have p: "policy_named [?p] ''SHAREHOLDING'' = Some ?p" by (simp add: policy_named_def aged_def)
  have one: "classify_requirement [?p] witness_authorities ''GLOBAL'' witness_research 0
      (required k VALUATION ''SHAREHOLDING'' [(''FACTS'', MANDATORY)]) = Inr (witness_result k)"
    if k: "applicability_of witness_research k = applicable" "durable_evidence_of witness_research k = [witness_item k]" "k \<noteq> ''CURRENT_NEWS''"
      "policy_for witness_authorities k ''GLOBAL'' = Some a" for k a
  proof -
    let ?r = "required k VALUATION ''SHAREHOLDING'' [(''FACTS'', MANDATORY)]"
    have r: "applicable_requirement applicable ?r = ?r" by (simp add: applicable_requirement_def applicable_def required_def)
    have e: "score_input_evidence ?p 0 (applicable_evidence applicable [witness_item k]) = [witness_item k]"
        "applicable_evidence applicable [witness_item k] = [witness_item k]"
      by (simp_all add: score_input_evidence_def aged_def applicable_evidence_def applicable_def)
    have c: "covered_input_ids ?r [witness_item k] = [''FACTS'']" "mandatory_ids ?r = [''FACTS'']" "input_ids ?r = [''FACTS'']"
      by (simp_all add: covered_input_ids_def input_ids_def mandatory_ids_def required_def covers_input_def witness_item_def)
    have sel: "selected_evidence a [witness_item k] = Some (witness_item k)" by (simp add: selected_evidence_def py_min_def)
    have nc: "conflict_reason a [witness_item k] = None"
      by (simp add: conflict_reason_def keyed_def witness_item_def)
    have f: "is_fresh ?p (witness_item k) 0"
      by (simp add: is_fresh_def aged_def witness_item_def evidence_age_def evidence_time_def or_else_def DAY_def)
    have st: "status_of a ?p witness_research ?r [witness_item k] [witness_item k] 0 = (READY_FRESH, None)"
      using f unfolding status_of_def Let_def c nc
      by (simp add: witness_research_def required_def witness_item_def required_inputs_are_fresh_def covers_input_def input_ids_def mandatory_ids_def)
    have "classified_evidence a ?p witness_research applicable ?r 0 = Inr (witness_result k)"
      unfolding classified_evidence_def Let_def using k(2) e st c sel nc
      by (simp add: required_def incomparable_def witness_result_def)
    moreover have "with_applicability (Some a) ?p witness_research 0 applicable (witness_result k) = Inr (witness_result k)"
      by (simp add: with_applicability_def applicable_def witness_result_def result_of_def Let_def)
    ultimately show ?thesis
      using k p r by (simp add: classify_requirement_def Let_def required_def news_override_def applicable_def supported_here_def witness_research_def)
  qed
  show ?thesis unfolding list_all_iff
  proof
    fix k assume "k \<in> set CRITICAL_REQUIREMENTS"
    then have "applicability_of witness_research k = applicable \<and> durable_evidence_of witness_research k = [witness_item k] \<and> k \<noteq> ''CURRENT_NEWS'' \<and>
        policy_for witness_authorities k ''GLOBAL'' = Some (authority_for k ''GLOBAL'' [(''NSE'', OFFICIAL)])"
      by (auto simp: CRITICAL_REQUIREMENTS_def applicability_of_def durable_evidence_of_def witness_research_def policy_for_def or_else_def
          witness_authorities_def authority_for_def)
    then show "classify_requirement [?p] witness_authorities ''GLOBAL'' witness_research 0
        (required k VALUATION ''SHAREHOLDING'' [(''FACTS'', MANDATORY)]) = Inr (witness_result k)"
      using one by blast
  qed
qed

lemma witness_result_fields:
  "rx_id (witness_result k) = k" "rx_area (witness_result k) = VALUATION" "rx_mandatory (witness_result k)"
  "rx_status (witness_result k) = READY_FRESH" "rx_tier (witness_result k) = Some OFFICIAL"
  "rx_coverage (witness_result k) = 100" "rx_critical (witness_result k) = 100"
  by (simp_all add: witness_result_def result_of_def required_def witness_item_def Let_def requirement_coverage_def mandatory_ids_def
      percent_int_full)

lemma witness_weighted:
  assumes "\<And>a. values_of a = (if a = VALUATION then [100, 100, 100, 100, 100] else [])"
  shows "weighted_completeness values_of = 100"
proof -
  have c: "filter (\<lambda>a. values_of a \<noteq> []) ALL_AREAS = [VALUATION]" by (simp add: assms ALL_AREAS_def)
  have m: "decimal_mean (values_of VALUATION) = 100" using dec28_int[of 100] by (simp add: assms decimal_mean_def)
  have "(18 :: rat) / 100 = 9 / 50" by simp
  then have d: "dec28 (9 / 50) = 9 / 50" using dec28_cents[of 18] by (simp only: of_int_numeral) simp
  have e: "dec28 18 = 18" "dec28 100 = 100" "rnd_even 100 = 100" using dec28_int[of 18] dec28_int[of 100] rnd_even_of_int[of 100] by simp_all
  show ?thesis unfolding weighted_completeness_def Let_def c
    by (simp add: decimal_sum_def m d e)
qed

lemma witness_assess:
  "\<exists>res. assess witness_needs [aged ''SHAREHOLDING'' (120 * DAY)] witness_authorities (\<lambda>_. witness_research) ''i'' ''GLOBAL'' 0 False = Inr res \<and>
     rt_requirements res = map witness_result CRITICAL_REQUIREMENTS \<and> rt_overall_pct res = 100 \<and> rt_critical_pct res = 100"
proof -
  let ?xs = "map witness_result CRITICAL_REQUIREMENTS"
  have "classify_all (classify_requirement [aged ''SHAREHOLDING'' (120 * DAY)] witness_authorities ''GLOBAL'' witness_research 0) witness_needs = Inr ?xs"
    using witness_classify unfolding witness_needs_def CRITICAL_REQUIREMENTS_def by simp
  moreover have "overall_completeness ?xs = 100"
    unfolding overall_completeness_def
    by (rule witness_weighted) (simp add: applicable_items_def CRITICAL_REQUIREMENTS_def witness_result_fields)
  moreover have "critical_completeness ?xs = 100"
    unfolding critical_completeness_def
    by (rule witness_weighted) (simp add: applicable_items_def CRITICAL_REQUIREMENTS_def witness_result_fields)
  moreover have "ds_instrument witness_research = ''i''" by (simp add: witness_research_def)
  ultimately show ?thesis by (simp add: assess_def Let_def)
qed

lemma witness_bought:
  assumes "rt_requirements res = map witness_result CRITICAL_REQUIREMENTS" "rt_overall_pct res = 100" "rt_critical_pct res = 100"
  shows "\<exists>r. evaluate_stock (engine_readiness res) [witness_area] [] False = Some r \<and> sr_decision r = STRONG_BUY"
proof -
  let ?rd = "engine_readiness res"
  have rs: "rd_requirements ?rd = map (engine_requirement \<circ> witness_result) CRITICAL_REQUIREMENTS" and
    pct: "rd_overall_pct ?rd = 100" "rd_critical_pct ?rd = 100"
    by (simp_all add: engine_readiness_def assms)
  have q: "rr_id (engine_requirement (witness_result k)) = k" "rr_area (engine_requirement (witness_result k)) = VALUATION"
      "rr_mandatory (engine_requirement (witness_result k))" "rr_status (engine_requirement (witness_result k)) = READY_FRESH"
      "rr_tier (engine_requirement (witness_result k)) = Some OFFICIAL" for k
    by (simp_all add: engine_requirement_def witness_result_fields)
  have full: "el_full (require_scorable_areas (evaluate_eligibility ?rd) ?rd [witness_area])"
    unfolding scorable_full eligibility_full mandatory_ok critical_ok unscorable_none
    by (simp add: rs pct q CRITICAL_REQUIREMENTS_def by_id_def FULL_STATUSES_def witness_area_def)
  have raw: "area_weighted_score [witness_area] ALL_AREAS = Some 100"
    using mean_single[of 10000 18] by (simp add: area_weighted_score_def witness_area_def ALL_AREAS_def List.map_filter_simps)
  have "confidence ?rd = 100"
  proof -
    have "dec28 40 = 40" "dec28 20 = 20" "dec28 60 = 60" "dec28 80 = 80" "repr_dec 100 = 100"
      using dec28_int[of 40] dec28_int[of 20] dec28_int[of 60] dec28_int[of 80] repr_cents[of 10000] by simp_all
    moreover have "round_score 100 = 100" using round_between[of 10000 100 10000] by auto
    ultimately show ?thesis
      unfolding confidence_def rs pct Let_def by (simp add: q CRITICAL_REQUIREMENTS_def int_mean_def List.map_filter_simps clamp_def)
  qed
  then have l: "level_of (confidence ?rd) = HIGH" by (simp add: level_of_def)
  have d: "decision (Some 100) ?rd HIGH False [] = Some STRONG_BUY"
    by (simp add: decision_def signal_for_def Let_def rs pct q CRITICAL_REQUIREMENTS_def)
  have f: "filter (\<lambda>r. ar_applicable r \<and> ar_raw r \<noteq> None) [witness_area] = [witness_area]" by (simp add: witness_area_def)
  show ?thesis unfolding evaluate_stock_def Let_def f raw using full d l by simp
qed

lemma buying_rests_on_complete_evidence_witness:
  "\<exists>e \<in> set (durable_evidence_of witness_research ''LATEST_PRICE''). ev_complete e \<and> (ev_inputs e = [] \<or> ''FACTS'' \<in> set (ev_inputs e))"
proof -
  obtain res where res: "assess witness_needs [aged ''SHAREHOLDING'' (120 * DAY)] witness_authorities (\<lambda>_. witness_research) ''i'' ''GLOBAL'' 0 False = Inr res"
      "rt_requirements res = map witness_result CRITICAL_REQUIREMENTS" "rt_overall_pct res = 100" "rt_critical_pct res = 100"
    using witness_assess by blast
  obtain r where r: "evaluate_stock (engine_readiness res) [witness_area] [] False = Some r" "sr_decision r = STRONG_BUY"
    using witness_bought[OF res(2-4)] by blast
  show ?thesis
    by (rule buying_rests_on_complete_evidence[OF res(1) r(1), of "required ''LATEST_PRICE'' VALUATION ''SHAREHOLDING'' [(''FACTS'', MANDATORY)]",
          simplified required_def, simplified])
      (simp_all add: r(2) witness_needs_def required_def CRITICAL_REQUIREMENTS_def applicability_of_def witness_research_def applicable_def
        supported_here_def mandatory_ids_def)
qed

definition empty_research :: "string \<Rightarrow> durable_snapshot" where
  "empty_research i = \<lparr>ds_instrument = i, ds_evidence = [], ds_supported = None, ds_refreshing = [], ds_failures = [],
     ds_applicability = classify_requirements None None None None, ds_observations = []\<rparr>"

lemma empty_research_known: "known_concepts (empty_research i)"
  using classify_requirements_known by (simp add: known_concepts_def empty_research_def)

lemma empty_research_assessed:
  "\<exists>res. assess DEFAULT_REQUIREMENTS DEFAULT_POLICIES DEFAULT_AUTHORITIES empty_research ''i'' region 0 False = Inr res"
  by (rule default_assess_Inr[where load = empty_research, OF empty_research_known]) (simp add: empty_research_def)

lemma readiness_percentages_witness:
  "\<exists>res. assess DEFAULT_REQUIREMENTS DEFAULT_POLICIES DEFAULT_AUTHORITIES empty_research ''i'' ''INDIA'' 0 False = Inr res \<and> rt_critical_pct res \<le> 100"
proof -
  obtain res where "assess DEFAULT_REQUIREMENTS DEFAULT_POLICIES DEFAULT_AUTHORITIES empty_research ''i'' ''INDIA'' 0 False = Inr res"
    using empty_research_assessed by blast
  then show ?thesis using readiness_percentages by blast
qed

lemma default_assessment_total_witness:
  "\<exists>res. assess DEFAULT_REQUIREMENTS DEFAULT_POLICIES DEFAULT_AUTHORITIES empty_research ''i'' ''JAPAN'' 0 False = Inr res"
  using default_assessment_total[of empty_research "''i''"] empty_research_known by (simp add: empty_research_def)

lemma plan_covers_every_gap_witness:
  "\<exists>res ts. assess DEFAULT_REQUIREMENTS DEFAULT_POLICIES DEFAULT_AUTHORITIES empty_research ''i'' ''INDIA'' 0 False = Inr res \<and>
     refresh_plan DEFAULT_AUTHORITIES res ''INDIA'' None False = Inr ts"
proof -
  obtain res where res: "assess DEFAULT_REQUIREMENTS DEFAULT_POLICIES DEFAULT_AUTHORITIES empty_research ''i'' ''INDIA'' 0 False = Inr res"
    using empty_research_assessed by blast
  then show ?thesis using plan_covers_every_gap[OF res, of "''INDIA''" False] by blast
qed

text \<open>
  The reported blockers are not only the inputs that block: an input with a fresh item of lower authority does not make a
  requirement stale, yet it is reported when its most authoritative item is old.
\<close>

definition two_inputs :: readiness_requirement where
  "two_inputs = required ''R'' SHAREHOLDING ''SHAREHOLDING'' [(''A'', MANDATORY), (''B'', MANDATORY)]"

definition dated_item :: "string \<Rightarrow> string \<Rightarrow> int \<Rightarrow> string \<Rightarrow> research_evidence" where
  "dated_item i source t covers = (witness_item ''R'')\<lparr>ev_id := i, ev_source := source, ev_retrieved := t, ev_inputs := [covers]\<rparr>"

definition mixed_items :: "research_evidence list" where
  "mixed_items = [dated_item ''1'' ''NSE'' 0 ''A'', dated_item ''2'' ''NSE'' 0 ''B'', dated_item ''3'' ''OTHER'' (130 * DAY) ''B'']"

lemma reported_blocker_need_not_block:
  defines "au \<equiv> authority_for ''R'' ''GLOBAL'' [(''NSE'', OFFICIAL)]" and "p \<equiv> aged ''SHAREHOLDING'' (120 * DAY)"
  shows "fst (status_of au p (empty_research ''i'') two_inputs mixed_items mixed_items (130 * DAY)) = READY_STALE \<and>
    map fst (stale_blockers au p two_inputs mixed_items (130 * DAY)) = [''A'', ''B''] \<and>
    list_ex (\<lambda>e. covers_input two_inputs ''B'' e \<and> is_fresh p e (130 * DAY)) mixed_items"
proof -
  let ?now = "130 * DAY"
  have day: "0 \<le> DAY" "\<not> DAY \<le> 0" "\<not> 130 * DAY \<le> 120 * DAY" by (simp_all add: DAY_def)
  note items = mixed_items_def dated_item_def witness_item_def
  have fresh: "is_fresh p (dated_item i s t c) ?now = (t \<le> ?now \<and> ?now - t \<le> 120 * DAY)" for i s t c
    by (auto simp: p_def is_fresh_def aged_def dated_item_def witness_item_def evidence_age_def evidence_time_def or_else_def)
  have cov: "covers_input two_inputs j (dated_item i s t c) = (j = c)" for j i s t c
    by (auto simp: covers_input_def dated_item_def witness_item_def)
  have m: "mandatory_ids two_inputs = [''A'', ''B'']" "input_ids two_inputs = [''A'', ''B'']"
    by (simp_all add: mandatory_ids_def input_ids_def two_inputs_def required_def)
  have "conflict_reason au mixed_items = None" by (simp add: conflict_reason_def items keyed_def)
  moreover have "covered_input_ids two_inputs mixed_items = [''A'', ''B'']"
    unfolding covered_input_ids_def m mixed_items_def by (simp add: cov)
  moreover have "\<not> required_inputs_are_fresh au p two_inputs mixed_items ?now"
    unfolding required_inputs_are_fresh_def m mixed_items_def by (simp add: cov fresh day)
  moreover have "length (filter ev_complete mixed_items) = 3" by (simp add: items)
  ultimately have st: "fst (status_of au p (empty_research ''i'') two_inputs mixed_items mixed_items ?now) = READY_STALE"
    by (simp add: status_of_def Let_def m empty_research_def) (simp add: items two_inputs_def required_def)
  have "selected_evidence au (filter (covers_input two_inputs ''A'') mixed_items) = Some (dated_item ''1'' ''NSE'' 0 ''A'')"
    "selected_evidence au (filter (covers_input two_inputs ''B'') mixed_items) = Some (dated_item ''2'' ''NSE'' 0 ''B'')"
    unfolding mixed_items_def
    by (simp_all add: cov selected_evidence_def py_min_def) (simp add: dated_item_def witness_item_def selection_key_def authority_rank_def au_def authority_for_def)
  then have "map fst (stale_blockers au p two_inputs mixed_items ?now) = [''A'', ''B'']"
    by (simp add: stale_blockers_def m List.map_filter_simps fresh day)
  moreover have "list_ex (\<lambda>e. covers_input two_inputs ''B'' e \<and> is_fresh p e ?now) mixed_items"
    unfolding mixed_items_def by (simp add: cov fresh day)
  ultimately show ?thesis using st by blast
qed

end
