(* ===== verification/Spec2Isabelle.thy ===== *)
theory Spec2Isabelle
  imports CycleProps Checkpoint Snapshot EventStore Evidence Sessions EtfRules Connector Backfill Scheduler Scanner Readiness
begin

text \<open>
  A verification library for the research engine of the investment platform.

  The program.  The engine under \<open>src/ai/research-engine/app/\<close> runs market cycles: a scheduler submits a cycle,
  a worker owns its durable row under a lease, candidates are discovered, their technical and sector
  evidence is computed, a rule engine judges each of them, a ranker orders them, a policy turns the
  ranking into recommendations, and the cycle publishes a radar of cards.  Beside it stand the readiness
  and the rule engine of exchange-traded funds, the stores of events, documents and facts, the planner of
  the daily-bar backfill, and (under \<open>src/services/ibkr-connector/app/\<close>) the manager of broker gateways.

  How the parts call each other.  \<open>Scheduler\<close> decides when a cycle is submitted to \<open>CycleStore\<close>;
  \<open>Checkpoint\<close> is the worker's handle on the row it owns, and \<open>Snapshot\<close> is what a reader of the rows is
  told.  \<open>Scanner\<close> scores the universe from its stored evidence and enriches the candidates with the features of
  \<open>Technical\<close> and \<open>SectorStrength\<close>, both computed from the histories that \<open>PriceHistory\<close> selects.
  \<open>Discovery\<close> picks the instruments, \<open>Evidence\<close>, \<open>EventStore\<close> and \<open>StockData\<close> supply what
  \<open>StockRules\<close> to \<open>StockEngine\<close> evaluate on the readiness that \<open>Readiness\<close> assesses, \<open>Ranker\<close> ranks the results, \<open>Pipeline\<close> serializes them for
  \<open>Recommend\<close>, \<open>Radar\<close> prepares and publishes the cycle, and \<open>Production\<close> is the composition that this
  theory draws its end-to-end properties from.  \<open>EtfMetrics\<close> and \<open>EtfEvidence\<close> feed \<open>EtfReadiness\<close>, and that
  feeds \<open>EtfRules\<close>.

  The theories and the code they model (files of \<open>src/ai/research-engine/app/\<close> unless said otherwise).

  \<^item> \<open>Prelude\<close>, \<open>PyStr\<close>, \<open>PyNum\<close>, \<open>PyFloat\<close>: the Python values the others share: JSON values,
    insertion-ordered dictionaries, \<open>str\<close> methods on Latin-1 characters, \<open>round\<close>, \<open>decimal\<close> with the
    default context, binary64 rounding and the compensated \<open>sum\<close> of CPython 3.12.
  \<^item> \<open>CycleStore\<close>, \<open>CycleSafety\<close>, \<open>CycleProps\<close>, \<open>Lease\<close>: \<open>CycleRunPersistenceMixin\<close> of \<open>cycle_checkpoint.py\<close>.
    The three tables are the record \<open>store\<close>, each method is one transaction, and \<open>CycleSafety\<close> gives the
    step relation of all workers and operators with its reachable stores.  The locale \<open>fenced_lease\<close> is
    the contract of the lease and is interpreted on the run table.  Likewise \<open>attempt_store\<close> of
    \<open>Checkpoint\<close> (what a handle needs of its store) and \<open>rounding\<close> of \<open>PyNum\<close> (decimal, binary64, fixed quantum).
  \<^item> \<open>Checkpoint\<close>, \<open>Taxonomy\<close>, \<open>Snapshot\<close>: \<open>CycleCheckpoint\<close>, \<open>failure_taxonomy.py\<close> with the outcome states
    of the orchestrator, \<open>cycle_status_snapshot\<close> and \<open>radar_progress.py\<close>.
  \<^item> \<open>EventStore\<close>, \<open>Evidence\<close>: \<open>event_store.py\<close> (an LRU with pinned instruments), \<open>deduplication.py\<close>,
    \<open>fact_precedence.py\<close>.
  \<^item> \<open>Sessions\<close>, \<open>Scheduler\<close>: \<open>market_sessions.py\<close>; \<open>global_opportunity_scheduler.py\<close> and
    \<open>background_task_registry.py\<close>.
  \<^item> \<open>Backfill\<close>: the planning half of \<open>nse_daily_backfill.py\<close>.
  \<^item> \<open>StockRules\<close>, \<open>StockData\<close>, \<open>StockAreas\<close>, \<open>StockEvents\<close>, \<open>StockEngine\<close>: \<open>stock_rule_engine.py\<close>: eligibility,
    weights and decision; the series and facts a rule reads; the area rules over financial and market
    data; the rules over events, news and overrides; the properties of the whole engine.
  \<^item> \<open>Ranker\<close>, \<open>Recommend\<close>, \<open>Radar\<close>, \<open>Pipeline\<close>, \<open>Discovery\<close>, \<open>Production\<close>: \<open>global_opportunity_ranker.py\<close>,
    \<open>recommendation_engine.py\<close>, \<open>global_opportunity_cycle.py\<close> with \<open>opportunity_persistence.py\<close>, the
    evidence functions of \<open>global_opportunity_orchestration.py\<close>, \<open>opportunity_discovery.py\<close>, and their
    composition.
  \<^item> \<open>Requirements\<close>, \<open>Readiness\<close>: \<open>research_readiness.py\<close> and \<open>research_applicability.py\<close>: what research
    requires, how fresh and how authoritative evidence is, conflicts, the assessment of an instrument and the plan
    of what to acquire.  \<open>engine_readiness\<close> is the part of an assessment that \<open>StockRules\<close> takes as its input.
  \<^item> \<open>PriceHistory\<close>, \<open>FloatSum\<close>, \<open>Technical\<close>, \<open>SectorStrength\<close>, \<open>Scanner\<close>: \<open>session_history.py\<close>,
    \<open>technical_features.py\<close> (\<open>select_price_history\<close> and its normalizations in \<open>PriceHistory\<close>, the feature
    engine in \<open>Technical\<close>), \<open>sector_relative_strength.py\<close> and \<open>global_scanner.py\<close>.  The call
    \<open>TechnicalFeatureEngine.compute\<close> is \<open>compute_features\<close>, \<open>SectorRelativeStrengthEngine.compute\<close> is
    \<open>sector_strength\<close>, \<open>GlobalPreScore.score\<close> is \<open>pre_score\<close> and \<open>GlobalScanner.scan\<close> is \<open>scan_universe\<close>.
  \<^item> \<open>EtfMetrics\<close>, \<open>EtfEvidence\<close>, \<open>EtfReadiness\<close>, \<open>EtfRules\<close>: \<open>etf_metrics.py\<close>, \<open>etf_evidence.py\<close> with the fact
    selection of \<open>etf_persistence.py\<close>, \<open>etf_readiness.py\<close>, \<open>etf_rule_engine.py\<close>.
  \<^item> \<open>Connector\<close>: \<open>src/services/ibkr-connector/app/runtime.py\<close>; once as sequential operations and once as
    the interleaving of the parts between two awaits.

  Conventions.  A class of the code is a record whose fields carry a two-letter prefix, an enumeration a
  datatype, a dictionary whose order matters an association list and otherwise a map.  A raised exception is
  \<open>Inl\<close> of the theory's error datatype and every early return is a branch.  A date is its number of days, an
  instant its number of microseconds.  A \<open>Decimal\<close> is the rational it
  denotes, rounded after every operation to 28 digits (\<open>dec28\<close>); a \<open>float\<close> is the rational it denotes, rounded
  after every operation to binary64 (\<open>fl64\<close>), and \<open>Decimal(str(x))\<close> is the shortest decimal that reads back.
  NaN and the infinities are not values of the model; the code that rejects them is named at the definition.

  What the lemmas show.  Durable state: one active cycle per market, fencing of stale workers, irrevocable
  cancellation, frozen terminal rows, agreement of the cached handle with the rows, truthful progress.
  Readiness: a buying signal rests on complete evidence for every applicable mandatory input, conflicts and gaps are
  found exactly, an assessment with the default registries never fails.  Evidence: the merged fact has the highest authority, a discarded document can be retried, eviction keeps
  the bound of the store, the windows of a backfill cover the range once.  Engines: scores stay in their
  range, buying signals need the evidence the policy names, fraud and broken theses force an exit, news
  cannot look ahead, ratings follow the score.  Ranking and publication: the ranking does not depend on
  the order of its input, what is rank eligible, which cards may be bought, horizons once closed stay
  closed.  Features: indicators, scores and confidences stay in their range, unsound histories give no signal, confirmed
  swing points are final, nothing known only later changes a scan or a feature, and every scanned candidate is
  acceptable to the ranker.  Progress: discovery reaches every eligible instrument, submissions are paced.  Gateways: an owner
  is permanent, foreign users are refused, data needs an authenticated session.

  Parameters.  Code and services that are not in the repository are arguments: the digests (SHA-256), UUIDs,
  the time-zone database, \<open>urllib.parse\<close>, \<open>math.pow\<close>, the regular expressions of the disclosure patterns, the
  processes and HTTP answers of a gateway.  The properties that need something of them say so as a hypothesis.

  Bounds.  Lists of the code have no upper bound, and the rounding error of a float sum grows with its length:
  the properties of the rule engine are proved for instruments with at most \<open>MAX_RECORDS\<close> (a thousand million)
  news features and as many events, each feature with the impact between -100 and 100 that its model validates.
  The code loads every feature ever stored of an instrument and sets no limit itself; this one is beyond what a
  list in memory holds.  No recursion of the development uses fuel: loops are structural or have a measure.

  Not modelled.  HTTP routing, SQL text and database drivers (the transactions are modelled where they carry a
  state machine), network and file acquisition, parsing of PDF, HTML and spreadsheets, language-model
  interpretation, logging, metrics and display strings: their behaviour is that of external systems or of
  free text.  The readiness runtime, structured research, portfolio orchestration and the
  asynchronous driver of a cycle are calls to such systems in sequence; the decisions inside them that are
  pure (outcome states, evidence bridge, reviews, failure classes) are modelled.
\<close>

section \<open>From the evidence to the published radar\<close>

text \<open>C1: One official, validated and unresolved report of fraud keeps an instrument out of everything the radar
  offers to buy: whatever its scores, its price and the earlier recommendations, no card of the short-term
  or the long-term section and no best buy of the cycle is about it.\<close>

theorem fraud_is_never_bought:
  assumes "run_cycle digest digest2 uuid uuid2 evidence_of technical (engine_rules fpow disclosure allow_partial inputs) analysts
      prices store now universe controlled cands = Inr (recs, states, sel)"
    and "inputs k = Some v" and "e \<in> set (si_events v)" and "confirmed_fraud e"
  shows "k \<notin> sn_instrument ` cd_snapshot ` (set (sl_short sel) \<union> set (sl_long sel) \<union> set_option (sl_best sel))"
proof -
  have "\<exists>ov \<in> set (ru_overrides ru). ov_block_buy ov \<or> ov_severity ov = SEV_CRITICAL"
    if "engine_rules fpow disclosure allow_partial inputs k = Some ru" for ru
    using that assms(2) fraud_blocks[OF _ assms(3,4)] by (auto simp: engine_rules_def)
  then show ?thesis using blocked_never_bought[OF assms(1)] by auto
qed

text \<open>The ranker accepts whatever the rule engine produces: a list of distinct well-formed candidates is ranked, each
  exactly once, whether the engine gave a result or failed.\<close>

lemma well_formed_candidates_ranked:
  assumes "inputs_ok inputs" and "distinct (map sb_instrument cands)" and "list_all well_formed_candidate cands"
  shows "\<exists>ranked. rank_candidates (engine_rules fpow disclosure allow_partial inputs) cands = Inr ranked \<and>
    mset (map go_instrument ranked) = mset (map sb_instrument cands)"
proof -
  let ?rules = "engine_rules fpow disclosure allow_partial inputs"
  have "\<exists>r. rank_score c (?rules (sb_instrument c)) = Inr r" if "c \<in> set cands" for c
    using candidate_accepted[OF assms(1)] assms(3) that by (auto simp: list_all_iff)
  then obtain rs where rs: "score_all ?rules [] cands = Inr rs" using score_all_total[OF _ assms(2)] by blast
  have "mset (map go_instrument (sort_key rank_key rs)) = mset (map go_instrument rs)" by (simp add: mset_map)
  then show ?thesis
    using rs score_all_map(2)[OF rs] by (simp add: rank_candidates_def)
qed

text \<open>C10: From the universe to the ranking nothing is lost: the candidates that a scan admits, enriched with technical
  and sector features, are all accepted by the ranker with the results of the rule engine, and each of them is ranked
  exactly once, whether the engine gave a result for it or failed. What the store holds for the scan is arbitrary; the
  evidence the engine evaluates is arbitrary for up to \<open>MAX_RECORDS\<close> (a thousand million) news features, of impact at
  most 100, and as many events of an instrument; the configurations are those the code validates.\<close>

theorem scanned_candidates_are_ranked:
  assumes "scan_universe parse ist local utc c n d instruments as_of top_n = Inr found"
    and "enrich_candidates parse ist local utc tc sc w d contexts providers unready as_of (filter P (sc_candidates found)) = Inr enriched"
    and "valid_config tc" and "valid_sector_config sc" and "inputs_ok inputs"
  shows "\<exists>ranked. rank_candidates (engine_rules fpow disclosure allow_partial inputs) (map ranker_view enriched) = Inr ranked \<and>
    mset (map go_instrument ranked) =
      mset (map gl_instrument (filter (\<lambda>cand. P cand \<and> (gl_deep cand \<or> unready \<and> gl_acquirable cand)) (sc_candidates found)))"
proof -
  have "distinct (map gl_instrument (filter P (sc_candidates found)))"
    using scan_distinct(1)[OF assms(1)] by (simp add: distinct_map_filter)
  note E = enriched_ok[OF assms(2-4) this]
  show ?thesis using well_formed_candidates_ranked[OF assms(5) E(2,1)] E(3) by (simp add: conj_commute)
qed

section \<open>Concrete cycles\<close>

definition fraud_candidate :: stage_b_candidate where
  "fraud_candidate =
     (let t = \<lparr>tv_instrument = ''i'', tv_score = Some 90, tv_state = ''UPTREND'', tv_confidence = 80, tv_stale = [], tv_features = []\<rparr>;
          s = \<lparr>sv_instrument = ''i'', sv_score = Some 70, sv_state = ''LEADING'', sv_confidence = 70, sv_stale = [], sv_missing = []\<rparr>
      in \<lparr>sb_instrument = ''i'', sb_version = ''GLOBAL_STAGE_B_V1'', sb_technical = t, sb_sector = s,
          sb_technical_score = Some 90, sb_sector_score = Some 70\<rparr>)"

definition fraud_technical :: technical_snapshot where
  "fraud_technical = \<lparr>ts_price = Some 1000, ts_support = Some 980, ts_resistance = Some 1150, ts_atr14 = Some 50,
     ts_state = ''UPTREND'', ts_missing = [], ts_stale = [], ts_conflicting = [], ts_currency = Some ''INR''\<rparr>"

lemma fraud_candidate_ok: "inputs_ok [''i'' \<mapsto> witness_input]" "distinct (map sb_instrument [fraud_candidate])"
  "list_all well_formed_candidate [fraud_candidate]"
  using witness_input_ok
  by (simp_all add: inputs_ok_def well_formed_candidate_def fraud_candidate_def in_score_range_def Let_def witness_input_def)

lemma scanned_candidates_are_ranked_witness:
  "\<exists>o1. (\<exists>found enriched.
       scan_universe (\<lambda>_. \<lparr>url_scheme = [], url_host = None, url_parts = [], url_flags = [], url_path_has_history = False\<rparr>)
         utc_date demo_local demo_utc default_pre_score 1 demo_store [(Some ''i'', demo_instrument)] 0 5 = Inr found \<and>
       enrich_candidates (\<lambda>_. \<lparr>url_scheme = [], url_host = None, url_parts = [], url_flags = [], url_path_has_history = False\<rparr>)
         utc_date demo_local demo_utc default_config default_sector_config (1, 0) demo_store (\<lambda>_. None) (\<lambda>_. None) True 0
         (filter gl_acquirable (sc_candidates found)) = Inr enriched \<and>
       rank_candidates (engine_rules (\<lambda>x y. x) (\<lambda>t. False) True [''i'' \<mapsto> witness_input]) (map ranker_view enriched) = Inr [o1]) \<and>
     go_instrument o1 = ''i''"
proof -
  let ?parse = "\<lambda>_. \<lparr>url_scheme = [], url_host = None, url_parts = [], url_flags = [], url_path_has_history = False\<rparr>"
  obtain found where found: "scan_universe ?parse utc_date demo_local demo_utc default_pre_score 1 demo_store [(Some ''i'', demo_instrument)] 0 5 = Inr found"
      "map gl_instrument (filter gl_acquirable (sc_candidates found)) = [''i'']"
    using demo_scan[of ?parse utc_date demo_local demo_utc default_pre_score 0 5] by auto
  obtain enriched where e: "enrich_candidates ?parse utc_date demo_local demo_utc default_config default_sector_config (1, 0) demo_store
      (\<lambda>_. None) (\<lambda>_. None) True 0 (filter gl_acquirable (sc_candidates found)) = Inr enriched"
    by (simp add: enrich_candidates_def)
  obtain ranked where r: "rank_candidates (engine_rules (\<lambda>x y. x) (\<lambda>t. False) True [''i'' \<mapsto> witness_input]) (map ranker_view enriched) = Inr ranked"
      "mset (map go_instrument ranked) =
        mset (map gl_instrument (filter (\<lambda>cand. gl_acquirable cand \<and> (gl_deep cand \<or> True \<and> gl_acquirable cand)) (sc_candidates found)))"
    using scanned_candidates_are_ranked[OF found(1) e default_config_valid default_sector_config_valid fraud_candidate_ok(1),
        of "\<lambda>x y. x" "\<lambda>t. False" True] by blast
  have "filter (\<lambda>cand. gl_acquirable cand \<and> (gl_deep cand \<or> True \<and> gl_acquirable cand)) (sc_candidates found) =
      filter gl_acquirable (sc_candidates found)"
    by (rule filter_cong) auto
  then have "mset (map go_instrument ranked) = mset [''i'']" using r(2) unfolding found(2)[symmetric] by (simp only:)
  then have "map go_instrument ranked = [''i'']" by (simp only: mset_single_iff mset.simps)
  then show ?thesis using found(1) e r(1) by auto
qed

lemma fraud_cycle:
  "\<exists>recs states sel. run_cycle (\<lambda>_. []) (\<lambda>_ _ _. []) (\<lambda>k. k) (\<lambda>n. ''R'') (\<lambda>_. no_evidence)
     [''i'' \<mapsto> fraud_technical] (engine_rules (\<lambda>x y. x) (\<lambda>t. False) True [''i'' \<mapsto> witness_input]) (\<lambda>k. None) (\<lambda>k. None)
     empty_store 1 1 False [fraud_candidate] = Inr (recs, states, sel)"
proof -
  have "\<exists>r. rank_score c (engine_rules (\<lambda>x y. x) (\<lambda>t. False) True [''i'' \<mapsto> witness_input] (sb_instrument c)) = Inr r"
    if "c \<in> set [fraud_candidate]" for c
    using candidate_accepted[OF fraud_candidate_ok(1)] fraud_candidate_ok(3) that by (auto simp: list_all_iff)
  then obtain rs where "score_all (engine_rules (\<lambda>x y. x) (\<lambda>t. False) True [''i'' \<mapsto> witness_input]) [] [fraud_candidate] = Inr rs"
    using score_all_total[OF _ fraud_candidate_ok(2)] by blast
  then show ?thesis by (intro cycle_prepared) (auto simp: rank_candidates_def)
qed

lemma fraud_is_never_bought_witness:
  "\<exists>recs states sel. run_cycle (\<lambda>_. []) (\<lambda>_ _ _. []) (\<lambda>k. k) (\<lambda>n. ''R'') (\<lambda>_. no_evidence)
     [''i'' \<mapsto> fraud_technical] (engine_rules (\<lambda>x y. x) (\<lambda>t. False) True [''i'' \<mapsto> witness_input]) (\<lambda>k. None) (\<lambda>k. None)
     empty_store 1 1 False [fraud_candidate] = Inr (recs, states, sel) \<and>
   ''i'' \<notin> sn_instrument ` cd_snapshot ` (set (sl_short sel) \<union> set (sl_long sel) \<union> set_option (sl_best sel))"
proof -
  obtain recs states sel where r: "run_cycle (\<lambda>_. []) (\<lambda>_ _ _. []) (\<lambda>k. k) (\<lambda>n. ''R'') (\<lambda>_. no_evidence)
     [''i'' \<mapsto> fraud_technical] (engine_rules (\<lambda>x y. x) (\<lambda>t. False) True [''i'' \<mapsto> witness_input]) (\<lambda>k. None) (\<lambda>k. None)
     empty_store 1 1 False [fraud_candidate] = Inr (recs, states, sel)"
    using fraud_cycle by blast
  have "witness_event \<in> set (si_events witness_input)" by (simp add: witness_input_def)
  from fraud_is_never_bought[OF r _ this witness_fraud] show ?thesis using r by auto
qed

end
